(* ===== verification/Prelude.thy ===== *)
theory Prelude
  imports Main "HOL-Library.Word" "HOL-Library.Monad_Syntax"
begin

text \<open>
  Shared vocabulary of the development: the machine types of \<^verbatim>\<open>src/utils/common.h\<close>, byte
  buffers, the big/little endian accessors \<^verbatim>\<open>WPA_GET_*\<close> / \<^verbatim>\<open>WPA_PUT_*\<close>, the memory
  comparison functions, and the collections of rewrite rules that the component theories use.

  Conventions.  A C buffer (pointer and length) is a \<open>bytes\<close> list; a nullable pointer is an
  \<open>option\<close>; a function that can end the process (\<^verbatim>\<open>abort()\<close> in \<^verbatim>\<open>wpabuf_overflow\<close>, a
  NULL pointer handed to code that dereferences it) has an option result whose \<open>None\<close> is that
  abnormal end, written \<open>'a run\<close>.
\<close>

unbundle bit_operations_syntax

type_synonym u8 = "8 word"
type_synonym u16 = "16 word"
type_synonym u32 = "32 word"
type_synonym u64 = "64 word"
type_synonym size_t = "64 word"
type_synonym bytes = "u8 list"
type_synonym 'a run = "'a option"

named_theorems wp \<open>rules that work backwards through a run\<close>
named_theorems len_simps \<open>lengths of encoded fields and buffers\<close>
named_theorems codec_simps \<open>reading back what was written\<close>
named_theorems inv_intros \<open>operations keep their component's invariant\<close>

subsection \<open>Byte strings\<close>

text \<open>A C string literal without its terminating NUL.\<close>

definition ascii :: "string \<Rightarrow> bytes" where
  "ascii s = map (\<lambda>c. word_of_nat (of_char c)) s"

definition xor_bytes :: "bytes \<Rightarrow> bytes \<Rightarrow> bytes" where
  "xor_bytes a b = map2 (\<lambda>x y. x XOR y) a b"

subsection \<open>Endian accessors (common.h)\<close>

definition WPA_GET_BE16 :: "bytes \<Rightarrow> u16" where
  "WPA_GET_BE16 a = push_bit 8 (ucast (a ! 0)) OR ucast (a ! 1)"

definition WPA_PUT_BE16 :: "u16 \<Rightarrow> bytes" where
  "WPA_PUT_BE16 val = [ucast (drop_bit 8 val), ucast (val AND 0xff)]"

definition WPA_GET_LE16 :: "bytes \<Rightarrow> u16" where
  "WPA_GET_LE16 a = push_bit 8 (ucast (a ! 1)) OR ucast (a ! 0)"

definition WPA_PUT_LE16 :: "u16 \<Rightarrow> bytes" where
  "WPA_PUT_LE16 val = [ucast (val AND 0xff), ucast (drop_bit 8 val)]"

definition WPA_PUT_BE24 :: "u32 \<Rightarrow> bytes" where
  "WPA_PUT_BE24 val =
     [ucast (drop_bit 16 val AND 0xff), ucast (drop_bit 8 val AND 0xff), ucast (val AND 0xff)]"

definition WPA_GET_BE32 :: "bytes \<Rightarrow> u32" where
  "WPA_GET_BE32 a =
     push_bit 24 (ucast (a ! 0)) OR push_bit 16 (ucast (a ! 1)) OR
     push_bit 8 (ucast (a ! 2)) OR ucast (a ! 3)"

definition WPA_PUT_BE32 :: "u32 \<Rightarrow> bytes" where
  "WPA_PUT_BE32 val =
     [ucast (drop_bit 24 val AND 0xff), ucast (drop_bit 16 val AND 0xff),
      ucast (drop_bit 8 val AND 0xff), ucast (val AND 0xff)]"

definition WPA_GET_LE32 :: "bytes \<Rightarrow> u32" where
  "WPA_GET_LE32 a =
     push_bit 24 (ucast (a ! 3)) OR push_bit 16 (ucast (a ! 2)) OR
     push_bit 8 (ucast (a ! 1)) OR ucast (a ! 0)"

definition WPA_PUT_LE32 :: "u32 \<Rightarrow> bytes" where
  "WPA_PUT_LE32 val =
     [ucast (val AND 0xff), ucast (drop_bit 8 val AND 0xff),
      ucast (drop_bit 16 val AND 0xff), ucast (drop_bit 24 val AND 0xff)]"

definition WPA_GET_BE64 :: "bytes \<Rightarrow> u64" where
  "WPA_GET_BE64 a =
     push_bit 56 (ucast (a ! 0)) OR push_bit 48 (ucast (a ! 1)) OR
     push_bit 40 (ucast (a ! 2)) OR push_bit 32 (ucast (a ! 3)) OR
     push_bit 24 (ucast (a ! 4)) OR push_bit 16 (ucast (a ! 5)) OR
     push_bit 8 (ucast (a ! 6)) OR ucast (a ! 7)"

definition WPA_PUT_BE64 :: "u64 \<Rightarrow> bytes" where
  "WPA_PUT_BE64 val =
     [ucast (drop_bit 56 val), ucast (drop_bit 48 val), ucast (drop_bit 40 val),
      ucast (drop_bit 32 val), ucast (drop_bit 24 val), ucast (drop_bit 16 val),
      ucast (drop_bit 8 val), ucast (val AND 0xff)]"

lemmas put_defs = WPA_PUT_BE16_def WPA_PUT_LE16_def WPA_PUT_BE24_def WPA_PUT_BE32_def
  WPA_PUT_LE32_def WPA_PUT_BE64_def
lemmas get_defs = WPA_GET_BE16_def WPA_GET_LE16_def WPA_GET_BE32_def WPA_GET_LE32_def
  WPA_GET_BE64_def

lemma length_put [simp, len_simps]:
  "length (WPA_PUT_BE16 v) = 2" "length (WPA_PUT_LE16 v) = 2" "length (WPA_PUT_BE24 w) = 3"
  "length (WPA_PUT_BE32 w) = 4" "length (WPA_PUT_LE32 w) = 4" "length (WPA_PUT_BE64 x) = 8"
  by (simp_all add: put_defs)

lemma and_255: "w AND 255 = take_bit 8 w" for w :: "'a::len word"
proof -
  have "(255 :: 'a word) = mask 8" by (simp add: mask_eq_exp_minus_1)
  then show ?thesis by (simp add: take_bit_eq_mask)
qed

lemma get_put_be16 [codec_simps]: "WPA_GET_BE16 (WPA_PUT_BE16 v @ r) = v"
  by (rule bit_word_eqI) (auto simp: get_defs put_defs and_255 bit_simps not_less)

lemma get_put_le16 [codec_simps]: "WPA_GET_LE16 (WPA_PUT_LE16 v @ r) = v"
  by (rule bit_word_eqI) (auto simp: get_defs put_defs and_255 bit_simps not_less)

lemma get_put_be32 [codec_simps]: "WPA_GET_BE32 (WPA_PUT_BE32 v @ r) = v"
proof (rule bit_word_eqI)
  fix n assume "n < LENGTH(32)"
  then consider "n < 8" | "8 \<le> n \<and> n < 16" | "16 \<le> n \<and> n < 24" | "24 \<le> n \<and> n < 32"
    by force
  then show "bit (WPA_GET_BE32 (WPA_PUT_BE32 v @ r)) n = bit v n"
    by cases (auto simp: get_defs put_defs and_255 bit_simps)
qed

lemma get_put_le32 [codec_simps]: "WPA_GET_LE32 (WPA_PUT_LE32 v @ r) = v"
proof (rule bit_word_eqI)
  fix n assume "n < LENGTH(32)"
  then consider "n < 8" | "8 \<le> n \<and> n < 16" | "16 \<le> n \<and> n < 24" | "24 \<le> n \<and> n < 32"
    by force
  then show "bit (WPA_GET_LE32 (WPA_PUT_LE32 v @ r)) n = bit v n"
    by cases (auto simp: get_defs put_defs and_255 bit_simps)
qed

subsection \<open>Comparison and xor of buffers\<close>

text \<open>\<^verbatim>\<open>os_memcmp\<close> on two buffers of the same length: the sign of the first difference.\<close>

fun os_memcmp :: "bytes \<Rightarrow> bytes \<Rightarrow> int" where
  "os_memcmp (a # as) (b # bs) = (if a = b then os_memcmp as bs else if a < b then - 1 else 1)"
| "os_memcmp _ _ = 0"

text \<open>\<^verbatim>\<open>os_memcmp_const\<close>: the loop accumulates the differences with OR and returns the
  accumulator, so its running time does not depend on where the buffers differ.\<close>

fun memcmp_const_loop :: "u8 \<Rightarrow> bytes \<Rightarrow> bytes \<Rightarrow> u8" where
  "memcmp_const_loop res (a # as) (b # bs) = memcmp_const_loop (res OR (a XOR b)) as bs"
| "memcmp_const_loop res _ _ = res"

definition os_memcmp_const :: "bytes \<Rightarrow> bytes \<Rightarrow> nat \<Rightarrow> int" where
  "os_memcmp_const a b len = uint (memcmp_const_loop 0 (take len a) (take len b))"

lemma word_xor_eq_0: "a XOR b = 0 \<longleftrightarrow> a = b" for a b :: "'a::len word"
  by (auto simp: bit_eq_iff bit_xor_iff)

lemma memcmp_const_loop_0:
  "length a = length b \<Longrightarrow> memcmp_const_loop res a b = 0 \<longleftrightarrow> res = 0 \<and> a = b"
  by (induction res a b rule: memcmp_const_loop.induct) (auto simp: or_eq_0_iff word_xor_eq_0)

lemma os_memcmp_const_0:
  "len \<le> length a \<Longrightarrow> len \<le> length b \<Longrightarrow>
   os_memcmp_const a b len = 0 \<longleftrightarrow> take len a = take len b"
  by (simp add: os_memcmp_const_def uint_0_iff memcmp_const_loop_0 min_def)

lemma os_memcmp_0: "length a = length b \<Longrightarrow> os_memcmp a b = 0 \<longleftrightarrow> a = b"
  by (induction a b rule: os_memcmp.induct) auto

lemma os_memcmp_refl [simp]: "os_memcmp a a = 0"
  by (induction a) auto

lemma os_memcmp_swap: "os_memcmp b a = - os_memcmp a b"
proof (induction a b rule: os_memcmp.induct)
  case (1 a as b bs)
  then show ?case by (auto simp: not_less)
qed (auto intro: os_memcmp.elims)

lemma length_xor_bytes [simp, len_simps]: "length (xor_bytes a b) = min (length a) (length b)"
  by (simp add: xor_bytes_def)

lemma xor_bytes_cancel [simp]: "length a = length b \<Longrightarrow> xor_bytes (xor_bytes a b) b = a"
  by (rule nth_equalityI) (auto simp: xor_bytes_def xor.assoc)

lemma xor_bytes_commute: "xor_bytes a b = xor_bytes b a"
  by (rule nth_equalityI) (auto simp: xor_bytes_def xor.commute)

subsection \<open>Small words\<close>

text \<open>A word below \<open>k\<close> is one of \<open>k\<close> numerals, for proofs by evaluation.\<close>

lemma word_below_cases: "unat b < k \<Longrightarrow> b \<in> set (map word_of_nat [0..<k])" for b :: "'a::len word"
  by (auto intro!: image_eqI [where x = "unat b"])

lemma mask_15: "(15 :: 'a::len word) = mask 4"
  by (simp add: mask_eq_exp_minus_1)

lemma byte_nibbles: "push_bit 4 (uint (drop_bit 4 b)) OR uint (b AND 15) = uint b" for b :: u8
proof (rule bit_eqI)
  fix n
  show "bit (push_bit 4 (uint (drop_bit 4 b)) OR uint (b AND 15)) n = bit (uint b) n"
    by (cases "n < 4") (auto simp: mask_15 bit_simps not_less dest: bit_imp_le_length)
qed

lemma unat_drop_bit: "unat (drop_bit n b) = unat b div 2 ^ n" for b :: "'a::len word"
  by (metis drop_bit_eq_div unat_div unat_drop_bit_eq unsigned_drop_bit_eq)

lemma unat_nibbles: "unat (drop_bit 4 b) < 16" "unat (b AND 15) < 16" for b :: u8
proof -
  have "unat b < 256" using unsigned_less [of b] by simp
  then show "unat (drop_bit 4 b) < 16" by (simp add: unat_drop_bit less_mult_imp_div_less)
  have "b AND 15 \<le> 15" by (rule word_and_le1)
  then show "unat (b AND 15) < 16" by (simp add: word_le_nat_alt)
qed

subsection \<open>Big endian numbers\<close>

text \<open>The value of a byte array read as a big endian number.\<close>

definition be_val :: "bytes \<Rightarrow> nat" where
  "be_val bs = foldl (\<lambda>a b. a * 256 + unat b) 0 bs"

lemma be_val_snoc: "be_val (bs @ [b]) = be_val bs * 256 + unat b"
  by (simp add: be_val_def)

lemma be_val_less: "be_val bs < 256 ^ length bs"
proof (induction bs rule: rev_induct)
  case (snoc b bs)
  have "unat b < 256" using unsigned_less [of b] by simp
  with snoc show ?case by (simp add: be_val_snoc)
qed (simp add: be_val_def)

text \<open>The big endian representation of a number in a fixed number of octets.\<close>

fun be_bytes :: "nat \<Rightarrow> nat \<Rightarrow> bytes" where
  "be_bytes 0 n = []"
| "be_bytes (Suc k) n = be_bytes k (n div 256) @ [word_of_nat (n mod 256)]"

lemma length_be_bytes [simp, len_simps]: "length (be_bytes k n) = k"
  by (induction k arbitrary: n) simp_all

lemma be_val_be_bytes [codec_simps]: "n < 256 ^ k \<Longrightarrow> be_val (be_bytes k n) = n"
proof (induction k arbitrary: n)
  case (Suc k)
  then have "n div 256 < 256 ^ k" by (simp add: less_mult_imp_div_less mult.commute)
  with Suc.IH show ?case by (simp add: be_val_snoc unat_of_nat)
qed (simp add: be_val_def)

lemma be_bytes_be_val [codec_simps]: "be_bytes (length bs) (be_val bs) = bs"
proof (induction bs rule: rev_induct)
  case (snoc b bs)
  have b: "unat b < 256" using unsigned_less [of b] by simp
  then have "be_val (bs @ [b]) div 256 = be_val bs" "be_val (bs @ [b]) mod 256 = unat b"
    by (simp_all add: be_val_snoc)
  with snoc show ?case by simp
qed simp

lemma be_val_inj: "length a = length b \<Longrightarrow> be_val a = be_val b \<Longrightarrow> a = b"
  by (metis be_bytes_be_val)

lemma be_val_append: "be_val (a @ b) = be_val a * 256 ^ length b + be_val b"
proof (induction b rule: rev_induct)
  case (snoc x b)
  then show ?case using be_val_snoc [of "a @ b" x] by (simp add: be_val_snoc algebra_simps)
qed (simp add: be_val_def)

lemma be_val_zeros [simp]: "be_val (replicate n 0) = 0"
  by (induction n) (simp_all add: be_val_def)

lemma be_val_single [simp]: "be_val [b] = unat b"
  by (simp add: be_val_def)

lemma be_val_Nil [simp]: "be_val [] = 0"
  by (simp add: be_val_def)

lemma be_bytes_eqI: "length bs = k \<Longrightarrow> be_val bs = n \<Longrightarrow> be_bytes k n = bs"
  using be_bytes_be_val by blast

lemma be_val_Cons: "be_val (b # bs) = unat b * 256 ^ length bs + be_val bs"
  using be_val_append [of "[b]" bs] by simp

text \<open>Comparing buffers of one length with \<^verbatim>\<open>os_memcmp\<close> compares the numbers in them.\<close>

lemma os_memcmp_be_val:
  "length a = length b \<Longrightarrow> os_memcmp a b \<ge> 0 \<longleftrightarrow> be_val a \<ge> be_val b"
proof (induction a b rule: os_memcmp.induct)
  case (1 a as b bs)
  have lt: "be_val as < 256 ^ length as" "be_val bs < 256 ^ length as"
    using be_val_less [of as] be_val_less [of bs] 1 by simp_all
  show ?case
  proof (cases "a = b")
    case True
    with 1 show ?thesis by (simp add: be_val_Cons)
  next
    case False
    have step: "unat x * 256 ^ length as + u < unat y * 256 ^ length as + v"
      if "unat x < unat y" "u < 256 ^ length as" for x y :: u8 and u v
    proof -
      have "unat x * 256 ^ length as + u < (unat x + 1) * 256 ^ length as" using that(2) by simp
      also have "\<dots> \<le> unat y * 256 ^ length as" using that(1) by (intro mult_right_mono) simp_all
      finally show ?thesis by simp
    qed
    from False have "unat a < unat b \<or> unat b < unat a"
      by (metis linorder_neqE_nat unsigned_word_eqI)
    with False 1 lt show ?thesis
      using step [of a b "be_val as" "be_val bs"] step [of b a "be_val bs" "be_val as"]
      by (auto simp: be_val_Cons word_less_nat_alt)
  qed
qed simp_all

subsection \<open>Runs\<close>

text \<open>\<open>ensures m Q\<close>: if the run \<open>m\<close> returns, its result satisfies \<open>Q\<close>.  The rules of the collection
  \<open>wp\<close> work backwards through a run, one bind at a time; the components add a rule for each of their
  operations.\<close>

definition ensures :: "'a run \<Rightarrow> ('a \<Rightarrow> bool) \<Rightarrow> bool" where
  "ensures m Q \<longleftrightarrow> (\<forall>x. m = Some x \<longrightarrow> Q x)"

lemma ensuresD: "ensures m Q \<Longrightarrow> m = Some x \<Longrightarrow> Q x"
  by (simp add: ensures_def)

lemma ensures_pairI: "(\<And>a b. m = Some (a, b) \<Longrightarrow> Q (a, b)) \<Longrightarrow> ensures m Q"
  by (auto simp: ensures_def)

lemma ensures_mono: "ensures m Q \<Longrightarrow> (\<And>x. Q x \<Longrightarrow> R x) \<Longrightarrow> ensures m R"
  by (auto simp: ensures_def)

lemma ensures_bind [wp]: "ensures m (\<lambda>x. ensures (f x) Q) \<Longrightarrow> ensures (m \<bind> f) Q"
  by (auto simp: ensures_def split: Option.bind_splits)

lemma ensures_Some [wp]: "Q x \<Longrightarrow> ensures (Some x) Q"
  by (simp add: ensures_def)

lemma ensures_None [wp]: "ensures None Q"
  by (simp add: ensures_def)

lemma ensures_if [wp]: "(b \<Longrightarrow> ensures m Q) \<Longrightarrow> (\<not> b \<Longrightarrow> ensures n Q) \<Longrightarrow> ensures (if b then m else n) Q"
  by simp

lemma ensures_pair [wp]: "ensures (f a b) Q \<Longrightarrow> ensures (case (a, b) of (x, y) \<Rightarrow> f x y) Q"
  by simp

lemma ensures_case_option [wp]:
  "(x = None \<Longrightarrow> ensures m Q) \<Longrightarrow> (\<And>y. x = Some y \<Longrightarrow> ensures (f y) Q) \<Longrightarrow>
   ensures (case x of None \<Rightarrow> m | Some y \<Rightarrow> f y) Q"
  by (cases x) simp_all

end
