(* ===== verification/TextCodec.thy ===== *)
theory TextCodec
  imports Prelude
begin

text \<open>
  Text forms of binary data, from \<^verbatim>\<open>src/utils/common.c\<close>: hexadecimal strings, MAC
  addresses, the \<^verbatim>\<open>printf\<close>-style escaping used for SSIDs and configuration strings, the
  single-quote escaping of the control interface, and the SSID parser built from them.

  A NUL terminated string is the list of its characters without the NUL; reading the terminator
  is reading \<open>0\<close> past the end (\<open>char_at\<close>).  Encoders that fill a buffer of a given size
  return the text they leave in it.  The locale \<open>text_codec\<close> states what a caller of an
  encoder/decoder pair relies on; it is interpreted on the hexadecimal, printf and quote codecs
  here and on Base64 in its own theory.
\<close>

subsection \<open>The interface\<close>

locale text_codec =
  fixes enc :: "bytes \<Rightarrow> bytes" and dec :: "bytes \<Rightarrow> bytes option" and dom_enc :: "bytes \<Rightarrow> bool"
  assumes dec_enc: "dom_enc d \<Longrightarrow> dec (enc d) = Some d"
begin

lemma enc_inj: "dom_enc a \<Longrightarrow> dom_enc b \<Longrightarrow> enc a = enc b \<Longrightarrow> a = b"
  using dec_enc by (metis option.inject)

lemma inj_on_enc: "inj_on enc {d. dom_enc d}"
  using enc_inj by (auto simp: inj_on_def)

end

subsection \<open>Characters\<close>

definition ch :: "char \<Rightarrow> u8" where
  "ch c = word_of_nat (of_char c)"

definition char_at :: "bytes \<Rightarrow> nat \<Rightarrow> u8" where
  "char_at s i = (if i < length s then s ! i else 0)"

subsection \<open>Hexadecimal\<close>

definition hex2num :: "u8 \<Rightarrow> int" where
  "hex2num c =
     (if c \<ge> ch CHR ''0'' \<and> c \<le> ch CHR ''9'' then uint c - uint (ch CHR ''0'')
      else if c \<ge> ch CHR ''a'' \<and> c \<le> ch CHR ''f'' then uint c - uint (ch CHR ''a'') + 10
      else if c \<ge> ch CHR ''A'' \<and> c \<le> ch CHR ''F'' then uint c - uint (ch CHR ''A'') + 10
      else - 1)"

definition hex2byte :: "bytes \<Rightarrow> int" where
  "hex2byte hex =
     (let a = hex2num (char_at hex 0)
      in if a < 0 then - 1
         else let b = hex2num (char_at hex 1)
              in if b < 0 then - 1 else push_bit 4 a OR b)"

text \<open>\<^verbatim>\<open>hexstr2bin(hex, buf, len)\<close>: \<open>None\<close> for the return value -1, otherwise the bytes
  stored in \<^verbatim>\<open>buf\<close>.\<close>

fun hexstr2bin :: "bytes \<Rightarrow> nat \<Rightarrow> bytes option" where
  "hexstr2bin hex 0 = Some []"
| "hexstr2bin hex (Suc n) =
     (let a = hex2byte hex
      in if a < 0 then None
         else map_option (Cons (word_of_int a)) (hexstr2bin (drop 2 hex) n))"

text \<open>One hexadecimal digit and \<^verbatim>\<open>"%02x"\<close> / \<^verbatim>\<open>"%02X"\<close> of the C library.\<close>

definition hexdig :: "bool \<Rightarrow> u8 \<Rightarrow> u8" where
  "hexdig uppercase n =
     (if n < 10 then ch CHR ''0'' + n
      else (if uppercase then ch CHR ''A'' else ch CHR ''a'') + (n - 10))"

definition fmt02x :: "bool \<Rightarrow> u8 \<Rightarrow> bytes" where
  "fmt02x uppercase b = [hexdig uppercase (drop_bit 4 b), hexdig uppercase (b AND 15)]"

text \<open>\<^verbatim>\<open>_wpa_snprintf_hex\<close>: the loop stops when \<^verbatim>\<open>os_snprintf_error(end - pos, ret)\<close> holds
  for the two characters of the next byte, that is when fewer than three bytes are left; the text
  up to the returned length is the result.\<close>

fun snprintf_hex_loop :: "bool \<Rightarrow> nat \<Rightarrow> bytes \<Rightarrow> bytes" where
  "snprintf_hex_loop uppercase left [] = []"
| "snprintf_hex_loop uppercase left (b # bs) =
     (if 2 \<ge> left then [] else fmt02x uppercase b @ snprintf_hex_loop uppercase (left - 2) bs)"

definition wpa_snprintf_hex' :: "nat \<Rightarrow> bytes \<Rightarrow> bool \<Rightarrow> bytes" where
  "wpa_snprintf_hex' buf_size data uppercase =
     (if buf_size = 0 then [] else snprintf_hex_loop uppercase buf_size data)"

definition wpa_snprintf_hex :: "nat \<Rightarrow> bytes \<Rightarrow> bytes" where
  "wpa_snprintf_hex buf_size data = wpa_snprintf_hex' buf_size data False"

definition wpa_snprintf_hex_uppercase :: "nat \<Rightarrow> bytes \<Rightarrow> bytes" where
  "wpa_snprintf_hex_uppercase buf_size data = wpa_snprintf_hex' buf_size data True"

subsection \<open>MAC addresses\<close>

fun hwaddr_parse_loop :: "nat \<Rightarrow> bytes \<Rightarrow> (bytes \<times> bytes) option" where
  "hwaddr_parse_loop 0 txt = Some ([], txt)"
| "hwaddr_parse_loop (Suc n) txt =
     (let a = hex2byte txt
      in if a < 0 then None
         else let txt = drop 2 txt
              in if n > 0 \<and> char_at txt 0 \<noteq> ch CHR '':'' then None
                 else map_option (apfst (Cons (word_of_int a)))
                        (hwaddr_parse_loop n (if n > 0 then drop 1 txt else txt)))"

text \<open>The parsed address and the rest of the text; the loop counter \<open>n\<close> above is the number of
  octets still to read (\<^verbatim>\<open>ETH_ALEN - i\<close>).\<close>

definition hwaddr_parse :: "bytes \<Rightarrow> (bytes \<times> bytes) option" where
  "hwaddr_parse txt = hwaddr_parse_loop 6 txt"

definition hwaddr_aton :: "bytes \<Rightarrow> bytes option" where
  "hwaddr_aton txt = map_option fst (hwaddr_parse txt)"

definition isspace :: "u8 \<Rightarrow> bool" where
  "isspace c \<longleftrightarrow> c = 32 \<or> (9 \<le> c \<and> c \<le> 13)"

definition hwaddr_masked_aton :: "bytes \<Rightarrow> bool \<Rightarrow> (bytes \<times> bytes) option" where
  "hwaddr_masked_aton txt maskable =
     (case hwaddr_parse txt of
        None \<Rightarrow> None
      | Some (addr, r) \<Rightarrow>
          if char_at r 0 = 0 \<or> isspace (char_at r 0) then Some (addr, replicate 6 0xff)
          else if maskable \<and> char_at r 0 = ch CHR ''/'' then
            (case hwaddr_parse (drop 1 r) of None \<Rightarrow> None | Some (msk, _) \<Rightarrow> Some (addr, msk))
          else None)"

fun hwaddr_compact_loop :: "nat \<Rightarrow> bytes \<Rightarrow> bytes option" where
  "hwaddr_compact_loop 0 txt = Some []"
| "hwaddr_compact_loop (Suc n) txt =
     (let a = hex2num (char_at txt 0)
      in if a < 0 then None
         else let b = hex2num (char_at txt 1)
              in if b < 0 then None
                 else map_option (Cons (word_of_int (push_bit 4 a OR b)))
                        (hwaddr_compact_loop n (drop 2 txt)))"

definition hwaddr_compact_aton :: "bytes \<Rightarrow> bytes option" where
  "hwaddr_compact_aton txt = hwaddr_compact_loop 6 txt"

fun skip_seps :: "bytes \<Rightarrow> bytes" where
  "skip_seps (c # cs) =
     (if c = ch CHR '':'' \<or> c = ch CHR ''.'' \<or> c = ch CHR ''-'' then skip_seps cs else c # cs)"
| "skip_seps [] = []"

fun hwaddr_aton2_loop :: "nat \<Rightarrow> bytes \<Rightarrow> (bytes \<times> bytes) option" where
  "hwaddr_aton2_loop 0 pos = Some ([], pos)"
| "hwaddr_aton2_loop (Suc n) pos =
     (let pos = skip_seps pos; a = hex2num (char_at pos 0)
      in if a < 0 then None
         else let b = hex2num (char_at pos 1)
              in if b < 0 then None
                 else map_option (apfst (Cons (word_of_int (push_bit 4 a OR b))))
                        (hwaddr_aton2_loop n (drop 2 pos)))"

text \<open>The address and the number of characters used.\<close>

definition hwaddr_aton2 :: "bytes \<Rightarrow> (bytes \<times> nat) option" where
  "hwaddr_aton2 txt =
     map_option (\<lambda>(addr, pos). (addr, length txt - length pos)) (hwaddr_aton2_loop 6 txt)"

text \<open>\<^verbatim>\<open>MACSTR\<close> with \<^verbatim>\<open>MAC2STR(a)\<close>: six octets in hexadecimal with colons between them.\<close>

fun macstr :: "bytes \<Rightarrow> bytes" where
  "macstr [] = []"
| "macstr [b] = fmt02x False b"
| "macstr (b # bs) = fmt02x False b @ [ch CHR '':''] @ macstr bs"

definition hwaddr_mask_txt :: "nat \<Rightarrow> bytes \<Rightarrow> bytes \<Rightarrow> bytes option" where
  "hwaddr_mask_txt len addr msk =
     (let txt = (if list_ex (\<lambda>m. m \<noteq> 0xff) msk then macstr addr @ [ch CHR ''/''] @ macstr msk
                 else macstr addr)
      in if length txt \<ge> len then None else Some txt)"

subsection \<open>printf-style escaping\<close>

definition printf_enc1 :: "u8 \<Rightarrow> bytes" where
  "printf_enc1 c =
     (if c = 34 then [92, 34]
      else if c = 92 then [92, 92]
      else if c = 27 then [92, ch CHR ''e'']
      else if c = 10 then [92, ch CHR ''n'']
      else if c = 13 then [92, ch CHR ''r'']
      else if c = 9 then [92, ch CHR ''t'']
      else if c \<ge> 32 \<and> c \<le> 126 then [c]
      else [92, ch CHR ''x''] @ fmt02x False c)"

text \<open>\<open>left\<close> is \<^verbatim>\<open>end - txt\<close>, the space left in the output buffer.\<close>

fun printf_encode :: "nat \<Rightarrow> bytes \<Rightarrow> bytes" where
  "printf_encode left [] = []"
| "printf_encode left (c # cs) =
     (if 4 \<ge> left then []
      else printf_enc1 c @ printf_encode (left - length (printf_enc1 c)) cs)"

definition is_octal :: "u8 \<Rightarrow> bool" where
  "is_octal c \<longleftrightarrow> ch CHR ''0'' \<le> c \<and> c \<le> ch CHR ''7''"

text \<open>The \<^verbatim>\<open>case '0' ... '7'\<close> of \<^verbatim>\<open>printf_decode\<close>: up to three octal digits, the first of
  which is known to be there; the value and the rest of the text.\<close>

definition octal_esc :: "bytes \<Rightarrow> u8 \<times> bytes" where
  "octal_esc pos =
     (let v = char_at pos 0 - ch CHR ''0''; pos = drop 1 pos;
          (v, pos) = (if is_octal (char_at pos 0)
                      then (v * 8 + (char_at pos 0 - ch CHR ''0''), drop 1 pos) else (v, pos))
      in if is_octal (char_at pos 0)
         then (v * 8 + (char_at pos 0 - ch CHR ''0''), drop 1 pos) else (v, pos))"

text \<open>What follows a backslash: the bytes stored (at most one) and the rest of the text.\<close>

definition escape_seq :: "bytes \<Rightarrow> bytes \<times> bytes" where
  "escape_seq pos =
     (let c = char_at pos 0
      in if c = 92 then ([92], drop 1 pos)
         else if c = 34 then ([34], drop 1 pos)
         else if c = ch CHR ''n'' then ([10], drop 1 pos)
         else if c = ch CHR ''r'' then ([13], drop 1 pos)
         else if c = ch CHR ''t'' then ([9], drop 1 pos)
         else if c = ch CHR ''e'' then ([27], drop 1 pos)
         else if c = ch CHR ''x'' then
           (let pos = drop 1 pos; v = hex2byte pos
            in if v < 0
               then (let v = hex2num (char_at pos 0)
                     in if v < 0 then ([], pos) else ([word_of_int v], drop 1 pos))
               else ([word_of_int v], drop 2 pos))
         else if is_octal c then (let (v, pos) = octal_esc pos in ([v], pos))
         else ([], pos))"

lemma length_escape_seq: "length (snd (escape_seq pos)) \<le> length pos"
  by (auto simp: escape_seq_def octal_esc_def Let_def split: prod.splits if_splits)

text \<open>\<open>room\<close> is \<^verbatim>\<open>maxlen - len\<close>, the space left in the output buffer.\<close>

function printf_decode :: "nat \<Rightarrow> bytes \<Rightarrow> bytes" where
  "printf_decode room [] = []"
| "printf_decode room (c # cs) =
     (if 1 \<ge> room then []
      else if c = 92 then
        (case escape_seq cs of (out, rest) \<Rightarrow> out @ printf_decode (room - length out) rest)
      else c # printf_decode (room - 1) cs)"
  by pat_completeness auto
termination
proof (relation "measure (\<lambda>(room, cs). length cs)", goal_cases)
  case (2 room c cs x y)
  then have "length y \<le> length cs" using length_escape_seq [of cs] by (metis snd_conv)
  then show ?case by simp
qed auto

definition wpa_ssid_txt :: "bytes option \<Rightarrow> bytes" where
  "wpa_ssid_txt ssid = (case ssid of None \<Rightarrow> [] | Some s \<Rightarrow> printf_encode (32 * 4 + 1) s)"

subsection \<open>Single-quote escaping of the control interface\<close>

text \<open>Both functions return 0 (here \<open>None\<close>) when the output buffer is too small; an empty input
  gives length 0 too.  \<open>out_size\<close> is the room left.\<close>

fun utf8_escape_loop :: "nat \<Rightarrow> bytes \<Rightarrow> bytes option" where
  "utf8_escape_loop out_size [] = Some []"
| "utf8_escape_loop out_size (c # cs) =
     (if out_size = 0 then None
      else if c = 92 \<or> c = 39 then
        (if out_size = 1 then None
         else map_option (\<lambda>r. 92 # c # r) (utf8_escape_loop (out_size - 2) cs))
      else map_option (Cons c) (utf8_escape_loop (out_size - 1) cs))"

definition utf8_escape :: "bytes \<Rightarrow> nat \<Rightarrow> bytes option" where
  "utf8_escape inp out_size = utf8_escape_loop out_size inp"

fun utf8_unescape_loop :: "nat \<Rightarrow> bytes \<Rightarrow> bytes option" where
  "utf8_unescape_loop out_size [] = Some []"
| "utf8_unescape_loop out_size (c # cs) =
     (if out_size = 0 then None
      else if c = 39 then Some []
      else if c = 92 then
        (case cs of
           [] \<Rightarrow> None
         | d # ds \<Rightarrow> map_option (Cons d) (utf8_unescape_loop (out_size - 1) ds))
      else map_option (Cons c) (utf8_unescape_loop (out_size - 1) cs))"

definition utf8_unescape :: "bytes \<Rightarrow> nat \<Rightarrow> bytes option" where
  "utf8_unescape inp out_size =
     utf8_unescape_loop out_size
       (case inp of c # cs \<Rightarrow> if c = 39 then cs else inp | [] \<Rightarrow> inp)"

subsection \<open>Configuration strings and SSIDs\<close>

text \<open>\<^verbatim>\<open>os_strrchr\<close>: the text before and after the last occurrence of a character.\<close>

fun split_last :: "u8 \<Rightarrow> bytes \<Rightarrow> (bytes \<times> bytes) option" where
  "split_last q [] = None"
| "split_last q (c # cs) =
     (case split_last q cs of
        Some (a, b) \<Rightarrow> Some (c # a, b)
      | None \<Rightarrow> if c = q then Some ([], cs) else None)"

text \<open>\<open>malloc\<close> says which allocation sizes succeed.\<close>

definition wpa_config_parse_string :: "(nat \<Rightarrow> bool) \<Rightarrow> bytes \<Rightarrow> bytes option" where
  "wpa_config_parse_string malloc value =
     (if char_at value 0 = 34 then
        (case split_last 34 (drop 1 value) of
           Some (a, []) \<Rightarrow> if malloc (length a + 1) then Some a else None
         | _ \<Rightarrow> None)
      else if char_at value 0 = ch CHR ''P'' \<and> char_at value 1 = 34 then
        (case split_last 34 (drop 2 value) of
           Some (a, []) \<Rightarrow>
             if malloc (length a + 1) then Some (printf_decode (length a + 1) a) else None
         | _ \<Rightarrow> None)
      else if odd (length value) then None
      else let tlen = length value div 2
           in if malloc (tlen + 1) then hexstr2bin value tlen else None)"

text \<open>\<^verbatim>\<open>os_strchr\<close>: the text before the first occurrence of a character, if there is one.\<close>

definition before_first :: "u8 \<Rightarrow> bytes \<Rightarrow> bytes option" where
  "before_first q cs = (if q \<in> set cs then Some (takeWhile (\<lambda>c. c \<noteq> q) cs) else None)"

definition SSID_MAX_LEN :: nat where
  "SSID_MAX_LEN = 32"

text \<open>The parsed SSID; \<open>None\<close> is the return value -1.\<close>

definition ssid_parse :: "(nat \<Rightarrow> bool) \<Rightarrow> bytes \<Rightarrow> bytes option" where
  "ssid_parse malloc buf =
     (if \<not> malloc (length buf + 1) then None
      else
        let tmp = (if char_at buf 0 \<noteq> 34
                   then Some (case before_first 32 buf of None \<Rightarrow> buf | Some b \<Rightarrow> b)
                   else case before_first 34 (drop 1 buf) of
                          None \<Rightarrow> None | Some b \<Rightarrow> Some ([34] @ b @ [34]))
        in case tmp of
             None \<Rightarrow> None
           | Some tmp \<Rightarrow>
               (case wpa_config_parse_string malloc tmp of
                  None \<Rightarrow> None
                | Some res \<Rightarrow>
                    if length res \<le> SSID_MAX_LEN \<and> length res \<noteq> 0 then Some res else None))"

subsection \<open>Byte arrays\<close>

text \<open>\<^verbatim>\<open>inc_byte_array\<close>: the loop runs from the last byte towards the first; the list below is the
  array from its last byte.\<close>

fun inc_byte_loop :: "bytes \<Rightarrow> bytes" where
  "inc_byte_loop [] = []"
| "inc_byte_loop (c # cs) = (if c + 1 \<noteq> 0 then (c + 1) # cs else 0 # inc_byte_loop cs)"

definition inc_byte_array :: "bytes \<Rightarrow> bytes" where
  "inc_byte_array counter = rev (inc_byte_loop (rev counter))"

definition is_hex :: "bytes \<Rightarrow> bool" where
  "is_hex data = list_ex (\<lambda>c. c < 32 \<or> c \<ge> 127) data"

definition has_ctrl_char :: "bytes \<Rightarrow> bool" where
  "has_ctrl_char data = list_ex (\<lambda>c. c < 32 \<or> c = 127) data"

definition has_newline :: "bytes \<Rightarrow> bool" where
  "has_newline str = list_ex (\<lambda>c. c = 10 \<or> c = 13) str"

text \<open>\<^verbatim>\<open>merge_byte_arrays\<close>: the filled buffer of \<open>res_len\<close> bytes and the returned length.\<close>

definition merge_byte_arrays :: "nat \<Rightarrow> bytes option \<Rightarrow> bytes option \<Rightarrow> bytes \<times> nat" where
  "merge_byte_arrays res_len src1 src2 =
     (let zeros = (\<lambda>l. l @ replicate (res_len - length l) 0);
          s1 = (case src1 of None \<Rightarrow> [] | Some s \<Rightarrow> s)
      in if src1 \<noteq> None \<and> length s1 \<ge> res_len then (take res_len s1, res_len)
         else case src2 of
                None \<Rightarrow> (zeros s1, length s1)
              | Some s2 \<Rightarrow>
                  if length s1 + length s2 \<ge> res_len
                  then (s1 @ take (res_len - length s1) s2, res_len)
                  else (zeros (s1 @ s2), length s1 + length s2))"

subsection \<open>Digits\<close>

lemma ch_simps [simp]:
  "ch CHR ''0'' = 48" "ch CHR ''9'' = 57" "ch CHR ''a'' = 97" "ch CHR ''f'' = 102"
  "ch CHR ''A'' = 65" "ch CHR ''F'' = 70" "ch CHR '':'' = 58" "ch CHR ''.'' = 46"
  "ch CHR ''-'' = 45" "ch CHR ''/'' = 47" "ch CHR ''e'' = 101" "ch CHR ''n'' = 110"
  "ch CHR ''r'' = 114" "ch CHR ''t'' = 116" "ch CHR ''x'' = 120" "ch CHR ''7'' = 55"
  "ch CHR ''P'' = 80"
  by (simp_all add: ch_def)

lemma char_at_simps [simp]:
  "char_at (c # cs) 0 = c" "char_at (c # cs) (Suc n) = char_at cs n" "char_at [] n = 0"
  "char_at (c # d # cs) 1 = d"
  by (simp_all add: char_at_def)

lemma hex2num_ge: "- 1 \<le> hex2num c"
  by (simp add: hex2num_def word_le_def)

lemma hex2num_hexdig: "unat n < 16 \<Longrightarrow> hex2num (hexdig u n) = uint n"
proof -
  assume "unat n < 16"
  then have "n \<in> {0, 1, 2, 3, 4, 5, 6, 7, 8, 9, 10, 11, 12, 13, 14, 15}"
    using word_below_cases [of n 16] by (simp add: upt_rec)
  then show ?thesis
    by (elim insertE emptyE; cases u; simp add: hexdig_def hex2num_def)
qed

lemma hex2byte_fmt02x [codec_simps]: "hex2byte (fmt02x u b @ r) = uint b"
  by (simp add: hex2byte_def fmt02x_def Let_def hex2num_hexdig unat_nibbles byte_nibbles)

lemma length_fmt02x [simp, len_simps]: "length (fmt02x u b) = 2"
  by (simp add: fmt02x_def)

subsection \<open>Hexadecimal round trip\<close>

lemma hexstr2bin_concat:
  "hexstr2bin (concat (map (fmt02x u) d) @ r) (length d) = Some d"
  by (induction d) (simp_all add: hex2byte_fmt02x Let_def)

lemma snprintf_hex_loop_full:
  "2 * length d < left \<Longrightarrow> snprintf_hex_loop u left d = concat (map (fmt02x u) d)"
  by (induction d arbitrary: left) auto

lemma snprintf_hex_full:
  "2 * length d < n \<Longrightarrow> wpa_snprintf_hex' n d u = concat (map (fmt02x u) d)"
  by (simp add: wpa_snprintf_hex'_def snprintf_hex_loop_full)

lemma hex2num_0 [simp]: "hex2num 0 = - 1"
  by (simp add: hex2num_def)

lemma hex2byte_reads: "hex2byte hex \<ge> 0 \<Longrightarrow> 2 \<le> length hex"
  by (cases hex; cases "tl hex") (auto simp: hex2byte_def Let_def split: if_splits)

lemma hexstr2bin_reads: "hexstr2bin hex n = Some d \<Longrightarrow> length d = n \<and> 2 * n \<le> length hex"
proof (induction n arbitrary: hex d)
  case (Suc n)
  then have ge: "hex2byte hex \<ge> 0" by (auto simp: Let_def not_less split: if_splits)
  from Suc.prems ge obtain d' where d': "hexstr2bin (drop 2 hex) n = Some d'"
    and d: "d = word_of_int (hex2byte hex) # d'"
    by (auto simp: Let_def)
  show ?case using Suc.IH [OF d'] hex2byte_reads [OF ge] d by auto
qed simp

text \<open>C36: printing a buffer in hexadecimal (\<^verbatim>\<open>wpa_snprintf_hex\<close> or its upper case variant) into
  an output buffer of more than \<open>2 * len\<close> bytes and reading the text back with \<^verbatim>\<open>hexstr2bin\<close>
  gives the buffer again.\<close>

theorem hex_roundtrip:
  assumes "2 * length d < n"
  shows "hexstr2bin (wpa_snprintf_hex n d) (length d) = Some d \<and>
         hexstr2bin (wpa_snprintf_hex_uppercase n d) (length d) = Some d"
  using assms hexstr2bin_concat [where r = "[]"]
  by (simp add: wpa_snprintf_hex_def wpa_snprintf_hex_uppercase_def snprintf_hex_full)

theorem hex_roundtrip_witness:
  "hexstr2bin (wpa_snprintf_hex 5 [0x0a, 0xff]) (length [0x0a, 0xff :: u8]) = Some [0x0a, 0xff]"
  by (rule hex_roundtrip [THEN conjunct1]) simp

subsection \<open>MAC addresses\<close>

lemma hwaddr_parse_loop_macstr:
  "hwaddr_parse_loop (length a) (macstr a @ r) = Some (a, r)"
  by (induction a rule: macstr.induct) (simp_all add: hex2byte_fmt02x Let_def)

lemma hwaddr_aton_macstr:
  "length a = 6 \<Longrightarrow> hwaddr_parse (macstr a @ r) = Some (a, r)"
  using hwaddr_parse_loop_macstr [of a r] by (simp add: hwaddr_parse_def)

subsection \<open>printf escaping round trip\<close>

lemma printf_decode_enc1:
  "1 < room \<Longrightarrow> printf_decode room (printf_enc1 c @ r) = c # printf_decode (room - 1) r"
  by (auto simp: printf_enc1_def escape_seq_def Let_def hex2byte_fmt02x)

lemma length_printf_enc1: "length (printf_enc1 c) \<le> 4"
  by (simp add: printf_enc1_def)

lemma printf_encode_full:
  "4 * length d < left \<Longrightarrow> printf_encode left d = concat (map printf_enc1 d)"
proof (induction d arbitrary: left)
  case (Cons c d)
  then show ?case using length_printf_enc1 [of c] by simp
qed simp

lemma printf_decode_concat:
  "length d < room \<Longrightarrow> printf_decode room (concat (map printf_enc1 d)) = d"
  by (induction d arbitrary: room) (simp_all add: printf_decode_enc1)

lemma printf_roundtrip_aux:
  "4 * length d < n \<Longrightarrow> length d < m \<Longrightarrow> printf_decode m (printf_encode n d) = d"
  by (simp add: printf_encode_full printf_decode_concat)

text \<open>C37: decoding the printf-escaped form of a byte string gives the byte string again, for every
  byte value (NUL, quotes, backslashes and control characters included), whenever the text buffer
  has more than four times the data's length and the output buffer has room for the data and its
  terminator.\<close>

theorem printf_roundtrip:
  assumes "4 * length d < maxtxt" and "length d < maxlen"
  shows "printf_decode maxlen (printf_encode maxtxt d) = d"
  using assms by (rule printf_roundtrip_aux)

theorem printf_roundtrip_witness:
  "printf_decode 4 (printf_encode 13 [0x5c, 0x00, 0x41]) = [0x5c, 0x00, 0x41]"
  by (rule printf_roundtrip) simp_all

text \<open>the 129 byte static buffer of \<^verbatim>\<open>wpa_ssid_txt\<close> is large enough for every SSID of at most
  32 octets: no SSID is truncated, and the printed text determines the SSID.\<close>

theorem wpa_ssid_txt_faithful:
  assumes "length s \<le> SSID_MAX_LEN"
  shows "printf_decode (length s + 1) (wpa_ssid_txt (Some s)) = s"
  using assms by (simp add: wpa_ssid_txt_def SSID_MAX_LEN_def printf_roundtrip_aux)

theorem wpa_ssid_txt_faithful_witness:
  "printf_decode (length (replicate 32 (0::u8)) + 1) (wpa_ssid_txt (Some (replicate 32 0))) = replicate 32 0"
  by (rule wpa_ssid_txt_faithful) (simp add: SSID_MAX_LEN_def)

subsection \<open>Quote escaping round trip\<close>

lemma utf8_escape_loop_hd: "utf8_escape_loop n d = Some (c # e) \<Longrightarrow> c \<noteq> 39"
  by (cases d) (auto split: if_splits)

lemma utf8_unescape_loop_escape:
  "utf8_escape_loop n d = Some e \<Longrightarrow> length d \<le> m \<Longrightarrow> utf8_unescape_loop m e = Some d"
  by (induction d arbitrary: n m e) (auto split: if_splits)

lemma utf8_roundtrip:
  "utf8_escape d n = Some e \<Longrightarrow> length d \<le> m \<Longrightarrow> utf8_unescape e m = Some d"
proof (cases e)
  case (Cons c cs)
  assume "utf8_escape d n = Some e" "length d \<le> m"
  then have "c \<noteq> 39" "utf8_unescape_loop m e = Some d"
    using Cons by (auto simp: utf8_escape_def dest: utf8_escape_loop_hd utf8_unescape_loop_escape)
  then show ?thesis using Cons by (simp add: utf8_unescape_def del: utf8_unescape_loop.simps)
qed (auto simp: utf8_escape_def utf8_unescape_def dest: utf8_unescape_loop_escape)

lemma utf8_escape_loop_length: "utf8_escape_loop n d = Some e \<Longrightarrow> length d \<le> length e"
  by (induction d arbitrary: n e) (auto split: if_splits, fastforce+)

lemma utf8_escape_enough: "2 * length d \<le> n \<Longrightarrow> \<exists>e. utf8_escape_loop n d = Some e"
proof (induction d arbitrary: n)
  case (Cons c d)
  then have "2 * length d \<le> n - 2" "2 * length d \<le> n - 1" by auto
  with Cons show ?case by fastforce
qed simp

subsection \<open>Interpretations of the interface\<close>

interpretation hex_codec: text_codec
  "\<lambda>d. wpa_snprintf_hex (2 * length d + 1) d" "\<lambda>s. hexstr2bin s (length s div 2)" "\<lambda>_. True"
proof
  fix d :: bytes
  have "length (concat (map (fmt02x False) d)) = 2 * length d" by (induction d) auto
  then show "hexstr2bin (wpa_snprintf_hex (2 * length d + 1) d)
      (length (wpa_snprintf_hex (2 * length d + 1) d) div 2) = Some d"
    using hexstr2bin_concat [of False d "[]"]
    by (simp add: wpa_snprintf_hex_def snprintf_hex_full)
qed

interpretation ssid_codec: text_codec
  "\<lambda>s. wpa_ssid_txt (Some s)" "\<lambda>t. Some (printf_decode 33 t)" "\<lambda>s. length s \<le> SSID_MAX_LEN"
  by unfold_locales (simp add: wpa_ssid_txt_def SSID_MAX_LEN_def printf_roundtrip_aux)

interpretation quote_codec: text_codec
  "\<lambda>d. the (utf8_escape d (2 * length d))" "\<lambda>t. utf8_unescape t (length t)" "\<lambda>_. True"
proof
  fix d :: bytes
  obtain e where e: "utf8_escape d (2 * length d) = Some e"
    using utf8_escape_enough [of d "2 * length d"] by (auto simp: utf8_escape_def)
  then have "length d \<le> length e"
    by (auto simp: utf8_escape_def dest: utf8_escape_loop_length)
  with e show "utf8_unescape (the (utf8_escape d (2 * length d)))
      (length (the (utf8_escape d (2 * length d)))) = Some d"
    by (simp add: utf8_roundtrip)
qed

text \<open>two different SSIDs never have the same printed form, so a log line or a configuration
  line identifies the network it names.\<close>

theorem wpa_ssid_txt_inj:
  assumes "length a \<le> SSID_MAX_LEN" and "length b \<le> SSID_MAX_LEN" and "a \<noteq> b"
  shows "wpa_ssid_txt (Some a) \<noteq> wpa_ssid_txt (Some b)"
  using ssid_codec.enc_inj assms by blast

theorem wpa_ssid_txt_inj_witness: "wpa_ssid_txt (Some [65, 0]) \<noteq> wpa_ssid_txt (Some [65])"
  by (rule wpa_ssid_txt_inj) (simp_all add: SSID_MAX_LEN_def)

subsection \<open>SSID parsing and counters\<close>

text \<open>whatever text it is given, \<^verbatim>\<open>ssid_parse\<close> reports success only with an SSID of 1 to 32
  octets, so the copy into the fixed 32 byte array of \<^verbatim>\<open>struct wpa_ssid_value\<close> stays in bounds.\<close>

theorem ssid_parse_bounds:
  assumes "ssid_parse malloc buf = Some s"
  shows "0 < length s \<and> length s \<le> SSID_MAX_LEN"
  using assms by (auto simp: ssid_parse_def Let_def split: if_splits option.splits)

theorem ssid_parse_bounds_witness:
  "0 < length (ascii ''ab'') \<and> length (ascii ''ab'') \<le> SSID_MAX_LEN"
  by (rule ssid_parse_bounds [of "\<lambda>_. True" "[34] @ ascii ''ab'' @ [34]"])
    (simp add: ssid_parse_def wpa_config_parse_string_def before_first_def SSID_MAX_LEN_def ascii_def)

lemma length_inc_byte_loop [simp]: "length (inc_byte_loop cs) = length cs"
  by (induction cs) auto

lemma inc_byte_loop_val:
  "be_val (rev (inc_byte_loop cs)) = (be_val (rev cs) + 1) mod 256 ^ length cs"
proof (induction cs)
  case (Cons c cs)
  have lt: "be_val (rev cs) < 256 ^ length cs" using be_val_less [of "rev cs"] by simp
  show ?case
  proof (cases "c + 1 = 0")
    case True
    then have "c = - 1" by (simp add: eq_neg_iff_add_eq_0)
    then have "unat c = 255" by (simp add: unsigned_minus_1_eq_mask mask_eq_exp_minus_1)
    then have c: "be_val (rev (c # cs)) + 1 = (be_val (rev cs) + 1) * 256"
      by (simp add: be_val_snoc)
    have "be_val (rev (inc_byte_loop (c # cs))) = be_val (rev (inc_byte_loop cs)) * 256"
      using True by (simp add: be_val_snoc)
    also have "\<dots> = (be_val (rev cs) + 1) * 256 mod (256 ^ length cs * 256)"
      using Cons by (simp only: mult_mod_left)
    finally show ?thesis unfolding c by (simp add: mult.commute)
  next
    case False
    then have "unat (c + 1) = unat c + 1" by (simp add: unatSuc add.commute)
    moreover have "unat (c + 1) < 256" using unsigned_less [of "c + 1"] by simp
    ultimately show ?thesis using False lt by (simp add: be_val_snoc)
  qed
qed (simp add: be_val_def)

text \<open>\<^verbatim>\<open>inc_byte_array\<close> adds one to the big endian number in the array and wraps to zero exactly
  when all octets are 0xff; the array keeps its length.\<close>

theorem inc_byte_array_correct:
  "be_val (inc_byte_array c) = (be_val c + 1) mod 256 ^ length c \<and>
   length (inc_byte_array c) = length c"
  using inc_byte_loop_val [of "rev c"] by (simp add: inc_byte_array_def)

end
