(* ===== verification/Wpabuf.thy ===== *)
theory Wpabuf
  imports TextCodec
begin

text \<open>
  The dynamic data buffer of \<^verbatim>\<open>src/utils/wpabuf.c\<close> and \<^verbatim>\<open>wpabuf.h\<close>.  \<^verbatim>\<open>size_t\<close> fields
  are 64 bit words, so the additions in \<^verbatim>\<open>wpabuf_put\<close> and \<^verbatim>\<open>wpabuf_resize\<close> wrap as in C.
  \<open>malloc\<close> says which allocation sizes succeed.  The outer option of a result (\<open>run\<close>) is
  \<open>None\<close> when the process ends in \<^verbatim>\<open>wpabuf_overflow\<close> or writes outside an allocated block; an
  inner option is a nullable \<^verbatim>\<open>struct wpabuf *\<close>.  \<open>wb_contents\<close> is the abstraction: the octets
  stored so far.  The lemmas show that under the invariant \<open>wpabuf_ok\<close> appending acts on it as
  list append, and that the writers never leave the block.
\<close>

record wpabuf =
  wb_size :: size_t
  wb_used :: size_t
  wb_buf :: bytes
  wb_ext_data :: bool

definition sizeof_wpabuf :: size_t where
  "sizeof_wpabuf = 32"

text \<open>Writing \<open>d\<close> at offset \<open>off\<close> of an allocated block.\<close>

definition mem_store :: "nat \<Rightarrow> bytes \<Rightarrow> bytes \<Rightarrow> bytes run" where
  "mem_store off d blk =
     (if off + length d \<le> length blk
      then Some (take off blk @ d @ drop (off + length d) blk) else None)"

definition wpabuf_len :: "wpabuf \<Rightarrow> size_t" where
  "wpabuf_len buf = wb_used buf"

definition wpabuf_tailroom :: "wpabuf \<Rightarrow> size_t" where
  "wpabuf_tailroom buf = wb_size buf - wb_used buf"

text \<open>The octets between \<^verbatim>\<open>wpabuf_head(buf)\<close> and \<^verbatim>\<open>wpabuf_head(buf) + wpabuf_len(buf)\<close>.\<close>

definition wb_contents :: "wpabuf \<Rightarrow> bytes" where
  "wb_contents buf = take (unat (wb_used buf)) (wb_buf buf)"

text \<open>\<^verbatim>\<open>os_zalloc(sizeof(struct wpabuf) + len)\<close>: the sum wraps, and the data area is what the
  allocated block leaves after the header.\<close>

definition wpabuf_alloc :: "(size_t \<Rightarrow> bool) \<Rightarrow> size_t \<Rightarrow> wpabuf option" where
  "wpabuf_alloc malloc len =
     (if \<not> malloc (sizeof_wpabuf + len) then None
      else Some \<lparr>wb_size = len, wb_used = 0,
                 wb_buf = replicate (unat (sizeof_wpabuf + len) - unat sizeof_wpabuf) 0,
                 wb_ext_data = False\<rparr>)"

definition wpabuf_alloc_ext_data :: "(size_t \<Rightarrow> bool) \<Rightarrow> bytes \<Rightarrow> size_t \<Rightarrow> wpabuf option" where
  "wpabuf_alloc_ext_data malloc data len =
     (if \<not> malloc sizeof_wpabuf then None
      else Some \<lparr>wb_size = len, wb_used = len, wb_buf = data, wb_ext_data = True\<rparr>)"

text \<open>\<^verbatim>\<open>wpabuf_put\<close>: the offset of the new area and the buffer with \<^verbatim>\<open>used\<close> advanced.\<close>

definition wpabuf_put :: "wpabuf \<Rightarrow> size_t \<Rightarrow> (nat \<times> wpabuf) run" where
  "wpabuf_put buf len =
     (let buf' = buf\<lparr>wb_used := wb_used buf + len\<rparr>
      in if wb_used buf' > wb_size buf' then None else Some (unat (wb_used buf), buf'))"

definition wpabuf_put_data :: "wpabuf \<Rightarrow> bytes option \<Rightarrow> wpabuf run" where
  "wpabuf_put_data buf data =
     (case data of
        None \<Rightarrow> Some buf
      | Some d \<Rightarrow> do {
          (pos, buf) \<leftarrow> wpabuf_put buf (word_of_nat (length d));
          blk \<leftarrow> mem_store pos d (wb_buf buf);
          Some (buf\<lparr>wb_buf := blk\<rparr>) })"

definition wpabuf_put_u8 :: "wpabuf \<Rightarrow> u8 \<Rightarrow> wpabuf run" where
  "wpabuf_put_u8 buf data = wpabuf_put_data buf (Some [data])"

definition wpabuf_put_le16 :: "wpabuf \<Rightarrow> u16 \<Rightarrow> wpabuf run" where
  "wpabuf_put_le16 buf data = wpabuf_put_data buf (Some (WPA_PUT_LE16 data))"

definition wpabuf_put_be16 :: "wpabuf \<Rightarrow> u16 \<Rightarrow> wpabuf run" where
  "wpabuf_put_be16 buf data = wpabuf_put_data buf (Some (WPA_PUT_BE16 data))"

definition wpabuf_put_be24 :: "wpabuf \<Rightarrow> u32 \<Rightarrow> wpabuf run" where
  "wpabuf_put_be24 buf data = wpabuf_put_data buf (Some (WPA_PUT_BE24 data))"

definition wpabuf_put_le32 :: "wpabuf \<Rightarrow> u32 \<Rightarrow> wpabuf run" where
  "wpabuf_put_le32 buf data = wpabuf_put_data buf (Some (WPA_PUT_LE32 data))"

definition wpabuf_put_be32 :: "wpabuf \<Rightarrow> u32 \<Rightarrow> wpabuf run" where
  "wpabuf_put_be32 buf data = wpabuf_put_data buf (Some (WPA_PUT_BE32 data))"

definition wpabuf_put_buf :: "wpabuf \<Rightarrow> wpabuf \<Rightarrow> wpabuf run" where
  "wpabuf_put_buf dst src = wpabuf_put_data dst (Some (wb_contents src))"

definition wpabuf_put_str :: "wpabuf \<Rightarrow> bytes \<Rightarrow> wpabuf run" where
  "wpabuf_put_str dst str = wpabuf_put_data dst (Some str)"

text \<open>\<^verbatim>\<open>wpabuf_resize\<close>: the return value and the pointer left in \<^verbatim>\<open>*_buf\<close>.  The block is
  reallocated for \<^verbatim>\<open>used + add_len\<close> octets and the new octets are cleared.\<close>

definition wpabuf_resize :: "(size_t \<Rightarrow> bool) \<Rightarrow> wpabuf option \<Rightarrow> size_t \<Rightarrow> (int \<times> wpabuf option) run" where
  "wpabuf_resize malloc obuf add_len =
     (case obuf of
        None \<Rightarrow> (case wpabuf_alloc malloc add_len of
                   None \<Rightarrow> Some (- 1, None) | Some b \<Rightarrow> Some (0, Some b))
      | Some buf \<Rightarrow>
          if wb_used buf + add_len > wb_size buf then
            let hdr = (if wb_ext_data buf then 0 else sizeof_wpabuf);
                total = hdr + wb_used buf + add_len;
                room = unat total - unat hdr;
                kept = take room (wb_buf buf);
                nblk = kept @ replicate (room - length kept) 0
            in if \<not> malloc total then Some (- 1, Some buf)
               else do {
                 blk \<leftarrow> mem_store (unat (wb_used buf)) (replicate (unat add_len) 0) nblk;
                 Some (0, Some (buf\<lparr>wb_buf := blk, wb_size := wb_used buf + add_len\<rparr>)) }
          else Some (0, Some buf))"

definition wpabuf_alloc_copy :: "(size_t \<Rightarrow> bool) \<Rightarrow> bytes \<Rightarrow> wpabuf option run" where
  "wpabuf_alloc_copy malloc data =
     (case wpabuf_alloc malloc (word_of_nat (length data)) of
        None \<Rightarrow> Some None
      | Some buf \<Rightarrow> map_option Some (wpabuf_put_data buf (Some data)))"

definition wpabuf_dup :: "(size_t \<Rightarrow> bool) \<Rightarrow> wpabuf \<Rightarrow> wpabuf option run" where
  "wpabuf_dup malloc src =
     (case wpabuf_alloc malloc (wpabuf_len src) of
        None \<Rightarrow> Some None
      | Some buf \<Rightarrow> map_option Some (wpabuf_put_data buf (Some (wb_contents src))))"

text \<open>\<^verbatim>\<open>wpabuf_concat\<close> frees its arguments; the model returns the new buffer.\<close>

definition wpabuf_concat :: "(size_t \<Rightarrow> bool) \<Rightarrow> wpabuf option \<Rightarrow> wpabuf option \<Rightarrow> wpabuf option run" where
  "wpabuf_concat malloc a b =
     (case b of
        None \<Rightarrow> Some a
      | Some b \<Rightarrow>
          let len = (case a of None \<Rightarrow> 0 | Some a \<Rightarrow> wpabuf_len a) + wpabuf_len b
          in case wpabuf_alloc malloc len of
               None \<Rightarrow> Some None
             | Some n \<Rightarrow> do {
                 n \<leftarrow> (case a of None \<Rightarrow> Some n | Some a \<Rightarrow> wpabuf_put_buf n a);
                 n \<leftarrow> wpabuf_put_buf n b;
                 Some (Some n) })"

definition wpabuf_zeropad :: "(size_t \<Rightarrow> bool) \<Rightarrow> wpabuf option \<Rightarrow> size_t \<Rightarrow> wpabuf option run" where
  "wpabuf_zeropad malloc obuf len =
     (case obuf of
        None \<Rightarrow> Some None
      | Some buf \<Rightarrow>
          let blen = wpabuf_len buf
          in if blen \<ge> len then Some (Some buf)
             else case wpabuf_alloc malloc len of
                    None \<Rightarrow> Some None
                  | Some ret \<Rightarrow> do {
                      (pos, ret) \<leftarrow> wpabuf_put ret (len - blen);
                      blk \<leftarrow> mem_store pos (replicate (unat (len - blen)) 0) (wb_buf ret);
                      ret \<leftarrow> wpabuf_put_buf (ret\<lparr>wb_buf := blk\<rparr>) buf;
                      Some (Some ret) })"

text \<open>\<^verbatim>\<open>wpabuf_printf\<close> with the text \<open>s\<close> that \<^verbatim>\<open>vsnprintf\<close> formats: the NUL needs a place too.\<close>

definition wpabuf_printf :: "wpabuf \<Rightarrow> bytes \<Rightarrow> wpabuf run" where
  "wpabuf_printf buf s =
     (if word_of_nat (length s) \<ge> wb_size buf - wb_used buf then None
      else do {
        blk \<leftarrow> mem_store (unat (wb_used buf)) (s @ [0]) (wb_buf buf);
        Some (buf\<lparr>wb_buf := blk, wb_used := wb_used buf + word_of_nat (length s)\<rparr>) })"

definition wpabuf_parse_bin :: "(size_t \<Rightarrow> bool) \<Rightarrow> bytes \<Rightarrow> wpabuf option run" where
  "wpabuf_parse_bin malloc str =
     (if odd (length str) then Some None
      else let len = length str div 2
           in case wpabuf_alloc malloc (word_of_nat len) of
                None \<Rightarrow> Some None
              | Some ret \<Rightarrow> do {
                  (pos, ret) \<leftarrow> wpabuf_put ret (word_of_nat len);
                  (case hexstr2bin str len of
                     None \<Rightarrow> Some None
                   | Some d \<Rightarrow> do {
                       blk \<leftarrow> mem_store pos d (wb_buf ret);
                       Some (Some (ret\<lparr>wb_buf := blk\<rparr>)) }) })"

text \<open>The invariant: the data area has exactly \<^verbatim>\<open>size\<close> octets and \<^verbatim>\<open>used\<close> of them are in use.\<close>

definition wpabuf_ok :: "wpabuf \<Rightarrow> bool" where
  "wpabuf_ok buf \<longleftrightarrow> wb_used buf \<le> wb_size buf \<and> length (wb_buf buf) = unat (wb_size buf)"

subsection \<open>Appending\<close>

lemma wb_contents_length: "wpabuf_ok b \<Longrightarrow> length (wb_contents b) = unat (wb_used b)"
  by (simp add: wpabuf_ok_def wb_contents_def word_le_nat_alt)

lemma unat_add_le: "unat a + unat b < 2 ^ 64 \<Longrightarrow> unat (a + b) = unat a + unat b" for a b :: size_t
  by (simp add: unat_word_ariths)

lemma unat_of_nat64: "n < 2 ^ 64 \<Longrightarrow> unat (word_of_nat n :: size_t) = n"
  by (simp add: unat_of_nat)

lemma unat_size_less: "unat (w :: size_t) < 2 ^ 64"
  using unsigned_less [of w] by simp

text \<open>With room for the data, appending succeeds and appends.\<close>

lemma wpabuf_put_data_room:
  assumes ok: "wpabuf_ok b" and room: "unat (wb_used b) + length d \<le> unat (wb_size b)"
  shows "\<exists>b'. wpabuf_put_data b (Some d) = Some b' \<and> wpabuf_ok b' \<and>
     wb_size b' = wb_size b \<and> wb_contents b' = wb_contents b @ d"
proof -
  let ?u = "wb_used b + word_of_nat (length d)"
  have len: "length d < 2 ^ 64" using room unat_size_less [of "wb_size b"] by linarith
  have u: "unat ?u = unat (wb_used b) + length d"
    using room unat_size_less [of "wb_size b"] len by (simp add: unat_add_le unat_of_nat64)
  with room have "\<not> ?u > wb_size b" by (simp add: word_less_nat_alt)
  moreover have "mem_store (unat (wb_used b)) d (wb_buf b) =
     Some (take (unat (wb_used b)) (wb_buf b) @ d @ drop (unat (wb_used b) + length d) (wb_buf b))"
    using ok room by (simp add: mem_store_def wpabuf_ok_def)
  ultimately show ?thesis using ok u room
    by (simp add: wpabuf_put_data_def wpabuf_put_def Let_def wpabuf_ok_def wb_contents_def
        word_le_nat_alt)
qed

text \<open>Without room (and without wrap-around of the length) the process ends.\<close>

lemma wpabuf_put_data_no_room:
  assumes "unat (wb_used b) + length d > unat (wb_size b)" and "unat (wb_used b) + length d < 2 ^ 64"
  shows "wpabuf_put_data b (Some d) = None"
  using assms
  by (simp add: wpabuf_put_data_def wpabuf_put_def Let_def word_less_nat_alt unat_add_le unat_of_nat64)

lemma wpabuf_put_data_iff:
  assumes "wpabuf_ok b" and "length d < 2 ^ 63" and "unat (wb_size b) < 2 ^ 63"
  shows "wpabuf_put_data b (Some d) \<noteq> None \<longleftrightarrow> unat (wb_used b) + length d \<le> unat (wb_size b)"
proof (cases "unat (wb_used b) + length d \<le> unat (wb_size b)")
  case True
  then show ?thesis using wpabuf_put_data_room [OF assms(1) True] by auto
next
  case False
  have "unat (wb_used b) \<le> unat (wb_size b)" using assms(1) by (simp add: wpabuf_ok_def word_le_nat_alt)
  then have "unat (wb_used b) + length d < 2 ^ 64" using assms by simp
  with False show ?thesis using wpabuf_put_data_no_room [of b d] by simp
qed

subsection \<open>The interface of a bounded append buffer\<close>

text \<open>Frame writers rely on this much of the buffer: an append with room succeeds and appends, an
  append without room ends the process.  A frame is written as a sequence of fields.\<close>

fun put_all :: "('b \<Rightarrow> bytes \<Rightarrow> 'b run) \<Rightarrow> 'b \<Rightarrow> bytes list \<Rightarrow> 'b run" where
  "put_all put b [] = Some b"
| "put_all put b (d # ds) = do { b \<leftarrow> put b d; put_all put b ds }"

locale append_buffer =
  fixes put :: "'b \<Rightarrow> bytes \<Rightarrow> 'b run"
    and contents :: "'b \<Rightarrow> bytes"
    and capacity :: "'b \<Rightarrow> nat"
    and ok :: "'b \<Rightarrow> bool"
  assumes put_fits: "ok b \<Longrightarrow> length (contents b) + length d \<le> capacity b \<Longrightarrow>
      \<exists>b'. put b d = Some b' \<and> ok b' \<and> capacity b' = capacity b \<and> contents b' = contents b @ d"
    and put_full: "ok b \<Longrightarrow> capacity b < length (contents b) + length d \<Longrightarrow> length d < 2 ^ 63 \<Longrightarrow>
      put b d = None"
begin

lemma put_all_fits:
  "ok b \<Longrightarrow> length (contents b) + length (concat ds) \<le> capacity b \<Longrightarrow>
   \<exists>b'. put_all put b ds = Some b' \<and> ok b' \<and> capacity b' = capacity b \<and>
        contents b' = contents b @ concat ds"
proof (induction ds arbitrary: b)
  case (Cons d ds)
  then have "length (contents b) + length d \<le> capacity b" by simp
  from put_fits [OF Cons.prems(1) this] obtain b1 where b1: "put b d = Some b1" "ok b1"
    "capacity b1 = capacity b" "contents b1 = contents b @ d" by blast
  with Cons.prems have "length (contents b1) + length (concat ds) \<le> capacity b1" by simp
  from Cons.IH [OF b1(2) this] show ?case using b1 by auto
qed simp

lemma put_all_full:
  "ok b \<Longrightarrow> capacity b < length (contents b) + length (concat ds) \<Longrightarrow>
   list_all (\<lambda>d. length d < 2 ^ 63) ds \<Longrightarrow> length (contents b) \<le> capacity b \<Longrightarrow>
   put_all put b ds = None"
proof (induction ds arbitrary: b)
  case (Cons d ds)
  show ?case
  proof (cases "length (contents b) + length d \<le> capacity b")
    case True
    from put_fits [OF Cons.prems(1) True] obtain b1 where b1: "put b d = Some b1" "ok b1"
      "capacity b1 = capacity b" "contents b1 = contents b @ d" by blast
    with Cons True show ?thesis by auto
  next
    case False
    then show ?thesis using Cons.prems put_full by auto
  qed
qed simp

end

definition wpabuf_put_bytes :: "wpabuf \<Rightarrow> bytes \<Rightarrow> wpabuf run" where
  "wpabuf_put_bytes b d = wpabuf_put_data b (Some d)"

lemmas wpabuf_put_folds = wpabuf_put_u8_def wpabuf_put_le16_def wpabuf_put_be16_def
  wpabuf_put_be24_def wpabuf_put_le32_def wpabuf_put_be32_def wpabuf_put_buf_def
  wpabuf_put_str_def wpabuf_put_bytes_def [symmetric]

interpretation wb: append_buffer wpabuf_put_bytes wb_contents "\<lambda>b. unat (wb_size b)"
  "\<lambda>b. wpabuf_ok b \<and> unat (wb_size b) < 2 ^ 63"
proof
  fix b and d :: bytes
  assume "wpabuf_ok b \<and> unat (wb_size b) < 2 ^ 63"
    and "length (wb_contents b) + length d \<le> unat (wb_size b)"
  then show "\<exists>b'. wpabuf_put_bytes b d = Some b' \<and> (wpabuf_ok b' \<and> unat (wb_size b') < 2 ^ 63) \<and>
      unat (wb_size b') = unat (wb_size b) \<and> wb_contents b' = wb_contents b @ d"
    using wpabuf_put_data_room [of b d] by (auto simp: wpabuf_put_bytes_def wb_contents_length)
next
  fix b and d :: bytes
  assume "wpabuf_ok b \<and> unat (wb_size b) < 2 ^ 63"
    and "unat (wb_size b) < length (wb_contents b) + length d" and "length d < 2 ^ 63"
  then show "wpabuf_put_bytes b d = None"
    using wpabuf_put_data_iff [of b d] by (auto simp: wpabuf_put_bytes_def wb_contents_length)
qed

subsection \<open>Allocation and whole-buffer operations\<close>

lemma wpabuf_alloc_ok:
  assumes "wpabuf_alloc malloc len = Some b" and "unat len \<le> 2 ^ 64 - 33"
  shows "wpabuf_ok b \<and> wb_size b = len \<and> wb_contents b = [] \<and> wb_used b = 0"
proof -
  have "unat (sizeof_wpabuf + len) = 32 + unat len"
    using assms(2) by (subst unat_add_le) (auto simp: sizeof_wpabuf_def)
  with assms(1) show ?thesis
    by (auto simp: wpabuf_alloc_def wpabuf_ok_def wb_contents_def sizeof_wpabuf_def split: if_splits)
qed

lemma wpabuf_alloc_put_all:
  assumes "wpabuf_alloc malloc len = Some b" and "length (concat ds) \<le> unat len" and "unat len < 2 ^ 63"
  shows "\<exists>b'. put_all wpabuf_put_bytes b ds = Some b' \<and> wb_contents b' = concat ds \<and>
     wpabuf_ok b' \<and> wb_size b' = len"
proof -
  have b: "wpabuf_ok b \<and> wb_size b = len \<and> wb_contents b = [] \<and> wb_used b = 0"
    by (rule wpabuf_alloc_ok [OF assms(1)]) (use assms(3) in simp)
  with wb.put_all_fits [of b ds] assms(2,3) show ?thesis by (auto dest: unsigned_word_eqI)
qed

lemma wpabuf_concat_put_all:
  "wpabuf_concat malloc (Some a) (Some b) =
     (case wpabuf_alloc malloc (wpabuf_len a + wpabuf_len b) of
        None \<Rightarrow> Some None
      | Some n \<Rightarrow> map_option Some (put_all wpabuf_put_bytes n [wb_contents a, wb_contents b]))"
  by (auto simp: wpabuf_concat_def wpabuf_put_buf_def wpabuf_put_bytes_def Let_def
      split: option.splits Option.bind_splits)



text \<open>C35: \<^verbatim>\<open>wpabuf_resize\<close> keeps the octets already stored on every path; when it returns 0 the
  buffer is well formed and the next append of up to \<open>add_len\<close> octets cannot overflow.\<close>

theorem wpabuf_resize_correct:
  assumes ok: "wpabuf_ok b" and small: "unat (wb_used b) + unat add_len < 2 ^ 63"
  shows "case wpabuf_resize malloc (Some b) add_len of
           None \<Rightarrow> False
         | Some (ret, None) \<Rightarrow> False
         | Some (ret, Some b') \<Rightarrow>
             wb_contents b' = wb_contents b \<and> wpabuf_ok b' \<and>
             (ret = 0 \<longrightarrow> unat (wb_used b') + unat add_len \<le> unat (wb_size b')) \<and>
             (ret \<noteq> 0 \<longrightarrow> b' = b)"
proof (cases "wb_used b + add_len > wb_size b")
  case False
  have "unat (wb_used b + add_len) = unat (wb_used b) + unat add_len"
    using small by (subst unat_add_le) simp_all
  with False ok show ?thesis
    by (simp add: wpabuf_resize_def word_less_nat_alt)
next
  case True
  let ?hdr = "if wb_ext_data b then 0 else sizeof_wpabuf"
  have u: "unat (wb_used b + add_len) = unat (wb_used b) + unat add_len"
    using small by (subst unat_add_le) simp_all
  have "unat ?hdr \<le> 32" by (simp add: sizeof_wpabuf_def)
  then have t: "unat (?hdr + wb_used b + add_len) = unat ?hdr + (unat (wb_used b) + unat add_len)"
    using small unfolding add.assoc u [symmetric] by (subst unat_add_le) simp_all
  have le: "unat (wb_used b) \<le> length (wb_buf b)"
    using ok by (simp add: wpabuf_ok_def word_le_nat_alt)
  show ?thesis
    using True u t le
    by (simp add: wpabuf_resize_def Let_def mem_store_def wpabuf_ok_def wb_contents_def
        word_le_nat_alt ok [unfolded wpabuf_ok_def])
qed

theorem wpabuf_resize_correct_witness:
  "case wpabuf_resize (\<lambda>_. True) (Some \<lparr>wb_size = 1, wb_used = 1, wb_buf = [7], wb_ext_data = False\<rparr>) 3 of
     None \<Rightarrow> False | Some (ret, None) \<Rightarrow> False | Some (ret, Some b') \<Rightarrow> wb_contents b' = [7]"
proof -
  let ?b = "\<lparr>wb_size = 1, wb_used = 1, wb_buf = [7], wb_ext_data = False\<rparr>"
  have "wpabuf_ok ?b" "unat (wb_used ?b) + unat (3 :: size_t) < 2 ^ 63" "wb_contents ?b = [7]"
    by (simp_all add: wpabuf_ok_def wb_contents_def)
  with wpabuf_resize_correct [of ?b 3 "\<lambda>_. True"] show ?thesis
    by (auto split: option.splits prod.splits)
qed

end
