(* ===== verification/MdHash.thy ===== *)
theory MdHash
  imports Prelude
begin

text \<open>
  Iterated hash functions.  The streaming code of \<^verbatim>\<open>sha256-internal.c\<close> and \<^verbatim>\<open>sha512-internal.c\<close>
  (\<^verbatim>\<open>_process\<close>, \<^verbatim>\<open>_done\<close> and the loop of \<^verbatim>\<open>_vector\<close>) is the same but for the block size, the
  compression function and the place of the length field; it is written here once, over these
  parameters.  The specification is the one of FIPS 180-4: pad the whole message and fold the
  compression function over its blocks.  The locale \<open>md_hash\<close> shows that the streaming code computes
  it for every way of splitting the message into fragments.
\<close>

subsection \<open>The streaming code\<close>

record 'w md_state =
  sh_length :: u64
  sh_state :: "'w list"
  sh_curlen :: nat
  sh_buf :: bytes

definition compress_md :: "('w list \<Rightarrow> bytes \<Rightarrow> 'w list) \<Rightarrow> 'w md_state \<Rightarrow> bytes \<Rightarrow> 'w md_state" where
  "compress_md compress md blk = md\<lparr>sh_state := compress (sh_state md) blk\<rparr>"

text \<open>The \<^verbatim>\<open>while (inlen > 0)\<close> loop.  The entry check of the caller and the loop itself keep
  \<^verbatim>\<open>curlen\<close> below the block size \<open>B\<close>.\<close>

function md_process_loop :: "nat \<Rightarrow> ('w list \<Rightarrow> bytes \<Rightarrow> 'w list) \<Rightarrow> 'w md_state \<Rightarrow> bytes \<Rightarrow> 'w md_state" where
  "md_process_loop B compress md inp =
     (if inp = [] \<or> sh_curlen md \<ge> B then md
      else if sh_curlen md = 0 \<and> length inp \<ge> B then
        md_process_loop B compress
          ((compress_md compress md (take B inp))\<lparr>sh_length := sh_length md + word_of_nat (B * 8)\<rparr>) (drop B inp)
      else
        let n = min (length inp) (B - sh_curlen md);
            md1 = md\<lparr>sh_buf := take (sh_curlen md) (sh_buf md) @ take n inp @
                               drop (sh_curlen md + n) (sh_buf md),
                     sh_curlen := sh_curlen md + n\<rparr>;
            md2 = (if sh_curlen md1 = B
                   then (compress_md compress md1 (sh_buf md1))
                          \<lparr>sh_length := sh_length md1 + word_of_nat (8 * B), sh_curlen := 0\<rparr>
                   else md1)
        in md_process_loop B compress md2 (drop n inp))"
  by pat_completeness auto
termination
  by (relation "measure (\<lambda>(B, compress, md, inp). length inp)") auto

declare md_process_loop.simps [simp del]

definition md_process :: "nat \<Rightarrow> ('w list \<Rightarrow> bytes \<Rightarrow> 'w list) \<Rightarrow> 'w md_state \<Rightarrow> bytes \<Rightarrow> 'w md_state option" where
  "md_process B compress md inp =
     (if sh_curlen md \<ge> B then None else Some (md_process_loop B compress md inp))"

text \<open>\<open>thr\<close>: above this fill an extra block is needed; the length field is the last 8 octets of the
  block.  The state words are returned, the callers write them out.\<close>

definition md_done :: "nat \<Rightarrow> nat \<Rightarrow> ('w list \<Rightarrow> bytes \<Rightarrow> 'w list) \<Rightarrow> 'w md_state \<Rightarrow> 'w list option" where
  "md_done B thr compress md =
     (if sh_curlen md \<ge> B then None
      else
        let len = sh_length md + word_of_nat (sh_curlen md * 8);
            buf = (sh_buf md)[sh_curlen md := 0x80];
            curlen = sh_curlen md + 1;
            (st, buf, curlen) =
              (if curlen > thr
               then let buf = take curlen buf @ replicate (B - curlen) 0
                    in (compress (sh_state md) buf, buf, 0)
               else (sh_state md, buf, curlen));
            buf = take curlen buf @ replicate (B - 8 - curlen) 0 @ drop (B - 8) buf;
            buf = take (B - 8) buf @ WPA_PUT_BE64 len
        in Some (compress st buf))"

fun md_process_all :: "nat \<Rightarrow> ('w list \<Rightarrow> bytes \<Rightarrow> 'w list) \<Rightarrow> 'w md_state \<Rightarrow> bytes list \<Rightarrow> 'w md_state option" where
  "md_process_all B compress md [] = Some md"
| "md_process_all B compress md (d # ds) =
     (case md_process B compress md d of None \<Rightarrow> None | Some md \<Rightarrow> md_process_all B compress md ds)"

subsection \<open>Specification\<close>

text \<open>Folding a compression function over the complete blocks of a message.\<close>

function md_fold :: "nat \<Rightarrow> ('s \<Rightarrow> bytes \<Rightarrow> 's) \<Rightarrow> 's \<Rightarrow> bytes \<Rightarrow> 's" where
  "md_fold B c st m = (if length m < B \<or> B = 0 then st else md_fold B c (c st (take B m)) (drop B m))"
  by pat_completeness auto
termination
  by (relation "measure (\<lambda>(B, c, st, m). length m)") auto

declare md_fold.simps [simp del]

text \<open>FIPS 180-4, 5.1: a one bit, zeros up to \<open>thr\<close> modulo the block size, and the length in bits up to
  the end of the block; of the length field the last 64 bits are written and the others are zero.\<close>

definition md_pad :: "nat \<Rightarrow> nat \<Rightarrow> bytes \<Rightarrow> bytes" where
  "md_pad B thr m = m @ [0x80] @ replicate ((B + thr - 1 - length m mod B) mod B) 0 @
     replicate (B - 8 - thr) 0 @ WPA_PUT_BE64 (word_of_nat (8 * length m))"

subsection \<open>The length field\<close>

lemma be_octet: "k + 8 \<le> 64 \<Longrightarrow> ucast (drop_bit k (word_of_nat n :: u64)) = (word_of_nat (n div 2 ^ k) :: u8)"
  by (rule bit_word_eqI) (simp add: bit_simps drop_bit_eq_div [symmetric])

lemma be_octet_last: "ucast (word_of_nat n AND 0xff :: u64) = (word_of_nat n :: u8)"
proof -
  have "(0xff :: u64) = mask 8" by (simp add: mask_eq_exp_minus_1)
  show ?thesis unfolding \<open>0xff = mask 8\<close> by (rule bit_word_eqI) (simp add: bit_simps)
qed

lemma word_of_nat_mod_256: "(word_of_nat (k mod 256) :: u8) = word_of_nat k"
  by (rule word_unat_eq_iff [THEN iffD2]) (simp add: unat_of_nat)

lemma be_bytes_8: "be_bytes 8 n = map (\<lambda>k. word_of_nat (n div 2 ^ k)) [56, 48, 40, 32, 24, 16, 8, 0]"
proof -
  have 8: "8 = Suc (Suc (Suc (Suc (Suc (Suc (Suc (Suc 0)))))))" by simp
  show ?thesis unfolding 8 be_bytes.simps by (simp add: word_of_nat_mod_256 div_mult2_eq [symmetric])
qed

lemma put_be64_be_bytes: "WPA_PUT_BE64 (word_of_nat n) = be_bytes 8 n"
  unfolding be_bytes_8 by (simp add: WPA_PUT_BE64_def be_octet be_octet_last)

lemma be_bytes_zeros: "n < 256 ^ k \<Longrightarrow> be_bytes (j + k) n = replicate j 0 @ be_bytes k n"
proof (induction k arbitrary: n)
  case 0
  have "be_bytes j 0 = replicate j 0" for j by (induction j) (simp_all add: replicate_append_same)
  then show ?case using 0 by simp
next
  case (Suc k)
  then have "n div 256 < 256 ^ k" by (simp add: less_mult_imp_div_less mult.commute)
  with Suc.IH show ?case by simp
qed
subsection \<open>Blocks\<close>

lemma md_fold_short: "length m < B \<Longrightarrow> md_fold B c st m = st"
  by (simp add: md_fold.simps)

lemma md_fold_block: "length b = B \<Longrightarrow> 0 < B \<Longrightarrow> md_fold B c st (b @ m) = md_fold B c (c st b) m"
  by (subst md_fold.simps) simp

lemma md_fold_0: "md_fold 0 c st m = st"
  by (simp add: md_fold.simps)

lemma md_fold_append:
  "B dvd length a \<Longrightarrow> md_fold B c st (a @ b) = md_fold B c (md_fold B c st a) b"
proof (induction B c st a rule: md_fold.induct)
  case (1 B c st m)
  show ?case
  proof (cases "length m < B \<or> B = 0")
    case True
    with "1.prems" have "m = []" by (cases m) (auto dest: dvd_imp_le)
    then show ?thesis by (cases "B = 0") (simp_all add: md_fold_0 md_fold_short)
  next
    case False
    then have "B dvd length (drop B m)" using "1.prems" by (simp add: dvd_diff_nat)
    with 1 False have "md_fold B c (c st (take B m)) (drop B m @ b) =
      md_fold B c (md_fold B c (c st (take B m)) (drop B m)) b" by simp
    with False show ?thesis by (simp add: md_fold.simps [of B c st m] md_fold.simps [of B c st "m @ b"])
  qed
qed

lemma md_fold_snoc_block:
  "B dvd length f \<Longrightarrow> length b = B \<Longrightarrow> 0 < B \<Longrightarrow> md_fold B c st (f @ b) = c (md_fold B c st f) b"
  using md_fold_block [of b B c "md_fold B c st f" "[]"] by (simp add: md_fold_append md_fold_short)

lemma md_fold_inv:
  "P st \<Longrightarrow> (\<And>s b. P s \<Longrightarrow> P (c s b)) \<Longrightarrow> P (md_fold B c st m)"
  by (induction B c st m rule: md_fold.induct) (simp add: md_fold.simps)

lemma md_pad_blocks:
  assumes "0 < thr" "thr + 8 \<le> B"
  shows "B dvd length (md_pad B thr m)"
proof -
  define c where "c = length m mod B"
  define x where "x = B + thr - 1 - c"
  have c: "c < B" using assms by (simp add: c_def)
  have "length (md_pad B thr m) = length m + 1 + x mod B + (B - thr)"
    using assms by (simp add: md_pad_def c_def x_def len_simps)
  also have "\<dots> mod B = (c + 1 + x + (B - thr)) mod B" by (intro mod_add_cong refl) (simp_all add: c_def)
  also have "c + 1 + x + (B - thr) = B + B" using assms c by (simp add: x_def)
  finally show ?thesis by (simp add: dvd_eq_mod_eq_0)
qed

lemma concat_map_nth: "length st = n \<Longrightarrow> concat (map (\<lambda>i. g (st ! i)) [0..<n]) = concat (map g st)"
  by (rule arg_cong [where f = concat], rule nth_equalityI) simp_all

subsection \<open>The streaming code computes the specification\<close>

locale md_hash =
  fixes B thr :: nat and compress :: "'w list \<Rightarrow> bytes \<Rightarrow> 'w list" and H0 :: "'w list"
  assumes thr: "0 < thr" "thr + 8 \<le> B"
begin

lemma B_pos: "0 < B" using thr by simp

text \<open>The context represents the message \<open>m\<close> read so far: \<open>f\<close> is its complete blocks, already
  compressed, and \<open>t\<close> the rest, held in the buffer.\<close>

definition repr :: "'w md_state \<Rightarrow> bytes \<Rightarrow> bool" where
  "repr md m \<longleftrightarrow>
     (\<exists>f t. m = f @ t \<and> B dvd length f \<and> length t = sh_curlen md \<and> sh_curlen md < B \<and>
        sh_state md = md_fold B compress H0 f \<and>
        sh_length md = word_of_nat (8 * length f) \<and>
        length (sh_buf md) = B \<and> take (sh_curlen md) (sh_buf md) = t)"

lemma repr_init:
  "length (sh_buf md) = B \<Longrightarrow> sh_curlen md = 0 \<Longrightarrow> sh_length md = 0 \<Longrightarrow> sh_state md = H0 \<Longrightarrow> repr md []"
  using B_pos by (simp add: repr_def md_fold_short)

lemma repr_block:
  assumes "repr md m" and "sh_curlen md = 0" and "length b = B"
  shows "repr ((compress_md compress md b)\<lparr>sh_length := sh_length md + word_of_nat (B * 8)\<rparr>) (m @ b)"
proof -
  from assms have m: "B dvd length m" "sh_state md = md_fold B compress H0 m"
    "sh_length md = word_of_nat (8 * length m)" "length (sh_buf md) = B"
    by (auto simp: repr_def)
  then have "B dvd length (m @ b)" using assms(3) by simp
  with m assms show ?thesis
    unfolding repr_def
    by (intro exI [of _ "m @ b"] exI [of _ "[]"])
      (simp add: compress_md_def md_fold_snoc_block B_pos algebra_simps)
qed

lemma repr_fill:
  assumes r: "repr md m" and le: "sh_curlen md + length x \<le> B"
  defines "md1 \<equiv> md\<lparr>sh_buf := take (sh_curlen md) (sh_buf md) @ x @ drop (sh_curlen md + length x) (sh_buf md),
                    sh_curlen := sh_curlen md + length x\<rparr>"
  shows "repr (if sh_curlen md1 = B
           then (compress_md compress md1 (sh_buf md1))
                  \<lparr>sh_length := sh_length md1 + word_of_nat (8 * B), sh_curlen := 0\<rparr>
           else md1) (m @ x)"
proof -
  from r obtain f t where m: "m = f @ t" "B dvd length f" "length t = sh_curlen md"
    "sh_curlen md < B" "sh_state md = md_fold B compress H0 f"
    "sh_length md = word_of_nat (8 * length f)" "length (sh_buf md) = B"
    "take (sh_curlen md) (sh_buf md) = t" unfolding repr_def by blast
  show ?thesis
  proof (cases "sh_curlen md1 = B")
    case True
    then have full: "length (t @ x) = B" "sh_buf md1 = t @ x"
      using m by (auto simp: md1_def)
    have "compress (sh_state md) (t @ x) = md_fold B compress H0 (f @ t @ x)"
      using m(2,5) full(1) by (simp add: md_fold_snoc_block B_pos del: length_append)
    moreover have "length (f @ t @ x) = length f + B" using full(1) by simp
    ultimately show ?thesis
      unfolding repr_def using True m full B_pos
      by (intro exI [of _ "f @ t @ x"] exI [of _ "[]"])
        (simp add: compress_md_def md1_def algebra_simps)
  next
    case False
    then have "sh_curlen md + length x < B" using le by (simp add: md1_def)
    then show ?thesis
      unfolding repr_def using False m
      by (intro exI [of _ f] exI [of _ "t @ x"]) (simp add: md1_def)
  qed
qed

lemma process_loop_repr: "repr md m \<Longrightarrow> repr (md_process_loop B compress md inp) (m @ inp)"
proof (induction "length inp" arbitrary: md inp m rule: less_induct)
  case less
  have lt: "sh_curlen md < B" using less.prems by (auto simp: repr_def)
  consider "inp = []" | "inp \<noteq> []" "sh_curlen md = 0" "length inp \<ge> B"
    | "inp \<noteq> []" "\<not> (sh_curlen md = 0 \<and> length inp \<ge> B)"
    by (cases "inp = []") auto
  then show ?case
  proof cases
    case 1
    with less.prems show ?thesis by (simp add: md_process_loop.simps)
  next
    case 2
    then have "repr ((compress_md compress md (take B inp))\<lparr>sh_length := sh_length md + word_of_nat (B * 8)\<rparr>)
        (m @ take B inp)" by (intro repr_block less.prems) simp_all
    from less.hyps [OF _ this, of "drop B inp"] 2 lt show ?thesis
      by (simp add: md_process_loop.simps [of B compress md inp])
  next
    case 3
    define n where "n = min (length inp) (B - sh_curlen md)"
    define md1 where "md1 = md\<lparr>sh_buf := take (sh_curlen md) (sh_buf md) @ take n inp @
                               drop (sh_curlen md + n) (sh_buf md),
                     sh_curlen := sh_curlen md + n\<rparr>"
    define md2 where "md2 = (if sh_curlen md1 = B
           then (compress_md compress md1 (sh_buf md1))
                  \<lparr>sh_length := sh_length md1 + word_of_nat (8 * B), sh_curlen := 0\<rparr>
           else md1)"
    have n: "length (take n inp) = n" "0 < n" "sh_curlen md + n \<le> B" using 3 lt by (auto simp: n_def)
    have "repr md2 (m @ take n inp)"
      using repr_fill [OF less.prems, of "take n inp", unfolded n(1)] n(3) unfolding md2_def md1_def by blast
    from less.hyps [OF _ this, of "drop n inp"] n 3
    have "repr (md_process_loop B compress md2 (drop n inp)) (m @ inp)" by simp
    moreover have "md_process_loop B compress md inp = md_process_loop B compress md2 (drop n inp)"
      using 3 lt by (subst md_process_loop.simps) (auto simp: Let_def n_def md1_def md2_def)
    ultimately show ?thesis by simp
  qed
qed

lemma process_all_repr:
  "repr md m \<Longrightarrow> \<exists>md'. md_process_all B compress md ds = Some md' \<and> repr md' (m @ concat ds)"
proof (induction ds arbitrary: md m)
  case (Cons d ds)
  have "sh_curlen md < B" using Cons.prems by (auto simp: repr_def)
  with Cons.IH [OF process_loop_repr [OF Cons.prems, of d]] show ?case
    by (simp add: md_process_def)
qed simp

lemma done_repr:
  assumes "repr md m"
  shows "md_done B thr compress md = Some (md_fold B compress H0 (md_pad B thr m))"
proof -
  from assms obtain f t where m: "m = f @ t" "B dvd length f" "length t = sh_curlen md"
    "sh_curlen md < B" "sh_state md = md_fold B compress H0 f"
    "sh_length md = word_of_nat (8 * length f)" "length (sh_buf md) = B"
    "take (sh_curlen md) (sh_buf md) = t" unfolding repr_def by blast
  define c where "c = sh_curlen md"
  define L where "L = WPA_PUT_BE64 (word_of_nat (8 * length m))"
  have mod: "length m mod B = c" using m by (auto simp: c_def elim!: dvdE)
  have len: "sh_length md + word_of_nat (c * 8) = word_of_nat (8 * length m)"
    using m by (simp add: c_def algebra_simps)
  have tk: "take (Suc c) ((sh_buf md)[c := 0x80]) = t @ [0x80]"
    using m by (simp add: c_def take_Suc_conv_app_nth)
  have L8: "length L = 8" by (simp add: L_def len_simps)
  have c: "c < B" "length t = c" using m by (simp_all add: c_def)
  show ?thesis
  proof (cases "c + 1 \<le> thr")
    case True
    let ?b = "t @ [0x80] @ replicate (B - 8 - Suc c) 0 @ L"
    have "length ?b = B" using c True L8 thr by simp
    moreover have "md_pad B thr m = f @ ?b"
    proof -
      have e: "B + thr - 1 - c = (thr - 1 - c) + B" using True by simp
      have z: "(B + thr - 1 - c) mod B = thr - 1 - c" unfolding e mod_add_self2 by (rule mod_less) (use thr in simp)
      have "replicate (thr - 1 - c) 0 @ replicate (B - 8 - thr) (0 :: u8) = replicate (B - 8 - Suc c) 0"
        using True thr by (simp add: replicate_add [symmetric])
      then show ?thesis unfolding md_pad_def mod L_def z by (simp add: m(1))
    qed
    ultimately have "md_fold B compress H0 (md_pad B thr m) = compress (sh_state md) ?b"
      using m B_pos by (simp add: md_fold_snoc_block)
    moreover have "take (B - 8) (take (Suc c) ((sh_buf md)[c := 0x80]) @ replicate (B - 8 - Suc c) 0 @
        drop (B - 8) ((sh_buf md)[c := 0x80])) @ L = ?b"
    proof -
      have "B - (8 + c) = Suc (B - (9 + c))" using True thr by simp
      then show ?thesis using c True thr unfolding tk by simp
    qed
    moreover have "md_done B thr compress md = Some (compress (sh_state md)
        (take (B - 8) (take (Suc c) ((sh_buf md)[c := 0x80]) @ replicate (B - 8 - Suc c) 0 @
          drop (B - 8) ((sh_buf md)[c := 0x80])) @ L))"
      unfolding md_done_def c_def [symmetric] len L_def [symmetric] Let_def using True c(1) by simp
    ultimately show ?thesis by simp
  next
    case False
    let ?b = "t @ [0x80] @ replicate (B - Suc c) 0" and ?e = "replicate (B - 8) 0 @ L"
    have lens: "length ?b = B" "length ?e = B" using c L8 thr by simp_all
    have "md_pad B thr m = (f @ ?b) @ ?e"
    proof -
      have z: "(B + thr - 1 - c) mod B = (B - Suc c) + thr" using False c thr by simp
      have "replicate ((B - Suc c) + thr) 0 @ replicate (B - 8 - thr) (0 :: u8) =
          replicate (B - Suc c) 0 @ replicate (B - 8) 0"
        using thr by (simp add: replicate_add [symmetric])
      then show ?thesis unfolding md_pad_def mod L_def z by (simp add: m(1))
    qed
    moreover have "B dvd length (f @ ?b)"
      unfolding length_append lens(1) [unfolded length_append] using m(2) lens(1) by simp
    ultimately have "md_fold B compress H0 (md_pad B thr m) = compress (compress (sh_state md) ?b) ?e"
      using m lens B_pos by (simp add: md_fold_snoc_block del: append_assoc length_append)
    moreover have "md_done B thr compress md = Some (compress (compress (sh_state md) ?b) ?e)"
      unfolding md_done_def c_def [symmetric] len L_def [symmetric] Let_def using False c(1) tk by simp
    ultimately show ?thesis by simp
  qed
qed

text \<open>From any context with a buffer of the right size.\<close>

lemma stream_eq:
  assumes "length (sh_buf md) = B" "sh_curlen md = 0" "sh_length md = 0" "sh_state md = H0"
  shows "Option.bind (md_process_all B compress md elems) (md_done B thr compress) =
    Some (md_fold B compress H0 (md_pad B thr (concat elems)))"
  using process_all_repr [OF repr_init [OF assms], of elems] done_repr by auto

end

end
