(* ===== verification/Sha256.thy ===== *)
theory Sha256
  imports MdHash
begin

text \<open>
  SHA-256 from \<^verbatim>\<open>src/crypto/sha256-internal.c\<close>: the compression function, the streaming
  interface \<^verbatim>\<open>sha256_init\<close> / \<^verbatim>\<open>sha256_process\<close> / \<^verbatim>\<open>sha256_done\<close> with its 64 byte
  buffer, and \<^verbatim>\<open>sha256_vector\<close>.  The specification \<open>sha256\<close> is the one of FIPS 180-4; the main
  theorem says that the streaming code computes it for every way of splitting the message into
  fragments, by the interpretation of the locale \<open>md_hash\<close>.
  \<^verbatim>\<open>TEST_FAIL()\<close> is false (builds without \<^verbatim>\<open>CONFIG_TESTING_OPTIONS\<close>).
\<close>

subsection \<open>Compression\<close>

definition K256 :: "u32 list" where
  "K256 = [
    0x428A2F98, 0x71374491, 0xB5C0FBCF, 0xE9B5DBA5, 0x3956C25B,
    0x59F111F1, 0x923F82A4, 0xAB1C5ED5, 0xD807AA98, 0x12835B01,
    0x243185BE, 0x550C7DC3, 0x72BE5D74, 0x80DEB1FE, 0x9BDC06A7,
    0xC19BF174, 0xE49B69C1, 0xEFBE4786, 0x0FC19DC6, 0x240CA1CC,
    0x2DE92C6F, 0x4A7484AA, 0x5CB0A9DC, 0x76F988DA, 0x983E5152,
    0xA831C66D, 0xB00327C8, 0xBF597FC7, 0xC6E00BF3, 0xD5A79147,
    0x06CA6351, 0x14292967, 0x27B70A85, 0x2E1B2138, 0x4D2C6DFC,
    0x53380D13, 0x650A7354, 0x766A0ABB, 0x81C2C92E, 0x92722C85,
    0xA2BFE8A1, 0xA81A664B, 0xC24B8B70, 0xC76C51A3, 0xD192E819,
    0xD6990624, 0xF40E3585, 0x106AA070, 0x19A4C116, 0x1E376C08,
    0x2748774C, 0x34B0BCB5, 0x391C0CB3, 0x4ED8AA4A, 0x5B9CCA4F,
    0x682E6FF3, 0x748F82EE, 0x78A5636F, 0x84C87814, 0x8CC70208,
    0x90BEFFFA, 0xA4506CEB, 0xBEF9A3F7, 0xC67178F2]"

definition RORc :: "u32 \<Rightarrow> nat \<Rightarrow> u32" where
  "RORc x y = drop_bit (y mod 32) x OR push_bit (32 - y mod 32) x"

definition Ch :: "u32 \<Rightarrow> u32 \<Rightarrow> u32 \<Rightarrow> u32" where
  "Ch x y z = z XOR (x AND (y XOR z))"

definition Maj :: "u32 \<Rightarrow> u32 \<Rightarrow> u32 \<Rightarrow> u32" where
  "Maj x y z = ((x OR y) AND z) OR (x AND y)"

definition Sigma0 :: "u32 \<Rightarrow> u32" where
  "Sigma0 x = RORc x 2 XOR RORc x 13 XOR RORc x 22"

definition Sigma1 :: "u32 \<Rightarrow> u32" where
  "Sigma1 x = RORc x 6 XOR RORc x 11 XOR RORc x 25"

definition Gamma0 :: "u32 \<Rightarrow> u32" where
  "Gamma0 x = RORc x 7 XOR RORc x 18 XOR drop_bit 3 x"

definition Gamma1 :: "u32 \<Rightarrow> u32" where
  "Gamma1 x = RORc x 17 XOR RORc x 19 XOR drop_bit 10 x"

text \<open>The message schedule \<^verbatim>\<open>W[0..63]\<close>.\<close>

definition sha256_W :: "bytes \<Rightarrow> u32 list" where
  "sha256_W buf =
     fold (\<lambda>i W. W @ [Gamma1 (W ! (i - 2)) + W ! (i - 7) + Gamma0 (W ! (i - 15)) + W ! (i - 16)])
       [16..<64] (map (\<lambda>i. WPA_GET_BE32 (drop (4 * i) buf)) [0..<16])"

text \<open>One round: the macro \<^verbatim>\<open>RND\<close> and the rotation of the eight variables after it.\<close>

definition sha256_RND :: "u32 list \<Rightarrow> nat \<Rightarrow> u32 list \<Rightarrow> u32 list" where
  "sha256_RND W i S =
     (let t0 = S ! 7 + Sigma1 (S ! 4) + Ch (S ! 4) (S ! 5) (S ! 6) + K256 ! i + W ! i;
          t1 = Sigma0 (S ! 0) + Maj (S ! 0) (S ! 1) (S ! 2)
      in [t0 + t1, S ! 0, S ! 1, S ! 2, S ! 3 + t0, S ! 4, S ! 5, S ! 6])"

definition sha256_compress :: "u32 list \<Rightarrow> bytes \<Rightarrow> u32 list" where
  "sha256_compress st buf =
     (let W = sha256_W buf; S = fold (sha256_RND W) [0..<64] st
      in map (\<lambda>i. st ! i + S ! i) [0..<8])"

subsection \<open>Streaming interface\<close>

type_synonym sha256_state = "u32 md_state"

definition sha256_H0 :: "u32 list" where
  "sha256_H0 = [0x6A09E667, 0xBB67AE85, 0x3C6EF372, 0xA54FF53A,
                0x510E527F, 0x9B05688C, 0x1F83D9AB, 0x5BE0CD19]"

definition sha256_init :: "sha256_state \<Rightarrow> sha256_state" where
  "sha256_init md = md\<lparr>sh_curlen := 0, sh_length := 0, sh_state := sha256_H0\<rparr>"

definition sha256_process :: "sha256_state \<Rightarrow> bytes \<Rightarrow> sha256_state option" where
  "sha256_process md inp = md_process 64 sha256_compress md inp"

definition sha256_done :: "sha256_state \<Rightarrow> bytes option" where
  "sha256_done md = do {
     st \<leftarrow> md_done 64 56 sha256_compress md;
     Some (concat (map (\<lambda>i. WPA_PUT_BE32 (st ! i)) [0..<8])) }"

text \<open>The context is an uninitialised local variable in C; \<open>ctx\<close> is what it happens to hold.\<close>

definition sha256_vector_ctx :: "sha256_state \<Rightarrow> bytes list \<Rightarrow> bytes option" where
  "sha256_vector_ctx ctx elems = do {
     md \<leftarrow> md_process_all 64 sha256_compress (sha256_init ctx) elems;
     sha256_done md }"

definition sha256_vector :: "bytes list \<Rightarrow> bytes option" where
  "sha256_vector elems =
     sha256_vector_ctx \<lparr>sh_length = 0, sh_state = [], sh_curlen = 0, sh_buf = replicate 64 0\<rparr> elems"

text \<open>FIPS 180-4, 6.2.\<close>

definition sha256 :: "bytes \<Rightarrow> bytes" where
  "sha256 m = concat (map WPA_PUT_BE32 (md_fold 64 sha256_compress sha256_H0 (md_pad 64 56 m)))"

subsection \<open>The logical functions are those of the standard\<close>

lemma Ch_eq: "Ch x y z = (x AND y) XOR (NOT x AND z)"
  unfolding Ch_def by (rule bit_word_eqI) (auto simp: bit_simps)

lemma Maj_eq: "Maj x y z = (x AND y) XOR (x AND z) XOR (y AND z)"
  unfolding Maj_def by (rule bit_word_eqI) (auto simp: bit_simps)

subsection \<open>The streaming code computes the specification\<close>

lemma length_sha256_compress [simp, len_simps]: "length (sha256_compress st b) = 8"
  by (simp add: sha256_compress_def Let_def)

lemma length_md_fold_sha256: "length (md_fold 64 sha256_compress sha256_H0 m) = 8"
  by (rule md_fold_inv) (simp_all add: sha256_H0_def)

interpretation sha256: md_hash 64 56 sha256_compress sha256_H0
  by unfold_locales simp_all

lemma sha256_vector_ctx_eq:
  assumes "length (sh_buf ctx) = 64"
  shows "sha256_vector_ctx ctx elems = Some (sha256 (concat elems))"
proof -
  have "Option.bind (md_process_all 64 sha256_compress (sha256_init ctx) elems) (md_done 64 56 sha256_compress) =
      Some (md_fold 64 sha256_compress sha256_H0 (md_pad 64 56 (concat elems)))"
    by (rule sha256.stream_eq) (simp_all add: sha256_init_def assms)
  then show ?thesis
    by (auto simp: sha256_vector_ctx_def sha256_done_def sha256_def bind_eq_Some_conv
        concat_map_nth [OF length_md_fold_sha256])
qed

lemma sha256_vector_eq: "sha256_vector elems = Some (sha256 (concat elems))"
  unfolding sha256_vector_def by (rule sha256_vector_ctx_eq) simp

lemma length_sha256 [simp, len_simps]: "length (sha256 m) = 32"
  using length_md_fold_sha256 [of "md_pad 64 56 m"]
  by (simp add: sha256_def length_concat comp_def len_simps sum_list_triv)



end
