(* ===== verification/Hmac.thy ===== *)
theory Hmac
  imports Sha256
begin

text \<open>
  Keyed hashing and key derivation over a hash of byte vectors: \<^verbatim>\<open>hmac_sha256_vector\<close> and
  \<^verbatim>\<open>hmac_sha256\<close> (\<^verbatim>\<open>src/crypto/sha256.c\<close>), \<^verbatim>\<open>sha256_prf_bits\<close> and \<^verbatim>\<open>sha256_prf\<close>
  (\<^verbatim>\<open>src/crypto/sha256-prf.c\<close>), \<^verbatim>\<open>hmac_sha256_kdf\<close> (\<^verbatim>\<open>src/crypto/sha256-kdf.c\<close>) and
  \<^verbatim>\<open>tls_prf_sha256\<close> (\<^verbatim>\<open>src/crypto/sha256-tlsprf.c\<close>).
  The specifications are the ones of RFC 2104, of IEEE Std 802.11 (the KDF), of RFC 5295 and of
  RFC 5246.  The locale \<open>hash_vector\<close> is what these functions need of the hash below them; it is
  interpreted on the SHA-256 code.
\<close>

subsection \<open>The interface of a hash over byte vectors\<close>

locale hash_vector =
  fixes hv :: "bytes list \<Rightarrow> bytes option" and H :: "bytes \<Rightarrow> bytes" and L :: nat and B :: nat
  assumes hv_eq: "hv elems = Some (H (concat elems))"
    and length_H: "length (H m) = L"
    and L_le_B: "L \<le> B" and L_pos: "0 < L"

subsection \<open>HMAC\<close>

text \<open>\<^verbatim>\<open>k_pad\<close>: the block sized buffer is cleared, the key is copied to its start, and every octet is
  xored with the pad value.  The copy of a key longer than the block is out of bounds.\<close>

definition hmac_k_pad :: "nat \<Rightarrow> bytes \<Rightarrow> u8 \<Rightarrow> bytes" where
  "hmac_k_pad B key v = map (\<lambda>x. x XOR v) (key @ replicate (B - length key) 0)"

text \<open>The code of \<^verbatim>\<open>hmac_sha1_vector\<close>, \<^verbatim>\<open>hmac_sha256_vector\<close> and \<^verbatim>\<open>hmac_sha384_vector\<close> is the same
  but for the hash \<open>hv\<close> it calls and its block size \<open>B\<close>.\<close>

definition hmac_vector :: "(bytes list \<Rightarrow> bytes option) \<Rightarrow> nat \<Rightarrow> bytes \<Rightarrow> bytes list \<Rightarrow> bytes option" where
  "hmac_vector hv B key elems =
     (if length elems > 5 then None
      else do {
        key \<leftarrow> (if length key > B then hv [key] else Some key);
        mac \<leftarrow> hv (hmac_k_pad B key 0x36 # elems);
        hv [hmac_k_pad B key 0x5c, mac] })"

definition hmac_sha256_vector :: "bytes \<Rightarrow> bytes list \<Rightarrow> bytes option" where
  "hmac_sha256_vector key elems = hmac_vector sha256_vector 64 key elems"

definition hmac_sha256 :: "bytes \<Rightarrow> bytes \<Rightarrow> bytes option" where
  "hmac_sha256 key data = hmac_sha256_vector key [data]"

text \<open>RFC 2104.\<close>

definition hmac :: "(bytes \<Rightarrow> bytes) \<Rightarrow> nat \<Rightarrow> bytes \<Rightarrow> bytes \<Rightarrow> bytes" where
  "hmac H B key text =
     (let k = (if length key > B then H key else key);
          k0 = k @ replicate (B - length k) 0
      in H (map (\<lambda>x. x XOR 0x5c) k0 @ H (map (\<lambda>x. x XOR 0x36) k0 @ text)))"

subsection \<open>Key derivation of IEEE 802.11\<close>

text \<open>The \<^verbatim>\<open>while\<close> loop of \<^verbatim>\<open>sha256_prf_bits\<close>: \<open>rem\<close> octets of the output are still to be written.\<close>

function prf_bits_loop ::
  "(bytes list \<Rightarrow> bytes option) \<Rightarrow> nat \<Rightarrow> bytes \<Rightarrow> bytes \<Rightarrow> bytes \<Rightarrow> u16 \<Rightarrow> nat \<Rightarrow> bytes option" where
  "prf_bits_loop hm L label data length_le counter rem =
     (if rem = 0 \<or> L = 0 then Some []
      else if rem \<ge> L then do {
        hash \<leftarrow> hm [WPA_PUT_LE16 counter, label, data, length_le];
        rest \<leftarrow> prf_bits_loop hm L label data length_le (counter + 1) (rem - L);
        Some (hash @ rest) }
      else do {
        hash \<leftarrow> hm [WPA_PUT_LE16 counter, label, data, length_le];
        Some (take rem hash) })"
  by pat_completeness auto
termination
  by (relation "measure (\<lambda>(hm, L, label, data, length_le, counter, rem). rem)") auto

declare prf_bits_loop.simps [simp del]

definition mask_last :: "nat \<Rightarrow> bytes \<Rightarrow> bytes" where
  "mask_last bits buf =
     (if bits mod 8 \<noteq> 0
      then buf[length buf - 1 := last buf AND push_bit (8 - bits mod 8) 0xff]
      else buf)"

definition sha256_prf_bits :: "bytes \<Rightarrow> bytes \<Rightarrow> bytes \<Rightarrow> nat \<Rightarrow> bytes option" where
  "sha256_prf_bits key label data buf_len_bits =
     map_option (mask_last buf_len_bits)
       (prf_bits_loop (hmac_sha256_vector key) 32 label data
          (WPA_PUT_LE16 (word_of_nat buf_len_bits)) 1 ((buf_len_bits + 7) div 8))"

definition sha256_prf :: "bytes \<Rightarrow> bytes \<Rightarrow> bytes \<Rightarrow> nat \<Rightarrow> bytes option" where
  "sha256_prf key label data buf_len = sha256_prf_bits key label data (buf_len * 8)"

text \<open>The KDF of IEEE Std 802.11-2012, 11.6.1.7.2: the blocks
  HMAC(K, i || Label || Context || Length) for i = 1, 2, ..., cut to the wanted length.\<close>

definition kdf_block :: "(bytes \<Rightarrow> bytes) \<Rightarrow> bytes \<Rightarrow> bytes \<Rightarrow> nat \<Rightarrow> nat \<Rightarrow> bytes" where
  "kdf_block mac label data bits i =
     mac (WPA_PUT_LE16 (word_of_nat i) @ label @ data @ WPA_PUT_LE16 (word_of_nat bits))"

definition kdf_stream :: "(bytes \<Rightarrow> bytes) \<Rightarrow> bytes \<Rightarrow> bytes \<Rightarrow> nat \<Rightarrow> nat \<Rightarrow> bytes" where
  "kdf_stream mac label data bits n = concat (map (kdf_block mac label data bits) [1..<Suc n])"

subsection \<open>KDF of RFC 5295\<close>

function hmac_kdf_loop :: "(bytes list \<Rightarrow> bytes option) \<Rightarrow> nat \<Rightarrow> bytes \<Rightarrow> bytes \<Rightarrow> bytes \<Rightarrow> u8 \<Rightarrow> nat \<Rightarrow> bytes option" where
  "hmac_kdf_loop hm L lab seed T iter rem =
     (if rem \<le> L then Some (take rem T)
      else if iter = 255 \<or> L = 0 then None
      else do {
        T' \<leftarrow> hm [T, lab, seed, [iter + 1]];
        rest \<leftarrow> hmac_kdf_loop hm L lab seed T' (iter + 1) (rem - L);
        Some (take L T @ rest) })"
  by pat_completeness auto
termination
  by (relation "measure (\<lambda>(hm, L, lab, seed, T, iter, rem). rem)") auto

declare hmac_kdf_loop.simps [simp del]

text \<open>The label, if there is one, is hashed with its terminating NUL.\<close>

definition hmac_sha256_kdf :: "bytes \<Rightarrow> bytes option \<Rightarrow> bytes \<Rightarrow> nat \<Rightarrow> bytes option" where
  "hmac_sha256_kdf secret label seed outlen =
     (let lab = (case label of None \<Rightarrow> [] | Some l \<Rightarrow> l @ [0])
      in do {
        T \<leftarrow> hmac_sha256_vector secret [lab, seed, [1]];
        hmac_kdf_loop (hmac_sha256_vector secret) 32 lab seed T 1 outlen })"

text \<open>RFC 5295: T1 = PRF(S, L || seed || 1), T(i+1) = PRF(S, Ti || L || seed || i+1).\<close>

fun kdf5295_T :: "(bytes \<Rightarrow> bytes) \<Rightarrow> bytes \<Rightarrow> nat \<Rightarrow> bytes" where
  "kdf5295_T mac ls 0 = mac (ls @ [1])"
| "kdf5295_T mac ls (Suc i) = mac (kdf5295_T mac ls i @ ls @ [word_of_nat (Suc (Suc i))])"

subsection \<open>TLS 1.2 PRF\<close>

text \<open>The return values of the HMAC calls are ignored; a failing call would leave the buffer as it
  is, which the model does not follow: it is \<open>None\<close> here (and never happens, see below).\<close>

function tls_prf_loop :: "(bytes list \<Rightarrow> bytes option) \<Rightarrow> nat \<Rightarrow> bytes \<Rightarrow> bytes \<Rightarrow> bytes \<Rightarrow> nat \<Rightarrow> bytes option" where
  "tls_prf_loop hm L label seed A rem =
     (if rem = 0 \<or> L = 0 then Some []
      else do {
        P \<leftarrow> hm [A, label, seed];
        A' \<leftarrow> hm [A];
        rest \<leftarrow> tls_prf_loop hm L label seed A' (rem - min rem L);
        Some (take (min rem L) P @ rest) })"
  by pat_completeness auto
termination
  by (relation "measure (\<lambda>(hm, L, label, seed, A, rem). rem)") auto

declare tls_prf_loop.simps [simp del]

definition tls_prf_sha256 :: "bytes \<Rightarrow> bytes \<Rightarrow> bytes \<Rightarrow> nat \<Rightarrow> bytes option" where
  "tls_prf_sha256 secret label seed outlen = do {
     A \<leftarrow> hmac_sha256_vector secret [label, seed];
     tls_prf_loop (hmac_sha256_vector secret) 32 label seed A outlen }"

text \<open>RFC 5246, chapter 5: A(i) and P_hash.\<close>

fun tls_A :: "(bytes \<Rightarrow> bytes) \<Rightarrow> bytes \<Rightarrow> nat \<Rightarrow> bytes" where
  "tls_A mac s 0 = s"
| "tls_A mac s (Suc i) = mac (tls_A mac s i)"

definition P_hash :: "(bytes \<Rightarrow> bytes) \<Rightarrow> bytes \<Rightarrow> nat \<Rightarrow> bytes" where
  "P_hash mac s n = concat (map (\<lambda>i. mac (tls_A mac s (Suc i) @ s)) [0..<n])"

subsection \<open>What the derivation functions need of the HMAC\<close>

locale keyed_prf =
  fixes hm :: "bytes list \<Rightarrow> bytes option" and mac :: "bytes \<Rightarrow> bytes" and L :: nat
  assumes hm_eq: "length elems \<le> 5 \<Longrightarrow> hm elems = Some (mac (concat elems))"
    and length_mac: "length (mac m) = L"
    and L_pos: "0 < L"
begin

lemma prf_bits_loop_eq:
  assumes "rem \<le> n * L"
  shows "prf_bits_loop hm L label data (WPA_PUT_LE16 (word_of_nat bits)) (word_of_nat i) rem =
     Some (take rem (concat (map (kdf_block mac label data bits) [i..<i + n])))"
  using assms
proof (induction n arbitrary: i rem)
  case 0
  then show ?case by (simp add: prf_bits_loop.simps)
next
  case (Suc n)
  have blk: "hm [WPA_PUT_LE16 (word_of_nat i), label, data, WPA_PUT_LE16 (word_of_nat bits)] =
      Some (kdf_block mac label data bits i)"
    by (simp add: hm_eq kdf_block_def)
  have len: "length (kdf_block mac label data bits i) = L" by (simp add: kdf_block_def length_mac)
  have up: "[i..<i + Suc n] = i # [Suc i..<Suc i + n]" by (simp add: upt_rec)
  show ?case
  proof (cases "rem \<ge> L")
    case True
    then have "rem - L \<le> n * L" using Suc.prems by simp
    from Suc.IH [OF this, of "Suc i"] True L_pos show ?thesis
      unfolding up by (subst prf_bits_loop.simps) (simp add: blk len add.commute)
  next
    case False
    then show ?thesis
      unfolding up using L_pos
      by (cases "rem = 0"; subst prf_bits_loop.simps) (simp_all add: blk len)
  qed
qed

lemma length_T: "length (kdf5295_T mac ls i) = L"
  by (cases i) (simp_all add: length_mac)

lemma hmac_kdf_loop_some:
  assumes "rem \<le> Suc n * L" and "i + n \<le> 254"
  shows "hmac_kdf_loop hm L lab seed (kdf5295_T mac (lab @ seed) i) (word_of_nat (Suc i)) rem =
     Some (take rem (concat (map (kdf5295_T mac (lab @ seed)) [i..<i + Suc n])))"
  using assms
proof (induction n arbitrary: i rem)
  case 0
  then show ?case by (simp add: hmac_kdf_loop.simps length_T)
next
  case (Suc n)
  have up: "[i..<i + Suc (Suc n)] = i # [Suc i..<Suc i + Suc n]" by (simp add: upt_rec)
  show ?case
  proof (cases "rem \<le> L")
    case True
    then show ?thesis unfolding up by (simp add: hmac_kdf_loop.simps length_T)
  next
    case False
    have it: "(word_of_nat (Suc i) :: u8) \<noteq> 255"
    proof
      assume "(word_of_nat (Suc i) :: u8) = 255"
      then have "unat (word_of_nat (Suc i) :: u8) = unat (255 :: u8)" by (rule arg_cong)
      then have "Suc i mod 256 = 255" by (simp only: unat_of_nat) simp
      with Suc.prems show False by simp
    qed
    have T': "hm [kdf5295_T mac (lab @ seed) i, lab, seed, [word_of_nat (Suc i) + 1]] =
        Some (kdf5295_T mac (lab @ seed) (Suc i))"
      by (simp add: hm_eq add.commute)
    have "rem - L \<le> Suc n * L" "Suc i + n \<le> 254" using Suc.prems by simp_all
    from Suc.IH [OF this] have IH: "hmac_kdf_loop hm L lab seed (kdf5295_T mac (lab @ seed) (Suc i))
       (word_of_nat (Suc i) + 1) (rem - L) =
       Some (take (rem - L) (concat (map (kdf5295_T mac (lab @ seed)) [Suc i..<Suc i + Suc n])))"
      by (simp add: add.commute)
    have L0: "L \<noteq> 0" using L_pos by simp
    have "hmac_kdf_loop hm L lab seed (kdf5295_T mac (lab @ seed) i) (word_of_nat (Suc i)) rem =
      Some (take L (kdf5295_T mac (lab @ seed) i) @
        take (rem - L) (concat (map (kdf5295_T mac (lab @ seed)) [Suc i..<Suc i + Suc n])))"
      by (subst hmac_kdf_loop.simps) (simp only: False it L0 T' IH Option.bind.simps simp_thms if_False)
    then show ?thesis
      unfolding up using False by (simp add: length_T del: kdf5295_T.simps upt_Suc)
  qed
qed

lemma hmac_kdf_loop_none:
  assumes "rem > (255 - i) * L" and "i < 255"
  shows "hmac_kdf_loop hm L lab seed T (word_of_nat (Suc i)) rem = None"
  using assms
proof (induction "254 - i" arbitrary: i rem T)
  case 0
  then have "i = 254" by simp
  with 0 show ?case by (simp add: hmac_kdf_loop.simps)
next
  case (Suc k)
  then have i: "k = 254 - Suc i" "Suc i < 255" by simp_all
  have split: "(255 - i) * L = L + (255 - Suc i) * L"
    using i by (simp add: Suc_diff_Suc [symmetric])
  with Suc.prems have rem: "(255 - Suc i) * L < rem - L" "L < rem" by simp_all
  from Suc.hyps(1) [OF i(1) rem(1) i(2)] rem(2) show ?case
    by (subst hmac_kdf_loop.simps) (simp add: hm_eq add.commute)
qed

lemma tls_prf_loop_eq:
  assumes "rem \<le> n * L"
  shows "tls_prf_loop hm L label seed (tls_A mac (label @ seed) (Suc i)) rem =
     Some (take rem (concat (map (\<lambda>i. mac (tls_A mac (label @ seed) (Suc i) @ label @ seed)) [i..<i + n])))"
  using assms
proof (induction n arbitrary: i rem)
  case 0
  then show ?case by (simp add: tls_prf_loop.simps)
next
  case (Suc n)
  have up: "[i..<i + Suc n] = i # [Suc i..<Suc i + n]" by (simp add: upt_rec)
  have hm1: "hm [tls_A mac (label @ seed) (Suc i), label, seed] =
      Some (mac (tls_A mac (label @ seed) (Suc i) @ label @ seed))" by (simp add: hm_eq)
  have hm2: "hm [tls_A mac (label @ seed) (Suc i)] = Some (tls_A mac (label @ seed) (Suc (Suc i)))"
    by (simp add: hm_eq)
  have "rem - min rem L \<le> n * L" using Suc.prems by simp
  from Suc.IH [OF this, of "Suc i"]
  have "tls_prf_loop hm L label seed (tls_A mac (label @ seed) (Suc i)) rem =
     Some (take (min rem L) (mac (tls_A mac (label @ seed) (Suc i) @ label @ seed)) @
       take (rem - min rem L) (concat (map (\<lambda>i. mac (tls_A mac (label @ seed) (Suc i) @ label @ seed))
         [Suc i..<Suc i + n])))"
    using L_pos by (cases "rem = 0"; subst tls_prf_loop.simps) (simp, simp only: hm1 hm2, simp)
  then show ?case
    unfolding up by (simp add: length_mac min_def del: tls_A.simps upt_Suc)
qed

end

context hash_vector
begin

lemma hmac_vector_eq:
  assumes "length elems \<le> 5"
  shows "hmac_vector hv B key elems = Some (hmac H B key (concat elems))"
  using assms by (simp add: hmac_vector_def hmac_def hv_eq hmac_k_pad_def Let_def)

lemma length_hmac: "length (hmac H B key m) = L"
  by (simp add: hmac_def Let_def length_H)

end

sublocale hash_vector < hm: keyed_prf "hmac_vector hv B key" "hmac H B key" L for key
  by unfold_locales (simp_all add: hmac_vector_eq length_hmac L_pos)

interpretation sha256: hash_vector sha256_vector sha256 32 64
  by unfold_locales (simp_all add: sha256_vector_eq)

subsection \<open>The SHA-256 functions of the program\<close>

lemma hmac_sha256_vector_abs: "hmac_sha256_vector key = hmac_vector sha256_vector 64 key"
  by (rule ext) (simp add: hmac_sha256_vector_def)

lemma hmac_sha256_vector_eq:
  "length elems \<le> 5 \<Longrightarrow> hmac_sha256_vector key elems = Some (hmac sha256 64 key (concat elems))"
  by (simp add: hmac_sha256_vector_abs sha256.hmac_vector_eq)

lemma hmac_sha256_eq: "hmac_sha256 key data = Some (hmac sha256 64 key data)"
  by (simp add: hmac_sha256_def hmac_sha256_vector_eq)

lemma length_hmac_sha256 [simp, len_simps]: "length (hmac sha256 64 key m) = 32"
  by (rule sha256.length_hmac)

lemma sha256_prf_bits_eq:
  assumes "(bits + 7) div 8 \<le> n * 32"
  shows "sha256_prf_bits key label data bits = Some (mask_last bits
     (take ((bits + 7) div 8) (kdf_stream (hmac sha256 64 key) label data bits n)))"
  using sha256.hm.prf_bits_loop_eq [OF assms, of key label data bits 1]
  by (simp add: sha256_prf_bits_def hmac_sha256_vector_abs kdf_stream_def del: upt_Suc)

lemma length_concat_const: "(\<And>i. length (f i) = L) \<Longrightarrow> length (concat (map f xs)) = length xs * L"
  by (induction xs) simp_all

lemma length_kdf_stream: "length (kdf_stream (hmac sha256 64 key) label data bits n) = n * 32"
  by (simp add: kdf_stream_def length_concat_const kdf_block_def del: upt_Suc)

lemma length_mask_last [simp, len_simps]: "length (mask_last bits buf) = length buf"
  by (simp add: mask_last_def)

lemma octets_part: "bits mod 8 \<noteq> 0 \<Longrightarrow> (bits + 7) div 8 = Suc (bits div 8)" for bits :: nat
  by (simp add: div_add1_eq [of bits 7])

lemma mask_last_nth_full:
  assumes "length buf = (bits + 7) div 8" and "i < bits div 8"
  shows "mask_last bits buf ! i = buf ! i"
proof -
  have "bits mod 8 \<noteq> 0 \<Longrightarrow> length buf - 1 \<noteq> i" using assms by (simp add: octets_part)
  then show ?thesis by (simp add: mask_last_def)
qed

lemma mask_last_nth_part:
  assumes "length buf = (bits + 7) div 8" and "bits mod 8 \<noteq> 0"
  shows "mask_last bits buf ! (bits div 8) =
         buf ! (bits div 8) AND push_bit (8 - bits mod 8) 0xff"
proof -
  have len: "length buf = Suc (bits div 8)" using assms by (simp add: octets_part)
  then have "last buf = buf ! (bits div 8)" by (subst last_conv_nth) auto
  with len assms(2) show ?thesis by (simp add: mask_last_def)
qed

text \<open>The octet mask \<^verbatim>\<open>0xff << (8 - n)\<close> keeps the \<open>n\<close> high bits and clears the others.\<close>

lemma mask_octet:
  fixes b :: u8 assumes "0 < n" and "n < 8"
  shows "drop_bit (8 - n) (b AND push_bit (8 - n) 0xff) = drop_bit (8 - n) b"
    and "take_bit (8 - n) (b AND push_bit (8 - n) 0xff) = 0"
proof -
  have ff: "(0xff :: u8) = - 1" by simp
  show "drop_bit (8 - n) (b AND push_bit (8 - n) 0xff) = drop_bit (8 - n) b"
    unfolding ff by (rule bit_word_eqI) (auto simp: bit_simps dest: bit_imp_le_length)
  show "take_bit (8 - n) (b AND push_bit (8 - n) 0xff) = 0"
    unfolding ff by (rule bit_word_eqI) (auto simp: bit_simps)
qed

text \<open>C28: \<^verbatim>\<open>hmac_sha256_vector\<close> computes HMAC-SHA-256 of RFC 2104 over the concatenation of its
  fragments for every key length, and refuses more than five fragments before it touches the
  fixed size fragment table.\<close>

theorem hmac_sha256_vector_correct:
  "hmac_sha256_vector key elems =
     (if length elems \<le> 5 then Some (hmac sha256 64 key (concat elems)) else None)"
  by (simp add: hmac_sha256_vector_eq) (simp add: hmac_sha256_vector_def hmac_vector_def)

text \<open>C29: the KDF of IEEE 802.11: for every key, label, context and bit length, \<^verbatim>\<open>sha256_prf_bits\<close>
  succeeds with exactly the octets needed; the whole octets are those of the stream of HMAC
  blocks with counters 1, 2, ..., and of a last partial octet the unused low bits are zero and the
  used high bits are those of the stream.\<close>

theorem sha256_prf_bits_correct:
  "\<exists>buf. sha256_prf_bits key label data bits = Some buf \<and> length buf = (bits + 7) div 8 \<and>
     (let s = kdf_stream (hmac sha256 64 key) label data bits ((bits + 7) div 8)
      in (\<forall>i < bits div 8. buf ! i = s ! i) \<and>
         (bits mod 8 \<noteq> 0 \<longrightarrow>
            drop_bit (8 - bits mod 8) (buf ! (bits div 8)) = drop_bit (8 - bits mod 8) (s ! (bits div 8)) \<and>
            take_bit (8 - bits mod 8) (buf ! (bits div 8)) = 0))"
proof -
  let ?n = "(bits + 7) div 8"
  let ?s = "kdf_stream (hmac sha256 64 key) label data bits ?n"
  have len: "length (take ?n ?s) = ?n" by (simp add: length_kdf_stream)
  have part: "bits mod 8 \<noteq> 0 \<Longrightarrow> bits div 8 < ?n" by (simp add: octets_part)
  have m: "0 < bits mod 8 \<Longrightarrow> bits mod 8 < 8" by simp
  have "mask_last bits (take ?n ?s) ! i = ?s ! i" if "i < bits div 8" for i
    using that mask_last_nth_full [OF len that] by simp
  moreover have "mask_last bits (take ?n ?s) ! (bits div 8) =
      ?s ! (bits div 8) AND push_bit (8 - bits mod 8) 0xff" if "bits mod 8 \<noteq> 0"
    using mask_last_nth_part [OF len that] part [OF that] by simp
  ultimately show ?thesis
    using sha256_prf_bits_eq [of bits ?n key label data] len mask_octet [OF _ m]
    by (simp add: Let_def)
qed

theorem sha256_prf_bits_correct_witness:
  "\<exists>buf. sha256_prf_bits [1, 2, 3] (ascii ''lab'') [9] 13 = Some buf \<and> length buf = 2 \<and>
     take_bit 3 (buf ! 1) = 0"
  using sha256_prf_bits_correct [of "[1, 2, 3]" "ascii ''lab''" "[9]" 13] by (auto simp: Let_def)

text \<open>the RFC 5295 KDF succeeds exactly for outputs of at most 255 blocks (8160 octets), and then
  returns the prefix of T1 || T2 || ...; the one octet block counter never wraps.\<close>

theorem hmac_sha256_kdf_correct:
  "hmac_sha256_kdf secret label seed outlen =
     (let lab = (case label of None \<Rightarrow> [] | Some l \<Rightarrow> l @ [0])
      in if outlen \<le> 255 * 32
         then Some (take outlen (concat (map (kdf5295_T (hmac sha256 64 secret) (lab @ seed)) [0..<255])))
         else None)"
proof -
  define lab where "lab = (case label of None \<Rightarrow> [] | Some l \<Rightarrow> l @ [0])"
  note some = sha256.hm.hmac_kdf_loop_some [of outlen 254 0 secret lab seed]
  note none = sha256.hm.hmac_kdf_loop_none [of 0 outlen secret lab seed]
  have "hmac_sha256_vector secret [lab, seed, [1]] = Some (kdf5295_T (hmac sha256 64 secret) (lab @ seed) 0)"
    by (simp add: hmac_sha256_vector_eq)
  then show ?thesis
    using some none unfolding hmac_sha256_kdf_def lab_def [symmetric] Let_def
    by (simp add: hmac_sha256_vector_abs del: kdf5295_T.simps upt_Suc upt_rec_numeral)
qed

text \<open>\<^verbatim>\<open>tls_prf_sha256\<close> is the PRF of RFC 5246: none of its HMAC calls fails, and the output is
  the prefix of P_SHA256(secret, label + seed) of the wanted length.\<close>

theorem tls_prf_sha256_correct:
  "tls_prf_sha256 secret label seed outlen =
     Some (take outlen (P_hash (hmac sha256 64 secret) (label @ seed) outlen))"
  using sha256.hm.tls_prf_loop_eq [of outlen outlen secret label seed 0]
  by (simp add: tls_prf_sha256_def hmac_sha256_vector_abs sha256.hmac_vector_eq P_hash_def)

end
