(* ===== verification/Sha1.thy ===== *)
theory Sha1
  imports MdHash
begin

text \<open>
  SHA-1 from \<^verbatim>\<open>src/crypto/sha1-internal.c\<close>, a different implementation from the other hashes: the
  message schedule is a ring of 16 words, the bit count is kept in two 32 bit words, and the padding is
  written by calling \<^verbatim>\<open>SHA1Update\<close> octet by octet.  It computes the SHA-1 of FIPS 180-4.  The machine is
  little endian.  A copy outside of a buffer is the result \<open>None\<close>.
\<close>

subsection \<open>The transform\<close>

definition rol :: "u32 \<Rightarrow> nat \<Rightarrow> u32" where
  "rol value bits = push_bit bits value OR drop_bit (32 - bits) value"

text \<open>\<^verbatim>\<open>blk0\<close> turns a word of the block, read on a little endian machine, into big endian.\<close>

definition blk0 :: "nat \<Rightarrow> u32 list \<Rightarrow> u32 list" where
  "blk0 i l = l[i := (rol (l ! i) 24 AND 0xFF00FF00) OR (rol (l ! i) 8 AND 0x00FF00FF)]"

definition blk :: "nat \<Rightarrow> u32 list \<Rightarrow> u32 list" where
  "blk i l = l[i mod 16 := rol (l ! ((i + 13) mod 16) XOR l ! ((i + 8) mod 16) XOR
                                l ! ((i + 2) mod 16) XOR l ! (i mod 16)) 1]"

text \<open>One operation of the 80: the macros \<^verbatim>\<open>R0\<close> to \<^verbatim>\<open>R4\<close>.  In the code the five variables rotate from
  one operation to the next; here they rotate in the tuple.\<close>

type_synonym sha1_vars = "u32 \<times> u32 \<times> u32 \<times> u32 \<times> u32"

definition sha1_R :: "nat \<Rightarrow> u32 list \<times> sha1_vars \<Rightarrow> u32 list \<times> sha1_vars" where
  "sha1_R i = (\<lambda>(l, v, w, x, y, z).
     let l = (if i < 16 then blk0 i l else blk i l);
         f = (if i < 20 then (w AND (x XOR y)) XOR y
              else if i < 40 then w XOR x XOR y
              else if i < 60 then ((w OR x) AND y) OR (w AND x)
              else w XOR x XOR y);
         k = (if i < 20 then 0x5A827999 else if i < 40 then 0x6ED9EBA1
              else if i < 60 then 0x8F1BBCDC else 0xCA62C1D6)
     in (l, z + (f + l ! (i mod 16) + k + rol v 5), v, rol w 30, x, y))"

definition SHA1Transform :: "u32 list \<Rightarrow> bytes \<Rightarrow> u32 list" where
  "SHA1Transform state buffer =
     (let block = map (\<lambda>i. WPA_GET_LE32 (drop (4 * i) buffer)) [0..<16];
          (l, a, b, c, d, e) =
            fold sha1_R [0..<80] (block, state ! 0, state ! 1, state ! 2, state ! 3, state ! 4)
      in [state ! 0 + a, state ! 1 + b, state ! 2 + c, state ! 3 + d, state ! 4 + e])"

subsection \<open>Init, update, final\<close>

record SHA1Context =
  sc_state :: "u32 list"
  sc_count0 :: u32
  sc_count1 :: u32
  sc_buffer :: bytes

definition sha1_H0 :: "u32 list" where
  "sha1_H0 = [0x67452301, 0xEFCDAB89, 0x98BADCFE, 0x10325476, 0xC3D2E1F0]"

definition SHA1Init :: "SHA1Context \<Rightarrow> SHA1Context" where
  "SHA1Init context = context\<lparr>sc_state := sha1_H0, sc_count0 := 0, sc_count1 := 0\<rparr>"

text \<open>The loop over the whole blocks of the data, from the offset \<open>i\<close>.\<close>

function sha1_blocks :: "u32 list \<Rightarrow> bytes \<Rightarrow> nat \<Rightarrow> nat \<Rightarrow> (u32 list \<times> nat) option" where
  "sha1_blocks st data len i =
     (if (i + 63) mod 2 ^ 32 < len
      then if i + 64 > length data then None
           else sha1_blocks (SHA1Transform st (take 64 (drop i data))) data len (i + 64)
      else Some (st, i))"
  by pat_completeness auto
termination
  by (relation "measure (\<lambda>(st, data, len, i). length data - i)") auto

declare sha1_blocks.simps [simp del]

definition mem_copy :: "bytes \<Rightarrow> nat \<Rightarrow> bytes \<Rightarrow> bytes option" where
  "mem_copy buf off data =
     (if off + length data > length buf then None
      else Some (take off buf @ data @ drop (off + length data) buf))"

text \<open>\<open>data\<close> holds at least \<open>len\<close> octets; \<open>len\<close> is a 32 bit number.\<close>

definition SHA1Update :: "SHA1Context \<Rightarrow> bytes \<Rightarrow> u32 \<Rightarrow> SHA1Context option" where
  "SHA1Update context data len =
     (let j = unat (drop_bit 3 (sc_count0 context) AND 63);
          n0 = sc_count0 context + push_bit 3 len;
          n1 = sc_count1 context + (if n0 < push_bit 3 len then 1 else 0) + drop_bit 29 len;
          context = context\<lparr>sc_count0 := n0, sc_count1 := n1\<rparr>
      in do {
        (st, buf, i, j) \<leftarrow>
          (if word_of_nat j + len > (63 :: u32) then do {
             buf \<leftarrow> mem_copy (sc_buffer context) j (take (64 - j) data);
             (st, i) \<leftarrow> sha1_blocks (SHA1Transform (sc_state context) buf) data (unat len) (64 - j);
             Some (st, buf, i, 0) }
           else Some (sc_state context, sc_buffer context, 0, j));
        buf \<leftarrow> mem_copy buf j (take (unat len - i) (drop i data));
        Some (context\<lparr>sc_state := st, sc_buffer := buf\<rparr>) })"

partial_function (option) sha1_pad_loop :: "SHA1Context \<Rightarrow> SHA1Context option" where
  "sha1_pad_loop context =
     (if sc_count0 context AND 504 \<noteq> 448
      then do {
        context \<leftarrow> SHA1Update context [0] 1;
        sha1_pad_loop context }
      else Some context)"

definition SHA1Final :: "SHA1Context \<Rightarrow> bytes option" where
  "SHA1Final context =
     (let finalcount = map (\<lambda>i. ucast (drop_bit ((3 - i mod 4) * 8)
                              (if i \<ge> 4 then sc_count0 context else sc_count1 context) AND 255)) [0..<8]
      in do {
        context \<leftarrow> SHA1Update context [0x80] 1;
        context \<leftarrow> sha1_pad_loop context;
        context \<leftarrow> SHA1Update context finalcount 8;
        Some (map (\<lambda>i. ucast (drop_bit ((3 - i mod 4) * 8) (sc_state context ! (i div 4)) AND 255)) [0..<20]) })"

fun sha1_update_all :: "SHA1Context \<Rightarrow> bytes list \<Rightarrow> SHA1Context option" where
  "sha1_update_all ctx [] = Some ctx"
| "sha1_update_all ctx (d # ds) = do {
     ctx \<leftarrow> SHA1Update ctx d (word_of_nat (length d));
     sha1_update_all ctx ds }"

definition sha1_vector_ctx :: "SHA1Context \<Rightarrow> bytes list \<Rightarrow> bytes option" where
  "sha1_vector_ctx ctx elems = do {
     ctx \<leftarrow> sha1_update_all (SHA1Init ctx) elems;
     SHA1Final ctx }"

definition sha1_vector :: "bytes list \<Rightarrow> bytes option" where
  "sha1_vector elems =
     sha1_vector_ctx \<lparr>sc_state = [], sc_count0 = 0, sc_count1 = 0, sc_buffer = replicate 64 0\<rparr> elems"

subsection \<open>Specification\<close>

text \<open>FIPS 180-4, 6.1.2: the schedule of 80 words, the functions and constants.\<close>

definition fips_rotl :: "nat \<Rightarrow> u32 \<Rightarrow> u32" where
  "fips_rotl n x = word_rotl n x"

fun sha1_W :: "bytes \<Rightarrow> nat \<Rightarrow> u32" where
  "sha1_W b t =
     (if t < 16 then WPA_GET_BE32 (drop (4 * t) b)
      else fips_rotl 1 (sha1_W b (t - 3) XOR sha1_W b (t - 8) XOR sha1_W b (t - 14) XOR sha1_W b (t - 16)))"

declare sha1_W.simps [simp del]

definition sha1_f :: "nat \<Rightarrow> u32 \<Rightarrow> u32 \<Rightarrow> u32 \<Rightarrow> u32" where
  "sha1_f t x y z =
     (if t < 20 then (x AND y) XOR (NOT x AND z)
      else if 40 \<le> t \<and> t < 60 then (x AND y) XOR (x AND z) XOR (y AND z)
      else x XOR y XOR z)"

definition sha1_K :: "nat \<Rightarrow> u32" where
  "sha1_K t = (if t < 20 then 0x5A827999 else if t < 40 then 0x6ED9EBA1
               else if t < 60 then 0x8F1BBCDC else 0xCA62C1D6)"

definition sha1_step :: "bytes \<Rightarrow> nat \<Rightarrow> sha1_vars \<Rightarrow> sha1_vars" where
  "sha1_step bs t = (\<lambda>(a, b, c, d, e).
     (fips_rotl 5 a + sha1_f t b c d + e + sha1_K t + sha1_W bs t, a, fips_rotl 30 b, c, d))"

definition sha1_compress :: "u32 list \<Rightarrow> bytes \<Rightarrow> u32 list" where
  "sha1_compress H bs =
     (let (a, b, c, d, e) = fold (sha1_step bs) [0..<80] (H ! 0, H ! 1, H ! 2, H ! 3, H ! 4)
      in [a + H ! 0, b + H ! 1, c + H ! 2, d + H ! 3, e + H ! 4])"

definition sha1 :: "bytes \<Rightarrow> bytes" where
  "sha1 m = concat (map WPA_PUT_BE32 (md_fold 64 sha1_compress sha1_H0 (md_pad 64 56 m)))"

subsection \<open>The transform is the one of the standard\<close>

lemma rol_rotl:
  assumes "0 < n" "n < 32"
  shows "rol x n = fips_rotl n x"
  unfolding rol_def fips_rotl_def
proof (rule bit_word_eqI)
  fix k assume "k < LENGTH(32)"
  then have k: "k < 32" by simp
  have rot: "bit (word_rotl n x) k = bit x ((k + (32 - n)) mod 32)"
    using k assms by (simp only: bit_word_rotl_iff) simp
  have lhs: "bit (push_bit n x OR drop_bit (32 - n) x) k = (n \<le> k \<and> bit x (k - n) \<or> bit x (k + (32 - n)))"
    using k by (simp only: bit_or_iff bit_push_bit_iff bit_drop_bit_eq comp_def) (simp add: add.commute)
  show "bit (push_bit n x OR drop_bit (32 - n) x) k = bit (word_rotl n x) k"
  proof (cases "k < n")
    case True
    then have "(k + (32 - n)) mod 32 = k + (32 - n)" using assms by (intro mod_less) simp
    with True show ?thesis unfolding rot lhs by simp
  next
    case False
    have "k + (32 - n) = (k - n) + 32" using False assms by simp
    then have "(k + (32 - n)) mod 32 = k - n" using k by (simp only: mod_add_self2) simp
    moreover have "\<not> bit x (k + (32 - n))" using False assms by (auto dest: bit_imp_le_length)
    ultimately show ?thesis using False unfolding rot lhs by simp
  qed
qed

lemma sha1_swap:
  "(rol (WPA_GET_LE32 b) 24 AND 0xFF00FF00) OR (rol (WPA_GET_LE32 b) 8 AND 0x00FF00FF) = WPA_GET_BE32 b"
proof (rule bit_word_eqI)
  have masks: "(0xFF00FF00 :: u32) = push_bit 24 (mask 8) OR push_bit 8 (mask 8)"
    "(0x00FF00FF :: u32) = push_bit 16 (mask 8) OR mask 8"
    by (simp_all add: mask_eq_exp_minus_1)
  have hi: "bit x k = False" if "8 \<le> k" for x :: u8 and k using that bit_imp_le_length [of x k] by auto
  fix n assume "n < LENGTH(32)"
  then consider "n < 8" | "8 \<le> n \<and> n < 16" | "16 \<le> n \<and> n < 24" | "24 \<le> n \<and> n < 32"
    by force
  then show "bit ((rol (WPA_GET_LE32 b) 24 AND 0xFF00FF00) OR (rol (WPA_GET_LE32 b) 8 AND 0x00FF00FF)) n =
      bit (WPA_GET_BE32 b) n"
    unfolding masks by cases (auto simp: get_defs rol_def bit_simps hi)
qed

text \<open>The ring after \<open>t\<close> operations: the last 16 words of the schedule, in the first operations the
  words of the block that are still to come.\<close>

definition ring :: "bytes \<Rightarrow> nat \<Rightarrow> u32 list \<Rightarrow> bool" where
  "ring bs t l \<longleftrightarrow> length l = 16 \<and>
     (\<forall>i. i < t \<and> t \<le> i + 16 \<longrightarrow> l ! (i mod 16) = sha1_W bs i) \<and>
     (\<forall>i<16. t \<le> i \<longrightarrow> l ! i = WPA_GET_LE32 (drop (4 * i) bs))"

lemma ring_blk0:
  assumes "ring bs t l" "t < 16"
  shows "ring bs (Suc t) (blk0 t l) \<and> blk0 t l ! (t mod 16) = sha1_W bs t"
proof -
  have w: "sha1_W bs t = WPA_GET_BE32 (drop (4 * t) bs)" using assms(2) by (simp add: sha1_W.simps)
  have "l ! t = WPA_GET_LE32 (drop (4 * t) bs)" "length l = 16" using assms by (auto simp: ring_def)
  then have b: "blk0 t l = l[t := sha1_W bs t]" by (simp add: blk0_def sha1_swap w)
  show ?thesis
    unfolding b using assms by (auto simp: ring_def nth_list_update less_Suc_eq)
qed

lemma ring_blk:
  assumes r: "ring bs t l" "16 \<le> t"
  shows "ring bs (Suc t) (blk t l) \<and> blk t l ! (t mod 16) = sha1_W bs t"
proof -
  have old: "l ! (i mod 16) = sha1_W bs i" if "i < t" "t \<le> i + 16" for i using r that by (auto simp: ring_def)
  obtain k where k: "t = k + 16" using r(2) by (metis le_add_diff_inverse2)
  have idx: "(t + 13) mod 16 = (t - 3) mod 16" "(t + 8) mod 16 = (t - 8) mod 16" "(t + 2) mod 16 = (t - 14) mod 16"
    "t mod 16 = (t - 16) mod 16"
    using mod_add_self2 [of "13 + k" 16] mod_add_self2 [of "8 + k" 16] mod_add_self2 [of "k + 2" 16] by (simp_all add: k)
  have "l ! ((t + 13) mod 16) = sha1_W bs (t - 3)" unfolding idx(1) by (rule old) (use r(2) in simp_all)
  moreover have "l ! ((t + 8) mod 16) = sha1_W bs (t - 8)" unfolding idx(2) by (rule old) (use r(2) in simp_all)
  moreover have "l ! ((t + 2) mod 16) = sha1_W bs (t - 14)" unfolding idx(3) by (rule old) (use r(2) in simp_all)
  moreover have "l ! (t mod 16) = sha1_W bs (t - 16)" by (subst idx(4), rule old) (use r(2) in simp_all)
  moreover have "sha1_W bs t = rol (sha1_W bs (t - 3) XOR sha1_W bs (t - 8) XOR sha1_W bs (t - 14) XOR sha1_W bs (t - 16)) 1"
    using r(2) by (subst sha1_W.simps) (simp add: rol_rotl)
  ultimately have b: "blk t l = l[t mod 16 := sha1_W bs t]" by (simp add: blk_def)
  have ne: "i mod 16 \<noteq> t mod 16" if "i < t" "Suc t \<le> i + 16" for i
  proof
    assume "i mod 16 = t mod 16"
    then have "16 dvd t - i" using that(1) mod_eq_dvd_iff_nat [of i t 16] by (metis less_imp_le)
    with that show False by (auto dest: dvd_imp_le)
  qed
  have "length l = 16" using r by (simp add: ring_def)
  moreover have "\<forall>i. i < Suc t \<and> Suc t \<le> i + 16 \<longrightarrow> l[t mod 16 := sha1_W bs t] ! (i mod 16) = sha1_W bs i"
  proof (intro allI impI)
    fix i assume i: "i < Suc t \<and> Suc t \<le> i + 16"
    show "l[t mod 16 := sha1_W bs t] ! (i mod 16) = sha1_W bs i"
    proof (cases "i = t")
      case False
      then have "i < t" using i by simp
      with i have "l ! (i mod 16) = sha1_W bs i" "t mod 16 \<noteq> i mod 16" using old [of i] ne [of i] by auto
      then show ?thesis by (metis nth_list_update_neq)
    qed (simp add: \<open>length l = 16\<close>)
  qed
  ultimately show ?thesis unfolding b using r(2) by (simp add: ring_def)
qed

lemma sha1_f_code:
  "t < 20 \<Longrightarrow> (w AND (x XOR y)) XOR y = sha1_f t w x y"
  "40 \<le> t \<Longrightarrow> t < 60 \<Longrightarrow> ((w OR x) AND y) OR (w AND x) = sha1_f t w x y"
  by (auto simp: sha1_f_def bit_simps intro!: bit_word_eqI)

lemma sha1_R_step:
  assumes "ring bs t l"
  shows "\<exists>l'. sha1_R t (l, vs) = (l', sha1_step bs t vs) \<and> ring bs (Suc t) l'"
proof -
  obtain v w x y z where vs: "vs = (v, w, x, y, z)" by (cases vs) auto
  define l' where "l' = (if t < 16 then blk0 t l else blk t l)"
  have l': "ring bs (Suc t) l'" "l' ! (t mod 16) = sha1_W bs t"
    using ring_blk0 [OF assms] ring_blk [OF assms] by (auto simp: l'_def)
  have f: "(if t < 20 then (w AND (x XOR y)) XOR y else if t < 40 then w XOR x XOR y
      else if t < 60 then ((w OR x) AND y) OR (w AND x) else w XOR x XOR y) = sha1_f t w x y"
    using sha1_f_code [of t w x y] by (auto simp: sha1_f_def)
  have "sha1_R t (l, vs) = (l', sha1_step bs t vs)"
    unfolding vs sha1_R_def sha1_step_def case_prod_conv Let_def l'_def [symmetric] f l'(2)
    by (simp add: rol_rotl sha1_K_def algebra_simps)
  with l'(1) show ?thesis by blast
qed

lemma sha1_rounds:
  assumes "ring bs 0 l"
  shows "\<exists>l'. fold sha1_R [0..<n] (l, vs) = (l', fold (sha1_step bs) [0..<n] vs) \<and> ring bs n l'"
proof (induction n)
  case (Suc n)
  then obtain l' where "fold sha1_R [0..<n] (l, vs) = (l', fold (sha1_step bs) [0..<n] vs)" "ring bs n l'" by blast
  with sha1_R_step [of bs n l'] show ?case by simp
qed (simp add: assms)

lemma SHA1Transform_eq: "SHA1Transform st bs = sha1_compress st bs"
proof -
  let ?l = "map (\<lambda>i. WPA_GET_LE32 (drop (4 * i) bs)) [0..<16]"
  have "ring bs 0 ?l" by (simp add: ring_def del: upt_rec_numeral)
  from sha1_rounds [OF this, of 80 "(st ! 0, st ! 1, st ! 2, st ! 3, st ! 4)"] obtain l' where
    l': "fold sha1_R [0..<80] (?l, st ! 0, st ! 1, st ! 2, st ! 3, st ! 4) =
      (l', fold (sha1_step bs) [0..<80] (st ! 0, st ! 1, st ! 2, st ! 3, st ! 4))" by blast
  show ?thesis
    unfolding SHA1Transform_def sha1_compress_def Let_def l'
    by (simp add: case_prod_beta add.commute del: upt_rec_numeral)
qed

subsection \<open>The streaming code computes the specification\<close>

definition sha1_count :: "SHA1Context \<Rightarrow> nat" where
  "sha1_count ctx = unat (sc_count1 ctx) * 2 ^ 32 + unat (sc_count0 ctx)"

lemma mod_pair: "y < M \<Longrightarrow> (x * M + y) mod (M * M) = x mod M * M + y" for M :: nat
  by (simp add: mod_mult2_eq)

lemma sha1_count_add:
  fixes a b len :: u32
  defines "n0 \<equiv> a + push_bit 3 len"
  shows "unat (b + (if n0 < push_bit 3 len then 1 else 0) + drop_bit 29 len) * 2 ^ 32 + unat n0 =
    (unat b * 2 ^ 32 + unat a + 8 * unat len) mod 2 ^ 64"
proof -
  define n p q where "n = unat len" and "p = (8 * n) mod 2 ^ 32" and "q = n div 2 ^ 29"
  define c :: nat where "c = (if unat a + p \<ge> 2 ^ 32 then 1 else 0)"
  have lt: "unat a < 2 ^ 32" "unat b < 2 ^ 32" "n < 2 ^ 32"
    using unsigned_less [of a] unsigned_less [of b] unsigned_less [of len] by (simp_all add: n_def)
  have p: "unat (push_bit 3 len) = p" by (simp add: p_def n_def push_bit_eq_mult unat_word_ariths mult.commute)
  have q: "unat (drop_bit 29 len) = q" unfolding q_def n_def unat_drop_bit_eq by (rule drop_bit_eq_div)
  have "p = 8 * (n mod 2 ^ 29)" using mult_mod_right [of 8 n "2 ^ 29"] by (simp add: p_def)
  moreover have "8 * n = 8 * (q * 2 ^ 29 + n mod 2 ^ 29)" unfolding q_def by (simp only: div_mult_mod_eq)
  ultimately have 8: "8 * n = q * 2 ^ 32 + p" by simp
  have plt: "p < 2 ^ 32" by (simp add: p_def)
  have n0: "unat n0 = unat a + p - c * 2 ^ 32"
    using lt plt by (simp add: n0_def unat_word_ariths p c_def mod_if)
  have carry: "n0 < push_bit 3 len \<longleftrightarrow> c = 1"
    unfolding word_less_nat_alt p n0 c_def using lt plt by auto
  have n1: "unat (b + (if n0 < push_bit 3 len then 1 else 0) + drop_bit 29 len) = (unat b + c + q) mod 2 ^ 32"
    by (simp add: carry unat_word_ariths q c_def mod_simps)
  have le: "c * 2 ^ 32 \<le> unat a + p" by (simp add: c_def)
  have "(unat b * 2 ^ 32 + unat a + 8 * n) = (unat b + c + q) * 2 ^ 32 + unat n0"
    unfolding 8 n0 using le by (simp add: algebra_simps)
  moreover have "unat n0 < 2 ^ 32" using unsigned_less [of n0] by simp
  then have "((unat b + c + q) * 2 ^ 32 + unat n0) mod 2 ^ 64 = (unat b + c + q) mod 2 ^ 32 * 2 ^ 32 + unat n0"
    using mod_pair [of "unat n0" "2 ^ 32" "unat b + c + q"] by simp
  ultimately show ?thesis unfolding n1 n_def [symmetric] by (simp only:)
qed

lemma sha1_blocks_eq:
  assumes "length data = len" "i \<le> len" "len + 64 < 2 ^ 32"
  shows "sha1_blocks st data len i = Some (md_fold 64 sha1_compress st (drop i data), i + 64 * ((len - i) div 64))"
  using assms(2)
proof (induction "len - i" arbitrary: st i rule: less_induct)
  case less
  have m: "(i + 63) mod 2 ^ 32 = i + 63" using less.prems assms(3) by simp
  show ?case
  proof (cases "i + 63 < len")
    case True
    then have "sha1_blocks st data len i = sha1_blocks (sha1_compress st (take 64 (drop i data))) data len (i + 64)"
      using assms(1) m by (subst sha1_blocks.simps) (simp add: SHA1Transform_eq)
    also have "\<dots> = Some (md_fold 64 sha1_compress (sha1_compress st (take 64 (drop i data))) (drop (i + 64) data),
        i + 64 + 64 * ((len - (i + 64)) div 64))"
      using True by (intro less.hyps) simp_all
    also have "md_fold 64 sha1_compress (sha1_compress st (take 64 (drop i data))) (drop (i + 64) data) =
        md_fold 64 sha1_compress st (drop i data)"
    proof -
      have "\<not> (length (drop i data) < 64 \<or> (64 :: nat) = 0)" using True assms(1) by simp
      then show ?thesis
        unfolding md_fold.simps [of 64 sha1_compress st "drop i data"] by (simp add: add.commute)
    qed
    also have "i + 64 + 64 * ((len - (i + 64)) div 64) = i + 64 * ((len - i) div 64)"
    proof -
      have "len - i = (len - (i + 64)) + 64" using True by simp
      then have "(len - i) div 64 = (len - (i + 64)) div 64 + 1" by (simp only: div_add_self2)
      then show ?thesis by (simp only: distrib_left)
    qed
    finally show ?thesis .
  next
    case False
    then have "len - i < 64" by simp
    then show ?thesis using False assms(1) m
      by (subst sha1_blocks.simps) (simp add: md_fold_short)
  qed
qed

text \<open>The context represents the message \<open>m\<close>: \<open>f\<close> is its complete blocks and \<open>t\<close> the rest.\<close>

definition sha1_repr :: "SHA1Context \<Rightarrow> bytes \<Rightarrow> bool" where
  "sha1_repr ctx m \<longleftrightarrow>
     (\<exists>f t. m = f @ t \<and> 64 dvd length f \<and> length t < 64 \<and>
        sc_state ctx = md_fold 64 sha1_compress sha1_H0 f \<and>
        length (sc_buffer ctx) = 64 \<and> take (length t) (sc_buffer ctx) = t) \<and>
     sha1_count ctx = (8 * length m) mod 2 ^ 64"

lemma sha1_repr_init: "length (sc_buffer ctx) = 64 \<Longrightarrow> sha1_repr (SHA1Init ctx) []"
  by (simp add: sha1_repr_def SHA1Init_def sha1_count_def md_fold_short)

lemma sha1_fill:
  assumes "sha1_count ctx = (8 * n) mod 2 ^ 64"
  shows "unat (drop_bit 3 (sc_count0 ctx) AND 63) = n mod 64"
    and "sc_count0 ctx AND 504 = 448 \<longleftrightarrow> n mod 64 = 56"
proof -
  have "unat (sc_count0 ctx) < 2 ^ 32" using unsigned_less [of "sc_count0 ctx"] by simp
  then have "unat (sc_count0 ctx) = sha1_count ctx mod 2 ^ 32" by (simp add: sha1_count_def)
  also have "\<dots> = (8 * n) mod 2 ^ 32" unfolding assms by (simp add: mod_mod_cancel)
  also have "\<dots> = 8 * (n mod 2 ^ 29)" using mult_mod_right [of 8 n "2 ^ 29"] by simp
  finally have c0: "unat (sc_count0 ctx) = 8 * (n mod 2 ^ 29)" .
  have m63: "(63 :: u32) = mask 6" and m504: "(504 :: u32) = push_bit 3 (mask 6)" by (simp_all add: mask_eq_exp_minus_1)
  have d: "unat (drop_bit 3 (sc_count0 ctx)) = n mod 2 ^ 29"
    unfolding unat_drop_bit_eq c0 by (simp add: drop_bit_eq_div)
  show j: "unat (drop_bit 3 (sc_count0 ctx) AND 63) = n mod 64"
    unfolding m63 take_bit_eq_mask [symmetric] unsigned_take_bit_eq d
    by (simp add: take_bit_eq_mod mod_mod_cancel)
  have "sc_count0 ctx AND 504 = push_bit 3 (drop_bit 3 (sc_count0 ctx) AND 63)"
    unfolding m504 m63 by (rule bit_word_eqI) (auto simp: bit_simps)
  moreover have "unat (push_bit 3 (drop_bit 3 (sc_count0 ctx) AND 63)) = 8 * (n mod 64)"
    using j by (simp add: push_bit_eq_mult unat_word_ariths)
  ultimately show "sc_count0 ctx AND 504 = 448 \<longleftrightarrow> n mod 64 = 56"
    by (simp add: word_unat_eq_iff)
qed

lemma SHA1Update_repr:
  assumes r: "sha1_repr ctx m" and len: "length data + 64 < 2 ^ 32"
  shows "\<exists>ctx'. SHA1Update ctx data (word_of_nat (length data)) = Some ctx' \<and> sha1_repr ctx' (m @ data)"
proof -
  from r obtain f t where m: "m = f @ t" "64 dvd length f" "length t < 64"
    "sc_state ctx = md_fold 64 sha1_compress sha1_H0 f" "length (sc_buffer ctx) = 64"
    "take (length t) (sc_buffer ctx) = t" and cnt: "sha1_count ctx = (8 * length m) mod 2 ^ 64"
    unfolding sha1_repr_def by blast
  define n where "n = length data"
  define j where "j = length t"
  have ulen: "unat (word_of_nat n :: u32) = n" using len by (simp add: n_def unat_of_nat)
  have "length m mod 64 = j" using m by (auto simp: j_def elim!: dvdE)
  then have j: "unat (drop_bit 3 (sc_count0 ctx) AND 63) = j" using sha1_fill(1) [OF cnt] by simp
  have "unat (word_of_nat j + word_of_nat n :: u32) = j + n"
    using len m(3) by (simp add: n_def j_def unat_word_ariths unat_of_nat)
  then have big: "(63 :: u32) < word_of_nat j + word_of_nat n \<longleftrightarrow> 63 < j + n" by (simp add: word_less_nat_alt)
  define c1 where "c1 = ctx\<lparr>sc_count0 := sc_count0 ctx + push_bit 3 (word_of_nat n),
      sc_count1 := sc_count1 ctx + (if sc_count0 ctx + push_bit 3 (word_of_nat n) < push_bit 3 (word_of_nat n) then 1 else 0) +
        drop_bit 29 (word_of_nat n)\<rparr>"
  have "sha1_count c1 = (sha1_count ctx + 8 * n) mod 2 ^ 64"
    unfolding sha1_count_def c1_def using sha1_count_add [of "sc_count1 ctx" "sc_count0 ctx" "word_of_nat n"] ulen
    by simp
  then have cnt1: "sha1_count (c1\<lparr>sc_state := st, sc_buffer := b\<rparr>) = (8 * length (m @ data)) mod 2 ^ 64" for st b
    unfolding cnt by (simp add: sha1_count_def n_def mod_simps algebra_simps)
  show ?thesis
  proof (cases "63 < j + n")
    case False
    have "SHA1Update ctx data (word_of_nat n) = Some (c1\<lparr>sc_state := sc_state ctx,
        sc_buffer := take j (sc_buffer ctx) @ data @ drop (j + n) (sc_buffer ctx)\<rparr>)"
      unfolding SHA1Update_def Let_def j big using False m(5) ulen
      by (simp add: mem_copy_def c1_def n_def)
    moreover have "sha1_repr (c1\<lparr>sc_state := sc_state ctx,
        sc_buffer := take j (sc_buffer ctx) @ data @ drop (j + n) (sc_buffer ctx)\<rparr>) (m @ data)"
      unfolding sha1_repr_def cnt1 using m False
      by (intro conjI exI [of _ f] exI [of _ "t @ data"]) (simp_all add: j_def n_def)
    ultimately show ?thesis unfolding n_def by blast
  next
    case True
    define i where "i = 64 - j"
    define i' where "i' = i + 64 * ((n - i) div 64)"
    have i: "i \<le> n" "0 < i" "length (take i data) = i" using True m(3) by (auto simp: i_def j_def n_def)
    define buf where "buf = t @ take i data"
    have lbuf: "length buf = 64" using i m(3) by (simp add: buf_def i_def j_def)
    have copy: "mem_copy (sc_buffer ctx) j (take i data) = Some buf"
      using i m(3,5,6) by (simp add: mem_copy_def buf_def i_def j_def)
    define st where "st = md_fold 64 sha1_compress (SHA1Transform (sc_state ctx) buf) (drop i data)"
    have bl: "sha1_blocks (SHA1Transform (sc_state ctx) buf) data n i = Some (st, i')"
      using sha1_blocks_eq [of data n i] i len by (simp add: n_def st_def i'_def)
    have i': "i' \<le> n" "n - i' < 64" "64 dvd length (f @ buf @ take (i' - i) (drop i data))"
    proof -
      have "64 * ((n - i) div 64) \<le> n - i" by simp
      then show "i' \<le> n" using i(1) unfolding i'_def by linarith
      have "n - i' = (n - i) mod 64" unfolding i'_def by (simp add: minus_mult_div_eq_mod [symmetric])
      then show "n - i' < 64" by simp
      have "length (take (i' - i) (drop i data)) = 64 * ((n - i) div 64)"
        using \<open>i' \<le> n\<close> by (simp add: i'_def n_def)
      then show "64 dvd length (f @ buf @ take (i' - i) (drop i data))" using m(2) lbuf by simp
    qed
    define g where "g = take (i' - i) (drop i data)"
    have "i \<le> i'" by (simp add: i'_def)
    then have split: "drop i data = g @ drop i' data"
      unfolding g_def by (metis append_take_drop_id drop_drop le_add_diff_inverse2)
    have g: "64 dvd length g" using i'(3) m(2) lbuf by (simp add: g_def [symmetric] dvd_add_right_iff)
    have st: "st = md_fold 64 sha1_compress sha1_H0 (f @ buf @ g)"
    proof -
      have "64 dvd length (f @ buf)" using m(2) lbuf by simp
      then have "md_fold 64 sha1_compress sha1_H0 (f @ buf @ g) =
          md_fold 64 sha1_compress (sha1_compress (sc_state ctx) buf) g"
        using md_fold_append [of 64 "f @ buf" sha1_compress sha1_H0 g] m(2,4) lbuf by (simp add: md_fold_snoc_block)
      moreover have "md_fold 64 sha1_compress x (g @ drop i' data) = md_fold 64 sha1_compress x g" for x
      proof -
        have "length (drop i' data) < 64" using i'(2) by (simp add: n_def)
        then show ?thesis unfolding md_fold_append [OF g] by (rule md_fold_short)
      qed
      ultimately show ?thesis by (simp add: st_def split SHA1Transform_eq)
    qed
    have copy2: "mem_copy buf 0 (take (n - i') (drop i' data)) = Some (drop i' data @ drop (n - i') buf)"
      using i' lbuf by (simp add: mem_copy_def n_def)
    have "SHA1Update ctx data (word_of_nat n) = Some (c1\<lparr>sc_state := st,
        sc_buffer := drop i' data @ drop (n - i') buf\<rparr>)"
      unfolding SHA1Update_def Let_def j big i_def [symmetric] using True copy bl copy2 ulen by (simp add: c1_def)
    moreover have "sha1_repr (c1\<lparr>sc_state := st, sc_buffer := drop i' data @ drop (n - i') buf\<rparr>) (m @ data)"
    proof -
      have "m @ data = (f @ buf @ g) @ drop i' data"
        using m(1) split by (simp add: buf_def) (metis append_take_drop_id)
      moreover have "length (drop i' data) = n - i'" by (simp add: n_def)
      ultimately show ?thesis
        unfolding sha1_repr_def cnt1 using st i' lbuf
        by (intro conjI exI [of _ "f @ buf @ g"] exI [of _ "drop i' data"]) (simp_all add: g_def)
    qed
    ultimately show ?thesis unfolding n_def by blast
  qed
qed

lemma sha1_update_all_repr:
  assumes "sha1_repr ctx m" and "\<forall>d \<in> set ds. length d + 64 < 2 ^ 32"
  shows "\<exists>ctx'. sha1_update_all ctx ds = Some ctx' \<and> sha1_repr ctx' (m @ concat ds)"
  using assms
proof (induction ds arbitrary: ctx m)
  case (Cons d ds)
  from SHA1Update_repr [OF Cons.prems(1), of d] Cons.prems(2) obtain ctx1 where
    "SHA1Update ctx d (word_of_nat (length d)) = Some ctx1" "sha1_repr ctx1 (m @ d)" by auto
  with Cons.IH [of ctx1 "m @ d"] Cons.prems(2) show ?case by simp
qed simp

lemma pad_zeros: "c < 64 \<Longrightarrow> (120 - c) mod 64 = (if c \<le> 56 then 56 - c else 120 - c)" for c :: nat
proof (cases "c \<le> 56")
  case True
  then have "120 - c = (56 - c) + 64" by simp
  then have "(120 - c) mod 64 = (56 - c) mod 64" by (simp only: mod_add_self2)
  with True show ?thesis by simp
qed simp

lemma pad_step:
  fixes c k :: nat
  assumes "c < 64" and "Suc k = (120 - c) mod 64"
  shows "c \<noteq> 56" and "k = (120 - Suc c mod 64) mod 64"
proof -
  have d: "Suc c mod 64 = (if c = 63 then 0 else Suc c)" using assms(1) by (simp add: mod_Suc)
  have "Suc c mod 64 < 64" by simp
  from pad_zeros [OF this] assms(2) [unfolded pad_zeros [OF assms(1)]] assms(1)
  show "c \<noteq> 56" and "k = (120 - Suc c mod 64) mod 64"
    unfolding d by (auto split: if_splits)
qed

lemma sha1_pad_loop_repr:
  assumes "sha1_repr ctx m"
  shows "\<exists>ctx'. sha1_pad_loop ctx = Some ctx' \<and> sha1_repr ctx' (m @ replicate ((120 - length m mod 64) mod 64) 0)"
  using assms
proof (induction "(120 - length m mod 64) mod 64" arbitrary: ctx m)
  case 0
  have "length m mod 64 < 64" by simp
  with "0.hyps" have "length m mod 64 = 56" by (simp add: pad_zeros split: if_splits)
  moreover have "sha1_count ctx = (8 * length m) mod 2 ^ 64" using "0.prems" by (simp add: sha1_repr_def)
  ultimately have "sha1_pad_loop ctx = Some ctx" using sha1_fill(2) by (subst sha1_pad_loop.simps) simp
  then show ?case using 0 by simp
next
  case (Suc k)
  have lt: "length m mod 64 < 64" by simp
  have cnt: "sha1_count ctx = (8 * length m) mod 2 ^ 64" using Suc.prems by (simp add: sha1_repr_def)
  note st = pad_step [OF lt Suc.hyps(2)]
  from SHA1Update_repr [OF Suc.prems, of "[0]"] obtain ctx1 where
    c1: "SHA1Update ctx [0] 1 = Some ctx1" "sha1_repr ctx1 (m @ [0])" by auto
  have k: "k = (120 - length (m @ [0 :: u8]) mod 64) mod 64" using st(2) by (simp add: mod_Suc_eq)
  from Suc.hyps(1) [OF k c1(2)] obtain ctx' where
    "sha1_pad_loop ctx1 = Some ctx'" "sha1_repr ctx' (m @ [0] @ replicate k 0)" using k by auto
  moreover have "sha1_pad_loop ctx = sha1_pad_loop ctx1"
    using c1(1) st(1) sha1_fill(2) [OF cnt] by (subst sha1_pad_loop.simps) simp
  ultimately show ?case using Suc.hyps(2) [symmetric] by simp
qed

lemma octet32: "ucast (drop_bit k x AND 255 :: u32) = (word_of_nat (unat x div 2 ^ k) :: u8)"
proof -
  have "(255 :: u32) = mask 8" by (simp add: mask_eq_exp_minus_1)
  then have "ucast (drop_bit k x AND 255 :: u32) = (ucast (drop_bit k x) :: u8)"
    by (simp only: take_bit_eq_mask [symmetric]) (rule bit_word_eqI, simp add: bit_simps)
  also have "\<dots> = word_of_nat (unat (drop_bit k x))" by simp
  also have "unat (drop_bit k x) = unat x div 2 ^ k" unfolding unat_drop_bit_eq by (rule drop_bit_eq_div)
  finally show ?thesis .
qed

lemma count_octets:
  assumes "c0 < 2 ^ 32" "k \<le> 24"
  shows "j = k + 32 \<Longrightarrow> (word_of_nat ((c1 * 2 ^ 32 + c0) div 2 ^ j) :: u8) = word_of_nat (c1 div 2 ^ k)"
    and "(word_of_nat ((c1 * 2 ^ 32 + c0) div 2 ^ k) :: u8) = word_of_nat (c0 div 2 ^ k)"
proof -
  have "(c1 * 2 ^ 32 + c0) div 2 ^ (k + 32) = (c1 * 2 ^ 32 + c0) div 2 ^ 32 div 2 ^ k"
    unfolding power_add by (subst mult.commute [of "2 ^ k"]) (rule div_mult2_eq)
  also have "(c1 * 2 ^ 32 + c0) div 2 ^ 32 = c1" using assms(1) by simp
  finally show "j = k + 32 \<Longrightarrow> (word_of_nat ((c1 * 2 ^ 32 + c0) div 2 ^ j) :: u8) = word_of_nat (c1 div 2 ^ k)"
    by (simp only:)
  have "(2 :: nat) ^ 32 = 2 ^ k * (2 ^ (24 - k) * 256)" using assms(2) by (simp flip: power_add)
  then have "c1 * 2 ^ 32 + c0 = 2 ^ k * (c1 * 2 ^ (24 - k) * 256) + c0" by (simp only: ac_simps)
  then have "(c1 * 2 ^ 32 + c0) div 2 ^ k = c1 * 2 ^ (24 - k) * 256 + c0 div 2 ^ k"
    by (simp only: div_mult_self4 power_eq_0_iff) simp
  moreover have z: "(word_of_nat 256 :: u8) = 0" by simp
  ultimately show "(word_of_nat ((c1 * 2 ^ 32 + c0) div 2 ^ k) :: u8) = word_of_nat (c0 div 2 ^ k)"
    by (simp only: of_nat_add of_nat_mult z mult_zero_right add_0)
qed

lemma sha1_finalcount:
  "map (\<lambda>i. ucast (drop_bit ((3 - i mod 4) * 8)
      (if i \<ge> 4 then sc_count0 ctx else sc_count1 ctx) AND 255)) [0..<8] =
   WPA_PUT_BE64 (word_of_nat (sha1_count ctx))"
proof -
  define c0 c1 where "c0 = unat (sc_count0 ctx)" and "c1 = unat (sc_count1 ctx)"
  have c0: "c0 < 2 ^ 32" using unsigned_less [of "sc_count0 ctx"] by (simp add: c0_def)
  let ?n = "c1 * 2 ^ 32 + c0"
  have hi: "(word_of_nat (?n div 2 ^ 56) :: u8) = word_of_nat (c1 div 2 ^ 24)"
    "(word_of_nat (?n div 2 ^ 48) :: u8) = word_of_nat (c1 div 2 ^ 16)"
    "(word_of_nat (?n div 2 ^ 40) :: u8) = word_of_nat (c1 div 2 ^ 8)"
    "(word_of_nat (?n div 2 ^ 32) :: u8) = word_of_nat (c1 div 2 ^ 0)"
    by ((rule count_octets(1) [OF c0]; simp)+)
  have lo: "(word_of_nat (?n div 2 ^ 24) :: u8) = word_of_nat (c0 div 2 ^ 24)"
    "(word_of_nat (?n div 2 ^ 16) :: u8) = word_of_nat (c0 div 2 ^ 16)"
    "(word_of_nat (?n div 2 ^ 8) :: u8) = word_of_nat (c0 div 2 ^ 8)"
    "(word_of_nat (?n div 2 ^ 0) :: u8) = word_of_nat (c0 div 2 ^ 0)"
    by ((rule count_octets(2) [OF c0]; simp)+)
  have "be_bytes 8 ?n = map (\<lambda>k. word_of_nat (c1 div 2 ^ k)) [24, 16, 8, 0] @ map (\<lambda>k. word_of_nat (c0 div 2 ^ k)) [24, 16, 8, 0]"
    unfolding be_bytes_8 list.map hi lo append.simps ..
  also have "\<dots> = map (\<lambda>i. ucast (drop_bit ((3 - i mod 4) * 8)
      (if i \<ge> 4 then sc_count0 ctx else sc_count1 ctx) AND 255)) [0..<8]"
    by (simp add: octet32 c0_def c1_def upt_rec)
  finally show ?thesis unfolding put_be64_be_bytes sha1_count_def c0_def c1_def by (rule sym)
qed

lemma SHA1Final_repr:
  assumes "sha1_repr ctx m"
  shows "SHA1Final ctx = Some (sha1 m)"
proof -
  define L where "L = WPA_PUT_BE64 (word_of_nat (8 * length m))"
  have cnt: "sha1_count ctx = (8 * length m) mod 2 ^ 64" using assms by (simp add: sha1_repr_def)
  have "(word_of_nat (8 * length m mod 2 ^ 64) :: u64) = word_of_nat (8 * length m)"
    by (rule word_unat_eq_iff [THEN iffD2]) (simp only: unat_of_nat, simp)
  then have L: "WPA_PUT_BE64 (word_of_nat (sha1_count ctx)) = L" unfolding cnt L_def by (simp only:)
  from SHA1Update_repr [OF assms, of "[0x80]"] obtain c1 where
    c1: "SHA1Update ctx [0x80] 1 = Some c1" "sha1_repr c1 (m @ [0x80])" by auto
  define z where "z = (120 - length (m @ [0x80 :: u8]) mod 64) mod 64"
  from sha1_pad_loop_repr [OF c1(2)] obtain c2 where
    c2: "sha1_pad_loop c1 = Some c2" "sha1_repr c2 (m @ [0x80] @ replicate z 0)" by (auto simp: z_def)
  have L8: "length L = 8" by (simp add: L_def len_simps)
  from SHA1Update_repr [OF c2(2), of L] obtain c3 where
    c3: "SHA1Update c2 L 8 = Some c3" "sha1_repr c3 (m @ [0x80] @ replicate z 0 @ L)" by (auto simp: L8)
  have pad: "m @ [0x80] @ replicate z 0 @ L = md_pad 64 56 m"
  proof -
    have "Suc (length m) mod 64 = (if length m mod 64 = 63 then 0 else Suc (length m mod 64))" by (simp add: mod_Suc)
    then have "z = (119 - length m mod 64) mod 64" by (simp add: z_def)
    then show ?thesis by (simp add: md_pad_def L_def)
  qed
  define st where "st = md_fold 64 sha1_compress sha1_H0 (md_pad 64 56 m)"
  have st: "sc_state c3 = st"
  proof -
    from c3(2) obtain f t where ft: "md_pad 64 56 m = f @ t" "64 dvd length f" "length t < 64"
      "sc_state c3 = md_fold 64 sha1_compress sha1_H0 f" unfolding sha1_repr_def pad by blast
    have "64 dvd length (f @ t)" unfolding ft(1) [symmetric] by (rule md_pad_blocks) simp_all
    then have "64 dvd length t" using ft(2) by (simp add: dvd_add_right_iff)
    then have "t = []" using ft(3) by (cases t) (auto dest!: dvd_imp_le)
    then show ?thesis using ft by (simp add: st_def)
  qed
  have "length st = 5" unfolding st_def by (rule md_fold_inv) (simp_all add: sha1_H0_def sha1_compress_def Let_def case_prod_beta)
  then obtain a b c d e where abc: "st = [a, b, c, d, e]" by (auto simp: length_Suc_conv eval_nat_numeral)
  have "map (\<lambda>i. ucast (drop_bit ((3 - i mod 4) * 8) (st ! (i div 4)) AND 255)) [0..<20] = concat (map WPA_PUT_BE32 st)"
    by (simp add: abc upt_rec WPA_PUT_BE32_def)
  then show ?thesis
    using c1 c2 c3 st unfolding SHA1Final_def sha1_finalcount L Let_def by (simp add: sha1_def st_def)
qed

text \<open>The length of a fragment is a 32 bit number in \<^verbatim>\<open>SHA1Update\<close>.\<close>

definition sha1_small :: "bytes \<Rightarrow> bool" where
  "sha1_small d \<longleftrightarrow> length d + 64 < 2 ^ 32"

lemma sha1_vector_ctx_eq:
  assumes "length (sc_buffer ctx) = 64" and "list_all sha1_small elems"
  shows "sha1_vector_ctx ctx elems = Some (sha1 (concat elems))"
  using sha1_update_all_repr [OF sha1_repr_init [OF assms(1)], of elems] assms(2) SHA1Final_repr
  by (auto simp: sha1_vector_ctx_def list_all_iff sha1_small_def)

lemma sha1_vector_eq: "list_all sha1_small elems \<Longrightarrow> sha1_vector elems = Some (sha1 (concat elems))"
  unfolding sha1_vector_def by (rule sha1_vector_ctx_eq) simp_all

lemma length_sha1 [simp, len_simps]: "length (sha1 m) = 20"
proof -
  have "length (md_fold 64 sha1_compress sha1_H0 (md_pad 64 56 m)) = 5"
    by (rule md_fold_inv) (simp_all add: sha1_H0_def sha1_compress_def Let_def case_prod_beta)
  then show ?thesis by (simp add: sha1_def length_concat comp_def len_simps sum_list_triv)
qed

text \<open>C32: whatever the uninitialised context holds and however the message is split into fragments (of
  less than 2^32 - 64 octets each), the SHA-1 code, with its ring of 16 words, its two word bit counter
  and its octet by octet padding, returns the FIPS 180-4 hash of the concatenation.\<close>

theorem sha1_vector_correct:
  assumes "length (sc_buffer ctx) = 64" and "list_all sha1_small elems"
  shows "sha1_vector_ctx ctx elems = Some (sha1 (concat elems)) \<and> length (sha1 (concat elems)) = 20"
  using sha1_vector_ctx_eq [OF assms] by simp

theorem sha1_vector_correct_witness:
  "sha1_vector_ctx \<lparr>sc_state = [1], sc_count0 = 5, sc_count1 = 9, sc_buffer = replicate 64 3\<rparr>
     [[1, 2], [], [3]] = Some (sha1 [1, 2, 3])"
  using sha1_vector_correct [of
      "\<lparr>sc_state = [1], sc_count0 = 5, sc_count1 = 9, sc_buffer = replicate 64 3\<rparr>" "[[1, 2], [], [3]]"]
  by (simp add: sha1_small_def)

end
