(* ===== verification/Sha512.thy ===== *)
theory Sha512
  imports MdHash
begin

text \<open>
  SHA-512 and SHA-384 from \<^verbatim>\<open>src/crypto/sha512-internal.c\<close> and \<^verbatim>\<open>src/crypto/sha384-internal.c\<close>, over
  the shared streaming code of \<open>MdHash\<close> with blocks of 128 octets, and their specification
  (FIPS 180-4, 6.4 and 6.5).
\<close>

subsection \<open>Compression\<close>

definition K512 :: "u64 list" where
  "K512 = [
    0x428A2F98D728AE22, 0x7137449123EF65CD, 0xB5C0FBCFEC4D3B2F, 0xE9B5DBA58189DBBC,
    0x3956C25BF348B538, 0x59F111F1B605D019, 0x923F82A4AF194F9B, 0xAB1C5ED5DA6D8118,
    0xD807AA98A3030242, 0x12835B0145706FBE, 0x243185BE4EE4B28C, 0x550C7DC3D5FFB4E2,
    0x72BE5D74F27B896F, 0x80DEB1FE3B1696B1, 0x9BDC06A725C71235, 0xC19BF174CF692694,
    0xE49B69C19EF14AD2, 0xEFBE4786384F25E3, 0x0FC19DC68B8CD5B5, 0x240CA1CC77AC9C65,
    0x2DE92C6F592B0275, 0x4A7484AA6EA6E483, 0x5CB0A9DCBD41FBD4, 0x76F988DA831153B5,
    0x983E5152EE66DFAB, 0xA831C66D2DB43210, 0xB00327C898FB213F, 0xBF597FC7BEEF0EE4,
    0xC6E00BF33DA88FC2, 0xD5A79147930AA725, 0x06CA6351E003826F, 0x142929670A0E6E70,
    0x27B70A8546D22FFC, 0x2E1B21385C26C926, 0x4D2C6DFC5AC42AED, 0x53380D139D95B3DF,
    0x650A73548BAF63DE, 0x766A0ABB3C77B2A8, 0x81C2C92E47EDAEE6, 0x92722C851482353B,
    0xA2BFE8A14CF10364, 0xA81A664BBC423001, 0xC24B8B70D0F89791, 0xC76C51A30654BE30,
    0xD192E819D6EF5218, 0xD69906245565A910, 0xF40E35855771202A, 0x106AA07032BBD1B8,
    0x19A4C116B8D2D0C8, 0x1E376C085141AB53, 0x2748774CDF8EEB99, 0x34B0BCB5E19B48A8,
    0x391C0CB3C5C95A63, 0x4ED8AA4AE3418ACB, 0x5B9CCA4F7763E373, 0x682E6FF3D6B2B8A3,
    0x748F82EE5DEFB2FC, 0x78A5636F43172F60, 0x84C87814A1F0AB72, 0x8CC702081A6439EC,
    0x90BEFFFA23631E28, 0xA4506CEBDE82BDE9, 0xBEF9A3F7B2C67915, 0xC67178F2E372532B,
    0xCA273ECEEA26619C, 0xD186B8C721C0C207, 0xEADA7DD6CDE0EB1E, 0xF57D4F7FEE6ED178,
    0x06F067AA72176FBA, 0x0A637DC5A2C898A6, 0x113F9804BEF90DAE, 0x1B710B35131C471B,
    0x28DB77F523047D84, 0x32CAAB7B40C72493, 0x3C9EBE0A15C9BEBC, 0x431D67C49C100D4C,
    0x4CC5D4BECB3E42B6, 0x597F299CFC657E2A, 0x5FCB6FAB3AD6FAEC, 0x6C44198C4A475817]"

definition ROR64c :: "u64 \<Rightarrow> nat \<Rightarrow> u64" where
  "ROR64c x y = drop_bit (y mod 64) x OR push_bit (64 - y mod 64) x"

definition Ch64 :: "u64 \<Rightarrow> u64 \<Rightarrow> u64 \<Rightarrow> u64" where
  "Ch64 x y z = z XOR (x AND (y XOR z))"

definition Maj64 :: "u64 \<Rightarrow> u64 \<Rightarrow> u64 \<Rightarrow> u64" where
  "Maj64 x y z = ((x OR y) AND z) OR (x AND y)"

definition Sigma0_64 :: "u64 \<Rightarrow> u64" where
  "Sigma0_64 x = ROR64c x 28 XOR ROR64c x 34 XOR ROR64c x 39"

definition Sigma1_64 :: "u64 \<Rightarrow> u64" where
  "Sigma1_64 x = ROR64c x 14 XOR ROR64c x 18 XOR ROR64c x 41"

definition Gamma0_64 :: "u64 \<Rightarrow> u64" where
  "Gamma0_64 x = ROR64c x 1 XOR ROR64c x 8 XOR drop_bit 7 x"

definition Gamma1_64 :: "u64 \<Rightarrow> u64" where
  "Gamma1_64 x = ROR64c x 19 XOR ROR64c x 61 XOR drop_bit 6 x"

definition sha512_W :: "bytes \<Rightarrow> u64 list" where
  "sha512_W buf =
     fold (\<lambda>i W. W @ [Gamma1_64 (W ! (i - 2)) + W ! (i - 7) + Gamma0_64 (W ! (i - 15)) + W ! (i - 16)])
       [16..<80] (map (\<lambda>i. WPA_GET_BE64 (drop (8 * i) buf)) [0..<16])"

definition sha512_round :: "u64 list \<Rightarrow> nat \<Rightarrow> u64 list \<Rightarrow> u64 list" where
  "sha512_round W i S =
     (let t0 = S ! 7 + Sigma1_64 (S ! 4) + Ch64 (S ! 4) (S ! 5) (S ! 6) + K512 ! i + W ! i;
          t1 = Sigma0_64 (S ! 0) + Maj64 (S ! 0) (S ! 1) (S ! 2)
      in [t0 + t1, S ! 0, S ! 1, S ! 2, S ! 3 + t0, S ! 4, S ! 5, S ! 6])"

definition sha512_compress :: "u64 list \<Rightarrow> bytes \<Rightarrow> u64 list" where
  "sha512_compress st buf =
     (let W = sha512_W buf; S = fold (sha512_round W) [0..<80] st
      in map (\<lambda>i. st ! i + S ! i) [0..<8])"

subsection \<open>Streaming interface\<close>

type_synonym sha512_state = "u64 md_state"

definition sha512_H0 :: "u64 list" where
  "sha512_H0 =
    [0x6A09E667F3BCC908, 0xBB67AE8584CAA73B, 0x3C6EF372FE94F82B, 0xA54FF53A5F1D36F1,
     0x510E527FADE682D1, 0x9B05688C2B3E6C1F, 0x1F83D9ABFB41BD6B, 0x5BE0CD19137E2179]"

definition sha512_init :: "sha512_state \<Rightarrow> sha512_state" where
  "sha512_init md = md\<lparr>sh_curlen := 0, sh_length := 0, sh_state := sha512_H0\<rparr>"

definition sha512_process :: "sha512_state \<Rightarrow> bytes \<Rightarrow> sha512_state option" where
  "sha512_process md inp = md_process 128 sha512_compress md inp"

definition sha512_done :: "sha512_state \<Rightarrow> bytes option" where
  "sha512_done md = do {
     st \<leftarrow> md_done 128 112 sha512_compress md;
     Some (concat (map (\<lambda>i. WPA_PUT_BE64 (st ! i)) [0..<8])) }"

definition sha512_vector_ctx :: "sha512_state \<Rightarrow> bytes list \<Rightarrow> bytes option" where
  "sha512_vector_ctx ctx elems = do {
     md \<leftarrow> md_process_all 128 sha512_compress (sha512_init ctx) elems;
     sha512_done md }"

definition sha512_vector :: "bytes list \<Rightarrow> bytes option" where
  "sha512_vector elems =
     sha512_vector_ctx \<lparr>sh_length = 0, sh_state = [], sh_curlen = 0, sh_buf = replicate 128 0\<rparr> elems"

definition sha384_H0 :: "u64 list" where
  "sha384_H0 =
    [0xCBBB9D5DC1059ED8, 0x629A292A367CD507, 0x9159015A3070DD17, 0x152FECD8F70E5939,
     0x67332667FFC00B31, 0x8EB44A8768581511, 0xDB0C2E0D64F98FA7, 0x47B5481DBEFA4FA4]"

definition sha384_init :: "sha512_state \<Rightarrow> sha512_state" where
  "sha384_init md = md\<lparr>sh_curlen := 0, sh_length := 0, sh_state := sha384_H0\<rparr>"

definition sha384_done :: "sha512_state \<Rightarrow> bytes option" where
  "sha384_done md =
     (if sh_curlen md \<ge> 128 then None
      else do {
        buf \<leftarrow> sha512_done md;
        Some (take 48 buf) })"

definition sha384_vector_ctx :: "sha512_state \<Rightarrow> bytes list \<Rightarrow> bytes option" where
  "sha384_vector_ctx ctx elems = do {
     md \<leftarrow> md_process_all 128 sha512_compress (sha384_init ctx) elems;
     sha384_done md }"

definition sha384_vector :: "bytes list \<Rightarrow> bytes option" where
  "sha384_vector elems =
     sha384_vector_ctx \<lparr>sh_length = 0, sh_state = [], sh_curlen = 0, sh_buf = replicate 128 0\<rparr> elems"

subsection \<open>Specification\<close>

text \<open>FIPS 180-4, 5.1.2: the length is a field of 128 bits.\<close>

definition sha512_pad :: "bytes \<Rightarrow> bytes" where
  "sha512_pad m = m @ [0x80] @ replicate ((239 - length m mod 128) mod 128) 0 @ be_bytes 16 (8 * length m)"

definition sha512 :: "bytes \<Rightarrow> bytes" where
  "sha512 m = concat (map WPA_PUT_BE64 (md_fold 128 sha512_compress sha512_H0 (sha512_pad m)))"

definition sha384 :: "bytes \<Rightarrow> bytes" where
  "sha384 m = take 48 (concat (map WPA_PUT_BE64 (md_fold 128 sha512_compress sha384_H0 (sha512_pad m))))"

text \<open>What the code computes for messages of any length: the length field holds its last 64 bits.\<close>

definition sha512_code :: "u64 list \<Rightarrow> bytes \<Rightarrow> bytes" where
  "sha512_code H0 m = concat (map WPA_PUT_BE64 (md_fold 128 sha512_compress H0 (md_pad 128 112 m)))"

subsection \<open>The streaming code computes the specification\<close>

lemma length_sha512_compress [simp, len_simps]: "length (sha512_compress st b) = 8"
  by (simp add: sha512_compress_def Let_def)

lemma length_md_fold_sha512: "length H0 = 8 \<Longrightarrow> length (md_fold 128 sha512_compress H0 m) = 8"
  by (rule md_fold_inv) simp_all

interpretation sha512: md_hash 128 112 sha512_compress H0 for H0
  by unfold_locales simp_all

lemma sha512_stream:
  assumes "length (sh_buf md) = 128" "sh_curlen md = 0" "sh_length md = 0" "sh_state md = H0" "length H0 = 8"
  shows "Option.bind (md_process_all 128 sha512_compress md elems) sha512_done = Some (sha512_code H0 (concat elems))"
proof -
  have "Option.bind (md_process_all 128 sha512_compress md elems) (md_done 128 112 sha512_compress) =
      Some (md_fold 128 sha512_compress H0 (md_pad 128 112 (concat elems)))"
    by (rule sha512.stream_eq [OF assms(1-4)])
  then show ?thesis
    by (auto simp: sha512_done_def sha512_code_def bind_eq_Some_conv
        concat_map_nth [OF length_md_fold_sha512 [OF assms(5)]])
qed

lemma length_sha512_code: "length H0 = 8 \<Longrightarrow> length (sha512_code H0 m) = 64"
  using length_md_fold_sha512 [of H0 "md_pad 128 112 m"]
  by (simp add: sha512_code_def length_concat comp_def len_simps sum_list_triv)

lemma sha512_pad_code: "8 * length m < 2 ^ 64 \<Longrightarrow> sha512_pad m = md_pad 128 112 m"
  using be_bytes_zeros [of "8 * length m" 8 8] put_be64_be_bytes [of "8 * length m"]
  by (simp add: sha512_pad_def md_pad_def)

lemma sha512_vector_ctx_eq:
  assumes "length (sh_buf ctx) = 128"
  shows "sha512_vector_ctx ctx elems = Some (sha512_code sha512_H0 (concat elems))"
  unfolding sha512_vector_ctx_def by (rule sha512_stream) (simp_all add: sha512_init_def sha512_H0_def assms)

lemma sha384_done_eq: "sha384_done md = map_option (take 48) (sha512_done md)"
proof (cases "sh_curlen md \<ge> 128")
  case True
  then show ?thesis by (simp add: sha384_done_def sha512_done_def md_done_def)
next
  case False
  then show ?thesis by (cases "sha512_done md") (simp_all add: sha384_done_def)
qed

lemma sha384_vector_ctx_eq:
  assumes "length (sh_buf ctx) = 128"
  shows "sha384_vector_ctx ctx elems = Some (take 48 (sha512_code sha384_H0 (concat elems)))"
proof -
  have "Option.bind (md_process_all 128 sha512_compress (sha384_init ctx) elems) sha512_done =
      Some (sha512_code sha384_H0 (concat elems))"
    by (rule sha512_stream) (simp_all add: sha384_init_def sha384_H0_def assms)
  then show ?thesis by (auto simp: sha384_vector_ctx_def sha384_done_eq bind_eq_Some_conv)
qed

definition sha384_any :: "bytes \<Rightarrow> bytes" where
  "sha384_any m = take 48 (sha512_code sha384_H0 m)"

lemma sha384_vector_eq: "sha384_vector elems = Some (sha384_any (concat elems))"
  unfolding sha384_vector_def sha384_any_def by (rule sha384_vector_ctx_eq) simp

lemma length_sha384_any [simp, len_simps]: "length (sha384_any m) = 48"
  by (simp add: sha384_any_def length_sha512_code sha384_H0_def)



end
