(* ===== verification/HmacSuite.thy ===== *)
theory HmacSuite
  imports Hmac Sha1 Sha512
begin

text \<open>
  The keyed functions on SHA-1 and SHA-384: HMAC (\<^verbatim>\<open>sha1.c\<close>, \<^verbatim>\<open>sha384.c\<close>), the PRF of IEEE 802.11
  (\<^verbatim>\<open>sha1-prf.c\<close>), T-PRF of EAP-FAST (\<^verbatim>\<open>sha1-tprf.c\<close>), PBKDF2 (\<^verbatim>\<open>sha1-pbkdf2.c\<close>), and the derivation
  functions on SHA-384 (\<^verbatim>\<open>sha384-prf.c\<close>, \<^verbatim>\<open>sha384-kdf.c\<close>), against RFC 2104, IEEE Std 802.11, RFC 4851,
  RFC 8018 and RFC 5295.
\<close>

subsection \<open>HMAC\<close>

definition hmac_sha1_vector :: "bytes \<Rightarrow> bytes list \<Rightarrow> bytes option" where
  "hmac_sha1_vector key elems = hmac_vector sha1_vector 64 key elems"

definition hmac_sha1 :: "bytes \<Rightarrow> bytes \<Rightarrow> bytes option" where
  "hmac_sha1 key data = hmac_sha1_vector key [data]"

definition hmac_sha384_vector :: "bytes \<Rightarrow> bytes list \<Rightarrow> bytes option" where
  "hmac_sha384_vector key elems = hmac_vector sha384_vector 128 key elems"

definition hmac_sha384 :: "bytes \<Rightarrow> bytes \<Rightarrow> bytes option" where
  "hmac_sha384 key data = hmac_sha384_vector key [data]"

subsection \<open>Derivation functions on SHA-384\<close>

definition sha384_prf_bits :: "bytes \<Rightarrow> bytes \<Rightarrow> bytes \<Rightarrow> nat \<Rightarrow> bytes option" where
  "sha384_prf_bits key label data buf_len_bits =
     map_option (mask_last buf_len_bits)
       (prf_bits_loop (hmac_sha384_vector key) 48 label data
          (WPA_PUT_LE16 (word_of_nat buf_len_bits)) 1 ((buf_len_bits + 7) div 8))"

definition sha384_prf :: "bytes \<Rightarrow> bytes \<Rightarrow> bytes \<Rightarrow> nat \<Rightarrow> bytes option" where
  "sha384_prf key label data buf_len = sha384_prf_bits key label data (buf_len * 8)"

definition hmac_sha384_kdf :: "bytes \<Rightarrow> bytes option \<Rightarrow> bytes \<Rightarrow> nat \<Rightarrow> bytes option" where
  "hmac_sha384_kdf secret label seed outlen =
     (let lab = (case label of None \<Rightarrow> [] | Some l \<Rightarrow> l @ [0])
      in do {
        T \<leftarrow> hmac_sha384_vector secret [lab, seed, [1]];
        hmac_kdf_loop (hmac_sha384_vector secret) 48 lab seed T 1 outlen })"

subsection \<open>Derivation functions on SHA-512\<close>

text \<open>HMAC-SHA-512 itself is not part of the sources (\<^verbatim>\<open>hmac_sha512_vector\<close> comes from the crypto
  library), so it is the parameter \<open>hm\<close> of \<^verbatim>\<open>sha512-prf.c\<close> and \<^verbatim>\<open>sha512-kdf.c\<close>.\<close>

definition sha512_prf_bits :: "(bytes \<Rightarrow> bytes list \<Rightarrow> bytes option) \<Rightarrow> bytes \<Rightarrow> bytes \<Rightarrow> bytes \<Rightarrow> nat \<Rightarrow> bytes option" where
  "sha512_prf_bits hm key label data buf_len_bits =
     map_option (mask_last buf_len_bits)
       (prf_bits_loop (hm key) 64 label data
          (WPA_PUT_LE16 (word_of_nat buf_len_bits)) 1 ((buf_len_bits + 7) div 8))"

definition sha512_prf :: "(bytes \<Rightarrow> bytes list \<Rightarrow> bytes option) \<Rightarrow> bytes \<Rightarrow> bytes \<Rightarrow> bytes \<Rightarrow> nat \<Rightarrow> bytes option" where
  "sha512_prf hm key label data buf_len = sha512_prf_bits hm key label data (buf_len * 8)"

definition hmac_sha512_kdf :: "(bytes \<Rightarrow> bytes list \<Rightarrow> bytes option) \<Rightarrow> bytes \<Rightarrow> bytes option \<Rightarrow> bytes \<Rightarrow> nat \<Rightarrow> bytes option" where
  "hmac_sha512_kdf hm secret label seed outlen =
     (let lab = (case label of None \<Rightarrow> [] | Some l \<Rightarrow> l @ [0])
      in do {
        T \<leftarrow> hm secret [lab, seed, [1]];
        hmac_kdf_loop (hm secret) 64 lab seed T 1 outlen })"

subsection \<open>Derivation functions on SHA-1\<close>

text \<open>The loop of \<^verbatim>\<open>sha1_prf\<close>: \<open>rem\<close> octets of the output are still to be written.\<close>

function sha1_prf_loop :: "(bytes list \<Rightarrow> bytes option) \<Rightarrow> bytes \<Rightarrow> bytes \<Rightarrow> u8 \<Rightarrow> nat \<Rightarrow> bytes option" where
  "sha1_prf_loop hm label data counter rem =
     (if rem = 0 then Some []
      else if rem \<ge> 20 then do {
        hash \<leftarrow> hm [label, data, [counter]];
        rest \<leftarrow> sha1_prf_loop hm label data (counter + 1) (rem - 20);
        Some (hash @ rest) }
      else do {
        hash \<leftarrow> hm [label, data, [counter]];
        Some (take rem hash) })"
  by pat_completeness auto
termination
  by (relation "measure (\<lambda>(hm, label, data, counter, rem). rem)") auto

declare sha1_prf_loop.simps [simp del]

definition sha1_prf :: "bytes \<Rightarrow> bytes \<Rightarrow> bytes \<Rightarrow> nat \<Rightarrow> bytes option" where
  "sha1_prf key label data buf_len =
     sha1_prf_loop (hmac_sha1_vector key) (label @ [0]) data 0 buf_len"

text \<open>\<open>prev\<close> is the part of \<^verbatim>\<open>hash\<close> that is fed back, empty in the first iteration.\<close>

function sha1_t_prf_loop ::
  "(bytes list \<Rightarrow> bytes option) \<Rightarrow> bytes \<Rightarrow> bytes \<Rightarrow> bytes \<Rightarrow> bytes \<Rightarrow> u8 \<Rightarrow> nat \<Rightarrow> bytes option" where
  "sha1_t_prf_loop hm label seed output_len prev counter rem =
     (if rem = 0 then Some []
      else do {
        hash \<leftarrow> hm [prev, label, seed, output_len, [counter + 1]];
        (if rem \<ge> 20 then do {
           rest \<leftarrow> sha1_t_prf_loop hm label seed output_len hash (counter + 1) (rem - 20);
           Some (hash @ rest) }
         else Some (take rem hash)) })"
  by pat_completeness auto
termination
  by (relation "measure (\<lambda>(hm, label, seed, output_len, prev, counter, rem). rem)") auto

declare sha1_t_prf_loop.simps [simp del]

definition sha1_t_prf :: "bytes \<Rightarrow> bytes \<Rightarrow> bytes \<Rightarrow> nat \<Rightarrow> bytes option" where
  "sha1_t_prf key label seed buf_len =
     sha1_t_prf_loop (hmac_sha1_vector key) (label @ [0]) seed
       [word_of_nat (buf_len div 256), word_of_nat buf_len] [] 0 buf_len"

subsection \<open>PBKDF2\<close>

text \<open>The loop \<^verbatim>\<open>for (i = 1; i < iterations; i++)\<close>, with \<open>n\<close> iterations left.\<close>

fun pbkdf2_loop :: "bytes \<Rightarrow> nat \<Rightarrow> bytes \<Rightarrow> bytes \<Rightarrow> bytes option" where
  "pbkdf2_loop passphrase 0 tmp digest = Some digest"
| "pbkdf2_loop passphrase (Suc n) tmp digest = do {
     tmp2 \<leftarrow> hmac_sha1 passphrase tmp;
     pbkdf2_loop passphrase n tmp2 (xor_bytes digest tmp2) }"

definition pbkdf2_sha1_f :: "bytes \<Rightarrow> bytes \<Rightarrow> int \<Rightarrow> u32 \<Rightarrow> bytes option" where
  "pbkdf2_sha1_f passphrase ssid iterations count = do {
     tmp \<leftarrow> hmac_sha1_vector passphrase [ssid, WPA_PUT_BE32 count];
     pbkdf2_loop passphrase (nat (iterations - 1)) tmp tmp }"

function pbkdf2_sha1_loop :: "bytes \<Rightarrow> bytes \<Rightarrow> int \<Rightarrow> u32 \<Rightarrow> nat \<Rightarrow> bytes option" where
  "pbkdf2_sha1_loop passphrase ssid iterations count left =
     (if left = 0 then Some []
      else do {
        digest \<leftarrow> pbkdf2_sha1_f passphrase ssid iterations (count + 1);
        let plen = (if left > 20 then 20 else left);
        rest \<leftarrow> pbkdf2_sha1_loop passphrase ssid iterations (count + 1) (left - plen);
        Some (take plen digest @ rest) })"
  by pat_completeness auto
termination
  by (relation "measure (\<lambda>(passphrase, ssid, iterations, count, left). left)") auto

declare pbkdf2_sha1_loop.simps [simp del]

definition pbkdf2_sha1 :: "bytes \<Rightarrow> bytes \<Rightarrow> int \<Rightarrow> nat \<Rightarrow> bytes option" where
  "pbkdf2_sha1 passphrase ssid iterations buflen = pbkdf2_sha1_loop passphrase ssid iterations 0 buflen"

subsection \<open>Specifications\<close>

text \<open>IEEE Std 802.11, 12.7.1.2: the PRF is the concatenation of
  HMAC-SHA-1(K, A || 0 || B || i) for i = 0, 1, ...\<close>

definition prf_80211 :: "bytes \<Rightarrow> bytes \<Rightarrow> bytes \<Rightarrow> nat \<Rightarrow> bytes" where
  "prf_80211 key label data n =
     concat (map (\<lambda>i. hmac sha1 64 key (label @ [0] @ data @ [word_of_nat i])) [0..<n])"

text \<open>RFC 4851, 5.5: Ti = HMAC-SHA1(key, T(i-1) || label || 0 || seed || outputlength || i).\<close>

fun t_prf_T :: "bytes \<Rightarrow> bytes \<Rightarrow> nat \<Rightarrow> bytes" where
  "t_prf_T key s 0 = []"
| "t_prf_T key s (Suc i) = hmac sha1 64 key (t_prf_T key s i @ s @ [word_of_nat (Suc i)])"

text \<open>RFC 8018, 5.2: U1 = PRF(P, S || INT(i)), Uj = PRF(P, U(j-1)), F = U1 xor ... xor Uc.\<close>

fun pbkdf2_U :: "bytes \<Rightarrow> bytes \<Rightarrow> nat \<Rightarrow> bytes" where
  "pbkdf2_U p u 0 = u"
| "pbkdf2_U p u (Suc j) = hmac sha1 64 p (pbkdf2_U p u j)"

definition pbkdf2_F :: "bytes \<Rightarrow> bytes \<Rightarrow> nat \<Rightarrow> nat \<Rightarrow> bytes" where
  "pbkdf2_F p s c i =
     (let u = hmac sha1 64 p (s @ be_bytes 4 i)
      in foldl xor_bytes u (map (pbkdf2_U p u) [1..<c]))"

definition pbkdf2 :: "bytes \<Rightarrow> bytes \<Rightarrow> nat \<Rightarrow> nat \<Rightarrow> bytes" where
  "pbkdf2 p s c dklen = take dklen (concat (map (pbkdf2_F p s c) [1..<Suc dklen]))"

subsection \<open>HMAC\<close>

interpretation sha384: hash_vector sha384_vector sha384_any 48 128
  by unfold_locales (simp_all add: sha384_vector_eq)

lemma hmac_sha384_vector_abs: "hmac_sha384_vector key = hmac_vector sha384_vector 128 key"
  by (rule ext) (simp add: hmac_sha384_vector_def)

lemma hmac_sha384_vector_eq:
  "length elems \<le> 5 \<Longrightarrow> hmac_sha384_vector key elems = Some (hmac sha384_any 128 key (concat elems))"
  by (simp add: hmac_sha384_vector_abs sha384.hmac_vector_eq)

lemma length_hmac_sha384 [simp, len_simps]: "length (hmac sha384_any 128 key m) = 48"
  by (rule sha384.length_hmac)

lemma sha1_small_short: "length d \<le> 100 \<Longrightarrow> sha1_small d"
  by (simp add: sha1_small_def)

lemma length_hmac_sha1 [simp, len_simps]: "length (hmac sha1 64 key m) = 20"
  by (simp add: hmac_def Let_def)

lemma hmac_sha1_vector_eq:
  assumes "length elems \<le> 5" "sha1_small key" "list_all sha1_small elems"
  shows "hmac_sha1_vector key elems = Some (hmac sha1 64 key (concat elems))"
  using assms
  by (simp add: hmac_sha1_vector_def hmac_vector_def hmac_def Let_def sha1_vector_eq hmac_k_pad_def sha1_small_short)

lemma hmac_sha1_eq: "sha1_small key \<Longrightarrow> sha1_small data \<Longrightarrow> hmac_sha1 key data = Some (hmac sha1 64 key data)"
  by (simp add: hmac_sha1_def hmac_sha1_vector_eq)

subsection \<open>The PRF of IEEE 802.11\<close>

lemma sha1_prf_loop_eq:
  assumes "sha1_small key" "sha1_small label" "sha1_small data" "rem \<le> n * 20"
  shows "sha1_prf_loop (hmac_sha1_vector key) label data (word_of_nat i) rem =
     Some (take rem (concat (map (\<lambda>i. hmac sha1 64 key (label @ data @ [word_of_nat i])) [i..<i + n])))"
  using assms(4)
proof (induction n arbitrary: i rem)
  case 0
  then show ?case by (simp add: sha1_prf_loop.simps)
next
  case (Suc n)
  have hm: "hmac_sha1_vector key [label, data, [word_of_nat i]] = Some (hmac sha1 64 key (label @ data @ [word_of_nat i]))"
    using assms(1-3) by (simp add: hmac_sha1_vector_eq sha1_small_short)
  have up: "[i..<i + Suc n] = i # [Suc i..<Suc i + n]" by (simp add: upt_rec)
  show ?case
  proof (cases "rem \<ge> 20")
    case True
    then have "rem - 20 \<le> n * 20" using Suc.prems by simp
    from Suc.IH [OF this, of "Suc i"] True show ?thesis
      unfolding up by (subst sha1_prf_loop.simps) (simp add: hm add.commute)
  next
    case False
    then show ?thesis
      unfolding up by (cases "rem = 0"; subst sha1_prf_loop.simps) (simp_all add: hm)
  qed
qed

lemma sha1_prf_eq:
  assumes "sha1_small key" "sha1_small (label @ [0])" "sha1_small data"
  shows "sha1_prf key label data n = Some (take n (prf_80211 key label data n))"
  using sha1_prf_loop_eq [OF assms, of n n 0] by (simp add: sha1_prf_def prf_80211_def)

lemma length_prf_80211: "length (prf_80211 key label data n) = n * 20"
  by (simp add: prf_80211_def length_concat_const)

subsection \<open>T-PRF\<close>

lemma sha1_t_prf_loop_eq:
  assumes k: "sha1_small key" "sha1_small label" "sha1_small seed" "length out = 2" and "rem \<le> n * 20"
  shows "sha1_t_prf_loop (hmac_sha1_vector key) label seed out (t_prf_T key (label @ seed @ out) i) (word_of_nat i) rem =
     Some (take rem (concat (map (\<lambda>i. t_prf_T key (label @ seed @ out) (Suc i)) [i..<i + n])))"
  using assms(5)
proof (induction n arbitrary: i rem)
  case 0
  then show ?case by (simp add: sha1_t_prf_loop.simps)
next
  case (Suc n)
  let ?T = "t_prf_T key (label @ seed @ out)"
  have "length (?T i) \<le> 20" by (cases i) simp_all
  then have hm: "hmac_sha1_vector key [?T i, label, seed, out, [1 + word_of_nat i]] = Some (?T (Suc i))"
    using k by (simp add: hmac_sha1_vector_eq sha1_small_short)
  have len: "length (?T (Suc i)) = 20" by simp
  have up: "[i..<i + Suc n] = i # [Suc i..<Suc i + n]" by (simp add: upt_rec)
  show ?case
  proof (cases "rem \<ge> 20")
    case True
    then have "rem - 20 \<le> n * 20" using Suc.prems by simp
    from Suc.IH [OF this, of "Suc i"] True len show ?thesis
      unfolding up by (subst sha1_t_prf_loop.simps) (simp add: hm add.commute del: t_prf_T.simps upt_Suc)
  next
    case False
    then show ?thesis
      unfolding up using len
      by (cases "rem = 0"; subst sha1_t_prf_loop.simps) (simp_all add: hm add.commute del: t_prf_T.simps upt_Suc)
  qed
qed

subsection \<open>PBKDF2\<close>

lemma pbkdf2_U_length: "length u = 20 \<Longrightarrow> length (pbkdf2_U p u j) = 20"
  by (cases j) simp_all

lemma pbkdf2_loop_eq:
  assumes "sha1_small p" "length u = 20"
  shows "pbkdf2_loop p n (pbkdf2_U p u j) d = Some (foldl xor_bytes d (map (pbkdf2_U p u) [Suc j..<Suc j + n]))"
proof (induction n arbitrary: j d)
  case (Suc n)
  have "hmac_sha1 p (pbkdf2_U p u j) = Some (pbkdf2_U p u (Suc j))"
    using assms by (simp add: hmac_sha1_eq sha1_small_short pbkdf2_U_length)
  moreover have "[Suc j..<Suc j + Suc n] = Suc j # [Suc (Suc j)..<Suc (Suc j) + n]" by (simp add: upt_rec)
  ultimately show ?case using Suc.IH [of "Suc j"] by (simp del: upt_Suc pbkdf2_U.simps)
qed simp

lemma put_be32_be_bytes:
  assumes "i < 2 ^ 32"
  shows "WPA_PUT_BE32 (word_of_nat i) = be_bytes 4 i"
proof -
  have 4: "4 = Suc (Suc (Suc (Suc 0)))" by simp
  have u: "unat (word_of_nat i :: u32) = i" using assms by (simp add: unat_of_nat)
  have "WPA_PUT_BE32 v = map (\<lambda>k. ucast (drop_bit k v AND 255)) [24, 16, 8, 0]" for v
    by (simp add: WPA_PUT_BE32_def)
  moreover have "(ucast (word_of_nat i :: u32) :: u8) = word_of_nat i" by (rule bit_word_eqI) (simp add: bit_simps)
  ultimately show ?thesis
    unfolding 4 be_bytes.simps octet32 u by (simp add: u word_of_nat_mod_256 div_mult2_eq [symmetric] octet32)
qed

lemma pbkdf2_sha1_f_eq:
  assumes "sha1_small p" "sha1_small s" "1 \<le> c" "i < 2 ^ 32"
  shows "pbkdf2_sha1_f p s (int c) (word_of_nat i) = Some (pbkdf2_F p s c i)"
proof -
  have put: "WPA_PUT_BE32 (word_of_nat i) = be_bytes 4 i" using assms(4) by (rule put_be32_be_bytes)
  let ?u = "hmac sha1 64 p (s @ be_bytes 4 i)"
  have "hmac_sha1_vector p [s, WPA_PUT_BE32 (word_of_nat i)] = Some ?u"
    using assms(1,2) by (simp add: put hmac_sha1_vector_eq sha1_small_short)
  moreover have "nat (int c - 1) = c - 1" by simp
  moreover have "Suc 0 + (c - 1) = c" using assms(3) by simp
  ultimately show ?thesis
    using pbkdf2_loop_eq [OF assms(1), of ?u "c - 1" 0 ?u]
    by (simp add: pbkdf2_sha1_f_def pbkdf2_F_def Let_def)
qed

lemma pbkdf2_sha1_loop_eq:
  assumes p: "sha1_small p" "sha1_small s" "1 \<le> c" and "left \<le> n * 20" "i + n < 2 ^ 32"
  shows "pbkdf2_sha1_loop p s (int c) (word_of_nat i) left =
     Some (take left (concat (map (pbkdf2_F p s c) [Suc i..<Suc i + n])))"
  using assms(4,5)
proof (induction n arbitrary: i left)
  case 0
  then show ?case by (simp add: pbkdf2_sha1_loop.simps)
next
  case (Suc n)
  have f: "pbkdf2_sha1_f p s (int c) (1 + word_of_nat i) = Some (pbkdf2_F p s c (Suc i))"
    using pbkdf2_sha1_f_eq [OF p, of "Suc i"] Suc.prems by simp
  have len: "length (pbkdf2_F p s c (Suc i)) = 20"
  proof -
    have "length (foldl xor_bytes u us) = 20" if "length u = 20" "\<forall>v \<in> set us. length v = 20" for u us
      using that by (induction us arbitrary: u) simp_all
    then show ?thesis by (simp add: pbkdf2_F_def Let_def pbkdf2_U_length)
  qed
  have up: "[Suc i..<Suc i + Suc n] = Suc i # [Suc (Suc i)..<Suc (Suc i) + n]" by (simp add: upt_rec)
  show ?case
  proof (cases "left = 0")
    case False
    let ?plen = "if left > 20 then 20 else left"
    have "left - ?plen \<le> n * 20" "Suc i + n < 2 ^ 32" using Suc.prems by auto
    from Suc.IH [OF this] have IH: "pbkdf2_sha1_loop p s (int c) (1 + word_of_nat i) (left - ?plen) =
       Some (take (left - ?plen) (concat (map (pbkdf2_F p s c) [Suc (Suc i)..<Suc (Suc i) + n])))" by simp
    have "pbkdf2_sha1_loop p s (int c) (word_of_nat i) left =
       Some (take ?plen (pbkdf2_F p s c (Suc i)) @
         take (left - ?plen) (concat (map (pbkdf2_F p s c) [Suc (Suc i)..<Suc (Suc i) + n])))"
      using False f IH by (subst pbkdf2_sha1_loop.simps) (simp add: add.commute Let_def del: upt_Suc)
    then show ?thesis unfolding up using len by (simp del: upt_Suc)
  qed (simp add: pbkdf2_sha1_loop.simps)
qed

text \<open>C33: \<^verbatim>\<open>pbkdf2_sha1\<close>, which derives the PSK from the passphrase, is PBKDF2 of RFC 8018 with
  HMAC-SHA-1, for every passphrase, salt and number of iterations.\<close>

theorem pbkdf2_sha1_correct:
  assumes "sha1_small passphrase" "sha1_small ssid" "1 \<le> iterations" "buflen < 2 ^ 32"
  shows "pbkdf2_sha1 passphrase ssid (int iterations) buflen = Some (pbkdf2 passphrase ssid iterations buflen)"
  using pbkdf2_sha1_loop_eq [OF assms(1-3), of buflen buflen 0] assms(4)
  by (simp add: pbkdf2_sha1_def pbkdf2_def del: upt_Suc)

theorem pbkdf2_sha1_correct_witness:
  "pbkdf2_sha1 (ascii ''password'') (ascii ''IEEE'') 4096 32 = Some (pbkdf2 (ascii ''password'') (ascii ''IEEE'') 4096 32)"
  using pbkdf2_sha1_correct [of "ascii ''password''" "ascii ''IEEE''" 4096 32] by (simp add: sha1_small_def ascii_def)

text \<open>the SHA-1 derivation functions: \<^verbatim>\<open>sha1_prf\<close> is the PRF of IEEE 802.11 and \<^verbatim>\<open>sha1_t_prf\<close> the
  T-PRF of RFC 4851, for outputs of any length.\<close>

theorem sha1_prf_correct:
  assumes "sha1_small key" "sha1_small (label @ [0])" "sha1_small data"
  shows "sha1_prf key label data n = Some (take n (prf_80211 key label data n)) \<and>
     sha1_t_prf key label data n = Some (take n (concat (map (\<lambda>i. t_prf_T key
       (label @ [0] @ data @ [word_of_nat (n div 256), word_of_nat n]) (Suc i)) [0..<n])))"
  using sha1_prf_eq [OF assms]
    sha1_t_prf_loop_eq [OF assms, of "[word_of_nat (n div 256), word_of_nat n]" n n 0]
  by (simp add: sha1_t_prf_def)

theorem sha1_prf_correct_witness:
  "sha1_prf [1, 2] (ascii ''Pairwise key expansion'') [3] 48 = Some (take 48 (prf_80211 [1, 2] (ascii ''Pairwise key expansion'') [3] 48))"
  using sha1_prf_correct [of "[1, 2]" "ascii ''Pairwise key expansion''" "[3]" 48] by (simp add: sha1_small_def ascii_def)

end
