(* ===== verification/NumTheory.thy ===== *)
theory NumTheory
  imports Complex_Main
begin

text \<open>
  The arithmetic that the SAE proofs need about a prime modulus: Euclid's lemma, Fermat's little
  theorem, square roots of one, powers of elements of finite order, and Euler's criterion in the
  form that the blinded quadratic residue test relies on.  Nothing here models code.
\<close>

definition is_prime :: "nat \<Rightarrow> bool" where
  "is_prime p \<longleftrightarrow> 1 < p \<and> (\<forall>m\<in>{2..<p}. \<not> m dvd p)"

lemma is_prime_gt1: "is_prime p \<Longrightarrow> 1 < p"
  by (simp add: is_prime_def)

lemma is_prime_dvd: "is_prime p \<Longrightarrow> d dvd p \<Longrightarrow> d = 1 \<or> d = p"
proof -
  assume p: "is_prime p" and d: "d dvd p"
  then have "0 < p" by (simp add: is_prime_def)
  then have "d \<le> p" "0 < d" using d by (auto intro: dvd_imp_le dvd_pos_nat)
  moreover have "\<not> (2 \<le> d \<and> d < p)" using p d by (auto simp: is_prime_def)
  ultimately show ?thesis by linarith
qed

lemma prime_coprime: "is_prime p \<Longrightarrow> \<not> p dvd a \<Longrightarrow> coprime p a"
proof (rule coprimeI)
  fix c assume "is_prime p" "\<not> p dvd a" "c dvd p" "c dvd a"
  then have "c = 1" using is_prime_dvd by blast
  then show "c dvd 1" by simp
qed

lemma prime_dvd_mult: "is_prime p \<Longrightarrow> p dvd a * b \<Longrightarrow> p dvd a \<or> p dvd b"
  using prime_coprime coprime_dvd_mult_right_iff by blast

lemma prime_dvd_choose: "is_prime p \<Longrightarrow> 0 < k \<Longrightarrow> k < p \<Longrightarrow> p dvd (p choose k)"
proof -
  assume p: "is_prime p" and k: "0 < k" "k < p"
  have "k * (p choose k) = p * ((p - 1) choose (k - 1))" using k by (simp add: times_binomial_minus1_eq)
  then have "p dvd k * (p choose k)" by simp
  moreover have "\<not> p dvd k" using k by (auto dest: dvd_imp_le)
  ultimately show ?thesis using prime_dvd_mult [OF p] by blast
qed

lemma fermat_pow: "is_prime p \<Longrightarrow> a ^ p mod p = a mod p" for a :: nat
proof (induction a)
  case 0
  then show ?case by (simp add: is_prime_def zero_power)
next
  case (Suc a)
  have "(\<Sum>k\<in>{1..<p}. (p choose k) * a ^ k) mod p = 0"
    using prime_dvd_choose [OF Suc.prems] by (intro dvd_imp_mod_0 dvd_sum) auto
  moreover have "(a + 1) ^ p = 1 + (\<Sum>k\<in>{1..<p}. (p choose k) * a ^ k) + a ^ p"
  proof -
    have set: "{..p} = insert 0 (insert p {1..<p})" using Suc.prems by (auto simp: is_prime_def)
    have "(a + 1) ^ p = (\<Sum>k\<le>p. (p choose k) * a ^ k)" using binomial [of a 1 p] by simp
    also have "\<dots> = 1 + (a ^ p + (\<Sum>k\<in>{1..<p}. (p choose k) * a ^ k))"
      unfolding set using Suc.prems by (subst sum.insert; simp add: is_prime_def)
    finally show ?thesis by simp
  qed
  ultimately have "(a + 1) ^ p mod p = (1 + a ^ p) mod p" by (metis add.assoc add.commute add.right_neutral mod_add_right_eq)
  also have "\<dots> = (1 + a) mod p" using Suc by (metis mod_add_right_eq)
  finally show ?case by simp
qed

lemma fermat: "is_prime p \<Longrightarrow> \<not> p dvd a \<Longrightarrow> a ^ (p - 1) mod p = 1" for a :: nat
proof -
  assume p: "is_prime p" and a: "\<not> p dvd a"
  then have p1: "1 < p" and a0: "0 < a" by (auto simp: is_prime_def intro: Nat.gr0I)
  have "a ^ p = a * a ^ (p - 1)" using p1 by (cases p) simp_all
  moreover have "a \<le> a * a ^ (p - 1)" using a0 by simp
  ultimately have "p dvd a * (a ^ (p - 1) - 1)"
    using fermat_pow [OF p, of a] by (simp add: mod_eq_dvd_iff_nat diff_mult_distrib2)
  with a p have "p dvd a ^ (p - 1) - 1" using prime_dvd_mult by blast
  moreover have "1 \<le> a ^ (p - 1)" using a0 by simp
  ultimately show ?thesis using p1 mod_eq_dvd_iff_nat [of 1 "a ^ (p - 1)" p] by simp
qed

lemma prime_sqrt_1:
  assumes p: "is_prime p" and x: "x < p" and sq: "x * x mod p = 1"
  shows "x = 1 \<or> x = p - 1"
proof -
  have x0: "0 < x" using sq by (cases x) auto
  obtain y where y: "x = Suc y" using x0 by (cases x) auto
  have "(x * x) mod p = 1 mod p" using sq p by (simp add: is_prime_def)
  then have "p dvd x * x - 1" using x0 by (subst mod_eq_dvd_iff_nat [symmetric]) simp_all
  also have "x * x - 1 = (x - 1) * (x + 1)" by (simp add: y algebra_simps)
  finally have "p dvd x - 1 \<or> p dvd x + 1" using prime_dvd_mult [OF p] by blast
  then show ?thesis using x by (auto simp: y dest!: dvd_imp_le)
qed

subsection \<open>Powers modulo p\<close>

lemma pow_mod_mult: "(a ^ m mod p) * (a ^ n mod p) mod p = a ^ (m + n) mod p" for a :: nat
  by (simp add: power_add mod_mult_eq)

lemma pow_mod_pow: "(a ^ m mod p) ^ n mod p = a ^ (m * n) mod p" for a :: nat
  by (simp add: power_mult power_mod)

lemma pow_mod_order:
  fixes a :: nat
  assumes "a ^ r mod p = 1" and "1 < p"
  shows "a ^ (n mod r) mod p = a ^ n mod p"
proof -
  have "a ^ n = (a ^ r) ^ (n div r) * a ^ (n mod r)"
    by (metis div_mult_mod_eq mult.commute power_add power_mult)
  moreover have "(a ^ r) ^ (n div r) mod p = 1"
    using assms by (metis mod_less power_mod power_one)
  ultimately show ?thesis by (metis mod_mult_left_eq mult_1)
qed

subsection \<open>Euler's criterion and blinding\<close>

lemma euler_cases:
  assumes p: "is_prime p" and e: "2 * e = p - 1"
  shows "a ^ e mod p = 0 \<or> a ^ e mod p = 1 \<or> a ^ e mod p = p - 1"
proof (cases "p dvd a")
  case True
  have "0 < e" using e is_prime_gt1 [OF p] by (cases e) auto
  then have "p dvd a ^ e" using True by (cases e) auto
  then show ?thesis by simp
next
  case False
  have "(a ^ e mod p) * (a ^ e mod p) mod p = a ^ (p - 1) mod p"
    using e by (simp add: pow_mod_mult mult_2 [symmetric])
  then have "(a ^ e mod p) * (a ^ e mod p) mod p = 1" using fermat [OF p False] by simp
  moreover have "a ^ e mod p < p" using is_prime_gt1 [OF p] by simp
  ultimately show ?thesis using prime_sqrt_1 [OF p] by blast
qed

lemma blind_pow:
  assumes p: "is_prime p" and r: "\<not> p dvd r" and e: "2 * e = p - 1"
  shows "(((v * r mod p) * r mod p) * q mod p) ^ e mod p = (v ^ e mod p) * (q ^ e mod p) mod p"
proof -
  have "(((v * r mod p) * r mod p) * q mod p) ^ e mod p = (v * r * r * q) ^ e mod p"
    by (simp add: power_mod mod_mult_left_eq)
  also have "(v * r * r * q) ^ e = v ^ e * q ^ e * r ^ (2 * e)"
    by (simp add: power_mult_distrib mult_2 power_add)
  also have "\<dots> mod p = (v ^ e * q ^ e) * (r ^ (p - 1) mod p) mod p"
    by (simp only: e mod_mult_right_eq)
  also have "\<dots> = (v ^ e mod p) * (q ^ e mod p) mod p"
    using fermat [OF p r] by (simp add: mod_mult_eq)
  finally show ?thesis .
qed

lemma minus_one_mult: "1 < p \<Longrightarrow> x < p \<Longrightarrow> x \<noteq> 0 \<Longrightarrow> x * (p - 1) mod p = p - x" for p :: nat
proof -
  assume p: "1 < p" "x < p" "x \<noteq> 0"
  then have "x * (p - 1) = (p - x) + (x - 1) * p"
    by (cases x) (auto simp: algebra_simps diff_mult_distrib2)
  then have "x * (p - 1) mod p = (p - x) mod p" by (simp only: mod_mult_self1)
  then show ?thesis using p by simp
qed

end
