(* ===== verification/CryptoOpenssl.thy ===== *)
theory CryptoOpenssl
  imports Prelude NumTheory
begin

text \<open>
  The big number and elliptic curve interface of \<^verbatim>\<open>src/crypto/crypto.h\<close> as
  \<^verbatim>\<open>src/crypto/crypto_openssl.c\<close> implements it.  OpenSSL itself is not part of the sources: its
  functions are the fields of the record \<open>openssl\<close>, a parameter of every definition, and what the
  program relies on of them is stated in the locales \<open>openssl_bn\<close> and (in theory \<open>SaeEcc\<close>) of the
  curve groups.  A BIGNUM is a natural number, the type \<open>'g\<close> is \<^verbatim>\<open>EC_GROUP\<close> and \<open>'q\<close> is
  \<^verbatim>\<open>EC_POINT\<close>.  An OpenSSL function that can fail returns an option.  Whether an allocation
  succeeds is a field too (\<^verbatim>\<open>BN_new\<close>, \<^verbatim>\<open>BN_CTX_new\<close>, \<^verbatim>\<open>EC_POINT_new\<close>, \<^verbatim>\<open>os_zalloc\<close>,
  \<^verbatim>\<open>os_malloc\<close>).  \<^verbatim>\<open>TEST_FAIL()\<close> is false (builds without \<^verbatim>\<open>CONFIG_TESTING_OPTIONS\<close>).
\<close>

subsection \<open>The OpenSSL functions\<close>

datatype curve_nid =
    NID_X9_62_prime256v1 | NID_secp384r1 | NID_secp521r1 | NID_X9_62_prime192v1 | NID_secp224r1
  | NID_brainpoolP224r1 | NID_brainpoolP256r1 | NID_brainpoolP384r1 | NID_brainpoolP512r1

record ('g, 'q) openssl =
  os_zalloc_ok :: bool
  os_malloc_ok :: "nat \<Rightarrow> bool"
  BN_new_ok :: bool
  BN_CTX_new_ok :: bool
  BN_bin2bn :: "bytes \<Rightarrow> nat option"
  BN_bn2bin :: "nat \<Rightarrow> bytes"
  BN_num_bits :: "nat \<Rightarrow> nat"
  BN_add :: "nat \<Rightarrow> nat \<Rightarrow> nat option"
  BN_sub :: "nat \<Rightarrow> nat \<Rightarrow> nat option"
  BN_mod :: "nat \<Rightarrow> nat \<Rightarrow> nat option"
  BN_div :: "nat \<Rightarrow> nat \<Rightarrow> nat option"
  BN_mod_exp :: "nat \<Rightarrow> nat \<Rightarrow> nat \<Rightarrow> nat option"
  BN_mod_mul :: "nat \<Rightarrow> nat \<Rightarrow> nat \<Rightarrow> nat option"
  BN_mod_sqr :: "nat \<Rightarrow> nat \<Rightarrow> nat option"
  BN_mod_add_quick :: "nat \<Rightarrow> nat \<Rightarrow> nat \<Rightarrow> nat option"
  BN_mod_inverse :: "nat \<Rightarrow> nat \<Rightarrow> nat option"
  BN_rshift1 :: "nat \<Rightarrow> nat option"
  BN_cmp :: "nat \<Rightarrow> nat \<Rightarrow> int"
  EC_GROUP_new_by_curve_name :: "curve_nid \<Rightarrow> 'g option"
  EC_GROUP_get_curve_GFp :: "'g \<Rightarrow> (nat \<times> nat \<times> nat) option"
  EC_GROUP_get_order :: "'g \<Rightarrow> nat option"
  EC_POINT_new :: "'g \<Rightarrow> 'q option"
  EC_POINT_get_affine_coordinates_GFp :: "'g \<Rightarrow> 'q \<Rightarrow> (nat \<times> nat) option"
  EC_POINT_set_affine_coordinates_GFp :: "'g \<Rightarrow> nat \<Rightarrow> nat \<Rightarrow> 'q option"
  EC_POINT_set_compressed_coordinates_GFp :: "'g \<Rightarrow> nat \<Rightarrow> int \<Rightarrow> 'q option"
  EC_POINT_add :: "'g \<Rightarrow> 'q \<Rightarrow> 'q \<Rightarrow> 'q option"
  EC_POINT_mul :: "'g \<Rightarrow> 'q \<Rightarrow> nat \<Rightarrow> 'q option"
  EC_POINT_invert :: "'g \<Rightarrow> 'q \<Rightarrow> 'q option"
  EC_POINT_is_at_infinity :: "'g \<Rightarrow> 'q \<Rightarrow> bool"
  EC_POINT_is_on_curve :: "'g \<Rightarrow> 'q \<Rightarrow> int"
  EC_POINT_cmp :: "'g \<Rightarrow> 'q \<Rightarrow> 'q \<Rightarrow> int"

text \<open>The OpenSSL macro \<^verbatim>\<open>BN_num_bytes\<close>.\<close>

definition BN_num_bytes :: "('g, 'q) openssl \<Rightarrow> nat \<Rightarrow> nat" where
  "BN_num_bytes L a = (BN_num_bits L a + 7) div 8"

subsection \<open>Big numbers\<close>

definition crypto_bignum_init :: "('g, 'q) openssl \<Rightarrow> nat option" where
  "crypto_bignum_init L = (if BN_new_ok L then Some 0 else None)"

definition crypto_bignum_init_set :: "('g, 'q) openssl \<Rightarrow> bytes \<Rightarrow> nat option" where
  "crypto_bignum_init_set L buf = BN_bin2bn L buf"

text \<open>The octets written to \<^verbatim>\<open>buf\<close>; their number is the return value.\<close>

definition crypto_bignum_to_bin :: "('g, 'q) openssl \<Rightarrow> nat \<Rightarrow> nat \<Rightarrow> nat \<Rightarrow> bytes option" where
  "crypto_bignum_to_bin L a buflen padlen =
     (if padlen > buflen then None
      else
        let num_bytes = BN_num_bytes L a
        in if num_bytes > buflen then None
           else
             let off = (if padlen > num_bytes then padlen - num_bytes else 0)
             in Some (replicate off 0 @ BN_bn2bin L a))"

definition crypto_bignum_add :: "('g, 'q) openssl \<Rightarrow> nat \<Rightarrow> nat \<Rightarrow> nat option" where
  "crypto_bignum_add L a b = BN_add L a b"

definition crypto_bignum_mod :: "('g, 'q) openssl \<Rightarrow> nat \<Rightarrow> nat \<Rightarrow> nat option" where
  "crypto_bignum_mod L a b = (if \<not> BN_CTX_new_ok L then None else BN_mod L a b)"

definition crypto_bignum_exptmod :: "('g, 'q) openssl \<Rightarrow> nat \<Rightarrow> nat \<Rightarrow> nat \<Rightarrow> nat option" where
  "crypto_bignum_exptmod L a b c = (if \<not> BN_CTX_new_ok L then None else BN_mod_exp L a b c)"

definition crypto_bignum_inverse :: "('g, 'q) openssl \<Rightarrow> nat \<Rightarrow> nat \<Rightarrow> nat option" where
  "crypto_bignum_inverse L a b = (if \<not> BN_CTX_new_ok L then None else BN_mod_inverse L a b)"

definition crypto_bignum_sub :: "('g, 'q) openssl \<Rightarrow> nat \<Rightarrow> nat \<Rightarrow> nat option" where
  "crypto_bignum_sub L a b = BN_sub L a b"

definition crypto_bignum_div :: "('g, 'q) openssl \<Rightarrow> nat \<Rightarrow> nat \<Rightarrow> nat option" where
  "crypto_bignum_div L a b = (if \<not> BN_CTX_new_ok L then None else BN_div L a b)"

definition crypto_bignum_mulmod :: "('g, 'q) openssl \<Rightarrow> nat \<Rightarrow> nat \<Rightarrow> nat \<Rightarrow> nat option" where
  "crypto_bignum_mulmod L a b c = (if \<not> BN_CTX_new_ok L then None else BN_mod_mul L a b c)"

definition crypto_bignum_cmp :: "('g, 'q) openssl \<Rightarrow> nat \<Rightarrow> nat \<Rightarrow> int" where
  "crypto_bignum_cmp L a b = BN_cmp L a b"

definition crypto_bignum_bits :: "('g, 'q) openssl \<Rightarrow> nat \<Rightarrow> nat" where
  "crypto_bignum_bits L a = BN_num_bits L a"

definition crypto_bignum_is_zero :: "nat \<Rightarrow> bool" where
  "crypto_bignum_is_zero a \<longleftrightarrow> a = 0"

definition crypto_bignum_is_one :: "nat \<Rightarrow> bool" where
  "crypto_bignum_is_one a \<longleftrightarrow> a = 1"

definition crypto_bignum_legendre :: "('g, 'q) openssl \<Rightarrow> nat \<Rightarrow> nat \<Rightarrow> int" where
  "crypto_bignum_legendre L a p =
     (if \<not> BN_CTX_new_ok L \<or> \<not> BN_new_ok L then - 2
      else case (do { e \<leftarrow> BN_sub L p 1; e \<leftarrow> BN_rshift1 L e; BN_mod_exp L a e p }) of
             None \<Rightarrow> - 2
           | Some t \<Rightarrow> if t = 1 then 1 else if t = 0 then 0 else - 1)"

subsection \<open>Elliptic curves\<close>

record 'g crypto_ec =
  ec_group :: 'g
  ec_prime :: nat
  ec_order :: nat
  ec_a :: nat
  ec_b :: nat

definition ec_nid :: "int \<Rightarrow> curve_nid option" where
  "ec_nid grp =
     (if grp = 19 then Some NID_X9_62_prime256v1
      else if grp = 20 then Some NID_secp384r1
      else if grp = 21 then Some NID_secp521r1
      else if grp = 25 then Some NID_X9_62_prime192v1
      else if grp = 26 then Some NID_secp224r1
      else if grp = 27 then Some NID_brainpoolP224r1
      else if grp = 28 then Some NID_brainpoolP256r1
      else if grp = 29 then Some NID_brainpoolP384r1
      else if grp = 30 then Some NID_brainpoolP512r1
      else None)"

definition crypto_ec_init :: "('g, 'q) openssl \<Rightarrow> int \<Rightarrow> 'g crypto_ec option" where
  "crypto_ec_init L grp = do {
     nid \<leftarrow> ec_nid grp;
     (if \<not> os_zalloc_ok L then None else
      do {
        g \<leftarrow> EC_GROUP_new_by_curve_name L nid;
        (if \<not> BN_CTX_new_ok L \<or> \<not> BN_new_ok L then None else
         do {
           (p, a, b) \<leftarrow> EC_GROUP_get_curve_GFp L g;
           r \<leftarrow> EC_GROUP_get_order L g;
           Some \<lparr>ec_group = g, ec_prime = p, ec_order = r, ec_a = a, ec_b = b\<rparr> }) }) }"

definition crypto_ec_point_init :: "('g, 'q) openssl \<Rightarrow> 'g crypto_ec \<Rightarrow> 'q option" where
  "crypto_ec_point_init L e = EC_POINT_new L (ec_group e)"

definition crypto_ec_prime_len :: "('g, 'q) openssl \<Rightarrow> 'g crypto_ec \<Rightarrow> nat" where
  "crypto_ec_prime_len L e = BN_num_bytes L (ec_prime e)"

definition crypto_ec_prime_len_bits :: "('g, 'q) openssl \<Rightarrow> 'g crypto_ec \<Rightarrow> nat" where
  "crypto_ec_prime_len_bits L e = BN_num_bits L (ec_prime e)"

definition crypto_ec_get_prime :: "'g crypto_ec \<Rightarrow> nat" where
  "crypto_ec_get_prime e = ec_prime e"

definition crypto_ec_get_order :: "'g crypto_ec \<Rightarrow> nat" where
  "crypto_ec_get_order e = ec_order e"

text \<open>The octets stored through the two output pointers; the results of the two inner
  \<^verbatim>\<open>crypto_bignum_to_bin\<close> calls are ignored, a failing one leaves its output untouched (\<open>None\<close>).\<close>

definition crypto_ec_point_to_bin ::
  "('g, 'q) openssl \<Rightarrow> 'g crypto_ec \<Rightarrow> 'q \<Rightarrow> (bytes option \<times> bytes option) option" where
  "crypto_ec_point_to_bin L e point =
     (let len = BN_num_bytes L (ec_prime e)
      in if \<not> BN_new_ok L then None
         else do {
           (x, y) \<leftarrow> EC_POINT_get_affine_coordinates_GFp L (ec_group e) point;
           Some (crypto_bignum_to_bin L x len len, crypto_bignum_to_bin L y len len) })"

definition crypto_ec_point_from_bin :: "('g, 'q) openssl \<Rightarrow> 'g crypto_ec \<Rightarrow> bytes \<Rightarrow> 'q option" where
  "crypto_ec_point_from_bin L e val =
     (let len = BN_num_bytes L (ec_prime e)
      in do {
        x \<leftarrow> BN_bin2bn L (take len val);
        y \<leftarrow> BN_bin2bn L (take len (drop len val));
        elem \<leftarrow> EC_POINT_new L (ec_group e);
        EC_POINT_set_affine_coordinates_GFp L (ec_group e) x y })"

definition crypto_ec_point_add :: "('g, 'q) openssl \<Rightarrow> 'g crypto_ec \<Rightarrow> 'q \<Rightarrow> 'q \<Rightarrow> 'q option" where
  "crypto_ec_point_add L e a b = EC_POINT_add L (ec_group e) a b"

definition crypto_ec_point_mul :: "('g, 'q) openssl \<Rightarrow> 'g crypto_ec \<Rightarrow> 'q \<Rightarrow> nat \<Rightarrow> 'q option" where
  "crypto_ec_point_mul L e p b = EC_POINT_mul L (ec_group e) p b"

definition crypto_ec_point_invert :: "('g, 'q) openssl \<Rightarrow> 'g crypto_ec \<Rightarrow> 'q \<Rightarrow> 'q option" where
  "crypto_ec_point_invert L e p = EC_POINT_invert L (ec_group e) p"

definition crypto_ec_point_solve_y_coord ::
  "('g, 'q) openssl \<Rightarrow> 'g crypto_ec \<Rightarrow> nat \<Rightarrow> int \<Rightarrow> 'q option" where
  "crypto_ec_point_solve_y_coord L e x y_bit = do {
     p \<leftarrow> EC_POINT_set_compressed_coordinates_GFp L (ec_group e) x y_bit;
     (if EC_POINT_is_on_curve L (ec_group e) p = 0 then None else Some p) }"

definition crypto_ec_point_compute_y_sqr :: "('g, 'q) openssl \<Rightarrow> 'g crypto_ec \<Rightarrow> nat \<Rightarrow> nat option" where
  "crypto_ec_point_compute_y_sqr L e x =
     (if \<not> BN_new_ok L then None
      else do {
        t \<leftarrow> BN_mod_sqr L x (ec_prime e);
        t \<leftarrow> BN_mod_mul L t x (ec_prime e);
        t2 \<leftarrow> BN_mod_mul L (ec_a e) x (ec_prime e);
        t2 \<leftarrow> BN_mod_add_quick L t2 t (ec_prime e);
        BN_mod_add_quick L t2 (ec_b e) (ec_prime e) })"

definition crypto_ec_point_is_at_infinity :: "('g, 'q) openssl \<Rightarrow> 'g crypto_ec \<Rightarrow> 'q \<Rightarrow> bool" where
  "crypto_ec_point_is_at_infinity L e p = EC_POINT_is_at_infinity L (ec_group e) p"

definition crypto_ec_point_is_on_curve :: "('g, 'q) openssl \<Rightarrow> 'g crypto_ec \<Rightarrow> 'q \<Rightarrow> bool" where
  "crypto_ec_point_is_on_curve L e p \<longleftrightarrow> EC_POINT_is_on_curve L (ec_group e) p = 1"

definition crypto_ec_point_cmp :: "('g, 'q) openssl \<Rightarrow> 'g crypto_ec \<Rightarrow> 'q \<Rightarrow> 'q \<Rightarrow> int" where
  "crypto_ec_point_cmp L e a b = EC_POINT_cmp L (ec_group e) a b"

subsection \<open>What the program relies on\<close>

text \<open>The documented behaviour of the big number functions when memory does not run out.\<close>

locale openssl_bn =
  fixes L :: "('g, 'q) openssl"
  assumes alloc: "os_zalloc_ok L" "os_malloc_ok L n" "BN_new_ok L" "BN_CTX_new_ok L"
    and bin2bn: "BN_bin2bn L bs = Some (be_val bs)"
    and bits_upper: "a < 2 ^ BN_num_bits L a"
    and bits_lower: "0 < a \<Longrightarrow> 2 ^ (BN_num_bits L a - 1) \<le> a"
    and bits_zero: "BN_num_bits L 0 = 0"
    and bn2bin: "length (BN_bn2bin L a) = (BN_num_bits L a + 7) div 8" "be_val (BN_bn2bin L a) = a"
    and add: "BN_add L a b = Some (a + b)"
    and sub: "b \<le> a \<Longrightarrow> BN_sub L a b = Some (a - b)"
    and mod_law: "0 < m \<Longrightarrow> BN_mod L a m = Some (a mod m)"
    and div_law: "0 < m \<Longrightarrow> BN_div L a m = Some (a div m)"
    and mod_exp: "1 < m \<Longrightarrow> BN_mod_exp L a k m = Some (a ^ k mod m)"
    and mod_mul: "1 < m \<Longrightarrow> BN_mod_mul L a b m = Some (a * b mod m)"
    and mod_sqr: "1 < m \<Longrightarrow> BN_mod_sqr L a m = Some (a * a mod m)"
    and mod_add_quick: "a < m \<Longrightarrow> b < m \<Longrightarrow> BN_mod_add_quick L a b m = Some ((a + b) mod m)"
    and rshift1: "BN_rshift1 L a = Some (a div 2)"
    and cmp: "BN_cmp L a b = (if a < b then - 1 else if a = b then 0 else 1)"
    and inverse: "1 < m \<Longrightarrow> a * c mod m = 1 \<Longrightarrow>
      \<exists>y. BN_mod_inverse L a m = Some y \<and> y < m \<and> a * y mod m = 1"
begin

lemmas bn_ops =
  crypto_bignum_init_def crypto_bignum_init_set_def crypto_bignum_add_def crypto_bignum_mod_def
  crypto_bignum_exptmod_def crypto_bignum_sub_def crypto_bignum_div_def crypto_bignum_mulmod_def
  crypto_bignum_cmp_def crypto_bignum_is_zero_def crypto_bignum_is_one_def
  alloc bin2bn add sub mod_law div_law mod_exp mod_mul cmp

lemma num_bytes_le: "BN_num_bytes L a \<le> n \<longleftrightarrow> a < 256 ^ n"
proof -
  have 256: "(256 :: nat) ^ n = 2 ^ (8 * n)" by (simp add: power_mult)
  have "BN_num_bits L a \<le> 8 * n \<longleftrightarrow> a < 2 ^ (8 * n)"
  proof (cases "a = 0")
    case False
    then have lo: "2 ^ (BN_num_bits L a - 1) \<le> a" using bits_lower by simp
    show ?thesis
    proof
      assume "BN_num_bits L a \<le> 8 * n"
      then have "(2 :: nat) ^ BN_num_bits L a \<le> 2 ^ (8 * n)" by (intro power_increasing) simp_all
      with bits_upper [of a] show "a < 2 ^ (8 * n)" by (rule less_le_trans)
    next
      assume "a < 2 ^ (8 * n)"
      with lo have "(2 :: nat) ^ (BN_num_bits L a - 1) < 2 ^ (8 * n)" by (rule le_less_trans)
      then have "BN_num_bits L a - 1 < 8 * n" by (rule power_less_imp_less_exp [rotated]) simp
      then show "BN_num_bits L a \<le> 8 * n" by simp
    qed
  qed (simp add: bits_zero)
  then show ?thesis unfolding BN_num_bytes_def 256 by linarith
qed

text \<open>Writing a number that fits into a field of \<open>n\<close> octets fills exactly the field.\<close>

lemma to_bin:
  assumes "a < 256 ^ n" and "n \<le> m"
  shows "crypto_bignum_to_bin L a m n = Some (be_bytes n a)"
proof -
  have le: "BN_num_bytes L a \<le> n" using assms num_bytes_le by blast
  have "be_bytes n a = replicate (n - BN_num_bytes L a) 0 @ BN_bn2bin L a"
    by (rule be_bytes_eqI) (use le in \<open>simp_all add: bn2bin BN_num_bytes_def be_val_append\<close>)
  then show ?thesis using le assms(2) by (auto simp: crypto_bignum_to_bin_def Let_def)
qed

lemma to_bin_overflow: "256 ^ m \<le> a \<Longrightarrow> crypto_bignum_to_bin L a m n = None"
  using num_bytes_le [of a m] by (auto simp: crypto_bignum_to_bin_def Let_def not_less)

lemma legendre:
  assumes "1 < p"
  shows "crypto_bignum_legendre L a p =
    (let t = a ^ ((p - 1) div 2) mod p in if t = 1 then 1 else if t = 0 then 0 else - 1)"
  using assms by (simp add: crypto_bignum_legendre_def alloc sub rshift1 mod_exp Let_def)

lemma inverse_unique:
  assumes "1 < p" and "a * c mod p = 1"
  shows "crypto_bignum_inverse L a p = Some (c mod p)"
proof -
  from inverse [OF assms] obtain y where y: "BN_mod_inverse L a p = Some y" "y < p" "a * y mod p = 1"
    by blast
  have "c mod p = (c * (a * y)) mod p" by (metis y(3) mod_mult_right_eq mult.right_neutral)
  also have "c * (a * y) = (a * c) * y" by simp
  also have "\<dots> mod p = (a * c mod p) * y mod p" by (simp only: mod_mult_left_eq)
  also have "\<dots> = y" using y assms by simp
  finally show ?thesis using y(1) by (simp add: crypto_bignum_inverse_def alloc)
qed

end

subsection \<open>A reference implementation of the big number functions\<close>

text \<open>Schoolbook arithmetic satisfies the contract.  It has no curves, so \<^verbatim>\<open>crypto_ec_init\<close> on it
  fails and the finite field groups are the ones that a party using it can select.\<close>

fun bit_len :: "nat \<Rightarrow> nat" where
  "bit_len n = (if n = 0 then 0 else Suc (bit_len (n div 2)))"

declare bit_len.simps [simp del]

lemma bit_len_upper: "n < 2 ^ bit_len n"
proof (induction n rule: bit_len.induct)
  case (1 n)
  then show ?case by (cases "n = 0") (simp_all add: bit_len.simps [of n])
qed

lemma bit_len_lower: "0 < n \<Longrightarrow> 2 ^ (bit_len n - 1) \<le> n"
proof (induction n rule: bit_len.induct)
  case (1 n)
  show ?case
  proof (cases "n div 2 = 0")
    case True
    with 1 have "n = 1" by simp
    then show ?thesis by (simp add: bit_len.simps)
  next
    case False
    then have pos: "bit_len (n div 2) \<noteq> 0" by (simp add: bit_len.simps)
    have "2 ^ (bit_len (n div 2) - 1) \<le> n div 2" using 1 False by simp
    with pos have "2 ^ bit_len (n div 2) \<le> n"
      by (cases "bit_len (n div 2)") auto
    with 1 show ?thesis by (simp add: bit_len.simps [of n])
  qed
qed

definition ref_bn :: "('g, 'q) openssl" where
  "ref_bn = \<lparr>
     os_zalloc_ok = True, os_malloc_ok = \<lambda>_. True, BN_new_ok = True, BN_CTX_new_ok = True,
     BN_bin2bn = \<lambda>bs. Some (be_val bs),
     BN_bn2bin = \<lambda>a. be_bytes ((bit_len a + 7) div 8) a,
     BN_num_bits = bit_len,
     BN_add = \<lambda>a b. Some (a + b),
     BN_sub = \<lambda>a b. if b \<le> a then Some (a - b) else None,
     BN_mod = \<lambda>a m. if m = 0 then None else Some (a mod m),
     BN_div = \<lambda>a m. if m = 0 then None else Some (a div m),
     BN_mod_exp = \<lambda>a k m. if m = 0 then None else Some (a ^ k mod m),
     BN_mod_mul = \<lambda>a b m. if m = 0 then None else Some (a * b mod m),
     BN_mod_sqr = \<lambda>a m. if m = 0 then None else Some (a * a mod m),
     BN_mod_add_quick = \<lambda>a b m. if m = 0 then None else Some ((a + b) mod m),
     BN_mod_inverse = \<lambda>a m. find (\<lambda>y. a * y mod m = 1) [0..<m],
     BN_rshift1 = \<lambda>a. Some (a div 2),
     BN_cmp = \<lambda>a b. if a < b then - 1 else if a = b then 0 else 1,
     EC_GROUP_new_by_curve_name = \<lambda>_. None,
     EC_GROUP_get_curve_GFp = \<lambda>_. None,
     EC_GROUP_get_order = \<lambda>_. None,
     EC_POINT_new = \<lambda>_. None,
     EC_POINT_get_affine_coordinates_GFp = \<lambda>_ _. None,
     EC_POINT_set_affine_coordinates_GFp = \<lambda>_ _ _. None,
     EC_POINT_set_compressed_coordinates_GFp = \<lambda>_ _ _. None,
     EC_POINT_add = \<lambda>_ _ _. None,
     EC_POINT_mul = \<lambda>_ _ _. None,
     EC_POINT_invert = \<lambda>_ _. None,
     EC_POINT_is_at_infinity = \<lambda>_ _. False,
     EC_POINT_is_on_curve = \<lambda>_ _. 0,
     EC_POINT_cmp = \<lambda>_ _ _. 0\<rparr>"

abbreviation ref_openssl :: "(unit, unit) openssl" where
  "ref_openssl \<equiv> ref_bn"

lemmas ref_openssl_def = ref_bn_def

lemma ref_inverse:
  assumes "1 < m" and "a * c mod m = 1"
  shows "\<exists>y. find (\<lambda>y. a * y mod m = 1) [0..<m] = Some y \<and> y < m \<and> a * y mod m = 1"
proof -
  have "a * (c mod m) mod m = 1" using assms by (simp add: mod_mult_right_eq)
  moreover have "c mod m \<in> set [0..<m]" using assms by simp
  ultimately obtain y where "find (\<lambda>y. a * y mod m = 1) [0..<m] = Some y"
    by (cases "find (\<lambda>y. a * y mod m = 1) [0..<m]") (auto simp: find_None_iff simp del: set_upt)
  moreover from this have "y < m \<and> a * y mod m = 1" by (auto simp: find_Some_iff)
  ultimately show ?thesis by blast
qed

lemma ref_bn2bin: "be_val (be_bytes ((bit_len a + 7) div 8) a) = a"
proof (rule be_val_be_bytes)
  have "bit_len a \<le> 8 * ((bit_len a + 7) div 8)" by linarith
  then have "(2 :: nat) ^ bit_len a \<le> 2 ^ (8 * ((bit_len a + 7) div 8))"
    by (intro power_increasing) simp_all
  with bit_len_upper [of a] show "a < 256 ^ ((bit_len a + 7) div 8)" by (simp add: power_mult)
qed

interpretation ref: openssl_bn ref_openssl
  by unfold_locales
    (simp_all add: ref_openssl_def bit_len_upper bit_len_lower [simplified] ref_inverse [simplified]
       bit_len.simps [of 0] ref_bn2bin)

subsection \<open>A reference curve\<close>

text \<open>The curve y^2 = x^3 + 3 modulo 7, which has 13 points.  A point is the index \<open>k\<close> of the
  multiple of (1, 2) that it is; the table holds the coordinates for \<open>k\<close> from 1.\<close>

definition ref_points :: "(nat \<times> nat) list" where
  "ref_points = [(1, 2), (6, 3), (2, 2), (4, 5), (3, 3), (5, 3), (5, 4), (3, 4), (4, 2), (2, 5), (6, 4), (1, 5)]"

definition ref_point_find :: "(nat \<times> nat \<Rightarrow> bool) \<Rightarrow> nat option" where
  "ref_point_find P = find (\<lambda>k. P (ref_points ! (k - 1))) [1..<13]"

definition ref_curve :: "(unit, nat) openssl" where
  "ref_curve = ref_bn\<lparr>
     EC_GROUP_new_by_curve_name := \<lambda>_. Some (),
     EC_GROUP_get_curve_GFp := \<lambda>_. Some (7, 0, 3),
     EC_GROUP_get_order := \<lambda>_. Some 13,
     EC_POINT_new := \<lambda>_. Some 0,
     EC_POINT_get_affine_coordinates_GFp := \<lambda>_ k. if k = 0 then None else Some (ref_points ! (k - 1)),
     EC_POINT_set_affine_coordinates_GFp := \<lambda>_ x y. ref_point_find (\<lambda>c. c = (x, y)),
     EC_POINT_set_compressed_coordinates_GFp :=
       \<lambda>_ x b. ref_point_find (\<lambda>c. fst c = x \<and> odd (snd c) = (b = 1)),
     EC_POINT_add := \<lambda>_ i j. Some ((i + j) mod 13),
     EC_POINT_mul := \<lambda>_ i n. Some (n * i mod 13),
     EC_POINT_invert := \<lambda>_ i. Some ((13 - i) mod 13),
     EC_POINT_is_at_infinity := \<lambda>_ i. i = 0,
     EC_POINT_is_on_curve := \<lambda>_ i. if i < 13 then 1 else 0,
     EC_POINT_cmp := \<lambda>_ i j. if i = j then 0 else 1\<rparr>"

definition ref_ec :: "unit crypto_ec" where
  "ref_ec = \<lparr>ec_group = (), ec_prime = 7, ec_order = 13, ec_a = 0, ec_b = 3\<rparr>"

lemma ref_curve_init: "crypto_ec_init ref_curve 19 = Some ref_ec"
  by (simp add: crypto_ec_init_def ec_nid_def ref_curve_def ref_openssl_def ref_ec_def)

interpretation ref_curve: openssl_bn ref_curve
  by unfold_locales
    (simp_all add: ref_curve_def ref_openssl_def bit_len_upper bit_len_lower [simplified]
       ref_inverse [simplified] bit_len.simps [of 0] ref_bn2bin)

end
