(* ===== verification/DhGroups.thy ===== *)
theory DhGroups
  imports CryptoOpenssl Wpabuf
begin

text \<open>
  The Diffie-Hellman groups of \<^verbatim>\<open>src/crypto/dh_groups.c\<close> and the plain Diffie-Hellman exchange
  built on them (\<^verbatim>\<open>dh_init\<close>, \<^verbatim>\<open>dh_derive_shared\<close>, with \<^verbatim>\<open>crypto_dh_init\<close>,
  \<^verbatim>\<open>crypto_dh_derive_secret\<close> and \<^verbatim>\<open>crypto_mod_exp\<close> of \<^verbatim>\<open>src/crypto/crypto_openssl.c\<close>).
  A table of the C file is written row by row, eight octets of it as one hexadecimal number.  \<open>dh_groups all\<close> is the array with \<open>all\<close> telling whether the build defines
  \<^verbatim>\<open>ALL_DH_GROUPS\<close>.
\<close>

subsection \<open>The tables\<close>

text \<open>A row of eight octets of a C initialiser is one hexadecimal number.\<close>

definition be_rows :: "nat list \<Rightarrow> bytes" where
  "be_rows xs = concat (map (be_bytes 8) xs)"

definition dh_group1_generator :: bytes where
  "dh_group1_generator = be_bytes 1 0x02"

definition dh_group1_prime :: bytes where
  "dh_group1_prime = be_rows [
    0xFFFFFFFFFFFFFFFF, 0xC90FDAA22168C234, 0xC4C6628B80DC1CD1, 0x29024E088A67CC74,
    0x020BBEA63B139B22, 0x514A08798E3404DD, 0xEF9519B3CD3A431B, 0x302B0A6DF25F1437,
    0x4FE1356D6D51C245, 0xE485B576625E7EC6, 0xF44C42E9A63A3620, 0xFFFFFFFFFFFFFFFF]"

definition dh_group1_order :: bytes where
  "dh_group1_order = be_rows [
    0x7FFFFFFFFFFFFFFF, 0xE487ED5110B4611A, 0x62633145C06E0E68, 0x948127044533E63A,
    0x0105DF531D89CD91, 0x28A5043CC71A026E, 0xF7CA8CD9E69D218D, 0x98158536F92F8A1B,
    0xA7F09AB6B6A8E122, 0xF242DABB312F3F63, 0x7A262174D31D1B10, 0x7FFFFFFFFFFFFFFF]"

definition dh_group2_generator :: bytes where
  "dh_group2_generator = be_bytes 1 0x02"

definition dh_group2_prime :: bytes where
  "dh_group2_prime = be_rows [
    0xFFFFFFFFFFFFFFFF, 0xC90FDAA22168C234, 0xC4C6628B80DC1CD1, 0x29024E088A67CC74,
    0x020BBEA63B139B22, 0x514A08798E3404DD, 0xEF9519B3CD3A431B, 0x302B0A6DF25F1437,
    0x4FE1356D6D51C245, 0xE485B576625E7EC6, 0xF44C42E9A637ED6B, 0x0BFF5CB6F406B7ED,
    0xEE386BFB5A899FA5, 0xAE9F24117C4B1FE6, 0x49286651ECE65381, 0xFFFFFFFFFFFFFFFF]"

definition dh_group2_order :: bytes where
  "dh_group2_order = be_rows [
    0x7FFFFFFFFFFFFFFF, 0xE487ED5110B4611A, 0x62633145C06E0E68, 0x948127044533E63A,
    0x0105DF531D89CD91, 0x28A5043CC71A026E, 0xF7CA8CD9E69D218D, 0x98158536F92F8A1B,
    0xA7F09AB6B6A8E122, 0xF242DABB312F3F63, 0x7A262174D31BF6B5, 0x85FFAE5B7A035BF6,
    0xF71C35FDAD44CFD2, 0xD74F9208BE258FF3, 0x24943328F67329C0, 0xFFFFFFFFFFFFFFFF]"

definition dh_group5_generator :: bytes where
  "dh_group5_generator = be_bytes 1 0x02"

definition dh_group5_prime :: bytes where
  "dh_group5_prime = be_rows [
    0xFFFFFFFFFFFFFFFF, 0xC90FDAA22168C234, 0xC4C6628B80DC1CD1, 0x29024E088A67CC74,
    0x020BBEA63B139B22, 0x514A08798E3404DD, 0xEF9519B3CD3A431B, 0x302B0A6DF25F1437,
    0x4FE1356D6D51C245, 0xE485B576625E7EC6, 0xF44C42E9A637ED6B, 0x0BFF5CB6F406B7ED,
    0xEE386BFB5A899FA5, 0xAE9F24117C4B1FE6, 0x49286651ECE45B3D, 0xC2007CB8A163BF05,
    0x98DA48361C55D39A, 0x69163FA8FD24CF5F, 0x83655D23DCA3AD96, 0x1C62F356208552BB,
    0x9ED529077096966D, 0x670C354E4ABC9804, 0xF1746C08CA237327, 0xFFFFFFFFFFFFFFFF]"

definition dh_group5_order :: bytes where
  "dh_group5_order = be_rows [
    0x7FFFFFFFFFFFFFFF, 0xE487ED5110B4611A, 0x62633145C06E0E68, 0x948127044533E63A,
    0x0105DF531D89CD91, 0x28A5043CC71A026E, 0xF7CA8CD9E69D218D, 0x98158536F92F8A1B,
    0xA7F09AB6B6A8E122, 0xF242DABB312F3F63, 0x7A262174D31BF6B5, 0x85FFAE5B7A035BF6,
    0xF71C35FDAD44CFD2, 0xD74F9208BE258FF3, 0x24943328F6722D9E, 0xE1003E5C50B1DF82,
    0xCC6D241B0E2AE9CD, 0x348B1FD47E9267AF, 0xC1B2AE91EE51D6CB, 0x0E3179AB1042A95D,
    0xCF6A9483B84B4B36, 0xB3861AA7255E4C02, 0x78BA36046511B993, 0xFFFFFFFFFFFFFFFF]"

definition dh_group14_generator :: bytes where
  "dh_group14_generator = be_bytes 1 0x02"

definition dh_group14_prime :: bytes where
  "dh_group14_prime = be_rows [
    0xFFFFFFFFFFFFFFFF, 0xC90FDAA22168C234, 0xC4C6628B80DC1CD1, 0x29024E088A67CC74,
    0x020BBEA63B139B22, 0x514A08798E3404DD, 0xEF9519B3CD3A431B, 0x302B0A6DF25F1437,
    0x4FE1356D6D51C245, 0xE485B576625E7EC6, 0xF44C42E9A637ED6B, 0x0BFF5CB6F406B7ED,
    0xEE386BFB5A899FA5, 0xAE9F24117C4B1FE6, 0x49286651ECE45B3D, 0xC2007CB8A163BF05,
    0x98DA48361C55D39A, 0x69163FA8FD24CF5F, 0x83655D23DCA3AD96, 0x1C62F356208552BB,
    0x9ED529077096966D, 0x670C354E4ABC9804, 0xF1746C08CA18217C, 0x32905E462E36CE3B,
    0xE39E772C180E8603, 0x9B2783A2EC07A28F, 0xB5C55DF06F4C52C9, 0xDE2BCBF695581718,
    0x3995497CEA956AE5, 0x15D2261898FA0510, 0x15728E5A8AACAA68, 0xFFFFFFFFFFFFFFFF]"

definition dh_group14_order :: bytes where
  "dh_group14_order = be_rows [
    0x7FFFFFFFFFFFFFFF, 0xE487ED5110B4611A, 0x62633145C06E0E68, 0x948127044533E63A,
    0x0105DF531D89CD91, 0x28A5043CC71A026E, 0xF7CA8CD9E69D218D, 0x98158536F92F8A1B,
    0xA7F09AB6B6A8E122, 0xF242DABB312F3F63, 0x7A262174D31BF6B5, 0x85FFAE5B7A035BF6,
    0xF71C35FDAD44CFD2, 0xD74F9208BE258FF3, 0x24943328F6722D9E, 0xE1003E5C50B1DF82,
    0xCC6D241B0E2AE9CD, 0x348B1FD47E9267AF, 0xC1B2AE91EE51D6CB, 0x0E3179AB1042A95D,
    0xCF6A9483B84B4B36, 0xB3861AA7255E4C02, 0x78BA3604650C10BE, 0x19482F23171B671D,
    0xF1CF3B960C074301, 0xCD93C1D17603D147, 0xDAE2AEF837A62964, 0xEF15E5FB4AAC0B8C,
    0x1CCAA4BE754AB572, 0x8AE9130C4C7D0288, 0x0AB9472D45565534, 0x7FFFFFFFFFFFFFFF]"

definition dh_group15_generator :: bytes where
  "dh_group15_generator = be_bytes 1 0x02"

definition dh_group15_prime :: bytes where
  "dh_group15_prime = be_rows [
    0xFFFFFFFFFFFFFFFF, 0xC90FDAA22168C234, 0xC4C6628B80DC1CD1, 0x29024E088A67CC74,
    0x020BBEA63B139B22, 0x514A08798E3404DD, 0xEF9519B3CD3A431B, 0x302B0A6DF25F1437,
    0x4FE1356D6D51C245, 0xE485B576625E7EC6, 0xF44C42E9A637ED6B, 0x0BFF5CB6F406B7ED,
    0xEE386BFB5A899FA5, 0xAE9F24117C4B1FE6, 0x49286651ECE45B3D, 0xC2007CB8A163BF05,
    0x98DA48361C55D39A, 0x69163FA8FD24CF5F, 0x83655D23DCA3AD96, 0x1C62F356208552BB,
    0x9ED529077096966D, 0x670C354E4ABC9804, 0xF1746C08CA18217C, 0x32905E462E36CE3B,
    0xE39E772C180E8603, 0x9B2783A2EC07A28F, 0xB5C55DF06F4C52C9, 0xDE2BCBF695581718,
    0x3995497CEA956AE5, 0x15D2261898FA0510, 0x15728E5A8AAAC42D, 0xAD33170D04507A33,
    0xA85521ABDF1CBA64, 0xECFB850458DBEF0A, 0x8AEA71575D060C7D, 0xB3970F85A6E1E4C7,
    0xABF5AE8CDB0933D7, 0x1E8C94E04A25619D, 0xCEE3D2261AD2EE6B, 0xF12FFA06D98A0864,
    0xD87602733EC86A64, 0x521F2B18177B200C, 0xBBE117577A615D6C, 0x770988C0BAD946E2,
    0x08E24FA074E5AB31, 0x43DB5BFCE0FD108E, 0x4B82D120A93AD2CA, 0xFFFFFFFFFFFFFFFF]"

definition dh_group15_order :: bytes where
  "dh_group15_order = be_rows [
    0x7FFFFFFFFFFFFFFF, 0xE487ED5110B4611A, 0x62633145C06E0E68, 0x948127044533E63A,
    0x0105DF531D89CD91, 0x28A5043CC71A026E, 0xF7CA8CD9E69D218D, 0x98158536F92F8A1B,
    0xA7F09AB6B6A8E122, 0xF242DABB312F3F63, 0x7A262174D31BF6B5, 0x85FFAE5B7A035BF6,
    0xF71C35FDAD44CFD2, 0xD74F9208BE258FF3, 0x24943328F6722D9E, 0xE1003E5C50B1DF82,
    0xCC6D241B0E2AE9CD, 0x348B1FD47E9267AF, 0xC1B2AE91EE51D6CB, 0x0E3179AB1042A95D,
    0xCF6A9483B84B4B36, 0xB3861AA7255E4C02, 0x78BA3604650C10BE, 0x19482F23171B671D,
    0xF1CF3B960C074301, 0xCD93C1D17603D147, 0xDAE2AEF837A62964, 0xEF15E5FB4AAC0B8C,
    0x1CCAA4BE754AB572, 0x8AE9130C4C7D0288, 0x0AB9472D45556216, 0xD6998B8682283D19,
    0xD42A90D5EF8E5D32, 0x767DC2822C6DF785, 0x457538ABAE83063E, 0xD9CB87C2D370F263,
    0xD5FAD7466D8499EB, 0x8F464A702512B0CE, 0xE771E9130D697735, 0xF897FD036CC50432,
    0x6C3B01399F643532, 0x290F958C0BBD9006, 0x5DF08BABBD30AEB6, 0x3B84C4605D6CA371,
    0x047127D03A72D598, 0xA1EDADFE707E8847, 0x25C16890549D6965, 0x7FFFFFFFFFFFFFFF]"

definition dh_group16_generator :: bytes where
  "dh_group16_generator = be_bytes 1 0x02"

definition dh_group16_prime :: bytes where
  "dh_group16_prime = be_rows [
    0xFFFFFFFFFFFFFFFF, 0xC90FDAA22168C234, 0xC4C6628B80DC1CD1, 0x29024E088A67CC74,
    0x020BBEA63B139B22, 0x514A08798E3404DD, 0xEF9519B3CD3A431B, 0x302B0A6DF25F1437,
    0x4FE1356D6D51C245, 0xE485B576625E7EC6, 0xF44C42E9A637ED6B, 0x0BFF5CB6F406B7ED,
    0xEE386BFB5A899FA5, 0xAE9F24117C4B1FE6, 0x49286651ECE45B3D, 0xC2007CB8A163BF05,
    0x98DA48361C55D39A, 0x69163FA8FD24CF5F, 0x83655D23DCA3AD96, 0x1C62F356208552BB,
    0x9ED529077096966D, 0x670C354E4ABC9804, 0xF1746C08CA18217C, 0x32905E462E36CE3B,
    0xE39E772C180E8603, 0x9B2783A2EC07A28F, 0xB5C55DF06F4C52C9, 0xDE2BCBF695581718,
    0x3995497CEA956AE5, 0x15D2261898FA0510, 0x15728E5A8AAAC42D, 0xAD33170D04507A33,
    0xA85521ABDF1CBA64, 0xECFB850458DBEF0A, 0x8AEA71575D060C7D, 0xB3970F85A6E1E4C7,
    0xABF5AE8CDB0933D7, 0x1E8C94E04A25619D, 0xCEE3D2261AD2EE6B, 0xF12FFA06D98A0864,
    0xD87602733EC86A64, 0x521F2B18177B200C, 0xBBE117577A615D6C, 0x770988C0BAD946E2,
    0x08E24FA074E5AB31, 0x43DB5BFCE0FD108E, 0x4B82D120A9210801, 0x1A723C12A787E6D7,
    0x88719A10BDBA5B26, 0x99C327186AF4E23C, 0x1A946834B6150BDA, 0x2583E9CA2AD44CE8,
    0xDBBBC2DB04DE8EF9, 0x2E8EFC141FBECAA6, 0x287C59474E6BC05D, 0x99B2964FA090C3A2,
    0x233BA186515BE7ED, 0x1F612970CEE2D7AF, 0xB81BDD762170481C, 0xD0069127D5B05AA9,
    0x93B4EA988D8FDDC1, 0x86FFB7DC90A6C08F, 0x4DF435C934063199, 0xFFFFFFFFFFFFFFFF]"

definition dh_group16_order :: bytes where
  "dh_group16_order = be_rows [
    0x7FFFFFFFFFFFFFFF, 0xE487ED5110B4611A, 0x62633145C06E0E68, 0x948127044533E63A,
    0x0105DF531D89CD91, 0x28A5043CC71A026E, 0xF7CA8CD9E69D218D, 0x98158536F92F8A1B,
    0xA7F09AB6B6A8E122, 0xF242DABB312F3F63, 0x7A262174D31BF6B5, 0x85FFAE5B7A035BF6,
    0xF71C35FDAD44CFD2, 0xD74F9208BE258FF3, 0x24943328F6722D9E, 0xE1003E5C50B1DF82,
    0xCC6D241B0E2AE9CD, 0x348B1FD47E9267AF, 0xC1B2AE91EE51D6CB, 0x0E3179AB1042A95D,
    0xCF6A9483B84B4B36, 0xB3861AA7255E4C02, 0x78BA3604650C10BE, 0x19482F23171B671D,
    0xF1CF3B960C074301, 0xCD93C1D17603D147, 0xDAE2AEF837A62964, 0xEF15E5FB4AAC0B8C,
    0x1CCAA4BE754AB572, 0x8AE9130C4C7D0288, 0x0AB9472D45556216, 0xD6998B8682283D19,
    0xD42A90D5EF8E5D32, 0x767DC2822C6DF785, 0x457538ABAE83063E, 0xD9CB87C2D370F263,
    0xD5FAD7466D8499EB, 0x8F464A702512B0CE, 0xE771E9130D697735, 0xF897FD036CC50432,
    0x6C3B01399F643532, 0x290F958C0BBD9006, 0x5DF08BABBD30AEB6, 0x3B84C4605D6CA371,
    0x047127D03A72D598, 0xA1EDADFE707E8847, 0x25C1689054908400, 0x8D391E0953C3F36B,
    0xC438CD085EDD2D93, 0x4CE1938C357A711E, 0x0D4A341A5B0A85ED, 0x12C1F4E5156A2674,
    0x6DDDE16D826F477C, 0x97477E0A0FDF6553, 0x143E2CA3A735E02E, 0xCCD94B27D04861D1,
    0x119DD0C328ADF3F6, 0x8FB094B867716BD7, 0xDC0DEEBB10B8240E, 0x68034893EAD82D54,
    0xC9DA754C46C7EEE0, 0xC37FDBEE48536047, 0xA6FA1AE49A0318CC, 0xFFFFFFFFFFFFFFFF]"

definition dh_group17_generator :: bytes where
  "dh_group17_generator = be_bytes 1 0x02"

definition dh_group17_prime :: bytes where
  "dh_group17_prime = be_rows [
    0xFFFFFFFFFFFFFFFF, 0xC90FDAA22168C234, 0xC4C6628B80DC1CD1, 0x29024E088A67CC74,
    0x020BBEA63B139B22, 0x514A08798E3404DD, 0xEF9519B3CD3A431B, 0x302B0A6DF25F1437,
    0x4FE1356D6D51C245, 0xE485B576625E7EC6, 0xF44C42E9A637ED6B, 0x0BFF5CB6F406B7ED,
    0xEE386BFB5A899FA5, 0xAE9F24117C4B1FE6, 0x49286651ECE45B3D, 0xC2007CB8A163BF05,
    0x98DA48361C55D39A, 0x69163FA8FD24CF5F, 0x83655D23DCA3AD96, 0x1C62F356208552BB,
    0x9ED529077096966D, 0x670C354E4ABC9804, 0xF1746C08CA18217C, 0x32905E462E36CE3B,
    0xE39E772C180E8603, 0x9B2783A2EC07A28F, 0xB5C55DF06F4C52C9, 0xDE2BCBF695581718,
    0x3995497CEA956AE5, 0x15D2261898FA0510, 0x15728E5A8AAAC42D, 0xAD33170D04507A33,
    0xA85521ABDF1CBA64, 0xECFB850458DBEF0A, 0x8AEA71575D060C7D, 0xB3970F85A6E1E4C7,
    0xABF5AE8CDB0933D7, 0x1E8C94E04A25619D, 0xCEE3D2261AD2EE6B, 0xF12FFA06D98A0864,
    0xD87602733EC86A64, 0x521F2B18177B200C, 0xBBE117577A615D6C, 0x770988C0BAD946E2,
    0x08E24FA074E5AB31, 0x43DB5BFCE0FD108E, 0x4B82D120A9210801, 0x1A723C12A787E6D7,
    0x88719A10BDBA5B26, 0x99C327186AF4E23C, 0x1A946834B6150BDA, 0x2583E9CA2AD44CE8,
    0xDBBBC2DB04DE8EF9, 0x2E8EFC141FBECAA6, 0x287C59474E6BC05D, 0x99B2964FA090C3A2,
    0x233BA186515BE7ED, 0x1F612970CEE2D7AF, 0xB81BDD762170481C, 0xD0069127D5B05AA9,
    0x93B4EA988D8FDDC1, 0x86FFB7DC90A6C08F, 0x4DF435C934028492, 0x36C3FAB4D27C7026,
    0xC1D4DCB2602646DE, 0xC9751E763DBA37BD, 0xF8FF9406AD9E530E, 0xE5DB382F413001AE,
    0xB06A53ED9027D831, 0x179727B0865A8918, 0xDA3EDBEBCF9B14ED, 0x44CE6CBACED4BB1B,
    0xDB7F1447E6CC254B, 0x332051512BD7AF42, 0x6FB8F401378CD2BF, 0x5983CA01C64B92EC,
    0xF032EA15D1721D03, 0xF482D7CE6E74FEF6, 0xD55E702F46980C82, 0xB5A84031900B1C9E,
    0x59E7C97FBEC7E8F3, 0x23A97A7E36CC88BE, 0x0F1D45B7FF585AC5, 0x4BD407B22B4154AA,
    0xCC8F6D7EBF48E1D8, 0x14CC5ED20F8037E0, 0xA79715EEF29BE328, 0x06A1D58BB7C5DA76,
    0xF550AA3D8A1FBFF0, 0xEB19CCB1A313D55C, 0xDA56C9EC2EF29632, 0x387FE8D76E3C0468,
    0x043E8F663F4860EE, 0x12BF2D5B0B7474D6, 0xE694F91E6DCC4024, 0xFFFFFFFFFFFFFFFF]"

definition dh_group17_order :: bytes where
  "dh_group17_order = be_rows [
    0x7FFFFFFFFFFFFFFF, 0xE487ED5110B4611A, 0x62633145C06E0E68, 0x948127044533E63A,
    0x0105DF531D89CD91, 0x28A5043CC71A026E, 0xF7CA8CD9E69D218D, 0x98158536F92F8A1B,
    0xA7F09AB6B6A8E122, 0xF242DABB312F3F63, 0x7A262174D31BF6B5, 0x85FFAE5B7A035BF6,
    0xF71C35FDAD44CFD2, 0xD74F9208BE258FF3, 0x24943328F6722D9E, 0xE1003E5C50B1DF82,
    0xCC6D241B0E2AE9CD, 0x348B1FD47E9267AF, 0xC1B2AE91EE51D6CB, 0x0E3179AB1042A95D,
    0xCF6A9483B84B4B36, 0xB3861AA7255E4C02, 0x78BA3604650C10BE, 0x19482F23171B671D,
    0xF1CF3B960C074301, 0xCD93C1D17603D147, 0xDAE2AEF837A62964, 0xEF15E5FB4AAC0B8C,
    0x1CCAA4BE754AB572, 0x8AE9130C4C7D0288, 0x0AB9472D45556216, 0xD6998B8682283D19,
    0xD42A90D5EF8E5D32, 0x767DC2822C6DF785, 0x457538ABAE83063E, 0xD9CB87C2D370F263,
    0xD5FAD7466D8499EB, 0x8F464A702512B0CE, 0xE771E9130D697735, 0xF897FD036CC50432,
    0x6C3B01399F643532, 0x290F958C0BBD9006, 0x5DF08BABBD30AEB6, 0x3B84C4605D6CA371,
    0x047127D03A72D598, 0xA1EDADFE707E8847, 0x25C1689054908400, 0x8D391E0953C3F36B,
    0xC438CD085EDD2D93, 0x4CE1938C357A711E, 0x0D4A341A5B0A85ED, 0x12C1F4E5156A2674,
    0x6DDDE16D826F477C, 0x97477E0A0FDF6553, 0x143E2CA3A735E02E, 0xCCD94B27D04861D1,
    0x119DD0C328ADF3F6, 0x8FB094B867716BD7, 0xDC0DEEBB10B8240E, 0x68034893EAD82D54,
    0xC9DA754C46C7EEE0, 0xC37FDBEE48536047, 0xA6FA1AE49A014249, 0x1B61FD5A693E3813,
    0x60EA6E593013236F, 0x64BA8F3B1EDD1BDE, 0xFC7FCA0356CF2987, 0x72ED9C17A09800D7,
    0x583529F6C813EC18, 0x8BCB93D8432D448C, 0x6D1F6DF5E7CD8A76, 0xA267365D676A5D8D,
    0xEDBF8A23F36612A5, 0x999028A895EBD7A1, 0x37DC7A009BC6695F, 0xACC1E500E325C976,
    0x7819750AE8B90E81, 0xFA416BE7373A7F7B, 0x6AAF3817A34C0641, 0x5AD42018C8058E4F,
    0x2CF3E4BFDF63F479, 0x91D4BD3F1B66445F, 0x078EA2DBFFAC2D62, 0xA5EA03D915A0AA55,
    0x6647B6BF5FA470EC, 0x0A662F6907C01BF0, 0x53CB8AF7794DF194, 0x0350EAC5DBE2ED3B,
    0x7AA8551EC50FDFF8, 0x758CE658D189EAAE, 0x6D2B64F617794B19, 0x1C3FF46BB71E0234,
    0x021F47B31FA43077, 0x095F96AD85BA3A6B, 0x734A7C8F36E62012, 0x7FFFFFFFFFFFFFFF]"

definition dh_group18_generator :: bytes where
  "dh_group18_generator = be_bytes 1 0x02"

definition dh_group18_prime :: bytes where
  "dh_group18_prime = be_rows [
    0xFFFFFFFFFFFFFFFF, 0xC90FDAA22168C234, 0xC4C6628B80DC1CD1, 0x29024E088A67CC74,
    0x020BBEA63B139B22, 0x514A08798E3404DD, 0xEF9519B3CD3A431B, 0x302B0A6DF25F1437,
    0x4FE1356D6D51C245, 0xE485B576625E7EC6, 0xF44C42E9A637ED6B, 0x0BFF5CB6F406B7ED,
    0xEE386BFB5A899FA5, 0xAE9F24117C4B1FE6, 0x49286651ECE45B3D, 0xC2007CB8A163BF05,
    0x98DA48361C55D39A, 0x69163FA8FD24CF5F, 0x83655D23DCA3AD96, 0x1C62F356208552BB,
    0x9ED529077096966D, 0x670C354E4ABC9804, 0xF1746C08CA18217C, 0x32905E462E36CE3B,
    0xE39E772C180E8603, 0x9B2783A2EC07A28F, 0xB5C55DF06F4C52C9, 0xDE2BCBF695581718,
    0x3995497CEA956AE5, 0x15D2261898FA0510, 0x15728E5A8AAAC42D, 0xAD33170D04507A33,
    0xA85521ABDF1CBA64, 0xECFB850458DBEF0A, 0x8AEA71575D060C7D, 0xB3970F85A6E1E4C7,
    0xABF5AE8CDB0933D7, 0x1E8C94E04A25619D, 0xCEE3D2261AD2EE6B, 0xF12FFA06D98A0864,
    0xD87602733EC86A64, 0x521F2B18177B200C, 0xBBE117577A615D6C, 0x770988C0BAD946E2,
    0x08E24FA074E5AB31, 0x43DB5BFCE0FD108E, 0x4B82D120A9210801, 0x1A723C12A787E6D7,
    0x88719A10BDBA5B26, 0x99C327186AF4E23C, 0x1A946834B6150BDA, 0x2583E9CA2AD44CE8,
    0xDBBBC2DB04DE8EF9, 0x2E8EFC141FBECAA6, 0x287C59474E6BC05D, 0x99B2964FA090C3A2,
    0x233BA186515BE7ED, 0x1F612970CEE2D7AF, 0xB81BDD762170481C, 0xD0069127D5B05AA9,
    0x93B4EA988D8FDDC1, 0x86FFB7DC90A6C08F, 0x4DF435C934028492, 0x36C3FAB4D27C7026,
    0xC1D4DCB2602646DE, 0xC9751E763DBA37BD, 0xF8FF9406AD9E530E, 0xE5DB382F413001AE,
    0xB06A53ED9027D831, 0x179727B0865A8918, 0xDA3EDBEBCF9B14ED, 0x44CE6CBACED4BB1B,
    0xDB7F1447E6CC254B, 0x332051512BD7AF42, 0x6FB8F401378CD2BF, 0x5983CA01C64B92EC,
    0xF032EA15D1721D03, 0xF482D7CE6E74FEF6, 0xD55E702F46980C82, 0xB5A84031900B1C9E,
    0x59E7C97FBEC7E8F3, 0x23A97A7E36CC88BE, 0x0F1D45B7FF585AC5, 0x4BD407B22B4154AA,
    0xCC8F6D7EBF48E1D8, 0x14CC5ED20F8037E0, 0xA79715EEF29BE328, 0x06A1D58BB7C5DA76,
    0xF550AA3D8A1FBFF0, 0xEB19CCB1A313D55C, 0xDA56C9EC2EF29632, 0x387FE8D76E3C0468,
    0x043E8F663F4860EE, 0x12BF2D5B0B7474D6, 0xE694F91E6DBE1159, 0x74A3926F12FEE5E4,
    0x38777CB6A932DF8C, 0xD8BEC4D073B931BA, 0x3BC832B68D9DD300, 0x741FA7BF8AFC47ED,
    0x2576F6936BA42466, 0x3AAB639C5AE4F568, 0x3423B4742BF1C978, 0x238F16CBE39D652D,
    0xE3FDB8BEFC848AD9, 0x22222E04A4037C07, 0x13EB57A81A23F0C7, 0x3473FC646CEA306B,
    0x4BCBC8862F8385DD, 0xFA9D4B7FA2C087E8, 0x79683303ED5BDD3A, 0x062B3CF5B3A278A6,
    0x6D2A13F83F44F82D, 0xDF310EE074AB6A36, 0x4597E899A0255DC1, 0x64F31CC50846851D,
    0xF9AB48195DED7EA1, 0xB1D510BD7EE74D73, 0xFAF36BC31ECFA268, 0x359046F4EB879F92,
    0x4009438B481C6CD7, 0x889A002ED5EE382B, 0xC9190DA6FC026E47, 0x9558E4475677E9AA,
    0x9E3050E2765694DF, 0xC81F56E880B96E71, 0x60C980DD98EDD3DF, 0xFFFFFFFFFFFFFFFF]"

definition dh_group18_order :: bytes where
  "dh_group18_order = be_rows [
    0x7FFFFFFFFFFFFFFF, 0xE487ED5110B4611A, 0x62633145C06E0E68, 0x948127044533E63A,
    0x0105DF531D89CD91, 0x28A5043CC71A026E, 0xF7CA8CD9E69D218D, 0x98158536F92F8A1B,
    0xA7F09AB6B6A8E122, 0xF242DABB312F3F63, 0x7A262174D31BF6B5, 0x85FFAE5B7A035BF6,
    0xF71C35FDAD44CFD2, 0xD74F9208BE258FF3, 0x24943328F6722D9E, 0xE1003E5C50B1DF82,
    0xCC6D241B0E2AE9CD, 0x348B1FD47E9267AF, 0xC1B2AE91EE51D6CB, 0x0E3179AB1042A95D,
    0xCF6A9483B84B4B36, 0xB3861AA7255E4C02, 0x78BA3604650C10BE, 0x19482F23171B671D,
    0xF1CF3B960C074301, 0xCD93C1D17603D147, 0xDAE2AEF837A62964, 0xEF15E5FB4AAC0B8C,
    0x1CCAA4BE754AB572, 0x8AE9130C4C7D0288, 0x0AB9472D45556216, 0xD6998B8682283D19,
    0xD42A90D5EF8E5D32, 0x767DC2822C6DF785, 0x457538ABAE83063E, 0xD9CB87C2D370F263,
    0xD5FAD7466D8499EB, 0x8F464A702512B0CE, 0xE771E9130D697735, 0xF897FD036CC50432,
    0x6C3B01399F643532, 0x290F958C0BBD9006, 0x5DF08BABBD30AEB6, 0x3B84C4605D6CA371,
    0x047127D03A72D598, 0xA1EDADFE707E8847, 0x25C1689054908400, 0x8D391E0953C3F36B,
    0xC438CD085EDD2D93, 0x4CE1938C357A711E, 0x0D4A341A5B0A85ED, 0x12C1F4E5156A2674,
    0x6DDDE16D826F477C, 0x97477E0A0FDF6553, 0x143E2CA3A735E02E, 0xCCD94B27D04861D1,
    0x119DD0C328ADF3F6, 0x8FB094B867716BD7, 0xDC0DEEBB10B8240E, 0x68034893EAD82D54,
    0xC9DA754C46C7EEE0, 0xC37FDBEE48536047, 0xA6FA1AE49A014249, 0x1B61FD5A693E3813,
    0x60EA6E593013236F, 0x64BA8F3B1EDD1BDE, 0xFC7FCA0356CF2987, 0x72ED9C17A09800D7,
    0x583529F6C813EC18, 0x8BCB93D8432D448C, 0x6D1F6DF5E7CD8A76, 0xA267365D676A5D8D,
    0xEDBF8A23F36612A5, 0x999028A895EBD7A1, 0x37DC7A009BC6695F, 0xACC1E500E325C976,
    0x7819750AE8B90E81, 0xFA416BE7373A7F7B, 0x6AAF3817A34C0641, 0x5AD42018C8058E4F,
    0x2CF3E4BFDF63F479, 0x91D4BD3F1B66445F, 0x078EA2DBFFAC2D62, 0xA5EA03D915A0AA55,
    0x6647B6BF5FA470EC, 0x0A662F6907C01BF0, 0x53CB8AF7794DF194, 0x0350EAC5DBE2ED3B,
    0x7AA8551EC50FDFF8, 0x758CE658D189EAAE, 0x6D2B64F617794B19, 0x1C3FF46BB71E0234,
    0x021F47B31FA43077, 0x095F96AD85BA3A6B, 0x734A7C8F36DF08AC, 0xBA51C937897F72F2,
    0x1C3BBE5B54996FC6, 0x6C5F626839DC98DD, 0x1DE4195B46CEE980, 0x3A0FD3DFC57E23F6,
    0x92BB7B49B5D21233, 0x1D55B1CE2D727AB4, 0x1A11DA3A15F8E4BC, 0x11C78B65F1CEB296,
    0xF1FEDC5F7E42456C, 0x911117025201BE03, 0x89F5ABD40D11F863, 0x9A39FE3236751835,
    0xA5E5E44317C1C2EE, 0xFD4EA5BFD16043F4, 0x3CB41981F6ADEE9D, 0x03159E7AD9D13C53,
    0x369509FC1FA27C16, 0xEF9887703A55B51B, 0x22CBF44CD012AEE0, 0xB2798E628423428E,
    0xFCD5A40CAEF6BF50, 0xD8EA885EBF73A6B9, 0xFD79B5E18F67D134, 0x1AC8237A75C3CFC9,
    0x2004A1C5A40E366B, 0xC44D00176AF71C15, 0xE48C86D37E013723, 0xCAAC7223AB3BF4D5,
    0x4F1828713B2B4A6F, 0xE40FAB74405CB738, 0xB064C06ECC76E9EF, 0xFFFFFFFFFFFFFFFF]"

definition dh_group22_generator :: bytes where
  "dh_group22_generator = be_rows [
    0xA4D1CBD5C3FD3412, 0x6765A442EFB99905, 0xF8104DD258AC507F, 0xD6406CFF14266D31,
    0x266FEA1E5C41564B, 0x777E690F5504F213, 0x160217B4B01B886A, 0x5E91547F9E2749F4,
    0xD7FBD7D3B9A92EE1, 0x909D0D2263F80A76, 0xA6A24C087A091F53, 0x1DBF0A0169B6A28A,
    0xD662A4D18E73AFA3, 0x2D779D5918D08BC8, 0x858F4DCEF97C2A24, 0x855E6EEB22B3B2E5]"

definition dh_group22_prime :: bytes where
  "dh_group22_prime = be_rows [
    0xB10B8F96A080E01D, 0xDE92DE5EAE5D54EC, 0x52C99FBCFB06A3C6, 0x9A6A9DCA52D23B61,
    0x6073E28675A23D18, 0x9838EF1E2EE652C0, 0x13ECB4AEA9061123, 0x24975C3CD49B83BF,
    0xACCBDD7D90C4BD70, 0x98488E9C219A7372, 0x4EFFD6FAE5644738, 0xFAA31A4FF55BCCC0,
    0xA151AF5F0DC8B4BD, 0x45BF37DF365C1A65, 0xE68CFDA76D4DA708, 0xDF1FB2BC2E4A4371]"

definition dh_group22_order :: bytes where
  "dh_group22_order = be_bytes 20 0xF518AA8781A8DF278ABA4E7D64B7CB9D49462353"

definition dh_group23_generator :: bytes where
  "dh_group23_generator = be_rows [
    0xAC4032EF4F2D9AE3, 0x9DF30B5C8FFDAC50, 0x6CDEBE7B89998CAF, 0x74866A08CFE4FFE3,
    0xA6824A4E10B9A6F0, 0xDD921F01A70C4AFA, 0xAB739D7700C29F52, 0xC57DB17C620A8652,
    0xBE5E9001A8D66AD7, 0xC17669101999024A, 0xF4D027275AC1348B, 0xB8A762D0521BC98A,
    0xE247150422EA1ED4, 0x09939D54DA7460CD, 0xB5F6C6B250717CBE, 0xF180EB34118E98D1,
    0x19529A45D6F83456, 0x6E3025E316A330EF, 0xBB77A86F0C1AB15B, 0x051AE3D428C8F8AC,
    0xB70A8137150B8EEB, 0x10E183EDD19963DD, 0xD9E263E4770589EF, 0x6AA21E7F5F2FF381,
    0xB539CCE3409D13CD, 0x566AFBB48D6C0191, 0x81E1BCFE94B30269, 0xEDFE72FE9B6AA4BD,
    0x7B5A0F1C71CFFF4C, 0x19C418E1F6EC0179, 0x81BC087F2A7065B3, 0x84B890D3191F2BFA]"

definition dh_group23_prime :: bytes where
  "dh_group23_prime = be_rows [
    0xAD107E1E9123A9D0, 0xD660FAA79559C51F, 0xA20D64E5683B9FD1, 0xB54B1597B61D0A75,
    0xE6FA141DF95A56DB, 0xAF9A3C407BA1DF15, 0xEB3D688A309C180E, 0x1DE6B85A1274A0A6,
    0x6D3F8152AD6AC212, 0x9037C9EDEFDA4DF8, 0xD91E8FEF55B7394B, 0x7AD5B7D0B6C12207,
    0xC9F98D11ED34DBF6, 0xC6BA0B2C8BBC27BE, 0x6A00E0A0B9C49708, 0xB3BF8A3170918836,
    0x81286130BC8985DB, 0x1602E714415D9330, 0x278273C7DE31EFDC, 0x7310F7121FD5A074,
    0x15987D9ADC0A486D, 0xCDF93ACC44328387, 0x315D75E198C641A4, 0x80CD86A1B9E587E8,
    0xBE60E69CC928B2B9, 0xC52172E413042E9B, 0x23F10B0E16E79763, 0xC9B53DCF4BA80A29,
    0xE3FB73C16B8E75B9, 0x7EF363E2FFA31F71, 0xCF9DE5384E71B81C, 0x0AC4DFFE0C10E64F]"

definition dh_group23_order :: bytes where
  "dh_group23_order = be_bytes 28 0x801C0D34C58D93FE997177101F80535A4738CEBCBF389A99B36371EB"

definition dh_group24_generator :: bytes where
  "dh_group24_generator = be_rows [
    0x3FB32C9B73134D0B, 0x2E77506660EDBD48, 0x4CA7B18F21EF2054, 0x07F4793A1A0BA125,
    0x10DBC15077BE463F, 0xFF4FED4AAC0BB555, 0xBE3A6C1B0C6B47B1, 0xBC3773BF7E8C6F62,
    0x901228F8C28CBB18, 0xA55AE31341000A65, 0x0196F931C77A57F2, 0xDDF463E5E9EC144B,
    0x777DE62AAAB8A862, 0x8AC376D282D6ED38, 0x64E67982428EBC83, 0x1D14348F6F2F9193,
    0xB5045AF2767164E1, 0xDFC967C1FB3F2E55, 0xA4BD1BFFE83B9C80, 0xD052B985D182EA0A,
    0xDB2A3B7313D3FE14, 0xC8484B1E052588B9, 0xB7D2BBD2DF016199, 0xECD06E1557CD0915,
    0xB3353BBB64E0EC37, 0x7FD028370DF92B52, 0xC7891428CDC67EB6, 0x184B523D1DB246C3,
    0x2F63078490F00EF8, 0xD647D148D4795451, 0x5E2327CFEF98C582, 0x664B4C0F6CC41659]"

definition dh_group24_prime :: bytes where
  "dh_group24_prime = be_rows [
    0x87A8E61DB4B6663C, 0xFFBBD19C65195999, 0x8CEEF608660DD0F2, 0x5D2CEED4435E3B00,
    0xE00DF8F1D61957D4, 0xFAF7DF4561B2AA30, 0x16C3D91134096FAA, 0x3BF4296D830E9A7C,
    0x209E0C6497517ABD, 0x5A8A9D306BCF67ED, 0x91F9E6725B4758C0, 0x22E0B1EF4275BF7B,
    0x6C5BFC11D45F9088, 0xB941F54EB1E59BB8, 0xBC39A0BF12307F5C, 0x4FDB70C581B23F76,
    0xB63ACAE1CAA6B790, 0x2D52526735488A0E, 0xF13C6D9A51BFA4AB, 0x3AD8347796524D8E,
    0xF6A167B5A41825D9, 0x67E144E514056425, 0x1CCACB83E6B486F6, 0xB3CA3F7971506026,
    0xC0B857F689962856, 0xDED4010ABD0BE621, 0xC3A3960A54E710C3, 0x75F26375D7014103,
    0xA4B54330C198AF12, 0x6116D2276E11715F, 0x693877FAD7EF09CA, 0xDB094AE91E1A1597]"

definition dh_group24_order :: bytes where
  "dh_group24_order = be_rows [
    0x8CF83642A709A097, 0xB447997640129DA2, 0x99B1A47D1EB3750B, 0xA308B0FE64F5FBD3]"

subsection \<open>Group lookup\<close>

record dh_group =
  dg_id :: int
  dg_generator :: bytes
  dg_prime :: bytes
  dg_order :: bytes
  dg_safe_prime :: bool

abbreviation DH_GROUP :: "int \<Rightarrow> bytes \<Rightarrow> bytes \<Rightarrow> bytes \<Rightarrow> bool \<Rightarrow> dh_group" where
  "DH_GROUP i g p r s \<equiv> \<lparr>dg_id = i, dg_generator = g, dg_prime = p, dg_order = r, dg_safe_prime = s\<rparr>"

definition dh_groups :: "bool \<Rightarrow> dh_group list" where
  "dh_groups all =
     [DH_GROUP 5 dh_group5_generator dh_group5_prime dh_group5_order True] @
     (if all then [
        DH_GROUP 1 dh_group1_generator dh_group1_prime dh_group1_order True,
        DH_GROUP 2 dh_group2_generator dh_group2_prime dh_group2_order True,
        DH_GROUP 14 dh_group14_generator dh_group14_prime dh_group14_order True,
        DH_GROUP 15 dh_group15_generator dh_group15_prime dh_group15_order True,
        DH_GROUP 16 dh_group16_generator dh_group16_prime dh_group16_order True,
        DH_GROUP 17 dh_group17_generator dh_group17_prime dh_group17_order True,
        DH_GROUP 18 dh_group18_generator dh_group18_prime dh_group18_order True,
        DH_GROUP 22 dh_group22_generator dh_group22_prime dh_group22_order False,
        DH_GROUP 23 dh_group23_generator dh_group23_prime dh_group23_order False,
        DH_GROUP 24 dh_group24_generator dh_group24_prime dh_group24_order False] else [])"

fun dh_groups_find :: "dh_group list \<Rightarrow> int \<Rightarrow> dh_group option" where
  "dh_groups_find [] i = None"
| "dh_groups_find (g # gs) i = (if dg_id g = i then Some g else dh_groups_find gs i)"

definition dh_groups_get :: "bool \<Rightarrow> int \<Rightarrow> dh_group option" where
  "dh_groups_get all i = dh_groups_find (dh_groups all) i"

subsection \<open>What a group must satisfy\<close>

text \<open>The prime fills its octets; the order divides \<open>p - 1\<close>, and for a group marked safe it is
  \<open>(p - 1) / 2\<close>, the case in which the code squares instead of dividing.\<close>

definition dh_group_ok :: "dh_group \<Rightarrow> bool" where
  "dh_group_ok g \<longleftrightarrow>
     (let p = be_val (dg_prime g); r = be_val (dg_order g)
      in 2 < r \<and> r < p \<and> odd p \<and> r dvd p - 1 \<and> (dg_safe_prime g \<longrightarrow> p = 2 * r + 1) \<and>
         256 ^ (length (dg_prime g) - 1) \<le> p \<and> length (dg_order g) \<le> length (dg_prime g))"

subsection \<open>The Diffie-Hellman exchange\<close>

text \<open>\<^verbatim>\<open>random_get_bytes\<close> and \<^verbatim>\<open>os_get_random\<close>: the environment supplies one octet string per call; a
  missing one, or one of another length, is a failure of the generator.\<close>

fun random_get_bytes :: "nat \<Rightarrow> bytes list \<Rightarrow> bytes option \<times> bytes list" where
  "random_get_bytes len [] = (None, [])"
| "random_get_bytes len (d # ds) = (if length d = len then Some d else None, ds)"

definition crypto_mod_exp :: "('g, 'q) openssl \<Rightarrow> bytes \<Rightarrow> bytes \<Rightarrow> bytes \<Rightarrow> bytes option" where
  "crypto_mod_exp L base pow modulus =
     (if \<not> BN_CTX_new_ok L then None
      else do {
        bn_base \<leftarrow> BN_bin2bn L base;
        bn_exp \<leftarrow> BN_bin2bn L pow;
        bn_modulus \<leftarrow> BN_bin2bn L modulus;
        (if \<not> BN_new_ok L then None
         else map_option (BN_bn2bin L) (BN_mod_exp L bn_base bn_exp bn_modulus)) })"

text \<open>The private and the public value; the generator is a single octet.\<close>

definition crypto_dh_init ::
  "('g, 'q) openssl \<Rightarrow> bytes list \<Rightarrow> u8 \<Rightarrow> bytes \<Rightarrow> (bytes \<times> bytes) option" where
  "crypto_dh_init L rnd generator prime = do {
     privkey \<leftarrow> fst (random_get_bytes (length prime) rnd);
     let privkey = (if os_memcmp privkey prime > 0 then privkey[0 := 0] else privkey);
     pubkey \<leftarrow> crypto_mod_exp L [generator] privkey prime;
     let pubkey = (if length pubkey < length prime
                   then replicate (length prime - length pubkey) 0 @ pubkey else pubkey);
     Some (privkey, pubkey) }"

definition crypto_dh_derive_secret ::
  "('g, 'q) openssl \<Rightarrow> u8 \<Rightarrow> bytes \<Rightarrow> bytes \<Rightarrow> bytes \<Rightarrow> bytes option" where
  "crypto_dh_derive_secret L generator prime privkey pubkey = crypto_mod_exp L pubkey privkey prime"

text \<open>Octets stored through \<^verbatim>\<open>wpabuf_mhead\<close> of an empty buffer and then claimed with
  \<^verbatim>\<open>wpabuf_put\<close>.\<close>

definition wpabuf_fill :: "wpabuf \<Rightarrow> bytes \<Rightarrow> wpabuf run" where
  "wpabuf_fill b d = do {
     blk \<leftarrow> mem_store 0 d (wb_buf b);
     (pos, b) \<leftarrow> wpabuf_put (b\<lparr>wb_buf := blk\<rparr>) (word_of_nat (length d));
     Some b }"

text \<open>\<^verbatim>\<open>dh_init\<close>: the public value returned and the pointer left in \<^verbatim>\<open>*priv\<close>.\<close>

definition dh_init ::
  "(size_t \<Rightarrow> bool) \<Rightarrow> ('g, 'q) openssl \<Rightarrow> bytes list \<Rightarrow> dh_group option \<Rightarrow> wpabuf option \<Rightarrow>
   (wpabuf option \<times> wpabuf option) run" where
  "dh_init malloc L rnd dh priv0 =
     (case dh of
        None \<Rightarrow> Some (None, priv0)
      | Some dh \<Rightarrow>
          let len = word_of_nat (length (dg_prime dh))
          in case wpabuf_alloc malloc len of
               None \<Rightarrow> Some (None, None)
             | Some priv \<Rightarrow>
                 (case wpabuf_alloc malloc len of
                    None \<Rightarrow> Some (None, None)
                  | Some pv \<Rightarrow>
                      (case crypto_dh_init L rnd (dg_generator dh ! 0) (dg_prime dh) of
                         None \<Rightarrow> Some (None, None)
                       | Some (privkey, pubkey) \<Rightarrow> do {
                           priv \<leftarrow> wpabuf_fill priv privkey;
                           pv \<leftarrow> wpabuf_fill pv pubkey;
                           Some (Some pv, Some priv) })))"

definition dh_derive_shared ::
  "(size_t \<Rightarrow> bool) \<Rightarrow> ('g, 'q) openssl \<Rightarrow> wpabuf option \<Rightarrow> wpabuf option \<Rightarrow> dh_group option \<Rightarrow>
   wpabuf option run" where
  "dh_derive_shared malloc L peer_public own_private dh =
     (case (dh, peer_public, own_private) of
        (Some dh, Some pub, Some priv) \<Rightarrow>
          (case wpabuf_alloc malloc (word_of_nat (length (dg_prime dh))) of
             None \<Rightarrow> Some None
           | Some shared \<Rightarrow>
               (case crypto_dh_derive_secret L (dg_generator dh ! 0) (dg_prime dh)
                       (wb_contents priv) (wb_contents pub) of
                  None \<Rightarrow> Some None
                | Some secret \<Rightarrow> map_option Some (wpabuf_fill shared secret)))
      | _ \<Rightarrow> Some None)"

lemma wpabuf_fill_ok:
  assumes "wpabuf_ok b" and "wb_used b = 0" and "length d \<le> unat (wb_size b)"
  shows "\<exists>b'. wpabuf_fill b d = Some b' \<and> wb_contents b' = d \<and> wpabuf_ok b' \<and> wb_size b' = wb_size b"
proof -
  have len: "unat (word_of_nat (length d) :: size_t) = length d"
    using assms(3) unat_size_less [of "wb_size b"] by (intro unat_of_nat64) linarith
  with assms show ?thesis
    by (auto simp: wpabuf_fill_def mem_store_def wpabuf_put_def Let_def wpabuf_ok_def wb_contents_def
        word_le_nat_alt word_less_nat_alt)
qed

context openssl_bn
begin

lemma mod_exp_bytes:
  assumes "1 < be_val m"
  shows "\<exists>r. crypto_mod_exp L b e m = Some r \<and> be_val r = be_val b ^ be_val e mod be_val m \<and>
     length r \<le> length m \<and> r = BN_bn2bin L (be_val b ^ be_val e mod be_val m)"
proof -
  let ?v = "be_val b ^ be_val e mod be_val m"
  have "?v < 256 ^ length m"
    using assms be_val_less [of m] by (meson less_trans mod_less_divisor zero_less_one)
  then have "length (BN_bn2bin L ?v) \<le> length m"
    using num_bytes_le [of ?v "length m"] by (simp add: bn2bin BN_num_bytes_def)
  then show ?thesis using assms by (simp add: crypto_mod_exp_def alloc bin2bn mod_exp bn2bin)
qed

lemma dh_init_some:
  assumes "crypto_dh_init L rnd g pr = Some (sk, pk)" and "1 < be_val pr"
    and full: "256 ^ (length pr - 1) \<le> be_val pr"
  shows "be_val pk = unat g ^ be_val sk mod be_val pr \<and> length pk = length pr \<and>
     length sk = length pr \<and> be_val sk \<le> be_val pr"
proof -
  from assms(1) obtain d where d: "fst (random_get_bytes (length pr) rnd) = Some d"
    by (auto simp: crypto_dh_init_def split: Option.bind_splits)
  then have len: "length d = length pr" by (cases rnd) (auto split: if_splits)
  define sk' where "sk' = (if os_memcmp d pr > 0 then d[0 := 0] else d)"
  from mod_exp_bytes [OF assms(2), of "[g]" sk'] obtain r where
    r: "crypto_mod_exp L [g] sk' pr = Some r" "be_val r = unat g ^ be_val sk' mod be_val pr"
      "length r \<le> length pr" by auto
  from assms(1) d r have eq: "sk = sk'" "pk = replicate (length pr - length r) 0 @ r"
    by (auto simp: crypto_dh_init_def Let_def sk'_def)
  have "be_val sk' \<le> be_val pr"
  proof (cases "os_memcmp d pr > 0")
    case False
    then have "os_memcmp pr d \<ge> 0" using os_memcmp_swap [of d pr] len by auto
    then show ?thesis using os_memcmp_be_val [of pr d] len False by (simp add: sk'_def)
  next
    case True
    then obtain x xs where d': "d = x # xs" using len by (cases d; cases pr) auto
    then have "be_val sk' < 256 ^ (length pr - 1)"
      using True be_val_less [of xs] len [symmetric] by (simp add: sk'_def be_val_Cons)
    with full show ?thesis by simp
  qed
  then show ?thesis using eq r len by (simp add: be_val_append sk'_def)
qed

end


text \<open>A small group for the witnesses: 11 is the order of the squares modulo 23.\<close>

definition tiny_dh_group :: dh_group where
  "tiny_dh_group = DH_GROUP 5 [2] [23] [11] True"

lemma tiny_dh_group_ok: "dh_group_ok tiny_dh_group"
  by (simp add: dh_group_ok_def tiny_dh_group_def)

abbreviation octet_buf :: "u8 \<Rightarrow> wpabuf" where
  "octet_buf b \<equiv> \<lparr>wb_size = 1, wb_used = 1, wb_buf = [b], wb_ext_data = False\<rparr>"

lemma tiny_bit_len: "bit_len 9 = 4" "bit_len 13 = 4"
  by (simp_all add: bit_len.simps)

lemma tiny_crypto_dh_init:
  "crypto_dh_init ref_openssl [[5]] 2 [23] = Some ([5], [9])"
  "crypto_dh_init ref_openssl [[7]] 2 [23] = Some ([7], [13])"
  by (simp_all add: crypto_dh_init_def crypto_mod_exp_def ref_openssl_def tiny_bit_len)

lemma tiny_dh_init:
  assumes "crypto_dh_init ref_openssl rnd 2 [23] = Some ([x], [y])"
  shows "dh_init (\<lambda>_. True) ref_openssl rnd (Some tiny_dh_group) None =
    Some (Some (octet_buf y), Some (octet_buf x))"
  using assms
  by (simp add: dh_init_def tiny_dh_group_def wpabuf_alloc_def sizeof_wpabuf_def
      wpabuf_fill_def mem_store_def wpabuf_put_def Let_def)


end
