(* ===== verification/DhGroupsFacts.thy ===== *)
theory DhGroupsFacts
  imports DhGroups
begin

text \<open>
  The numeric facts about the tables of \<open>DhGroups\<close>: each group satisfies \<open>dh_group_ok\<close>.  That a prime of
  up to 8192 bits is twice the order plus one is checked row by row with a carry.
\<close>

subsection \<open>Numbers in rows of 64 bits\<close>

definition rows_val :: "nat list \<Rightarrow> nat" where
  "rows_val xs = foldl (\<lambda>a x. a * 2 ^ 64 + x) 0 xs"

definition rows_ok :: "nat list \<Rightarrow> bool" where
  "rows_ok xs = list_all (\<lambda>x. x < 2 ^ 64) xs"

fun rows_double :: "nat list \<Rightarrow> nat \<times> nat list" where
  "rows_double [] = (1, [])"
| "rows_double (x # xs) =
     (let (c, ys) = rows_double xs; t = 2 * x + c in (t div 2 ^ 64, t mod 2 ^ 64 # ys))"

lemma rows_val_foldl: "foldl (\<lambda>a x. a * 2 ^ 64 + x) v xs = v * 2 ^ (64 * length xs) + rows_val xs"
proof (induction xs rule: rev_induct)
  case (snoc x xs)
  then show ?case by (simp add: rows_val_def algebra_simps power_add)
qed (simp add: rows_val_def)

lemma rows_val_Cons: "rows_val (x # xs) = x * 2 ^ (64 * length xs) + rows_val xs"
  using rows_val_foldl [of x xs] by (simp add: rows_val_def)

lemma length_be_rows [simp]: "length (be_rows xs) = 8 * length xs"
  by (induction xs) (simp_all add: be_rows_def)

lemma be_val_rows: "rows_ok xs \<Longrightarrow> be_val (be_rows xs) = rows_val xs"
proof (induction xs)
  case (Cons x xs)
  have "be_val (be_bytes 8 x) = x" using Cons.prems by (intro be_val_be_bytes) (simp add: rows_ok_def)
  moreover have "(256 :: nat) ^ (8 * length xs) = 2 ^ (64 * length xs)" by (simp add: power_mult)
  ultimately show ?case
    using Cons by (simp add: be_rows_def rows_val_Cons be_val_append rows_ok_def)
      (simp add: be_rows_def [symmetric])
qed (simp add: be_rows_def rows_val_def)

lemma length_rows_double: "length (snd (rows_double xs)) = length xs"
  by (induction xs) (auto simp: Let_def split: prod.splits)

lemma rows_double_val:
  "rows_double xs = (c, ys) \<Longrightarrow> c * 2 ^ (64 * length xs) + rows_val ys = 2 * rows_val xs + 1"
proof (induction xs arbitrary: c ys)
  case (Cons x xs)
  obtain d zs where d: "rows_double xs = (d, zs)" by fastforce
  have len: "length zs = length xs" using length_rows_double [of xs] d by simp
  let ?t = "2 * x + d"
  from Cons.prems d have c: "c = ?t div 2 ^ 64" "ys = ?t mod 2 ^ 64 # zs" by (simp_all add: Let_def)
  have split: "?t = c * 2 ^ 64 + ?t mod 2 ^ 64" unfolding c(1) by simp
  have "c * 2 ^ (64 * length (x # xs)) + rows_val ys =
      (c * 2 ^ 64 + ?t mod 2 ^ 64) * 2 ^ (64 * length xs) + rows_val zs"
    by (simp add: c(2) rows_val_Cons len power_add algebra_simps)
  also have "\<dots> = 2 * x * 2 ^ (64 * length xs) + (d * 2 ^ (64 * length xs) + rows_val zs)"
    unfolding split [symmetric] by (simp add: algebra_simps)
  also have "\<dots> = 2 * rows_val (x # xs) + 1"
    unfolding Cons.IH [OF d] by (simp add: rows_val_Cons algebra_simps)
  finally show ?case .
qed (simp add: rows_val_def)

subsection \<open>The groups\<close>

text \<open>A modulus that is twice the order plus one.\<close>

lemma dh_group_ok_rows:
  assumes "pr = be_rows (a # ps)" and "q = be_rows qs" and "rows_double qs = (0, a # ps)"
    and "rows_ok (a # ps)" and "rows_ok qs" and "2 ^ 56 \<le> a" and "ps \<noteq> []"
  shows "dh_group_ok (DH_GROUP i g pr q s)"
proof -
  have p: "be_val pr = 2 * be_val q + 1"
    using rows_double_val [OF assms(3)] assms by (simp add: be_val_rows)
  have len: "length qs = Suc (length ps)" using length_rows_double [of qs] assms(3) by simp
  have "256 ^ (length pr - 1) = (2 :: nat) ^ 56 * 2 ^ (64 * length ps)"
    by (simp add: assms(1) power_add power_mult)
  also have "\<dots> \<le> a * 2 ^ (64 * length ps)" using assms(6) by simp
  also have "\<dots> \<le> be_val pr" using assms by (simp add: be_val_rows rows_val_Cons)
  finally have full: "256 ^ (length pr - 1) \<le> be_val pr" .
  have "1 \<le> length ps" using assms(7) by (cases ps) auto
  then have "(256 :: nat) ^ 8 \<le> 256 ^ (length pr - 1)"
    by (intro power_increasing) (simp_all add: assms(1))
  with full p have "2 < be_val q" by simp
  with p full show ?thesis
    by (simp add: dh_group_ok_def) (simp add: assms(1,2) len)
qed

lemma dh_group_ok_sub:
  assumes "be_val pr = p" and "be_val q = r" and "p = k * r + 1" and "2 < r" and "1 < k" and "even k"
    and "256 ^ (length pr - 1) \<le> p" and "length q \<le> length pr"
  shows "dh_group_ok (DH_GROUP i g pr q False)"
proof -
  have "r < p" unfolding assms(3) using assms(4,5) by (cases k) auto
  then show ?thesis using assms(1,2,4-) assms(3) [symmetric] by (auto simp: dh_group_ok_def assms(3))
qed

lemma dh_group22_prime_val:
  "be_val dh_group22_prime =
    0xB10B8F96A080E01DDE92DE5EAE5D54EC52C99FBCFB06A3C69A6A9DCA52D23B616073E28675A23D189838EF1E2EE652C013ECB4AEA906112324975C3CD49B83BFACCBDD7D90C4BD7098488E9C219A73724EFFD6FAE5644738FAA31A4FF55BCCC0A151AF5F0DC8B4BD45BF37DF365C1A65E68CFDA76D4DA708DF1FB2BC2E4A4371"
  unfolding dh_group22_prime_def by (subst be_val_rows) (simp_all add: rows_ok_def rows_val_def)

lemma dh_group22_order_val:
  "be_val dh_group22_order =
    0xF518AA8781A8DF278ABA4E7D64B7CB9D49462353"
  unfolding dh_group22_order_def by (rule be_val_be_bytes) simp

lemma dh_group23_prime_val:
  "be_val dh_group23_prime =
    0xAD107E1E9123A9D0D660FAA79559C51FA20D64E5683B9FD1B54B1597B61D0A75E6FA141DF95A56DBAF9A3C407BA1DF15EB3D688A309C180E1DE6B85A1274A0A66D3F8152AD6AC2129037C9EDEFDA4DF8D91E8FEF55B7394B7AD5B7D0B6C12207C9F98D11ED34DBF6C6BA0B2C8BBC27BE6A00E0A0B9C49708B3BF8A317091883681286130BC8985DB1602E714415D9330278273C7DE31EFDC7310F7121FD5A07415987D9ADC0A486DCDF93ACC44328387315D75E198C641A480CD86A1B9E587E8BE60E69CC928B2B9C52172E413042E9B23F10B0E16E79763C9B53DCF4BA80A29E3FB73C16B8E75B97EF363E2FFA31F71CF9DE5384E71B81C0AC4DFFE0C10E64F"
  unfolding dh_group23_prime_def by (subst be_val_rows) (simp_all add: rows_ok_def rows_val_def)

lemma dh_group23_order_val:
  "be_val dh_group23_order =
    0x801C0D34C58D93FE997177101F80535A4738CEBCBF389A99B36371EB"
  unfolding dh_group23_order_def by (rule be_val_be_bytes) simp

lemma dh_group24_prime_val:
  "be_val dh_group24_prime =
    0x87A8E61DB4B6663CFFBBD19C651959998CEEF608660DD0F25D2CEED4435E3B00E00DF8F1D61957D4FAF7DF4561B2AA3016C3D91134096FAA3BF4296D830E9A7C209E0C6497517ABD5A8A9D306BCF67ED91F9E6725B4758C022E0B1EF4275BF7B6C5BFC11D45F9088B941F54EB1E59BB8BC39A0BF12307F5C4FDB70C581B23F76B63ACAE1CAA6B7902D52526735488A0EF13C6D9A51BFA4AB3AD8347796524D8EF6A167B5A41825D967E144E5140564251CCACB83E6B486F6B3CA3F7971506026C0B857F689962856DED4010ABD0BE621C3A3960A54E710C375F26375D7014103A4B54330C198AF126116D2276E11715F693877FAD7EF09CADB094AE91E1A1597"
  unfolding dh_group24_prime_def by (subst be_val_rows) (simp_all add: rows_ok_def rows_val_def)

lemma dh_group24_order_val:
  "be_val dh_group24_order =
    0x8CF83642A709A097B447997640129DA299B1A47D1EB3750BA308B0FE64F5FBD3"
  unfolding dh_group24_order_def by (subst be_val_rows) (simp_all add: rows_ok_def rows_val_def)

lemma dh_group5_ok: "dh_group_ok (DH_GROUP 5 dh_group5_generator dh_group5_prime dh_group5_order True)"
  by (rule dh_group_ok_rows [OF dh_group5_prime_def dh_group5_order_def]) (simp_all add: rows_ok_def)

lemma dh_group1_ok: "dh_group_ok (DH_GROUP 1 dh_group1_generator dh_group1_prime dh_group1_order True)"
  by (rule dh_group_ok_rows [OF dh_group1_prime_def dh_group1_order_def]) (simp_all add: rows_ok_def)

lemma dh_group2_ok: "dh_group_ok (DH_GROUP 2 dh_group2_generator dh_group2_prime dh_group2_order True)"
  by (rule dh_group_ok_rows [OF dh_group2_prime_def dh_group2_order_def]) (simp_all add: rows_ok_def)

lemma dh_group14_ok: "dh_group_ok (DH_GROUP 14 dh_group14_generator dh_group14_prime dh_group14_order True)"
  by (rule dh_group_ok_rows [OF dh_group14_prime_def dh_group14_order_def]) (simp_all add: rows_ok_def)

lemma dh_group15_ok: "dh_group_ok (DH_GROUP 15 dh_group15_generator dh_group15_prime dh_group15_order True)"
  by (rule dh_group_ok_rows [OF dh_group15_prime_def dh_group15_order_def]) (simp_all add: rows_ok_def)

lemma dh_group16_ok: "dh_group_ok (DH_GROUP 16 dh_group16_generator dh_group16_prime dh_group16_order True)"
  by (rule dh_group_ok_rows [OF dh_group16_prime_def dh_group16_order_def]) (simp_all add: rows_ok_def)

lemma dh_group17_ok: "dh_group_ok (DH_GROUP 17 dh_group17_generator dh_group17_prime dh_group17_order True)"
  by (rule dh_group_ok_rows [OF dh_group17_prime_def dh_group17_order_def]) (simp_all add: rows_ok_def)

lemma dh_group18_ok: "dh_group_ok (DH_GROUP 18 dh_group18_generator dh_group18_prime dh_group18_order True)"
  by (rule dh_group_ok_rows [OF dh_group18_prime_def dh_group18_order_def]) (simp_all add: rows_ok_def)

lemma dh_group22_ok: "dh_group_ok (DH_GROUP 22 dh_group22_generator dh_group22_prime dh_group22_order False)"
  by (rule dh_group_ok_sub [OF dh_group22_prime_val dh_group22_order_val, where k =
    "0xB8EBE0F59149E18DBA11A1EA8CE50DF2C2543FD2D2F3D34E8E7197C6FF466866F150C55E3E5B0534E618F0A94D0A4CCA5DDD87765D2E34502F004C63C89DF1BB59CA2A0AF5128C86B503CA48F4EDF08B4768FF2EADFBF4256ABC08A2F1A67EB763E9B10AE246AECDAEDA30D0"])
    (simp_all add: dh_group22_prime_def dh_group22_order_def)

lemma dh_group23_ok: "dh_group_ok (DH_GROUP 23 dh_group23_generator dh_group23_prime dh_group23_order False)"
  by (rule dh_group_ok_sub [OF dh_group23_prime_val dh_group23_order_val, where k =
    "0x159D531EBFB397C23B76B18005B9D03570E91210C86657B51FAA2B97E6F3ED4521F79F51081C2D4C2389591C98BEB2689BE050F910A76C2BDFE9C8E5F5CEE51DC4CA83BDAEE721F3C64A2800BE05DAA80D99EEA3D17750FDA9B1BCC1F538E7BF8147908DC101E3D4A180CDE963D25697D336D06622560DE0072FE75ED403DFEC86DBA165C609B0DE873A6EFD6337E6FDDA0AF817C26FEB59B405178437F56ED238F6025C6812804205BCDC0169C076509F45530D0CF2E4E60D8F20EE54FB4AFDB6524CA9A743FA616EA909F372E0040C9C94EA90FBD414C63EC541D49D65F521E2D11716A"])
    (simp_all add: dh_group23_prime_def dh_group23_order_def)

lemma dh_group24_ok: "dh_group_ok (DH_GROUP 24 dh_group24_generator dh_group24_prime dh_group24_order False)"
  by (rule dh_group_ok_sub [OF dh_group24_prime_val dh_group24_order_val, where k =
    "0xF65B7EA7706034A28A29B9436AF161BBF3632483671C60AEE9B1A6A496FFF904FCB09731B6C6E16B551CEC2C063910B04E40795D4BEB474DB762E28CC923AE40FDBAF05BF7501D0314C3CBE4BAD7329DD473BDF441E7B8B387B402CD0BE7DC534FA6D3C039BDAD133F59DC899FD570A667C453D08150A35CF5E845087BD9ACFA8333343375E8EE52965A84C699C59DFEF852EFB96023BEF0FFB2F99C53AC2D94CD2969764698B8DDE401DA6AA6BDB3B03B5506D287090F8E852C05EC0BDB3C0C4FBEC1A4AB9FE141E8A7C9EADB17D335921B673615A7FC0C92384946B9AB6452"])
    (simp_all add: dh_group24_prime_def dh_group24_order_def)

lemmas dh_group_oks = dh_group5_ok dh_group1_ok dh_group2_ok dh_group14_ok dh_group15_ok dh_group16_ok dh_group17_ok dh_group18_ok dh_group22_ok dh_group23_ok dh_group24_ok

text \<open>C27: every group that \<^verbatim>\<open>dh_groups_get\<close> can return, in a build with or without all groups, has
  the requested number, an odd modulus that fills its octets, an order that divides \<open>p - 1\<close>, and
  the order \<open>(p - 1) / 2\<close> exactly as its safe prime flag promises to the callers.\<close>

theorem dh_groups_get_ok:
  assumes "dh_groups_get all i = Some g"
  shows "dg_id g = i \<and> dh_group_ok g"
  using assms dh_group_oks by (auto simp: dh_groups_get_def dh_groups_def split: if_splits)

theorem dh_groups_get_ok_witness:
  "\<exists>g. dh_groups_get True 22 = Some g \<and> dg_id g = 22 \<and> dh_group_ok g"
proof -
  have "dh_groups_get True 22 =
      Some (DH_GROUP 22 dh_group22_generator dh_group22_prime dh_group22_order False)"
    by (simp add: dh_groups_get_def dh_groups_def)
  from dh_groups_get_ok [OF this] this show ?thesis by blast
qed

end
