(* ===== verification/Sae.thy ===== *)
theory Sae
  imports Hmac DhGroups
begin

text \<open>
  Simultaneous Authentication of Equals, \<^verbatim>\<open>src/common/sae.c\<close> and \<^verbatim>\<open>src/common/sae.h\<close>: selection
  of the group, derivation of the password element, Commit and Confirm messages, key derivation.
  The theory holds the definitions; the proofs are in \<open>SaeFfc\<close>, \<open>SaeBlind\<close> and \<open>SaeMsg\<close>.

  Conventions.  \<open>L\<close> is the OpenSSL library (\<open>CryptoOpenssl\<close>), \<open>all\<close> tells whether the build has all
  Diffie-Hellman groups, \<open>rnd\<close> is the list of octet strings that the random number generator will
  return.  A function returns its C return value together with the new \<^verbatim>\<open>struct sae_data\<close> (and the
  rest of \<open>rnd\<close>).  The outer option of a \<open>run\<close> result is \<open>None\<close> when the code dereferences a NULL
  pointer, reads memory that was never written, or aborts in \<^verbatim>\<open>wpabuf_overflow\<close>.
  The fields \<^verbatim>\<open>prime_buf\<close> and \<^verbatim>\<open>order_buf\<close> only own the memory of \<^verbatim>\<open>prime\<close> and
  \<^verbatim>\<open>order\<close> and are not kept.
\<close>

subsection \<open>Constants and data\<close>

definition SAE_MAX_PRIME_LEN :: nat where "SAE_MAX_PRIME_LEN = 512"
definition SAE_MAX_ECC_PRIME_LEN :: nat where "SAE_MAX_ECC_PRIME_LEN = 66"
definition SAE_COMMIT_MAX_LEN :: nat where "SAE_COMMIT_MAX_LEN = 2 + 3 * SAE_MAX_PRIME_LEN"
definition SAE_CONFIRM_MAX_LEN :: nat where "SAE_CONFIRM_MAX_LEN = 2 + SAE_MAX_PRIME_LEN"
definition SAE_SILENTLY_DISCARD :: u16 where "SAE_SILENTLY_DISCARD = 65535"
definition WLAN_STATUS_SUCCESS :: u16 where "WLAN_STATUS_SUCCESS = 0"
definition WLAN_STATUS_UNSPECIFIED_FAILURE :: u16 where "WLAN_STATUS_UNSPECIFIED_FAILURE = 1"
definition WLAN_STATUS_ANTI_CLOGGING_TOKEN_REQ :: u16 where "WLAN_STATUS_ANTI_CLOGGING_TOKEN_REQ = 76"
definition WLAN_STATUS_FINITE_CYCLIC_GROUP_NOT_SUPPORTED :: u16 where "WLAN_STATUS_FINITE_CYCLIC_GROUP_NOT_SUPPORTED = 77"
definition WLAN_STATUS_UNKNOWN_PASSWORD_IDENTIFIER :: u16 where "WLAN_STATUS_UNKNOWN_PASSWORD_IDENTIFIER = 123"
definition WLAN_EID_EXTENSION :: u8 where "WLAN_EID_EXTENSION = 255"
definition WLAN_EID_EXT_PASSWORD_IDENTIFIER :: u8 where "WLAN_EID_EXT_PASSWORD_IDENTIFIER = 33"

lemmas sae_consts = SAE_MAX_PRIME_LEN_def SAE_MAX_ECC_PRIME_LEN_def SAE_COMMIT_MAX_LEN_def
  SAE_CONFIRM_MAX_LEN_def WLAN_EID_EXTENSION_def WLAN_EID_EXT_PASSWORD_IDENTIFIER_def
lemmas wlan_status = SAE_SILENTLY_DISCARD_def WLAN_STATUS_SUCCESS_def
  WLAN_STATUS_UNSPECIFIED_FAILURE_def WLAN_STATUS_ANTI_CLOGGING_TOKEN_REQ_def
  WLAN_STATUS_FINITE_CYCLIC_GROUP_NOT_SUPPORTED_def WLAN_STATUS_UNKNOWN_PASSWORD_IDENTIFIER_def

datatype sae_state = SAE_NOTHING | SAE_COMMITTED | SAE_CONFIRMED | SAE_ACCEPTED

record ('g, 'q) sae_temporary_data =
  st_kck :: bytes
  st_own_commit_scalar :: "nat option"
  st_own_commit_element_ffc :: "nat option"
  st_own_commit_element_ecc :: "'q option"
  st_peer_commit_element_ffc :: "nat option"
  st_peer_commit_element_ecc :: "'q option"
  st_pwe_ecc :: "'q option"
  st_pwe_ffc :: "nat option"
  st_sae_rand :: "nat option"
  st_ec :: "'g crypto_ec option"
  st_prime_len :: nat
  st_dh :: "dh_group option"
  st_prime :: "nat option"
  st_order :: "nat option"
  st_anti_clogging_token :: "wpabuf option"
  st_pw_id :: "bytes option"

record ('g, 'q) sae_data =
  sd_state :: sae_state
  sd_send_confirm :: u16
  sd_pmk :: bytes
  sd_pmkid :: bytes
  sd_peer_commit_scalar :: "nat option"
  sd_group :: int
  sd_sync :: nat
  sd_rc :: u16
  sd_tmp :: "('g, 'q) sae_temporary_data option"

text \<open>The two structures as \<^verbatim>\<open>os_zalloc\<close> and \<^verbatim>\<open>os_memset(.., 0, ..)\<close> leave them.\<close>

definition sae_tmp_zero :: "('g, 'q) sae_temporary_data" where
  "sae_tmp_zero = \<lparr>st_kck = replicate 32 0, st_own_commit_scalar = None,
     st_own_commit_element_ffc = None, st_own_commit_element_ecc = None,
     st_peer_commit_element_ffc = None, st_peer_commit_element_ecc = None,
     st_pwe_ecc = None, st_pwe_ffc = None, st_sae_rand = None, st_ec = None, st_prime_len = 0,
     st_dh = None, st_prime = None, st_order = None, st_anti_clogging_token = None, st_pw_id = None\<rparr>"

definition sae_zero :: "('g, 'q) sae_data" where
  "sae_zero = \<lparr>sd_state = SAE_NOTHING, sd_send_confirm = 0, sd_pmk = replicate 32 0,
     sd_pmkid = replicate 16 0, sd_peer_commit_scalar = None, sd_group = 0, sd_sync = 0, sd_rc = 0,
     sd_tmp = None\<rparr>"

subsection \<open>Group selection\<close>

definition sae_clear_temp_data :: "('g, 'q) sae_data \<Rightarrow> ('g, 'q) sae_data" where
  "sae_clear_temp_data sae = sae\<lparr>sd_tmp := None\<rparr>"

definition sae_clear_data :: "('g, 'q) sae_data \<Rightarrow> ('g, 'q) sae_data" where
  "sae_clear_data sae = sae_zero"

definition sae_set_group ::
  "('g, 'q) openssl \<Rightarrow> bool \<Rightarrow> ('g, 'q) sae_data \<Rightarrow> int \<Rightarrow> int \<times> ('g, 'q) sae_data" where
  "sae_set_group L all sae grp =
     (let sae = sae_clear_data sae
      in if \<not> os_zalloc_ok L then (- 1, sae)
         else let tmp = sae_tmp_zero
         in case crypto_ec_init L grp of
              Some ec \<Rightarrow>
                (0, sae\<lparr>sd_group := grp,
                        sd_tmp := Some (tmp\<lparr>st_ec := Some ec,
                                            st_prime_len := crypto_ec_prime_len L ec,
                                            st_prime := Some (crypto_ec_get_prime ec),
                                            st_order := Some (crypto_ec_get_order ec)\<rparr>)\<rparr>)
            | None \<Rightarrow>
                (case dh_groups_get all grp of
                   Some dh \<Rightarrow>
                     let plen = length (dg_prime dh)
                     in if plen > SAE_MAX_PRIME_LEN then (- 1, sae_clear_data sae)
                        else (case crypto_bignum_init_set L (dg_prime dh) of
                                None \<Rightarrow> (- 1, sae_clear_data sae)
                              | Some p \<Rightarrow>
                                  (case crypto_bignum_init_set L (dg_order dh) of
                                     None \<Rightarrow> (- 1, sae_clear_data sae)
                                   | Some r \<Rightarrow>
                                       (0, sae\<lparr>sd_group := grp,
                                               sd_tmp := Some (tmp\<lparr>st_dh := Some dh,
                                                 st_prime_len := plen, st_prime := Some p,
                                                 st_order := Some r\<rparr>)\<rparr>)))
                 | None \<Rightarrow> (- 1, sae\<lparr>sd_tmp := Some tmp\<rparr>)))"

subsection \<open>Random numbers\<close>

text \<open>\<^verbatim>\<open>buf_shift_right\<close> for a non-empty buffer: octet \<open>i\<close> takes the low bits of octet \<open>i - 1\<close>; nothing
  is shifted into the first one.\<close>

fun buf_shift_loop :: "nat \<Rightarrow> u8 \<Rightarrow> bytes \<Rightarrow> bytes" where
  "buf_shift_loop bits prev [] = []"
| "buf_shift_loop bits prev (b # bs) =
     (push_bit (8 - bits) prev OR drop_bit bits b) # buf_shift_loop bits b bs"

definition buf_shift_right :: "bytes \<Rightarrow> nat \<Rightarrow> bytes" where
  "buf_shift_right buf bits = buf_shift_loop bits 0 buf"

definition shift_unused :: "bytes \<Rightarrow> nat \<Rightarrow> bytes" where
  "shift_unused buf bits = (if bits mod 8 \<noteq> 0 then buf_shift_right buf (8 - bits mod 8) else buf)"

text \<open>The loop of \<^verbatim>\<open>sae_get_rand\<close> with \<open>n\<close> draws left.\<close>

fun sae_get_rand_loop ::
  "('g, 'q) openssl \<Rightarrow> nat \<Rightarrow> nat \<Rightarrow> nat \<Rightarrow> bytes list \<Rightarrow> nat option \<times> bytes list" where
  "sae_get_rand_loop L order bits 0 rnd = (None, rnd)"
| "sae_get_rand_loop L order bits (Suc n) rnd =
     (case random_get_bytes ((bits + 7) div 8) rnd of
        (None, rnd) \<Rightarrow> (None, rnd)
      | (Some val, rnd) \<Rightarrow>
          (case crypto_bignum_init_set L (shift_unused val bits) of
             None \<Rightarrow> (None, rnd)
           | Some bn \<Rightarrow>
               if crypto_bignum_is_zero bn \<or> crypto_bignum_is_one bn \<or> crypto_bignum_cmp L bn order \<ge> 0
               then sae_get_rand_loop L order bits n rnd
               else (Some bn, rnd)))"

definition sae_get_rand ::
  "('g, 'q) openssl \<Rightarrow> ('g, 'q) sae_temporary_data \<Rightarrow> bytes list \<Rightarrow> (nat option \<times> bytes list) run" where
  "sae_get_rand L tmp rnd = do {
     order \<leftarrow> st_order tmp;
     let bits = crypto_bignum_bits L order;
     Some (if (bits + 7) div 8 > SAE_MAX_PRIME_LEN then (None, rnd)
           else sae_get_rand_loop L order bits 101 rnd) }"

text \<open>The mask returned, the temporary data with the new \<^verbatim>\<open>sae_rand\<close>, and the rest of the draws.\<close>

definition sae_get_rand_and_mask ::
  "('g, 'q) openssl \<Rightarrow> ('g, 'q) sae_temporary_data \<Rightarrow> bytes list \<Rightarrow>
   (nat option \<times> ('g, 'q) sae_temporary_data \<times> bytes list) run" where
  "sae_get_rand_and_mask L tmp rnd = do {
     (r, rnd) \<leftarrow> sae_get_rand L tmp rnd;
     let tmp = tmp\<lparr>st_sae_rand := r\<rparr>;
     (case r of
        None \<Rightarrow> Some (None, tmp, rnd)
      | Some _ \<Rightarrow> do {
          (msk, rnd) \<leftarrow> sae_get_rand L tmp rnd;
          Some (msk, tmp, rnd) }) }"

definition sae_pwd_seed_key :: "bytes \<Rightarrow> bytes \<Rightarrow> bytes" where
  "sae_pwd_seed_key addr1 addr2 = (if os_memcmp addr1 addr2 > 0 then addr1 @ addr2 else addr2 @ addr1)"

text \<open>A number between 1 and p - 1 and whether it is odd.  The loop ends when the generator fails or
  a draw is accepted.\<close>

fun get_rand_1_to_p_1 ::
  "('g, 'q) openssl \<Rightarrow> bytes \<Rightarrow> nat \<Rightarrow> bytes list \<Rightarrow> (nat \<times> bool) option \<times> bytes list" where
  "get_rand_1_to_p_1 L prime bits [] = (None, [])"
| "get_rand_1_to_p_1 L prime bits (d # rnd) =
     (if length d \<noteq> length prime then (None, rnd)
      else
        let t = shift_unused d bits
        in if os_memcmp t prime \<ge> 0 then get_rand_1_to_p_1 L prime bits rnd
           else (case crypto_bignum_init_set L t of
                   None \<Rightarrow> (None, rnd)
                 | Some r \<Rightarrow>
                     if crypto_bignum_is_zero r then get_rand_1_to_p_1 L prime bits rnd
                     else (Some (r, odd (unat (last t))), rnd)))"

fun get_random_qr_qnr_loop ::
  "('g, 'q) openssl \<Rightarrow> bytes \<Rightarrow> nat \<Rightarrow> nat \<Rightarrow> nat option \<Rightarrow> nat option \<Rightarrow> bytes list \<Rightarrow>
   (nat option \<times> nat option) \<times> bytes list" where
  "get_random_qr_qnr_loop L prime prime_bn bits (Some qr) (Some qnr) rnd = ((Some qr, Some qnr), rnd)"
| "get_random_qr_qnr_loop L prime prime_bn bits qr qnr [] = ((qr, qnr), [])"
| "get_random_qr_qnr_loop L prime prime_bn bits qr qnr (d # rnd) =
     (if length d \<noteq> length prime then ((qr, qnr), rnd)
      else
        let t = shift_unused d bits
        in if os_memcmp t prime \<ge> 0 then get_random_qr_qnr_loop L prime prime_bn bits qr qnr rnd
           else (case crypto_bignum_init_set L t of
                   None \<Rightarrow> ((qr, qnr), rnd)
                 | Some q \<Rightarrow>
                     let res = crypto_bignum_legendre L q prime_bn
                     in if res = 1 \<and> qr = None
                        then get_random_qr_qnr_loop L prime prime_bn bits (Some q) qnr rnd
                        else if res = - 1 \<and> qnr = None
                        then get_random_qr_qnr_loop L prime prime_bn bits qr (Some q) rnd
                        else get_random_qr_qnr_loop L prime prime_bn bits qr qnr rnd))"

definition get_random_qr_qnr ::
  "('g, 'q) openssl \<Rightarrow> bytes \<Rightarrow> nat \<Rightarrow> nat \<Rightarrow> bytes list \<Rightarrow> (nat \<times> nat) option \<times> bytes list" where
  "get_random_qr_qnr L prime prime_bn bits rnd =
     (case get_random_qr_qnr_loop L prime prime_bn bits None None rnd of
        ((Some qr, Some qnr), rnd) \<Rightarrow> (Some (qr, qnr), rnd)
      | (_, rnd) \<Rightarrow> (None, rnd))"

subsection \<open>Password element\<close>

text \<open>\<^verbatim>\<open>is_quadratic_residue_blind\<close>: -1 on a failure, otherwise the answer as 0 or 1.\<close>

definition is_quadratic_residue_blind ::
  "('g, 'q) openssl \<Rightarrow> nat \<Rightarrow> bytes \<Rightarrow> nat \<Rightarrow> nat \<Rightarrow> nat \<Rightarrow> nat \<Rightarrow> bytes list \<Rightarrow> int \<times> bytes list" where
  "is_quadratic_residue_blind L p prime bits qr qnr y_sqr rnd =
     (case get_rand_1_to_p_1 L prime bits rnd of
        (None, rnd) \<Rightarrow> (- 1, rnd)
      | (Some (r, r_odd), rnd) \<Rightarrow>
          (case (do {
             num \<leftarrow> crypto_bignum_init L;
             num \<leftarrow> crypto_bignum_mulmod L y_sqr r p;
             num \<leftarrow> crypto_bignum_mulmod L num r p;
             num \<leftarrow> crypto_bignum_mulmod L num (if r_odd then qr else qnr) p;
             Some num }) of
             None \<Rightarrow> (- 1, rnd)
           | Some num \<Rightarrow>
               let check = (if r_odd then 1 else - 1); res = crypto_bignum_legendre L num p
               in (if res = - 2 then - 1 else if res = check then 1 else 0, rnd)))"

text \<open>\<^verbatim>\<open>sae_test_pwd_seed_ecc\<close>: the return value and \<^verbatim>\<open>*ret_x_cand\<close>.\<close>

definition sae_test_pwd_seed_ecc ::
  "('g, 'q) openssl \<Rightarrow> 'g crypto_ec \<Rightarrow> nat \<Rightarrow> bytes \<Rightarrow> bytes \<Rightarrow> nat \<Rightarrow> nat \<Rightarrow> bytes list \<Rightarrow>
   (int \<times> nat option) \<times> bytes list" where
  "sae_test_pwd_seed_ecc L ec p pwd_seed prime qr qnr rnd =
     (let bits = crypto_ec_prime_len_bits L ec
      in case sha256_prf_bits pwd_seed (ascii ''SAE Hunting and Pecking'') prime bits of
           None \<Rightarrow> ((- 1, None), rnd)
         | Some v \<Rightarrow>
             let pwd_value = shift_unused v bits
             in if os_memcmp pwd_value prime \<ge> 0 then ((0, None), rnd)
                else (case crypto_bignum_init_set L pwd_value of
                        None \<Rightarrow> ((- 1, None), rnd)
                      | Some x_cand \<Rightarrow>
                          (case crypto_ec_point_compute_y_sqr L ec x_cand of
                             None \<Rightarrow> ((- 1, None), rnd)
                           | Some y_sqr \<Rightarrow>
                               (case is_quadratic_residue_blind L p prime bits qr qnr y_sqr rnd of
                                  (res, rnd) \<Rightarrow>
                                    if res \<le> 0 then ((res, None), rnd) else ((1, Some x_cand), rnd)))))"

text \<open>\<^verbatim>\<open>sae_test_pwd_seed_ffc\<close>: the return value and the value left in \<^verbatim>\<open>*pwe\<close>, if it was written.\<close>

definition sae_test_pwd_seed_ffc ::
  "('g, 'q) openssl \<Rightarrow> dh_group \<Rightarrow> nat \<Rightarrow> nat \<Rightarrow> bytes \<Rightarrow> int \<times> nat option" where
  "sae_test_pwd_seed_ffc L dh p order pwd_seed =
     (case sha256_prf_bits pwd_seed (ascii ''SAE Hunting and Pecking'') (dg_prime dh)
             (length (dg_prime dh) * 8) of
        None \<Rightarrow> (- 1, None)
      | Some pwd_value \<Rightarrow>
          if os_memcmp pwd_value (dg_prime dh) \<ge> 0 then (0, None)
          else
            let a = crypto_bignum_init_set L pwd_value;
                b = (if dg_safe_prime dh then crypto_bignum_init_set L [2]
                     else do {
                       b \<leftarrow> crypto_bignum_init_set L [1];
                       b \<leftarrow> crypto_bignum_sub L p b;
                       crypto_bignum_div L b order })
            in (case (do { a \<leftarrow> a; b \<leftarrow> b; crypto_bignum_exptmod L a b p }) of
                  None \<Rightarrow> (- 1, None)
                | Some pwe \<Rightarrow>
                    (if crypto_bignum_is_zero pwe \<or> crypto_bignum_is_one pwe then 0 else 1, Some pwe)))"

text \<open>The data hashed for one counter value: \<^verbatim>\<open>password [|| identifier] || counter\<close>.\<close>

definition pwd_seed_data :: "bytes \<Rightarrow> bytes option \<Rightarrow> nat \<Rightarrow> bytes list" where
  "pwd_seed_data password identifier counter =
     [password] @ (case identifier of None \<Rightarrow> [] | Some i \<Rightarrow> [i]) @ [[word_of_nat counter]]"

text \<open>The hunting-and-pecking loop for curves.  \<open>pw\<close> is the password hashed in this round: the real
  one until a candidate is found, the random dummy afterwards.  The result is \<open>Inl\<close> for the
  \<^verbatim>\<open>goto fail\<close> with its return value.\<close>

function pwe_ecc_loop ::
  "('g, 'q) openssl \<Rightarrow> 'g crypto_ec \<Rightarrow> nat \<Rightarrow> bytes \<Rightarrow> nat \<Rightarrow> nat \<Rightarrow> bytes \<Rightarrow> bytes option \<Rightarrow> bytes \<Rightarrow>
   nat \<Rightarrow> bytes \<Rightarrow> (nat \<times> bool) option \<Rightarrow> bytes list \<Rightarrow> (int + (nat \<times> bool) option) \<times> bytes list" where
  "pwe_ecc_loop L ec p prime qr qnr addrs identifier dummy counter pw x rnd =
     (if \<not> (counter \<le> 40 \<or> x = None) \<or> counter > 200 then (Inr x, rnd)
      else
        case hmac_sha256_vector addrs (pwd_seed_data pw identifier counter) of
          None \<Rightarrow> (Inr x, rnd)
        | Some pwd_seed \<Rightarrow>
            (case sae_test_pwd_seed_ecc L ec p pwd_seed prime qr qnr rnd of
               ((res, x_cand), rnd) \<Rightarrow>
                 if res < 0 then (Inl res, rnd)
                 else if res > 0 \<and> x = None then
                   pwe_ecc_loop L ec p prime qr qnr addrs identifier dummy (counter + 1) dummy
                     (map_option (\<lambda>c. (c, odd (unat (pwd_seed ! 31)))) x_cand) rnd
                 else
                   pwe_ecc_loop L ec p prime qr qnr addrs identifier dummy (counter + 1) pw x rnd))"
  by pat_completeness auto
termination
  by (relation "measure (\<lambda>(L, ec, p, prime, qr, qnr, addrs, identifier, dummy, counter, pw, x, rnd).
        201 - counter)") auto

declare pwe_ecc_loop.simps [simp del]

definition sae_derive_pwe_ecc ::
  "('g, 'q) openssl \<Rightarrow> ('g, 'q) sae_temporary_data \<Rightarrow> 'g crypto_ec \<Rightarrow> bytes \<Rightarrow> bytes \<Rightarrow> bytes \<Rightarrow>
   bytes option \<Rightarrow> bytes list \<Rightarrow> (int \<times> ('g, 'q) sae_temporary_data \<times> bytes list) run" where
  "sae_derive_pwe_ecc L tmp ec addr1 addr2 password identifier rnd =
     (case random_get_bytes (min (length password) 32) rnd of
        (None, rnd) \<Rightarrow> Some (- 1, tmp, rnd)
      | (Some dummy_password, rnd) \<Rightarrow> do {
          p \<leftarrow> st_prime tmp;
          (case crypto_bignum_to_bin L p SAE_MAX_ECC_PRIME_LEN (st_prime_len tmp) of
             None \<Rightarrow> Some (- 1, tmp, rnd)
           | Some prime \<Rightarrow>
               (case get_random_qr_qnr L prime p (crypto_ec_prime_len_bits L ec) rnd of
                  (None, rnd) \<Rightarrow> Some (- 1, tmp, rnd)
                | (Some (qr, qnr), rnd) \<Rightarrow>
                    (case pwe_ecc_loop L ec p prime qr qnr (sae_pwd_seed_key addr1 addr2) identifier
                            dummy_password 1 password None rnd of
                       (Inl res, rnd) \<Rightarrow> Some (res, tmp, rnd)
                     | (Inr None, rnd) \<Rightarrow> Some (- 1, tmp, rnd)
                     | (Inr (Some (x, pwd_seed_odd)), rnd) \<Rightarrow>
                         let tmp = (if st_pwe_ecc tmp = None
                                    then tmp\<lparr>st_pwe_ecc := crypto_ec_point_init L ec\<rparr> else tmp)
                         in Some (if st_pwe_ecc tmp = None then (- 1, tmp, rnd)
                                  else case crypto_ec_point_solve_y_coord L ec x
                                              (if pwd_seed_odd then 1 else 0) of
                                         None \<Rightarrow> (- 1, tmp, rnd)
                                       | Some pwe \<Rightarrow> (0, tmp\<lparr>st_pwe_ecc := Some pwe\<rparr>, rnd))))) })"

text \<open>The loop for finite field groups: whether an element was found and the value of
  \<^verbatim>\<open>tmp->pwe_ffc\<close> at the end.\<close>

function pwe_ffc_loop ::
  "('g, 'q) openssl \<Rightarrow> dh_group \<Rightarrow> nat \<Rightarrow> nat \<Rightarrow> bytes \<Rightarrow> bytes \<Rightarrow> bytes option \<Rightarrow> nat \<Rightarrow> nat \<Rightarrow> bool \<times> nat" where
  "pwe_ffc_loop L dh p order addrs password identifier counter pwe =
     (if counter > 200 then (False, pwe)
      else
        case hmac_sha256_vector addrs (pwd_seed_data password identifier counter) of
          None \<Rightarrow> (False, pwe)
        | Some pwd_seed \<Rightarrow>
            (case sae_test_pwd_seed_ffc L dh p order pwd_seed of
               (res, new) \<Rightarrow>
                 let pwe = (case new of None \<Rightarrow> pwe | Some v \<Rightarrow> v)
                 in if res < 0 then (False, pwe)
                    else if res > 0 then (True, pwe)
                    else pwe_ffc_loop L dh p order addrs password identifier (counter + 1) pwe))"
  by pat_completeness auto
termination
  by (relation "measure (\<lambda>(L, dh, p, order, addrs, password, identifier, counter, pwe). 201 - counter)")
    auto

declare pwe_ffc_loop.simps [simp del]

definition sae_derive_pwe_ffc ::
  "('g, 'q) openssl \<Rightarrow> ('g, 'q) sae_temporary_data \<Rightarrow> dh_group \<Rightarrow> bytes \<Rightarrow> bytes \<Rightarrow> bytes \<Rightarrow>
   bytes option \<Rightarrow> (int \<times> ('g, 'q) sae_temporary_data) run" where
  "sae_derive_pwe_ffc L tmp dh addr1 addr2 password identifier =
     (case (case st_pwe_ffc tmp of None \<Rightarrow> crypto_bignum_init L | Some v \<Rightarrow> Some v) of
        None \<Rightarrow> Some (- 1, tmp)
      | Some pwe0 \<Rightarrow> do {
          p \<leftarrow> st_prime tmp;
          order \<leftarrow> st_order tmp;
          (case pwe_ffc_loop L dh p order (sae_pwd_seed_key addr1 addr2) password identifier 1 pwe0 of
             (found, pwe) \<Rightarrow> Some (if found then 0 else - 1, tmp\<lparr>st_pwe_ffc := Some pwe\<rparr>)) })"

subsection \<open>Commit\<close>

definition sae_derive_commit_element_ecc ::
  "('g, 'q) openssl \<Rightarrow> ('g, 'q) sae_temporary_data \<Rightarrow> 'g crypto_ec \<Rightarrow> nat \<Rightarrow>
   (int \<times> ('g, 'q) sae_temporary_data) run" where
  "sae_derive_commit_element_ecc L tmp ec msk =
     (case (case st_own_commit_element_ecc tmp of None \<Rightarrow> crypto_ec_point_init L ec | Some e \<Rightarrow> Some e) of
        None \<Rightarrow> Some (- 1, tmp)
      | Some e0 \<Rightarrow> do {
          pwe \<leftarrow> st_pwe_ecc tmp;
          Some (case crypto_ec_point_mul L ec pwe msk of
                  None \<Rightarrow> (- 1, tmp\<lparr>st_own_commit_element_ecc := Some e0\<rparr>)
                | Some m \<Rightarrow>
                    (case crypto_ec_point_invert L ec m of
                       None \<Rightarrow> (- 1, tmp\<lparr>st_own_commit_element_ecc := Some m\<rparr>)
                     | Some e \<Rightarrow> (0, tmp\<lparr>st_own_commit_element_ecc := Some e\<rparr>))) })"

definition sae_derive_commit_element_ffc ::
  "('g, 'q) openssl \<Rightarrow> ('g, 'q) sae_temporary_data \<Rightarrow> nat \<Rightarrow> (int \<times> ('g, 'q) sae_temporary_data) run" where
  "sae_derive_commit_element_ffc L tmp msk =
     (case (case st_own_commit_element_ffc tmp of None \<Rightarrow> crypto_bignum_init L | Some e \<Rightarrow> Some e) of
        None \<Rightarrow> Some (- 1, tmp)
      | Some e0 \<Rightarrow> do {
          pwe \<leftarrow> st_pwe_ffc tmp;
          p \<leftarrow> st_prime tmp;
          Some (case crypto_bignum_exptmod L pwe msk p of
                  None \<Rightarrow> (- 1, tmp\<lparr>st_own_commit_element_ffc := Some e0\<rparr>)
                | Some m \<Rightarrow>
                    (case crypto_bignum_inverse L m p of
                       None \<Rightarrow> (- 1, tmp\<lparr>st_own_commit_element_ffc := Some m\<rparr>)
                     | Some e \<Rightarrow> (0, tmp\<lparr>st_own_commit_element_ffc := Some e\<rparr>))) })"

text \<open>The results of \<^verbatim>\<open>crypto_bignum_add\<close> and \<^verbatim>\<open>crypto_bignum_mod\<close> are ignored: a failing call
  leaves its output as it was.\<close>

definition add_mod_unchecked :: "('g, 'q) openssl \<Rightarrow> nat \<Rightarrow> nat \<Rightarrow> nat \<Rightarrow> nat \<Rightarrow> nat" where
  "add_mod_unchecked L a b order old =
     (let s = (case crypto_bignum_add L a b of None \<Rightarrow> old | Some s \<Rightarrow> s)
      in case crypto_bignum_mod L s order of None \<Rightarrow> s | Some m \<Rightarrow> m)"

text \<open>The do-while loop of \<^verbatim>\<open>sae_derive_commit\<close> with \<open>n\<close> attempts left: the mask of the accepted
  attempt, or \<open>None\<close> for the early returns with -1.\<close>

fun sae_derive_commit_loop ::
  "('g, 'q) openssl \<Rightarrow> nat \<Rightarrow> ('g, 'q) sae_temporary_data \<Rightarrow> bytes list \<Rightarrow>
   (nat option \<times> ('g, 'q) sae_temporary_data \<times> bytes list) run" where
  "sae_derive_commit_loop L 0 tmp rnd = Some (None, tmp, rnd)"
| "sae_derive_commit_loop L (Suc n) tmp rnd = do {
     (msk, tmp, rnd) \<leftarrow> sae_get_rand_and_mask L tmp rnd;
     (case (msk, st_sae_rand tmp) of
        (Some msk, Some r) \<Rightarrow>
          (case (case st_own_commit_scalar tmp of None \<Rightarrow> crypto_bignum_init L | Some s \<Rightarrow> Some s) of
             None \<Rightarrow> Some (None, tmp, rnd)
           | Some s0 \<Rightarrow> do {
               order \<leftarrow> st_order tmp;
               let s = add_mod_unchecked L r msk order s0;
               let tmp = tmp\<lparr>st_own_commit_scalar := Some s\<rparr>;
               (if crypto_bignum_is_zero s \<or> crypto_bignum_is_one s
                then sae_derive_commit_loop L n tmp rnd
                else Some (Some msk, tmp, rnd)) })
      | _ \<Rightarrow> Some (None, tmp, rnd)) }"

definition sae_derive_commit ::
  "('g, 'q) openssl \<Rightarrow> ('g, 'q) sae_temporary_data \<Rightarrow> bytes list \<Rightarrow>
   (int \<times> ('g, 'q) sae_temporary_data \<times> bytes list) run" where
  "sae_derive_commit L tmp rnd = do {
     (msk, tmp, rnd) \<leftarrow> sae_derive_commit_loop L 100 tmp rnd;
     (case msk of
        None \<Rightarrow> Some (- 1, tmp, rnd)
      | Some msk \<Rightarrow> do {
          (res, tmp) \<leftarrow> (case st_ec tmp of
                           None \<Rightarrow> Some (0, tmp) | Some ec \<Rightarrow> sae_derive_commit_element_ecc L tmp ec msk);
          (if res < 0 then Some (- 1, tmp, rnd)
           else do {
             (res, tmp) \<leftarrow> (case st_dh tmp of
                              None \<Rightarrow> Some (0, tmp) | Some dh \<Rightarrow> sae_derive_commit_element_ffc L tmp msk);
             Some (if res < 0 then - 1 else 0, tmp, rnd) }) }) }"

definition sae_prepare_commit ::
  "('g, 'q) openssl \<Rightarrow> bytes \<Rightarrow> bytes \<Rightarrow> bytes \<Rightarrow> bytes option \<Rightarrow> ('g, 'q) sae_data \<Rightarrow> bytes list \<Rightarrow>
   (int \<times> ('g, 'q) sae_data \<times> bytes list) run" where
  "sae_prepare_commit L addr1 addr2 password identifier sae rnd =
     (case sd_tmp sae of
        None \<Rightarrow> Some (- 1, sae, rnd)
      | Some tmp \<Rightarrow> do {
          (res, tmp, rnd) \<leftarrow> (case st_ec tmp of
             None \<Rightarrow> Some (0, tmp, rnd)
           | Some ec \<Rightarrow> sae_derive_pwe_ecc L tmp ec addr1 addr2 password identifier rnd);
          (if res < 0 then Some (- 1, sae\<lparr>sd_tmp := Some tmp\<rparr>, rnd)
           else do {
             (res, tmp) \<leftarrow> (case st_dh tmp of
                None \<Rightarrow> Some (0, tmp)
              | Some dh \<Rightarrow> sae_derive_pwe_ffc L tmp dh addr1 addr2 password identifier);
             (if res < 0 then Some (- 1, sae\<lparr>sd_tmp := Some tmp\<rparr>, rnd)
              else do {
                (res, tmp, rnd) \<leftarrow> sae_derive_commit L tmp rnd;
                Some (if res < 0 then - 1 else 0, sae\<lparr>sd_tmp := Some tmp\<rparr>, rnd) }) }) })"

subsection \<open>Keys\<close>

text \<open>\<^verbatim>\<open>sae_derive_k_ecc\<close> and \<^verbatim>\<open>sae_derive_k_ffc\<close>: \<open>Some None\<close> is the return value -1, otherwise the
  octets of \<open>k\<close>.\<close>

definition sae_derive_k_ecc ::
  "('g, 'q) openssl \<Rightarrow> ('g, 'q) sae_data \<Rightarrow> ('g, 'q) sae_temporary_data \<Rightarrow> 'g crypto_ec \<Rightarrow> bytes option run" where
  "sae_derive_k_ecc L sae tmp ec =
     (if crypto_ec_point_init L ec = None then Some None
      else do {
        pwe \<leftarrow> st_pwe_ecc tmp;
        peer_scalar \<leftarrow> sd_peer_commit_scalar sae;
        peer_element \<leftarrow> st_peer_commit_element_ecc tmp;
        rand \<leftarrow> st_sae_rand tmp;
        (case (do {
           K \<leftarrow> crypto_ec_point_mul L ec pwe peer_scalar;
           K \<leftarrow> crypto_ec_point_add L ec K peer_element;
           K \<leftarrow> crypto_ec_point_mul L ec K rand;
           (if crypto_ec_point_is_at_infinity L ec K then None else crypto_ec_point_to_bin L ec K) }) of
           None \<Rightarrow> Some None
         | Some (x, y) \<Rightarrow> map_option Some x) })"

definition sae_derive_k_ffc ::
  "('g, 'q) openssl \<Rightarrow> ('g, 'q) sae_data \<Rightarrow> ('g, 'q) sae_temporary_data \<Rightarrow> bytes option run" where
  "sae_derive_k_ffc L sae tmp =
     (if crypto_bignum_init L = None then Some None
      else do {
        pwe \<leftarrow> st_pwe_ffc tmp;
        peer_scalar \<leftarrow> sd_peer_commit_scalar sae;
        p \<leftarrow> st_prime tmp;
        peer_element \<leftarrow> st_peer_commit_element_ffc tmp;
        rand \<leftarrow> st_sae_rand tmp;
        Some (do {
           K \<leftarrow> crypto_bignum_exptmod L pwe peer_scalar p;
           K \<leftarrow> crypto_bignum_mulmod L K peer_element p;
           K \<leftarrow> crypto_bignum_exptmod L K rand p;
           (if crypto_bignum_is_one K then None
            else crypto_bignum_to_bin L K SAE_MAX_PRIME_LEN (st_prime_len tmp)) }) })"

text \<open>\<^verbatim>\<open>sae_derive_keys\<close>.  The return values of \<^verbatim>\<open>hmac_sha256\<close>, \<^verbatim>\<open>crypto_bignum_add\<close>,
  \<^verbatim>\<open>crypto_bignum_mod\<close> and \<^verbatim>\<open>crypto_bignum_to_bin\<close> are ignored.\<close>

definition sae_derive_keys ::
  "('g, 'q) openssl \<Rightarrow> ('g, 'q) sae_data \<Rightarrow> ('g, 'q) sae_temporary_data \<Rightarrow> bytes \<Rightarrow> (int \<times> ('g, 'q) sae_data) run" where
  "sae_derive_keys L sae tmp k =
     (case crypto_bignum_init L of
        None \<Rightarrow> Some (- 1, sae\<lparr>sd_tmp := Some tmp\<rparr>)
      | Some t0 \<Rightarrow> do {
          keyseed \<leftarrow> hmac_sha256 (replicate 32 0) (take (st_prime_len tmp) k);
          own \<leftarrow> st_own_commit_scalar tmp;
          peer \<leftarrow> sd_peer_commit_scalar sae;
          order \<leftarrow> st_order tmp;
          val \<leftarrow> crypto_bignum_to_bin L (add_mod_unchecked L own peer order t0)
                   SAE_MAX_PRIME_LEN (st_prime_len tmp);
          Some (case sha256_prf keyseed (ascii ''SAE KCK and PMK'') (take (st_prime_len tmp) val) 64 of
                  None \<Rightarrow> (- 1, sae\<lparr>sd_tmp := Some tmp\<rparr>)
                | Some keys \<Rightarrow>
                    (0, sae\<lparr>sd_pmk := take 32 (drop 32 keys), sd_pmkid := take 16 val,
                            sd_tmp := Some (tmp\<lparr>st_kck := take 32 keys\<rparr>)\<rparr>)) })"

definition sae_process_commit ::
  "('g, 'q) openssl \<Rightarrow> ('g, 'q) sae_data \<Rightarrow> (int \<times> ('g, 'q) sae_data) run" where
  "sae_process_commit L sae =
     (case sd_tmp sae of
        None \<Rightarrow> Some (- 1, sae)
      | Some tmp \<Rightarrow> do {
          k1 \<leftarrow> (case st_ec tmp of None \<Rightarrow> Some (Some []) | Some ec \<Rightarrow> sae_derive_k_ecc L sae tmp ec);
          (case k1 of
             None \<Rightarrow> Some (- 1, sae)
           | Some k1 \<Rightarrow> do {
               k2 \<leftarrow> (case st_dh tmp of None \<Rightarrow> Some (Some k1) | Some dh \<Rightarrow> sae_derive_k_ffc L sae tmp);
               (case k2 of
                  None \<Rightarrow> Some (- 1, sae)
                | Some k \<Rightarrow> do {
                    (res, sae) \<leftarrow> sae_derive_keys L sae tmp k;
                    Some (if res < 0 then - 1 else 0, sae) }) }) })"

subsection \<open>Writing a Commit message\<close>

text \<open>\<^verbatim>\<open>pos = wpabuf_put(buf, len)\<close> followed by a call that stores octets at \<^verbatim>\<open>pos\<close>; when that
  call fails it stores nothing and its result is ignored.\<close>

definition wpabuf_put_field :: "wpabuf \<Rightarrow> nat \<Rightarrow> bytes option \<Rightarrow> wpabuf run" where
  "wpabuf_put_field buf len data = do {
     (pos, buf) \<leftarrow> wpabuf_put buf (word_of_nat len);
     (case data of
        None \<Rightarrow> Some buf
      | Some d \<Rightarrow> do {
          blk \<leftarrow> mem_store pos d (wb_buf buf);
          Some (buf\<lparr>wb_buf := blk\<rparr>) }) }"

text \<open>Two adjacent coordinates, each of which may be missing.\<close>

definition wpabuf_put_coords :: "wpabuf \<Rightarrow> nat \<Rightarrow> (bytes option \<times> bytes option) option \<Rightarrow> wpabuf run" where
  "wpabuf_put_coords buf len xy =
     (let (x, y) = (case xy of None \<Rightarrow> (None, None) | Some xy \<Rightarrow> xy)
      in do {
        (pos, buf) \<leftarrow> wpabuf_put buf (word_of_nat (2 * len));
        blk \<leftarrow> (case x of None \<Rightarrow> Some (wb_buf buf) | Some d \<Rightarrow> mem_store pos d (wb_buf buf));
        blk \<leftarrow> (case y of None \<Rightarrow> Some blk | Some d \<Rightarrow> mem_store (pos + len) d blk);
        Some (buf\<lparr>wb_buf := blk\<rparr>) })"

definition sae_write_commit ::
  "('g, 'q) openssl \<Rightarrow> ('g, 'q) sae_data \<Rightarrow> wpabuf \<Rightarrow> wpabuf option \<Rightarrow> bytes option \<Rightarrow> wpabuf run" where
  "sae_write_commit L sae buf token identifier =
     (case sd_tmp sae of
        None \<Rightarrow> Some buf
      | Some tmp \<Rightarrow> do {
          let plen = st_prime_len tmp;
          buf \<leftarrow> wpabuf_put_le16 buf (word_of_int (sd_group sae));
          buf \<leftarrow> (case token of None \<Rightarrow> Some buf | Some t \<Rightarrow> wpabuf_put_buf buf t);
          scalar \<leftarrow> st_own_commit_scalar tmp;
          buf \<leftarrow> wpabuf_put_field buf plen (crypto_bignum_to_bin L scalar plen plen);
          buf \<leftarrow> (case st_ec tmp of
             Some ec \<Rightarrow> do {
               element \<leftarrow> st_own_commit_element_ecc tmp;
               wpabuf_put_coords buf plen (crypto_ec_point_to_bin L ec element) }
           | None \<Rightarrow> do {
               element \<leftarrow> st_own_commit_element_ffc tmp;
               wpabuf_put_field buf plen (crypto_bignum_to_bin L element plen plen) });
          (case identifier of
             None \<Rightarrow> Some buf
           | Some i \<Rightarrow> do {
               buf \<leftarrow> wpabuf_put_u8 buf WLAN_EID_EXTENSION;
               buf \<leftarrow> wpabuf_put_u8 buf (word_of_nat (1 + length i));
               buf \<leftarrow> wpabuf_put_u8 buf WLAN_EID_EXT_PASSWORD_IDENTIFIER;
               wpabuf_put_str buf i }) })"

subsection \<open>Parsing a Commit message\<close>

text \<open>The element of a zero terminated array at which the scan of \<^verbatim>\<open>sae_group_allowed\<close> stops; \<open>None\<close>
  if there is no terminator.\<close>

fun group_scan :: "int list \<Rightarrow> int \<Rightarrow> int option" where
  "group_scan [] grp = None"
| "group_scan (a # as) grp = (if a > 0 \<and> a \<noteq> grp then group_scan as grp else Some a)"

definition sae_group_allowed ::
  "('g, 'q) openssl \<Rightarrow> bool \<Rightarrow> ('g, 'q) sae_data \<Rightarrow> int list option \<Rightarrow> u16 \<Rightarrow> (u16 \<times> ('g, 'q) sae_data) run" where
  "sae_group_allowed L all sae allowed_groups grp = do {
     listed \<leftarrow> (case allowed_groups of
        None \<Rightarrow> Some True
      | Some gs \<Rightarrow> do { a \<leftarrow> group_scan gs (uint grp); Some (a = uint grp) });
     Some (
       if \<not> listed then (WLAN_STATUS_FINITE_CYCLIC_GROUP_NOT_SUPPORTED, sae)
       else if sd_state sae = SAE_COMMITTED \<and> uint grp \<noteq> sd_group sae
       then (WLAN_STATUS_FINITE_CYCLIC_GROUP_NOT_SUPPORTED, sae)
       else
         let (r, sae) = (if uint grp \<noteq> sd_group sae then sae_set_group L all sae (uint grp) else (0, sae))
         in if r < 0 then (WLAN_STATUS_FINITE_CYCLIC_GROUP_NOT_SUPPORTED, sae)
            else case sd_tmp sae of
                   None \<Rightarrow> (WLAN_STATUS_UNSPECIFIED_FAILURE, sae)
                 | Some tmp \<Rightarrow>
                     if st_dh tmp \<noteq> None \<and> allowed_groups = None
                     then (WLAN_STATUS_FINITE_CYCLIC_GROUP_NOT_SUPPORTED, sae)
                     else (WLAN_STATUS_SUCCESS, sae)) }"

definition sae_is_password_id_elem :: "bytes \<Rightarrow> bool" where
  "sae_is_password_id_elem pos \<longleftrightarrow>
     length pos \<ge> 3 \<and> pos ! 0 = WLAN_EID_EXTENSION \<and> pos ! 1 \<ge> 1 \<and>
     length pos - 2 \<ge> unat (pos ! 1) \<and> pos ! 2 = WLAN_EID_EXT_PASSWORD_IDENTIFIER"

text \<open>The token found at the current position and the rest of the frame after it.\<close>

definition sae_parse_commit_token ::
  "('g, 'q) sae_temporary_data \<Rightarrow> bytes \<Rightarrow> bytes option \<times> bytes" where
  "sae_parse_commit_token tmp pos =
     (let scalar_elem_len = (if st_ec tmp \<noteq> None then 3 else 2) * st_prime_len tmp
      in if scalar_elem_len \<ge> length pos then (None, pos)
         else
           let tlen = length pos - scalar_elem_len; elem = drop scalar_elem_len pos
           in if tlen < 32 then (None, pos)
              else if sae_is_password_id_elem elem then (None, pos)
              else
                let elem = drop 32 elem;
                    tlen = (if sae_is_password_id_elem elem then tlen - (2 + unat (elem ! 1)) else tlen)
                in (Some (take tlen pos), drop tlen pos))"

definition sae_parse_commit_scalar ::
  "('g, 'q) openssl \<Rightarrow> ('g, 'q) sae_data \<Rightarrow> ('g, 'q) sae_temporary_data \<Rightarrow> bytes \<Rightarrow>
   (u16 \<times> ('g, 'q) sae_data \<times> bytes) run" where
  "sae_parse_commit_scalar L sae tmp pos =
     (let plen = st_prime_len tmp
      in if plen > length pos then Some (WLAN_STATUS_UNSPECIFIED_FAILURE, sae, pos)
         else case crypto_bignum_init_set L (take plen pos) of
                None \<Rightarrow> Some (WLAN_STATUS_UNSPECIFIED_FAILURE, sae, pos)
              | Some peer_scalar \<Rightarrow>
                  if sd_state sae = SAE_ACCEPTED \<and>
                     (case sd_peer_commit_scalar sae of
                        None \<Rightarrow> False | Some old \<Rightarrow> crypto_bignum_cmp L old peer_scalar = 0)
                  then Some (WLAN_STATUS_UNSPECIFIED_FAILURE, sae, pos)
                  else if crypto_bignum_is_zero peer_scalar \<or> crypto_bignum_is_one peer_scalar
                  then Some (WLAN_STATUS_UNSPECIFIED_FAILURE, sae, pos)
                  else do {
                    order \<leftarrow> st_order tmp;
                    Some (if crypto_bignum_cmp L peer_scalar order \<ge> 0
                          then (WLAN_STATUS_UNSPECIFIED_FAILURE, sae, pos)
                          else (WLAN_STATUS_SUCCESS,
                                sae\<lparr>sd_peer_commit_scalar := Some peer_scalar\<rparr>, drop plen pos)) })"

definition sae_parse_commit_element_ecc ::
  "('g, 'q) openssl \<Rightarrow> ('g, 'q) sae_temporary_data \<Rightarrow> bytes \<Rightarrow>
   (u16 \<times> ('g, 'q) sae_temporary_data \<times> bytes) run" where
  "sae_parse_commit_element_ecc L tmp pos =
     (let plen = st_prime_len tmp
      in if 2 * plen > length pos then Some (WLAN_STATUS_UNSPECIFIED_FAILURE, tmp, pos)
         else do {
           p \<leftarrow> st_prime tmp;
           (case crypto_bignum_to_bin L p SAE_MAX_ECC_PRIME_LEN plen of
              None \<Rightarrow> Some (WLAN_STATUS_UNSPECIFIED_FAILURE, tmp, pos)
            | Some prime \<Rightarrow>
                if os_memcmp (take plen pos) (take plen prime) \<ge> 0 \<or>
                   os_memcmp (take plen (drop plen pos)) (take plen prime) \<ge> 0
                then Some (WLAN_STATUS_UNSPECIFIED_FAILURE, tmp, pos)
                else do {
                  ec \<leftarrow> st_ec tmp;
                  let tmp = tmp\<lparr>st_peer_commit_element_ecc := crypto_ec_point_from_bin L ec pos\<rparr>;
                  Some (case st_peer_commit_element_ecc tmp of
                          None \<Rightarrow> (WLAN_STATUS_UNSPECIFIED_FAILURE, tmp, pos)
                        | Some e \<Rightarrow>
                            if \<not> crypto_ec_point_is_on_curve L ec e
                            then (WLAN_STATUS_UNSPECIFIED_FAILURE, tmp, pos)
                            else (WLAN_STATUS_SUCCESS, tmp, drop (2 * plen) pos)) }) })"

definition sae_parse_commit_element_ffc ::
  "('g, 'q) openssl \<Rightarrow> ('g, 'q) sae_temporary_data \<Rightarrow> bytes \<Rightarrow>
   (u16 \<times> ('g, 'q) sae_temporary_data \<times> bytes) run" where
  "sae_parse_commit_element_ffc L tmp pos =
     (let plen = st_prime_len tmp
      in if plen > length pos then Some (WLAN_STATUS_UNSPECIFIED_FAILURE, tmp, pos)
         else
           let tmp = tmp\<lparr>st_peer_commit_element_ffc := crypto_bignum_init_set L (take plen pos)\<rparr>
           in case st_peer_commit_element_ffc tmp of
                None \<Rightarrow> Some (WLAN_STATUS_UNSPECIFIED_FAILURE, tmp, pos)
              | Some e \<Rightarrow> do {
                  p \<leftarrow> st_prime tmp;
                  order \<leftarrow> st_order tmp;
                  Some (case (do {
                          res \<leftarrow> crypto_bignum_init L;
                          one \<leftarrow> crypto_bignum_init_set L [1];
                          crypto_bignum_sub L p one }) of
                          None \<Rightarrow> (WLAN_STATUS_UNSPECIFIED_FAILURE, tmp, pos)
                        | Some res \<Rightarrow>
                            if crypto_bignum_is_zero e \<or> crypto_bignum_is_one e \<or>
                               crypto_bignum_cmp L e res \<ge> 0
                            then (WLAN_STATUS_UNSPECIFIED_FAILURE, tmp, pos)
                            else (case crypto_bignum_exptmod L e order p of
                                    None \<Rightarrow> (WLAN_STATUS_UNSPECIFIED_FAILURE, tmp, pos)
                                  | Some res \<Rightarrow>
                                      if \<not> crypto_bignum_is_one res
                                      then (WLAN_STATUS_UNSPECIFIED_FAILURE, tmp, pos)
                                      else (WLAN_STATUS_SUCCESS, tmp, drop plen pos))) })"

definition sae_parse_commit_element ::
  "('g, 'q) openssl \<Rightarrow> ('g, 'q) sae_temporary_data \<Rightarrow> bytes \<Rightarrow>
   (u16 \<times> ('g, 'q) sae_temporary_data \<times> bytes) run" where
  "sae_parse_commit_element L tmp pos =
     (if st_dh tmp \<noteq> None then sae_parse_commit_element_ffc L tmp pos
      else sae_parse_commit_element_ecc L tmp pos)"

text \<open>\<^verbatim>\<open>tmp->pw_id\<close> is a C string: its length is counted up to the first NUL.\<close>

definition c_strlen :: "bytes \<Rightarrow> nat" where
  "c_strlen s = length (takeWhile (\<lambda>c. c \<noteq> 0) s)"

definition sae_parse_password_identifier ::
  "('g, 'q) openssl \<Rightarrow> ('g, 'q) sae_temporary_data \<Rightarrow> bytes \<Rightarrow> u16 \<times> ('g, 'q) sae_temporary_data" where
  "sae_parse_password_identifier L tmp pos =
     (if \<not> sae_is_password_id_elem pos then
        (if st_pw_id tmp \<noteq> None then (WLAN_STATUS_UNKNOWN_PASSWORD_IDENTIFIER, tmp)
         else (WLAN_STATUS_SUCCESS, tmp))
      else
        let n = unat (pos ! 1) - 1; i = take n (drop 3 pos)
        in if (case st_pw_id tmp of None \<Rightarrow> False | Some w \<Rightarrow> n \<noteq> c_strlen w \<or> os_memcmp (take n w) i \<noteq> 0)
           then (WLAN_STATUS_UNKNOWN_PASSWORD_IDENTIFIER, tmp)
           else if \<not> os_malloc_ok L (unat (pos ! 1))
           then (WLAN_STATUS_UNSPECIFIED_FAILURE, tmp\<lparr>st_pw_id := None\<rparr>)
           else (WLAN_STATUS_SUCCESS, tmp\<lparr>st_pw_id := Some i\<rparr>))"

text \<open>The comparison at the end of \<^verbatim>\<open>sae_parse_commit\<close>: the peer sent back our own scalar and
  element.\<close>

definition sae_is_reflection ::
  "('g, 'q) openssl \<Rightarrow> ('g, 'q) sae_data \<Rightarrow> ('g, 'q) sae_temporary_data \<Rightarrow> bool run" where
  "sae_is_reflection L sae tmp =
     (case st_own_commit_scalar tmp of
        None \<Rightarrow> Some False
      | Some own \<Rightarrow> do {
          peer \<leftarrow> sd_peer_commit_scalar sae;
          (if crypto_bignum_cmp L own peer \<noteq> 0 then Some False
           else do {
             d1 \<leftarrow> (case st_dh tmp of
                None \<Rightarrow> Some False
              | Some dh \<Rightarrow>
                  (case st_own_commit_element_ffc tmp of
                     None \<Rightarrow> Some True
                   | Some e \<Rightarrow> do {
                       pe \<leftarrow> st_peer_commit_element_ffc tmp;
                       Some (crypto_bignum_cmp L e pe \<noteq> 0) }));
             d2 \<leftarrow> (case st_ec tmp of
                None \<Rightarrow> Some False
              | Some ec \<Rightarrow>
                  (case st_own_commit_element_ecc tmp of
                     None \<Rightarrow> Some True
                   | Some e \<Rightarrow> do {
                       pe \<leftarrow> st_peer_commit_element_ecc tmp;
                       Some (crypto_ec_point_cmp L ec e pe \<noteq> 0) }));
             Some (\<not> d1 \<and> \<not> d2) }) })"

text \<open>\<^verbatim>\<open>sae_parse_commit\<close>: the status, the token if there is one, the new state.\<close>

definition sae_parse_commit ::
  "('g, 'q) openssl \<Rightarrow> bool \<Rightarrow> ('g, 'q) sae_data \<Rightarrow> bytes \<Rightarrow> int list option \<Rightarrow>
   (u16 \<times> bytes option \<times> ('g, 'q) sae_data) run" where
  "sae_parse_commit L all sae data allowed_groups =
     (if length data < 2 then Some (WLAN_STATUS_UNSPECIFIED_FAILURE, None, sae)
      else do {
        (res, sae) \<leftarrow> sae_group_allowed L all sae allowed_groups (WPA_GET_LE16 data);
        (if res \<noteq> WLAN_STATUS_SUCCESS then Some (res, None, sae)
         else do {
           tmp \<leftarrow> sd_tmp sae;
           let (token, pos) = sae_parse_commit_token tmp (drop 2 data);
           (res, sae, pos) \<leftarrow> sae_parse_commit_scalar L sae tmp pos;
           (if res \<noteq> WLAN_STATUS_SUCCESS then Some (res, token, sae)
            else do {
              (res, tmp, pos) \<leftarrow> sae_parse_commit_element L tmp pos;
              let sae = sae\<lparr>sd_tmp := Some tmp\<rparr>;
              (if res \<noteq> WLAN_STATUS_SUCCESS then Some (res, token, sae)
               else
                 let (res, tmp) = sae_parse_password_identifier L tmp pos;
                     sae = sae\<lparr>sd_tmp := Some tmp\<rparr>
                 in if res \<noteq> WLAN_STATUS_SUCCESS then Some (res, token, sae)
                    else do {
                      reflected \<leftarrow> sae_is_reflection L sae tmp;
                      Some (if reflected then SAE_SILENTLY_DISCARD else WLAN_STATUS_SUCCESS, token, sae)
                    }) }) }) })"

subsection \<open>Confirm\<close>

definition sae_cn_confirm ::
  "('g, 'q) openssl \<Rightarrow> ('g, 'q) sae_temporary_data \<Rightarrow> bytes \<Rightarrow> nat option \<Rightarrow> bytes \<Rightarrow> nat option \<Rightarrow> bytes \<Rightarrow>
   bytes run" where
  "sae_cn_confirm L tmp sc scalar1 element1 scalar2 element2 = do {
     scalar1 \<leftarrow> scalar1;
     scalar_b1 \<leftarrow> crypto_bignum_to_bin L scalar1 SAE_MAX_PRIME_LEN (st_prime_len tmp);
     scalar2 \<leftarrow> scalar2;
     scalar_b2 \<leftarrow> crypto_bignum_to_bin L scalar2 SAE_MAX_PRIME_LEN (st_prime_len tmp);
     hmac_sha256_vector (st_kck tmp)
       [take 2 sc, take (st_prime_len tmp) scalar_b1, element1,
        take (st_prime_len tmp) scalar_b2, element2] }"

text \<open>The two coordinates of an element as one buffer; a missing one was never written.\<close>

definition ecc_element_bin ::
  "('g, 'q) openssl \<Rightarrow> 'g crypto_ec \<Rightarrow> 'q option \<Rightarrow> bytes run" where
  "ecc_element_bin L ec e = do {
     e \<leftarrow> e;
     (x, y) \<leftarrow> crypto_ec_point_to_bin L ec e;
     x \<leftarrow> x;
     y \<leftarrow> y;
     Some (x @ y) }"

definition sae_cn_confirm_ecc ::
  "('g, 'q) openssl \<Rightarrow> ('g, 'q) sae_temporary_data \<Rightarrow> 'g crypto_ec \<Rightarrow> bytes \<Rightarrow>
   nat option \<Rightarrow> 'q option \<Rightarrow> nat option \<Rightarrow> 'q option \<Rightarrow> bytes run" where
  "sae_cn_confirm_ecc L tmp ec sc scalar1 element1 scalar2 element2 = do {
     element_b1 \<leftarrow> ecc_element_bin L ec element1;
     element_b2 \<leftarrow> ecc_element_bin L ec element2;
     sae_cn_confirm L tmp sc scalar1 element_b1 scalar2 element_b2 }"

definition sae_cn_confirm_ffc ::
  "('g, 'q) openssl \<Rightarrow> ('g, 'q) sae_temporary_data \<Rightarrow> bytes \<Rightarrow>
   nat option \<Rightarrow> nat option \<Rightarrow> nat option \<Rightarrow> nat option \<Rightarrow> bytes run" where
  "sae_cn_confirm_ffc L tmp sc scalar1 element1 scalar2 element2 = do {
     element1 \<leftarrow> element1;
     element_b1 \<leftarrow> crypto_bignum_to_bin L element1 SAE_MAX_PRIME_LEN (st_prime_len tmp);
     element2 \<leftarrow> element2;
     element_b2 \<leftarrow> crypto_bignum_to_bin L element2 SAE_MAX_PRIME_LEN (st_prime_len tmp);
     sae_cn_confirm L tmp sc scalar1 (take (st_prime_len tmp) element_b1) scalar2
       (take (st_prime_len tmp) element_b2) }"

definition sae_write_confirm ::
  "('g, 'q) openssl \<Rightarrow> ('g, 'q) sae_data \<Rightarrow> wpabuf \<Rightarrow> (('g, 'q) sae_data \<times> wpabuf) run" where
  "sae_write_confirm L sae buf =
     (case sd_tmp sae of
        None \<Rightarrow> Some (sae, buf)
      | Some tmp \<Rightarrow> do {
          let sc = WPA_PUT_LE16 (sd_send_confirm sae);
          buf \<leftarrow> wpabuf_put_le16 buf (sd_send_confirm sae);
          let sae = (if sd_send_confirm sae < 0xffff
                     then sae\<lparr>sd_send_confirm := sd_send_confirm sae + 1\<rparr> else sae);
          confirm \<leftarrow> (case st_ec tmp of
             Some ec \<Rightarrow> sae_cn_confirm_ecc L tmp ec sc (st_own_commit_scalar tmp)
                          (st_own_commit_element_ecc tmp) (sd_peer_commit_scalar sae)
                          (st_peer_commit_element_ecc tmp)
           | None \<Rightarrow> sae_cn_confirm_ffc L tmp sc (st_own_commit_scalar tmp)
                       (st_own_commit_element_ffc tmp) (sd_peer_commit_scalar sae)
                       (st_peer_commit_element_ffc tmp));
          buf \<leftarrow> wpabuf_put_field buf 32 (Some confirm);
          Some (sae, buf) })"

definition sae_check_confirm :: "('g, 'q) openssl \<Rightarrow> ('g, 'q) sae_data \<Rightarrow> bytes \<Rightarrow> int run" where
  "sae_check_confirm L sae data =
     (if length data < 2 + 32 then Some (- 1)
      else case sd_tmp sae of
             None \<Rightarrow> Some (- 1)
           | Some tmp \<Rightarrow> do {
               verifier \<leftarrow> (case st_ec tmp of
                  Some ec \<Rightarrow> sae_cn_confirm_ecc L tmp ec data (sd_peer_commit_scalar sae)
                               (st_peer_commit_element_ecc tmp) (st_own_commit_scalar tmp)
                               (st_own_commit_element_ecc tmp)
                | None \<Rightarrow> sae_cn_confirm_ffc L tmp data (sd_peer_commit_scalar sae)
                            (st_peer_commit_element_ffc tmp) (st_own_commit_scalar tmp)
                            (st_own_commit_element_ffc tmp));
               Some (if os_memcmp_const verifier (drop 2 data) 32 \<noteq> 0 then - 1 else 0) })"

fun sae_state_txt :: "sae_state \<Rightarrow> string" where
  "sae_state_txt SAE_NOTHING = ''Nothing''"
| "sae_state_txt SAE_COMMITTED = ''Committed''"
| "sae_state_txt SAE_CONFIRMED = ''Confirmed''"
| "sae_state_txt SAE_ACCEPTED = ''Accepted''"

end
