(* ===== verification/SaeFfc.thy ===== *)
theory SaeFfc
  imports Sae
begin

text \<open>
  SAE over the finite field groups: the password element lies in the subgroup, the commit scalar and
  element have the form that the protocol needs, and two parties that know the same password compute
  the same \<open>K\<close>.  The group laws come from an interpretation of the locale \<open>sae_group\<close>, which is also
  what an elliptic curve group provides.
\<close>

subsection \<open>Password seed\<close>

lemma sae_pwd_seed_key_sym:
  assumes "length a = length b"
  shows "sae_pwd_seed_key a b = sae_pwd_seed_key b a"
proof -
  have "os_memcmp b a = - os_memcmp a b" by (rule os_memcmp_swap)
  moreover have "os_memcmp a b = 0 \<Longrightarrow> a = b" using assms os_memcmp_0 by blast
  ultimately show ?thesis by (auto simp: sae_pwd_seed_key_def)
qed

subsection \<open>The group of a Diffie-Hellman group\<close>

text \<open>The elements \<open>x\<close> with \<open>x ^ r = 1\<close> modulo \<open>p\<close>.\<close>

definition ffc_elem :: "nat \<Rightarrow> nat \<Rightarrow> nat \<Rightarrow> bool" where
  "ffc_elem p r x \<longleftrightarrow> 1 < p \<and> x < p \<and> x ^ r mod p = 1"

text \<open>What both kinds of groups give the protocol: a commutative group with scalar multiplication,
  in which \<open>r\<close> times anything is the neutral element.\<close>

locale sae_group =
  fixes elem :: "'e \<Rightarrow> bool" and plus :: "'e \<Rightarrow> 'e \<Rightarrow> 'e" and zero :: 'e
    and smul :: "nat \<Rightarrow> 'e \<Rightarrow> 'e" and r :: nat
  assumes plus_closed: "elem x \<Longrightarrow> elem y \<Longrightarrow> elem (plus x y)"
    and zero_elem: "elem x \<Longrightarrow> elem zero"
    and assoc: "elem x \<Longrightarrow> elem y \<Longrightarrow> elem z \<Longrightarrow> plus (plus x y) z = plus x (plus y z)"
    and comm: "elem x \<Longrightarrow> elem y \<Longrightarrow> plus x y = plus y x"
    and zero_plus: "elem x \<Longrightarrow> plus zero x = x"
    and smul_0: "elem x \<Longrightarrow> smul 0 x = zero"
    and smul_Suc: "elem x \<Longrightarrow> smul (Suc n) x = plus x (smul n x)"
    and smul_r: "elem x \<Longrightarrow> smul r x = zero"
begin

lemma smul_closed: "elem x \<Longrightarrow> elem (smul n x)"
  by (induction n) (auto simp: smul_0 smul_Suc intro: plus_closed zero_elem)

lemma smul_add: "elem x \<Longrightarrow> smul (m + n) x = plus (smul m x) (smul n x)"
  by (induction m) (simp_all add: smul_0 smul_Suc zero_plus smul_closed assoc)

lemma smul_zero: "elem x \<Longrightarrow> smul n zero = zero"
  by (induction n) (simp_all add: smul_0 [OF zero_elem] smul_Suc [OF zero_elem] zero_plus [OF zero_elem])

lemma smul_mult: "elem x \<Longrightarrow> smul (m * n) x = smul m (smul n x)"
  by (induction m) (simp_all add: smul_0 smul_Suc smul_add smul_closed)

lemma smul_mod: "elem x \<Longrightarrow> smul (n mod r) x = smul n x"
proof -
  assume x: "elem x"
  have "smul n x = smul ((n div r) * r + n mod r) x" by simp
  also have "\<dots> = plus (smul (n div r) (smul r x)) (smul (n mod r) x)"
    by (simp only: smul_add [OF x] smul_mult [OF x])
  also have "\<dots> = smul (n mod r) x"
    by (simp add: smul_r x smul_zero [OF x] zero_plus smul_closed)
  finally show ?thesis by simp
qed

text \<open>In a group of prime order only the multiples of the order annihilate an element.\<close>

lemma smul_ne_zero:
  assumes x: "elem x" "x \<noteq> zero" and r: "is_prime r" and m: "\<not> r dvd m"
  shows "smul m x \<noteq> zero"
proof
  assume z: "smul m x = zero"
  have "gcd m r = 1" using prime_coprime [OF r m] by (simp add: coprime_iff_gcd_eq_1 gcd.commute)
  moreover have "m \<noteq> 0" using m by (metis dvd_0_right)
  ultimately obtain u v where uv: "u * m = v * r + 1" using bezout_nat [of m r] by (auto simp: mult.commute)
  have "smul (u * m) x = zero" using x z by (simp add: smul_mult smul_zero)
  moreover have "smul (v * r + 1) x = x"
    using x by (simp add: smul_add smul_mult smul_r smul_zero zero_plus smul_Suc smul_0 comm [OF _ zero_elem] smul_closed)
  ultimately show False using x(2) uv by simp
qed

text \<open>A commit element \<open>E\<close> cancels the mask in the scalar.\<close>

lemma commit_cancel:
  assumes "elem P" and "elem E" and "plus E (smul m P) = zero" and "s = (rand + m) mod r"
  shows "plus (smul s P) E = smul rand P"
proof -
  have "plus (smul s P) E = plus (plus (smul rand P) (smul m P)) E"
    using assms by (simp add: smul_mod smul_add)
  also have "\<dots> = plus (smul rand P) (plus (smul m P) E)"
    using assms by (intro assoc smul_closed)
  also have "plus (smul m P) E = zero"
    using assms(3) comm [OF smul_closed [OF assms(1), of m] assms(2)] by simp
  also have "plus (smul rand P) zero = plus zero (smul rand P)"
    using assms(1) by (intro comm smul_closed zero_elem)
  also have "\<dots> = smul rand P" using assms by (simp add: zero_plus smul_closed)
  finally show ?thesis .
qed

text \<open>Both parties compute the same \<open>K\<close>.\<close>

lemma commit_agree:
  assumes "elem P" and "elem E1" "elem E2" and "plus E1 (smul m1 P) = zero" "plus E2 (smul m2 P) = zero"
    and "s1 = (rand1 + m1) mod r" "s2 = (rand2 + m2) mod r"
  shows "smul rand1 (plus (smul s2 P) E2) = smul (rand1 * rand2) P"
    and "smul rand2 (plus (smul s1 P) E1) = smul (rand1 * rand2) P"
proof -
  show "smul rand1 (plus (smul s2 P) E2) = smul (rand1 * rand2) P"
    using commit_cancel [OF assms(1,3,5,7)] assms(1) by (simp add: smul_mult)
  show "smul rand2 (plus (smul s1 P) E1) = smul (rand1 * rand2) P"
    using commit_cancel [OF assms(1,2,4,6)] assms(1) by (simp add: smul_mult [symmetric] mult.commute)
qed

end

interpretation ffc: sae_group "ffc_elem p r" "\<lambda>x y. x * y mod p" "1 :: nat" "\<lambda>n x. x ^ n mod p" r
  for p r
proof
  fix x y z n
  show "ffc_elem p r x \<Longrightarrow> ffc_elem p r y \<Longrightarrow> ffc_elem p r (x * y mod p)"
    by (auto simp: ffc_elem_def power_mod power_mult_distrib)
      (metis mod_mult_eq mult_1 mod_less One_nat_def)
  show "ffc_elem p r x \<Longrightarrow> ffc_elem p r 1" by (simp add: ffc_elem_def)
  show "(x * y mod p) * z mod p = x * (y * z mod p) mod p"
    by (simp add: mod_mult_left_eq mod_mult_right_eq mult.assoc)
  show "x * y mod p = y * x mod p" by (simp add: mult.commute)
  show "ffc_elem p r x \<Longrightarrow> 1 * x mod p = x" by (simp add: ffc_elem_def)
  show "ffc_elem p r x \<Longrightarrow> x ^ 0 mod p = 1" by (simp add: ffc_elem_def)
  show "x ^ Suc n mod p = x * (x ^ n mod p) mod p" by (simp add: mod_mult_right_eq)
  show "ffc_elem p r x \<Longrightarrow> x ^ r mod p = 1" by (simp add: ffc_elem_def)
qed

lemma ffc_inverse:
  assumes "ffc_elem p r x" and "0 < r"
  shows "ffc_elem p r (x ^ (r - 1) mod p)" and "x * (x ^ (r - 1)) mod p = 1"
    and "(x ^ (r - 1) mod p) * x mod p = 1"
proof -
  show "ffc_elem p r (x ^ (r - 1) mod p)" using assms(1) by (rule ffc.smul_closed)
  have "x * (x ^ (r - 1)) = x ^ r" using assms(2) by (cases r) simp_all
  then show "x * (x ^ (r - 1)) mod p = 1" using assms(1) by (simp add: ffc_elem_def)
  then show "(x ^ (r - 1) mod p) * x mod p = 1" by (simp add: mod_mult_right_eq mult.commute)
qed

subsection \<open>Derivation of the password element\<close>

text \<open>The numbers of a group of the table.\<close>

abbreviation dh_p :: "dh_group \<Rightarrow> nat" where "dh_p dh \<equiv> be_val (dg_prime dh)"
abbreviation dh_r :: "dh_group \<Rightarrow> nat" where "dh_r dh \<equiv> be_val (dg_order dh)"

lemma dh_group_okD:
  assumes "dh_group_ok dh"
  shows "2 < dh_r dh" "dh_r dh < dh_p dh" "odd (dh_p dh)" "dh_r dh dvd dh_p dh - 1"
    "dg_safe_prime dh \<Longrightarrow> dh_p dh = 2 * dh_r dh + 1"
    "length (dg_order dh) \<le> length (dg_prime dh)" "1 < dh_p dh" "0 < length (dg_prime dh)"
  using assms by (auto simp: dh_group_ok_def Let_def)

context openssl_bn
begin

lemma pwd_value_length:
  assumes "sha256_prf_bits seed label data (n * 8) = Some v"
  shows "length v = n"
  using sha256_prf_bits_eq [of "n * 8" n seed label data] assms
  by (auto simp: length_kdf_stream len_simps)

lemma test_pwd_seed_ffc:
  assumes dh: "dh_group_ok dh" and prime: "is_prime (dh_p dh)"
    and res: "sae_test_pwd_seed_ffc L dh (dh_p dh) (dh_r dh) seed = (res, new)"
  shows "0 \<le> res" and "0 < res \<Longrightarrow> \<exists>pwe. new = Some pwe \<and> ffc_elem (dh_p dh) (dh_r dh) pwe \<and> 1 < pwe"
proof -
  note g = dh_group_okD [OF dh]
  define b where "b = (if dg_safe_prime dh then 2 else (dh_p dh - 1) div dh_r dh)"
  have br: "b * dh_r dh = dh_p dh - 1" using g by (auto simp: b_def)
  have b0: "0 < b" using br g by (cases b) auto
  let ?n = "length (dg_prime dh)"
  obtain v where v: "sha256_prf_bits seed (ascii ''SAE Hunting and Pecking'') (dg_prime dh) (?n * 8) = Some v"
    using sha256_prf_bits_eq [of "?n * 8" ?n] by simp
  have len: "length v = ?n" using pwd_value_length [OF v] .
  let ?pwe = "be_val v ^ b mod dh_p dh"
  have val: "sae_test_pwd_seed_ffc L dh (dh_p dh) (dh_r dh) seed =
      (if dh_p dh \<le> be_val v then (0, None)
       else (if ?pwe = 0 \<or> ?pwe = 1 then 0 else 1, Some ?pwe))"
    using g v os_memcmp_be_val [OF len]
    by (simp add: sae_test_pwd_seed_ffc_def bn_ops Let_def b_def)
  show "0 \<le> res" using val res by (auto split: if_splits)
  assume pos: "0 < res"
  with val res have new: "new = Some ?pwe" "be_val v < dh_p dh" "?pwe \<noteq> 0" "?pwe \<noteq> 1"
    by (auto split: if_splits)
  have "be_val v \<noteq> 0" using new(3) b0 by (cases "be_val v = 0") (auto simp: zero_power)
  then have "\<not> dh_p dh dvd be_val v" using new(2) by (auto dest: dvd_imp_le)
  from fermat [OF prime this] have "?pwe ^ dh_r dh mod dh_p dh = 1"
    by (simp add: pow_mod_pow br)
  then have "ffc_elem (dh_p dh) (dh_r dh) ?pwe" using g by (simp add: ffc_elem_def)
  moreover have "1 < ?pwe" using new(3,4) by linarith
  ultimately show "\<exists>pwe. new = Some pwe \<and> ffc_elem (dh_p dh) (dh_r dh) pwe \<and> 1 < pwe"
    using new(1) by blast
qed

lemma pwe_ffc_loop_elem:
  assumes "dh_group_ok dh" and "is_prime (dh_p dh)"
    and "pwe_ffc_loop L dh (dh_p dh) (dh_r dh) addrs pw ident n pwe0 = (True, pwe)"
  shows "ffc_elem (dh_p dh) (dh_r dh) pwe \<and> 1 < pwe"
  using assms(3)
proof (induction "200 - n" arbitrary: n pwe0 rule: less_induct)
  case less
  then have n: "n \<le> 200" by (subst (asm) (2) pwe_ffc_loop.simps) (auto split: if_splits)
  obtain seed where seed: "hmac_sha256_vector addrs (pwd_seed_data pw ident n) = Some seed"
    by (cases ident) (simp_all add: hmac_sha256_vector_eq pwd_seed_data_def)
  obtain res new where t: "sae_test_pwd_seed_ffc L dh (dh_p dh) (dh_r dh) seed = (res, new)" by fastforce
  note test = test_pwd_seed_ffc [OF assms(1,2) t]
  show ?case
  proof (cases "0 < res")
    case True
    with test less.prems n seed t show ?thesis by (subst (asm) pwe_ffc_loop.simps) (auto simp: Let_def)
  next
    case False
    with test(1) have res0: "res = 0" by simp
    have step: "pwe_ffc_loop L dh (dh_p dh) (dh_r dh) addrs pw ident (n + 1)
        (case new of None \<Rightarrow> pwe0 | Some v \<Rightarrow> v) = (True, pwe)"
      using less.prems n seed t res0 by (subst (asm) pwe_ffc_loop.simps) (simp add: Let_def)
    then have "n + 1 \<le> 200" by (subst (asm) pwe_ffc_loop.simps) (auto split: if_splits)
    then show ?thesis using less.hyps [OF _ step] by simp
  qed
qed

end

subsection \<open>Derivation of the commit\<close>

text \<open>What \<^verbatim>\<open>sae_prepare_commit\<close> leaves in a finite field instance.\<close>

definition ffc_instance :: "dh_group \<Rightarrow> ('g, 'q) sae_temporary_data \<Rightarrow> bool" where
  "ffc_instance dh tmp \<longleftrightarrow> st_ec tmp = None \<and> st_dh tmp = Some dh \<and>
     st_prime_len tmp = length (dg_prime dh) \<and> st_prime tmp = Some (dh_p dh) \<and>
     st_order tmp = Some (dh_r dh)"

definition ffc_commit :: "dh_group \<Rightarrow> nat \<Rightarrow> nat \<Rightarrow> nat \<Rightarrow> nat \<Rightarrow> nat \<Rightarrow> bool" where
  "ffc_commit dh pwe rand m s e \<longleftrightarrow>
     1 < rand \<and> rand < dh_r dh \<and> 1 < m \<and> m < dh_r dh \<and> s = (rand + m) mod dh_r dh \<and> 1 < s \<and>
     ffc_elem (dh_p dh) (dh_r dh) e \<and> e * (pwe ^ m mod dh_p dh) mod dh_p dh = 1"

definition ffc_committed ::
  "dh_group \<Rightarrow> nat \<Rightarrow> nat \<Rightarrow> nat \<Rightarrow> nat \<Rightarrow> nat \<Rightarrow> ('g, 'q) sae_temporary_data \<Rightarrow> bool" where
  "ffc_committed dh pwe rand m s e tmp \<longleftrightarrow>
     ffc_instance dh tmp \<and> st_pwe_ffc tmp = Some pwe \<and> ffc_elem (dh_p dh) (dh_r dh) pwe \<and> 1 < pwe \<and>
     st_sae_rand tmp = Some rand \<and> st_own_commit_scalar tmp = Some s \<and>
     st_own_commit_element_ffc tmp = Some e \<and> ffc_commit dh pwe rand m s e"

context openssl_bn
begin

lemma sae_get_rand_loop_some:
  "sae_get_rand_loop L r bits n rnd = (Some x, rnd') \<Longrightarrow> 1 < x \<and> x < r"
proof (induction n arbitrary: rnd)
  case (Suc n)
  obtain v rnd1 where d: "random_get_bytes ((bits + 7) div 8) rnd = (v, rnd1)" by fastforce
  with Suc show ?case
    by (cases v) (auto simp: bn_ops split: if_splits)
qed simp

lemma sae_get_rand_some:
  "sae_get_rand L tmp rnd = Some (Some x, rnd') \<Longrightarrow> st_order tmp = Some r \<Longrightarrow> 1 < x \<and> x < r"
  by (auto simp: sae_get_rand_def Let_def split: if_splits dest: sae_get_rand_loop_some)

lemma sae_get_rand_and_mask_some:
  assumes "sae_get_rand_and_mask L tmp rnd = Some (Some m, tmp', rnd')" and "st_order tmp = Some r"
  shows "\<exists>x. 1 < x \<and> x < r \<and> 1 < m \<and> m < r \<and> tmp' = tmp\<lparr>st_sae_rand := Some x\<rparr>"
proof -
  from assms(1) obtain x rnd1 where x: "sae_get_rand L tmp rnd = Some (Some x, rnd1)"
    and m: "sae_get_rand L (tmp\<lparr>st_sae_rand := Some x\<rparr>) rnd1 = Some (Some m, rnd')"
    and t: "tmp' = tmp\<lparr>st_sae_rand := Some x\<rparr>"
    by (auto simp: sae_get_rand_and_mask_def Let_def split: Option.bind_splits option.splits)
  have "1 < m \<and> m < r" by (rule sae_get_rand_some [OF m]) (simp add: assms(2))
  with sae_get_rand_some [OF x assms(2)] t show ?thesis by blast
qed

lemma add_mod_unchecked: "0 < r \<Longrightarrow> add_mod_unchecked L a b r old = (a + b) mod r"
  by (simp add: add_mod_unchecked_def bn_ops Let_def)

lemma sae_derive_commit_loop_some:
  assumes "sae_derive_commit_loop L n tmp rnd = Some (Some m, tmp', rnd')"
    and "st_order tmp = Some r" and "0 < r"
  shows "\<exists>rand. 1 < rand \<and> rand < r \<and> 1 < m \<and> m < r \<and> 1 < (rand + m) mod r \<and>
     tmp' = tmp\<lparr>st_sae_rand := Some rand, st_own_commit_scalar := Some ((rand + m) mod r)\<rparr>"
  using assms(1,2)
proof (induction n arbitrary: tmp rnd)
  case (Suc n)
  from Suc.prems(1) obtain mm tmp1 rnd1 where mk: "sae_get_rand_and_mask L tmp rnd = Some (mm, tmp1, rnd1)"
    by (auto split: Option.bind_splits)
  with Suc.prems(1) obtain m1 where mm: "mm = Some m1"
    by (cases mm) (auto split: option.splits)
  from sae_get_rand_and_mask_some [OF mk [unfolded mm] Suc.prems(2)] obtain x where
    x: "1 < x" "x < r" "1 < m1" "m1 < r" and t: "tmp1 = tmp\<lparr>st_sae_rand := Some x\<rparr>" by blast
  define tmp2 where "tmp2 = tmp\<lparr>st_sae_rand := Some x, st_own_commit_scalar := Some ((x + m1) mod r)\<rparr>"
  obtain s0 where "(case st_own_commit_scalar tmp1 of None \<Rightarrow> crypto_bignum_init L | Some s \<Rightarrow> Some s) = Some s0"
    by (cases "st_own_commit_scalar tmp1") (simp_all add: bn_ops)
  then have body: "sae_derive_commit_loop L (Suc n) tmp rnd =
      (if (x + m1) mod r = 0 \<or> (x + m1) mod r = 1 then sae_derive_commit_loop L n tmp2 rnd1
       else Some (Some m1, tmp2, rnd1))"
    using mk mm t Suc.prems(2) assms(3)
    by (auto simp: add_mod_unchecked crypto_bignum_is_zero_def crypto_bignum_is_one_def tmp2_def Let_def)
  show ?case
  proof (cases "(x + m1) mod r = 0 \<or> (x + m1) mod r = 1")
    case True
    with body Suc.prems have "sae_derive_commit_loop L n tmp2 rnd1 = Some (Some m, tmp', rnd')" by simp
    from Suc.IH [OF this] Suc.prems(2) show ?thesis by (auto simp: tmp2_def)
  next
    case False
    with body Suc.prems have "m = m1" "tmp' = tmp2" by auto
    with x False show ?thesis by (auto simp: tmp2_def)
  qed
qed simp

lemma sae_get_rand_and_mask_pw_id:
  "sae_get_rand_and_mask L tmp rnd = Some (m, tmp', rnd') \<Longrightarrow> st_pw_id tmp' = st_pw_id tmp"
  by (auto simp: sae_get_rand_and_mask_def Let_def split: Option.bind_splits option.splits)

lemma sae_derive_commit_loop_pw_id:
  "sae_derive_commit_loop L n tmp rnd = Some (m, tmp', rnd') \<Longrightarrow> st_pw_id tmp' = st_pw_id tmp"
proof (induction n arbitrary: tmp rnd)
  case (Suc n)
  then show ?case
    by (auto simp: Let_def split: Option.bind_splits option.splits if_splits
        dest!: sae_get_rand_and_mask_pw_id)
qed simp

lemma sae_derive_commit_pw_id:
  assumes "sae_derive_commit L tmp rnd = Some (res, tmp', rnd')"
  shows "st_pw_id tmp' = st_pw_id tmp"
proof -
  from assms obtain m tmp1 rnd1 where lp: "sae_derive_commit_loop L 100 tmp rnd = Some (m, tmp1, rnd1)"
    by (auto simp: sae_derive_commit_def simp del: sae_derive_commit_loop.simps split: Option.bind_splits)
  have "st_pw_id tmp1 = st_pw_id tmp" using sae_derive_commit_loop_pw_id [OF lp] .
  with assms lp show ?thesis
    by (auto simp: sae_derive_commit_def sae_derive_commit_element_ffc_def sae_derive_commit_element_ecc_def
        simp del: sae_derive_commit_loop.simps split: Option.bind_splits option.splits if_splits)
qed

lemma sae_derive_commit_ffc:
  assumes ok: "sae_derive_commit L tmp rnd = Some (0, tmp', rnd')"
    and inst: "ffc_instance dh tmp" and dh: "dh_group_ok dh"
    and pwe: "st_pwe_ffc tmp = Some pwe" "ffc_elem (dh_p dh) (dh_r dh) pwe" "1 < pwe"
  shows "\<exists>rand m s e. ffc_committed dh pwe rand m s e tmp'"
proof -
  let ?p = "dh_p dh" and ?r = "dh_r dh"
  note g = dh_group_okD [OF dh]
  from ok obtain mm tmp1 rnd1 where lp: "sae_derive_commit_loop L 100 tmp rnd = Some (mm, tmp1, rnd1)"
    by (auto simp: sae_derive_commit_def simp del: sae_derive_commit_loop.simps split: Option.bind_splits)
  with ok obtain m where m: "mm = Some m"
    by (cases mm) (auto simp: sae_derive_commit_def simp del: sae_derive_commit_loop.simps)
  have ord: "st_order tmp = Some ?r" "0 < ?r" using inst g by (auto simp: ffc_instance_def)
  from sae_derive_commit_loop_some [OF lp [unfolded m] ord] obtain rand where
    c: "1 < rand" "rand < ?r" "1 < m" "m < ?r" "1 < (rand + m) mod ?r"
    and t1: "tmp1 = tmp\<lparr>st_sae_rand := Some rand, st_own_commit_scalar := Some ((rand + m) mod ?r)\<rparr>"
    by blast
  define pm where "pm = pwe ^ m mod ?p"
  define e where "e = pm ^ (?r - 1) mod ?p"
  have pm: "ffc_elem ?p ?r pm" unfolding pm_def by (rule ffc.smul_closed [OF pwe(2)])
  note inv = ffc_inverse [OF pm ord(2)]
  have "crypto_bignum_inverse L pm ?p = Some e"
    unfolding e_def by (rule inverse_unique [OF _ inv(2)]) (use g in simp)
  moreover have "crypto_bignum_exptmod L pwe m ?p = Some pm" using g by (simp add: bn_ops pm_def)
  ultimately have "sae_derive_commit_element_ffc L tmp1 m =
      Some (0, tmp1\<lparr>st_own_commit_element_ffc := Some e\<rparr>)"
    using inst pwe(1) t1
    by (auto simp: sae_derive_commit_element_ffc_def ffc_instance_def bn_ops split: option.splits)
  then have "tmp' = tmp1\<lparr>st_own_commit_element_ffc := Some e\<rparr>"
    using ok lp m inst t1
    by (simp add: sae_derive_commit_def ffc_instance_def del: sae_derive_commit_loop.simps)
  moreover have "ffc_elem ?p ?r e" "e * pm mod ?p = 1" using inv by (simp_all add: e_def)
  ultimately have "ffc_committed dh pwe rand m ((rand + m) mod ?r) e tmp'"
    using inst pwe c t1 by (simp add: ffc_committed_def ffc_instance_def ffc_commit_def pm_def)
  then show ?thesis by blast
qed

text \<open>A whole \<^verbatim>\<open>sae_prepare_commit\<close> that returns 0.\<close>

lemma sae_prepare_commit_ffc:
  assumes ok: "sae_prepare_commit L a1 a2 pw ident sae rnd = Some (0, sae', rnd')"
    and tmp: "sd_tmp sae = Some tmp" and inst: "ffc_instance dh tmp" and dh: "dh_group_ok dh"
    and prime: "is_prime (dh_p dh)" and fresh: "st_pwe_ffc tmp = None"
  shows "\<exists>pwe rand m s e tmp'. sae' = sae\<lparr>sd_tmp := Some tmp'\<rparr> \<and>
     pwe_ffc_loop L dh (dh_p dh) (dh_r dh) (sae_pwd_seed_key a1 a2) pw ident 1 0 = (True, pwe) \<and>
     ffc_committed dh pwe rand m s e tmp'"
proof -
  obtain found pwe where lp: "pwe_ffc_loop L dh (dh_p dh) (dh_r dh) (sae_pwd_seed_key a1 a2) pw ident 1 0 =
      (found, pwe)" by fastforce
  define tmp1 where "tmp1 = tmp\<lparr>st_pwe_ffc := Some pwe\<rparr>"
  have d: "sae_derive_pwe_ffc L tmp dh a1 a2 pw ident = Some (if found then 0 else - 1, tmp1)"
    using inst fresh lp by (simp add: sae_derive_pwe_ffc_def ffc_instance_def bn_ops tmp1_def)
  have f: found using ok tmp inst d by (auto simp: sae_prepare_commit_def ffc_instance_def split: if_splits)
  from ok tmp inst d f obtain res tmp' where
    c: "sae_derive_commit L tmp1 rnd = Some (res, tmp', rnd')" and res: "0 \<le> res"
    and sae': "sae' = sae\<lparr>sd_tmp := Some tmp'\<rparr>"
    by (auto simp: sae_prepare_commit_def ffc_instance_def split: Option.bind_splits if_splits)
  have "res = 0" using c res
    by (auto simp: sae_derive_commit_def simp del: sae_derive_commit_loop.simps
        split: Option.bind_splits option.splits if_splits)
  have inst1: "ffc_instance dh tmp1" using inst by (simp add: ffc_instance_def tmp1_def)
  have pwe: "ffc_elem (dh_p dh) (dh_r dh) pwe \<and> 1 < pwe"
    by (rule pwe_ffc_loop_elem [OF dh prime]) (use lp f in simp)
  obtain rand m s e where "ffc_committed dh pwe rand m s e tmp'"
    using sae_derive_commit_ffc [OF c [unfolded \<open>res = 0\<close>] inst1 dh] pwe by (auto simp: tmp1_def)
  moreover from lp f have "pwe_ffc_loop L dh (dh_p dh) (dh_r dh) (sae_pwd_seed_key a1 a2) pw ident 1 0 =
      (True, pwe)" by simp
  ultimately show ?thesis using sae' by blast
qed

end

end
