(* ===== verification/SaeMsg.thy ===== *)
theory SaeMsg
  imports SaeFfc
begin

text \<open>
  The Commit and Confirm messages of SAE over the finite field groups: what \<^verbatim>\<open>sae_write_commit\<close>
  writes, \<^verbatim>\<open>sae_parse_commit\<close> reads back; two parties with the same password element derive the
  same keys and accept each other's Confirm; the parser rejects every element outside the subgroup.
\<close>

subsection \<open>Elements of prime order\<close>

lemma ffc_pow_ne_1:
  "ffc_elem p r x \<Longrightarrow> x \<noteq> 1 \<Longrightarrow> is_prime r \<Longrightarrow> \<not> r dvd m \<Longrightarrow> x ^ m mod p \<noteq> 1"
  by (rule ffc.smul_ne_zero)

lemma ffc_pow_elem: "ffc_elem p r x \<Longrightarrow> ffc_elem p r (x ^ n mod p)"
  by (rule ffc.smul_closed)

text \<open>A commit element passes the receiver's range checks.\<close>

lemma ffc_commit_element_valid:
  assumes c: "ffc_commit dh pwe rand m s e" and pwe: "ffc_elem (dh_p dh) (dh_r dh) pwe" "1 < pwe"
    and dh: "dh_group_ok dh" and r: "is_prime (dh_r dh)"
  shows "1 < e" "e < dh_p dh - 1"
proof -
  let ?p = "dh_p dh" and ?r = "dh_r dh"
  note g = dh_group_okD [OF dh]
  have e: "ffc_elem ?p ?r e" "e * (pwe ^ m mod ?p) mod ?p = 1" "1 < m" "m < ?r"
    using c by (auto simp: ffc_commit_def)
  have "e \<noteq> 0" using e(2) by (cases "e = 0") auto
  moreover have "\<not> ?r dvd m" using e by (auto dest: dvd_imp_le)
  then have "pwe ^ m mod ?p \<noteq> 1" using ffc_pow_ne_1 [OF pwe(1) _ r] pwe(2) by simp
  then have e1: "e \<noteq> 1" using e(2) by auto
  ultimately show "1 < e" by simp
  have "\<not> ?r dvd 2" using g by (auto dest: dvd_imp_le)
  then have "e ^ 2 mod ?p \<noteq> 1" by (rule ffc_pow_ne_1 [OF e(1) e1 r])
  moreover have "(?p - 1) ^ 2 mod ?p = 1"
    using minus_one_mult [of ?p "?p - 1"] g by (simp add: power2_eq_square)
  ultimately have "e \<noteq> ?p - 1" by auto
  moreover have "e < ?p" using e(1) by (simp add: ffc_elem_def)
  ultimately show "e < ?p - 1" by simp
qed

subsection \<open>Writing\<close>

text \<open>The fields of a Commit message.\<close>

definition pw_id_elem :: "bytes option \<Rightarrow> bytes" where
  "pw_id_elem ident = (case ident of None \<Rightarrow> []
     | Some i \<Rightarrow> [WLAN_EID_EXTENSION, word_of_nat (1 + length i), WLAN_EID_EXT_PASSWORD_IDENTIFIER] @ i)"

definition commit_msg :: "int \<Rightarrow> bytes \<Rightarrow> bytes \<Rightarrow> bytes \<Rightarrow> bytes option \<Rightarrow> bytes" where
  "commit_msg grp token scalar element ident =
     WPA_PUT_LE16 (word_of_int grp) @ token @ scalar @ element @ pw_id_elem ident"

definition commit_fields :: "int \<Rightarrow> bytes option \<Rightarrow> bytes \<Rightarrow> bytes \<Rightarrow> bytes option \<Rightarrow> bytes list" where
  "commit_fields grp token scalar element ident =
     [WPA_PUT_LE16 (word_of_int grp)] @ (case token of None \<Rightarrow> [] | Some t \<Rightarrow> [t]) @ [scalar, element] @
     (case ident of None \<Rightarrow> [] | Some i \<Rightarrow> [[WLAN_EID_EXTENSION], [word_of_nat (1 + length i)],
        [WLAN_EID_EXT_PASSWORD_IDENTIFIER], i])"

lemma concat_commit_fields:
  "concat (commit_fields grp token scalar element ident) =
     commit_msg grp (case token of None \<Rightarrow> [] | Some t \<Rightarrow> t) scalar element ident"
  by (auto simp: commit_fields_def commit_msg_def pw_id_elem_def split: option.splits)

lemma wpabuf_put_field_bytes:
  "length d = n \<Longrightarrow> wpabuf_put_field b n (Some d) = wpabuf_put_bytes b d"
  by (auto simp: wpabuf_put_field_def wpabuf_put_bytes_def wpabuf_put_data_def)

lemma put_all_append: "put_all put b (xs @ ys) = do { b \<leftarrow> put_all put b xs; put_all put b ys }"
  by (induction xs arbitrary: b) (simp_all add: bind_assoc)

text \<open>The Commit fits into the buffer that the callers allocate.\<close>

lemma commit_fields_alloc:
  assumes buf: "wpabuf_alloc malloc (word_of_nat (SAE_COMMIT_MAX_LEN + n)) = Some buf" and n: "n < 2 ^ 32"
    and len: "length scalar + length element \<le> 2 * SAE_MAX_PRIME_LEN"
    and tok: "case token of None \<Rightarrow> True | Some t \<Rightarrow> length t \<le> SAE_MAX_PRIME_LEN"
    and idn: "(case ident of None \<Rightarrow> 0 | Some i \<Rightarrow> 3 + length i) \<le> n"
  shows "\<exists>f. put_all wpabuf_put_bytes buf (commit_fields grp token scalar element ident) = Some f \<and>
     wb_contents f = commit_msg grp (case token of None \<Rightarrow> [] | Some t \<Rightarrow> t) scalar element ident"
proof -
  have sz: "unat (word_of_nat (SAE_COMMIT_MAX_LEN + n) :: size_t) = SAE_COMMIT_MAX_LEN + n"
    using n by (intro unat_of_nat64) (simp add: sae_consts)
  have "length (concat (commit_fields grp token scalar element ident)) \<le> SAE_COMMIT_MAX_LEN + n"
    using len tok idn by (auto simp: commit_fields_def sae_consts split: option.splits)
  then show ?thesis
    using wpabuf_alloc_put_all [OF buf, of "commit_fields grp token scalar element ident"] sz n
    by (auto simp: sae_consts concat_commit_fields)
qed

context openssl_bn
begin

lemma ffc_to_bin:
  assumes "ffc_elem (dh_p dh) (dh_r dh) x" and "length (dg_prime dh) \<le> n"
  shows "crypto_bignum_to_bin L x n (length (dg_prime dh)) = Some (be_bytes (length (dg_prime dh)) x)"
proof (rule to_bin)
  show "x < 256 ^ length (dg_prime dh)"
    using assms be_val_less [of "dg_prime dh"] by (auto simp: ffc_elem_def)
qed (rule assms(2))

lemma ffc_scalar_to_bin:
  assumes "s < dh_r dh" and "dh_group_ok dh" and "length (dg_prime dh) \<le> n"
  shows "crypto_bignum_to_bin L s n (length (dg_prime dh)) = Some (be_bytes (length (dg_prime dh)) s)"
proof (rule to_bin)
  show "s < 256 ^ length (dg_prime dh)"
    using assms(1) be_val_less [of "dg_prime dh"] dh_group_okD [OF assms(2)] by simp
qed (rule assms(3))

lemma sae_write_commit_ffc:
  assumes tmp: "sd_tmp sae = Some tmp" and c: "ffc_committed dh pwe rand m s e tmp" and dh: "dh_group_ok dh"
  shows "sae_write_commit L sae buf token ident = put_all wpabuf_put_bytes buf
     (commit_fields (sd_group sae) (map_option wb_contents token)
        (be_bytes (length (dg_prime dh)) s) (be_bytes (length (dg_prime dh)) e) ident)"
proof -
  have f: "st_ec tmp = None" "st_prime_len tmp = length (dg_prime dh)" "st_own_commit_scalar tmp = Some s"
    "st_own_commit_element_ffc tmp = Some e" "s < dh_r dh" "ffc_elem (dh_p dh) (dh_r dh) e"
    using c dh_group_okD [OF dh] by (auto simp: ffc_committed_def ffc_instance_def ffc_commit_def)
  show ?thesis
    using f tmp
    by (cases token; cases ident)
      (simp_all add: sae_write_commit_def commit_fields_def Let_def ffc_to_bin ffc_scalar_to_bin dh
        wpabuf_put_field_bytes wpabuf_put_folds)
qed

lemma sae_write_commit_ffc_alloc:
  assumes tmp: "sd_tmp sae = Some tmp" and c: "ffc_committed dh pwe rand m s e tmp" and dh: "dh_group_ok dh"
    and plen: "length (dg_prime dh) \<le> SAE_MAX_PRIME_LEN"
    and buf: "wpabuf_alloc malloc (word_of_nat (SAE_COMMIT_MAX_LEN + n)) = Some buf" and n: "n < 2 ^ 32"
    and tok: "case token of None \<Rightarrow> True | Some t \<Rightarrow> length (wb_contents t) \<le> SAE_MAX_PRIME_LEN"
    and idn: "(case ident of None \<Rightarrow> 0 | Some i \<Rightarrow> 3 + length i) \<le> n"
  shows "\<exists>f. sae_write_commit L sae buf token ident = Some f \<and>
     wb_contents f = commit_msg (sd_group sae) (case token of None \<Rightarrow> [] | Some t \<Rightarrow> wb_contents t)
       (be_bytes (length (dg_prime dh)) s) (be_bytes (length (dg_prime dh)) e) ident"
  using commit_fields_alloc [OF buf n _ _ idn, of "be_bytes (length (dg_prime dh)) s"
      "be_bytes (length (dg_prime dh)) e" "map_option wb_contents token" "sd_group sae"]
    sae_write_commit_ffc [OF tmp c dh, of buf token ident] plen tok
  by (cases token) auto

end

subsection \<open>Parsing\<close>

definition ident_ok :: "bytes option \<Rightarrow> bool" where
  "ident_ok ident \<longleftrightarrow> (case ident of None \<Rightarrow> True | Some i \<Rightarrow> length i < 255 \<and> 0 \<notin> set i)"

lemma unat_ident_len: "length i < 255 \<Longrightarrow> unat (1 + word_of_nat (length i) :: u8) = Suc (length i)"
  using unat_of_nat [of "Suc (length i)", where 'a = 8] by simp

lemma pw_id_elem_is:
  assumes "ident_ok ident"
  shows "sae_is_password_id_elem (pw_id_elem ident) \<longleftrightarrow> ident \<noteq> None"
proof (cases ident)
  case (Some i)
  then have "length i < 255" using assms by (simp add: ident_ok_def)
  then have "(1 + word_of_nat (length i) :: u8) \<ge> 1" by (simp add: word_le_nat_alt unat_ident_len)
  then show ?thesis
    using Some \<open>length i < 255\<close>
    by (simp add: sae_is_password_id_elem_def pw_id_elem_def unat_ident_len)
qed (simp add: sae_is_password_id_elem_def pw_id_elem_def)

lemma length_pw_id_elem: "length (pw_id_elem ident) = (case ident of None \<Rightarrow> 0 | Some i \<Rightarrow> 3 + length i)"
  by (simp add: pw_id_elem_def split: option.splits)

lemma parse_token_none:
  assumes "length body = (if st_ec tmp \<noteq> None then 3 else 2) * st_prime_len tmp" and "ident_ok ident"
  shows "sae_parse_commit_token tmp (body @ pw_id_elem ident) = (None, body @ pw_id_elem ident)"
  using assms pw_id_elem_is [OF assms(2)]
  by (cases ident) (auto simp: sae_parse_commit_token_def Let_def length_pw_id_elem pw_id_elem_def)

text \<open>A token of 32 octets is found, unless the end of the element that then stands where the parser
  first looks for a Password Identifier element happens to look like one.\<close>

lemma parse_token_body:
  assumes "n = (if st_ec tmp \<noteq> None then 3 else 2) * st_prime_len tmp" and "n + 32 \<le> length d"
    and "\<not> sae_is_password_id_elem (drop (n) d)"
    and "drop 32 (drop (n) d) = r"
    and "tlen = (if sae_is_password_id_elem r then length d - n - (2 + unat (r ! 1))
                 else length d - n)"
  shows "sae_parse_commit_token tmp d = (Some (take tlen d), drop tlen d)"
  using assms(2-3,5) unfolding sae_parse_commit_token_def Let_def assms(1) [symmetric] by (simp add: assms(4) del: drop_drop)

lemma parse_token_some:
  assumes "n = (if st_ec tmp \<noteq> None then 3 else 2) * st_prime_len tmp" and "length body = n" and "ident_ok ident"
    and "length t = 32" and "\<not> sae_is_password_id_elem (drop (n) (t @ body @ pw_id_elem ident))"
  shows "sae_parse_commit_token tmp (t @ body @ pw_id_elem ident) = (Some t, body @ pw_id_elem ident)"
proof -
  let ?d = "t @ body @ pw_id_elem ident"
  have rest: "drop 32 (drop (n) ?d) = pw_id_elem ident"
    using assms(2,4) by (simp add: drop_drop)
  have len: "length ?d = 32 + n + length (pw_id_elem ident)" using assms by simp
  have idl: "ident = Some i \<Longrightarrow> unat (pw_id_elem ident ! 1) = Suc (length i)" for i
    using assms(3) by (auto simp: pw_id_elem_def ident_ok_def unat_ident_len)
  define tlen where "tlen = (if sae_is_password_id_elem (pw_id_elem ident)
      then length ?d - n - (2 + unat (pw_id_elem ident ! 1))
      else length ?d - n)"
  have "tlen = 32"
    using len pw_id_elem_is [OF assms(3)] idl by (cases ident) (auto simp: tlen_def length_pw_id_elem)
  moreover have "sae_parse_commit_token tmp ?d = (Some (take tlen ?d), drop tlen ?d)"
    by (rule parse_token_body [OF assms(1) _ assms(5) rest tlen_def]) (use len in simp)
  ultimately show ?thesis using assms(4) by simp
qed

lemma c_strlen_no_nul: "0 \<notin> set i \<Longrightarrow> c_strlen i = length i"
  by (induction i) (simp_all add: c_strlen_def)

lemma parse_password_identifier:
  assumes "ident_ok ident" and "st_pw_id tmp = None \<or> st_pw_id tmp = ident"
    and "\<And>n. os_malloc_ok L n"
  shows "sae_parse_password_identifier L tmp (pw_id_elem ident) = (WLAN_STATUS_SUCCESS, tmp\<lparr>st_pw_id := ident\<rparr>)"
proof (cases ident)
  case None
  then have "st_pw_id tmp = None" "\<not> sae_is_password_id_elem (pw_id_elem ident)"
    using assms(2) pw_id_elem_is [OF assms(1)] by auto
  moreover from this have "tmp\<lparr>st_pw_id := None\<rparr> = tmp" by (cases tmp) simp
  ultimately show ?thesis using None by (simp add: sae_parse_password_identifier_def)
next
  case (Some i)
  have i: "length i < 255" "0 \<notin> set i" using assms(1) Some by (auto simp: ident_ok_def)
  have n: "unat (pw_id_elem (Some i) ! 1) - 1 = length i"
    using i by (simp add: pw_id_elem_def unat_ident_len)
  have t: "take (length i) (drop 3 (pw_id_elem (Some i))) = i" by (simp add: pw_id_elem_def)
  have e: "sae_is_password_id_elem (pw_id_elem (Some i))" using pw_id_elem_is [OF assms(1)] Some by simp
  show ?thesis
    using assms(2)
    unfolding sae_parse_password_identifier_def Let_def Some n t
    by (elim disjE) (simp_all add: e assms(3) c_strlen_no_nul i os_memcmp_refl)
qed

context openssl_bn
begin

lemma ffc_field_val:
  assumes "x < dh_p dh"
  shows "be_val (be_bytes (length (dg_prime dh)) x) = x"
  using assms be_val_less [of "dg_prime dh"] by (intro be_val_be_bytes) simp

lemma parse_scalar_ffc:
  assumes inst: "ffc_instance dh tmp" and dh: "dh_group_ok dh" and s: "1 < s" "s < dh_r dh"
    and st: "sd_state sae = SAE_ACCEPTED \<Longrightarrow> sd_peer_commit_scalar sae \<noteq> Some s"
  shows "sae_parse_commit_scalar L sae tmp (be_bytes (length (dg_prime dh)) s @ rest) =
    Some (WLAN_STATUS_SUCCESS, sae\<lparr>sd_peer_commit_scalar := Some s\<rparr>, rest)"
proof -
  have v: "be_val (be_bytes (length (dg_prime dh)) s) = s"
    using s dh_group_okD [OF dh] by (intro ffc_field_val) simp
  show ?thesis
    using inst s st unfolding sae_parse_commit_scalar_def Let_def
    by (auto simp: ffc_instance_def bn_ops v split: option.splits)
qed

lemma parse_element_ffc:
  assumes inst: "ffc_instance dh tmp" and dh: "dh_group_ok dh"
    and e: "ffc_elem (dh_p dh) (dh_r dh) e" "1 < e" "e < dh_p dh - 1"
  shows "sae_parse_commit_element L tmp (be_bytes (length (dg_prime dh)) e @ rest) =
    Some (WLAN_STATUS_SUCCESS, tmp\<lparr>st_peer_commit_element_ffc := Some e\<rparr>, rest)"
proof -
  have v: "be_val (be_bytes (length (dg_prime dh)) e) = e" using e by (intro ffc_field_val) simp
  have p: "1 < dh_p dh" using dh_group_okD [OF dh] by simp
  show ?thesis
    using inst e p
    by (simp add: sae_parse_commit_element_def sae_parse_commit_element_ffc_def ffc_instance_def bn_ops v
        ffc_elem_def Let_def)
qed

lemma group_allowed_same:
  assumes "sd_tmp sae = Some tmp" and "sd_group sae = uint g"
    and "allowed = Some gs" and "group_scan gs (uint g) = Some (uint g)"
  shows "sae_group_allowed L all sae allowed g = Some (WLAN_STATUS_SUCCESS, sae)"
  using assms by (simp add: sae_group_allowed_def)

text \<open>The result of parsing a well formed Commit of the same group.\<close>

lemma sae_parse_commit_ffc:
  fixes g :: u16
  assumes tmp: "sd_tmp sae = Some tmp" and inst: "ffc_instance dh tmp" and dh: "dh_group_ok dh"
    and g: "sd_group sae = uint g" "allowed = Some gs" "group_scan gs (uint g) = Some (uint g)"
    and s: "1 < s" "s < dh_r dh"
    and st: "sd_state sae = SAE_ACCEPTED \<Longrightarrow> sd_peer_commit_scalar sae \<noteq> Some s"
    and e: "ffc_elem (dh_p dh) (dh_r dh) e" "1 < e" "e < dh_p dh - 1"
    and ident: "ident_ok ident" "st_pw_id tmp = None \<or> st_pw_id tmp = ident"
    and tok: "t = [] \<and> token = None \<or> length t = 32 \<and> token = Some t \<and>
      \<not> sae_is_password_id_elem (drop (2 * length (dg_prime dh)) (t @
          be_bytes (length (dg_prime dh)) s @ be_bytes (length (dg_prime dh)) e @ pw_id_elem ident))"
  defines "n \<equiv> length (dg_prime dh)"
  shows "sae_parse_commit L all sae (commit_msg (sd_group sae) t (be_bytes n s) (be_bytes n e) ident) allowed =
    Some (if st_own_commit_scalar tmp = Some s \<and> st_own_commit_element_ffc tmp = Some e
          then SAE_SILENTLY_DISCARD else WLAN_STATUS_SUCCESS, token,
          sae\<lparr>sd_peer_commit_scalar := Some s,
              sd_tmp := Some (tmp\<lparr>st_peer_commit_element_ffc := Some e, st_pw_id := ident\<rparr>)\<rparr>)"
proof -
  let ?body = "be_bytes n s @ be_bytes n e" and ?tmp1 = "tmp\<lparr>st_peer_commit_element_ffc := Some e\<rparr>"
  let ?tmp2 = "?tmp1\<lparr>st_pw_id := ident\<rparr>"
  have ec: "st_ec tmp = None" "st_prime_len tmp = n" using inst by (simp_all add: ffc_instance_def n_def)
  have token: "sae_parse_commit_token tmp (t @ ?body @ pw_id_elem ident) = (token, ?body @ pw_id_elem ident)"
    using tok
  proof
    assume "t = [] \<and> token = None"
    then show ?thesis using parse_token_none [OF _ ident(1), of ?body tmp] ec by simp
  next
    assume "length t = 32 \<and> token = Some t \<and> \<not> sae_is_password_id_elem
      (drop (2 * length (dg_prime dh)) (t @ be_bytes (length (dg_prime dh)) s @
        be_bytes (length (dg_prime dh)) e @ pw_id_elem ident))"
    then show ?thesis
      using parse_token_some [OF _ _ ident(1), of "2 * n" tmp ?body t] ec
      by (simp add: n_def [symmetric] del: drop_append)
  qed
  have scalar: "sae_parse_commit_scalar L sae tmp (?body @ pw_id_elem ident) =
      Some (WLAN_STATUS_SUCCESS, sae\<lparr>sd_peer_commit_scalar := Some s\<rparr>, be_bytes n e @ pw_id_elem ident)"
    using parse_scalar_ffc [OF inst dh s st, of "be_bytes n e @ pw_id_elem ident"] by (simp add: n_def)
  have element: "sae_parse_commit_element L tmp (be_bytes n e @ pw_id_elem ident) =
      Some (WLAN_STATUS_SUCCESS, ?tmp1, pw_id_elem ident)"
    using parse_element_ffc [OF inst dh e] by (simp add: n_def)
  have pwid: "sae_parse_password_identifier L ?tmp1 (pw_id_elem ident) = (WLAN_STATUS_SUCCESS, ?tmp2)"
    using ident by (intro parse_password_identifier) (simp_all add: alloc)
  have refl: "sae_is_reflection L (sae\<lparr>sd_peer_commit_scalar := Some s, sd_tmp := Some ?tmp2\<rparr>) ?tmp2 =
      Some (st_own_commit_scalar tmp = Some s \<and> st_own_commit_element_ffc tmp = Some e)"
    using inst by (auto simp: sae_is_reflection_def ffc_instance_def bn_ops split: option.splits)
  have le16: "WPA_GET_LE16 (commit_msg (sd_group sae) t (be_bytes n s) (be_bytes n e) ident) = g"
    using g(1) by (simp add: commit_msg_def get_put_le16)
  have drop2: "drop 2 (commit_msg (sd_group sae) t (be_bytes n s) (be_bytes n e) ident) =
      t @ ?body @ pw_id_elem ident" by (simp add: commit_msg_def)
  have len: "\<not> length (commit_msg (sd_group sae) t (be_bytes n s) (be_bytes n e) ident) < 2"
    by (simp add: commit_msg_def)
  show ?thesis
    unfolding sae_parse_commit_def le16 drop2
    using len tmp token scalar element pwid refl
    by (simp add: group_allowed_same [OF tmp g] Let_def)
qed

end

subsection \<open>Keys and Confirm\<close>

text \<open>KCK || PMK as a function of \<open>K\<close> and of the sum of the scalars.\<close>

definition sae_kdf :: "nat \<Rightarrow> nat \<Rightarrow> nat \<Rightarrow> bytes" where
  "sae_kdf n K t = (case sha256_prf (hmac sha256 64 (replicate 32 0) (be_bytes n K)) (ascii ''SAE KCK and PMK'')
     (be_bytes n t) 64 of None \<Rightarrow> [] | Some keys \<Rightarrow> keys)"

lemma sae_kdf_eq:
  "sha256_prf (hmac sha256 64 (replicate 32 0) (be_bytes n K)) (ascii ''SAE KCK and PMK'') (be_bytes n t) 64 =
     Some (sae_kdf n K t)"
  using sha256_prf_bits_eq [of 512 2] by (simp add: sae_kdf_def sha256_prf_def)

lemma length_sae_kdf: "length (sae_kdf n K t) = 64"
proof -
  have "Some (sae_kdf n K t) = Some (mask_last 512 (take 64 (kdf_stream
      (hmac sha256 64 (hmac sha256 64 (replicate 32 0) (be_bytes n K))) (ascii ''SAE KCK and PMK'')
      (be_bytes n t) 512 2)))"
    unfolding sae_kdf_eq [symmetric] using sha256_prf_bits_eq [of 512 2] by (simp add: sha256_prf_def)
  then show ?thesis by (simp add: length_kdf_stream)
qed

text \<open>The Confirm value for two scalars and two encoded elements.\<close>

definition sae_confirm_value :: "nat \<Rightarrow> bytes \<Rightarrow> bytes \<Rightarrow> nat \<Rightarrow> bytes \<Rightarrow> nat \<Rightarrow> bytes \<Rightarrow> bytes" where
  "sae_confirm_value n kck sc s1 e1 s2 e2 =
     hmac sha256 64 kck (sc @ be_bytes n s1 @ e1 @ be_bytes n s2 @ e2)"

abbreviation ffc_confirm_value :: "nat \<Rightarrow> bytes \<Rightarrow> bytes \<Rightarrow> nat \<Rightarrow> nat \<Rightarrow> nat \<Rightarrow> nat \<Rightarrow> bytes" where
  "ffc_confirm_value n kck sc s1 e1 s2 e2 \<equiv> sae_confirm_value n kck sc s1 (be_bytes n e1) s2 (be_bytes n e2)"

text \<open>An instance that has sent the commit (s, e) and received (s', e').\<close>

definition ffc_exchanged ::
  "dh_group \<Rightarrow> nat \<Rightarrow> nat \<Rightarrow> nat \<Rightarrow> nat \<Rightarrow> ('g, 'q) sae_data \<Rightarrow> ('g, 'q) sae_temporary_data \<Rightarrow> bool" where
  "ffc_exchanged dh s e s' e' sae tmp \<longleftrightarrow> dh_group_ok dh \<and> length (dg_prime dh) \<le> SAE_MAX_PRIME_LEN \<and>
     sd_tmp sae = Some tmp \<and> ffc_instance dh tmp \<and>
     st_own_commit_scalar tmp = Some s \<and> st_own_commit_element_ffc tmp = Some e \<and>
     sd_peer_commit_scalar sae = Some s' \<and> st_peer_commit_element_ffc tmp = Some e' \<and>
     s < dh_r dh \<and> s' < dh_r dh \<and> ffc_elem (dh_p dh) (dh_r dh) e \<and> ffc_elem (dh_p dh) (dh_r dh) e'"

context openssl_bn
begin

lemma sae_process_commit_ffc:
  assumes x: "ffc_exchanged dh s e s' e' sae tmp"
    and pwe: "st_pwe_ffc tmp = Some pwe" and rand: "st_sae_rand tmp = Some rand"
    and K: "K = ((pwe ^ s' mod dh_p dh) * e' mod dh_p dh) ^ rand mod dh_p dh" "K \<noteq> 1"
  defines "n \<equiv> length (dg_prime dh)" and "t \<equiv> (s + s') mod dh_r dh"
  shows "sae_process_commit L sae = Some (0, sae\<lparr>sd_pmk := take 32 (drop 32 (sae_kdf n K t)),
     sd_pmkid := take 16 (be_bytes n t), sd_tmp := Some (tmp\<lparr>st_kck := take 32 (sae_kdf n K t)\<rparr>)\<rparr>)"
proof -
  have dh: "dh_group_ok dh" and plen: "n \<le> SAE_MAX_PRIME_LEN" and inst: "ffc_instance dh tmp"
    using x by (auto simp: ffc_exchanged_def n_def)
  note g = dh_group_okD [OF dh]
  have i: "st_ec tmp = None" "st_dh tmp = Some dh" "st_prime_len tmp = n" "st_prime tmp = Some (dh_p dh)"
    "st_order tmp = Some (dh_r dh)" using inst by (auto simp: ffc_instance_def n_def)
  have "K < dh_p dh" unfolding K(1) using g by (intro mod_less_divisor) simp
  then have Kp: "K < 256 ^ n" using be_val_less [of "dg_prime dh"] by (simp add: n_def)
  have k: "sae_derive_k_ffc L sae tmp = Some (Some (be_bytes n K))"
    using x pwe rand K i g plen to_bin [OF Kp plen]
    by (simp add: sae_derive_k_ffc_def ffc_exchanged_def bn_ops)
  have "t < dh_r dh" using g by (simp add: t_def)
  then have tb: "crypto_bignum_to_bin L t SAE_MAX_PRIME_LEN n = Some (be_bytes n t)"
    using ffc_scalar_to_bin [OF _ dh plen [unfolded n_def]] by (simp add: n_def)
  have am: "add_mod_unchecked L s s' (dh_r dh) u = t" for u using g by (simp add: add_mod_unchecked t_def)
  have "sae_derive_keys L sae tmp (be_bytes n K) = Some (0, sae\<lparr>sd_pmk := take 32 (drop 32 (sae_kdf n K t)),
      sd_pmkid := take 16 (be_bytes n t), sd_tmp := Some (tmp\<lparr>st_kck := take 32 (sae_kdf n K t)\<rparr>)\<rparr>)"
    using x i by (simp add: sae_derive_keys_def ffc_exchanged_def hmac_sha256_eq am tb sae_kdf_eq bn_ops)
  then show ?thesis using x i k by (simp add: sae_process_commit_def ffc_exchanged_def)
qed

lemma sae_cn_confirm_ffc:
  assumes "dh_group_ok dh" and "length (dg_prime dh) \<le> SAE_MAX_PRIME_LEN" and "ffc_instance dh tmp"
    and "s1 < dh_r dh" and "s2 < dh_r dh" and "ffc_elem (dh_p dh) (dh_r dh) e1"
    and "ffc_elem (dh_p dh) (dh_r dh) e2" and "length sc = 2"
  shows "sae_cn_confirm_ffc L tmp (sc @ rest) (Some s1) (Some e1) (Some s2) (Some e2) =
     Some (ffc_confirm_value (length (dg_prime dh)) (st_kck tmp) sc s1 e1 s2 e2)"
  using assms
  by (simp add: sae_cn_confirm_ffc_def sae_cn_confirm_def ffc_instance_def ffc_to_bin ffc_scalar_to_bin
      hmac_sha256_vector_eq sae_confirm_value_def)

lemma sae_write_confirm_ffc:
  assumes x: "ffc_exchanged dh s e s' e' sae tmp"
    and buf: "wpabuf_alloc malloc (word_of_nat SAE_CONFIRM_MAX_LEN) = Some buf"
  shows "\<exists>c. sae_write_confirm L sae buf = Some (if sd_send_confirm sae < 0xffff
       then sae\<lparr>sd_send_confirm := sd_send_confirm sae + 1\<rparr> else sae, c) \<and>
     wb_contents c = WPA_PUT_LE16 (sd_send_confirm sae) @ ffc_confirm_value (length (dg_prime dh))
       (st_kck tmp) (WPA_PUT_LE16 (sd_send_confirm sae)) s e s' e'"
proof -
  let ?sc = "WPA_PUT_LE16 (sd_send_confirm sae)"
  let ?v = "ffc_confirm_value (length (dg_prime dh)) (st_kck tmp) ?sc s e s' e'"
  have v: "length ?v = 32" by (simp add: sae_confirm_value_def)
  have cn: "sae_cn_confirm_ffc L tmp ?sc (Some s) (Some e) (Some s') (Some e') = Some ?v"
    using sae_cn_confirm_ffc [of dh tmp s s' e e' ?sc "[]"] x by (auto simp: ffc_exchanged_def)
  have "\<exists>b'. put_all wpabuf_put_bytes buf [?sc, ?v] = Some b' \<and> wb_contents b' = concat [?sc, ?v] \<and>
      wpabuf_ok b' \<and> wb_size b' = word_of_nat SAE_CONFIRM_MAX_LEN"
    by (rule wpabuf_alloc_put_all [OF buf]) (simp_all add: v sae_consts)
  then obtain c where "do { b \<leftarrow> wpabuf_put_bytes buf ?sc; wpabuf_put_bytes b ?v } = Some c"
    "wb_contents c = ?sc @ ?v" by auto
  then show ?thesis
    using x cn v
    by (auto simp: sae_write_confirm_def ffc_exchanged_def ffc_instance_def Let_def wpabuf_put_folds
        wpabuf_put_field_bytes split: Option.bind_splits)
qed

lemma sae_check_confirm_ffc:
  assumes x: "ffc_exchanged dh s e s' e' sae tmp" and sc: "length sc = 2" and v: "length v = 32"
  shows "sae_check_confirm L sae (sc @ v) = Some (if v = ffc_confirm_value (length (dg_prime dh))
       (st_kck tmp) sc s' e' s e then 0 else - 1)"
proof -
  let ?w = "ffc_confirm_value (length (dg_prime dh)) (st_kck tmp) sc s' e' s e"
  have w: "length ?w = 32" by (simp add: sae_confirm_value_def)
  have cn: "sae_cn_confirm_ffc L tmp (sc @ v) (Some s') (Some e') (Some s) (Some e) = Some ?w"
    using sae_cn_confirm_ffc [of dh tmp s' s e' e sc v] x sc by (auto simp: ffc_exchanged_def)
  have "os_memcmp_const ?w v 32 = 0 \<longleftrightarrow> ?w = v" using os_memcmp_const_0 [of 32 ?w v] w v by auto
  then show ?thesis
    using x cn sc v by (auto simp: sae_check_confirm_def ffc_exchanged_def ffc_instance_def)
qed

end

subsection \<open>Agreement\<close>

text \<open>A party ready to exchange Commits: the group \<open>g\<close> is selected and allowed, no peer is accepted
  yet, no password identifier is in use.\<close>

definition ffc_ready ::
  "dh_group \<Rightarrow> u16 \<Rightarrow> int list \<Rightarrow> ('g, 'q) sae_data \<Rightarrow> ('g, 'q) sae_temporary_data \<Rightarrow> bool" where
  "ffc_ready dh g gs sae tmp \<longleftrightarrow> sd_group sae = uint g \<and> group_scan gs (uint g) = Some (uint g) \<and>
     sd_state sae \<noteq> SAE_ACCEPTED \<and> ffc_instance dh tmp \<and> st_pw_id tmp = None"

lemma ffc_K_ne_1:
  assumes a: "ffc_commit dh pwe r1 m1 s1 e1" and b: "ffc_commit dh pwe r2 m2 s2 e2"
    and pwe: "ffc_elem (dh_p dh) (dh_r dh) pwe" "1 < pwe" and r: "is_prime (dh_r dh)"
  shows "pwe ^ (r1 * r2) mod dh_p dh \<noteq> 1"
proof (rule ffc_pow_ne_1 [OF pwe(1) _ r])
  have "\<not> dh_r dh dvd r1" "\<not> dh_r dh dvd r2" using a b by (auto simp: ffc_commit_def dest: dvd_imp_le)
  then show "\<not> dh_r dh dvd r1 * r2" using prime_dvd_mult [OF r] by blast
qed (use pwe in simp)

context openssl_bn
begin

text \<open>One party's view: it parses the peer's Commit and derives the keys.\<close>

lemma ffc_receive:
  assumes A: "sd_tmp A = Some tA" "ffc_committed dh pwe rA mA sA eA tA" "ffc_ready dh g gs A tA"
    and B: "ffc_commit dh pwe rB mB sB eB" and ne: "(sA, eA) \<noteq> (sB, eB)"
    and dh: "dh_group_ok dh" "length (dg_prime dh) \<le> SAE_MAX_PRIME_LEN" and r: "is_prime (dh_r dh)"
  defines "n \<equiv> length (dg_prime dh)" and "K \<equiv> pwe ^ (rA * rB) mod dh_p dh"
    and "t \<equiv> (sA + sB) mod dh_r dh"
  shows "\<exists>A2 A3 t3. sae_parse_commit L all A (commit_msg (uint g) [] (be_bytes n sB) (be_bytes n eB) None)
        (Some gs) = Some (WLAN_STATUS_SUCCESS, None, A2) \<and>
      sae_process_commit L A2 = Some (0, A3) \<and> ffc_exchanged dh sA eA sB eB A3 t3 \<and>
      sd_pmk A3 = take 32 (drop 32 (sae_kdf n K t)) \<and> sd_pmkid A3 = take 16 (be_bytes n t) \<and>
      st_kck t3 = take 32 (sae_kdf n K t) \<and> sd_send_confirm A3 = sd_send_confirm A"
proof -
  let ?p = "dh_p dh" and ?r = "dh_r dh"
  note g = dh_group_okD [OF dh(1)]
  have c: "ffc_commit dh pwe rA mA sA eA" "ffc_elem ?p ?r pwe" "1 < pwe" "ffc_instance dh tA"
    "st_own_commit_scalar tA = Some sA" "st_own_commit_element_ffc tA = Some eA"
    "st_pwe_ffc tA = Some pwe" "st_sae_rand tA = Some rA"
    using A(2) by (auto simp: ffc_committed_def)
  have rd: "sd_group A = uint g" "group_scan gs (uint g) = Some (uint g)" "sd_state A \<noteq> SAE_ACCEPTED"
    "st_pw_id tA = None" using A(3) by (auto simp: ffc_ready_def)
  have sB: "1 < sB" "sB < ?r" "ffc_elem ?p ?r eB" using B g by (auto simp: ffc_commit_def)
  have sA: "sA < ?r" "ffc_elem ?p ?r eA" using c(1) g by (auto simp: ffc_commit_def)
  note eB = ffc_commit_element_valid [OF B c(2,3) dh(1) r]
  define t2 where "t2 = tA\<lparr>st_peer_commit_element_ffc := Some eB, st_pw_id := None\<rparr>"
  define A2 where "A2 = A\<lparr>sd_peer_commit_scalar := Some sB, sd_tmp := Some t2\<rparr>"
  have parse: "sae_parse_commit L all A (commit_msg (uint g) [] (be_bytes n sB) (be_bytes n eB) None)
        (Some gs) = Some (WLAN_STATUS_SUCCESS, None, A2)"
    using sae_parse_commit_ffc [OF A(1) c(4) dh(1) rd(1) refl rd(2) sB(1,2) _ sB(3) eB, of None "[]" None all]
      rd ne c(5,6) by (auto simp: ident_ok_def A2_def t2_def n_def)
  have x2: "ffc_exchanged dh sA eA sB eB A2 t2"
    using c sA sB dh by (simp add: ffc_exchanged_def A2_def t2_def ffc_instance_def)
  have "K = ((pwe ^ sB mod ?p) * eB mod ?p) ^ rA mod ?p"
    using ffc.commit_agree(1) [OF c(2) sA(2) sB(3), of mA mB sA rA sB rB] c(1) B
    by (simp add: K_def ffc_commit_def)
  moreover have "K \<noteq> 1" unfolding K_def by (rule ffc_K_ne_1 [OF c(1) B c(2,3) r])
  ultimately have proc: "sae_process_commit L A2 = Some (0, A2\<lparr>sd_pmk := take 32 (drop 32 (sae_kdf n K t)),
      sd_pmkid := take 16 (be_bytes n t), sd_tmp := Some (t2\<lparr>st_kck := take 32 (sae_kdf n K t)\<rparr>)\<rparr>)"
    unfolding n_def t_def using c(7,8) by (intro sae_process_commit_ffc [OF x2]) (simp_all add: t2_def)
  show ?thesis
  proof (intro exI conjI)
    show "ffc_exchanged dh sA eA sB eB (A2\<lparr>sd_pmk := take 32 (drop 32 (sae_kdf n K t)),
      sd_pmkid := take 16 (be_bytes n t), sd_tmp := Some (t2\<lparr>st_kck := take 32 (sae_kdf n K t)\<rparr>)\<rparr>)
      (t2\<lparr>st_kck := take 32 (sae_kdf n K t)\<rparr>)"
      using x2 by (simp add: ffc_exchanged_def ffc_instance_def)
  qed (use parse proc in \<open>simp_all add: A2_def\<close>)
qed

lemma ffc_confirm_accepted:
  assumes A: "ffc_exchanged dh sA eA sB eB A tA" and B: "ffc_exchanged dh sB eB sA eA B tB"
    and kck: "st_kck tA = st_kck tB"
    and buf: "wpabuf_alloc malloc (word_of_nat SAE_CONFIRM_MAX_LEN) = Some buf"
  shows "\<exists>A' c. sae_write_confirm L A buf = Some (A', c) \<and> sae_check_confirm L B (wb_contents c) = Some 0"
proof -
  let ?sc = "WPA_PUT_LE16 (sd_send_confirm A)"
  let ?v = "ffc_confirm_value (length (dg_prime dh)) (st_kck tA) ?sc sA eA sB eB"
  have "length ?v = 32" by (simp add: sae_confirm_value_def)
  then have "sae_check_confirm L B (?sc @ ?v) = Some 0"
    using sae_check_confirm_ffc [OF B, of ?sc ?v] kck by simp
  then show ?thesis using sae_write_confirm_ffc [OF A buf] by auto
qed

end

text \<open>C2: SAE agreement.  Two parties that selected the same finite field group of prime order and hold
  the same password element each derive a commit from their own random draws.  If the commits
  differ, then every step of the exchange succeeds on both sides, without running out of buffer
  space: each writes its Commit, accepts the other's, derives the keys; both hold the same PMK (32
  octets), PMKID and KCK; and each accepts the Confirm that the other one sends.\<close>

theorem sae_ffc_agreement:
  assumes L: "openssl_bn L" and dh: "dh_group_ok dh" "length (dg_prime dh) \<le> SAE_MAX_PRIME_LEN"
    and r: "is_prime (dh_r dh)" and pwe: "ffc_elem (dh_p dh) (dh_r dh) pwe" "1 < pwe"
    and A: "ffc_ready dh g gsA A tA" "st_pwe_ffc tA = Some pwe" "sae_derive_commit L tA rndA = Some (0, tA', rA')"
    and B: "ffc_ready dh g gsB B tB" "st_pwe_ffc tB = Some pwe" "sae_derive_commit L tB rndB = Some (0, tB', rB')"
    and ne: "(st_own_commit_scalar tA', st_own_commit_element_ffc tA') \<noteq>
             (st_own_commit_scalar tB', st_own_commit_element_ffc tB')"
    and buf: "wpabuf_alloc malloc (word_of_nat SAE_COMMIT_MAX_LEN) = Some buf"
      "wpabuf_alloc malloc (word_of_nat SAE_CONFIRM_MAX_LEN) = Some cbuf"
  shows "\<exists>fA fB A2 B2 A3 B3 t3A t3B A4 B4 cA cB.
     sae_write_commit L (A\<lparr>sd_tmp := Some tA'\<rparr>) buf None None = Some fA \<and>
     sae_write_commit L (B\<lparr>sd_tmp := Some tB'\<rparr>) buf None None = Some fB \<and>
     sae_parse_commit L all (A\<lparr>sd_tmp := Some tA'\<rparr>) (wb_contents fB) (Some gsA) =
       Some (WLAN_STATUS_SUCCESS, None, A2) \<and>
     sae_parse_commit L all (B\<lparr>sd_tmp := Some tB'\<rparr>) (wb_contents fA) (Some gsB) =
       Some (WLAN_STATUS_SUCCESS, None, B2) \<and>
     sae_process_commit L A2 = Some (0, A3) \<and> sae_process_commit L B2 = Some (0, B3) \<and>
     sd_tmp A3 = Some t3A \<and> sd_tmp B3 = Some t3B \<and>
     length (sd_pmk A3) = 32 \<and> sd_pmk A3 = sd_pmk B3 \<and> sd_pmkid A3 = sd_pmkid B3 \<and> st_kck t3A = st_kck t3B \<and>
     sae_write_confirm L A3 cbuf = Some (A4, cA) \<and> sae_write_confirm L B3 cbuf = Some (B4, cB) \<and>
     sae_check_confirm L A3 (wb_contents cB) = Some 0 \<and> sae_check_confirm L B3 (wb_contents cA) = Some 0"
proof -
  let ?A = "A\<lparr>sd_tmp := Some tA'\<rparr>" and ?B = "B\<lparr>sd_tmp := Some tB'\<rparr>"
  let ?n = "length (dg_prime dh)"
  have iA: "ffc_instance dh tA" and iB: "ffc_instance dh tB" using A(1) B(1) by (auto simp: ffc_ready_def)
  from openssl_bn.sae_derive_commit_ffc [OF L A(3) iA dh(1) A(2) pwe] obtain rA mA sA eA where
    cA: "ffc_committed dh pwe rA mA sA eA tA'" by blast
  from openssl_bn.sae_derive_commit_ffc [OF L B(3) iB dh(1) B(2) pwe] obtain rB mB sB eB where
    cB: "ffc_committed dh pwe rB mB sB eB tB'" by blast
  have kA: "ffc_commit dh pwe rA mA sA eA" and kB: "ffc_commit dh pwe rB mB sB eB"
    using cA cB by (auto simp: ffc_committed_def)
  have diff: "(sA, eA) \<noteq> (sB, eB)" using ne cA cB by (auto simp: ffc_committed_def)
  have pwid: "st_pw_id tA' = None" "st_pw_id tB' = None"
    using openssl_bn.sae_derive_commit_pw_id [OF L A(3)] openssl_bn.sae_derive_commit_pw_id [OF L B(3)] A(1) B(1)
    by (auto simp: ffc_ready_def)
  have rdA: "ffc_ready dh g gsA ?A tA'" and rdB: "ffc_ready dh g gsB ?B tB'"
    using A(1) B(1) cA cB pwid by (auto simp: ffc_ready_def ffc_committed_def)
  have gr: "sd_group ?A = uint g" "sd_group ?B = uint g" using A(1) B(1) by (auto simp: ffc_ready_def)
  obtain fA where fA: "sae_write_commit L ?A buf None None = Some fA"
      "wb_contents fA = commit_msg (uint g) [] (be_bytes ?n sA) (be_bytes ?n eA) None"
    using openssl_bn.sae_write_commit_ffc_alloc [OF L _ cA dh, of ?A malloc 0 buf None None] buf(1) gr by auto
  obtain fB where fB: "sae_write_commit L ?B buf None None = Some fB"
      "wb_contents fB = commit_msg (uint g) [] (be_bytes ?n sB) (be_bytes ?n eB) None"
    using openssl_bn.sae_write_commit_ffc_alloc [OF L _ cB dh, of ?B malloc 0 buf None None] buf(1) gr by auto
  obtain A2 A3 t3A where a: "sae_parse_commit L all ?A (wb_contents fB) (Some gsA) = Some (WLAN_STATUS_SUCCESS, None, A2)"
      "sae_process_commit L A2 = Some (0, A3)" "ffc_exchanged dh sA eA sB eB A3 t3A"
      "sd_pmk A3 = take 32 (drop 32 (sae_kdf ?n (pwe ^ (rA * rB) mod dh_p dh) ((sA + sB) mod dh_r dh)))"
      "sd_pmkid A3 = take 16 (be_bytes ?n ((sA + sB) mod dh_r dh))"
      "st_kck t3A = take 32 (sae_kdf ?n (pwe ^ (rA * rB) mod dh_p dh) ((sA + sB) mod dh_r dh))"
    using openssl_bn.ffc_receive [OF L _ cA rdA kB diff dh r, of all] fB(2) by auto
  have diff': "(sB, eB) \<noteq> (sA, eA)" using diff by auto
  obtain B2 B3 t3B where b: "sae_parse_commit L all ?B (wb_contents fA) (Some gsB) = Some (WLAN_STATUS_SUCCESS, None, B2)"
      "sae_process_commit L B2 = Some (0, B3)" "ffc_exchanged dh sB eB sA eA B3 t3B"
      "sd_pmk B3 = take 32 (drop 32 (sae_kdf ?n (pwe ^ (rA * rB) mod dh_p dh) ((sA + sB) mod dh_r dh)))"
      "sd_pmkid B3 = take 16 (be_bytes ?n ((sA + sB) mod dh_r dh))"
      "st_kck t3B = take 32 (sae_kdf ?n (pwe ^ (rA * rB) mod dh_p dh) ((sA + sB) mod dh_r dh))"
    using openssl_bn.ffc_receive [OF L _ cB rdB kA diff' dh r, of all] fA(2)
    by (auto simp: mult.commute [of rB rA] add.commute [of sB sA])
  have kck: "st_kck t3A = st_kck t3B" using a b by simp
  obtain A4 confA where ca: "sae_write_confirm L A3 cbuf = Some (A4, confA)"
      "sae_check_confirm L B3 (wb_contents confA) = Some 0"
    using openssl_bn.ffc_confirm_accepted [OF L a(3) b(3) kck buf(2)] by blast
  obtain B4 confB where cb: "sae_write_confirm L B3 cbuf = Some (B4, confB)"
      "sae_check_confirm L A3 (wb_contents confB) = Some 0"
    using openssl_bn.ffc_confirm_accepted [OF L b(3) a(3) kck [symmetric] buf(2)] by blast
  have tmps: "sd_tmp A3 = Some t3A" "sd_tmp B3 = Some t3B" using a(3) b(3) by (auto simp: ffc_exchanged_def)
  have len: "length (sd_pmk A3) = 32" using a(4) by (simp add: length_sae_kdf)
  show ?thesis
    by (intro exI conjI) (rule fA(1) fB(1) a(1) b(1) a(2) b(2) tmps len kck ca cb | simp add: a b)+
qed

text \<open>The witness: the group of squares modulo 23, password element 4.\<close>

definition tiny_tmp :: "(unit, unit) sae_temporary_data" where
  "tiny_tmp = sae_tmp_zero\<lparr>st_dh := Some tiny_dh_group, st_prime_len := 1, st_prime := Some 23,
     st_order := Some 11, st_pwe_ffc := Some 4\<rparr>"

definition tiny_sae :: "(unit, unit) sae_data" where
  "tiny_sae = sae_zero\<lparr>sd_group := 5, sd_tmp := Some tiny_tmp\<rparr>"

lemma tiny_ready: "ffc_ready tiny_dh_group 5 [5, 0] tiny_sae tiny_tmp"
  by (simp add: ffc_ready_def tiny_sae_def sae_zero_def ffc_instance_def tiny_tmp_def sae_tmp_zero_def
      tiny_dh_group_def)

lemma tiny_get_rand:
  assumes "drop_bit 4 x = y" and "1 < unat y" and "unat y < 11" and "st_order tmp = Some 11"
  shows "sae_get_rand ref_openssl tmp ([x] # rnd) = Some (Some (unat y), rnd)"
proof -
  have bits: "bit_len 11 = 4" by (simp add: bit_len.simps)
  have 101: "(101 :: nat) = Suc 100" by simp
  show ?thesis
    using assms unfolding sae_get_rand_def 101 sae_get_rand_loop.simps
    by (simp add: ref_openssl_def crypto_bignum_bits_def bits shift_unused_def buf_shift_right_def
        crypto_bignum_init_set_def crypto_bignum_is_zero_def crypto_bignum_is_one_def
        crypto_bignum_cmp_def SAE_MAX_PRIME_LEN_def)
qed

lemma tiny_derive_commit:
  assumes "drop_bit 4 x = y" "drop_bit 4 u = v" and "1 < unat y" "unat y < 11" "1 < unat v" "unat v < 11"
    and "(unat y + unat v) mod 11 = s" "1 < s" and "find (\<lambda>c. (4 ^ unat v mod 23) * c mod 23 = 1) [0..<23] = Some e"
  shows "sae_derive_commit ref_openssl tiny_tmp ([x] # [u] # rnd) =
    Some (0, tiny_tmp\<lparr>st_sae_rand := Some (unat y), st_own_commit_scalar := Some s,
                      st_own_commit_element_ffc := Some e\<rparr>, rnd)"
proof -
  have o: "st_order tiny_tmp = Some 11" "st_order (tiny_tmp\<lparr>st_sae_rand := z\<rparr>) = Some 11" for z
    by (simp_all add: tiny_tmp_def)
  have mk: "sae_get_rand_and_mask ref_openssl tiny_tmp ([x] # [u] # rnd) =
      Some (Some (unat v), tiny_tmp\<lparr>st_sae_rand := Some (unat y)\<rparr>, rnd)"
    unfolding sae_get_rand_and_mask_def
    using tiny_get_rand [OF assms(1,3,4) o(1)] tiny_get_rand [OF assms(2,5,6) o(2)] by simp
  have 100: "(100 :: nat) = Suc 99" by simp
  have t: "st_own_commit_scalar tiny_tmp = None" "st_own_commit_element_ffc tiny_tmp = None"
    "st_ec tiny_tmp = None" "st_dh tiny_tmp = Some tiny_dh_group" "st_prime tiny_tmp = Some 23"
    "st_pwe_ffc tiny_tmp = Some 4"
    by (simp_all add: tiny_tmp_def sae_tmp_zero_def)
  have lp: "sae_derive_commit_loop ref_openssl 100 tiny_tmp ([x] # [u] # rnd) =
      Some (Some (unat v), tiny_tmp\<lparr>st_sae_rand := Some (unat y), st_own_commit_scalar := Some s\<rparr>, rnd)"
    unfolding 100 sae_derive_commit_loop.simps using assms(7,8)
    by (simp add: mk t o ref.bn_ops ref.add_mod_unchecked Let_def)
  have "BN_mod_inverse ref_openssl (4 ^ unat v mod 23) 23 = Some e"
    using assms(9) by (simp add: ref_openssl_def)
  then show ?thesis
    unfolding sae_derive_commit_def lp
    by (simp add: t sae_derive_commit_element_ffc_def ref.bn_ops crypto_bignum_inverse_def)
qed

lemma tiny_commits:
  "sae_derive_commit ref_openssl tiny_tmp [[0x50], [0x30]] = Some (0, tiny_tmp\<lparr>st_sae_rand := Some 5,
     st_own_commit_scalar := Some 8, st_own_commit_element_ffc := Some 9\<rparr>, [])"
  "sae_derive_commit ref_openssl tiny_tmp [[0x20], [0x40]] = Some (0, tiny_tmp\<lparr>st_sae_rand := Some 2,
     st_own_commit_scalar := Some 6, st_own_commit_element_ffc := Some 8\<rparr>, [])"
  using tiny_derive_commit [of "0x50" 5 "0x30" 3 8 9 "[]"] tiny_derive_commit [of "0x20" 2 "0x40" 4 6 8 "[]"]
  by (simp_all add: upt_rec)

theorem sae_ffc_agreement_witness:
  "\<exists>A2 B2 A3 B3. sae_process_commit ref_openssl A2 = Some (0, A3) \<and>
     sae_process_commit ref_openssl B2 = Some (0, B3) \<and> length (sd_pmk A3) = 32 \<and> sd_pmk A3 = sd_pmk B3"
proof -
  have ok: "dh_group_ok tiny_dh_group" "length (dg_prime tiny_dh_group) \<le> SAE_MAX_PRIME_LEN"
    "is_prime (dh_r tiny_dh_group)" "ffc_elem (dh_p tiny_dh_group) (dh_r tiny_dh_group) 4" "(1::nat) < 4"
    by (rule tiny_dh_group_ok)
      (simp_all add: tiny_dh_group_def SAE_MAX_PRIME_LEN_def ffc_elem_def is_prime_def atLeastLessThan_upt
        upt_rec dvd_eq_mod_eq_0)
  have pwe: "st_pwe_ffc tiny_tmp = Some 4" by (simp add: tiny_tmp_def)
  have buf: "\<exists>b. wpabuf_alloc (\<lambda>_. True) n = Some b" for n by (simp add: wpabuf_alloc_def)
  obtain b1 where b1: "wpabuf_alloc (\<lambda>_. True) (word_of_nat SAE_COMMIT_MAX_LEN) = Some b1" using buf by blast
  obtain b2 where b2: "wpabuf_alloc (\<lambda>_. True) (word_of_nat SAE_CONFIRM_MAX_LEN) = Some b2" using buf by blast
  note w = sae_ffc_agreement [OF ref.openssl_bn_axioms ok tiny_ready pwe tiny_commits(1) tiny_ready pwe
      tiny_commits(2) _ b1 b2, of True]
  have "(Some (8 :: nat), Some (9 :: nat)) \<noteq> (Some 6, Some 8)" by simp
  with w show ?thesis by auto
qed

end
