(* ===== verification/SaeBlind.thy ===== *)
theory SaeBlind
  imports SaeFfc
begin

text \<open>
  The side channel protection of the password element derivation on curves does not change what is
  derived.  The blinded quadratic residue test gives the answer of the plain Legendre symbol for
  every blinding value, and the loop that goes on with a random dummy password after it has found a
  candidate returns the first candidate of the real password.
\<close>

subsection \<open>Blinding values\<close>

lemma length_shift_unused [simp, len_simps]: "length (shift_unused buf bits) = length buf"
proof -
  have "length (buf_shift_loop k prev buf) = length buf" for k prev
    by (induction buf arbitrary: prev) simp_all
  then show ?thesis by (simp add: shift_unused_def buf_shift_right_def)
qed

lemma dvd_range: "0 < r \<Longrightarrow> r < p \<Longrightarrow> \<not> p dvd r" for p r :: nat
  by (auto dest: dvd_imp_le)

context openssl_bn
begin

lemma get_rand_1_to_p_1_some:
  assumes "get_rand_1_to_p_1 L prime bits rnd = (Some (r, b), rnd')"
  shows "0 < r \<and> r < be_val prime"
  using assms
proof (induction rnd)
  case (Cons d rnd)
  show ?case
  proof (cases "length d = length prime")
    case True
    then have len: "length (shift_unused d bits) = length prime" by simp
    show ?thesis
      using Cons True os_memcmp_be_val [OF len]
      by (auto simp: Let_def bn_ops split: if_splits)
  qed (use Cons in simp)
qed simp

text \<open>The answer of the plain test.\<close>

lemma legendre_values:
  assumes p: "is_prime p" "2 < p"
  shows "crypto_bignum_legendre L a p = (if a ^ ((p - 1) div 2) mod p = 1 then 1
     else if a ^ ((p - 1) div 2) mod p = 0 then 0 else - 1)"
  using p by (subst legendre) (auto simp: Let_def)

lemma odd_prime_half: "is_prime p \<Longrightarrow> 2 < p \<Longrightarrow> 2 * ((p - 1) div 2) = p - 1" for p
proof -
  assume p: "is_prime p" "2 < p"
  have "\<not> 2 dvd p" using is_prime_dvd [OF p(1), of 2] p(2) by auto
  then show ?thesis by simp
qed

lemma is_quadratic_residue_blind_eq:
  assumes p: "is_prime p" "2 < p" "be_val prime = p"
    and qr: "crypto_bignum_legendre L qr p = 1" and qnr: "crypto_bignum_legendre L qnr p = - 1"
    and draw: "get_rand_1_to_p_1 L prime bits rnd = (Some (r, b), rnd')"
  shows "is_quadratic_residue_blind L p prime bits qr qnr y rnd =
     (if crypto_bignum_legendre L y p = 1 then 1 else 0, rnd')"
proof -
  define e where "e = (p - 1) div 2"
  have e: "2 * e = p - 1" unfolding e_def by (rule odd_prime_half [OF p(1,2)])
  have r: "\<not> p dvd r" using get_rand_1_to_p_1_some [OF draw] p(3) by (intro dvd_range) auto
  define q where "q = (if b then qr else qnr)"
  define num where "num = ((y * r mod p) * r mod p) * q mod p"
  have blind: "num ^ e mod p = (y ^ e mod p) * (q ^ e mod p) mod p"
    unfolding num_def by (rule blind_pow [OF p(1) r e])
  have leg: "crypto_bignum_legendre L a p =
      (if a ^ e mod p = 1 then 1 else if a ^ e mod p = 0 then 0 else - 1)" for a
    using legendre_values [OF p(1,2), of a] by (simp add: e_def)
  have qe: "q ^ e mod p = (if b then 1 else p - 1)"
    using qr qnr leg [of qr] leg [of qnr] euler_cases [OF p(1) e, of q] p(2)
    by (auto simp: q_def split: if_splits)
  have ye: "y ^ e mod p = 0 \<or> y ^ e mod p = 1 \<or> y ^ e mod p = p - 1" by (rule euler_cases [OF p(1) e])
  have sq: "(p - 1) * (p - 1) mod p = 1" using minus_one_mult [of p "p - 1"] p(2) by simp
  have neq: "p - 1 \<noteq> 1" "p - 1 \<noteq> 0" using p(2) by auto
  have "(crypto_bignum_legendre L num p = (if b then 1 else - 1)) = (crypto_bignum_legendre L y p = 1)"
    unfolding leg blind qe using ye sq p(2) by (elim disjE) (auto simp: mod_Suc)
  moreover have "crypto_bignum_legendre L num p \<noteq> - 2" unfolding leg by simp
  ultimately show ?thesis
    using p(2) draw by (simp add: is_quadratic_residue_blind_def bn_ops num_def q_def Let_def)
qed

lemma is_quadratic_residue_blind_fails:
  "get_rand_1_to_p_1 L prime bits rnd = (None, rnd') \<Longrightarrow>
     is_quadratic_residue_blind L p prime bits qr qnr y rnd = (- 1, rnd')"
  by (simp add: is_quadratic_residue_blind_def)

lemma get_random_qr_qnr_loop_sound:
  assumes "get_random_qr_qnr_loop L prime p bits qr0 qnr0 rnd = ((Some qr, Some qnr), rnd')"
    and "\<And>q. qr0 = Some q \<Longrightarrow> crypto_bignum_legendre L q p = 1"
    and "\<And>q. qnr0 = Some q \<Longrightarrow> crypto_bignum_legendre L q p = - 1"
  shows "crypto_bignum_legendre L qr p = 1 \<and> crypto_bignum_legendre L qnr p = - 1"
  using assms
proof (induction rnd arbitrary: qr0 qnr0)
  case Nil
  then show ?case by (cases qr0; cases qnr0) auto
next
  case (Cons d rnd)
  show ?case
  proof (cases "qr0 \<noteq> None \<and> qnr0 \<noteq> None")
    case True
    then show ?thesis using Cons.prems by auto
  next
    case False
    define res where "res = crypto_bignum_legendre L (be_val (shift_unused d bits)) p"
    have body: "get_random_qr_qnr_loop L prime p bits qr0 qnr0 (d # rnd) =
        (if length d \<noteq> length prime then ((qr0, qnr0), rnd)
         else if os_memcmp (shift_unused d bits) prime \<ge> 0 then get_random_qr_qnr_loop L prime p bits qr0 qnr0 rnd
         else if res = 1 \<and> qr0 = None
         then get_random_qr_qnr_loop L prime p bits (Some (be_val (shift_unused d bits))) qnr0 rnd
         else if res = - 1 \<and> qnr0 = None
         then get_random_qr_qnr_loop L prime p bits qr0 (Some (be_val (shift_unused d bits))) rnd
         else get_random_qr_qnr_loop L prime p bits qr0 qnr0 rnd)"
      using False by (cases qr0; cases qnr0) (auto simp: Let_def bn_ops res_def)
    show ?thesis
      using Cons.prems False unfolding body
      by (auto split: if_splits simp: res_def dest!: Cons.IH)
  qed
qed

end

subsection \<open>The password element\<close>

text \<open>Specification: the candidate of one counter value is the number below the prime that the KDF
  yields, if the right hand side of the curve equation is a quadratic residue there; the loop looks
  for the first counter value from 1 to 200 that has one.\<close>

definition ecc_rhs :: "'g crypto_ec \<Rightarrow> nat \<Rightarrow> nat" where
  "ecc_rhs ec x = (x ^ 3 + ec_a ec * x + ec_b ec) mod ec_prime ec"

definition ecc_candidate :: "'g crypto_ec \<Rightarrow> nat \<Rightarrow> bytes \<Rightarrow> bytes \<Rightarrow> nat option" where
  "ecc_candidate ec bits prime seed =
     do { v \<leftarrow> sha256_prf_bits seed (ascii ''SAE Hunting and Pecking'') prime bits;
          let x = be_val (shift_unused v bits);
          (if x < ec_prime ec \<and> ecc_rhs ec x ^ ((ec_prime ec - 1) div 2) mod ec_prime ec = 1
           then Some x else None) }"

definition pwd_seed :: "bytes \<Rightarrow> bytes \<Rightarrow> bytes option \<Rightarrow> nat \<Rightarrow> bytes" where
  "pwd_seed addrs pw ident n = hmac sha256 64 addrs (concat (pwd_seed_data pw ident n))"

definition pwe_ecc_candidate ::
  "'g crypto_ec \<Rightarrow> nat \<Rightarrow> bytes \<Rightarrow> bytes \<Rightarrow> bytes \<Rightarrow> bytes option \<Rightarrow> nat \<Rightarrow> (nat \<times> bool) option" where
  "pwe_ecc_candidate ec bits prime addrs pw ident n =
     map_option (\<lambda>x. (x, odd (unat (pwd_seed addrs pw ident n ! 31))))
       (ecc_candidate ec bits prime (pwd_seed addrs pw ident n))"

fun first_some :: "('a \<Rightarrow> 'b option) \<Rightarrow> 'a list \<Rightarrow> 'b option" where
  "first_some f [] = None"
| "first_some f (x # xs) = (case f x of None \<Rightarrow> first_some f xs | Some y \<Rightarrow> Some y)"

definition pwe_ecc_spec ::
  "'g crypto_ec \<Rightarrow> nat \<Rightarrow> bytes \<Rightarrow> bytes \<Rightarrow> bytes \<Rightarrow> bytes option \<Rightarrow> (nat \<times> bool) option" where
  "pwe_ecc_spec ec bits prime addrs pw ident =
     first_some (pwe_ecc_candidate ec bits prime addrs pw ident) [1..<201]"

lemma pwd_seed_eq: "hmac_sha256_vector addrs (pwd_seed_data pw ident n) = Some (pwd_seed addrs pw ident n)"
  by (cases ident) (simp_all add: hmac_sha256_vector_eq pwd_seed_data_def pwd_seed_def)

text \<open>The curve parameters are reduced modulo an odd prime.\<close>

definition ec_params_ok :: "'g crypto_ec \<Rightarrow> bool" where
  "ec_params_ok ec \<longleftrightarrow> is_prime (ec_prime ec) \<and> 2 < ec_prime ec \<and> ec_a ec < ec_prime ec \<and> ec_b ec < ec_prime ec"

context openssl_bn
begin

lemma compute_y_sqr:
  assumes "ec_params_ok ec"
  shows "crypto_ec_point_compute_y_sqr L ec x = Some (ecc_rhs ec x)"
proof -
  let ?p = "ec_prime ec"
  have "((ec_a ec * x mod ?p + (x * x mod ?p) * x mod ?p) mod ?p + ec_b ec) mod ?p = ecc_rhs ec x"
    by (simp add: ecc_rhs_def mod_mult_left_eq mod_add_left_eq mod_add_right_eq mod_simps power3_eq_cube algebra_simps)
  then show ?thesis
    using assms
    by (simp add: crypto_ec_point_compute_y_sqr_def ec_params_ok_def alloc mod_sqr mod_mul mod_add_quick)
qed

lemma pwd_value_some:
  "\<exists>v. sha256_prf_bits seed label data bits = Some v \<and> length v = (bits + 7) div 8"
  using sha256_prf_bits_eq [of bits "(bits + 7) div 8" seed label data] by (simp add: length_kdf_stream)

lemma test_pwd_seed_ecc:
  assumes ok: "ec_params_ok ec" and prime: "be_val prime = ec_prime ec" "length prime = (bits + 7) div 8"
    and bits: "crypto_ec_prime_len_bits L ec = bits"
    and qr: "crypto_bignum_legendre L qr (ec_prime ec) = 1" "crypto_bignum_legendre L qnr (ec_prime ec) = - 1"
    and res: "sae_test_pwd_seed_ecc L ec (ec_prime ec) seed prime qr qnr rnd = ((res, x), rnd')"
  shows "res = - 1 \<or> x = ecc_candidate ec bits prime seed \<and> res = (if x = None then 0 else 1)"
proof -
  let ?p = "ec_prime ec"
  have p: "is_prime ?p" "2 < ?p" using ok by (simp_all add: ec_params_ok_def)
  obtain v where v: "sha256_prf_bits seed (ascii ''SAE Hunting and Pecking'') prime bits = Some v"
      "length v = (bits + 7) div 8" using pwd_value_some by blast
  define c where "c = be_val (shift_unused v bits)"
  have ge: "os_memcmp (shift_unused v bits) prime \<ge> 0 \<longleftrightarrow> ?p \<le> c"
    using os_memcmp_be_val [of "shift_unused v bits" prime] v(2) prime by (simp add: c_def)
  have cand: "ecc_candidate ec bits prime seed =
      (if c < ?p \<and> crypto_bignum_legendre L (ecc_rhs ec c) ?p = 1 then Some c else None)"
    using v(1) legendre_values [OF p, of "ecc_rhs ec c"] by (simp add: ecc_candidate_def c_def Let_def)
  show ?thesis
  proof (cases "?p \<le> c")
    case True
    then show ?thesis using res v(1) bits ge cand by (simp add: sae_test_pwd_seed_ecc_def Let_def)
  next
    case False
    obtain d rnd1 where d: "get_rand_1_to_p_1 L prime bits rnd = (d, rnd1)" by fastforce
    have body: "sae_test_pwd_seed_ecc L ec ?p seed prime qr qnr rnd =
        (case is_quadratic_residue_blind L ?p prime bits qr qnr (ecc_rhs ec c) rnd of
           (res, rnd) \<Rightarrow> if res \<le> 0 then ((res, None), rnd) else ((1, Some c), rnd))"
      using False v(1) bits ge compute_y_sqr [OF ok] unfolding c_def
      by (simp add: sae_test_pwd_seed_ecc_def Let_def bn_ops)
    show ?thesis
    proof (cases d)
      case None
      then show ?thesis using res d is_quadratic_residue_blind_fails unfolding body by simp
    next
      case (Some rb)
      then show ?thesis
        using res d is_quadratic_residue_blind_eq [OF p prime(1) qr, of bits rnd] cand False
        unfolding body by (cases rb) (auto split: if_splits)
    qed
  qed
qed

lemma pwe_ecc_loop_found:
  "pwe_ecc_loop L ec p prime qr qnr addrs ident dummy n pw (Some x) rnd = (Inr y, rnd') \<Longrightarrow> y = Some x"
proof (induction "201 - n" arbitrary: n rnd rule: less_induct)
  case less
  show ?case
  proof (cases "n \<le> 40")
    case True
    with less.prems obtain r c rnd1 where
      "pwe_ecc_loop L ec p prime qr qnr addrs ident dummy (n + 1) pw (Some x) rnd1 = (Inr y, rnd')"
      by (subst (asm) pwe_ecc_loop.simps)
        (auto simp: pwd_seed_eq split: prod.splits if_splits)
    then show ?thesis using less.hyps [of "n + 1"] True by auto
  next
    case False
    then show ?thesis using less.prems by (subst (asm) pwe_ecc_loop.simps) auto
  qed
qed

lemma pwe_ecc_loop_err:
  "pwe_ecc_loop L ec p prime qr qnr addrs ident dummy n pw x rnd = (Inl e, rnd') \<Longrightarrow> e < 0"
proof (induction L ec p prime qr qnr addrs ident dummy n pw x rnd rule: pwe_ecc_loop.induct)
  case (1 L ec p prime qr qnr addrs ident dummy n pw x rnd)
  obtain res c rnd1 where
    t: "sae_test_pwd_seed_ecc L ec p (pwd_seed addrs pw ident n) prime qr qnr rnd = ((res, c), rnd1)"
    by (metis surj_pair)
  from 1 t show ?case
    by (subst (asm) (3) pwe_ecc_loop.simps) (auto simp: pwd_seed_eq split: if_splits)
qed

lemma pwe_ecc_loop_search:
  assumes ok: "ec_params_ok ec" and prime: "be_val prime = ec_prime ec" "length prime = (bits + 7) div 8"
    and bits: "crypto_ec_prime_len_bits L ec = bits"
    and qr: "crypto_bignum_legendre L qr (ec_prime ec) = 1" "crypto_bignum_legendre L qnr (ec_prime ec) = - 1"
    and res: "pwe_ecc_loop L ec (ec_prime ec) prime qr qnr addrs ident dummy n pw None rnd = (out, rnd')"
  shows "(\<exists>e. out = Inl e \<and> e < 0) \<or>
     out = Inr (first_some (pwe_ecc_candidate ec bits prime addrs pw ident) [n..<201])"
  using res
proof (induction "201 - n" arbitrary: n rnd rule: less_induct)
  case less
  show ?case
  proof (cases "n \<le> 200")
    case False
    then show ?thesis using less.prems by (subst (asm) pwe_ecc_loop.simps) simp
  next
    case True
    let ?seed = "pwd_seed addrs pw ident n"
    obtain res x rnd1 where t: "sae_test_pwd_seed_ecc L ec (ec_prime ec) ?seed prime qr qnr rnd = ((res, x), rnd1)"
      by (metis surj_pair)
    note test = test_pwd_seed_ecc [OF ok prime bits qr t]
    have ups: "[n..<201] = n # [Suc n..<201]" using True by (simp add: upt_rec)
    have body: "pwe_ecc_loop L ec (ec_prime ec) prime qr qnr addrs ident dummy n pw None rnd =
       (if res < 0 then (Inl res, rnd1)
        else if res > 0 then pwe_ecc_loop L ec (ec_prime ec) prime qr qnr addrs ident dummy (n + 1) dummy
             (map_option (\<lambda>c. (c, odd (unat (?seed ! 31)))) x) rnd1
        else pwe_ecc_loop L ec (ec_prime ec) prime qr qnr addrs ident dummy (n + 1) pw None rnd1)"
      using True t by (subst pwe_ecc_loop.simps) (simp add: pwd_seed_eq)
    have cand: "pwe_ecc_candidate ec bits prime addrs pw ident n =
        map_option (\<lambda>c. (c, odd (unat (?seed ! 31)))) (ecc_candidate ec bits prime ?seed)"
      by (simp add: pwe_ecc_candidate_def)
    show ?thesis
    proof (cases "0 \<le> res")
      case False
      then show ?thesis using less.prems unfolding body by auto
    next
      case True
      with test have x: "x = ecc_candidate ec bits prime ?seed" "res = (if x = None then 0 else 1)" by auto
      show ?thesis
      proof (cases x)
        case None
        then have "pwe_ecc_loop L ec (ec_prime ec) prime qr qnr addrs ident dummy (n + 1) pw None rnd1 = (out, rnd')"
          using less.prems x unfolding body by simp
        from less.hyps [OF _ this] \<open>n \<le> 200\<close> None x(1) cand ups show ?thesis by auto
      next
        case (Some c)
        then have lp: "pwe_ecc_loop L ec (ec_prime ec) prime qr qnr addrs ident dummy (n + 1) dummy
            (Some (c, odd (unat (?seed ! 31)))) rnd1 = (out, rnd')"
          using less.prems x unfolding body by simp
        have "(\<exists>e. out = Inl e \<and> e < 0) \<or> out = Inr (Some (c, odd (unat (?seed ! 31))))"
        proof (cases out)
          case (Inl e)
          then show ?thesis using lp pwe_ecc_loop_err by blast
        next
          case (Inr y)
          then show ?thesis using lp pwe_ecc_loop_found by blast
        qed
        then show ?thesis using Some x(1) cand ups by auto
      qed
    qed
  qed
qed

lemma sae_derive_pwe_ecc_eq:
  assumes ok: "ec_params_ok ec" and t: "st_prime tmp = Some (ec_prime ec)" "st_prime_len tmp = crypto_ec_prime_len L ec"
    and len: "crypto_ec_prime_len L ec \<le> SAE_MAX_ECC_PRIME_LEN"
  defines "prime \<equiv> be_bytes (crypto_ec_prime_len L ec) (ec_prime ec)"
    and "bits \<equiv> crypto_ec_prime_len_bits L ec"
  shows "\<exists>res tmp' rnd'. sae_derive_pwe_ecc L tmp ec a1 a2 pw ident rnd = Some (res, tmp', rnd') \<and>
     (res < 0 \<or> (\<exists>x b q. res = 0 \<and> pwe_ecc_spec ec bits prime (sae_pwd_seed_key a1 a2) pw ident = Some (x, b) \<and>
        crypto_ec_point_solve_y_coord L ec x (if b then 1 else 0) = Some q \<and> tmp' = tmp\<lparr>st_pwe_ecc := Some q\<rparr>))"
proof -
  let ?p = "ec_prime ec" and ?addrs = "sae_pwd_seed_key a1 a2"
  have p: "?p < 256 ^ crypto_ec_prime_len L ec"
    using num_bytes_le [of ?p "crypto_ec_prime_len L ec"] by (simp add: crypto_ec_prime_len_def)
  have bin: "crypto_bignum_to_bin L ?p SAE_MAX_ECC_PRIME_LEN (crypto_ec_prime_len L ec) = Some prime"
    unfolding prime_def by (rule to_bin [OF p len])
  have prime: "be_val prime = ?p" "length prime = (bits + 7) div 8"
    using p by (simp_all add: prime_def be_val_be_bytes bits_def crypto_ec_prime_len_def
        crypto_ec_prime_len_bits_def BN_num_bytes_def)
  obtain dummy rnd1 where d: "random_get_bytes (min (length pw) 32) rnd = (dummy, rnd1)" by fastforce
  obtain qs rnd2 where q: "get_random_qr_qnr L prime ?p bits rnd1 = (qs, rnd2)" by fastforce
  show ?thesis
  proof (cases "dummy = None \<or> qs = None")
    case True
    then have "\<exists>rnd'. sae_derive_pwe_ecc L tmp ec a1 a2 pw ident rnd = Some (- 1, tmp, rnd')"
      using d t bin q by (cases dummy) (simp_all add: sae_derive_pwe_ecc_def bits_def [symmetric])
    then show ?thesis by fastforce
  next
    case False
    then obtain dm qr qnr where dm: "dummy = Some dm" and qs: "qs = Some (qr, qnr)" by auto
    have leg: "crypto_bignum_legendre L qr ?p = 1" "crypto_bignum_legendre L qnr ?p = - 1"
      using q qs get_random_qr_qnr_loop_sound [of prime ?p bits None None rnd1 qr qnr rnd2]
      by (auto simp: get_random_qr_qnr_def split: prod.splits option.splits)
    obtain out rnd3 where lp: "pwe_ecc_loop L ec ?p prime qr qnr ?addrs ident dm 1 pw None rnd2 = (out, rnd3)"
      by fastforce
    have out: "(\<exists>e. out = Inl e \<and> e < 0) \<or> out = Inr (pwe_ecc_spec ec bits prime ?addrs pw ident)"
      using pwe_ecc_loop_search [OF ok prime _ leg lp] bits_def
      unfolding pwe_ecc_spec_def by blast
    have run: "sae_derive_pwe_ecc L tmp ec a1 a2 pw ident rnd =
        (case (out, rnd3) of
           (Inl res, rnd) \<Rightarrow> Some (res, tmp, rnd)
         | (Inr None, rnd) \<Rightarrow> Some (- 1, tmp, rnd)
         | (Inr (Some (x, pwd_seed_odd)), rnd) \<Rightarrow>
             let tmp = (if st_pwe_ecc tmp = None then tmp\<lparr>st_pwe_ecc := crypto_ec_point_init L ec\<rparr> else tmp)
             in Some (if st_pwe_ecc tmp = None then (- 1, tmp, rnd)
                      else case crypto_ec_point_solve_y_coord L ec x (if pwd_seed_odd then 1 else 0) of
                             None \<Rightarrow> (- 1, tmp, rnd)
                           | Some pwe \<Rightarrow> (0, tmp\<lparr>st_pwe_ecc := Some pwe\<rparr>, rnd)))"
      using d dm t bin q qs lp by (simp add: sae_derive_pwe_ecc_def bits_def [symmetric])
    show ?thesis
    proof (cases out)
      case (Inl e)
      then show ?thesis unfolding run using out by simp
    next
      case (Inr y)
      then have y: "y = pwe_ecc_spec ec bits prime ?addrs pw ident" using out by simp
      show ?thesis
      proof (cases y)
        case None
        then show ?thesis unfolding run Inr by fastforce
      next
        case (Some xb)
        obtain x b where xb: "xb = (x, b)" by fastforce
        let ?q = "crypto_ec_point_solve_y_coord L ec x (if b then 1 else 0)"
        have "\<exists>tmp'. sae_derive_pwe_ecc L tmp ec a1 a2 pw ident rnd = Some (- 1, tmp', rnd3) \<or>
            (\<exists>q. ?q = Some q \<and>
              sae_derive_pwe_ecc L tmp ec a1 a2 pw ident rnd = Some (0, tmp\<lparr>st_pwe_ecc := Some q\<rparr>, rnd3))"
          unfolding run Inr Some xb by (cases ?q) (simp_all add: Let_def)
        then show ?thesis using y Some xb by fastforce
      qed
    qed
  qed
qed

end

subsection \<open>Properties\<close>

text \<open>C22: the blinded quadratic residue test answers what the plain Euler criterion answers, for every
  blinding value that the random number generator supplies; it returns -1 only when the generator
  fails.\<close>

theorem is_quadratic_residue_blind_correct:
  assumes "openssl_bn L" and "is_prime p" "2 < p" "be_val prime = p"
    and "crypto_bignum_legendre L qr p = 1" and "crypto_bignum_legendre L qnr p = - 1"
  shows "fst (is_quadratic_residue_blind L p prime bits qr qnr y rnd) =
     (if fst (get_rand_1_to_p_1 L prime bits rnd) = None then - 1
      else if y ^ ((p - 1) div 2) mod p = 1 then 1 else 0)"
proof -
  obtain d rnd1 where d: "get_rand_1_to_p_1 L prime bits rnd = (d, rnd1)" by fastforce
  show ?thesis
    using openssl_bn.is_quadratic_residue_blind_eq [OF assms, of bits rnd] d
      openssl_bn.is_quadratic_residue_blind_fails [OF assms(1), of prime bits rnd]
      openssl_bn.legendre_values [OF assms(1-3), of y]
    by (cases d) auto
qed

lemma prime_7: "is_prime 7"
  by (simp add: is_prime_def atLeastLessThan_upt upt_rec dvd_eq_mod_eq_0)

theorem is_quadratic_residue_blind_correct_witness:
  "fst (is_quadratic_residue_blind ref_curve 7 [7] 3 2 3 4 [[0xff], [0xa0]]) = 1"
proof -
  have leg: "crypto_bignum_legendre ref_curve 2 7 = 1" "crypto_bignum_legendre ref_curve 3 7 = - 1"
    by (simp_all add: ref_curve.legendre Let_def)
  have "fst (get_rand_1_to_p_1 ref_curve [7] 3 [[0xff], [0xa0]]) \<noteq> None"
    by (simp add: shift_unused_def buf_shift_right_def ref_curve.bn_ops)
  then show ?thesis
    using is_quadratic_residue_blind_correct [OF ref_curve.openssl_bn_axioms prime_7 _ _ leg,
        where prime = "[7]" and bits = 3 and y = 4 and rnd = "[[0xff], [0xa0]]"] by simp
qed

text \<open>C21: on a curve the derivation of the password element never dereferences a missing value, and
  when it succeeds the element is the point of the first candidate in the hunting-and-pecking order
  of the specification.  So it depends on the password, the identifier and the unordered pair of
  addresses, and neither on the dummy password nor on any other random value.\<close>

theorem sae_derive_pwe_ecc_correct:
  assumes L: "openssl_bn L" and ok: "ec_params_ok ec"
    and t: "st_prime tmp = Some (ec_prime ec)" "st_prime_len tmp = crypto_ec_prime_len L ec"
    and len: "crypto_ec_prime_len L ec \<le> SAE_MAX_ECC_PRIME_LEN" and addr: "length a1 = length a2"
  shows "\<exists>res tmp' rnd'. sae_derive_pwe_ecc L tmp ec a1 a2 pw ident rnd = Some (res, tmp', rnd') \<and>
     (res < 0 \<or> (\<exists>x b q. res = 0 \<and>
        pwe_ecc_spec ec (crypto_ec_prime_len_bits L ec) (be_bytes (crypto_ec_prime_len L ec) (ec_prime ec))
          (sae_pwd_seed_key a2 a1) pw ident = Some (x, b) \<and>
        crypto_ec_point_solve_y_coord L ec x (if b then 1 else 0) = Some q \<and> tmp' = tmp\<lparr>st_pwe_ecc := Some q\<rparr>))"
  using openssl_bn.sae_derive_pwe_ecc_eq [OF L ok t len, of a1 a2 pw ident rnd]
  unfolding sae_pwd_seed_key_sym [OF addr] .

theorem sae_derive_pwe_ecc_correct_witness:
  "\<exists>res tmp' rnd'. sae_derive_pwe_ecc ref_curve (sae_tmp_zero\<lparr>st_ec := Some ref_ec, st_prime_len := 1,
       st_prime := Some 7, st_order := Some 13\<rparr>) ref_ec [1, 2, 3, 4, 5, 6] [7, 8, 9, 10, 11, 12]
     (ascii ''mekmitasdigoat'') None (replicate 14 7 # [0x40] # [0x60] # replicate 200 [0x20]) = Some (res, tmp', rnd') \<and>
     res \<le> 0"
proof -
  have bl: "bit_len 7 = 3" by (simp add: bit_len.simps)
  have "crypto_ec_prime_len ref_curve ref_ec = 1"
    by (simp add: crypto_ec_prime_len_def BN_num_bytes_def ref_curve_def ref_openssl_def ref_ec_def bl)
  then show ?thesis
    using sae_derive_pwe_ecc_correct [OF ref_curve.openssl_bn_axioms, of ref_ec "sae_tmp_zero\<lparr>st_ec := Some ref_ec,
        st_prime_len := 1, st_prime := Some 7, st_order := Some 13\<rparr>" "[1, 2, 3, 4, 5, 6]" "[7, 8, 9, 10, 11, 12]"
        "ascii ''mekmitasdigoat''" None "replicate 14 7 # [0x40] # [0x60] # replicate 200 [0x20]"]
    by (auto simp: ec_params_ok_def ref_ec_def prime_7 SAE_MAX_ECC_PRIME_LEN_def)
qed

end
