(* ===== verification/SaeEcc.thy ===== *)
theory SaeEcc
  imports SaeMsg SaeBlind
begin

text \<open>
  SAE over elliptic curve groups.  The locale \<open>openssl_ec\<close> states what the program relies on of the
  curve functions of OpenSSL; its interpretation is the reference curve of \<open>CryptoOpenssl\<close>.  As for
  the finite fields, the Commit messages are read back by the peer, the keys agree and the Confirm
  messages are accepted.
\<close>

subsection \<open>What the program relies on\<close>

text \<open>\<open>ec\<close> is the result of \<^verbatim>\<open>crypto_ec_init\<close>, \<open>E\<close> holds of the points of the subgroup of prime order
  that the SAE groups are (the NIST and Brainpool curves have cofactor 1).\<close>

locale openssl_ec = openssl_bn L + sae_group E plus zero smul "ec_order ec"
  for L :: "('g, 'q) openssl" and ec :: "'g crypto_ec" and E :: "'q \<Rightarrow> bool"
    and plus :: "'q \<Rightarrow> 'q \<Rightarrow> 'q" and zero :: 'q and smul :: "nat \<Rightarrow> 'q \<Rightarrow> 'q" +
  assumes params: "ec_params_ok ec"
    and order_prime: "is_prime (ec_order ec)" and order_gt: "2 < ec_order ec"
    and order_len: "ec_order ec < 256 ^ crypto_ec_prime_len L ec"
    and prime_len: "crypto_ec_prime_len L ec \<le> SAE_MAX_ECC_PRIME_LEN"
    and point_new: "\<exists>q. EC_POINT_new L (ec_group ec) = Some q"
    and point_add: "E x \<Longrightarrow> E y \<Longrightarrow> EC_POINT_add L (ec_group ec) x y = Some (plus x y)"
    and point_mul: "E x \<Longrightarrow> EC_POINT_mul L (ec_group ec) x n = Some (smul n x)"
    and point_invert: "E x \<Longrightarrow> \<exists>y. EC_POINT_invert L (ec_group ec) x = Some y \<and> E y \<and> plus y x = zero"
    and at_infinity: "E x \<Longrightarrow> EC_POINT_is_at_infinity L (ec_group ec) x \<longleftrightarrow> x = zero"
    and on_curve: "E x \<Longrightarrow> EC_POINT_is_on_curve L (ec_group ec) x = 1"
    and affine: "E x \<Longrightarrow> x \<noteq> zero \<Longrightarrow> \<exists>a b.
      EC_POINT_get_affine_coordinates_GFp L (ec_group ec) x = Some (a, b) \<and> a < ec_prime ec \<and>
      b < ec_prime ec \<and> EC_POINT_set_affine_coordinates_GFp L (ec_group ec) a b = Some x"
    and point_compressed: "EC_POINT_set_compressed_coordinates_GFp L (ec_group ec) a b = Some x \<Longrightarrow>
      E x \<and> x \<noteq> zero"
    and point_cmp: "E x \<Longrightarrow> E y \<Longrightarrow> EC_POINT_cmp L (ec_group ec) x y = 0 \<longleftrightarrow> x = y"

text \<open>The reference curve keeps the contract: its points are the residues modulo 13.\<close>

lemma ref_crypto_ec_prime_len: "crypto_ec_prime_len ref_curve ref_ec = 1"
proof -
  have "bit_len 7 = 3" by (simp add: bit_len.simps)
  then show ?thesis
    by (simp add: crypto_ec_prime_len_def BN_num_bytes_def ref_curve_def ref_openssl_def ref_ec_def)
qed

lemma prime_13: "is_prime 13"
  by (simp add: is_prime_def atLeastLessThan_upt upt_rec dvd_eq_mod_eq_0)

lemma ref_affine:
  assumes "x < 13" and "x \<noteq> 0"
  shows "\<exists>a b. ref_points ! (x - 1) = (a, b) \<and> a < 7 \<and> b < 7 \<and> ref_point_find (\<lambda>c. c = (a, b)) = Some x"
proof -
  have "x = 1 \<or> x = 2 \<or> x = 3 \<or> x = 4 \<or> x = 5 \<or> x = 6 \<or> x = 7 \<or> x = 8 \<or> x = 9 \<or> x = 10 \<or> x = 11 \<or> x = 12"
    using assms by presburger
  then show ?thesis
    by (elim disjE) (simp_all add: ref_points_def ref_point_find_def upt_rec)
qed

lemma ref_point_find_range: "ref_point_find P = Some k \<Longrightarrow> k < 13 \<and> k \<noteq> 0"
  by (auto simp: ref_point_find_def find_Some_iff simp del: upt_Suc)

lemma ref_sae_group: "sae_group (\<lambda>k. k < 13) (\<lambda>i j. (i + j) mod 13) 0 (\<lambda>n i. n * i mod 13) (ec_order ref_ec)"
  by unfold_locales (simp_all add: ref_ec_def mod_add_left_eq mod_add_right_eq ac_simps)

lemma ref_invert: "x < 13 \<Longrightarrow> ((13 - x) mod 13 + x) mod 13 = 0" for x :: nat
  by (simp add: mod_add_left_eq)

lemmas ref_curve_ops = ref_curve_def ref_ec_def

interpretation ref_ec: openssl_ec ref_curve ref_ec "\<lambda>k. k < 13" "\<lambda>i j. (i + j) mod 13" 0 "\<lambda>n i. n * i mod 13"
proof (intro openssl_ec.intro ref_curve.openssl_bn_axioms ref_sae_group openssl_ec_axioms.intro)
  fix x y n :: nat
  show "ec_params_ok ref_ec" by (simp add: ec_params_ok_def ref_ec_def prime_7)
  show "is_prime (ec_order ref_ec)" by (simp add: ref_ec_def prime_13)
  show "2 < ec_order ref_ec" by (simp add: ref_ec_def)
  show "ec_order ref_ec < 256 ^ crypto_ec_prime_len ref_curve ref_ec"
    unfolding ref_crypto_ec_prime_len by (simp add: ref_ec_def)
  show "crypto_ec_prime_len ref_curve ref_ec \<le> SAE_MAX_ECC_PRIME_LEN"
    unfolding ref_crypto_ec_prime_len by (simp add: SAE_MAX_ECC_PRIME_LEN_def)
  show "x < 13 \<Longrightarrow> \<exists>y. EC_POINT_invert ref_curve (ec_group ref_ec) x = Some y \<and> y < 13 \<and> (y + x) mod 13 = 0"
    using ref_invert [of x] by (simp add: ref_curve_ops)
  show "x < 13 \<Longrightarrow> x \<noteq> 0 \<Longrightarrow> \<exists>a b.
      EC_POINT_get_affine_coordinates_GFp ref_curve (ec_group ref_ec) x = Some (a, b) \<and> a < ec_prime ref_ec \<and>
      b < ec_prime ref_ec \<and> EC_POINT_set_affine_coordinates_GFp ref_curve (ec_group ref_ec) a b = Some x"
    using ref_affine [of x] by (auto simp: ref_curve_ops)
  show "EC_POINT_set_compressed_coordinates_GFp ref_curve (ec_group ref_ec) a b = Some x \<Longrightarrow> x < 13 \<and> x \<noteq> 0" for a b
    by (simp add: ref_curve_ops ref_point_find_range)
qed (simp_all add: ref_curve_ops)

subsection \<open>Encoding of elements\<close>

definition ecc_coords :: "('g, 'q) openssl \<Rightarrow> 'g crypto_ec \<Rightarrow> 'q \<Rightarrow> nat \<times> nat" where
  "ecc_coords L ec x =
     (case EC_POINT_get_affine_coordinates_GFp L (ec_group ec) x of None \<Rightarrow> (0, 0) | Some c \<Rightarrow> c)"

definition ecc_bin :: "('g, 'q) openssl \<Rightarrow> 'g crypto_ec \<Rightarrow> 'q \<Rightarrow> bytes" where
  "ecc_bin L ec x = be_bytes (crypto_ec_prime_len L ec) (fst (ecc_coords L ec x)) @
     be_bytes (crypto_ec_prime_len L ec) (snd (ecc_coords L ec x))"

text \<open>An instance after \<^verbatim>\<open>sae_set_group\<close> on the curve \<open>ec\<close>.\<close>

definition ecc_instance :: "('g, 'q) openssl \<Rightarrow> 'g crypto_ec \<Rightarrow> ('g, 'q) sae_temporary_data \<Rightarrow> bool" where
  "ecc_instance L ec tmp \<longleftrightarrow> st_ec tmp = Some ec \<and> st_dh tmp = None \<and>
     st_prime_len tmp = crypto_ec_prime_len L ec \<and> st_prime tmp = Some (ec_prime ec) \<and>
     st_order tmp = Some (ec_order ec)"

text \<open>A party ready to exchange Commits: the group \<open>g\<close> is selected and allowed, no peer is accepted
  yet, no password identifier is in use.\<close>

definition group_listed :: "int list option \<Rightarrow> u16 \<Rightarrow> bool" where
  "group_listed allowed g \<longleftrightarrow> (case allowed of None \<Rightarrow> True | Some gs \<Rightarrow> group_scan gs (uint g) = Some (uint g))"

definition ecc_ready ::
  "('g, 'q) openssl \<Rightarrow> 'g crypto_ec \<Rightarrow> u16 \<Rightarrow> int list option \<Rightarrow> ('g, 'q) sae_data \<Rightarrow>
   ('g, 'q) sae_temporary_data \<Rightarrow> bool" where
  "ecc_ready L ec g allowed sae tmp \<longleftrightarrow> sd_group sae = uint g \<and> group_listed allowed g \<and>
     sd_state sae \<noteq> SAE_ACCEPTED \<and> ecc_instance L ec tmp \<and> st_pw_id tmp = None"

lemma mem_store_two:
  assumes "length x = n" and "length y = n"
  shows "do { blk \<leftarrow> mem_store pos x blk; mem_store (pos + n) y blk } = mem_store pos (x @ y) blk"
  using assms by (auto simp: mem_store_def ac_simps)

lemma wpabuf_put_coords_bytes:
  assumes "length x = n" and "length y = n"
  shows "wpabuf_put_coords b n (Some (Some x, Some y)) = wpabuf_put_bytes b (x @ y)"
proof -
  have two: "do { blk \<leftarrow> mem_store pos x bb; blk \<leftarrow> mem_store (pos + n) y blk; Some (f blk) } =
      do { blk \<leftarrow> mem_store pos (x @ y) bb; Some (f blk) }" for pos bb and f :: "bytes \<Rightarrow> wpabuf"
    by (simp only: mem_store_two [OF assms, symmetric] bind_assoc)
  have len: "length (x @ y) = 2 * n" using assms by simp
  show ?thesis
    unfolding wpabuf_put_coords_def wpabuf_put_bytes_def wpabuf_put_data_def option.case prod.case Let_def
      len two ..
qed

context openssl_ec
begin

lemma length_ecc_bin: "length (ecc_bin L ec x) = 2 * crypto_ec_prime_len L ec"
  by (simp add: ecc_bin_def)

lemma prime_fits: "ec_prime ec < 256 ^ crypto_ec_prime_len L ec"
  using num_bytes_le [of "ec_prime ec" "crypto_ec_prime_len L ec"] by (simp add: crypto_ec_prime_len_def)

lemma plen_max: "crypto_ec_prime_len L ec \<le> SAE_MAX_PRIME_LEN"
  using prime_len by (simp add: sae_consts)

lemma p_gt: "1 < ec_prime ec" and r_pos: "0 < ec_order ec"
  using params order_gt by (simp_all add: ec_params_ok_def)

lemma ecc_scalar_to_bin:
  assumes "s < ec_order ec" and "crypto_ec_prime_len L ec \<le> m"
  shows "crypto_bignum_to_bin L s m (crypto_ec_prime_len L ec) = Some (be_bytes (crypto_ec_prime_len L ec) s)"
  using assms order_len by (intro to_bin) auto

lemma ecc_coords_ok:
  assumes "E x" and "x \<noteq> zero"
  shows "EC_POINT_get_affine_coordinates_GFp L (ec_group ec) x = Some (ecc_coords L ec x)"
    "fst (ecc_coords L ec x) < ec_prime ec" "snd (ecc_coords L ec x) < ec_prime ec"
    "EC_POINT_set_affine_coordinates_GFp L (ec_group ec) (fst (ecc_coords L ec x)) (snd (ecc_coords L ec x)) = Some x"
  using affine [OF assms] by (auto simp: ecc_coords_def)

lemma point_to_bin:
  assumes "E x" and "x \<noteq> zero"
  shows "crypto_ec_point_to_bin L ec x =
    Some (Some (be_bytes (crypto_ec_prime_len L ec) (fst (ecc_coords L ec x))),
          Some (be_bytes (crypto_ec_prime_len L ec) (snd (ecc_coords L ec x))))"
proof -
  have "crypto_bignum_to_bin L c (crypto_ec_prime_len L ec) (crypto_ec_prime_len L ec) =
      Some (be_bytes (crypto_ec_prime_len L ec) c)" if "c < ec_prime ec" for c
    using that prime_fits by (intro to_bin) auto
  then show ?thesis
    using ecc_coords_ok [OF assms]
    by (simp add: crypto_ec_point_to_bin_def alloc crypto_ec_prime_len_def [symmetric] case_prod_beta Let_def)
qed

lemma element_bin:
  assumes "E x" and "x \<noteq> zero"
  shows "ecc_element_bin L ec (Some x) = Some (ecc_bin L ec x)"
  using point_to_bin [OF assms] by (simp add: ecc_element_bin_def ecc_bin_def)

lemma point_from_bin:
  assumes "E x" and "x \<noteq> zero"
  shows "crypto_ec_point_from_bin L ec (ecc_bin L ec x @ rest) = Some x"
proof -
  have "be_val (be_bytes (crypto_ec_prime_len L ec) c) = c" if "c < ec_prime ec" for c
    using that prime_fits by (intro be_val_be_bytes) simp
  then show ?thesis
    using ecc_coords_ok [OF assms] point_new
    by (auto simp: crypto_ec_point_from_bin_def ecc_bin_def crypto_ec_prime_len_def [symmetric] bin2bn Let_def)
qed

subsection \<open>Commit\<close>

definition commit_for :: "'q \<Rightarrow> nat \<Rightarrow> nat \<Rightarrow> nat \<Rightarrow> 'q \<Rightarrow> bool" where
  "commit_for pwe rand m s e \<longleftrightarrow>
     1 < rand \<and> rand < ec_order ec \<and> 1 < m \<and> m < ec_order ec \<and> s = (rand + m) mod ec_order ec \<and> 1 < s \<and>
     E e \<and> plus e (smul m pwe) = zero"

lemma below_order_ne_zero: "E x \<Longrightarrow> x \<noteq> zero \<Longrightarrow> 1 < m \<Longrightarrow> m < ec_order ec \<Longrightarrow> smul m x \<noteq> zero"
  by (rule smul_ne_zero [OF _ _ order_prime]) (auto dest: dvd_imp_le)

lemma commit_element_ne_zero:
  assumes "commit_for pwe rand m s e" and "E pwe" and "pwe \<noteq> zero"
  shows "e \<noteq> zero"
  using assms below_order_ne_zero [OF assms(2,3), of m] zero_plus [OF smul_closed [OF assms(2)], of m]
  by (auto simp: commit_for_def)

lemma sae_derive_commit_ecc:
  assumes ok: "sae_derive_commit L tmp rnd = Some (0, tmp', rnd')" and inst: "ecc_instance L ec tmp"
    and pwe: "st_pwe_ecc tmp = Some pwe" "E pwe"
  shows "\<exists>rand m s e. commit_for pwe rand m s e \<and> ecc_instance L ec tmp' \<and> st_pwe_ecc tmp' = Some pwe \<and>
     st_sae_rand tmp' = Some rand \<and> st_own_commit_scalar tmp' = Some s \<and> st_own_commit_element_ecc tmp' = Some e"
proof -
  let ?r = "ec_order ec"
  from ok obtain mm tmp1 rnd1 where lp: "sae_derive_commit_loop L 100 tmp rnd = Some (mm, tmp1, rnd1)"
    by (auto simp: sae_derive_commit_def simp del: sae_derive_commit_loop.simps split: Option.bind_splits)
  with ok obtain m where m: "mm = Some m"
    by (cases mm) (auto simp: sae_derive_commit_def simp del: sae_derive_commit_loop.simps)
  have ord: "st_order tmp = Some ?r" using inst by (simp add: ecc_instance_def)
  from sae_derive_commit_loop_some [OF lp [unfolded m] ord r_pos] obtain rand where
    c: "1 < rand" "rand < ?r" "1 < m" "m < ?r" "1 < (rand + m) mod ?r"
    and t1: "tmp1 = tmp\<lparr>st_sae_rand := Some rand, st_own_commit_scalar := Some ((rand + m) mod ?r)\<rparr>"
    by blast
  obtain e where e: "EC_POINT_invert L (ec_group ec) (smul m pwe) = Some e" "E e" "plus e (smul m pwe) = zero"
    using point_invert [OF smul_closed [OF pwe(2)]] by blast
  have "sae_derive_commit_element_ecc L tmp1 ec m = Some (0, tmp1\<lparr>st_own_commit_element_ecc := Some e\<rparr>)"
    using pwe t1 e point_new point_mul [OF pwe(2)]
    by (auto simp: sae_derive_commit_element_ecc_def crypto_ec_point_init_def crypto_ec_point_mul_def
        crypto_ec_point_invert_def split: option.splits)
  then have "tmp' = tmp1\<lparr>st_own_commit_element_ecc := Some e\<rparr>"
    using ok lp m inst t1
    by (simp add: sae_derive_commit_def ecc_instance_def del: sae_derive_commit_loop.simps)
  then show ?thesis using c t1 inst pwe e by (auto simp: commit_for_def ecc_instance_def)
qed

lemma sae_write_commit_ecc:
  assumes tmp: "sd_tmp sae = Some tmp" "ecc_instance L ec tmp"
    and c: "st_own_commit_scalar tmp = Some s" "s < ec_order ec"
      "st_own_commit_element_ecc tmp = Some e" "E e" "e \<noteq> zero"
  shows "sae_write_commit L sae buf token ident = put_all wpabuf_put_bytes buf
     (commit_fields (sd_group sae) (map_option wb_contents token)
        (be_bytes (crypto_ec_prime_len L ec) s) (ecc_bin L ec e) ident)"
  using tmp c point_to_bin [OF c(4,5)] ecc_scalar_to_bin [OF c(2)]
  by (cases token; cases ident)
    (simp_all add: sae_write_commit_def commit_fields_def Let_def ecc_instance_def ecc_bin_def
      wpabuf_put_field_bytes wpabuf_put_coords_bytes wpabuf_put_folds)

lemma sae_write_commit_ecc_alloc:
  assumes tmp: "sd_tmp sae = Some tmp" "ecc_instance L ec tmp"
    and c: "st_own_commit_scalar tmp = Some s" "s < ec_order ec"
      "st_own_commit_element_ecc tmp = Some e" "E e" "e \<noteq> zero"
    and buf: "wpabuf_alloc malloc (word_of_nat (SAE_COMMIT_MAX_LEN + n)) = Some buf" and n: "n < 2 ^ 32"
    and tok: "case token of None \<Rightarrow> True | Some t \<Rightarrow> length (wb_contents t) \<le> SAE_MAX_PRIME_LEN"
    and idn: "(case ident of None \<Rightarrow> 0 | Some i \<Rightarrow> 3 + length i) \<le> n"
  shows "\<exists>f. sae_write_commit L sae buf token ident = Some f \<and>
     wb_contents f = commit_msg (sd_group sae) (case token of None \<Rightarrow> [] | Some t \<Rightarrow> wb_contents t)
       (be_bytes (crypto_ec_prime_len L ec) s) (ecc_bin L ec e) ident"
  using commit_fields_alloc [OF buf n _ _ idn, of "be_bytes (crypto_ec_prime_len L ec) s"
      "ecc_bin L ec e" "map_option wb_contents token" "sd_group sae"]
    sae_write_commit_ecc [OF tmp c, of buf token ident] prime_len tok
  by (cases token) (auto simp: length_ecc_bin sae_consts)

subsection \<open>Parsing a Commit\<close>

lemma parse_scalar_ecc:
  assumes inst: "ecc_instance L ec tmp" and s: "1 < s" "s < ec_order ec"
    and st: "sd_state sae = SAE_ACCEPTED \<Longrightarrow> sd_peer_commit_scalar sae \<noteq> Some s"
  shows "sae_parse_commit_scalar L sae tmp (be_bytes (crypto_ec_prime_len L ec) s @ rest) =
    Some (WLAN_STATUS_SUCCESS, sae\<lparr>sd_peer_commit_scalar := Some s\<rparr>, rest)"
proof -
  have v: "be_val (be_bytes (crypto_ec_prime_len L ec) s) = s"
    using s order_len by (intro be_val_be_bytes) simp
  show ?thesis
    using inst s st unfolding sae_parse_commit_scalar_def Let_def
    by (auto simp: ecc_instance_def bn_ops v split: option.splits)
qed

lemma parse_element_ecc:
  assumes inst: "ecc_instance L ec tmp" and e: "E e" "e \<noteq> zero"
  shows "sae_parse_commit_element L tmp (ecc_bin L ec e @ rest) =
    Some (WLAN_STATUS_SUCCESS, tmp\<lparr>st_peer_commit_element_ecc := Some e\<rparr>, rest)"
proof -
  let ?n = "crypto_ec_prime_len L ec"
  have cmp: "os_memcmp (be_bytes ?n c) (be_bytes ?n (ec_prime ec)) < 0" if "c < ec_prime ec" for c
    using os_memcmp_be_val [of "be_bytes ?n c" "be_bytes ?n (ec_prime ec)"] that prime_fits
    by (simp add: be_val_be_bytes)
  have bin: "crypto_bignum_to_bin L (ec_prime ec) SAE_MAX_ECC_PRIME_LEN ?n = Some (be_bytes ?n (ec_prime ec))"
    by (rule to_bin [OF prime_fits prime_len])
  note c = ecc_coords_ok [OF e]
  have t: "take ?n (ecc_bin L ec e) = be_bytes ?n (fst (ecc_coords L ec e))"
    "drop ?n (ecc_bin L ec e) = be_bytes ?n (snd (ecc_coords L ec e))"
    by (simp_all add: ecc_bin_def)
  have ge: "\<not> os_memcmp (be_bytes ?n (fst (ecc_coords L ec e))) (be_bytes ?n (ec_prime ec)) \<ge> 0"
    "\<not> os_memcmp (be_bytes ?n (snd (ecc_coords L ec e))) (be_bytes ?n (ec_prime ec)) \<ge> 0"
    using cmp [OF c(2)] cmp [OF c(3)] by simp_all
  show ?thesis
    using inst bin ge point_from_bin [OF e] on_curve [OF e(1)]
    by (simp add: sae_parse_commit_element_def sae_parse_commit_element_ecc_def ecc_instance_def
        length_ecc_bin t crypto_ec_point_is_on_curve_def Let_def)
qed

lemma group_allowed_ecc:
  assumes "sd_tmp sae = Some tmp" and "ecc_instance L ec tmp" and "sd_group sae = uint g" and "group_listed allowed g"
  shows "sae_group_allowed L all sae allowed g = Some (WLAN_STATUS_SUCCESS, sae)"
  using assms by (cases allowed) (simp_all add: sae_group_allowed_def ecc_instance_def group_listed_def)

lemma sae_parse_commit_ecc:
  fixes g :: u16
  assumes tmp: "sd_tmp sae = Some tmp" and inst: "ecc_instance L ec tmp"
    and g: "sd_group sae = uint g" "group_listed allowed g"
    and s: "1 < s" "s < ec_order ec"
    and st: "sd_state sae = SAE_ACCEPTED \<Longrightarrow> sd_peer_commit_scalar sae \<noteq> Some s"
    and e: "E e" "e \<noteq> zero" and own: "\<And>x. st_own_commit_element_ecc tmp = Some x \<Longrightarrow> E x"
    and ident: "ident_ok ident" "st_pw_id tmp = None \<or> st_pw_id tmp = ident"
  defines "n \<equiv> crypto_ec_prime_len L ec"
  shows "sae_parse_commit L all sae (commit_msg (sd_group sae) [] (be_bytes n s) (ecc_bin L ec e) ident) allowed =
    Some (if st_own_commit_scalar tmp = Some s \<and> st_own_commit_element_ecc tmp = Some e
          then SAE_SILENTLY_DISCARD else WLAN_STATUS_SUCCESS, None,
          sae\<lparr>sd_peer_commit_scalar := Some s,
              sd_tmp := Some (tmp\<lparr>st_peer_commit_element_ecc := Some e, st_pw_id := ident\<rparr>)\<rparr>)"
proof -
  let ?body = "be_bytes n s @ ecc_bin L ec e" and ?tmp1 = "tmp\<lparr>st_peer_commit_element_ecc := Some e\<rparr>"
  let ?tmp2 = "?tmp1\<lparr>st_pw_id := ident\<rparr>" and ?msg = "commit_msg (sd_group sae) [] (be_bytes n s) (ecc_bin L ec e) ident"
  have token: "sae_parse_commit_token tmp (?body @ pw_id_elem ident) = (None, ?body @ pw_id_elem ident)"
    using parse_token_none [OF _ ident(1), of ?body tmp] inst
    by (simp add: ecc_instance_def n_def length_ecc_bin)
  have scalar: "sae_parse_commit_scalar L sae tmp (?body @ pw_id_elem ident) =
      Some (WLAN_STATUS_SUCCESS, sae\<lparr>sd_peer_commit_scalar := Some s\<rparr>, ecc_bin L ec e @ pw_id_elem ident)"
    using parse_scalar_ecc [OF inst s st] by (simp add: n_def)
  have pwid: "sae_parse_password_identifier L ?tmp1 (pw_id_elem ident) = (WLAN_STATUS_SUCCESS, ?tmp2)"
    using ident by (intro parse_password_identifier) (simp_all add: alloc)
  have refl: "sae_is_reflection L (sae\<lparr>sd_peer_commit_scalar := Some s, sd_tmp := Some ?tmp2\<rparr>) ?tmp2 =
      Some (st_own_commit_scalar tmp = Some s \<and> st_own_commit_element_ecc tmp = Some e)"
    using inst own e(1) point_cmp
    by (auto simp: sae_is_reflection_def ecc_instance_def bn_ops crypto_ec_point_cmp_def split: option.splits)
  have le16: "WPA_GET_LE16 ?msg = g" and drop2: "drop 2 ?msg = ?body @ pw_id_elem ident"
    and len: "\<not> length ?msg < 2"
    using g(1) by (simp_all add: commit_msg_def get_put_le16)
  show ?thesis
    unfolding sae_parse_commit_def le16 drop2
    using len tmp token scalar parse_element_ecc [OF inst e] pwid refl
    by (simp add: group_allowed_ecc [OF tmp inst g] Let_def)
qed

subsection \<open>Keys and Confirm\<close>

text \<open>An instance that has sent the commit (s, e) and received (s', e').\<close>

definition exchanged :: "nat \<Rightarrow> 'q \<Rightarrow> nat \<Rightarrow> 'q \<Rightarrow> ('g, 'q) sae_data \<Rightarrow> ('g, 'q) sae_temporary_data \<Rightarrow> bool" where
  "exchanged s e s' e' sae tmp \<longleftrightarrow> sd_tmp sae = Some tmp \<and> ecc_instance L ec tmp \<and>
     st_own_commit_scalar tmp = Some s \<and> st_own_commit_element_ecc tmp = Some e \<and>
     sd_peer_commit_scalar sae = Some s' \<and> st_peer_commit_element_ecc tmp = Some e' \<and>
     s < ec_order ec \<and> s' < ec_order ec \<and> E e \<and> E e' \<and> e \<noteq> zero \<and> e' \<noteq> zero"

lemma sae_process_commit_ecc:
  assumes x: "exchanged s e s' e' sae tmp" and pwe: "st_pwe_ecc tmp = Some pwe" "E pwe"
    and rand: "st_sae_rand tmp = Some rand"
    and K: "K = smul rand (plus (smul s' pwe) e')" "K \<noteq> zero"
  defines "n \<equiv> crypto_ec_prime_len L ec" and "t \<equiv> (s + s') mod ec_order ec" and "k \<equiv> fst (ecc_coords L ec K)"
  shows "sae_process_commit L sae = Some (0, sae\<lparr>sd_pmk := take 32 (drop 32 (sae_kdf n k t)),
     sd_pmkid := take 16 (be_bytes n t), sd_tmp := Some (tmp\<lparr>st_kck := take 32 (sae_kdf n k t)\<rparr>)\<rparr>)"
proof -
  have i: "st_ec tmp = Some ec" "st_dh tmp = None" "st_prime_len tmp = n" "st_order tmp = Some (ec_order ec)"
    using x by (auto simp: exchanged_def ecc_instance_def n_def)
  have cl: "E (smul s' pwe)" "E (plus (smul s' pwe) e')" "E K" "E e'"
    using x pwe(2) by (auto simp: K(1) exchanged_def intro: smul_closed plus_closed)
  have kk: "sae_derive_k_ecc L sae tmp ec = Some (Some (be_bytes n k))"
    using x pwe rand point_new cl point_mul point_add at_infinity K point_to_bin [OF cl(3) K(2)]
    by (auto simp: sae_derive_k_ecc_def exchanged_def crypto_ec_point_init_def crypto_ec_point_mul_def
        crypto_ec_point_add_def crypto_ec_point_is_at_infinity_def n_def k_def)
  have "t < ec_order ec" using r_pos by (simp add: t_def)
  then have tb: "crypto_bignum_to_bin L t SAE_MAX_PRIME_LEN n = Some (be_bytes n t)"
    unfolding n_def by (rule ecc_scalar_to_bin [OF _ plen_max])
  have am: "add_mod_unchecked L s s' (ec_order ec) u = t" for u using r_pos by (simp add: add_mod_unchecked t_def)
  have "sae_derive_keys L sae tmp (be_bytes n k) = Some (0, sae\<lparr>sd_pmk := take 32 (drop 32 (sae_kdf n k t)),
      sd_pmkid := take 16 (be_bytes n t), sd_tmp := Some (tmp\<lparr>st_kck := take 32 (sae_kdf n k t)\<rparr>)\<rparr>)"
    using x i by (simp add: sae_derive_keys_def exchanged_def hmac_sha256_eq am tb sae_kdf_eq bn_ops)
  then show ?thesis using x i kk by (simp add: sae_process_commit_def exchanged_def)
qed

lemma sae_cn_confirm_ecc:
  assumes "ecc_instance L ec tmp" and "s1 < ec_order ec" and "s2 < ec_order ec"
    and "E e1" "e1 \<noteq> zero" and "E e2" "e2 \<noteq> zero" and "length sc = 2"
  shows "sae_cn_confirm_ecc L tmp ec (sc @ rest) (Some s1) (Some e1) (Some s2) (Some e2) =
     Some (sae_confirm_value (crypto_ec_prime_len L ec) (st_kck tmp) sc s1 (ecc_bin L ec e1) s2 (ecc_bin L ec e2))"
  using assms
  by (simp add: sae_cn_confirm_ecc_def sae_cn_confirm_def ecc_instance_def element_bin
      ecc_scalar_to_bin [OF _ plen_max] hmac_sha256_vector_eq sae_confirm_value_def)

lemma sae_write_confirm_ecc:
  assumes x: "exchanged s e s' e' sae tmp"
    and buf: "wpabuf_alloc malloc (word_of_nat SAE_CONFIRM_MAX_LEN) = Some buf"
  shows "\<exists>sae' c. sae_write_confirm L sae buf = Some (sae', c) \<and>
     wb_contents c = WPA_PUT_LE16 (sd_send_confirm sae) @ sae_confirm_value (crypto_ec_prime_len L ec)
       (st_kck tmp) (WPA_PUT_LE16 (sd_send_confirm sae)) s (ecc_bin L ec e) s' (ecc_bin L ec e')"
proof -
  let ?sc = "WPA_PUT_LE16 (sd_send_confirm sae)"
  let ?v = "sae_confirm_value (crypto_ec_prime_len L ec) (st_kck tmp) ?sc s (ecc_bin L ec e) s' (ecc_bin L ec e')"
  have v: "length ?v = 32" by (simp add: sae_confirm_value_def)
  have cn: "sae_cn_confirm_ecc L tmp ec ?sc (Some s) (Some e) (Some s') (Some e') = Some ?v"
    using sae_cn_confirm_ecc [of tmp s s' e e' ?sc "[]"] x by (auto simp: exchanged_def)
  have "\<exists>b'. put_all wpabuf_put_bytes buf [?sc, ?v] = Some b' \<and> wb_contents b' = concat [?sc, ?v] \<and>
      wpabuf_ok b' \<and> wb_size b' = word_of_nat SAE_CONFIRM_MAX_LEN"
    by (rule wpabuf_alloc_put_all [OF buf]) (simp_all add: v sae_consts)
  then obtain c where "do { b \<leftarrow> wpabuf_put_bytes buf ?sc; wpabuf_put_bytes b ?v } = Some c"
    "wb_contents c = ?sc @ ?v" by auto
  then show ?thesis
    using x cn v
    by (auto simp: sae_write_confirm_def exchanged_def ecc_instance_def Let_def wpabuf_put_folds
        wpabuf_put_field_bytes split: Option.bind_splits)
qed

lemma sae_check_confirm_ecc:
  assumes x: "exchanged s e s' e' sae tmp" and sc: "length sc = 2" and v: "length v = 32"
  shows "sae_check_confirm L sae (sc @ v) = Some (if v = sae_confirm_value (crypto_ec_prime_len L ec)
       (st_kck tmp) sc s' (ecc_bin L ec e') s (ecc_bin L ec e) then 0 else - 1)"
proof -
  let ?w = "sae_confirm_value (crypto_ec_prime_len L ec) (st_kck tmp) sc s' (ecc_bin L ec e') s (ecc_bin L ec e)"
  have w: "length ?w = 32" by (simp add: sae_confirm_value_def)
  have cn: "sae_cn_confirm_ecc L tmp ec (sc @ v) (Some s') (Some e') (Some s) (Some e) = Some ?w"
    using sae_cn_confirm_ecc [of tmp s' s e' e sc v] x sc by (auto simp: exchanged_def)
  have "os_memcmp_const ?w v 32 = 0 \<longleftrightarrow> ?w = v" using os_memcmp_const_0 [of 32 ?w v] w v by auto
  then show ?thesis
    using x cn sc v by (auto simp: sae_check_confirm_def exchanged_def ecc_instance_def)
qed

lemma ecc_confirm_accepted:
  assumes A: "exchanged sA eA sB eB A tA" and B: "exchanged sB eB sA eA B tB"
    and kck: "st_kck tA = st_kck tB"
    and buf: "wpabuf_alloc malloc (word_of_nat SAE_CONFIRM_MAX_LEN) = Some buf"
  shows "\<exists>A' c. sae_write_confirm L A buf = Some (A', c) \<and> sae_check_confirm L B (wb_contents c) = Some 0"
proof -
  let ?sc = "WPA_PUT_LE16 (sd_send_confirm A)"
  let ?v = "sae_confirm_value (crypto_ec_prime_len L ec) (st_kck tA) ?sc sA (ecc_bin L ec eA) sB (ecc_bin L ec eB)"
  have "length ?v = 32" by (simp add: sae_confirm_value_def)
  then have "sae_check_confirm L B (?sc @ ?v) = Some 0"
    using sae_check_confirm_ecc [OF B, of ?sc ?v] kck by simp
  then show ?thesis using sae_write_confirm_ecc [OF A buf] by auto
qed

subsection \<open>Agreement\<close>

text \<open>A party that has derived the commit (s, e) from its random number and mask.\<close>

definition committed ::
  "'q \<Rightarrow> nat \<Rightarrow> nat \<Rightarrow> nat \<Rightarrow> 'q \<Rightarrow> ('g, 'q) sae_temporary_data \<Rightarrow> bool" where
  "committed pwe rand m s e tmp \<longleftrightarrow> commit_for pwe rand m s e \<and> ecc_instance L ec tmp \<and>
     st_pwe_ecc tmp = Some pwe \<and> st_sae_rand tmp = Some rand \<and> st_own_commit_scalar tmp = Some s \<and>
     st_own_commit_element_ecc tmp = Some e"

lemma ecc_receive:
  assumes A: "sd_tmp A = Some tA" "committed pwe rA mA sA eA tA" "ecc_ready L ec g allowed A tA"
    and B: "commit_for pwe rB mB sB eB" and pwe: "E pwe" "pwe \<noteq> zero" and ne: "(sA, eA) \<noteq> (sB, eB)"
  defines "n \<equiv> crypto_ec_prime_len L ec" and "k \<equiv> fst (ecc_coords L ec (smul (rA * rB) pwe))"
    and "t \<equiv> (sA + sB) mod ec_order ec"
  shows "\<exists>A2 A3 t3. sae_parse_commit L all A (commit_msg (uint g) [] (be_bytes n sB) (ecc_bin L ec eB) None)
        allowed = Some (WLAN_STATUS_SUCCESS, None, A2) \<and>
      sae_process_commit L A2 = Some (0, A3) \<and> exchanged sA eA sB eB A3 t3 \<and>
      sd_pmk A3 = take 32 (drop 32 (sae_kdf n k t)) \<and> sd_pmkid A3 = take 16 (be_bytes n t) \<and>
      st_kck t3 = take 32 (sae_kdf n k t)"
proof -
  have c: "commit_for pwe rA mA sA eA" "ecc_instance L ec tA" "st_pwe_ecc tA = Some pwe" "st_sae_rand tA = Some rA"
    "st_own_commit_scalar tA = Some sA" "st_own_commit_element_ecc tA = Some eA"
    using A(2) by (auto simp: committed_def)
  have rd: "sd_group A = uint g" "group_listed allowed g" "sd_state A \<noteq> SAE_ACCEPTED" "st_pw_id tA = None"
    using A(3) by (auto simp: ecc_ready_def)
  have sB: "1 < sB" "sB < ec_order ec" "E eB" using B r_pos by (auto simp: commit_for_def)
  have sA: "sA < ec_order ec" "E eA" using c(1) r_pos by (auto simp: commit_for_def)
  have nz: "eA \<noteq> zero" "eB \<noteq> zero" using commit_element_ne_zero pwe c(1) B by blast+
  define t2 where "t2 = tA\<lparr>st_peer_commit_element_ecc := Some eB, st_pw_id := None\<rparr>"
  define A2 where "A2 = A\<lparr>sd_peer_commit_scalar := Some sB, sd_tmp := Some t2\<rparr>"
  have parse: "sae_parse_commit L all A (commit_msg (uint g) [] (be_bytes n sB) (ecc_bin L ec eB) None)
        allowed = Some (WLAN_STATUS_SUCCESS, None, A2)"
    using sae_parse_commit_ecc [OF A(1) c(2) rd(1,2) sB(1,2) _ sB(3) nz(2), of None all] rd ne c(5,6) sA(2)
    by (auto simp: ident_ok_def A2_def t2_def n_def)
  have x2: "exchanged sA eA sB eB A2 t2"
    using c sA sB nz by (simp add: exchanged_def A2_def t2_def ecc_instance_def)
  have K: "smul (rA * rB) pwe = smul rA (plus (smul sB pwe) eB)"
    using commit_agree(1) [OF pwe(1) sA(2) sB(3), of mA mB sA rA sB rB] c(1) B by (simp add: commit_for_def)
  have "\<not> ec_order ec dvd rA * rB"
    using prime_dvd_mult [OF order_prime, of rA rB] dvd_range [of rA "ec_order ec"] dvd_range [of rB "ec_order ec"]
      c(1) B by (auto simp: commit_for_def)
  then have "smul (rA * rB) pwe \<noteq> zero" by (rule smul_ne_zero [OF pwe order_prime])
  then have proc: "sae_process_commit L A2 = Some (0, A2\<lparr>sd_pmk := take 32 (drop 32 (sae_kdf n k t)),
      sd_pmkid := take 16 (be_bytes n t), sd_tmp := Some (t2\<lparr>st_kck := take 32 (sae_kdf n k t)\<rparr>)\<rparr>)"
    unfolding n_def t_def k_def using c(3,4) pwe(1) K
    by (intro sae_process_commit_ecc [OF x2]) (simp_all add: t2_def)
  have "exchanged sA eA sB eB (A2\<lparr>sd_pmk := take 32 (drop 32 (sae_kdf n k t)),
      sd_pmkid := take 16 (be_bytes n t), sd_tmp := Some (t2\<lparr>st_kck := take 32 (sae_kdf n k t)\<rparr>)\<rparr>)
      (t2\<lparr>st_kck := take 32 (sae_kdf n k t)\<rparr>)"
    using x2 by (simp add: exchanged_def ecc_instance_def)
  with parse proc show ?thesis by (intro exI conjI) (assumption | simp add: A2_def)+
qed

text \<open>Both parties: the whole exchange from two derived commits.\<close>

lemma ecc_exchange:
  assumes pwe: "E pwe" "pwe \<noteq> zero"
    and A: "ecc_ready L ec g gsA A tA" "st_pwe_ecc tA = Some pwe" "sae_derive_commit L tA rndA = Some (0, tA', rA')"
    and B: "ecc_ready L ec g gsB B tB" "st_pwe_ecc tB = Some pwe" "sae_derive_commit L tB rndB = Some (0, tB', rB')"
    and ne: "(st_own_commit_scalar tA', st_own_commit_element_ecc tA') \<noteq>
             (st_own_commit_scalar tB', st_own_commit_element_ecc tB')"
    and buf: "wpabuf_alloc malloc (word_of_nat SAE_COMMIT_MAX_LEN) = Some buf"
      "wpabuf_alloc malloc (word_of_nat SAE_CONFIRM_MAX_LEN) = Some cbuf"
  shows "\<exists>fA fB A2 B2 A3 B3 t3A t3B A4 B4 cA cB.
     sae_write_commit L (A\<lparr>sd_tmp := Some tA'\<rparr>) buf None None = Some fA \<and>
     sae_write_commit L (B\<lparr>sd_tmp := Some tB'\<rparr>) buf None None = Some fB \<and>
     sae_parse_commit L all (A\<lparr>sd_tmp := Some tA'\<rparr>) (wb_contents fB) gsA = Some (WLAN_STATUS_SUCCESS, None, A2) \<and>
     sae_parse_commit L all (B\<lparr>sd_tmp := Some tB'\<rparr>) (wb_contents fA) gsB = Some (WLAN_STATUS_SUCCESS, None, B2) \<and>
     sae_process_commit L A2 = Some (0, A3) \<and> sae_process_commit L B2 = Some (0, B3) \<and>
     sd_tmp A3 = Some t3A \<and> sd_tmp B3 = Some t3B \<and>
     length (sd_pmk A3) = 32 \<and> sd_pmk A3 = sd_pmk B3 \<and> sd_pmkid A3 = sd_pmkid B3 \<and> st_kck t3A = st_kck t3B \<and>
     sae_write_confirm L A3 cbuf = Some (A4, cA) \<and> sae_write_confirm L B3 cbuf = Some (B4, cB) \<and>
     sae_check_confirm L A3 (wb_contents cB) = Some 0 \<and> sae_check_confirm L B3 (wb_contents cA) = Some 0"
proof -
  let ?A = "A\<lparr>sd_tmp := Some tA'\<rparr>" and ?B = "B\<lparr>sd_tmp := Some tB'\<rparr>"
  let ?n = "crypto_ec_prime_len L ec"
  have iA: "ecc_instance L ec tA" and iB: "ecc_instance L ec tB" using A(1) B(1) by (auto simp: ecc_ready_def)
  from sae_derive_commit_ecc [OF A(3) iA A(2) pwe(1)] obtain rA mA sA eA where
    cA: "committed pwe rA mA sA eA tA'" by (auto simp: committed_def)
  from sae_derive_commit_ecc [OF B(3) iB B(2) pwe(1)] obtain rB mB sB eB where
    cB: "committed pwe rB mB sB eB tB'" by (auto simp: committed_def)
  have kA: "commit_for pwe rA mA sA eA" and kB: "commit_for pwe rB mB sB eB" using cA cB by (auto simp: committed_def)
  have sA: "sA < ec_order ec" "E eA" "eA \<noteq> zero" and sB: "sB < ec_order ec" "E eB" "eB \<noteq> zero"
    using kA kB r_pos commit_element_ne_zero [OF kA pwe] commit_element_ne_zero [OF kB pwe]
    by (auto simp: commit_for_def)
  have diff: "(sA, eA) \<noteq> (sB, eB)" "(sB, eB) \<noteq> (sA, eA)" using ne cA cB by (auto simp: committed_def)
  have pwid: "st_pw_id tA' = None" "st_pw_id tB' = None"
    using sae_derive_commit_pw_id [OF A(3)] sae_derive_commit_pw_id [OF B(3)] A(1) B(1) by (auto simp: ecc_ready_def)
  have rdA: "ecc_ready L ec g gsA ?A tA'" and rdB: "ecc_ready L ec g gsB ?B tB'"
    using A(1) B(1) cA cB pwid by (auto simp: ecc_ready_def committed_def)
  have gr: "sd_group ?A = uint g" "sd_group ?B = uint g" using A(1) B(1) by (auto simp: ecc_ready_def)
  obtain fA where fA: "sae_write_commit L ?A buf None None = Some fA"
      "wb_contents fA = commit_msg (uint g) [] (be_bytes ?n sA) (ecc_bin L ec eA) None"
    using sae_write_commit_ecc_alloc [of ?A tA' sA eA malloc 0 buf None None] buf(1) gr cA sA
    by (auto simp: committed_def)
  obtain fB where fB: "sae_write_commit L ?B buf None None = Some fB"
      "wb_contents fB = commit_msg (uint g) [] (be_bytes ?n sB) (ecc_bin L ec eB) None"
    using sae_write_commit_ecc_alloc [of ?B tB' sB eB malloc 0 buf None None] buf(1) gr cB sB
    by (auto simp: committed_def)
  let ?kdf = "sae_kdf ?n (fst (ecc_coords L ec (smul (rA * rB) pwe))) ((sA + sB) mod ec_order ec)"
  obtain A2 A3 t3A where a: "sae_parse_commit L all ?A (wb_contents fB) gsA = Some (WLAN_STATUS_SUCCESS, None, A2)"
      "sae_process_commit L A2 = Some (0, A3)" "exchanged sA eA sB eB A3 t3A"
      "sd_pmk A3 = take 32 (drop 32 ?kdf)" "sd_pmkid A3 = take 16 (be_bytes ?n ((sA + sB) mod ec_order ec))"
      "st_kck t3A = take 32 ?kdf"
    using ecc_receive [OF _ cA rdA kB pwe diff(1), of all] fB(2) by auto
  obtain B2 B3 t3B where b: "sae_parse_commit L all ?B (wb_contents fA) gsB = Some (WLAN_STATUS_SUCCESS, None, B2)"
      "sae_process_commit L B2 = Some (0, B3)" "exchanged sB eB sA eA B3 t3B"
      "sd_pmk B3 = take 32 (drop 32 ?kdf)" "sd_pmkid B3 = take 16 (be_bytes ?n ((sA + sB) mod ec_order ec))"
      "st_kck t3B = take 32 ?kdf"
    using ecc_receive [OF _ cB rdB kA pwe diff(2), of all] fA(2)
    by (auto simp: mult.commute [of rB rA] add.commute [of sB sA])
  have kck: "st_kck t3A = st_kck t3B" using a b by simp
  obtain A4 confA where ca: "sae_write_confirm L A3 cbuf = Some (A4, confA)"
      "sae_check_confirm L B3 (wb_contents confA) = Some 0"
    using ecc_confirm_accepted [OF a(3) b(3) kck buf(2)] by blast
  obtain B4 confB where cb: "sae_write_confirm L B3 cbuf = Some (B4, confB)"
      "sae_check_confirm L A3 (wb_contents confB) = Some 0"
    using ecc_confirm_accepted [OF b(3) a(3) kck [symmetric] buf(2)] by blast
  have tmps: "sd_tmp A3 = Some t3A" "sd_tmp B3 = Some t3B" using a(3) b(3) by (auto simp: exchanged_def)
  have len: "length (sd_pmk A3) = 32" using a(4) by (simp add: length_sae_kdf)
  show ?thesis
    by (intro exI conjI) (rule fA(1) fB(1) a(1) b(1) a(2) b(2) tmps len kck ca cb | simp add: a b)+
qed

end

text \<open>C1: SAE agreement over curves.  Two parties that selected the same curve group and hold the same
  password element (a point of the group other than infinity) each derive a commit from their own
  random draws.  If the commits differ, every step of the exchange succeeds on both sides, without
  running out of buffer space and without a missing value: each writes its Commit, accepts the
  other's, derives the keys; both hold the same PMK (32 octets), PMKID and KCK; and each accepts the
  Confirm that the other one sends.\<close>

theorem sae_ecc_agreement:
  assumes "openssl_ec L ec E padd pinf smul" and "E pwe" "pwe \<noteq> pinf"
    and "ecc_ready L ec g gsA A tA" "st_pwe_ecc tA = Some pwe" "sae_derive_commit L tA rndA = Some (0, tA', rA')"
    and "ecc_ready L ec g gsB B tB" "st_pwe_ecc tB = Some pwe" "sae_derive_commit L tB rndB = Some (0, tB', rB')"
    and "(st_own_commit_scalar tA', st_own_commit_element_ecc tA') \<noteq>
             (st_own_commit_scalar tB', st_own_commit_element_ecc tB')"
    and "wpabuf_alloc malloc (word_of_nat SAE_COMMIT_MAX_LEN) = Some buf"
      "wpabuf_alloc malloc (word_of_nat SAE_CONFIRM_MAX_LEN) = Some cbuf"
  shows "\<exists>fA fB A2 B2 A3 B3 t3A t3B A4 B4 cA cB.
     sae_write_commit L (A\<lparr>sd_tmp := Some tA'\<rparr>) buf None None = Some fA \<and>
     sae_write_commit L (B\<lparr>sd_tmp := Some tB'\<rparr>) buf None None = Some fB \<and>
     sae_parse_commit L all (A\<lparr>sd_tmp := Some tA'\<rparr>) (wb_contents fB) gsA = Some (WLAN_STATUS_SUCCESS, None, A2) \<and>
     sae_parse_commit L all (B\<lparr>sd_tmp := Some tB'\<rparr>) (wb_contents fA) gsB = Some (WLAN_STATUS_SUCCESS, None, B2) \<and>
     sae_process_commit L A2 = Some (0, A3) \<and> sae_process_commit L B2 = Some (0, B3) \<and>
     sd_tmp A3 = Some t3A \<and> sd_tmp B3 = Some t3B \<and>
     length (sd_pmk A3) = 32 \<and> sd_pmk A3 = sd_pmk B3 \<and> sd_pmkid A3 = sd_pmkid B3 \<and> st_kck t3A = st_kck t3B \<and>
     sae_write_confirm L A3 cbuf = Some (A4, cA) \<and> sae_write_confirm L B3 cbuf = Some (B4, cB) \<and>
     sae_check_confirm L A3 (wb_contents cB) = Some 0 \<and> sae_check_confirm L B3 (wb_contents cA) = Some 0"
  by (rule openssl_ec.ecc_exchange [OF assms])

text \<open>The witness: the reference curve, password element (2, 2), that is the index 3.\<close>

definition ref_tmp :: "(unit, nat) sae_temporary_data" where
  "ref_tmp = sae_tmp_zero\<lparr>st_ec := Some ref_ec, st_prime_len := 1, st_prime := Some 7,
     st_order := Some 13, st_pwe_ecc := Some 3\<rparr>"

definition ref_sae :: "(unit, nat) sae_data" where
  "ref_sae = sae_zero\<lparr>sd_group := 19, sd_tmp := Some ref_tmp\<rparr>"

lemma ref_ready: "ecc_ready ref_curve ref_ec 19 None ref_sae ref_tmp"
  by (simp add: ecc_ready_def ref_sae_def sae_zero_def ecc_instance_def ref_tmp_def sae_tmp_zero_def
      group_listed_def ref_crypto_ec_prime_len) (simp add: ref_ec_def)

lemma ref_get_rand:
  assumes "drop_bit 4 x = y" and "1 < unat y" and "unat y < 13" and "st_order tmp = Some 13"
  shows "sae_get_rand ref_curve tmp ([x] # rnd) = Some (Some (unat y), rnd)"
proof -
  have bits: "bit_len 13 = 4" by (simp add: bit_len.simps)
  have 101: "(101 :: nat) = Suc 100" by simp
  show ?thesis
    using assms unfolding sae_get_rand_def 101 sae_get_rand_loop.simps
    by (simp add: ref_curve_def ref_openssl_def crypto_bignum_bits_def bits shift_unused_def buf_shift_right_def
        crypto_bignum_init_set_def crypto_bignum_is_zero_def crypto_bignum_is_one_def
        crypto_bignum_cmp_def SAE_MAX_PRIME_LEN_def)
qed

lemma ref_derive_commit:
  assumes "drop_bit 4 x = y" "drop_bit 4 u = v" and "1 < unat y" "unat y < 13" "1 < unat v" "unat v < 13"
    and "(unat y + unat v) mod 13 = s" "1 < s"
  shows "sae_derive_commit ref_curve ref_tmp ([x] # [u] # rnd) =
    Some (0, ref_tmp\<lparr>st_sae_rand := Some (unat y), st_own_commit_scalar := Some s,
                     st_own_commit_element_ecc := Some ((13 - unat v * 3 mod 13) mod 13)\<rparr>, rnd)"
proof -
  have ord: "st_order ref_tmp = Some 13" "st_order (ref_tmp\<lparr>st_sae_rand := z\<rparr>) = Some 13" for z
    by (simp_all add: ref_tmp_def)
  have mk: "sae_get_rand_and_mask ref_curve ref_tmp ([x] # [u] # rnd) =
      Some (Some (unat v), ref_tmp\<lparr>st_sae_rand := Some (unat y)\<rparr>, rnd)"
    unfolding sae_get_rand_and_mask_def
    using ref_get_rand [OF assms(1,3,4) ord(1)] ref_get_rand [OF assms(2,5,6) ord(2)] by simp
  have 100: "(100 :: nat) = Suc 99" by simp
  have t: "st_own_commit_scalar ref_tmp = None" "st_own_commit_element_ecc ref_tmp = None"
    "st_ec ref_tmp = Some ref_ec" "st_dh ref_tmp = None" "st_pwe_ecc ref_tmp = Some 3"
    by (simp_all add: ref_tmp_def sae_tmp_zero_def)
  have lp: "sae_derive_commit_loop ref_curve 100 ref_tmp ([x] # [u] # rnd) =
      Some (Some (unat v), ref_tmp\<lparr>st_sae_rand := Some (unat y), st_own_commit_scalar := Some s\<rparr>, rnd)"
    unfolding 100 sae_derive_commit_loop.simps using assms(7,8)
    by (simp add: mk t ord ref_curve.bn_ops ref_curve.add_mod_unchecked Let_def)
  show ?thesis
    unfolding sae_derive_commit_def lp
    by (simp add: t sae_derive_commit_element_ecc_def crypto_ec_point_init_def crypto_ec_point_mul_def
        crypto_ec_point_invert_def ref_curve_def)
qed

lemma ref_commits:
  "sae_derive_commit ref_curve ref_tmp [[0x50], [0x30]] = Some (0, ref_tmp\<lparr>st_sae_rand := Some 5,
     st_own_commit_scalar := Some 8, st_own_commit_element_ecc := Some 4\<rparr>, [])"
  "sae_derive_commit ref_curve ref_tmp [[0x20], [0x40]] = Some (0, ref_tmp\<lparr>st_sae_rand := Some 2,
     st_own_commit_scalar := Some 6, st_own_commit_element_ecc := Some 1\<rparr>, [])"
  using ref_derive_commit [of "0x50" 5 "0x30" 3 8 "[]"] ref_derive_commit [of "0x20" 2 "0x40" 4 6 "[]"]
  by simp_all

theorem sae_ecc_agreement_witness:
  "\<exists>A2 B2 A3 B3. sae_process_commit ref_curve A2 = Some (0, A3) \<and>
     sae_process_commit ref_curve B2 = Some (0, B3) \<and> length (sd_pmk A3) = 32 \<and> sd_pmk A3 = sd_pmk B3"
proof -
  have pwe: "st_pwe_ecc ref_tmp = Some 3" "(3 :: nat) < 13" "(3 :: nat) \<noteq> 0" by (simp_all add: ref_tmp_def)
  have buf: "\<exists>b. wpabuf_alloc (\<lambda>_. True) n = Some b" for n by (simp add: wpabuf_alloc_def)
  obtain b1 where b1: "wpabuf_alloc (\<lambda>_. True) (word_of_nat SAE_COMMIT_MAX_LEN) = Some b1" using buf by blast
  obtain b2 where b2: "wpabuf_alloc (\<lambda>_. True) (word_of_nat SAE_CONFIRM_MAX_LEN) = Some b2" using buf by blast
  note w = sae_ecc_agreement [OF ref_ec.openssl_ec_axioms pwe(2,3) ref_ready pwe(1) ref_commits(1) ref_ready
      pwe(1) ref_commits(2) _ b1 b2, of True]
  have "(Some (8 :: nat), Some (4 :: nat)) \<noteq> (Some 6, Some 1)" by simp
  with w show ?thesis by auto
qed

end
