(* ===== verification/SaeAp.thy ===== *)
theory SaeAp
  imports SaeEcc
begin

text \<open>
  SAE authentication in the access point and in mesh: the part of \<^verbatim>\<open>src/ap/ieee802_11.c\<close> between
  \<^verbatim>\<open>sae_set_state\<close> and \<^verbatim>\<open>auth_sae_init_committed\<close>.  The state is the \<^verbatim>\<open>struct hostapd_data\<close> and
  the \<^verbatim>\<open>struct sta_info\<close> of the station, as far as this code uses them; a handler takes the state and
  returns its C return value with the new state.  As in \<open>Sae\<close>, the result \<open>None\<close> is a run that
  dereferences a missing pointer, uses freed memory or aborts.

  The environment is part of the state: \<open>ap_rnd\<close> holds the draws of the random number generator,
  \<open>ap_tx\<close> tells for each frame whether the driver accepts it, \<open>ap_now\<close> is the clock; \<open>ap_log\<close> records
  what the code tells the rest of hostapd (frames sent, indications, PMKSA cache updates), newest
  first.  The pending retransmission timeout is the flag \<open>si_timer\<close>.  The builds modelled have no
  \<^verbatim>\<open>CONFIG_TESTING_OPTIONS\<close>.
\<close>

subsection \<open>Data\<close>

definition WLAN_AUTH_SAE :: u16 where "WLAN_AUTH_SAE = 3"
definition WLAN_STATUS_UNKNOWN_AUTH_TRANSACTION :: u16 where "WLAN_STATUS_UNKNOWN_AUTH_TRANSACTION = 14"

record sae_password_entry =
  pe_password :: bytes
  pe_identifier :: "bytes option"
  pe_peer_addr :: bytes

record hostapd_bss_config =
  bc_sae_passwords :: "sae_password_entry list"
  bc_wpa_passphrase :: "bytes option"
  bc_sae_anti_clogging_threshold :: nat
  bc_sae_sync :: nat
  bc_sae_groups :: "int list option"
  bc_mesh :: bool

record os_reltime =
  rt_sec :: int
  rt_usec :: int

record ('g, 'q) sta_info =
  si_addr :: bytes
  si_auth :: bool
  si_auth_alg :: u16
  si_sae :: "('g, 'q) sae_data option"
  si_mesh_sae_pmksa_caching :: bool
  si_added_unassoc :: bool
  si_timer :: bool

record ('g, 'q) hostapd_data =
  hd_conf :: hostapd_bss_config
  hd_own_addr :: bytes
  hd_sae_token_key :: bytes
  hd_last_sae_token_key_update :: os_reltime
  hd_other_stas :: "('g, 'q) sta_info list"

datatype ap_event =
    AuthReply bytes bytes u16 u16 u16 bytes
  | MlmeAuthenticate bytes
  | WpaAuthEvent bytes
  | PmksaAddSae bytes bytes bytes
  | PmksaRemove bytes
  | DrvStaRemove bytes

record ('g, 'q) ap =
  ap_hapd :: "('g, 'q) hostapd_data"
  ap_sta :: "('g, 'q) sta_info"
  ap_rnd :: "bytes list"
  ap_tx :: "bool list"
  ap_now :: os_reltime
  ap_log :: "ap_event list"

text \<open>What does not change while the program runs: the crypto library, the groups built in, the
  allocator.\<close>

record ('g, 'q) env =
  en_L :: "('g, 'q) openssl"
  en_all :: bool
  en_malloc :: "size_t \<Rightarrow> bool"

abbreviation ap_conf :: "('g, 'q) ap \<Rightarrow> hostapd_bss_config" where
  "ap_conf s \<equiv> hd_conf (ap_hapd s)"

abbreviation ap_mesh :: "('g, 'q) ap \<Rightarrow> bool" where
  "ap_mesh s \<equiv> bc_mesh (ap_conf s)"

abbreviation ap_sae :: "('g, 'q) ap \<Rightarrow> ('g, 'q) sae_data option" where
  "ap_sae s \<equiv> si_sae (ap_sta s)"

definition put_sta :: "('g, 'q) sta_info \<Rightarrow> ('g, 'q) ap \<Rightarrow> ('g, 'q) ap" where
  "put_sta sta s = s\<lparr>ap_sta := sta\<rparr>"

definition put_sae :: "('g, 'q) sae_data \<Rightarrow> ('g, 'q) ap \<Rightarrow> ('g, 'q) ap" where
  "put_sae sae s = s\<lparr>ap_sta := (ap_sta s)\<lparr>si_sae := Some sae\<rparr>\<rparr>"

definition log_event :: "ap_event \<Rightarrow> ('g, 'q) ap \<Rightarrow> ('g, 'q) ap" where
  "log_event e s = s\<lparr>ap_log := e # ap_log s\<rparr>"

definition set_timer :: "bool \<Rightarrow> ('g, 'q) ap \<Rightarrow> ('g, 'q) ap" where
  "set_timer b s = s\<lparr>ap_sta := (ap_sta s)\<lparr>si_timer := b\<rparr>\<rparr>"

subsection \<open>Sending\<close>

definition is_broadcast_ether_addr :: "bytes \<Rightarrow> bool" where
  "is_broadcast_ether_addr a \<longleftrightarrow> (a ! 0 AND a ! 1 AND a ! 2 AND a ! 3 AND a ! 4 AND a ! 5) = 0xff"

definition c_str :: "bytes \<Rightarrow> bytes" where
  "c_str s = takeWhile (\<lambda>c. c \<noteq> 0) s"

text \<open>\<^verbatim>\<open>send_auth_reply\<close>: whether the frame is sent is decided by the allocator and the driver.\<close>

definition send_auth_reply ::
  "('g, 'q) env \<Rightarrow> bytes \<Rightarrow> bytes \<Rightarrow> u16 \<Rightarrow> u16 \<Rightarrow> u16 \<Rightarrow> bytes \<Rightarrow> ('g, 'q) ap \<Rightarrow> int \<times> ('g, 'q) ap" where
  "send_auth_reply env dst bssid auth_alg auth_transaction resp ies s =
     (if \<not> en_malloc env (word_of_nat (24 + 6 + length ies)) then (- 1, s)
      else case ap_tx s of
             True # tx \<Rightarrow>
               (uint WLAN_STATUS_SUCCESS,
                log_event (AuthReply dst bssid auth_alg auth_transaction resp ies) (s\<lparr>ap_tx := tx\<rparr>))
           | False # tx \<Rightarrow> (uint WLAN_STATUS_UNSPECIFIED_FAILURE, s\<lparr>ap_tx := tx\<rparr>)
           | [] \<Rightarrow> (uint WLAN_STATUS_UNSPECIFIED_FAILURE, s))"

definition sae_set_state :: "sae_state \<Rightarrow> ('g, 'q) ap \<Rightarrow> ('g, 'q) ap run" where
  "sae_set_state st s = do {
     sae \<leftarrow> ap_sae s;
     Some (put_sae (sae\<lparr>sd_state := st\<rparr>) s) }"

text \<open>The loop over the configured passwords.\<close>

fun find_sae_password :: "bytes \<Rightarrow> bytes option \<Rightarrow> sae_password_entry list \<Rightarrow> bytes option" where
  "find_sae_password addr rx_id [] = None"
| "find_sae_password addr rx_id (pw # pws) =
     (if \<not> is_broadcast_ether_addr (pe_peer_addr pw) \<and> os_memcmp (pe_peer_addr pw) addr \<noteq> 0
      then find_sae_password addr rx_id pws
      else if rx_id \<noteq> None \<and> pe_identifier pw = None \<or> rx_id = None \<and> pe_identifier pw \<noteq> None
      then find_sae_password addr rx_id pws
      else if rx_id \<noteq> None \<and> pe_identifier pw \<noteq> None \<and> rx_id \<noteq> pe_identifier pw
      then find_sae_password addr rx_id pws
      else Some (pe_password pw))"

definition auth_build_sae_commit ::
  "('g, 'q) env \<Rightarrow> bool \<Rightarrow> ('g, 'q) ap \<Rightarrow> (wpabuf option \<times> ('g, 'q) ap) run" where
  "auth_build_sae_commit env update s = do {
     sae \<leftarrow> ap_sae s;
     let rx_id = (case sd_tmp sae of None \<Rightarrow> None | Some tmp \<Rightarrow> map_option c_str (st_pw_id tmp));
     let password = (case find_sae_password (si_addr (ap_sta s)) rx_id (bc_sae_passwords (ap_conf s)) of
                       None \<Rightarrow> bc_wpa_passphrase (ap_conf s) | Some pw \<Rightarrow> Some pw);
     (case password of
        None \<Rightarrow> Some (None, s)
      | Some password \<Rightarrow> do {
          (res, sae, rnd) \<leftarrow>
            (if update
             then sae_prepare_commit (en_L env) (hd_own_addr (ap_hapd s)) (si_addr (ap_sta s)) password
                    rx_id sae (ap_rnd s)
             else Some (0, sae, ap_rnd s));
          let s = put_sae sae (s\<lparr>ap_rnd := rnd\<rparr>);
          (if res < 0 then Some (None, s)
           else case wpabuf_alloc (en_malloc env) (word_of_nat (SAE_COMMIT_MAX_LEN +
                       (case rx_id of None \<Rightarrow> 0 | Some i \<Rightarrow> 3 + length i))) of
                  None \<Rightarrow> Some (None, s)
                | Some buf \<Rightarrow> do {
                    buf \<leftarrow> sae_write_commit (en_L env) sae buf
                             (case sd_tmp sae of None \<Rightarrow> None | Some tmp \<Rightarrow> st_anti_clogging_token tmp) rx_id;
                    Some (Some buf, s) }) }) }"

definition auth_build_sae_confirm ::
  "('g, 'q) env \<Rightarrow> ('g, 'q) ap \<Rightarrow> (wpabuf option \<times> ('g, 'q) ap) run" where
  "auth_build_sae_confirm env s =
     (case wpabuf_alloc (en_malloc env) (word_of_nat SAE_CONFIRM_MAX_LEN) of
        None \<Rightarrow> Some (None, s)
      | Some buf \<Rightarrow> do {
          sae \<leftarrow> ap_sae s;
          (sae, buf) \<leftarrow> sae_write_confirm (en_L env) sae buf;
          Some (Some buf, put_sae sae s) })"

definition auth_sae_send_commit ::
  "('g, 'q) env \<Rightarrow> bytes \<Rightarrow> bool \<Rightarrow> ('g, 'q) ap \<Rightarrow> (int \<times> ('g, 'q) ap) run" where
  "auth_sae_send_commit env bssid update s = do {
     (data, s) \<leftarrow> auth_build_sae_commit env update s;
     (case data of
        None \<Rightarrow> do {
          sae \<leftarrow> ap_sae s;
          Some (uint (if (case sd_tmp sae of None \<Rightarrow> False | Some tmp \<Rightarrow> st_pw_id tmp \<noteq> None)
                      then WLAN_STATUS_UNKNOWN_PASSWORD_IDENTIFIER
                      else WLAN_STATUS_UNSPECIFIED_FAILURE), s) }
      | Some data \<Rightarrow>
          Some (send_auth_reply env (si_addr (ap_sta s)) bssid WLAN_AUTH_SAE 1 WLAN_STATUS_SUCCESS
                  (wb_contents data) s)) }"

definition auth_sae_send_confirm ::
  "('g, 'q) env \<Rightarrow> bytes \<Rightarrow> ('g, 'q) ap \<Rightarrow> (int \<times> ('g, 'q) ap) run" where
  "auth_sae_send_confirm env bssid s = do {
     (data, s) \<leftarrow> auth_build_sae_confirm env s;
     Some (case data of
        None \<Rightarrow> (uint WLAN_STATUS_UNSPECIFIED_FAILURE, s)
      | Some data \<Rightarrow>
          send_auth_reply env (si_addr (ap_sta s)) bssid WLAN_AUTH_SAE 2 WLAN_STATUS_SUCCESS
            (wb_contents data) s) }"

subsection \<open>Anti-clogging tokens\<close>

text \<open>The loop over the stations counts the ones in the middle of an exchange; the station at hand is
  one of them.\<close>

fun count_open :: "nat \<Rightarrow> nat \<Rightarrow> ('g, 'q) sta_info list \<Rightarrow> bool" where
  "count_open threshold opn [] = False"
| "count_open threshold opn (sta # stas) =
     (case si_sae sta of
        None \<Rightarrow> count_open threshold opn stas
      | Some sae \<Rightarrow>
          if sd_state sae \<noteq> SAE_COMMITTED \<and> sd_state sae \<noteq> SAE_CONFIRMED
          then count_open threshold opn stas
          else if opn + 1 \<ge> threshold then True
          else count_open threshold (opn + 1) stas)"

definition use_sae_anti_clogging :: "('g, 'q) ap \<Rightarrow> bool" where
  "use_sae_anti_clogging s =
     (if bc_sae_anti_clogging_threshold (ap_conf s) = 0 then True
      else count_open (bc_sae_anti_clogging_threshold (ap_conf s)) 0 (ap_sta s # hd_other_stas (ap_hapd s)))"

definition check_sae_token :: "('g, 'q) ap \<Rightarrow> bytes \<Rightarrow> int" where
  "check_sae_token s token =
     (if length token \<noteq> 32 then - 1
      else case hmac_sha256 (hd_sae_token_key (ap_hapd s)) (si_addr (ap_sta s)) of
             None \<Rightarrow> - 1
           | Some mac \<Rightarrow> if os_memcmp_const token mac 32 \<noteq> 0 then - 1 else 0)"

definition os_reltime_initialized :: "os_reltime \<Rightarrow> bool" where
  "os_reltime_initialized t \<longleftrightarrow> rt_sec t \<noteq> 0 \<or> rt_usec t \<noteq> 0"

definition os_reltime_sub :: "os_reltime \<Rightarrow> os_reltime \<Rightarrow> os_reltime" where
  "os_reltime_sub a b =
     (let sec = rt_sec a - rt_sec b; usec = rt_usec a - rt_usec b
      in if usec < 0 then \<lparr>rt_sec = sec - 1, rt_usec = usec + 1000000\<rparr> else \<lparr>rt_sec = sec, rt_usec = usec\<rparr>)"

definition os_reltime_expired :: "os_reltime \<Rightarrow> os_reltime \<Rightarrow> int \<Rightarrow> bool" where
  "os_reltime_expired now ts timeout_secs =
     (let age = os_reltime_sub now ts
      in rt_sec age > timeout_secs \<or> rt_sec age = timeout_secs \<and> rt_usec age > 0)"

text \<open>The result of \<^verbatim>\<open>hmac_sha256\<close> is ignored; it cannot fail.\<close>

definition auth_build_token_req ::
  "('g, 'q) env \<Rightarrow> int \<Rightarrow> bytes \<Rightarrow> ('g, 'q) ap \<Rightarrow> (wpabuf option \<times> ('g, 'q) ap) run" where
  "auth_build_token_req env grp addr s =
     (let now = ap_now s; hapd = ap_hapd s;
          (ok, s) =
            (if \<not> os_reltime_initialized (hd_last_sae_token_key_update hapd) \<or>
                os_reltime_expired now (hd_last_sae_token_key_update hapd) 60
             then case random_get_bytes 8 (ap_rnd s) of
                    (None, rnd) \<Rightarrow> (False, s\<lparr>ap_rnd := rnd\<rparr>)
                  | (Some key, rnd) \<Rightarrow>
                      (True, s\<lparr>ap_rnd := rnd,
                               ap_hapd := hapd\<lparr>hd_sae_token_key := key,
                                               hd_last_sae_token_key_update := now\<rparr>\<rparr>)
             else (True, s))
      in if \<not> ok then Some (None, s)
         else case wpabuf_alloc (en_malloc env) (word_of_nat (2 + 32)) of
                None \<Rightarrow> Some (None, s)
              | Some buf \<Rightarrow> do {
                  buf \<leftarrow> wpabuf_put_le16 buf (word_of_int grp);
                  buf \<leftarrow> wpabuf_put_field buf 32 (hmac_sha256 (hd_sae_token_key (ap_hapd s)) addr);
                  Some (Some buf, s) })"

subsection \<open>Synchronisation and retransmission\<close>

definition sae_check_big_sync :: "('g, 'q) ap \<Rightarrow> (int \<times> ('g, 'q) ap) run" where
  "sae_check_big_sync s = do {
     sae \<leftarrow> ap_sae s;
     Some (if sd_sync sae > bc_sae_sync (ap_conf s)
           then (- 1, put_sae (sae\<lparr>sd_state := SAE_NOTHING, sd_sync := 0\<rparr>) s) else (0, s)) }"

definition sae_inc_sync :: "('g, 'q) ap \<Rightarrow> ('g, 'q) ap run" where
  "sae_inc_sync s = do {
     sae \<leftarrow> ap_sae s;
     Some (put_sae (sae\<lparr>sd_sync := sd_sync sae + 1\<rparr>) s) }"

definition sae_reset_sync :: "('g, 'q) ap \<Rightarrow> ('g, 'q) ap run" where
  "sae_reset_sync s = do {
     sae \<leftarrow> ap_sae s;
     Some (put_sae (sae\<lparr>sd_sync := 0\<rparr>) s) }"

definition sae_clear_retransmit_timer :: "('g, 'q) ap \<Rightarrow> ('g, 'q) ap" where
  "sae_clear_retransmit_timer s = set_timer False s"

definition sae_set_retransmit_timer :: "('g, 'q) ap \<Rightarrow> ('g, 'q) ap" where
  "sae_set_retransmit_timer s = (if \<not> ap_mesh s then s else set_timer True s)"

text \<open>The timeout handler; the timeout itself is no longer pending when it runs.\<close>

definition auth_sae_retransmit_timer :: "('g, 'q) env \<Rightarrow> ('g, 'q) ap \<Rightarrow> ('g, 'q) ap run" where
  "auth_sae_retransmit_timer env s = do {
     (big, s) \<leftarrow> sae_check_big_sync (set_timer False s);
     (if big \<noteq> 0 then Some s
      else do {
        s \<leftarrow> sae_inc_sync s;
        sae \<leftarrow> ap_sae s;
        (case sd_state sae of
           SAE_COMMITTED \<Rightarrow> do {
             (ret, s) \<leftarrow> auth_sae_send_commit env (hd_own_addr (ap_hapd s)) False s;
             Some (set_timer True s) }
         | SAE_CONFIRMED \<Rightarrow> do {
             (ret, s) \<leftarrow> auth_sae_send_confirm env (hd_own_addr (ap_hapd s)) s;
             Some (set_timer True s) }
         | _ \<Rightarrow> Some s) }) }"

definition sae_accept_sta :: "('g, 'q) ap \<Rightarrow> ('g, 'q) ap run" where
  "sae_accept_sta s = do {
     let sta = ap_sta s;
     let s = put_sta (sta\<lparr>si_auth := True, si_auth_alg := WLAN_AUTH_SAE\<rparr>) s;
     let s = log_event (WpaAuthEvent (si_addr sta)) (log_event (MlmeAuthenticate (si_addr sta)) s);
     s \<leftarrow> sae_set_state SAE_ACCEPTED s;
     sae \<leftarrow> ap_sae s;
     Some (log_event (PmksaAddSae (si_addr sta) (sd_pmk sae) (sd_pmkid sae)) s) }"

subsection \<open>The state machine\<close>

definition sae_process_commit_sta :: "('g, 'q) env \<Rightarrow> ('g, 'q) ap \<Rightarrow> (int \<times> ('g, 'q) ap) run" where
  "sae_process_commit_sta env s = do {
     sae \<leftarrow> ap_sae s;
     (res, sae) \<leftarrow> sae_process_commit (en_L env) sae;
     Some (res, put_sae sae s) }"

text \<open>The branches of the \<^verbatim>\<open>switch\<close> of \<^verbatim>\<open>sae_sm_step\<close>, one definition each.\<close>

definition sae_sm_nothing :: "('g, 'q) env \<Rightarrow> bytes \<Rightarrow> u8 \<Rightarrow> ('g, 'q) ap \<Rightarrow> (int \<times> ('g, 'q) ap) run" where
  "sae_sm_nothing env bssid auth_transaction s =
     (if auth_transaction = 1 then do {
        (ret, s) \<leftarrow> auth_sae_send_commit env bssid True s;
        (if ret \<noteq> 0 then Some (ret, s)
         else do {
           s \<leftarrow> sae_set_state SAE_COMMITTED s;
           (res, s) \<leftarrow> sae_process_commit_sta env s;
           (if res < 0 then Some (uint WLAN_STATUS_UNSPECIFIED_FAILURE, s)
            else do {
              (ret, s) \<leftarrow>
                (if ap_mesh s then do {
                   (ret, s) \<leftarrow> auth_sae_send_confirm env bssid s;
                   (if ret \<noteq> 0 then Some (ret, s)
                    else do { s \<leftarrow> sae_set_state SAE_CONFIRMED s; Some (0, s) }) }
                 else Some (0, s));
              (if ret \<noteq> 0 then Some (ret, s)
               else do {
                 s \<leftarrow> sae_reset_sync s;
                 Some (uint WLAN_STATUS_SUCCESS, sae_set_retransmit_timer s) }) }) }) }
      else Some (uint WLAN_STATUS_SUCCESS, s))"

definition sae_sm_confirmed :: "('g, 'q) env \<Rightarrow> bytes \<Rightarrow> u8 \<Rightarrow> ('g, 'q) ap \<Rightarrow> (int \<times> ('g, 'q) ap) run" where
  "sae_sm_confirmed env bssid auth_transaction s =
     (let s = sae_clear_retransmit_timer s
      in if auth_transaction = 1 then do {
        (big, s) \<leftarrow> sae_check_big_sync s;
        (if big \<noteq> 0 then Some (uint WLAN_STATUS_SUCCESS, s)
         else do {
           s \<leftarrow> sae_inc_sync s;
           (ret, s) \<leftarrow> auth_sae_send_commit env bssid True s;
           (if ret \<noteq> 0 then Some (ret, s)
            else do {
              (res, s) \<leftarrow> sae_process_commit_sta env s;
              (if res < 0 then Some (uint WLAN_STATUS_UNSPECIFIED_FAILURE, s)
               else do {
                 (ret, s) \<leftarrow> auth_sae_send_confirm env bssid s;
                 (if ret \<noteq> 0 then Some (ret, s)
                  else Some (uint WLAN_STATUS_SUCCESS, sae_set_retransmit_timer s)) }) }) }) }
      else do {
        sae \<leftarrow> ap_sae s;
        s \<leftarrow> sae_accept_sta (put_sae (sae\<lparr>sd_send_confirm := 0xffff\<rparr>) s);
        Some (uint WLAN_STATUS_SUCCESS, s) })"

text \<open>The last branch calls \<^verbatim>\<open>sae_sm_step\<close> again, which finds the state Confirmed.\<close>

definition sae_sm_committed :: "('g, 'q) env \<Rightarrow> bytes \<Rightarrow> u8 \<Rightarrow> ('g, 'q) ap \<Rightarrow> (int \<times> ('g, 'q) ap) run" where
  "sae_sm_committed env bssid auth_transaction s =
     (let s = sae_clear_retransmit_timer s
      in if auth_transaction = 1 then do {
        (res, s) \<leftarrow> sae_process_commit_sta env s;
        (if res < 0 then Some (uint WLAN_STATUS_UNSPECIFIED_FAILURE, s)
         else do {
           (ret, s) \<leftarrow> auth_sae_send_confirm env bssid s;
           (if ret \<noteq> 0 then Some (ret, s)
            else do {
              s \<leftarrow> sae_set_state SAE_CONFIRMED s;
              s \<leftarrow> sae_reset_sync s;
              Some (uint WLAN_STATUS_SUCCESS, sae_set_retransmit_timer s) }) }) }
      else if ap_mesh s then do {
        (big, s) \<leftarrow> sae_check_big_sync s;
        (if big \<noteq> 0 then Some (uint WLAN_STATUS_SUCCESS, s)
         else do {
           s \<leftarrow> sae_inc_sync s;
           (ret, s) \<leftarrow> auth_sae_send_commit env bssid False s;
           (if ret \<noteq> 0 then Some (ret, s)
            else Some (uint WLAN_STATUS_SUCCESS, sae_set_retransmit_timer s)) }) }
      else do {
        (ret, s) \<leftarrow> auth_sae_send_confirm env bssid s;
        (if ret \<noteq> 0 then Some (ret, s)
         else do {
           s \<leftarrow> sae_set_state SAE_CONFIRMED s;
           sae_sm_confirmed env bssid auth_transaction s }) })"

text \<open>In mesh a Commit from an accepted peer frees the station entry and then reads its address: a use
  of freed memory.\<close>

definition sae_sm_accepted :: "('g, 'q) env \<Rightarrow> bytes \<Rightarrow> u8 \<Rightarrow> ('g, 'q) ap \<Rightarrow> (int \<times> ('g, 'q) ap) run" where
  "sae_sm_accepted env bssid auth_transaction s =
     (if auth_transaction = 1 \<and> ap_mesh s then None
      else if auth_transaction = 1 then do {
        (ret, s) \<leftarrow> auth_sae_send_commit env bssid True s;
        (if ret \<noteq> 0 then Some (ret, s)
         else do {
           s \<leftarrow> sae_set_state SAE_COMMITTED s;
           (res, s) \<leftarrow> sae_process_commit_sta env s;
           (if res < 0 then Some (uint WLAN_STATUS_UNSPECIFIED_FAILURE, s)
            else do {
              s \<leftarrow> sae_reset_sync s;
              Some (uint WLAN_STATUS_SUCCESS, sae_set_retransmit_timer s) }) }) }
      else do {
        (big, s) \<leftarrow> sae_check_big_sync s;
        (if big \<noteq> 0 then Some (uint WLAN_STATUS_SUCCESS, s)
         else do {
           s \<leftarrow> sae_inc_sync s;
           (ret, s) \<leftarrow> auth_sae_send_confirm env bssid s;
           sae \<leftarrow> ap_sae s;
           let s = put_sae (sae_clear_temp_data sae) s;
           Some (if ret \<noteq> 0 then (ret, s) else (uint WLAN_STATUS_SUCCESS, s)) }) })"

definition sae_sm_step ::
  "('g, 'q) env \<Rightarrow> bytes \<Rightarrow> u8 \<Rightarrow> ('g, 'q) ap \<Rightarrow> (int \<times> ('g, 'q) ap) run" where
  "sae_sm_step env bssid auth_transaction s =
     (if auth_transaction \<noteq> 1 \<and> auth_transaction \<noteq> 2 then Some (uint WLAN_STATUS_UNSPECIFIED_FAILURE, s)
      else do {
        sae \<leftarrow> ap_sae s;
        (case sd_state sae of
           SAE_NOTHING \<Rightarrow> sae_sm_nothing env bssid auth_transaction s
         | SAE_COMMITTED \<Rightarrow> sae_sm_committed env bssid auth_transaction s
         | SAE_CONFIRMED \<Rightarrow> sae_sm_confirmed env bssid auth_transaction s
         | SAE_ACCEPTED \<Rightarrow> sae_sm_accepted env bssid auth_transaction s) })"

subsection \<open>Choice of the next group\<close>

text \<open>The rest of the zero terminated array from the entry of the current group on, or from its end.\<close>

fun group_entry :: "int list \<Rightarrow> int \<Rightarrow> int list" where
  "group_entry [] grp = []"
| "group_entry (g # gs) grp = (if g > 0 \<and> g \<noteq> grp then group_entry gs grp else g # gs)"

fun pick_group_loop ::
  "('g, 'q) env \<Rightarrow> int list \<Rightarrow> ('g, 'q) sae_data \<Rightarrow> ('g, 'q) sae_data run" where
  "pick_group_loop env [] sae = None"
| "pick_group_loop env (g # gs) sae =
     (if g \<le> 0 then Some sae
      else case sae_set_group (en_L env) (en_all env) sae g of
             (res, sae) \<Rightarrow> if res < 0 then pick_group_loop env gs sae else Some sae)"

definition sae_pick_next_group :: "('g, 'q) env \<Rightarrow> ('g, 'q) ap \<Rightarrow> ('g, 'q) ap run" where
  "sae_pick_next_group env s = do {
     sae \<leftarrow> ap_sae s;
     (if sd_state sae \<noteq> SAE_COMMITTED then Some s
      else case bc_sae_groups (ap_conf s) of
             None \<Rightarrow> Some s
           | Some groups \<Rightarrow>
               (case group_entry groups (sd_group sae) of
                  [] \<Rightarrow> None
                | g # gs \<Rightarrow>
                    if g \<le> 0 then Some s
                    else do {
                      sae \<leftarrow> pick_group_loop env gs sae;
                      Some (put_sae sae s) })) }"

subsection \<open>Authentication frames\<close>

record auth_frame =
  af_sa :: bytes
  af_bssid :: bytes
  af_variable :: bytes

text \<open>The ways to leave the body of \<^verbatim>\<open>handle_auth_sae\<close>: to the label \<^verbatim>\<open>reply\<close> with \<^verbatim>\<open>resp\<close> and
  \<^verbatim>\<open>data\<close>, to the label \<^verbatim>\<open>remove_sta\<close> with \<^verbatim>\<open>resp\<close>, or by a \<^verbatim>\<open>return\<close>.\<close>

datatype auth_exit = Reply int "bytes option" | RemoveSta int | Return

definition auth_sae_remove_sta :: "int \<Rightarrow> u16 \<Rightarrow> ('g, 'q) ap \<Rightarrow> ('g, 'q) ap" where
  "auth_sae_remove_sta resp status_code s =
     (if si_added_unassoc (ap_sta s) \<and> (resp \<noteq> 0 \<or> status_code \<noteq> WLAN_STATUS_SUCCESS)
      then log_event (DrvStaRemove (si_addr (ap_sta s))) (put_sta ((ap_sta s)\<lparr>si_added_unassoc := False\<rparr>) s)
      else s)"

definition auth_sae_exit ::
  "('g, 'q) env \<Rightarrow> auth_frame \<Rightarrow> u16 \<Rightarrow> u16 \<Rightarrow> auth_exit \<Rightarrow> ('g, 'q) ap \<Rightarrow> ('g, 'q) ap" where
  "auth_sae_exit env mgmt auth_transaction status_code ex s =
     (case ex of
        Return \<Rightarrow> s
      | RemoveSta resp \<Rightarrow> auth_sae_remove_sta resp status_code s
      | Reply resp data \<Rightarrow>
          auth_sae_remove_sta resp status_code
            (if resp \<noteq> 0
             then snd (send_auth_reply env (af_sa mgmt) (af_bssid mgmt) WLAN_AUTH_SAE auth_transaction
                         (word_of_int resp) (case data of None \<Rightarrow> [] | Some d \<Rightarrow> d) s)
             else s))"

text \<open>A status 76 answer in mesh: the token is kept and the same Commit is sent again with it.\<close>

definition handle_token_request ::
  "('g, 'q) env \<Rightarrow> auth_frame \<Rightarrow> ('g, 'q) ap \<Rightarrow> (auth_exit \<times> ('g, 'q) ap) run" where
  "handle_token_request env mgmt s = do {
     sae \<leftarrow> ap_sae s;
     let pos = af_variable mgmt;
     (if length pos < 2 then Some (Reply (uint WLAN_STATUS_UNSPECIFIED_FAILURE) None, s)
      else do {
        (resp, sae) \<leftarrow> sae_group_allowed (en_L env) (en_all env) sae (bc_sae_groups (ap_conf s)) (WPA_GET_LE16 pos);
        let s = put_sae sae s;
        (if resp \<noteq> WLAN_STATUS_SUCCESS then Some (Reply (uint resp) None, s)
         else do {
           tmp \<leftarrow> sd_tmp sae;
           token \<leftarrow> wpabuf_alloc_copy (en_malloc env) (drop 2 pos);
           let s = put_sae (sae\<lparr>sd_tmp := Some (tmp\<lparr>st_anti_clogging_token := token\<rparr>)\<rparr>) s;
           (if token = None then Some (RemoveSta (uint WLAN_STATUS_UNSPECIFIED_FAILURE), s)
            else do {
              (resp, s) \<leftarrow> auth_sae_send_commit env (af_bssid mgmt) False s;
              (if resp \<noteq> uint WLAN_STATUS_SUCCESS then Some (RemoveSta resp, s)
               else do {
                 s \<leftarrow> sae_set_state SAE_COMMITTED s;
                 s \<leftarrow> sae_reset_sync s;
                 Some (Return, sae_set_retransmit_timer s) }) }) }) }) }"

definition handle_sae_commit ::
  "('g, 'q) env \<Rightarrow> auth_frame \<Rightarrow> ('g, 'q) ap \<Rightarrow> (auth_exit \<times> ('g, 'q) ap) run" where
  "handle_sae_commit env mgmt s = do {
     sae \<leftarrow> ap_sae s;
     let sae = (if \<not> ap_mesh s \<and> sd_state sae = SAE_COMMITTED
                then sae_clear_data (sae\<lparr>sd_state := SAE_NOTHING\<rparr>) else sae);
     (resp, token, sae) \<leftarrow> sae_parse_commit (en_L env) (en_all env) sae (af_variable mgmt)
                             (bc_sae_groups (ap_conf s));
     let s = put_sae sae s;
     (if resp = SAE_SILENTLY_DISCARD then Some (RemoveSta (uint resp), s)
      else if resp = WLAN_STATUS_UNKNOWN_PASSWORD_IDENTIFIER then do {
        s \<leftarrow> sae_set_state SAE_NOTHING (sae_clear_retransmit_timer s);
        Some (RemoveSta (uint resp), s) }
      else if (case token of None \<Rightarrow> False | Some t \<Rightarrow> check_sae_token s t < 0)
      then Some (RemoveSta (uint WLAN_STATUS_UNSPECIFIED_FAILURE), s)
      else if resp \<noteq> WLAN_STATUS_SUCCESS then Some (Reply (uint resp) None, s)
      else if token = None \<and> use_sae_anti_clogging s then do {
        (data, s) \<leftarrow> auth_build_token_req env (sd_group sae) (si_addr (ap_sta s)) s;
        s \<leftarrow> (if ap_mesh s then sae_set_state SAE_NOTHING s else Some s);
        Some (Reply (uint WLAN_STATUS_ANTI_CLOGGING_TOKEN_REQ) (map_option wb_contents data), s) }
      else do {
        (resp, s) \<leftarrow> sae_sm_step env (af_bssid mgmt) 1 s;
        Some (Reply resp None, s) }) }"

definition handle_sae_confirm ::
  "('g, 'q) env \<Rightarrow> auth_frame \<Rightarrow> ('g, 'q) ap \<Rightarrow> (auth_exit \<times> ('g, 'q) ap) run" where
  "handle_sae_confirm env mgmt s = do {
     sae \<leftarrow> ap_sae s;
     let var = af_variable mgmt;
     (if (sd_state sae = SAE_CONFIRMED \<or> sd_state sae = SAE_ACCEPTED) \<or> \<not> ap_mesh s then
        (if length var < 2 then Some (Reply (uint WLAN_STATUS_UNSPECIFIED_FAILURE) None, s)
         else
           let peer_send_confirm = WPA_GET_LE16 var
           in if sd_state sae = SAE_ACCEPTED \<and> (peer_send_confirm \<le> sd_rc sae \<or> peer_send_confirm = 0xffff)
              then Some (Return, s)
              else do {
                res \<leftarrow> sae_check_confirm (en_L env) sae var;
                (if res < 0 then Some (Reply (uint WLAN_STATUS_UNSPECIFIED_FAILURE) None, s)
                 else do {
                   (resp, s) \<leftarrow> sae_sm_step env (af_bssid mgmt) 2 (put_sae (sae\<lparr>sd_rc := peer_send_confirm\<rparr>) s);
                   Some (Reply resp None, s) }) })
      else do {
        (resp, s) \<leftarrow> sae_sm_step env (af_bssid mgmt) 2 s;
        Some (Reply resp None, s) }) }"

definition handle_auth_sae_body ::
  "('g, 'q) env \<Rightarrow> auth_frame \<Rightarrow> u16 \<Rightarrow> u16 \<Rightarrow> ('g, 'q) ap \<Rightarrow> (auth_exit \<times> ('g, 'q) ap) run" where
  "handle_auth_sae_body env mgmt auth_transaction status_code s =
     (if ap_sae s = None \<and> (auth_transaction \<noteq> 1 \<or> status_code \<noteq> WLAN_STATUS_SUCCESS)
      then Some (RemoveSta (- 1), s)
      else if ap_sae s = None \<and> \<not> os_zalloc_ok (en_L env) then Some (RemoveSta (- 1), s)
      else do {
        let s = (if ap_sae s = None then put_sae sae_zero s else s);
        let s = (if si_mesh_sae_pmksa_caching (ap_sta s)
                 then log_event (PmksaRemove (si_addr (ap_sta s)))
                        (put_sta ((ap_sta s)\<lparr>si_mesh_sae_pmksa_caching := False\<rparr>) s)
                 else s);
        sae \<leftarrow> ap_sae s;
        (if auth_transaction = 1 then
           (if ap_mesh s \<and> status_code = WLAN_STATUS_ANTI_CLOGGING_TOKEN_REQ \<and> sd_tmp sae \<noteq> None
            then handle_token_request env mgmt s
            else if ap_mesh s \<and> status_code = WLAN_STATUS_FINITE_CYCLIC_GROUP_NOT_SUPPORTED \<and> sd_tmp sae \<noteq> None
            then do {
              s \<leftarrow> sae_pick_next_group env s;
              Some (RemoveSta 0, s) }
            else if status_code \<noteq> WLAN_STATUS_SUCCESS then Some (RemoveSta 0, s)
            else handle_sae_commit env mgmt s)
         else if auth_transaction = 2 then
           (if status_code \<noteq> WLAN_STATUS_SUCCESS then Some (RemoveSta 0, s)
            else handle_sae_confirm env mgmt s)
         else if status_code \<noteq> WLAN_STATUS_SUCCESS then Some (RemoveSta 0, s)
         else Some (Reply (uint WLAN_STATUS_UNKNOWN_AUTH_TRANSACTION) None, s)) })"

definition handle_auth_sae ::
  "('g, 'q) env \<Rightarrow> auth_frame \<Rightarrow> u16 \<Rightarrow> u16 \<Rightarrow> ('g, 'q) ap \<Rightarrow> ('g, 'q) ap run" where
  "handle_auth_sae env mgmt auth_transaction status_code s = do {
     (ex, s) \<leftarrow> handle_auth_sae_body env mgmt auth_transaction status_code s;
     Some (auth_sae_exit env mgmt auth_transaction status_code ex s) }"

definition auth_sae_init_committed :: "('g, 'q) env \<Rightarrow> ('g, 'q) ap \<Rightarrow> (int \<times> ('g, 'q) ap) run" where
  "auth_sae_init_committed env s =
     (case ap_sae s of
        None \<Rightarrow> Some (- 1, s)
      | Some sae \<Rightarrow>
          if sd_tmp sae = None \<or> sd_state sae \<noteq> SAE_NOTHING then Some (- 1, s)
          else do {
            (ret, s) \<leftarrow> auth_sae_send_commit env (hd_own_addr (ap_hapd s)) False s;
            (if ret \<noteq> 0 then Some (- 1, s)
             else do {
               s \<leftarrow> sae_set_state SAE_COMMITTED s;
               s \<leftarrow> sae_reset_sync s;
               Some (0, sae_set_retransmit_timer s) }) })"

end
