(* ===== verification/SaeFsm.thy ===== *)
theory SaeFsm
  imports SaeAp
begin

text \<open>
  The abstract SAE state machine (IEEE Std 802.11, 12.4.8.6) and the refinement: every run of the
  handlers of \<open>SaeAp\<close> that returns is a step of it.  The abstract state is the protocol state with
  the Sync counter; an event says whether a Confirm was verified.  Over the abstract machine the
  invariants are short inductions, and the refinement carries them to the code.
\<close>

subsection \<open>The abstract machine\<close>

datatype sae_event = RxCommit | RxConfirm bool | Timeout | InitEvent | Other

text \<open>\<open>mesh\<close>: the peer is a mesh station; \<open>dsync\<close>: dot11RSNASAESync.  A received Commit may restart the
  instance (\<open>fsm_restart\<close>: another group, or a second attempt in an infrastructure BSS) before it
  causes a transition of its own.\<close>

inductive sae_fsm :: "bool \<Rightarrow> nat \<Rightarrow> sae_event \<Rightarrow> sae_state \<times> nat \<Rightarrow> sae_state \<times> nat \<Rightarrow> bool"
  for mesh :: bool and dsync :: nat where
  fsm_stay: "sae_fsm mesh dsync ev a a"
| fsm_restart: "sae_fsm mesh dsync RxCommit (SAE_NOTHING, 0) a \<Longrightarrow> sae_fsm mesh dsync RxCommit b a"
| fsm_reset: "sae_fsm mesh dsync RxCommit (st, n) (SAE_NOTHING, n)"
| fsm_nothing_commit: "m \<in> {0, n} \<Longrightarrow> sae_fsm mesh dsync RxCommit (SAE_NOTHING, n) (SAE_COMMITTED, m)"
| fsm_nothing_confirm: "mesh \<Longrightarrow> sae_fsm mesh dsync RxCommit (SAE_NOTHING, n) (SAE_CONFIRMED, 0)"
| fsm_committed_commit: "mesh \<Longrightarrow> sae_fsm mesh dsync RxCommit (SAE_COMMITTED, n) (SAE_CONFIRMED, 0)"
| fsm_confirmed_commit: "n \<le> dsync \<Longrightarrow> sae_fsm mesh dsync RxCommit (SAE_CONFIRMED, n) (SAE_CONFIRMED, Suc n)"
| fsm_accepted_commit: "\<not> mesh \<Longrightarrow> m \<in> {0, n} \<Longrightarrow> sae_fsm mesh dsync RxCommit (SAE_ACCEPTED, n) (SAE_COMMITTED, m)"
| fsm_committed_confirm: "mesh \<Longrightarrow> n \<le> dsync \<Longrightarrow> sae_fsm mesh dsync (RxConfirm v) (SAE_COMMITTED, n) (SAE_COMMITTED, Suc n)"
| fsm_accept: "st = SAE_COMMITTED \<and> \<not> mesh \<or> st = SAE_CONFIRMED \<Longrightarrow>
    sae_fsm mesh dsync (RxConfirm True) (st, n) (SAE_ACCEPTED, n)"
| fsm_accepted_confirm: "n \<le> dsync \<Longrightarrow> sae_fsm mesh dsync (RxConfirm True) (SAE_ACCEPTED, n) (SAE_ACCEPTED, Suc n)"
| fsm_big_sync: "n > dsync \<Longrightarrow> ev \<in> {RxCommit, RxConfirm v, Timeout} \<Longrightarrow> sae_fsm mesh dsync ev (st, n) (SAE_NOTHING, 0)"
| fsm_timeout: "n \<le> dsync \<Longrightarrow> sae_fsm mesh dsync Timeout (st, n) (st, Suc n)"
| fsm_init: "sae_fsm mesh dsync InitEvent (SAE_NOTHING, n) (SAE_COMMITTED, 0)"
| fsm_next_group: "sae_fsm mesh dsync Other (SAE_COMMITTED, n) (SAE_NOTHING, 0)"
| fsm_token: "mesh \<Longrightarrow> sae_fsm mesh dsync Other a (SAE_COMMITTED, 0)"
| fsm_token_group: "mesh \<Longrightarrow> sae_fsm mesh dsync Other a (SAE_NOTHING, 0)"

inductive_cases sae_fsm_acceptE: "sae_fsm mesh dsync ev a (SAE_ACCEPTED, n)"

lemma fsm_accept_only:
  assumes "sae_fsm mesh dsync ev a b" and "fst b = SAE_ACCEPTED" and "fst a \<noteq> SAE_ACCEPTED"
  shows "ev = RxConfirm True \<and> (fst a = SAE_CONFIRMED \<or> fst a = SAE_COMMITTED \<and> \<not> mesh)"
  using assms by (induction rule: sae_fsm.induct) auto

lemma fsm_sync_bound:
  "sae_fsm mesh dsync ev a b \<Longrightarrow> snd a \<le> dsync + 1 \<Longrightarrow> snd b \<le> dsync + 1"
  by (induction rule: sae_fsm.induct) auto

subsection \<open>What the SAE operations leave alone\<close>

definition abs_sae :: "('g, 'q) sae_data \<Rightarrow> sae_state \<times> nat" where
  "abs_sae sae = (sd_state sae, sd_sync sae)"

lemma ex_field [simp]:
  "\<exists>t. sae = sae\<lparr>sd_tmp := t\<rparr>" "\<exists>t. sae\<lparr>sd_tmp := u\<rparr> = sae\<lparr>sd_tmp := t\<rparr>"
  "\<exists>c. sae = sae\<lparr>sd_send_confirm := c\<rparr>" "\<exists>c. sae\<lparr>sd_send_confirm := d\<rparr> = sae\<lparr>sd_send_confirm := c\<rparr>"
  for sae :: "('g, 'q) sae_data"
proof -
  show "\<exists>t. sae = sae\<lparr>sd_tmp := t\<rparr>" by (rule exI [of _ "sd_tmp sae"]) simp
  show "\<exists>c. sae = sae\<lparr>sd_send_confirm := c\<rparr>" by (rule exI [of _ "sd_send_confirm sae"]) simp
qed blast+

lemma sae_prepare_commit_frame:
  assumes "sae_prepare_commit L a b pw ident sae rnd = Some (res, sae', rnd')"
  shows "\<exists>t. sae' = sae\<lparr>sd_tmp := t\<rparr>"
proof -
  have "sae' = sae\<lparr>sd_tmp := sd_tmp sae'\<rparr>"
    using assms
    by (auto simp: sae_prepare_commit_def split: Option.bind_splits option.splits prod.splits if_splits)
  then show ?thesis ..
qed

lemma sae_write_confirm_frame:
  assumes "sae_write_confirm L sae buf = Some (sae', buf')"
  shows "\<exists>c. sae' = sae\<lparr>sd_send_confirm := c\<rparr>"
proof -
  have "sae' = sae\<lparr>sd_send_confirm := sd_send_confirm sae'\<rparr>"
    using assms
    by (auto simp: sae_write_confirm_def Let_def split: Option.bind_splits option.splits if_splits)
  then show ?thesis ..
qed

lemma sae_process_commit_frame:
  assumes "sae_process_commit L sae = Some (res, sae')"
  shows "\<exists>p q t. sae' = sae\<lparr>sd_pmk := p, sd_pmkid := q, sd_tmp := t\<rparr>"
proof -
  have "sae' = sae\<lparr>sd_pmk := sd_pmk sae', sd_pmkid := sd_pmkid sae', sd_tmp := sd_tmp sae'\<rparr>"
    using assms
    by (auto simp: sae_process_commit_def sae_derive_keys_def split: Option.bind_splits option.splits if_splits)
  then show ?thesis by blast
qed

lemma abs_sae_set_group: "sae_set_group L all sae g = (r, sae') \<Longrightarrow> abs_sae sae' = (SAE_NOTHING, 0)"
  by (auto simp: sae_set_group_def Let_def sae_clear_data_def abs_sae_def sae_zero_def
      split: if_splits option.splits)

lemma abs_sae_group_allowed:
  assumes "sae_group_allowed L all sae gs g = Some (r, sae')"
  shows "sae' = sae \<or> abs_sae sae' = (SAE_NOTHING, 0)"
  using assms
  by (auto simp: sae_group_allowed_def Let_def split: Option.bind_splits option.splits if_splits prod.splits
      dest: abs_sae_set_group)

lemma sae_parse_commit_scalar_frame:
  assumes "sae_parse_commit_scalar L sae tmp pos = Some (r, sae', pos')"
  shows "\<exists>p. sae' = sae\<lparr>sd_peer_commit_scalar := p\<rparr>"
proof -
  have "sae' = sae\<lparr>sd_peer_commit_scalar := sd_peer_commit_scalar sae'\<rparr>"
    using assms
    by (auto simp: sae_parse_commit_scalar_def Let_def split: Option.bind_splits option.splits if_splits)
  then show ?thesis ..
qed

lemma sae_parse_commit_frame:
  assumes "sae_parse_commit L all sae data gs = Some (r, tok, sae')"
  shows "\<exists>p t sae1. sae' = sae1\<lparr>sd_peer_commit_scalar := p, sd_tmp := t\<rparr> \<and>
    (sae1 = sae \<or> abs_sae sae1 = (SAE_NOTHING, 0))"
proof (cases "length data < 2")
  case True
  then have "sae' = sae\<lparr>sd_peer_commit_scalar := sd_peer_commit_scalar sae, sd_tmp := sd_tmp sae\<rparr>"
    using assms by (simp add: sae_parse_commit_def)
  then show ?thesis by blast
next
  case False
  with assms obtain r1 sae1 where g: "sae_group_allowed L all sae gs (WPA_GET_LE16 data) = Some (r1, sae1)"
    by (auto simp: sae_parse_commit_def split: Option.bind_splits)
  have "sae' = sae1\<lparr>sd_peer_commit_scalar := sd_peer_commit_scalar sae', sd_tmp := sd_tmp sae'\<rparr>"
    using assms False g
    by (auto simp: sae_parse_commit_def Let_def split: Option.bind_splits if_splits prod.splits
        dest!: sae_parse_commit_scalar_frame)
  then show ?thesis using abs_sae_group_allowed [OF g] by blast
qed

lemma abs_sae_parse_commit:
  assumes "sae_parse_commit L all sae data gs = Some (r, tok, sae')"
  shows "abs_sae sae' = abs_sae sae \<or> abs_sae sae' = (SAE_NOTHING, 0)"
  using sae_parse_commit_frame [OF assms] by (auto simp: abs_sae_def)

subsection \<open>What the handlers leave alone\<close>

fun is_pmksa_add :: "ap_event \<Rightarrow> bool" where
  "is_pmksa_add (PmksaAddSae addr pmk pmkid) = True"
| "is_pmksa_add ev = False"

definition pmksa_log :: "('g, 'q) ap \<Rightarrow> ap_event list" where
  "pmksa_log s = filter is_pmksa_add (ap_log s)"

text \<open>Configuration and address never change; \<open>ap_keep\<close> also says that the station was not accepted in
  between.\<close>

definition ap_keep :: "('g, 'q) ap \<Rightarrow> ('g, 'q) ap \<Rightarrow> bool" where
  "ap_keep s s' \<longleftrightarrow> ap_conf s' = ap_conf s \<and> hd_own_addr (ap_hapd s') = hd_own_addr (ap_hapd s) \<and>
     si_addr (ap_sta s') = si_addr (ap_sta s) \<and> si_auth (ap_sta s') = si_auth (ap_sta s) \<and>
     pmksa_log s' = pmksa_log s"

definition abs_ap :: "('g, 'q) ap \<Rightarrow> (sae_state \<times> nat) option" where
  "abs_ap s = map_option abs_sae (ap_sae s)"

lemma ap_keep_refl [simp]: "ap_keep s s"
  by (simp add: ap_keep_def)

lemma ap_keep_trans [trans]: "ap_keep s t \<Longrightarrow> ap_keep t u \<Longrightarrow> ap_keep s u"
  by (auto simp: ap_keep_def)

lemmas ap_put_defs = put_sae_def put_sta_def log_event_def set_timer_def

lemma ap_keep_put_sae [simp]: "ap_keep s (put_sae sae s')  \<longleftrightarrow> ap_keep s s'"
  by (simp add: ap_keep_def put_sae_def pmksa_log_def)

lemma ap_keep_set_timer [simp]: "ap_keep s (set_timer b s') \<longleftrightarrow> ap_keep s s'"
  by (simp add: ap_keep_def set_timer_def pmksa_log_def)

lemma ap_keep_env [simp]: "ap_keep s (s'\<lparr>ap_rnd := r\<rparr>) \<longleftrightarrow> ap_keep s s'" "ap_keep s (s'\<lparr>ap_tx := t\<rparr>) \<longleftrightarrow> ap_keep s s'"
  by (simp_all add: ap_keep_def pmksa_log_def)

lemma abs_ap_simps [simp]:
  "abs_ap (put_sae sae s) = Some (abs_sae sae)" "abs_ap (set_timer b s) = abs_ap s"
  "abs_ap (s\<lparr>ap_rnd := r\<rparr>) = abs_ap s" "abs_ap (s\<lparr>ap_tx := t\<rparr>) = abs_ap s" "abs_ap (log_event e s) = abs_ap s"
  by (simp_all add: abs_ap_def ap_put_defs)

lemma ap_sae_simps [simp]:
  "ap_sae (put_sae sae s) = Some sae" "ap_sae (set_timer b s) = ap_sae s"
  "ap_sae (s\<lparr>ap_rnd := r\<rparr>) = ap_sae s" "ap_sae (s\<lparr>ap_tx := t\<rparr>) = ap_sae s" "ap_sae (log_event e s) = ap_sae s"
  by (simp_all add: ap_put_defs)

lemma send_auth_reply_keep:
  "send_auth_reply env dst bssid alg tr resp ies s = (r, s') \<Longrightarrow> ap_keep s s' \<and> ap_sae s' = ap_sae s"
  by (auto simp: send_auth_reply_def ap_keep_def pmksa_log_def log_event_def
      split: if_splits list.splits bool.splits)

lemma auth_build_sae_commit_keep:
  assumes b: "auth_build_sae_commit env upd s = Some (d, s1)" and sae: "ap_sae s = Some sae"
  shows "ap_keep s s1 \<and> (\<exists>t. ap_sae s1 = Some (sae\<lparr>sd_tmp := t\<rparr>))"
proof -
  define rx_id where "rx_id = (case sd_tmp sae of None \<Rightarrow> None | Some tmp \<Rightarrow> map_option c_str (st_pw_id tmp))"
  define password where "password = (case find_sae_password (si_addr (ap_sta s)) rx_id (bc_sae_passwords (ap_conf s)) of
                     None \<Rightarrow> bc_wpa_passphrase (ap_conf s) | Some pw \<Rightarrow> Some pw)"
  note b' = b [unfolded auth_build_sae_commit_def sae Option.bind.bind_lunit Let_def rx_id_def [symmetric]
      password_def [symmetric]]
  show ?thesis
  proof (cases password)
    case None
    then show ?thesis using b' sae by simp
  next
    case (Some pw)
    let ?prep = "if upd then sae_prepare_commit (en_L env) (hd_own_addr (ap_hapd s)) (si_addr (ap_sta s)) pw
                   rx_id sae (ap_rnd s) else Some (0, sae, ap_rnd s)"
    from b' Some obtain res sae1 rnd1 where p: "?prep = Some (res, sae1, rnd1)"
      by (cases ?prep) auto
    then have f: "\<exists>t. sae1 = sae\<lparr>sd_tmp := t\<rparr>" by (auto split: if_splits dest: sae_prepare_commit_frame)
    have "s1 = put_sae sae1 (s\<lparr>ap_rnd := rnd1\<rparr>)"
      using b' unfolding Some p option.case by (auto split: if_splits option.splits Option.bind_splits)
    then show ?thesis using f by auto
  qed
qed

lemma auth_sae_send_commit_keep:
  assumes "auth_sae_send_commit env bssid upd s = Some (r, s')" and sae: "ap_sae s = Some sae"
  shows "ap_keep s s' \<and> (\<exists>t. ap_sae s' = Some (sae\<lparr>sd_tmp := t\<rparr>))"
proof -
  from assms obtain d s1 where b: "auth_build_sae_commit env upd s = Some (d, s1)"
    by (auto simp: auth_sae_send_commit_def split: Option.bind_splits)
  note k = auth_build_sae_commit_keep [OF b sae]
  show ?thesis
  proof (cases d)
    case None
    then show ?thesis using assms(1) b k by (auto simp: auth_sae_send_commit_def)
  next
    case (Some buf)
    then have "send_auth_reply env (si_addr (ap_sta s1)) bssid WLAN_AUTH_SAE 1 WLAN_STATUS_SUCCESS
        (wb_contents buf) s1 = (r, s')"
      using assms(1) b by (simp add: auth_sae_send_commit_def)
    from send_auth_reply_keep [OF this] k show ?thesis by (auto intro: ap_keep_trans)
  qed
qed

lemma auth_sae_send_confirm_keep:
  assumes "auth_sae_send_confirm env bssid s = Some (r, s')" and sae: "ap_sae s = Some sae"
  shows "ap_keep s s' \<and> (\<exists>c. ap_sae s' = Some (sae\<lparr>sd_send_confirm := c\<rparr>))"
proof -
  from assms obtain d s1 where b: "auth_build_sae_confirm env s = Some (d, s1)"
    by (auto simp: auth_sae_send_confirm_def split: Option.bind_splits)
  have k: "ap_keep s s1 \<and> (\<exists>c. ap_sae s1 = Some (sae\<lparr>sd_send_confirm := c\<rparr>))"
    using b sae
    by (auto simp: auth_build_sae_confirm_def split: Option.bind_splits option.splits
        dest!: sae_write_confirm_frame)
  show ?thesis
  proof (cases d)
    case None
    then show ?thesis using assms(1) b k by (auto simp: auth_sae_send_confirm_def)
  next
    case (Some buf)
    then have "send_auth_reply env (si_addr (ap_sta s1)) bssid WLAN_AUTH_SAE 2 WLAN_STATUS_SUCCESS
        (wb_contents buf) s1 = (r, s')"
      using assms(1) b by (simp add: auth_sae_send_confirm_def)
    from send_auth_reply_keep [OF this] k show ?thesis by (auto intro: ap_keep_trans)
  qed
qed

subsection \<open>One step at a time\<close>

text \<open>Since \<open>s0\<close> the station has not been accepted, and it is now in the abstract state \<open>a\<close>.\<close>

definition ap_at :: "('g, 'q) ap \<Rightarrow> ('g, 'q) ap \<Rightarrow> sae_state \<times> nat \<Rightarrow> bool" where
  "ap_at s0 s a \<longleftrightarrow> ap_keep s0 s \<and> abs_ap s = Some a"

lemma ap_atE:
  assumes "ap_at s0 s a"
  obtains sae where "ap_keep s0 s" "ap_sae s = Some sae" "abs_sae sae = a"
  using assms by (auto simp: ap_at_def abs_ap_def)

lemma ap_at_conf: "ap_at s0 s a \<Longrightarrow> ap_conf s = ap_conf s0"
  by (simp add: ap_at_def ap_keep_def)

lemma send_commit_at: "auth_sae_send_commit env bssid upd s = Some (r, s') \<Longrightarrow> ap_at s0 s a \<Longrightarrow> ap_at s0 s' a"
  by (erule ap_atE) (auto dest!: auth_sae_send_commit_keep simp: ap_at_def abs_ap_def abs_sae_def intro: ap_keep_trans)

lemma send_confirm_at: "auth_sae_send_confirm env bssid s = Some (r, s') \<Longrightarrow> ap_at s0 s a \<Longrightarrow> ap_at s0 s' a"
  by (erule ap_atE) (auto dest!: auth_sae_send_confirm_keep simp: ap_at_def abs_ap_def abs_sae_def intro: ap_keep_trans)

lemma process_commit_at: "sae_process_commit_sta env s = Some (r, s') \<Longrightarrow> ap_at s0 s a \<Longrightarrow> ap_at s0 s' a"
  by (erule ap_atE)
    (auto simp: sae_process_commit_sta_def ap_at_def abs_sae_def split: Option.bind_splits dest!: sae_process_commit_frame)

lemma set_state_at: "sae_set_state st s = Some s' \<Longrightarrow> ap_at s0 s a \<Longrightarrow> ap_at s0 s' (st, snd a)"
  by (erule ap_atE) (auto simp: sae_set_state_def ap_at_def abs_sae_def)

lemma reset_sync_at: "sae_reset_sync s = Some s' \<Longrightarrow> ap_at s0 s a \<Longrightarrow> ap_at s0 s' (fst a, 0)"
  by (erule ap_atE) (auto simp: sae_reset_sync_def ap_at_def abs_sae_def)

lemma inc_sync_at: "sae_inc_sync s = Some s' \<Longrightarrow> ap_at s0 s a \<Longrightarrow> ap_at s0 s' (fst a, snd a + 1)"
  by (erule ap_atE) (auto simp: sae_inc_sync_def ap_at_def abs_sae_def)

lemma check_big_sync_at:
  "sae_check_big_sync s = Some (r, s') \<Longrightarrow> ap_at s0 s a \<Longrightarrow>
   (if snd a > bc_sae_sync (ap_conf s0) then r \<noteq> 0 \<and> ap_at s0 s' (SAE_NOTHING, 0) else r = 0 \<and> s' = s)"
  by (erule ap_atE)
    (auto simp: sae_check_big_sync_def ap_at_def abs_ap_def abs_sae_def ap_keep_def pmksa_log_def ap_put_defs
      split: if_splits)

text \<open>The same facts as rules for \<open>ensures\<close>.\<close>

lemma at_sae [wp]:
  "ap_at s0 s (st, n) \<Longrightarrow> (\<And>sae. ap_sae s = Some sae \<Longrightarrow> sd_state sae = st \<Longrightarrow> sd_sync sae = n \<Longrightarrow> Q sae) \<Longrightarrow>
   ensures (ap_sae s) Q"
  by (auto simp: ensures_def ap_at_def abs_ap_def abs_sae_def)

lemma at_send_commit [wp]:
  "ap_at s0 s a \<Longrightarrow> (\<And>r s'. ap_at s0 s' a \<Longrightarrow> Q (r, s')) \<Longrightarrow> ensures (auth_sae_send_commit env bssid upd s) Q"
  by (rule ensures_pairI) (blast dest: send_commit_at)

lemma at_send_confirm [wp]:
  "ap_at s0 s a \<Longrightarrow> (\<And>r s'. ap_at s0 s' a \<Longrightarrow> Q (r, s')) \<Longrightarrow> ensures (auth_sae_send_confirm env bssid s) Q"
  by (rule ensures_pairI) (blast dest: send_confirm_at)

lemma at_process_commit [wp]:
  "ap_at s0 s a \<Longrightarrow> (\<And>r s'. ap_at s0 s' a \<Longrightarrow> Q (r, s')) \<Longrightarrow> ensures (sae_process_commit_sta env s) Q"
  by (rule ensures_pairI) (blast dest: process_commit_at)

lemma at_set_state [wp]:
  "ap_at s0 s (st0, n) \<Longrightarrow> (\<And>s'. ap_at s0 s' (st, n) \<Longrightarrow> Q s') \<Longrightarrow> ensures (sae_set_state st s) Q"
  using set_state_at by (fastforce simp: ensures_def)

lemma at_reset_sync [wp]:
  "ap_at s0 s (st, n) \<Longrightarrow> (\<And>s'. ap_at s0 s' (st, 0) \<Longrightarrow> Q s') \<Longrightarrow> ensures (sae_reset_sync s) Q"
  using reset_sync_at by (fastforce simp: ensures_def)

lemma at_inc_sync [wp]:
  "ap_at s0 s (st, n) \<Longrightarrow> (\<And>s'. ap_at s0 s' (st, Suc n) \<Longrightarrow> Q s') \<Longrightarrow> ensures (sae_inc_sync s) Q"
  using inc_sync_at by (fastforce simp: ensures_def)

lemma at_check_big_sync [wp]:
  assumes a: "ap_at s0 s (st, n)"
    and "\<And>r s'. n > bc_sae_sync (ap_conf s0) \<Longrightarrow> r \<noteq> 0 \<Longrightarrow> ap_at s0 s' (SAE_NOTHING, 0) \<Longrightarrow> Q (r, s')"
    and "n \<le> bc_sae_sync (ap_conf s0) \<Longrightarrow> Q (0, s)"
  shows "ensures (sae_check_big_sync s) Q"
  unfolding ensures_def
proof (intro allI impI)
  fix x assume x: "sae_check_big_sync s = Some x"
  obtain r s' where rs: "x = (r, s')" by fastforce
  from check_big_sync_at [OF x [unfolded rs] a] assms(2,3) show "Q x"
    by (cases "n > bc_sae_sync (ap_conf s0)") (auto simp: rs)
qed

lemma at_mesh_if:
  "ap_at s0 s a \<Longrightarrow> (ap_mesh s0 \<Longrightarrow> ensures m Q) \<Longrightarrow> (\<not> ap_mesh s0 \<Longrightarrow> ensures n Q) \<Longrightarrow>
   ensures (if ap_mesh s then m else n) Q"
  by (simp add: ap_at_conf [of s0 s a])

lemma at_timers [wp]:
  "ap_at s0 s a \<Longrightarrow> ap_at s0 (sae_clear_retransmit_timer s) a"
  "ap_at s0 s a \<Longrightarrow> ap_at s0 (sae_set_retransmit_timer s) a"
  "ap_at s0 s a \<Longrightarrow> ap_at s0 (set_timer b s) a"
  by (simp_all add: ap_at_def sae_clear_retransmit_timer_def sae_set_retransmit_timer_def)

lemma at_put_sae: "ap_at s0 s a \<Longrightarrow> sd_state sae = st \<Longrightarrow> sd_sync sae = n \<Longrightarrow> ap_at s0 (put_sae sae s) (st, n)"
  by (simp add: ap_at_def abs_sae_def)

subsection \<open>The state machine\<close>

text \<open>What a transition of the code without acceptance must show.\<close>

definition fsm_post :: "('g, 'q) ap \<Rightarrow> sae_event \<Rightarrow> sae_state \<times> nat \<Rightarrow> ('g, 'q) ap \<Rightarrow> bool" where
  "fsm_post s0 ev a s' \<longleftrightarrow> (\<exists>b. ap_at s0 s' b \<and> sae_fsm (ap_mesh s0) (bc_sae_sync (ap_conf s0)) ev a b \<and>
     (fst b = SAE_ACCEPTED \<longrightarrow> fst a = SAE_ACCEPTED))"

lemma fsm_postI:
  "ap_at s0 s' b \<Longrightarrow> sae_fsm (ap_mesh s0) (bc_sae_sync (ap_conf s0)) ev a b \<Longrightarrow>
   (fst b = SAE_ACCEPTED \<longrightarrow> fst a = SAE_ACCEPTED) \<Longrightarrow> fsm_post s0 ev a s'"
  unfolding fsm_post_def by blast

lemma post_pair: "P s \<Longrightarrow> (\<lambda>(r, s). P s) (r, s)"
  by simp

lemma post_if: "P s \<Longrightarrow> (\<lambda>(r, s). P s) (if b then (r, s) else (r', s))"
  by simp

lemma at_clear_temp:
  "ap_at s0 s a \<Longrightarrow> ap_sae s = Some sae \<Longrightarrow> ap_at s0 (put_sae (sae_clear_temp_data sae) s) a"
  by (simp add: ap_at_def abs_ap_def abs_sae_def sae_clear_temp_data_def)

lemmas fsm_rules = fsm_stay fsm_reset fsm_nothing_commit fsm_nothing_confirm fsm_committed_commit
  fsm_confirmed_commit fsm_accepted_commit fsm_committed_confirm fsm_accept fsm_accepted_confirm
  fsm_big_sync fsm_timeout fsm_init fsm_next_group fsm_token fsm_token_group

lemma sm_nothing_fsm:
  assumes "ap_at s0 s (SAE_NOTHING, n)"
  shows "ensures (sae_sm_nothing env bssid 1 s) (\<lambda>(r, s'). fsm_post s0 RxCommit (SAE_NOTHING, n) s')"
  unfolding sae_sm_nothing_def if_P [OF refl]
  by ((rule at_mesh_if, (rule assms | assumption)) | rule wp assms | assumption | rule post_pair fsm_postI
      | (auto intro: fsm_rules; fail))+

lemma sm_confirmed_commit_fsm:
  assumes "ap_at s0 s (SAE_CONFIRMED, n)"
  shows "ensures (sae_sm_confirmed env bssid 1 s) (\<lambda>(r, s'). fsm_post s0 RxCommit (SAE_CONFIRMED, n) s')"
  unfolding sae_sm_confirmed_def Let_def if_P [OF refl]
  by ((rule at_mesh_if, (rule assms | assumption)) | rule wp assms | assumption | rule post_pair fsm_postI
      | (auto intro: fsm_rules; fail))+

lemma sm_committed_commit_fsm:
  assumes "ap_at s0 s (SAE_COMMITTED, n)" and "ap_mesh s0"
  shows "ensures (sae_sm_committed env bssid 1 s) (\<lambda>(r, s'). fsm_post s0 RxCommit (SAE_COMMITTED, n) s')"
  unfolding sae_sm_committed_def Let_def if_P [OF refl]
  by ((rule at_mesh_if, (rule assms(1) | assumption)) | rule wp assms(1) | assumption | rule post_pair fsm_postI
      | (use assms(2) in \<open>auto intro: fsm_rules; fail\<close>))+

lemma sm_accepted_commit_fsm:
  assumes "ap_at s0 s (SAE_ACCEPTED, n)"
  shows "ensures (sae_sm_accepted env bssid 1 s) (\<lambda>(r, s'). fsm_post s0 RxCommit (SAE_ACCEPTED, n) s')"
  unfolding sae_sm_accepted_def
  by ((rule at_mesh_if, (rule assms | assumption)) | rule wp assms | assumption | rule post_pair fsm_postI
      | (use ap_at_conf [OF assms] in \<open>auto intro: fsm_rules; fail\<close>))+

text \<open>In an infrastructure BSS a Commit never meets the state Committed: the instance is cleared
  first.\<close>

lemma sm_step_commit_fsm:
  assumes "ap_at s0 s a" and "fst a = SAE_COMMITTED \<Longrightarrow> ap_mesh s0"
  shows "ensures (sae_sm_step env bssid 1 s) (\<lambda>(r, s'). fsm_post s0 RxCommit a s')"
proof -
  obtain st n where a: "a = (st, n)" by fastforce
  then obtain sae where sae: "ap_sae s = Some sae" "sd_state sae = st"
    using assms(1) by (auto elim!: ap_atE simp: abs_sae_def)
  show ?thesis
    using assms sm_nothing_fsm [of s0 s n] sm_confirmed_commit_fsm [of s0 s n] sm_committed_commit_fsm [of s0 s n]
      sm_accepted_commit_fsm [of s0 s n]
    by (cases st) (simp_all add: sae_sm_step_def sae a)
qed

text \<open>Acceptance: the authentication flag is set and the PMK of the instance goes to the PMKSA cache.\<close>

definition accepted_post :: "('g, 'q) ap \<Rightarrow> ('g, 'q) sae_data \<Rightarrow> ('g, 'q) ap \<Rightarrow> bool" where
  "accepted_post s0 sae s' \<longleftrightarrow> ap_conf s' = ap_conf s0 \<and> hd_own_addr (ap_hapd s') = hd_own_addr (ap_hapd s0) \<and>
     si_addr (ap_sta s') = si_addr (ap_sta s0) \<and> si_auth (ap_sta s') \<and>
     abs_ap s' = Some (SAE_ACCEPTED, sd_sync sae) \<and>
     pmksa_log s' = PmksaAddSae (si_addr (ap_sta s0)) (sd_pmk sae) (sd_pmkid sae) # pmksa_log s0"

lemma accept_sta_post:
  assumes "ap_keep s0 s" and "ap_sae s = Some sae"
  shows "ensures (sae_accept_sta s) (accepted_post s0 sae)"
  using assms
  by (auto simp: ensures_def sae_accept_sta_def sae_set_state_def Let_def accepted_post_def ap_keep_def
      pmksa_log_def abs_ap_def abs_sae_def ap_put_defs)

lemma accepted_post_sae: 
  "sd_sync sae' = sd_sync sae \<Longrightarrow> sd_pmk sae' = sd_pmk sae \<Longrightarrow> sd_pmkid sae' = sd_pmkid sae \<Longrightarrow>
   accepted_post s0 sae' s' \<Longrightarrow> accepted_post s0 sae s'"
  by (simp add: accepted_post_def)

lemma sm_confirmed_confirm:
  assumes "ap_keep s0 s" and "ap_sae s = Some sae"
  shows "ensures (sae_sm_confirmed env bssid 2 s) (\<lambda>(r, s'). accepted_post s0 sae s')"
proof -
  let ?sae = "sae\<lparr>sd_send_confirm := 0xffff\<rparr>" and ?s = "sae_clear_retransmit_timer s"
  have "ensures (sae_accept_sta (put_sae ?sae ?s)) (accepted_post s0 ?sae)"
    using assms by (intro accept_sta_post) (simp_all add: sae_clear_retransmit_timer_def)
  then have "ensures (sae_accept_sta (put_sae ?sae ?s)) (accepted_post s0 sae)"
    by (rule ensures_mono) (erule accepted_post_sae [rotated 3]; simp)
  then show ?thesis
    using assms by (auto simp: sae_sm_confirmed_def sae_clear_retransmit_timer_def Let_def ensures_def split: Option.bind_splits)
qed

lemma sm_committed_confirm:
  assumes "ap_keep s0 s" and "ap_sae s = Some sae" and "sd_state sae = SAE_COMMITTED" and "\<not> ap_mesh s0"
  shows "ensures (sae_sm_committed env bssid 2 s)
    (\<lambda>(r, s'). ap_at s0 s' (SAE_COMMITTED, sd_sync sae) \<or> accepted_post s0 sae s')"
proof (rule ensures_pairI)
  fix r s' assume run: "sae_sm_committed env bssid 2 s = Some (r, s')"
  let ?s = "sae_clear_retransmit_timer s"
  have k: "ap_keep s0 ?s" "ap_sae ?s = Some sae" "\<not> ap_mesh ?s"
    using assms by (simp_all add: sae_clear_retransmit_timer_def) (simp add: ap_keep_def set_timer_def)
  from run k obtain ret s1 where c: "auth_sae_send_confirm env bssid ?s = Some (ret, s1)"
    by (auto simp: sae_sm_committed_def Let_def split: Option.bind_splits)
  obtain cnt where s1: "ap_keep s0 s1" "ap_sae s1 = Some (sae\<lparr>sd_send_confirm := cnt\<rparr>)"
    using auth_sae_send_confirm_keep [OF c k(2)] k(1) ap_keep_trans by blast
  show "case (r, s') of (r, s') \<Rightarrow> ap_at s0 s' (SAE_COMMITTED, sd_sync sae) \<or> accepted_post s0 sae s'"
  proof (cases "ret = 0")
    case False
    then have "s' = s1" using run k c by (simp add: sae_sm_committed_def Let_def)
    then show ?thesis using s1 assms(3) by (simp add: ap_at_def abs_ap_def abs_sae_def)
  next
    case True
    let ?sae = "sae\<lparr>sd_send_confirm := cnt, sd_state := SAE_CONFIRMED\<rparr>"
    have run2: "sae_sm_confirmed env bssid 2 (put_sae ?sae s1) = Some (r, s')"
      using run k c True s1(2) by (simp add: sae_sm_committed_def Let_def sae_set_state_def)
    have "ensures (sae_sm_confirmed env bssid 2 (put_sae ?sae s1)) (\<lambda>(r, s'). accepted_post s0 ?sae s')"
      using s1(1) by (intro sm_confirmed_confirm) simp_all
    from ensuresD [OF this run2] have "accepted_post s0 ?sae s'" by simp
    then have "accepted_post s0 sae s'" by (rule accepted_post_sae [rotated 3]) simp_all
    then show ?thesis by simp
  qed
qed

lemma sm_committed_confirm_mesh:
  assumes "ap_at s0 s (SAE_COMMITTED, n)" and "ap_mesh s0"
  shows "ensures (sae_sm_committed env bssid 2 s) (\<lambda>(r, s'). fsm_post s0 (RxConfirm v) (SAE_COMMITTED, n) s')"
  unfolding sae_sm_committed_def Let_def
  by ((rule at_mesh_if, (rule wp, rule assms(1))) | rule wp assms(1) | assumption | rule post_pair fsm_postI
      | (use assms(2) in \<open>auto intro: fsm_rules; fail\<close>))+

lemma sm_accepted_confirm:
  assumes "ap_at s0 s (SAE_ACCEPTED, n)"
  shows "ensures (sae_sm_accepted env bssid 2 s) (\<lambda>(r, s'). fsm_post s0 (RxConfirm True) (SAE_ACCEPTED, n) s')"
  unfolding sae_sm_accepted_def Let_def
  by (rule wp assms | assumption | rule post_pair post_if fsm_postI at_clear_temp
      | (auto intro: fsm_rules; fail))+

subsection \<open>The frame handlers\<close>

definition may_accept :: "bool \<Rightarrow> sae_state \<Rightarrow> bool" where
  "may_accept mesh st \<longleftrightarrow> st = SAE_CONFIRMED \<or> st = SAE_COMMITTED \<and> \<not> mesh"

text \<open>After a Confirm: a step of the machine without acceptance, or acceptance after a verified one.\<close>

definition confirm_post :: "('g, 'q) ap \<Rightarrow> bool \<Rightarrow> ('g, 'q) sae_data \<Rightarrow> ('g, 'q) ap \<Rightarrow> bool" where
  "confirm_post s0 v sae s' \<longleftrightarrow> fsm_post s0 (RxConfirm v) (abs_sae sae) s' \<or>
     v \<and> may_accept (ap_mesh s0) (sd_state sae) \<and> accepted_post s0 sae s'"

lemma ap_at_keep: "ap_keep s0 s \<Longrightarrow> ap_sae s = Some sae \<Longrightarrow> ap_at s0 s (abs_sae sae)"
  by (simp add: ap_at_def abs_ap_def)

lemma fsm_post_stay: "ap_at s0 s a \<Longrightarrow> fsm_post s0 ev a s"
  by (rule fsm_postI) (auto intro: fsm_stay)

lemma sm_step_confirm:
  assumes k: "ap_keep s0 s" "ap_sae s = Some sae"
    and v: "v \<or> ap_mesh s0 \<and> (sd_state sae = SAE_NOTHING \<or> sd_state sae = SAE_COMMITTED)"
  shows "ensures (sae_sm_step env bssid 2 s) (\<lambda>(r, s'). confirm_post s0 v sae s')"
proof -
  have at: "ap_at s0 s (sd_state sae, sd_sync sae)" using ap_at_keep [OF k] by (simp add: abs_sae_def)
  show ?thesis
  proof (cases "sd_state sae")
    case SAE_NOTHING
    then show ?thesis
      using k fsm_post_stay [OF at]
      by (simp add: sae_sm_step_def sae_sm_nothing_def ensures_def confirm_post_def abs_sae_def)
  next
    case SAE_COMMITTED
    show ?thesis
    proof (cases "ap_mesh s0")
      case True
      have "ensures (sae_sm_committed env bssid 2 s)
          (\<lambda>(r, s'). fsm_post s0 (RxConfirm v) (SAE_COMMITTED, sd_sync sae) s')"
        using at SAE_COMMITTED True by (intro sm_committed_confirm_mesh) simp_all
      then show ?thesis
        using SAE_COMMITTED k(2) by (auto simp: sae_sm_step_def ensures_def confirm_post_def abs_sae_def)
    next
      case False
      then have v: v using v by simp
      from sm_committed_confirm [OF k SAE_COMMITTED False] have
        "ensures (sae_sm_committed env bssid 2 s) (\<lambda>(r, s'). confirm_post s0 v sae s')"
        using SAE_COMMITTED False v fsm_post_stay [of s0 _ "(SAE_COMMITTED, sd_sync sae)"]
        by (fastforce simp: ensures_def confirm_post_def may_accept_def abs_sae_def)
      then show ?thesis using SAE_COMMITTED k(2) by (simp add: sae_sm_step_def)
    qed
  next
    case SAE_CONFIRMED
    then have "ensures (sae_sm_confirmed env bssid 2 s) (\<lambda>(r, s'). confirm_post s0 v sae s')"
      using sm_confirmed_confirm [OF k] v by (auto simp: ensures_def confirm_post_def may_accept_def)
    then show ?thesis using SAE_CONFIRMED k(2) by (simp add: sae_sm_step_def)
  next
    case SAE_ACCEPTED
    then have "ensures (sae_sm_accepted env bssid 2 s) (\<lambda>(r, s'). confirm_post s0 v sae s')"
      using sm_accepted_confirm [of s0 s "sd_sync sae" env bssid] at v
      by (auto simp: ensures_def confirm_post_def abs_sae_def)
    then show ?thesis using SAE_ACCEPTED k(2) by (simp add: sae_sm_step_def)
  qed
qed

lemma sae_check_confirm_values: "sae_check_confirm L sae var = Some res \<Longrightarrow> res = 0 \<or> res = - 1"
  by (auto simp: sae_check_confirm_def split: if_splits option.splits Option.bind_splits)

lemma confirm_post_rc: "confirm_post s0 v (sae\<lparr>sd_rc := c\<rparr>) s' \<Longrightarrow> confirm_post s0 v sae s'"
  by (auto simp: confirm_post_def abs_sae_def accepted_post_def)

lemma handle_sae_confirm_post:
  assumes k: "ap_keep s0 s" "ap_sae s = Some sae"
  shows "ensures (handle_sae_confirm env mgmt s)
    (\<lambda>(ex, s'). confirm_post s0 (sae_check_confirm (en_L env) sae (af_variable mgmt) = Some 0) sae s')"
proof -
  let ?v = "sae_check_confirm (en_L env) sae (af_variable mgmt) = Some 0"
  have mesh: "ap_mesh s = ap_mesh s0" using k by (simp add: ap_keep_def)
  have stay: "confirm_post s0 ?v sae s"
    using fsm_post_stay [OF ap_at_keep [OF k]] by (simp add: confirm_post_def)
  have verified: "ensures (sae_sm_step env (af_bssid mgmt) 2 (put_sae (sae\<lparr>sd_rc := c\<rparr>) s))
      (\<lambda>(r, s'). confirm_post s0 ?v sae s')" if ?v for c
    using sm_step_confirm [of s0 "put_sae (sae\<lparr>sd_rc := c\<rparr>) s" "sae\<lparr>sd_rc := c\<rparr>" ?v env "af_bssid mgmt"] that k
    by (auto simp: ensures_def intro: confirm_post_rc)
  show ?thesis
  proof (cases "(sd_state sae = SAE_CONFIRMED \<or> sd_state sae = SAE_ACCEPTED) \<or> \<not> ap_mesh s")
    case False
    then have "ensures (sae_sm_step env (af_bssid mgmt) 2 s) (\<lambda>(r, s'). confirm_post s0 ?v sae s')"
      using mesh k by (intro sm_step_confirm) (auto, cases "sd_state sae", auto)
    then show ?thesis
      using False k(2) by (auto simp: handle_sae_confirm_def ensures_def Let_def split: Option.bind_splits)
  next
    case True
    show ?thesis
    proof (cases "sae_check_confirm (en_L env) sae (af_variable mgmt)")
      case None
      then show ?thesis
        using True k(2) stay by (auto simp: handle_sae_confirm_def ensures_def Let_def split: if_splits)
    next
      case (Some res)
      then have "res = - 1 \<or> ?v" using sae_check_confirm_values by auto
      then show ?thesis
      proof
        assume "res = - 1"
        then show ?thesis
          using True k(2) stay Some by (auto simp: handle_sae_confirm_def ensures_def Let_def split: if_splits)
      next
        assume ?v
        then show ?thesis
          using True k(2) stay verified [OF \<open>?v\<close>]
          by (auto simp: handle_sae_confirm_def ensures_def Let_def split: if_splits Option.bind_splits)
      qed
    qed
  qed
qed

lemma fsm_post_restart: "b = a \<or> b = (SAE_NOTHING, 0) \<Longrightarrow> fsm_post s0 RxCommit b s' \<Longrightarrow> fsm_post s0 RxCommit a s'"
  unfolding fsm_post_def by (auto intro: fsm_restart)

lemma auth_build_token_req_keep:
  "auth_build_token_req env grp addr s = Some (d, s') \<Longrightarrow> ap_keep s s' \<and> ap_sae s' = ap_sae s"
  by (auto simp: auth_build_token_req_def Let_def ap_keep_def pmksa_log_def
      split: if_splits prod.splits option.splits Option.bind_splits)

lemma token_req_at: "auth_build_token_req env grp addr s = Some (d, s') \<Longrightarrow> ap_at s0 s a \<Longrightarrow> ap_at s0 s' a"
  by (drule auth_build_token_req_keep) (auto simp: ap_at_def abs_ap_def intro: ap_keep_trans)

lemma at_token_req [wp]:
  "ap_at s0 s a \<Longrightarrow> (\<And>d s'. ap_at s0 s' a \<Longrightarrow> Q (d, s')) \<Longrightarrow> ensures (auth_build_token_req env grp addr s) Q"
  by (rule ensures_pairI) (blast dest: token_req_at)

lemma handle_sae_commit_post:
  assumes k: "ap_keep s0 s" "ap_sae s = Some sae"
  shows "ensures (handle_sae_commit env mgmt s) (\<lambda>(ex, s'). fsm_post s0 RxCommit (abs_sae sae) s')"
proof (rule ensures_pairI)
  fix ex s' assume run: "handle_sae_commit env mgmt s = Some (ex, s')"
  have mesh: "ap_mesh s = ap_mesh s0" using k by (simp add: ap_keep_def)
  define sae1 where "sae1 = (if \<not> ap_mesh s \<and> sd_state sae = SAE_COMMITTED
      then sae_clear_data (sae\<lparr>sd_state := SAE_NOTHING\<rparr>) else sae)"
  from run k obtain resp tok sae2 where
    p: "sae_parse_commit (en_L env) (en_all env) sae1 (af_variable mgmt) (bc_sae_groups (ap_conf s)) =
      Some (resp, tok, sae2)"
    by (auto simp: handle_sae_commit_def sae1_def split: Option.bind_splits)
  obtain st n where a2: "abs_sae sae2 = (st, n)" by fastforce
  have a: "(st, n) = abs_sae sae \<or> (st, n) = (SAE_NOTHING, 0)" and cm: "st = SAE_COMMITTED \<Longrightarrow> ap_mesh s0"
    using abs_sae_parse_commit [OF p] a2 mesh
    by (auto simp: sae1_def abs_sae_def sae_clear_data_def sae_zero_def split: if_splits)
  have at: "ap_at s0 (put_sae sae2 s) (st, n)" using k a2 by (simp add: ap_at_def)
  define rest where "rest = (\<lambda>s. if resp = SAE_SILENTLY_DISCARD then Some (RemoveSta (uint resp), s)
      else if resp = WLAN_STATUS_UNKNOWN_PASSWORD_IDENTIFIER then do {
        s \<leftarrow> sae_set_state SAE_NOTHING (sae_clear_retransmit_timer s);
        Some (RemoveSta (uint resp), s) }
      else if (case tok of None \<Rightarrow> False | Some t \<Rightarrow> check_sae_token s t < 0)
      then Some (RemoveSta (uint WLAN_STATUS_UNSPECIFIED_FAILURE), s)
      else if resp \<noteq> WLAN_STATUS_SUCCESS then Some (Reply (uint resp) None, s)
      else if tok = None \<and> use_sae_anti_clogging s then do {
        (data, s) \<leftarrow> auth_build_token_req env (sd_group sae2) (si_addr (ap_sta s)) s;
        s \<leftarrow> (if ap_mesh s then sae_set_state SAE_NOTHING s else Some s);
        Some (Reply (uint WLAN_STATUS_ANTI_CLOGGING_TOKEN_REQ) (map_option wb_contents data), s) }
      else do {
        (resp, s) \<leftarrow> sae_sm_step env (af_bssid mgmt) 1 s;
        Some (Reply resp None, s) })"
  have eq: "handle_sae_commit env mgmt s = rest (put_sae sae2 s)"
    using k p by (simp add: handle_sae_commit_def sae1_def rest_def Let_def)
  have step: "ensures (sae_sm_step env (af_bssid mgmt) 1 (put_sae sae2 s))
      (\<lambda>x. ensures (case x of (resp, s) \<Rightarrow> Some (Reply resp None, s)) (\<lambda>(ex, s'). fsm_post s0 RxCommit (st, n) s'))"
    using sm_step_commit_fsm [OF at, of env "af_bssid mgmt"] cm by (auto simp: ensures_def)
  have "ensures (rest (put_sae sae2 s)) (\<lambda>(ex, s'). fsm_post s0 RxCommit (st, n) s')"
    unfolding rest_def
    by ((rule at_mesh_if, (rule at | assumption)) | rule wp at step | assumption | rule post_pair fsm_postI
        | (auto intro: fsm_rules; fail))+
  from ensuresD [OF this run [unfolded eq]] show "case (ex, s') of (ex, s') \<Rightarrow> fsm_post s0 RxCommit (abs_sae sae) s'"
    using a by (auto intro: fsm_post_restart)
qed

lemma fsm_post_token:
  "ap_mesh s0 \<Longrightarrow> ap_at s0 s' b \<Longrightarrow> b = a \<or> b = (SAE_NOTHING, 0) \<or> b = (SAE_COMMITTED, 0) \<Longrightarrow> fsm_post s0 Other a s'"
  by (erule fsm_postI) (auto intro: fsm_rules)

lemma handle_token_request_post:
  assumes k: "ap_keep s0 s" "ap_sae s = Some sae" and mesh: "ap_mesh s0"
  shows "ensures (handle_token_request env mgmt s) (\<lambda>(ex, s'). fsm_post s0 Other (abs_sae sae) s')"
proof (cases "length (af_variable mgmt) < 2")
  case True
  then show ?thesis
    using k fsm_post_stay [OF ap_at_keep [OF k]] by (simp add: handle_token_request_def ensures_def Let_def)
next
  case False
  show ?thesis
  proof (rule ensures_pairI)
    fix ex s' assume run: "handle_token_request env mgmt s = Some (ex, s')"
    let ?pos = "af_variable mgmt"
    from run k False obtain resp sae1 where
      g: "sae_group_allowed (en_L env) (en_all env) sae (bc_sae_groups (ap_conf s)) (WPA_GET_LE16 ?pos) = Some (resp, sae1)"
      by (auto simp: handle_token_request_def Let_def split: Option.bind_splits)
    obtain st n where a1: "abs_sae sae1 = (st, n)" by fastforce
    have a: "(st, n) = abs_sae sae \<or> (st, n) = (SAE_NOTHING, 0) \<or> (st, n) = (SAE_COMMITTED, 0)"
      using abs_sae_group_allowed [OF g] a1 by auto
    have at: "ap_at s0 (put_sae sae2 s1) (st, n)"
      if "ap_keep s0 s1" "sd_state sae2 = sd_state sae1" "sd_sync sae2 = sd_sync sae1" for sae2 s1
      using that a1 by (simp add: ap_at_def abs_sae_def)
    define rest where "rest = (\<lambda>tmp token. 
           let s = put_sae (sae1\<lparr>sd_tmp := Some (tmp\<lparr>st_anti_clogging_token := token\<rparr>)\<rparr>) (put_sae sae1 s)
           in if token = None then Some (RemoveSta (uint WLAN_STATUS_UNSPECIFIED_FAILURE), s)
            else do {
              (resp, s) \<leftarrow> auth_sae_send_commit env (af_bssid mgmt) False s;
              (if resp \<noteq> uint WLAN_STATUS_SUCCESS then Some (RemoveSta resp, s)
               else do {
                 s \<leftarrow> sae_set_state SAE_COMMITTED s;
                 s \<leftarrow> sae_reset_sync s;
                 Some (Return, sae_set_retransmit_timer s) }) })"
    have rest: "ensures (rest tmp token) (\<lambda>(ex, s'). fsm_post s0 Other (abs_sae sae) s')" for tmp token
      unfolding rest_def Let_def
      by (rule wp at | assumption | rule post_pair fsm_post_token [OF mesh] | (use k a in \<open>simp; fail\<close>))+
    have run: "(if resp \<noteq> WLAN_STATUS_SUCCESS then Some (Reply (uint resp) None, put_sae sae1 s)
        else do { tmp \<leftarrow> sd_tmp sae1; token \<leftarrow> wpabuf_alloc_copy (en_malloc env) (drop 2 ?pos); rest tmp token }) =
        Some (ex, s')"
      using run k False g unfolding handle_token_request_def rest_def Let_def by simp
    show "case (ex, s') of (ex, s') \<Rightarrow> fsm_post s0 Other (abs_sae sae) s'"
    proof (cases "resp = WLAN_STATUS_SUCCESS")
      case True
      then show ?thesis using run ensuresD [OF rest] by (auto split: Option.bind_splits)
    next
      case False
      have "ap_at s0 (put_sae sae1 s) (st, n)" using at k(1) by simp
      then show ?thesis using run False fsm_post_token [OF mesh _ a] by auto
    qed
  qed
qed

lemma pick_group_loop_abs:
  "pick_group_loop env gs sae = Some sae' \<Longrightarrow> sae' = sae \<or> abs_sae sae' = (SAE_NOTHING, 0)"
proof (induction env gs sae rule: pick_group_loop.induct)
  case (2 env g gs sae)
  then show ?case by (auto split: if_splits prod.splits dest: abs_sae_set_group)
qed simp

lemma sae_pick_next_group_post:
  assumes k: "ap_keep s0 s" "ap_sae s = Some sae"
  shows "ensures (sae_pick_next_group env s) (fsm_post s0 Other (abs_sae sae))"
  unfolding ensures_def
proof (intro allI impI)
  fix s' assume run: "sae_pick_next_group env s = Some s'"
  have "s' = s \<or> sd_state sae = SAE_COMMITTED \<and> (\<exists>sae'. s' = put_sae sae' s \<and> (sae' = sae \<or> abs_sae sae' = (SAE_NOTHING, 0)))"
    using run k
    by (auto simp: sae_pick_next_group_def split: if_splits option.splits list.splits Option.bind_splits
        dest!: pick_group_loop_abs)
  then show "fsm_post s0 Other (abs_sae sae) s'"
  proof (elim disjE conjE exE)
    assume "s' = s"
    then show ?thesis using fsm_post_stay [OF ap_at_keep [OF k]] by simp
  next
    fix sae' assume "s' = put_sae sae' s" "sae' = sae"
    then show ?thesis using k by (intro fsm_post_stay) (simp add: ap_at_def)
  next
    fix sae' assume "sd_state sae = SAE_COMMITTED" "s' = put_sae sae' s" "abs_sae sae' = (SAE_NOTHING, 0)"
    then show ?thesis
      using k by (intro fsm_postI [of _ _ "(SAE_NOTHING, 0)"]) (auto simp: ap_at_def abs_sae_def intro: fsm_rules)
  qed
qed

subsection \<open>The refinement\<close>

text \<open>A station without an SAE instance is in the state Nothing.\<close>

definition abs_st :: "('g, 'q) ap \<Rightarrow> sae_state \<times> nat" where
  "abs_st s = (case ap_sae s of None \<Rightarrow> (SAE_NOTHING, 0) | Some sae \<Rightarrow> abs_sae sae)"

definition confirm_verified :: "('g, 'q) env \<Rightarrow> auth_frame \<Rightarrow> ('g, 'q) ap \<Rightarrow> bool" where
  "confirm_verified env mgmt s \<longleftrightarrow>
     (case ap_sae s of None \<Rightarrow> False
      | Some sae \<Rightarrow> sae_check_confirm (en_L env) sae (af_variable mgmt) = Some 0)"

definition frame_event :: "('g, 'q) env \<Rightarrow> auth_frame \<Rightarrow> u16 \<Rightarrow> u16 \<Rightarrow> ('g, 'q) ap \<Rightarrow> sae_event" where
  "frame_event env mgmt auth_transaction status_code s =
     (if status_code \<noteq> WLAN_STATUS_SUCCESS then Other
      else if auth_transaction = 1 then RxCommit
      else if auth_transaction = 2 then RxConfirm (confirm_verified env mgmt s)
      else Other)"

text \<open>A step of the machine in which the station is not newly accepted.\<close>

definition keeps_fsm :: "('g, 'q) ap \<Rightarrow> sae_event \<Rightarrow> ('g, 'q) ap \<Rightarrow> bool" where
  "keeps_fsm s ev s' \<longleftrightarrow> ap_keep s s' \<and>
     sae_fsm (ap_mesh s) (bc_sae_sync (ap_conf s)) ev (abs_st s) (abs_st s') \<and>
     (fst (abs_st s') = SAE_ACCEPTED \<longrightarrow> fst (abs_st s) = SAE_ACCEPTED)"

text \<open>After a frame: the instance may have just been created; otherwise as above.\<close>

definition frame_post :: "('g, 'q) ap \<Rightarrow> sae_event \<Rightarrow> ('g, 'q) ap \<Rightarrow> bool" where
  "frame_post s ev s' \<longleftrightarrow>
     keeps_fsm s ev s' \<or>
     (\<exists>sae. ap_sae s = Some sae \<and> ev = RxConfirm True \<and> may_accept (ap_mesh s) (sd_state sae) \<and>
            accepted_post s sae s')"

lemma frame_postI: "fsm_post s ev (abs_st s) s' \<Longrightarrow> frame_post s ev s'"
  by (auto simp: frame_post_def keeps_fsm_def fsm_post_def ap_at_def abs_ap_def abs_st_def)

lemma frame_post_confirm:
  assumes "ap_sae s = Some sae" and "confirm_post s v sae s'"
  shows "frame_post s (RxConfirm v) s'"
  using assms(2) unfolding confirm_post_def
proof
  assume "fsm_post s (RxConfirm v) (abs_sae sae) s'"
  then show ?thesis using assms(1) by (intro frame_postI) (simp add: abs_st_def)
next
  assume "v \<and> may_accept (ap_mesh s) (sd_state sae) \<and> accepted_post s sae s'"
  then show ?thesis using assms(1) by (simp add: frame_post_def)
qed

lemma auth_sae_exit_keep:
  "ap_keep s (auth_sae_exit env mgmt tr status ex s) \<and> ap_sae (auth_sae_exit env mgmt tr status ex s) = ap_sae s"
proof -
  have rm: "ap_keep s' (auth_sae_remove_sta resp status s')" "ap_sae (auth_sae_remove_sta resp status s') = ap_sae s'"
    for resp and s' :: "('a, 'b) ap"
    by (simp_all add: auth_sae_remove_sta_def ap_put_defs pmksa_log_def ap_keep_def)
  show ?thesis
  proof (cases ex)
    case (Reply resp data)
    obtain r s2 where s2: "send_auth_reply env (af_sa mgmt) (af_bssid mgmt) WLAN_AUTH_SAE tr
        (word_of_int resp) (case data of None \<Rightarrow> [] | Some d \<Rightarrow> d) s = (r, s2)" by fastforce
    from send_auth_reply_keep [OF s2] show ?thesis
      using rm by (auto simp: auth_sae_exit_def Reply s2 intro: ap_keep_trans)
  qed (simp_all add: auth_sae_exit_def rm)
qed

lemma frame_post_exit:
  assumes "frame_post s ev s1"
  shows "frame_post s ev (auth_sae_exit env mgmt tr status ex s1)"
  using assms auth_sae_exit_keep [of s1 env mgmt tr status ex]
  by (auto simp: frame_post_def keeps_fsm_def accepted_post_def abs_st_def abs_ap_def ap_keep_def)

lemma handle_auth_sae_body_post:
  "ensures (handle_auth_sae_body env mgmt tr status s) (\<lambda>(ex, s'). frame_post s (frame_event env mgmt tr status s) s')"
proof -
  define s1 where "s1 = (if ap_sae s = None then put_sae sae_zero s else s)"
  define s2 where "s2 = (if si_mesh_sae_pmksa_caching (ap_sta s1)
     then log_event (PmksaRemove (si_addr (ap_sta s1))) (put_sta ((ap_sta s1)\<lparr>si_mesh_sae_pmksa_caching := False\<rparr>) s1)
     else s1)"
  obtain sae where sae: "ap_sae s2 = Some sae" "abs_sae sae = abs_st s" and old: "ap_sae s = None \<or> ap_sae s = Some sae"
    by (cases "ap_sae s") (auto simp: s2_def s1_def ap_put_defs abs_st_def abs_sae_def sae_zero_def)
  have keep: "ap_keep s s2" by (simp add: s2_def s1_def ap_keep_def ap_put_defs pmksa_log_def)
  have mesh: "ap_mesh s2 = ap_mesh s" using keep by (simp add: ap_keep_def)
  have stay: "frame_post s ev s2" for ev
    using fsm_post_stay [OF ap_at_keep [OF keep sae(1)], of ev] sae(2) by (intro frame_postI) simp
  have stay0: "frame_post s ev s" for ev by (simp add: frame_post_def keeps_fsm_def fsm_stay)
  have lift: "ensures m (\<lambda>(ex, s'). frame_post s ev s')"
    if "ensures m (\<lambda>(ex, s'). fsm_post s ev (abs_sae sae) s')" for m ev
    using that sae(2) by (auto simp: ensures_def intro: frame_postI)
  have commit: "ensures (handle_sae_commit env mgmt s2) (\<lambda>(ex, s'). frame_post s RxCommit s')"
    by (rule lift [OF handle_sae_commit_post [OF keep sae(1)]])
  have token: "ensures (handle_token_request env mgmt s2) (\<lambda>(ex, s'). frame_post s Other s')" if "ap_mesh s"
    by (rule lift [OF handle_token_request_post [OF keep sae(1) that]])
  have pick: "ensures (do { s \<leftarrow> sae_pick_next_group env s2; Some (RemoveSta 0, s) }) (\<lambda>(ex, s'). frame_post s Other s')"
    using sae_pick_next_group_post [OF keep sae(1), of env] by (intro lift) (auto simp: ensures_def split: Option.bind_splits)
  have confirm: "ensures (handle_sae_confirm env mgmt s2) (\<lambda>(ex, s'). frame_post s (RxConfirm (confirm_verified env mgmt s)) s')"
    if "ap_sae s = Some sae"
    using handle_sae_confirm_post [OF keep sae(1), of env mgmt] that
    by (auto simp: ensures_def confirm_verified_def dest!: frame_post_confirm [OF that])
  have st: "WLAN_STATUS_ANTI_CLOGGING_TOKEN_REQ \<noteq> WLAN_STATUS_SUCCESS"
    "WLAN_STATUS_FINITE_CYCLIC_GROUP_NOT_SUPPORTED \<noteq> WLAN_STATUS_SUCCESS" by (simp_all add: wlan_status)
  have other: "frame_event env mgmt tr status s = Other" if "status \<noteq> WLAN_STATUS_SUCCESS"
    using that by (simp add: frame_event_def)
  have ev: "frame_event env mgmt 1 WLAN_STATUS_SUCCESS s = RxCommit"
    "frame_event env mgmt 2 WLAN_STATUS_SUCCESS s = RxConfirm (confirm_verified env mgmt s)"
    by (simp_all add: frame_event_def)
  show ?thesis
  proof (cases "ap_sae s = None \<and> (tr \<noteq> 1 \<or> status \<noteq> WLAN_STATUS_SUCCESS) \<or> ap_sae s = None \<and> \<not> os_zalloc_ok (en_L env)")
    case True
    then show ?thesis using stay0 by (auto simp: handle_auth_sae_body_def ensures_def)
  next
    case False
    then have c: "\<not> (ap_sae s = None \<and> (tr \<noteq> 1 \<or> status \<noteq> WLAN_STATUS_SUCCESS))"
      "\<not> (ap_sae s = None \<and> \<not> os_zalloc_ok (en_L env))" by auto
    let ?body = "if tr = 1 then
           (if ap_mesh s2 \<and> status = WLAN_STATUS_ANTI_CLOGGING_TOKEN_REQ \<and> sd_tmp sae \<noteq> None
            then handle_token_request env mgmt s2
            else if ap_mesh s2 \<and> status = WLAN_STATUS_FINITE_CYCLIC_GROUP_NOT_SUPPORTED \<and> sd_tmp sae \<noteq> None
            then do { s \<leftarrow> sae_pick_next_group env s2; Some (RemoveSta 0, s) }
            else if status \<noteq> WLAN_STATUS_SUCCESS then Some (RemoveSta 0, s2)
            else handle_sae_commit env mgmt s2)
         else if tr = 2 then
           (if status \<noteq> WLAN_STATUS_SUCCESS then Some (RemoveSta 0, s2)
            else handle_sae_confirm env mgmt s2)
         else if status \<noteq> WLAN_STATUS_SUCCESS then Some (RemoveSta 0, s2)
         else Some (Reply (uint WLAN_STATUS_UNKNOWN_AUTH_TRANSACTION) None, s2)"
    have "handle_auth_sae_body env mgmt tr status s = ?body"
      unfolding handle_auth_sae_body_def Let_def if_not_P [OF c(1)] if_not_P [OF c(2)] s1_def [symmetric]
        s2_def [symmetric] sae(1) Option.bind.bind_lunit ..
    moreover have "ensures ?body (\<lambda>(ex, s'). frame_post s (frame_event env mgmt tr status s) s')"
    proof (intro ensures_if ensures_Some)
      assume "ap_mesh s2 \<and> status = WLAN_STATUS_ANTI_CLOGGING_TOKEN_REQ \<and> sd_tmp sae \<noteq> None"
      then show "ensures (handle_token_request env mgmt s2) (\<lambda>(ex, s'). frame_post s (frame_event env mgmt tr status s) s')"
        using token mesh other st by simp
    next
      assume "ap_mesh s2 \<and> status = WLAN_STATUS_FINITE_CYCLIC_GROUP_NOT_SUPPORTED \<and> sd_tmp sae \<noteq> None"
      then show "ensures (do { s \<leftarrow> sae_pick_next_group env s2; Some (RemoveSta 0, s) })
          (\<lambda>(ex, s'). frame_post s (frame_event env mgmt tr status s) s')"
        using pick other st by simp
    next
      assume "tr = 1" "\<not> status \<noteq> WLAN_STATUS_SUCCESS"
      then show "ensures (handle_sae_commit env mgmt s2) (\<lambda>(ex, s'). frame_post s (frame_event env mgmt tr status s) s')"
        using commit ev by simp
    next
      assume "tr \<noteq> 1" "tr = 2" "\<not> status \<noteq> WLAN_STATUS_SUCCESS"
      then show "ensures (handle_sae_confirm env mgmt s2) (\<lambda>(ex, s'). frame_post s (frame_event env mgmt tr status s) s')"
        using confirm old ev c by auto
    qed (simp_all add: stay)
    ultimately show ?thesis by simp
  qed
qed

lemma handle_auth_sae_post:
  "ensures (handle_auth_sae env mgmt tr status s) (frame_post s (frame_event env mgmt tr status s))"
  using handle_auth_sae_body_post [of env mgmt tr status s]
  by (auto simp: handle_auth_sae_def ensures_def split: Option.bind_splits intro: frame_post_exit)

lemma frame_post_fsm:
  assumes "frame_post s ev s'"
  shows "sae_fsm (ap_mesh s) (bc_sae_sync (ap_conf s)) ev (abs_st s) (abs_st s')"
  using assms unfolding frame_post_def keeps_fsm_def
proof (elim disjE exE conjE)
  fix sae
  assume sae: "ap_sae s = Some sae" "ev = RxConfirm True" "may_accept (ap_mesh s) (sd_state sae)" "accepted_post s sae s'"
  then have "abs_st s' = (SAE_ACCEPTED, sd_sync sae)" "abs_st s = (sd_state sae, sd_sync sae)"
    by (auto simp: accepted_post_def abs_ap_def abs_st_def abs_sae_def)
  with sae(2,3) show ?thesis by (auto simp: may_accept_def intro: fsm_accept)
qed

subsection \<open>Runs\<close>

text \<open>The timeout and the initiation of an exchange.\<close>

lemma fsm_post_keeps: "ap_sae s = Some sae \<Longrightarrow> fsm_post s ev (abs_sae sae) s' \<Longrightarrow> keeps_fsm s ev s'"
  by (auto simp: keeps_fsm_def fsm_post_def ap_at_def abs_ap_def abs_st_def)

lemma ap_at_self: "ap_sae s = Some sae \<Longrightarrow> ap_at s s (sd_state sae, sd_sync sae)"
  by (simp add: ap_at_def abs_ap_def abs_sae_def)

lemma retransmit_timer_post: "ensures (auth_sae_retransmit_timer env s) (keeps_fsm s Timeout)"
proof (cases "ap_sae s")
  case None
  then show ?thesis by (simp add: auth_sae_retransmit_timer_def sae_check_big_sync_def ensures_def)
next
  case (Some sae)
  have case_state: "ensures (case st of SAE_NOTHING \<Rightarrow> m1 | SAE_COMMITTED \<Rightarrow> m2 | SAE_CONFIRMED \<Rightarrow> m3 | SAE_ACCEPTED \<Rightarrow> m4) Q"
    if "ensures m1 Q" "ensures m2 Q" "ensures m3 Q" "ensures m4 Q" for st m1 m2 m3 m4 and Q :: "('a, 'b) ap \<Rightarrow> bool"
    using that by (cases st) simp_all
  have "ensures (auth_sae_retransmit_timer env s) (fsm_post s Timeout (sd_state sae, sd_sync sae))"
    unfolding auth_sae_retransmit_timer_def
    by (rule wp ap_at_self [OF Some] | assumption | rule case_state | rule fsm_postI | (auto intro: fsm_rules; fail))+
  then show ?thesis using fsm_post_keeps [OF Some] by (auto simp: ensures_def abs_sae_def)
qed

lemma init_committed_post: "ensures (auth_sae_init_committed env s) (\<lambda>(r, s'). keeps_fsm s InitEvent s')"
proof (cases "ap_sae s")
  case None
  then show ?thesis by (simp add: auth_sae_init_committed_def ensures_def keeps_fsm_def fsm_stay)
next
  case (Some sae)
  show ?thesis
  proof (cases "sd_tmp sae = None \<or> sd_state sae \<noteq> SAE_NOTHING")
    case True
    then show ?thesis using Some by (simp add: auth_sae_init_committed_def ensures_def keeps_fsm_def fsm_stay)
  next
    case False
    then have st: "sd_state sae = SAE_NOTHING" by simp
    have at: "ap_at s s (SAE_NOTHING, sd_sync sae)" using ap_at_self [OF Some] st by simp
    have "ensures (auth_sae_init_committed env s) (\<lambda>(r, s'). fsm_post s InitEvent (SAE_NOTHING, sd_sync sae) s')"
      unfolding auth_sae_init_committed_def Some option.case if_not_P [OF False]
      by (rule wp at | assumption | rule post_pair fsm_postI | (auto intro: fsm_rules; fail))+
    then show ?thesis using fsm_post_keeps [OF Some] st by (auto simp: ensures_def abs_sae_def)
  qed
qed

text \<open>Everything that can happen to a station entry: a frame arrives, the timeout runs, the mesh code
  starts an exchange (having set up the instance in the state Nothing), time passes and the random
  number generator and the driver act.\<close>

inductive ap_step :: "('g, 'q) env \<Rightarrow> ('g, 'q) ap \<Rightarrow> ('g, 'q) ap \<Rightarrow> bool" for env where
  step_frame: "handle_auth_sae env mgmt tr status s = Some s' \<Longrightarrow> ap_step env s s'"
| step_timeout: "si_timer (ap_sta s) \<Longrightarrow> auth_sae_retransmit_timer env s = Some s' \<Longrightarrow> ap_step env s s'"
| step_init: "auth_sae_init_committed env s = Some (r, s') \<Longrightarrow> ap_step env s s'"
| step_setup: "sd_state sae = SAE_NOTHING \<Longrightarrow> sd_sync sae = 0 \<Longrightarrow> ap_step env s (put_sae sae s)"
| step_world: "ap_step env s (s\<lparr>ap_rnd := rnd, ap_tx := tx, ap_now := now\<rparr>)"

definition ap_init :: "('g, 'q) ap \<Rightarrow> bool" where
  "ap_init s \<longleftrightarrow> ap_sae s = None \<and> \<not> si_auth (ap_sta s) \<and> ap_log s = []"

inductive ap_reach :: "('g, 'q) env \<Rightarrow> ('g, 'q) ap \<Rightarrow> bool" for env where
  reach_init: "ap_init s \<Longrightarrow> ap_reach env s"
| reach_step: "ap_reach env s \<Longrightarrow> ap_step env s s' \<Longrightarrow> ap_reach env s'"

text \<open>The invariant: Sync is bounded, and an accepted station is marked as authenticated and has an
  entry in the PMKSA cache.\<close>

definition ap_inv :: "('g, 'q) ap \<Rightarrow> bool" where
  "ap_inv s \<longleftrightarrow> snd (abs_st s) \<le> bc_sae_sync (ap_conf s) + 1 \<and>
     (fst (abs_st s) = SAE_ACCEPTED \<longrightarrow> si_auth (ap_sta s) \<and>
        (\<exists>pmk pmkid. PmksaAddSae (si_addr (ap_sta s)) pmk pmkid \<in> set (ap_log s)))"

lemma pmksa_log_mem: "PmksaAddSae a p q \<in> set (ap_log s) \<longleftrightarrow> PmksaAddSae a p q \<in> set (pmksa_log s)"
  by (simp add: pmksa_log_def)

lemma keeps_fsm_inv:
  assumes "keeps_fsm s ev s'" and "ap_inv s"
  shows "ap_inv s'"
  using assms fsm_sync_bound [of "ap_mesh s" "bc_sae_sync (ap_conf s)" ev "abs_st s" "abs_st s'"]
  by (auto simp: ap_inv_def keeps_fsm_def ap_keep_def pmksa_log_mem)

lemma accepted_post_inv:
  assumes "accepted_post s sae s'" and "ap_sae s = Some sae" and "ap_inv s"
  shows "ap_inv s'"
  using assms by (auto simp: ap_inv_def accepted_post_def pmksa_log_mem abs_st_def abs_ap_def abs_sae_def)

lemma ap_step_inv: "ap_step env s s' \<Longrightarrow> ap_inv s \<Longrightarrow> ap_inv s'"
proof (induction rule: ap_step.induct)
  case (step_frame mgmt tr status s s')
  from ensuresD [OF handle_auth_sae_post step_frame(1)] step_frame(2) show ?case
    unfolding frame_post_def by (auto intro: keeps_fsm_inv accepted_post_inv)
next
  case (step_timeout s s')
  then show ?case using ensuresD [OF retransmit_timer_post] keeps_fsm_inv by blast
next
  case (step_init s r s')
  then show ?case using ensuresD [OF init_committed_post] keeps_fsm_inv by fastforce
next
  case (step_setup sae s)
  then show ?case by (simp add: ap_inv_def abs_st_def abs_sae_def put_sae_def)
next
  case (step_world s rnd tx now)
  then show ?case by (simp add: ap_inv_def abs_st_def)
qed

end
