(* ===== verification/SaeParse.thy ===== *)
theory SaeParse
  imports SaeEcc
begin

text \<open>
  What a Commit frame that \<^verbatim>\<open>sae_parse_commit\<close> accepts is guaranteed to hold: the checks of the scalar,
  of the element and against reflection, for both kinds of group and for arbitrary input.
\<close>

lemma sae_parse_commitE:
  assumes "sae_parse_commit L all sae data gs = Some (WLAN_STATUS_SUCCESS, tok, sae')"
  obtains sae1 tmp1 pos sae2 pos2 tmp2 pos3 tmp3 where
    "2 \<le> length data" "sae_group_allowed L all sae gs (WPA_GET_LE16 data) = Some (WLAN_STATUS_SUCCESS, sae1)"
    "sd_tmp sae1 = Some tmp1" "sae_parse_commit_token tmp1 (drop 2 data) = (tok, pos)"
    "sae_parse_commit_scalar L sae1 tmp1 pos = Some (WLAN_STATUS_SUCCESS, sae2, pos2)"
    "sae_parse_commit_element L tmp1 pos2 = Some (WLAN_STATUS_SUCCESS, tmp2, pos3)"
    "sae_parse_password_identifier L tmp2 pos3 = (WLAN_STATUS_SUCCESS, tmp3)"
    "sae' = sae2\<lparr>sd_tmp := Some tmp3\<rparr>" "sae_is_reflection L sae' tmp3 = Some False"
proof -
  have ne: "WLAN_STATUS_UNSPECIFIED_FAILURE \<noteq> WLAN_STATUS_SUCCESS" "SAE_SILENTLY_DISCARD \<noteq> WLAN_STATUS_SUCCESS"
    by (simp_all add: wlan_status)
  show thesis
    using assms ne that
    by (auto simp: sae_parse_commit_def Let_def split: Option.bind_splits if_splits prod.splits)
qed

text \<open>The fields of the instance that parsing leaves alone.\<close>

lemma parse_scalar_success:
  assumes "sae_parse_commit_scalar L sae tmp pos = Some (WLAN_STATUS_SUCCESS, sae', pos')"
  shows "\<exists>s r. crypto_bignum_init_set L (take (st_prime_len tmp) pos) = Some s \<and> st_order tmp = Some r \<and>
     s \<noteq> 0 \<and> s \<noteq> 1 \<and> crypto_bignum_cmp L s r < 0 \<and> sae' = sae\<lparr>sd_peer_commit_scalar := Some s\<rparr>"
  using assms
  by (auto simp: sae_parse_commit_scalar_def Let_def wlan_status crypto_bignum_is_zero_def crypto_bignum_is_one_def
      split: if_splits option.splits Option.bind_splits)

lemma parse_element_own:
  assumes "sae_parse_commit_element L tmp pos = Some (res, tmp', pos')"
  shows "\<exists>f e. tmp' = tmp\<lparr>st_peer_commit_element_ffc := f, st_peer_commit_element_ecc := e\<rparr>"
proof -
  have "tmp' = tmp\<lparr>st_peer_commit_element_ffc := st_peer_commit_element_ffc tmp',
                   st_peer_commit_element_ecc := st_peer_commit_element_ecc tmp'\<rparr>"
    using assms
    by (auto simp: sae_parse_commit_element_def sae_parse_commit_element_ecc_def sae_parse_commit_element_ffc_def Let_def
        split: if_splits option.splits Option.bind_splits)
  then show ?thesis by blast
qed

lemma parse_password_identifier_own:
  assumes "sae_parse_password_identifier L tmp pos = (res, tmp')"
  shows "\<exists>w. tmp' = tmp\<lparr>st_pw_id := w\<rparr>"
proof -
  have "tmp' = tmp\<lparr>st_pw_id := st_pw_id tmp'\<rparr>"
    using assms by (auto simp: sae_parse_password_identifier_def Let_def split: if_splits)
  then show ?thesis by blast
qed

lemma parse_element_ecc_success:
  assumes "sae_parse_commit_element L tmp pos = Some (WLAN_STATUS_SUCCESS, tmp', pos')" and "st_dh tmp = None"
  shows "\<exists>ec q. st_ec tmp = Some ec \<and> crypto_ec_point_from_bin L ec pos = Some q \<and>
     st_peer_commit_element_ecc tmp' = Some q \<and> crypto_ec_point_is_on_curve L ec q"
  using assms
  by (auto simp: sae_parse_commit_element_def sae_parse_commit_element_ecc_def Let_def wlan_status
      split: if_splits option.splits Option.bind_splits)

context openssl_bn
begin

lemma parse_element_ffc_success:
  assumes "sae_parse_commit_element L tmp pos = Some (WLAN_STATUS_SUCCESS, tmp', pos')" and "st_dh tmp \<noteq> None"
    and "st_prime tmp = Some p" "1 < p" "st_order tmp = Some r"
  shows "\<exists>e. st_peer_commit_element_ffc tmp' = Some e \<and> 1 < e \<and> e < p - 1 \<and> e ^ r mod p = 1"
  using assms
  by (auto simp: sae_parse_commit_element_def sae_parse_commit_element_ffc_def Let_def bn_ops wlan_status be_val_def
      split: if_splits option.splits Option.bind_splits)

end

text \<open>C9: Soundness of the Commit checks.  Whatever the peer sends, a Commit that is accepted left in the
  instance a scalar strictly between 1 and the order of the group; over a finite field an element \<open>e\<close>
  with 1 < e < p - 1 in the subgroup of that order, over a curve a point on the curve; and the scalar
  and element are not our own sent back.\<close>

theorem sae_parse_commit_sound:
  assumes "openssl_bn L"
    and "sae_parse_commit L all sae data gs = Some (WLAN_STATUS_SUCCESS, tok, sae')"
  shows "\<exists>tmp s r. sd_tmp sae' = Some tmp \<and> sd_peer_commit_scalar sae' = Some s \<and> st_order tmp = Some r \<and>
     1 < s \<and> s < r \<and> sae_is_reflection L sae' tmp = Some False \<and>
     (case st_dh tmp of
        Some dh \<Rightarrow> \<forall>p. st_prime tmp = Some p \<and> 1 < p \<longrightarrow>
          (\<exists>e. st_peer_commit_element_ffc tmp = Some e \<and> 1 < e \<and> e < p - 1 \<and> e ^ r mod p = 1)
      | None \<Rightarrow> \<exists>ec q. st_ec tmp = Some ec \<and> st_peer_commit_element_ecc tmp = Some q \<and>
          crypto_ec_point_is_on_curve L ec q)"
  using assms(2)
proof (rule sae_parse_commitE)
  fix sae1 tmp1 pos sae2 pos2 tmp2 pos3 tmp3
  assume sc: "sae_parse_commit_scalar L sae1 tmp1 pos = Some (WLAN_STATUS_SUCCESS, sae2, pos2)"
    and el: "sae_parse_commit_element L tmp1 pos2 = Some (WLAN_STATUS_SUCCESS, tmp2, pos3)"
    and id: "sae_parse_password_identifier L tmp2 pos3 = (WLAN_STATUS_SUCCESS, tmp3)"
    and sae': "sae' = sae2\<lparr>sd_tmp := Some tmp3\<rparr>" and refl: "sae_is_reflection L sae' tmp3 = Some False"
  from parse_scalar_success [OF sc] obtain s r where
    s: "st_order tmp1 = Some r" "s \<noteq> 0" "s \<noteq> 1" "crypto_bignum_cmp L s r < 0" "sd_peer_commit_scalar sae2 = Some s"
    by auto
  then have "1 < s \<and> s < r"
    by (auto simp: openssl_bn.bn_ops [OF assms(1)] split: if_splits)
  moreover have own: "st_order tmp3 = st_order tmp1" "st_dh tmp3 = st_dh tmp1" "st_prime tmp3 = st_prime tmp1"
    "st_ec tmp3 = st_ec tmp1" "st_peer_commit_element_ffc tmp3 = st_peer_commit_element_ffc tmp2"
    "st_peer_commit_element_ecc tmp3 = st_peer_commit_element_ecc tmp2"
    using parse_password_identifier_own [OF id] parse_element_own [OF el] by auto
  moreover have "case st_dh tmp3 of
        Some dh \<Rightarrow> \<forall>p. st_prime tmp3 = Some p \<and> 1 < p \<longrightarrow>
          (\<exists>e. st_peer_commit_element_ffc tmp3 = Some e \<and> 1 < e \<and> e < p - 1 \<and> e ^ r mod p = 1)
      | None \<Rightarrow> \<exists>ec q. st_ec tmp3 = Some ec \<and> st_peer_commit_element_ecc tmp3 = Some q \<and>
          crypto_ec_point_is_on_curve L ec q"
    unfolding own
    using parse_element_ecc_success [OF el] openssl_bn.parse_element_ffc_success [OF assms(1) el _ _ _ s(1)]
    by (auto split: option.split)
  ultimately show ?thesis using sae' refl s by simp
qed

text \<open>The witness, over the reference curve: the first Commit of a station, with the point (1, 2).\<close>

definition ref_tmp1 :: "(unit, nat) sae_temporary_data" where
  "ref_tmp1 = sae_tmp_zero\<lparr>st_ec := Some ref_ec, st_prime_len := 1, st_prime := Some 7, st_order := Some 13\<rparr>"

definition ref_sae1 :: "(unit, nat) sae_data" where
  "ref_sae1 = sae_zero\<lparr>sd_group := 19, sd_tmp := Some ref_tmp1\<rparr>"

lemma ref_set_group: "sae_set_group ref_curve all sae_zero 19 = (0, ref_sae1)"
  by (simp add: sae_set_group_def Let_def sae_clear_data_def ref_curve_init ref_curve.alloc ref_sae1_def ref_tmp1_def
      ref_crypto_ec_prime_len crypto_ec_get_prime_def crypto_ec_get_order_def)
   (simp add: ref_ec_def)

lemma ref_ready1: "ecc_ready ref_curve ref_ec 19 None ref_sae1 ref_tmp1"
  by (simp add: ecc_ready_def ref_sae1_def sae_zero_def ecc_instance_def ref_tmp1_def sae_tmp_zero_def
      group_listed_def ref_crypto_ec_prime_len) (simp add: ref_ec_def)

lemma ref_group_allowed: "sae_group_allowed ref_curve True sae_zero None 19 = Some (WLAN_STATUS_SUCCESS, ref_sae1)"
  by (simp add: sae_group_allowed_def ref_set_group Let_def)
   (simp add: ref_sae1_def ref_tmp1_def sae_zero_def sae_tmp_zero_def)

definition ref_commit_frame :: bytes where
  "ref_commit_frame = commit_msg 19 [] (be_bytes 1 6) (ecc_bin ref_curve ref_ec 1) None"

lemma ref_first_commit:
  "sae_parse_commit ref_curve True sae_zero ref_commit_frame None = Some (WLAN_STATUS_SUCCESS, None,
     ref_sae1\<lparr>sd_peer_commit_scalar := Some 6,
              sd_tmp := Some (ref_tmp1\<lparr>st_peer_commit_element_ecc := Some 1, st_pw_id := None\<rparr>)\<rparr>)"
proof -
  have sae: "sd_tmp ref_sae1 = Some ref_tmp1" "sd_group ref_sae1 = 19" "sd_state ref_sae1 = SAE_NOTHING"
    "st_own_commit_element_ecc ref_tmp1 = None" "st_pw_id ref_tmp1 = None"
    by (simp_all add: ref_sae1_def ref_tmp1_def sae_zero_def sae_tmp_zero_def)
  have inst: "ecc_instance ref_curve ref_ec ref_tmp1" using ref_ready1 by (simp add: ecc_ready_def)
  have le16: "WPA_GET_LE16 ref_commit_frame = 19" by (simp add: ref_commit_frame_def commit_msg_def get_put_le16)
  have again: "sae_group_allowed ref_curve True ref_sae1 None 19 = Some (WLAN_STATUS_SUCCESS, ref_sae1)"
    using ref_ec.group_allowed_ecc [OF sae(1) inst, of 19 None] sae by (simp add: group_listed_def)
  have "sae_parse_commit ref_curve True sae_zero ref_commit_frame None = sae_parse_commit ref_curve True ref_sae1 ref_commit_frame None"
    by (simp add: sae_parse_commit_def le16 again ref_group_allowed) (simp add: ref_commit_frame_def commit_msg_def)
  also have "\<dots> = Some (WLAN_STATUS_SUCCESS, None, ref_sae1\<lparr>sd_peer_commit_scalar := Some 6,
              sd_tmp := Some (ref_tmp1\<lparr>st_peer_commit_element_ecc := Some 1, st_pw_id := None\<rparr>)\<rparr>)"
    using ref_ec.sae_parse_commit_ecc [OF sae(1) inst, of 19 None 6 1 None True] sae
    by (simp add: ref_commit_frame_def ref_crypto_ec_prime_len group_listed_def ident_ok_def) (simp add: ref_ec_def)
  finally show ?thesis .
qed

theorem sae_parse_commit_sound_witness:
  "\<exists>sae' tmp s. sae_parse_commit ref_curve True sae_zero ref_commit_frame None = Some (WLAN_STATUS_SUCCESS, None, sae') \<and>
     sd_tmp sae' = Some tmp \<and> sd_peer_commit_scalar sae' = Some s \<and> 1 < s"
  using sae_parse_commit_sound [OF ref_curve.openssl_bn_axioms ref_first_commit] ref_first_commit by auto

end
