(* ===== verification/SaeSec.thy ===== *)
theory SaeSec
  imports SaeFsm SaeParse
begin

text \<open>
  What the SAE code of the access point guarantees: the refinement of the abstract state machine, who
  is accepted and when, what holds in every reachable state, the anti-clogging tokens, and the two
  runs in which the code uses a missing pointer or freed memory.
\<close>

subsection \<open>The refinement and acceptance\<close>

text \<open>C6: Every authentication frame with algorithm SAE, whatever its content, transaction number and
  status, that the handler processes to the end moves the station's protocol state and Sync counter
  as one step of the abstract SAE state machine.\<close>

theorem handle_auth_sae_refines:
  "ensures (handle_auth_sae env mgmt tr status s)
     (\<lambda>s'. sae_fsm (ap_mesh s) (bc_sae_sync (ap_conf s)) (frame_event env mgmt tr status s) (abs_st s) (abs_st s'))"
  by (rule ensures_mono [OF handle_auth_sae_post]) (rule frame_post_fsm)

text \<open>C3: No acceptance without a verified Confirm.  A frame leaves the authentication flag of the
  station and the PMKSA cache as they are, or it is a Confirm with status success that the instance's
  verifier accepts, received in the state Confirmed (or Committed, in an infrastructure BSS), and then
  exactly the PMK and PMKID of that instance enter the cache for this station.\<close>

theorem sae_accept_requires_confirm:
  "ensures (handle_auth_sae env mgmt tr status s)
     (\<lambda>s'. si_auth (ap_sta s') = si_auth (ap_sta s) \<and> pmksa_log s' = pmksa_log s \<or>
       tr = 2 \<and> status = WLAN_STATUS_SUCCESS \<and>
       (\<exists>sae. ap_sae s = Some sae \<and>
          (sd_state sae = SAE_CONFIRMED \<or> sd_state sae = SAE_COMMITTED \<and> \<not> ap_mesh s) \<and>
          sae_check_confirm (en_L env) sae (af_variable mgmt) = Some 0 \<and>
          pmksa_log s' = PmksaAddSae (si_addr (ap_sta s)) (sd_pmk sae) (sd_pmkid sae) # pmksa_log s))"
proof (rule ensures_mono [OF handle_auth_sae_post])
  fix s' assume "frame_post s (frame_event env mgmt tr status s) s'"
  then show "si_auth (ap_sta s') = si_auth (ap_sta s) \<and> pmksa_log s' = pmksa_log s \<or>
       tr = 2 \<and> status = WLAN_STATUS_SUCCESS \<and>
       (\<exists>sae. ap_sae s = Some sae \<and>
          (sd_state sae = SAE_CONFIRMED \<or> sd_state sae = SAE_COMMITTED \<and> \<not> ap_mesh s) \<and>
          sae_check_confirm (en_L env) sae (af_variable mgmt) = Some 0 \<and>
          pmksa_log s' = PmksaAddSae (si_addr (ap_sta s)) (sd_pmk sae) (sd_pmkid sae) # pmksa_log s)"
    unfolding frame_post_def
  proof (elim disjE exE conjE)
    fix sae assume "ap_sae s = Some sae" "frame_event env mgmt tr status s = RxConfirm True"
      "may_accept (ap_mesh s) (sd_state sae)" "accepted_post s sae s'"
    then show ?thesis
      by (auto simp: frame_event_def confirm_verified_def may_accept_def accepted_post_def split: if_splits)
  qed (simp add: keeps_fsm_def ap_keep_def)
qed

subsection \<open>Reachable states\<close>


subsection \<open>Tokens\<close>

lemma check_sae_token_iff:
  "check_sae_token s t = 0 \<longleftrightarrow> t = hmac sha256 64 (hd_sae_token_key (ap_hapd s)) (si_addr (ap_sta s))"
  using os_memcmp_const_0 [of 32 t "hmac sha256 64 (hd_sae_token_key (ap_hapd s)) (si_addr (ap_sta s))"]
  by (auto simp: check_sae_token_def hmac_sha256_eq)

text \<open>The key in use: the current one, or a fresh one once a minute.\<close>

definition token_key_fresh :: "('g, 'q) ap \<Rightarrow> bool" where
  "token_key_fresh s \<longleftrightarrow> os_reltime_initialized (hd_last_sae_token_key_update (ap_hapd s)) \<and>
     \<not> os_reltime_expired (ap_now s) (hd_last_sae_token_key_update (ap_hapd s)) 60"

lemma token_req_put:
  assumes "wpabuf_alloc malloc (word_of_nat 34) = Some buf" and "length mac = 32"
  shows "\<exists>b. do { buf \<leftarrow> wpabuf_put_le16 buf g; wpabuf_put_field buf 32 (Some mac) } = Some b \<and>
     wb_contents b = WPA_PUT_LE16 g @ mac"
proof -
  have "\<exists>b'. put_all wpabuf_put_bytes buf [WPA_PUT_LE16 g, mac] = Some b' \<and>
      wb_contents b' = concat [WPA_PUT_LE16 g, mac] \<and> wpabuf_ok b' \<and> wb_size b' = word_of_nat 34"
    by (rule wpabuf_alloc_put_all [OF assms(1)]) (simp_all add: assms(2))
  then show ?thesis by (auto simp: wpabuf_put_folds wpabuf_put_field_bytes assms(2) split: Option.bind_splits)
qed

text \<open>C10: The token request for a station carries the group and a token of 32 octets, and of all byte
  strings exactly this token is accepted from that station afterwards: with the current key while it
  is less than a minute old, with a fresh one otherwise.\<close>

theorem sae_token_roundtrip:
  assumes "en_malloc env (sizeof_wpabuf + 34)"
    and "token_key_fresh s \<or> random_get_bytes 8 (ap_rnd s) = (Some key, rnd)"
  shows "\<exists>buf s'. auth_build_token_req env grp (si_addr (ap_sta s)) s = Some (Some buf, s') \<and>
     take 2 (wb_contents buf) = WPA_PUT_LE16 (word_of_int grp) \<and> length (wb_contents buf) = 34 \<and>
     hd_sae_token_key (ap_hapd s') = (if token_key_fresh s then hd_sae_token_key (ap_hapd s) else key) \<and>
     (\<forall>t. check_sae_token s' t = 0 \<longleftrightarrow> t = drop 2 (wb_contents buf))"
proof -
  define s1 where "s1 = (if token_key_fresh s then s else
    s\<lparr>ap_rnd := rnd, ap_hapd := (ap_hapd s)\<lparr>hd_sae_token_key := key, hd_last_sae_token_key_update := ap_now s\<rparr>\<rparr>)"
  let ?mac = "hmac sha256 64 (hd_sae_token_key (ap_hapd s1)) (si_addr (ap_sta s))"
  have s1: "si_addr (ap_sta s1) = si_addr (ap_sta s)"
    "hd_sae_token_key (ap_hapd s1) = (if token_key_fresh s then hd_sae_token_key (ap_hapd s) else key)"
    by (simp_all add: s1_def)
  obtain b where b: "wpabuf_alloc (en_malloc env) (word_of_nat 34) = Some b"
    using assms(1) by (simp add: wpabuf_alloc_def)
  from token_req_put [OF b, of ?mac "word_of_int grp"] obtain buf where
    buf: "do { buf \<leftarrow> wpabuf_put_le16 b (word_of_int grp); wpabuf_put_field buf 32 (Some ?mac) } = Some buf"
      "wb_contents buf = WPA_PUT_LE16 (word_of_int grp) @ ?mac" by auto
  have "auth_build_token_req env grp (si_addr (ap_sta s)) s = Some (Some buf, s1)"
    using assms(2) b buf(1)
    by (cases "token_key_fresh s")
      (auto simp: auth_build_token_req_def Let_def token_key_fresh_def s1_def hmac_sha256_eq split: Option.bind_splits)
  then show ?thesis using buf(2) s1 by (auto simp: check_sae_token_iff)
qed

text \<open>An access point of the reference curve, as it starts, and one station.\<close>

definition ref_env :: "(unit, nat) env" where
  "ref_env = \<lparr>en_L = ref_curve, en_all = True, en_malloc = \<lambda>_. True\<rparr>"

definition ref_ap :: "(unit, nat) ap" where
  "ref_ap = \<lparr>ap_hapd = \<lparr>hd_conf = \<lparr>bc_sae_passwords = [], bc_wpa_passphrase = Some [1, 2, 3, 4, 5, 6, 7, 8],
        bc_sae_anti_clogging_threshold = 0, bc_sae_sync = 5, bc_sae_groups = None, bc_mesh = False\<rparr>,
      hd_own_addr = [2, 0, 0, 0, 0, 1], hd_sae_token_key = replicate 8 0,
      hd_last_sae_token_key_update = \<lparr>rt_sec = 0, rt_usec = 0\<rparr>, hd_other_stas = []\<rparr>,
    ap_sta = \<lparr>si_addr = [2, 0, 0, 0, 0, 2], si_auth = False, si_auth_alg = 0, si_sae = None,
      si_mesh_sae_pmksa_caching = False, si_added_unassoc = False, si_timer = False\<rparr>,
    ap_rnd = [[1, 2, 3, 4, 5, 6, 7, 8]], ap_tx = [True, True], ap_now = \<lparr>rt_sec = 9, rt_usec = 0\<rparr>, ap_log = []\<rparr>"

theorem sae_token_roundtrip_witness:
  "\<exists>buf s'. auth_build_token_req ref_env 19 [2, 0, 0, 0, 0, 2] ref_ap = Some (Some buf, s') \<and>
     hd_sae_token_key (ap_hapd s') = [1, 2, 3, 4, 5, 6, 7, 8] \<and> check_sae_token s' (drop 2 (wb_contents buf)) = 0"
proof -
  have "en_malloc ref_env (sizeof_wpabuf + 34)" by (simp add: ref_env_def)
  moreover have n: "\<not> token_key_fresh ref_ap" by (simp add: token_key_fresh_def os_reltime_initialized_def ref_ap_def)
  moreover have "random_get_bytes 8 (ap_rnd ref_ap) = (Some [1, 2, 3, 4, 5, 6, 7, 8], [])"
    by (simp add: ref_ap_def)
  ultimately show ?thesis
    using sae_token_roundtrip [of ref_env ref_ap "[1, 2, 3, 4, 5, 6, 7, 8]" "[]" 19] n by (auto simp: ref_ap_def)
qed

subsection \<open>A Confirm where none can be\<close>

text \<open>An instance that has a group but no commit of its own cannot check a Confirm.\<close>

lemma sae_check_confirm_no_commit:
  assumes "sd_tmp sae = Some tmp" "st_own_commit_element_ecc tmp = None" "st_own_commit_element_ffc tmp = None"
    and "34 \<le> length var"
  shows "sae_check_confirm L sae var = None"
proof -
  have e: "sae_cn_confirm_ecc L tmp ec sc s1 e1 s2 None = None" "sae_cn_confirm_ffc L tmp sc s1 f1 s2 None = None"
    for ec sc s1 e1 f1 s2
    by (auto simp: sae_cn_confirm_ecc_def sae_cn_confirm_ffc_def ecc_element_bin_def split: Option.bind_splits)
  show ?thesis using assms e by (simp add: sae_check_confirm_def split: option.split)
qed

lemma first_commit_no_own:
  assumes "sae_parse_commit L all sae_zero data gs = Some (WLAN_STATUS_SUCCESS, tok, sae)"
  obtains tmp where "sd_tmp sae = Some tmp" "st_own_commit_element_ecc tmp = None"
    "st_own_commit_element_ffc tmp = None"
  using assms
proof (rule sae_parse_commitE)
  fix sae1 tmp1 pos sae2 pos2 tmp2 pos3 tmp3
  assume g: "sae_group_allowed L all sae_zero gs (WPA_GET_LE16 data) = Some (WLAN_STATUS_SUCCESS, sae1)" "sd_tmp sae1 = Some tmp1"
    and el: "sae_parse_commit_element L tmp1 pos2 = Some (WLAN_STATUS_SUCCESS, tmp2, pos3)"
    and id: "sae_parse_password_identifier L tmp2 pos3 = (WLAN_STATUS_SUCCESS, tmp3)"
    and sae: "sae = sae2\<lparr>sd_tmp := Some tmp3\<rparr>"
  have set: "st_own_commit_element_ecc tmp = None \<and> st_own_commit_element_ffc tmp = None"
    if "sae_set_group L all s0 n = (r, s1)" "sd_tmp s1 = Some tmp" for s0 s1 n r tmp
    using that
    by (auto simp: sae_set_group_def Let_def sae_clear_data_def sae_zero_def sae_tmp_zero_def
        split: if_splits option.splits)
  have "st_own_commit_element_ecc tmp1 = None \<and> st_own_commit_element_ffc tmp1 = None"
    using g set
    by (auto simp: sae_group_allowed_def Let_def sae_zero_def split: Option.bind_splits if_splits prod.splits option.splits)
  then show thesis
    using that sae parse_element_own [OF el] parse_password_identifier_own [OF id] by auto
qed

lemma auth_build_token_req_total: "\<exists>d s'. auth_build_token_req env grp addr s = Some (d, s')"
proof (cases "wpabuf_alloc (en_malloc env) 34")
  case None
  then show ?thesis by (auto simp: auth_build_token_req_def Let_def split: prod.split option.split)
next
  case (Some buf)
  have put: "\<exists>b. do { buf \<leftarrow> wpabuf_put_le16 buf (word_of_int grp);
      wpabuf_put_field buf 32 (Some (hmac sha256 64 key addr)) } = Some b" for key
    using token_req_put [of "en_malloc env" buf "hmac sha256 64 key addr" "word_of_int grp"] Some by auto
  then obtain b1 where b1: "wpabuf_put_le16 buf (word_of_int grp) = Some b1"
    by (cases "wpabuf_put_le16 buf (word_of_int grp)") auto
  with put have "\<forall>key. \<exists>b. wpabuf_put_field b1 32 (Some (hmac sha256 64 key addr)) = Some b" by simp
  then obtain F where "\<And>key. wpabuf_put_field b1 32 (Some (hmac sha256 64 key addr)) = Some (F key)" by metis
  then show ?thesis
    by (auto simp: auth_build_token_req_def Let_def hmac_sha256_eq Some b1 split: prod.split option.split)
qed

lemma body_first_commit:
  assumes "ap_sae s = None" and "os_zalloc_ok (en_L env)"
  obtains s2 where "ap_sae s2 = Some sae_zero" "ap_keep s s2"
    "handle_auth_sae_body env m 1 WLAN_STATUS_SUCCESS s = handle_sae_commit env m s2"
proof -
  define s1 where "s1 = put_sae sae_zero s"
  define s2 where "s2 = (if si_mesh_sae_pmksa_caching (ap_sta s)
     then log_event (PmksaRemove (si_addr (ap_sta s))) (put_sta ((ap_sta s1)\<lparr>si_mesh_sae_pmksa_caching := False\<rparr>) s1)
     else s1)"
  have "ap_sae s2 = Some sae_zero" "ap_keep s s2"
    by (simp_all add: s1_def s2_def ap_put_defs ap_keep_def pmksa_log_def)
  moreover have "handle_auth_sae_body env m 1 WLAN_STATUS_SUCCESS s = handle_sae_commit env m s2"
    using assms
    by (cases "si_mesh_sae_pmksa_caching (ap_sta s)")
      (simp_all add: handle_auth_sae_body_def Let_def s1_def s2_def ap_put_defs wlan_status)
  ultimately show thesis by (rule that)
qed

lemma body_confirm:
  assumes "ap_sae s = Some sae"
  obtains s2 where "ap_sae s2 = Some sae" "ap_keep s s2" "ap_tx s2 = ap_tx s"
    "handle_auth_sae_body env m 2 WLAN_STATUS_SUCCESS s = handle_sae_confirm env m s2"
proof -
  define s2 where "s2 = (if si_mesh_sae_pmksa_caching (ap_sta s)
     then log_event (PmksaRemove (si_addr (ap_sta s))) (put_sta ((ap_sta s)\<lparr>si_mesh_sae_pmksa_caching := False\<rparr>) s)
     else s)"
  have k: "ap_sae s2 = Some sae" "ap_keep s s2" "ap_tx s2 = ap_tx s"
    using assms by (simp_all add: s2_def ap_put_defs ap_keep_def pmksa_log_def)
  have "handle_auth_sae_body env m 2 WLAN_STATUS_SUCCESS s = handle_sae_confirm env m s2"
    using assms
    by (cases "si_mesh_sae_pmksa_caching (ap_sta s)") (simp_all add: handle_auth_sae_body_def Let_def s2_def ap_put_defs)
  with k show thesis by (rule that)
qed

lemma first_commit_token_request:
  assumes "ap_sae s = None" and "os_zalloc_ok (en_L env)" and "\<not> ap_mesh s"
    and parse: "sae_parse_commit (en_L env) (en_all env) sae_zero (af_variable m) (bc_sae_groups (ap_conf s)) =
           Some (WLAN_STATUS_SUCCESS, None, sae)"
    and "bc_sae_anti_clogging_threshold (ap_conf s) = 0"
  obtains s' where "handle_auth_sae env m 1 WLAN_STATUS_SUCCESS s = Some s'" "ap_conf s' = ap_conf s" "ap_sae s' = Some sae"
proof -
  obtain s2 where s2: "ap_sae s2 = Some sae_zero" "ap_keep s s2"
    "handle_auth_sae_body env m 1 WLAN_STATUS_SUCCESS s = handle_sae_commit env m s2"
    using body_first_commit [OF assms(1,2)] .
  let ?s3 = "put_sae sae s2"
  have conf: "ap_conf s2 = ap_conf s" "ap_conf ?s3 = ap_conf s" using s2(2) by (simp_all add: ap_keep_def put_sae_def)
  obtain d s4 where s4: "auth_build_token_req env (sd_group sae) (si_addr (ap_sta ?s3)) ?s3 = Some (d, s4)"
    using auth_build_token_req_total by blast
  then have k4: "ap_sae s4 = Some sae" "ap_conf s4 = ap_conf s"
    using auth_build_token_req_keep [OF s4] conf by (auto simp: ap_keep_def)
  have "use_sae_anti_clogging ?s3" by (simp add: use_sae_anti_clogging_def conf assms)
  then have "handle_sae_commit env m s2 =
      Some (Reply (uint WLAN_STATUS_ANTI_CLOGGING_TOKEN_REQ) (map_option wb_contents d), s4)"
    using s2(1) parse s4 assms(3)
    by (simp add: handle_sae_commit_def Let_def conf k4 sae_zero_def wlan_status)
  then obtain s' where "handle_auth_sae env m 1 WLAN_STATUS_SUCCESS s = Some s'" "ap_keep s4 s'" "ap_sae s' = Some sae"
    using s2(3) auth_sae_exit_keep [of s4 env m] k4(1) by (auto simp: handle_auth_sae_def)
  then show thesis using that k4(2) by (simp add: ap_keep_def)
qed

text \<open>C11: A station whose first Commit is answered with a token request and that then sends any Confirm of
  at least 34 octets makes the access point read the commit element it has not computed: the run does
  not return.\<close>

theorem confirm_after_token_request:
  assumes "ap_sae s = None" and "os_zalloc_ok (en_L env)" and "\<not> ap_mesh s"
    and parse: "sae_parse_commit (en_L env) (en_all env) sae_zero (af_variable m1) (bc_sae_groups (ap_conf s)) =
           Some (WLAN_STATUS_SUCCESS, None, sae)"
    and "bc_sae_anti_clogging_threshold (ap_conf s) = 0" and "34 \<le> length (af_variable m2)"
  shows "\<exists>s'. handle_auth_sae env m1 1 WLAN_STATUS_SUCCESS s = Some s' \<and>
     handle_auth_sae env m2 2 WLAN_STATUS_SUCCESS s' = None"
proof -
  from first_commit_no_own [OF parse] obtain tmp where tmp: "sd_tmp sae = Some tmp"
    "st_own_commit_element_ecc tmp = None" "st_own_commit_element_ffc tmp = None" .
  have st: "sd_state sae = SAE_NOTHING" using abs_sae_parse_commit [OF parse] by (auto simp: abs_sae_def sae_zero_def)
  obtain s' where s': "handle_auth_sae env m1 1 WLAN_STATUS_SUCCESS s = Some s'" "ap_conf s' = ap_conf s" "ap_sae s' = Some sae"
    using first_commit_token_request [OF assms(1-5)] .
  obtain s5 where s5: "ap_sae s5 = Some sae" "ap_keep s' s5"
    "handle_auth_sae_body env m2 2 WLAN_STATUS_SUCCESS s' = handle_sae_confirm env m2 s5"
    using body_confirm [OF s'(3)] .
  have "\<not> ap_mesh s5" using s5(2) s'(2) assms(3) by (simp add: ap_keep_def)
  then have "handle_sae_confirm env m2 s5 = None"
    using s5(1) st assms(6) sae_check_confirm_no_commit [OF tmp assms(6)] by (simp add: handle_sae_confirm_def Let_def)
  then have "handle_auth_sae env m2 2 WLAN_STATUS_SUCCESS s' = None" by (simp add: handle_auth_sae_def s5(3))
  with s'(1) show ?thesis by blast
qed

definition ref_frame :: "bytes \<Rightarrow> auth_frame" where
  "ref_frame v = \<lparr>af_sa = [2, 0, 0, 0, 0, 2], af_bssid = [2, 0, 0, 0, 0, 1], af_variable = v\<rparr>"

definition ref_sae2 :: "(unit, nat) sae_data" where
  "ref_sae2 = ref_sae1\<lparr>sd_peer_commit_scalar := Some 6,
     sd_tmp := Some (ref_tmp1\<lparr>st_peer_commit_element_ecc := Some 1, st_pw_id := None\<rparr>)\<rparr>"

lemma ref_parse:
  "sae_parse_commit (en_L ref_env) (en_all ref_env) sae_zero (af_variable (ref_frame ref_commit_frame))
     (bc_sae_groups (ap_conf ref_ap)) = Some (WLAN_STATUS_SUCCESS, None, ref_sae2)"
  using ref_first_commit by (simp add: ref_env_def ref_frame_def ref_ap_def ref_sae2_def)

theorem confirm_after_token_request_witness:
  "\<exists>s'. handle_auth_sae ref_env (ref_frame ref_commit_frame) 1 WLAN_STATUS_SUCCESS ref_ap = Some s' \<and>
     handle_auth_sae ref_env (ref_frame (replicate 34 0)) 2 WLAN_STATUS_SUCCESS s' = None"
proof (rule confirm_after_token_request)
  show "sae_parse_commit (en_L ref_env) (en_all ref_env) sae_zero (af_variable (ref_frame ref_commit_frame))
      (bc_sae_groups (ap_conf ref_ap)) = Some (WLAN_STATUS_SUCCESS, None, ref_sae2)"
    by (rule ref_parse)
qed (simp_all add: ref_ap_def ref_env_def ref_frame_def ref_curve.alloc)


subsection \<open>A verified Confirm completes the exchange\<close>

text \<open>Where a Confirm can be checked, one can be written: the two computations use the same values.\<close>

lemma sae_cn_confirm_swap:
  assumes "sae_cn_confirm L tmp sc s1 b1 s2 b2 = Some v"
  shows "\<exists>w. sae_cn_confirm L tmp sc' s2 b2 s1 b1 = Some w \<and> length w = 32"
  using assms by (auto simp: sae_cn_confirm_def hmac_sha256_vector_eq split: Option.bind_splits)

lemma sae_cn_confirm_ecc_swap:
  assumes "sae_cn_confirm_ecc L tmp ec sc s1 e1 s2 e2 = Some v"
  shows "\<exists>w. sae_cn_confirm_ecc L tmp ec sc' s2 e2 s1 e1 = Some w \<and> length w = 32"
proof -
  from assms obtain b1 b2 where b: "ecc_element_bin L ec e1 = Some b1" "ecc_element_bin L ec e2 = Some b2"
    "sae_cn_confirm L tmp sc s1 b1 s2 b2 = Some v"
    by (auto simp: sae_cn_confirm_ecc_def split: Option.bind_splits)
  from sae_cn_confirm_swap [OF b(3), of sc'] b(1,2) show ?thesis by (simp add: sae_cn_confirm_ecc_def)
qed

lemma sae_cn_confirm_ffc_swap:
  assumes "sae_cn_confirm_ffc L tmp sc s1 e1 s2 e2 = Some v"
  shows "\<exists>w. sae_cn_confirm_ffc L tmp sc' s2 e2 s1 e1 = Some w \<and> length w = 32"
proof -
  from assms obtain x1 x2 b1 b2 where b: "e1 = Some x1" "e2 = Some x2"
    "crypto_bignum_to_bin L x1 SAE_MAX_PRIME_LEN (st_prime_len tmp) = Some b1"
    "crypto_bignum_to_bin L x2 SAE_MAX_PRIME_LEN (st_prime_len tmp) = Some b2"
    "sae_cn_confirm L tmp sc s1 (take (st_prime_len tmp) b1) s2 (take (st_prime_len tmp) b2) = Some v"
    by (auto simp: sae_cn_confirm_ffc_def split: Option.bind_splits)
  from sae_cn_confirm_swap [OF b(5), of sc'] b(1-4) show ?thesis by (simp add: sae_cn_confirm_ffc_def)
qed

definition own_confirm :: "('g, 'q) openssl \<Rightarrow> ('g, 'q) sae_data \<Rightarrow> ('g, 'q) sae_temporary_data \<Rightarrow> bytes run" where
  "own_confirm L sae tmp =
     (let sc = WPA_PUT_LE16 (sd_send_confirm sae)
      in case st_ec tmp of
           Some ec \<Rightarrow> sae_cn_confirm_ecc L tmp ec sc (st_own_commit_scalar tmp) (st_own_commit_element_ecc tmp)
                        (sd_peer_commit_scalar sae) (st_peer_commit_element_ecc tmp)
         | None \<Rightarrow> sae_cn_confirm_ffc L tmp sc (st_own_commit_scalar tmp) (st_own_commit_element_ffc tmp)
                     (sd_peer_commit_scalar sae) (st_peer_commit_element_ffc tmp))"

lemma own_confirm_after_check:
  assumes "sae_check_confirm L sae var = Some r" "34 \<le> length var" "sd_tmp sae = Some tmp"
  shows "\<exists>w. own_confirm L sae tmp = Some w \<and> length w = 32"
proof (cases "st_ec tmp")
  case None
  with assms obtain v where "sae_cn_confirm_ffc L tmp var (sd_peer_commit_scalar sae) (st_peer_commit_element_ffc tmp)
      (st_own_commit_scalar tmp) (st_own_commit_element_ffc tmp) = Some v"
    by (auto simp: sae_check_confirm_def split: Option.bind_splits)
  from sae_cn_confirm_ffc_swap [OF this] None show ?thesis by (simp add: own_confirm_def)
next
  case (Some ec)
  with assms obtain v where "sae_cn_confirm_ecc L tmp ec var (sd_peer_commit_scalar sae) (st_peer_commit_element_ecc tmp)
      (st_own_commit_scalar tmp) (st_own_commit_element_ecc tmp) = Some v"
    by (auto simp: sae_check_confirm_def split: Option.bind_splits)
  from sae_cn_confirm_ecc_swap [OF this] Some show ?thesis by (simp add: own_confirm_def)
qed

lemma write_confirm_after_check:
  assumes chk: "sae_check_confirm L sae var = Some 0"
    and buf: "wpabuf_alloc malloc (word_of_nat SAE_CONFIRM_MAX_LEN) = Some buf"
  shows "\<exists>c b. sae_write_confirm L sae buf = Some (sae\<lparr>sd_send_confirm := c\<rparr>, b)"
proof -
  let ?sc = "WPA_PUT_LE16 (sd_send_confirm sae)"
  from chk obtain tmp where tmp: "sd_tmp sae = Some tmp" "34 \<le> length var"
    by (auto simp: sae_check_confirm_def split: if_splits option.splits)
  obtain w where w: "own_confirm L sae tmp = Some w" "length w = 32"
    using own_confirm_after_check [OF chk tmp(2,1)] by blast
  have "\<exists>b'. put_all wpabuf_put_bytes buf [?sc, w] = Some b' \<and> wb_contents b' = concat [?sc, w] \<and>
      wpabuf_ok b' \<and> wb_size b' = word_of_nat SAE_CONFIRM_MAX_LEN"
    by (rule wpabuf_alloc_put_all [OF buf]) (simp_all add: w(2) sae_consts)
  then obtain b c where c: "wpabuf_put_le16 buf (sd_send_confirm sae) = Some b" "wpabuf_put_field b 32 (Some w) = Some c"
    using w(2) by (auto simp: wpabuf_put_folds wpabuf_put_field_bytes split: Option.bind_splits)
  define sae1 where "sae1 = (if sd_send_confirm sae < 0xffff
      then sae\<lparr>sd_send_confirm := sd_send_confirm sae + 1\<rparr> else sae)"
  have same: "sd_peer_commit_scalar sae1 = sd_peer_commit_scalar sae" "\<exists>n. sae1 = sae\<lparr>sd_send_confirm := n\<rparr>"
    by (auto simp: sae1_def)
  have "sae_write_confirm L sae buf = Some (sae1, c)"
    unfolding sae_write_confirm_def tmp(1) Let_def sae1_def [symmetric]
    using w(1) c by (cases "st_ec tmp") (simp_all add: own_confirm_def same)
  then show ?thesis using same(2) by auto
qed

lemma send_confirm_ok:
  assumes sae: "ap_sae s = Some sae" and chk: "sae_check_confirm (en_L env) sae var = Some 0"
    and mem: "\<And>n. en_malloc env n" and tx: "ap_tx s = True # tx"
  shows "\<exists>n d s1. auth_sae_send_confirm env bssid s = Some (0, s1) \<and> ap_hapd s1 = ap_hapd s \<and>
     ap_sta s1 = (ap_sta s)\<lparr>si_sae := Some (sae\<lparr>sd_send_confirm := n\<rparr>)\<rparr> \<and>
     ap_log s1 = AuthReply (si_addr (ap_sta s)) bssid WLAN_AUTH_SAE 2 WLAN_STATUS_SUCCESS d # ap_log s"
proof -
  obtain buf where buf: "wpabuf_alloc (en_malloc env) (word_of_nat SAE_CONFIRM_MAX_LEN) = Some buf"
    using mem by (simp add: wpabuf_alloc_def)
  from write_confirm_after_check [OF chk buf] obtain n b where
    "sae_write_confirm (en_L env) sae buf = Some (sae\<lparr>sd_send_confirm := n\<rparr>, b)" by blast
  then show ?thesis
    using sae buf tx mem
    by (auto simp: auth_sae_send_confirm_def auth_build_sae_confirm_def send_auth_reply_def put_sae_def log_event_def wlan_status)
qed

lemma check_confirm_other [simp]:
  "sae_check_confirm L (sae\<lparr>sd_rc := c\<rparr>) var = sae_check_confirm L sae var"
  "sae_check_confirm L (sae\<lparr>sd_state := st\<rparr>) var = sae_check_confirm L sae var"
  by (simp_all add: sae_check_confirm_def split: option.split)

text \<open>C8: In an infrastructure BSS, a Confirm that verifies completes the exchange: with memory and a
  driver that accepts the frame, the handler returns, the access point has answered with its own
  Confirm, the station is authenticated and in the state Accepted, and its PMK is in the PMKSA cache.\<close>

theorem sae_confirm_completes:
  assumes sae: "ap_sae s = Some sae" and st: "sd_state sae = SAE_COMMITTED" and mesh: "\<not> ap_mesh s"
    and chk: "sae_check_confirm (en_L env) sae (af_variable m) = Some 0"
    and mem: "\<And>n. en_malloc env n" and tx: "ap_tx s = True # tx"
  shows "\<exists>s' sae' d. handle_auth_sae env m 2 WLAN_STATUS_SUCCESS s = Some s' \<and> ap_sae s' = Some sae' \<and>
     sd_state sae' = SAE_ACCEPTED \<and> si_auth (ap_sta s') \<and>
     AuthReply (si_addr (ap_sta s)) (af_bssid m) WLAN_AUTH_SAE 2 WLAN_STATUS_SUCCESS d \<in> set (ap_log s') \<and>
     PmksaAddSae (si_addr (ap_sta s)) (sd_pmk sae) (sd_pmkid sae) \<in> set (ap_log s')"
proof -
  obtain s2 where s2: "ap_sae s2 = Some sae" "ap_keep s s2" "ap_tx s2 = ap_tx s"
    "handle_auth_sae_body env m 2 WLAN_STATUS_SUCCESS s = handle_sae_confirm env m s2"
    using body_confirm [OF sae] .
  have mesh2: "\<not> ap_mesh s2" and addr: "si_addr (ap_sta s2) = si_addr (ap_sta s)"
    using s2(2) mesh by (simp_all add: ap_keep_def)
  have len: "34 \<le> length (af_variable m)" using chk by (auto simp: sae_check_confirm_def split: if_splits)
  let ?sae = "sae\<lparr>sd_rc := WPA_GET_LE16 (af_variable m)\<rparr>"
  let ?s = "sae_clear_retransmit_timer (put_sae ?sae s2)"
  have s: "ap_sae ?s = Some ?sae" "ap_tx ?s = True # tx" "\<not> ap_mesh ?s" "si_addr (ap_sta ?s) = si_addr (ap_sta s)"
    using s2 tx mesh2 addr by (simp_all add: sae_clear_retransmit_timer_def ap_put_defs)
  obtain n d s1 where s1: "auth_sae_send_confirm env (af_bssid m) ?s = Some (0, s1)" "ap_hapd s1 = ap_hapd ?s"
    "ap_sta s1 = (ap_sta ?s)\<lparr>si_sae := Some (?sae\<lparr>sd_send_confirm := n\<rparr>)\<rparr>"
    "ap_log s1 = AuthReply (si_addr (ap_sta ?s)) (af_bssid m) WLAN_AUTH_SAE 2 WLAN_STATUS_SUCCESS d # ap_log ?s"
    using send_confirm_ok [OF s(1) _ mem s(2), of "af_variable m" "af_bssid m"] chk by auto
  obtain s3 where s3: "sae_sm_confirmed env (af_bssid m) 2
      (put_sae (?sae\<lparr>sd_send_confirm := n, sd_state := SAE_CONFIRMED\<rparr>) s1) = Some (uint WLAN_STATUS_SUCCESS, s3)"
    "ap_sae s3 = Some (?sae\<lparr>sd_send_confirm := 0xffff, sd_state := SAE_ACCEPTED\<rparr>)" "si_auth (ap_sta s3)"
    "ap_log s3 = PmksaAddSae (si_addr (ap_sta s)) (sd_pmk sae) (sd_pmkid sae) #
       WpaAuthEvent (si_addr (ap_sta s)) # MlmeAuthenticate (si_addr (ap_sta s)) # ap_log s1"
    using s1(3) s(4)
    by (auto simp: sae_sm_confirmed_def Let_def sae_accept_sta_def sae_set_state_def sae_clear_retransmit_timer_def ap_put_defs)
  have "handle_sae_confirm env m s2 = Some (Reply (uint WLAN_STATUS_SUCCESS) None, s3)"
    using s2(1) mesh2 len st chk s(3) s1 s3(1)
    by (simp add: handle_sae_confirm_def Let_def sae_sm_step_def sae_sm_committed_def sae_set_state_def)
  then show ?thesis
    using s2(4) s3 s1(4) s(4)
    by (auto simp: handle_auth_sae_def auth_sae_exit_def wlan_status auth_sae_remove_sta_def)
qed

text \<open>The witness: the exchange of two parties over the reference curve, one of them the access point.\<close>

lemma ref_confirm: "\<exists>sae var. sae_check_confirm ref_curve sae var = Some 0"
proof -
  have pwe: "st_pwe_ecc ref_tmp = Some 3" "(3 :: nat) < 13" "(3 :: nat) \<noteq> 0" by (simp_all add: ref_tmp_def)
  obtain b1 b2 where b: "wpabuf_alloc (\<lambda>_. True) (word_of_nat SAE_COMMIT_MAX_LEN) = Some b1"
    "wpabuf_alloc (\<lambda>_. True) (word_of_nat SAE_CONFIRM_MAX_LEN) = Some b2" by (simp add: wpabuf_alloc_def)
  have "(Some (8 :: nat), Some (4 :: nat)) \<noteq> (Some 6, Some 1)" by simp
  with ref_ec.ecc_exchange [OF pwe(2,3) ref_ready pwe(1) ref_commits(1) ref_ready pwe(1) ref_commits(2) _ b, of True]
  show ?thesis by auto
qed

theorem sae_confirm_completes_witness:
  "\<exists>s m s' sae'. handle_auth_sae ref_env m 2 WLAN_STATUS_SUCCESS s = Some s' \<and>
     ap_sae s' = Some sae' \<and> sd_state sae' = SAE_ACCEPTED \<and> si_auth (ap_sta s')"
proof -
  obtain sae var where chk: "sae_check_confirm ref_curve sae var = Some 0" using ref_confirm by blast
  let ?sae = "sae\<lparr>sd_state := SAE_COMMITTED\<rparr>"
  show ?thesis
    using sae_confirm_completes [of "put_sae ?sae ref_ap" ?sae ref_env "ref_frame var" "[True]"] chk
    by (auto simp: ref_env_def ref_frame_def ref_ap_def put_sae_def)
qed

end
