(* ===== verification/WpaDefs.thy ===== *)
theory WpaDefs
  imports Wpabuf
begin

text \<open>
  Constants and predicates that the WPA/RSN components share: the cipher, key management and
  protocol bits of \<^verbatim>\<open>src/common/defs.h\<close> with its inline predicates, and the suite selectors
  and element headers of \<^verbatim>\<open>src/common/wpa_common.h\<close>.  The C \<^verbatim>\<open>int\<close> bit fields are words
  of 32 bits.  The build is the one with CONFIG\_IEEE80211R, CONFIG\_IEEE80211W, CONFIG\_SAE,
  CONFIG\_SHA384, CONFIG\_FILS, CONFIG\_OWE, CONFIG\_DPP, CONFIG\_HS20 and CONFIG\_SUITEB192, without
  the testing options.

  The second part is what a parser of a received buffer needs: a checked read, total correctness
  of a run (\<open>runs\<close>) with its rules, and the sequencing of steps that return an error code.
\<close>

subsection \<open>Bits of defs.h\<close>

abbreviation (input) WPA_CIPHER_NONE :: u32 where "WPA_CIPHER_NONE \<equiv> 0x1"
abbreviation (input) WPA_CIPHER_WEP40 :: u32 where "WPA_CIPHER_WEP40 \<equiv> 0x2"
abbreviation (input) WPA_CIPHER_WEP104 :: u32 where "WPA_CIPHER_WEP104 \<equiv> 0x4"
abbreviation (input) WPA_CIPHER_TKIP :: u32 where "WPA_CIPHER_TKIP \<equiv> 0x8"
abbreviation (input) WPA_CIPHER_CCMP :: u32 where "WPA_CIPHER_CCMP \<equiv> 0x10"
abbreviation (input) WPA_CIPHER_AES_128_CMAC :: u32 where "WPA_CIPHER_AES_128_CMAC \<equiv> 0x20"
abbreviation (input) WPA_CIPHER_GCMP :: u32 where "WPA_CIPHER_GCMP \<equiv> 0x40"
abbreviation (input) WPA_CIPHER_GCMP_256 :: u32 where "WPA_CIPHER_GCMP_256 \<equiv> 0x100"
abbreviation (input) WPA_CIPHER_CCMP_256 :: u32 where "WPA_CIPHER_CCMP_256 \<equiv> 0x200"
abbreviation (input) WPA_CIPHER_BIP_GMAC_128 :: u32 where "WPA_CIPHER_BIP_GMAC_128 \<equiv> 0x800"
abbreviation (input) WPA_CIPHER_BIP_GMAC_256 :: u32 where "WPA_CIPHER_BIP_GMAC_256 \<equiv> 0x1000"
abbreviation (input) WPA_CIPHER_BIP_CMAC_256 :: u32 where "WPA_CIPHER_BIP_CMAC_256 \<equiv> 0x2000"
abbreviation (input) WPA_CIPHER_GTK_NOT_USED :: u32 where "WPA_CIPHER_GTK_NOT_USED \<equiv> 0x4000"
abbreviation (input) WPA_KEY_MGMT_IEEE8021X :: u32 where "WPA_KEY_MGMT_IEEE8021X \<equiv> 0x1"
abbreviation (input) WPA_KEY_MGMT_PSK :: u32 where "WPA_KEY_MGMT_PSK \<equiv> 0x2"
abbreviation (input) WPA_KEY_MGMT_WPA_NONE :: u32 where "WPA_KEY_MGMT_WPA_NONE \<equiv> 0x10"
abbreviation (input) WPA_KEY_MGMT_FT_IEEE8021X :: u32 where "WPA_KEY_MGMT_FT_IEEE8021X \<equiv> 0x20"
abbreviation (input) WPA_KEY_MGMT_FT_PSK :: u32 where "WPA_KEY_MGMT_FT_PSK \<equiv> 0x40"
abbreviation (input) WPA_KEY_MGMT_IEEE8021X_SHA256 :: u32 where "WPA_KEY_MGMT_IEEE8021X_SHA256 \<equiv> 0x80"
abbreviation (input) WPA_KEY_MGMT_PSK_SHA256 :: u32 where "WPA_KEY_MGMT_PSK_SHA256 \<equiv> 0x100"
abbreviation (input) WPA_KEY_MGMT_SAE :: u32 where "WPA_KEY_MGMT_SAE \<equiv> 0x400"
abbreviation (input) WPA_KEY_MGMT_FT_SAE :: u32 where "WPA_KEY_MGMT_FT_SAE \<equiv> 0x800"
abbreviation (input) WPA_KEY_MGMT_CCKM :: u32 where "WPA_KEY_MGMT_CCKM \<equiv> 0x4000"
abbreviation (input) WPA_KEY_MGMT_OSEN :: u32 where "WPA_KEY_MGMT_OSEN \<equiv> 0x8000"
abbreviation (input) WPA_KEY_MGMT_IEEE8021X_SUITE_B :: u32 where "WPA_KEY_MGMT_IEEE8021X_SUITE_B \<equiv> 0x10000"
abbreviation (input) WPA_KEY_MGMT_IEEE8021X_SUITE_B_192 :: u32 where "WPA_KEY_MGMT_IEEE8021X_SUITE_B_192 \<equiv> 0x20000"
abbreviation (input) WPA_KEY_MGMT_FILS_SHA256 :: u32 where "WPA_KEY_MGMT_FILS_SHA256 \<equiv> 0x40000"
abbreviation (input) WPA_KEY_MGMT_FILS_SHA384 :: u32 where "WPA_KEY_MGMT_FILS_SHA384 \<equiv> 0x80000"
abbreviation (input) WPA_KEY_MGMT_FT_FILS_SHA256 :: u32 where "WPA_KEY_MGMT_FT_FILS_SHA256 \<equiv> 0x100000"
abbreviation (input) WPA_KEY_MGMT_FT_FILS_SHA384 :: u32 where "WPA_KEY_MGMT_FT_FILS_SHA384 \<equiv> 0x200000"
abbreviation (input) WPA_KEY_MGMT_OWE :: u32 where "WPA_KEY_MGMT_OWE \<equiv> 0x400000"
abbreviation (input) WPA_KEY_MGMT_DPP :: u32 where "WPA_KEY_MGMT_DPP \<equiv> 0x800000"
abbreviation (input) WPA_KEY_MGMT_FT_IEEE8021X_SHA384 :: u32 where "WPA_KEY_MGMT_FT_IEEE8021X_SHA384 \<equiv> 0x1000000"
abbreviation (input) WPA_PROTO_WPA :: u32 where "WPA_PROTO_WPA \<equiv> 0x1"
abbreviation (input) WPA_PROTO_RSN :: u32 where "WPA_PROTO_RSN \<equiv> 0x2"
abbreviation (input) WPA_PROTO_OSEN :: u32 where "WPA_PROTO_OSEN \<equiv> 0x8"

definition wpa_key_mgmt_wpa_ieee8021x :: "u32 \<Rightarrow> bool" where
  "wpa_key_mgmt_wpa_ieee8021x akm \<longleftrightarrow> akm AND (WPA_KEY_MGMT_IEEE8021X
     OR WPA_KEY_MGMT_FT_IEEE8021X
     OR WPA_KEY_MGMT_FT_IEEE8021X_SHA384
     OR WPA_KEY_MGMT_CCKM
     OR WPA_KEY_MGMT_OSEN
     OR WPA_KEY_MGMT_IEEE8021X_SHA256
     OR WPA_KEY_MGMT_IEEE8021X_SUITE_B
     OR WPA_KEY_MGMT_IEEE8021X_SUITE_B_192
     OR WPA_KEY_MGMT_FILS_SHA256
     OR WPA_KEY_MGMT_FILS_SHA384
     OR WPA_KEY_MGMT_FT_FILS_SHA256
     OR WPA_KEY_MGMT_FT_FILS_SHA384) \<noteq> 0"

definition wpa_key_mgmt_wpa_psk :: "u32 \<Rightarrow> bool" where
  "wpa_key_mgmt_wpa_psk akm \<longleftrightarrow> akm AND (WPA_KEY_MGMT_PSK
     OR WPA_KEY_MGMT_FT_PSK
     OR WPA_KEY_MGMT_PSK_SHA256
     OR WPA_KEY_MGMT_SAE
     OR WPA_KEY_MGMT_FT_SAE) \<noteq> 0"

definition wpa_key_mgmt_ft :: "u32 \<Rightarrow> bool" where
  "wpa_key_mgmt_ft akm \<longleftrightarrow> akm AND (WPA_KEY_MGMT_FT_PSK
     OR WPA_KEY_MGMT_FT_IEEE8021X
     OR WPA_KEY_MGMT_FT_IEEE8021X_SHA384
     OR WPA_KEY_MGMT_FT_SAE
     OR WPA_KEY_MGMT_FT_FILS_SHA256
     OR WPA_KEY_MGMT_FT_FILS_SHA384) \<noteq> 0"

definition wpa_key_mgmt_ft_psk :: "u32 \<Rightarrow> bool" where
  "wpa_key_mgmt_ft_psk akm \<longleftrightarrow> akm AND (WPA_KEY_MGMT_FT_PSK) \<noteq> 0"

definition wpa_key_mgmt_sae :: "u32 \<Rightarrow> bool" where
  "wpa_key_mgmt_sae akm \<longleftrightarrow> akm AND (WPA_KEY_MGMT_SAE
     OR WPA_KEY_MGMT_FT_SAE) \<noteq> 0"

definition wpa_key_mgmt_fils :: "u32 \<Rightarrow> bool" where
  "wpa_key_mgmt_fils akm \<longleftrightarrow> akm AND (WPA_KEY_MGMT_FILS_SHA256
     OR WPA_KEY_MGMT_FILS_SHA384
     OR WPA_KEY_MGMT_FT_FILS_SHA256
     OR WPA_KEY_MGMT_FT_FILS_SHA384) \<noteq> 0"

definition wpa_key_mgmt_sha256 :: "u32 \<Rightarrow> bool" where
  "wpa_key_mgmt_sha256 akm \<longleftrightarrow> akm AND (WPA_KEY_MGMT_PSK_SHA256
     OR WPA_KEY_MGMT_IEEE8021X_SHA256
     OR WPA_KEY_MGMT_SAE
     OR WPA_KEY_MGMT_FT_SAE
     OR WPA_KEY_MGMT_OSEN
     OR WPA_KEY_MGMT_IEEE8021X_SUITE_B
     OR WPA_KEY_MGMT_FILS_SHA256
     OR WPA_KEY_MGMT_FT_FILS_SHA256) \<noteq> 0"

definition wpa_key_mgmt_sha384 :: "u32 \<Rightarrow> bool" where
  "wpa_key_mgmt_sha384 akm \<longleftrightarrow> akm AND (WPA_KEY_MGMT_IEEE8021X_SUITE_B_192
     OR WPA_KEY_MGMT_FT_IEEE8021X_SHA384
     OR WPA_KEY_MGMT_FILS_SHA384
     OR WPA_KEY_MGMT_FT_FILS_SHA384) \<noteq> 0"

definition wpa_key_mgmt_suite_b :: "u32 \<Rightarrow> bool" where
  "wpa_key_mgmt_suite_b akm \<longleftrightarrow> akm AND (WPA_KEY_MGMT_IEEE8021X_SUITE_B
     OR WPA_KEY_MGMT_IEEE8021X_SUITE_B_192) \<noteq> 0"

subsection \<open>Selectors and elements of wpa\_common.h\<close>

abbreviation (input) WPA_AUTH_KEY_MGMT_NONE :: u32 where "WPA_AUTH_KEY_MGMT_NONE \<equiv> 0x0050F200"
abbreviation (input) WPA_AUTH_KEY_MGMT_UNSPEC_802_1X :: u32 where "WPA_AUTH_KEY_MGMT_UNSPEC_802_1X \<equiv> 0x0050F201"
abbreviation (input) WPA_AUTH_KEY_MGMT_PSK_OVER_802_1X :: u32 where "WPA_AUTH_KEY_MGMT_PSK_OVER_802_1X \<equiv> 0x0050F202"
abbreviation (input) WPA_CIPHER_SUITE_NONE :: u32 where "WPA_CIPHER_SUITE_NONE \<equiv> 0x0050F200"
abbreviation (input) WPA_CIPHER_SUITE_TKIP :: u32 where "WPA_CIPHER_SUITE_TKIP \<equiv> 0x0050F202"
abbreviation (input) WPA_CIPHER_SUITE_CCMP :: u32 where "WPA_CIPHER_SUITE_CCMP \<equiv> 0x0050F204"
abbreviation (input) RSN_AUTH_KEY_MGMT_UNSPEC_802_1X :: u32 where "RSN_AUTH_KEY_MGMT_UNSPEC_802_1X \<equiv> 0x000FAC01"
abbreviation (input) RSN_AUTH_KEY_MGMT_PSK_OVER_802_1X :: u32 where "RSN_AUTH_KEY_MGMT_PSK_OVER_802_1X \<equiv> 0x000FAC02"
abbreviation (input) RSN_AUTH_KEY_MGMT_FT_802_1X :: u32 where "RSN_AUTH_KEY_MGMT_FT_802_1X \<equiv> 0x000FAC03"
abbreviation (input) RSN_AUTH_KEY_MGMT_FT_PSK :: u32 where "RSN_AUTH_KEY_MGMT_FT_PSK \<equiv> 0x000FAC04"
abbreviation (input) RSN_AUTH_KEY_MGMT_802_1X_SHA256 :: u32 where "RSN_AUTH_KEY_MGMT_802_1X_SHA256 \<equiv> 0x000FAC05"
abbreviation (input) RSN_AUTH_KEY_MGMT_PSK_SHA256 :: u32 where "RSN_AUTH_KEY_MGMT_PSK_SHA256 \<equiv> 0x000FAC06"
abbreviation (input) RSN_AUTH_KEY_MGMT_SAE :: u32 where "RSN_AUTH_KEY_MGMT_SAE \<equiv> 0x000FAC08"
abbreviation (input) RSN_AUTH_KEY_MGMT_FT_SAE :: u32 where "RSN_AUTH_KEY_MGMT_FT_SAE \<equiv> 0x000FAC09"
abbreviation (input) RSN_AUTH_KEY_MGMT_802_1X_SUITE_B :: u32 where "RSN_AUTH_KEY_MGMT_802_1X_SUITE_B \<equiv> 0x000FAC0B"
abbreviation (input) RSN_AUTH_KEY_MGMT_802_1X_SUITE_B_192 :: u32 where "RSN_AUTH_KEY_MGMT_802_1X_SUITE_B_192 \<equiv> 0x000FAC0C"
abbreviation (input) RSN_AUTH_KEY_MGMT_FT_802_1X_SHA384 :: u32 where "RSN_AUTH_KEY_MGMT_FT_802_1X_SHA384 \<equiv> 0x000FAC0D"
abbreviation (input) RSN_AUTH_KEY_MGMT_FILS_SHA256 :: u32 where "RSN_AUTH_KEY_MGMT_FILS_SHA256 \<equiv> 0x000FAC0E"
abbreviation (input) RSN_AUTH_KEY_MGMT_FILS_SHA384 :: u32 where "RSN_AUTH_KEY_MGMT_FILS_SHA384 \<equiv> 0x000FAC0F"
abbreviation (input) RSN_AUTH_KEY_MGMT_FT_FILS_SHA256 :: u32 where "RSN_AUTH_KEY_MGMT_FT_FILS_SHA256 \<equiv> 0x000FAC10"
abbreviation (input) RSN_AUTH_KEY_MGMT_FT_FILS_SHA384 :: u32 where "RSN_AUTH_KEY_MGMT_FT_FILS_SHA384 \<equiv> 0x000FAC11"
abbreviation (input) RSN_AUTH_KEY_MGMT_OWE :: u32 where "RSN_AUTH_KEY_MGMT_OWE \<equiv> 0x000FAC12"
abbreviation (input) RSN_AUTH_KEY_MGMT_OSEN :: u32 where "RSN_AUTH_KEY_MGMT_OSEN \<equiv> 0x506F9A01"
abbreviation (input) RSN_AUTH_KEY_MGMT_DPP :: u32 where "RSN_AUTH_KEY_MGMT_DPP \<equiv> 0x506F9A02"
abbreviation (input) RSN_CIPHER_SUITE_NONE :: u32 where "RSN_CIPHER_SUITE_NONE \<equiv> 0x000FAC00"
abbreviation (input) RSN_CIPHER_SUITE_TKIP :: u32 where "RSN_CIPHER_SUITE_TKIP \<equiv> 0x000FAC02"
abbreviation (input) RSN_CIPHER_SUITE_CCMP :: u32 where "RSN_CIPHER_SUITE_CCMP \<equiv> 0x000FAC04"
abbreviation (input) RSN_CIPHER_SUITE_AES_128_CMAC :: u32 where "RSN_CIPHER_SUITE_AES_128_CMAC \<equiv> 0x000FAC06"
abbreviation (input) RSN_CIPHER_SUITE_NO_GROUP_ADDRESSED :: u32 where "RSN_CIPHER_SUITE_NO_GROUP_ADDRESSED \<equiv> 0x000FAC07"
abbreviation (input) RSN_CIPHER_SUITE_GCMP :: u32 where "RSN_CIPHER_SUITE_GCMP \<equiv> 0x000FAC08"
abbreviation (input) RSN_CIPHER_SUITE_GCMP_256 :: u32 where "RSN_CIPHER_SUITE_GCMP_256 \<equiv> 0x000FAC09"
abbreviation (input) RSN_CIPHER_SUITE_CCMP_256 :: u32 where "RSN_CIPHER_SUITE_CCMP_256 \<equiv> 0x000FAC0A"
abbreviation (input) RSN_CIPHER_SUITE_BIP_GMAC_128 :: u32 where "RSN_CIPHER_SUITE_BIP_GMAC_128 \<equiv> 0x000FAC0B"
abbreviation (input) RSN_CIPHER_SUITE_BIP_GMAC_256 :: u32 where "RSN_CIPHER_SUITE_BIP_GMAC_256 \<equiv> 0x000FAC0C"
abbreviation (input) RSN_CIPHER_SUITE_BIP_CMAC_256 :: u32 where "RSN_CIPHER_SUITE_BIP_CMAC_256 \<equiv> 0x000FAC0D"
abbreviation (input) RSN_KEY_DATA_GROUPKEY :: u32 where "RSN_KEY_DATA_GROUPKEY \<equiv> 0x000FAC01"
abbreviation (input) RSN_KEY_DATA_MAC_ADDR :: u32 where "RSN_KEY_DATA_MAC_ADDR \<equiv> 0x000FAC03"
abbreviation (input) RSN_KEY_DATA_PMKID :: u32 where "RSN_KEY_DATA_PMKID \<equiv> 0x000FAC04"
abbreviation (input) RSN_KEY_DATA_IGTK :: u32 where "RSN_KEY_DATA_IGTK \<equiv> 0x000FAC09"
abbreviation (input) WFA_KEY_DATA_IP_ADDR_REQ :: u32 where "WFA_KEY_DATA_IP_ADDR_REQ \<equiv> 0x506F9A04"
abbreviation (input) WFA_KEY_DATA_IP_ADDR_ALLOC :: u32 where "WFA_KEY_DATA_IP_ADDR_ALLOC \<equiv> 0x506F9A05"
abbreviation (input) WPA_OUI_TYPE :: u32 where "WPA_OUI_TYPE \<equiv> 0x0050F201"

abbreviation (input) WPA_CAPABILITY_PREAUTH :: u16 where "WPA_CAPABILITY_PREAUTH \<equiv> 0x1"
abbreviation (input) WPA_CAPABILITY_MFPR :: u16 where "WPA_CAPABILITY_MFPR \<equiv> 0x40"
abbreviation (input) WPA_CAPABILITY_MFPC :: u16 where "WPA_CAPABILITY_MFPC \<equiv> 0x80"

abbreviation (input) OSEN_IE_VENDOR_TYPE :: u32 where "OSEN_IE_VENDOR_TYPE \<equiv> 0x506F9A12"
abbreviation (input) WLAN_EID_RSN :: u8 where "WLAN_EID_RSN \<equiv> 48"
abbreviation (input) WLAN_EID_MOBILITY_DOMAIN :: u8 where "WLAN_EID_MOBILITY_DOMAIN \<equiv> 54"
abbreviation (input) WLAN_EID_FAST_BSS_TRANSITION :: u8 where "WLAN_EID_FAST_BSS_TRANSITION \<equiv> 55"
abbreviation (input) WLAN_EID_VENDOR_SPECIFIC :: u8 where "WLAN_EID_VENDOR_SPECIFIC \<equiv> 221"
abbreviation (input) RSN_SELECTOR_LEN :: nat where "RSN_SELECTOR_LEN \<equiv> 4"
abbreviation (input) PMKID_LEN :: nat where "PMKID_LEN \<equiv> 16"
abbreviation (input) RSN_VERSION :: u16 where "RSN_VERSION \<equiv> 1"
abbreviation (input) WPA_VERSION :: u16 where "WPA_VERSION \<equiv> 1"

text \<open>The enumeration \<^verbatim>\<open>mfp_options\<close>.\<close>

datatype mfp_options = NO_MGMT_FRAME_PROTECTION | MGMT_FRAME_PROTECTION_OPTIONAL
  | MGMT_FRAME_PROTECTION_REQUIRED

subsection \<open>Reading a buffer\<close>

text \<open>\<open>n\<close> octets at offset \<open>pos\<close>; \<open>None\<close> is a read outside the buffer.\<close>

definition mem_read :: "bytes \<Rightarrow> nat \<Rightarrow> nat \<Rightarrow> bytes run" where
  "mem_read buf pos n = (if pos + n \<le> length buf then Some (take n (drop pos buf)) else None)"

lemma mem_read_Some: "pos + n \<le> length buf \<Longrightarrow> mem_read buf pos n = Some (take n (drop pos buf))"
  by (simp add: mem_read_def)

lemma mem_read_at: "length pre = pos \<Longrightarrow> length d = n \<Longrightarrow> mem_read (pre @ d @ post) pos n = Some d"
  by (simp add: mem_read_def)

subsection \<open>Runs that end well\<close>

definition runs :: "'a run \<Rightarrow> ('a \<Rightarrow> bool) \<Rightarrow> bool" where
  "runs m Q \<longleftrightarrow> (\<exists>x. m = Some x \<and> Q x)"

named_theorems twp \<open>rules for total correctness of a run\<close>

lemma runs_Some [twp]: "Q x \<Longrightarrow> runs (Some x) Q"
  by (simp add: runs_def)

lemma runs_bind [twp]: "runs m (\<lambda>x. runs (f x) Q) \<Longrightarrow> runs (m \<bind> f) Q"
  by (auto simp: runs_def)

lemma runs_if [twp]: "(b \<Longrightarrow> runs m Q) \<Longrightarrow> (\<not> b \<Longrightarrow> runs n Q) \<Longrightarrow> runs (if b then m else n) Q"
  by simp

lemma runs_pair [twp]: "runs (f a b) Q \<Longrightarrow> runs (case (a, b) of (x, y) \<Rightarrow> f x y) Q"
  by simp

lemma runs_mono: "runs m Q \<Longrightarrow> (\<And>x. Q x \<Longrightarrow> R x) \<Longrightarrow> runs m R"
  by (auto simp: runs_def)

lemma runs_mem_read [twp]:
  "pos + n \<le> length buf \<Longrightarrow> Q (take n (drop pos buf)) \<Longrightarrow> runs (mem_read buf pos n) Q"
  by (simp add: runs_def mem_read_def)

text \<open>Steps of a parser return a code; the first one that is not zero ends the function.\<close>

definition then_ok :: "(int \<times> 's) run \<Rightarrow> ('s \<Rightarrow> (int \<times> 's) run) \<Rightarrow> (int \<times> 's) run" where
  "then_ok m f = m \<bind> (\<lambda>(rc, s). if rc \<noteq> 0 then Some (rc, s) else f s)"

lemma then_ok_Some [simp]: "then_ok (Some (rc, s)) f = (if rc \<noteq> 0 then Some (rc, s) else f s)"
  by (simp add: then_ok_def)

lemma runs_then_ok:
  assumes "runs m (\<lambda>(rc, s). if rc \<noteq> 0 then Q (rc, s) else runs (f s) Q)"
  shows "runs (then_ok m f) Q"
  using assms by (auto simp: runs_def then_ok_def split: if_splits)

subsection \<open>Single bits\<close>

definition one_bit :: "u32 \<Rightarrow> bool" where
  "one_bit b \<longleftrightarrow> b \<in> set (map (\<lambda>n. push_bit n 1) [0..<32])"

lemma one_bit_and: "one_bit b \<Longrightarrow> c AND b = (if c AND b \<noteq> 0 then b else 0)"
  by (auto simp: one_bit_def push_bit_eq_mult and_exp_eq_0_iff_not_bit bit_simps intro!: bit_word_eqI)

end
