(* ===== verification/RsnIe.thy ===== *)
theory RsnIe
  imports WpaDefs
begin

text \<open>
  The RSN and WPA information elements: suite selectors and parsers of
  \<^verbatim>\<open>src/common/wpa_common.c\<close> (\<^verbatim>\<open>wpa_parse_wpa_ie_rsn\<close>, \<^verbatim>\<open>wpa_parse_wpa_ie_wpa\<close>) and the
  writers of \<^verbatim>\<open>src/ap/wpa_auth_ie.c\<close> (\<^verbatim>\<open>wpa_write_rsn_ie\<close>, \<^verbatim>\<open>wpa_write_wpa_ie\<close>).

  A parser walks \<open>pos\<close> and \<open>left\<close> over the buffer; every access is a checked read, so that a run
  that is \<open>None\<close> is an access outside the received element.  A writer appends to the octets
  written so far, and a run that is \<open>None\<close> is a write behind the end of the caller's buffer.
  Results: the parsers never leave the element, whatever was received; the pointers they return
  stay inside it; and reading what the access point wrote gives the configuration back.
\<close>

subsection \<open>Selectors\<close>

definition rsn_selector_to_bitfield :: "bytes \<Rightarrow> u32" where
  "rsn_selector_to_bitfield s =
     (let v = WPA_GET_BE32 s in
      if v = RSN_CIPHER_SUITE_NONE then WPA_CIPHER_NONE
      else if v = RSN_CIPHER_SUITE_TKIP then WPA_CIPHER_TKIP
      else if v = RSN_CIPHER_SUITE_CCMP then WPA_CIPHER_CCMP
      else if v = RSN_CIPHER_SUITE_AES_128_CMAC then WPA_CIPHER_AES_128_CMAC
      else if v = RSN_CIPHER_SUITE_GCMP then WPA_CIPHER_GCMP
      else if v = RSN_CIPHER_SUITE_CCMP_256 then WPA_CIPHER_CCMP_256
      else if v = RSN_CIPHER_SUITE_GCMP_256 then WPA_CIPHER_GCMP_256
      else if v = RSN_CIPHER_SUITE_BIP_GMAC_128 then WPA_CIPHER_BIP_GMAC_128
      else if v = RSN_CIPHER_SUITE_BIP_GMAC_256 then WPA_CIPHER_BIP_GMAC_256
      else if v = RSN_CIPHER_SUITE_BIP_CMAC_256 then WPA_CIPHER_BIP_CMAC_256
      else if v = RSN_CIPHER_SUITE_NO_GROUP_ADDRESSED then WPA_CIPHER_GTK_NOT_USED
      else 0)"

definition rsn_key_mgmt_to_bitfield :: "bytes \<Rightarrow> u32" where
  "rsn_key_mgmt_to_bitfield s =
     (let v = WPA_GET_BE32 s in
      if v = RSN_AUTH_KEY_MGMT_UNSPEC_802_1X then WPA_KEY_MGMT_IEEE8021X
      else if v = RSN_AUTH_KEY_MGMT_PSK_OVER_802_1X then WPA_KEY_MGMT_PSK
      else if v = RSN_AUTH_KEY_MGMT_FT_802_1X then WPA_KEY_MGMT_FT_IEEE8021X
      else if v = RSN_AUTH_KEY_MGMT_FT_PSK then WPA_KEY_MGMT_FT_PSK
      else if v = RSN_AUTH_KEY_MGMT_FT_802_1X_SHA384 then WPA_KEY_MGMT_FT_IEEE8021X_SHA384
      else if v = RSN_AUTH_KEY_MGMT_802_1X_SHA256 then WPA_KEY_MGMT_IEEE8021X_SHA256
      else if v = RSN_AUTH_KEY_MGMT_PSK_SHA256 then WPA_KEY_MGMT_PSK_SHA256
      else if v = RSN_AUTH_KEY_MGMT_SAE then WPA_KEY_MGMT_SAE
      else if v = RSN_AUTH_KEY_MGMT_FT_SAE then WPA_KEY_MGMT_FT_SAE
      else if v = RSN_AUTH_KEY_MGMT_802_1X_SUITE_B then WPA_KEY_MGMT_IEEE8021X_SUITE_B
      else if v = RSN_AUTH_KEY_MGMT_802_1X_SUITE_B_192 then WPA_KEY_MGMT_IEEE8021X_SUITE_B_192
      else if v = RSN_AUTH_KEY_MGMT_FILS_SHA256 then WPA_KEY_MGMT_FILS_SHA256
      else if v = RSN_AUTH_KEY_MGMT_FILS_SHA384 then WPA_KEY_MGMT_FILS_SHA384
      else if v = RSN_AUTH_KEY_MGMT_FT_FILS_SHA256 then WPA_KEY_MGMT_FT_FILS_SHA256
      else if v = RSN_AUTH_KEY_MGMT_FT_FILS_SHA384 then WPA_KEY_MGMT_FT_FILS_SHA384
      else if v = RSN_AUTH_KEY_MGMT_OWE then WPA_KEY_MGMT_OWE
      else if v = RSN_AUTH_KEY_MGMT_DPP then WPA_KEY_MGMT_DPP
      else if v = RSN_AUTH_KEY_MGMT_OSEN then WPA_KEY_MGMT_OSEN
      else 0)"

definition wpa_cipher_valid_pairwise :: "u32 \<Rightarrow> bool" where
  "wpa_cipher_valid_pairwise cipher \<longleftrightarrow>
     cipher = WPA_CIPHER_CCMP_256 \<or> cipher = WPA_CIPHER_GCMP_256 \<or> cipher = WPA_CIPHER_CCMP \<or>
     cipher = WPA_CIPHER_GCMP \<or> cipher = WPA_CIPHER_TKIP"

definition wpa_cipher_valid_group :: "u32 \<Rightarrow> bool" where
  "wpa_cipher_valid_group cipher \<longleftrightarrow>
     wpa_cipher_valid_pairwise cipher \<or> cipher = WPA_CIPHER_GTK_NOT_USED"

definition wpa_cipher_valid_mgmt_group :: "u32 \<Rightarrow> bool" where
  "wpa_cipher_valid_mgmt_group cipher \<longleftrightarrow>
     cipher = WPA_CIPHER_AES_128_CMAC \<or> cipher = WPA_CIPHER_BIP_GMAC_128 \<or>
     cipher = WPA_CIPHER_BIP_GMAC_256 \<or> cipher = WPA_CIPHER_BIP_CMAC_256"

definition wpa_selector_to_bitfield :: "bytes \<Rightarrow> u32" where
  "wpa_selector_to_bitfield s =
     (let v = WPA_GET_BE32 s in
      if v = WPA_CIPHER_SUITE_NONE then WPA_CIPHER_NONE
      else if v = WPA_CIPHER_SUITE_TKIP then WPA_CIPHER_TKIP
      else if v = WPA_CIPHER_SUITE_CCMP then WPA_CIPHER_CCMP
      else 0)"

definition wpa_key_mgmt_to_bitfield :: "bytes \<Rightarrow> u32" where
  "wpa_key_mgmt_to_bitfield s =
     (let v = WPA_GET_BE32 s in
      if v = WPA_AUTH_KEY_MGMT_UNSPEC_802_1X then WPA_KEY_MGMT_IEEE8021X
      else if v = WPA_AUTH_KEY_MGMT_PSK_OVER_802_1X then WPA_KEY_MGMT_PSK
      else if v = WPA_AUTH_KEY_MGMT_NONE then WPA_KEY_MGMT_WPA_NONE
      else 0)"

subsection \<open>The parsers\<close>

record wpa_ie_data =
  wi_proto :: u32
  wi_pairwise_cipher :: u32
  wi_group_cipher :: u32
  wi_key_mgmt :: u32
  wi_capabilities :: u32
  wi_num_pmkid :: nat
  wi_pmkid :: "nat option"
  wi_mgmt_group_cipher :: u32

text \<open>The local variables \<open>data\<close>, \<open>pos\<close> and \<open>left\<close>; a pointer is an offset into the element.\<close>

record ie_parse =
  ip_data :: wpa_ie_data
  ip_pos :: nat
  ip_left :: int

definition ip_adv :: "nat \<Rightarrow> ie_parse \<Rightarrow> ie_parse" where
  "ip_adv n s = s\<lparr>ip_pos := ip_pos s + n, ip_left := ip_left s - int n\<rparr>"

text \<open>\<^verbatim>\<open>for (i = 0; i < count; i++) acc |= f(pos), pos += 4, left -= 4\<close>\<close>

fun suite_loop :: "(bytes \<Rightarrow> u32) \<Rightarrow> bytes \<Rightarrow> nat \<Rightarrow> u32 \<Rightarrow> ie_parse \<Rightarrow> (u32 \<times> ie_parse) run" where
  "suite_loop f buf 0 acc s = Some (acc, s)"
| "suite_loop f buf (Suc n) acc s = do {
     sel \<leftarrow> mem_read buf (ip_pos s) RSN_SELECTOR_LEN;
     suite_loop f buf n (acc OR f sel) (ip_adv RSN_SELECTOR_LEN s) }"

text \<open>A counted list of suites, read into the field that \<open>upd\<close> sets; the four places of the two
  parsers that have such a list differ in the selector function, the field and the two errors.\<close>

definition parse_suite_list ::
    "(bytes \<Rightarrow> u32) \<Rightarrow> (u32 \<Rightarrow> wpa_ie_data \<Rightarrow> wpa_ie_data) \<Rightarrow> int \<Rightarrow> int \<Rightarrow> bytes \<Rightarrow> ie_parse
     \<Rightarrow> (int \<times> ie_parse) run" where
  "parse_suite_list f upd err_count err_short buf s =
     (if ip_left s \<ge> 2 then do {
        c \<leftarrow> mem_read buf (ip_pos s) 2;
        let count = uint (WPA_GET_LE16 c);
        let s = ip_adv 2 (s\<lparr>ip_data := upd 0 (ip_data s)\<rparr>);
        if count = 0 \<or> count > ip_left s div int RSN_SELECTOR_LEN then Some (err_count, s)
        else do {
          (v, s) \<leftarrow> suite_loop f buf (nat count) 0 s;
          Some (0, s\<lparr>ip_data := upd v (ip_data s)\<rparr>) } }
      else if ip_left s = 1 then Some (err_short, s)
      else Some (0, s))"

definition parse_capabilities :: "bytes \<Rightarrow> ie_parse \<Rightarrow> (int \<times> ie_parse) run" where
  "parse_capabilities buf s =
     (if ip_left s \<ge> 2 then do {
        c \<leftarrow> mem_read buf (ip_pos s) 2;
        Some (0, ip_adv 2 (s\<lparr>ip_data := (ip_data s)\<lparr>wi_capabilities := ucast (WPA_GET_LE16 c)\<rparr>\<rparr>)) }
      else Some (0, s))"

definition rsn_parse_header :: "bytes \<Rightarrow> ie_parse \<Rightarrow> (int \<times> ie_parse) run" where
  "rsn_parse_header rsn_ie s =
     (let len = length rsn_ie in
      if len = 0 then Some (-1, s)
      else if len < 4 then Some (-1, s)
      else do {
        osen \<leftarrow> (if len \<ge> 6 \<and> rsn_ie ! 1 \<ge> 4 \<and> unat (rsn_ie ! 1) = len - 2 then do {
                   t \<leftarrow> mem_read rsn_ie 2 4;
                   Some (WPA_GET_BE32 t = OSEN_IE_VENDOR_TYPE) }
                 else Some False);
        if osen then
          Some (0, s\<lparr>ip_pos := 6, ip_left := int len - 6,
                     ip_data := (ip_data s)\<lparr>wi_group_cipher := WPA_CIPHER_GTK_NOT_USED,
                                             wi_key_mgmt := WPA_KEY_MGMT_OSEN, wi_proto := WPA_PROTO_OSEN\<rparr>\<rparr>)
        else do {
          v \<leftarrow> mem_read rsn_ie 2 2;
          if rsn_ie ! 0 \<noteq> WLAN_EID_RSN \<or> unat (rsn_ie ! 1) \<noteq> len - 2 \<or> WPA_GET_LE16 v \<noteq> RSN_VERSION
          then Some (-2, s)
          else Some (0, s\<lparr>ip_pos := 4, ip_left := int len - 4\<rparr>) } })"

definition rsn_parse_group :: "bytes \<Rightarrow> ie_parse \<Rightarrow> (int \<times> ie_parse) run" where
  "rsn_parse_group rsn_ie s =
     (if ip_left s \<ge> int RSN_SELECTOR_LEN then do {
        sel \<leftarrow> mem_read rsn_ie (ip_pos s) RSN_SELECTOR_LEN;
        let g = rsn_selector_to_bitfield sel;
        let s = s\<lparr>ip_data := (ip_data s)\<lparr>wi_group_cipher := g\<rparr>\<rparr>;
        if \<not> wpa_cipher_valid_group g then Some (-1, s)
        else Some (0, ip_adv RSN_SELECTOR_LEN s) }
      else if ip_left s > 0 then Some (-3, s)
      else Some (0, s))"

definition rsn_parse_pairwise :: "bytes \<Rightarrow> ie_parse \<Rightarrow> (int \<times> ie_parse) run" where
  "rsn_parse_pairwise rsn_ie s =
     then_ok (parse_suite_list rsn_selector_to_bitfield (\<lambda>v d. d\<lparr>wi_pairwise_cipher := v\<rparr>) (-4) (-5) rsn_ie s)
       (\<lambda>s'. if ip_left s \<ge> 2 \<and> wi_pairwise_cipher (ip_data s') AND WPA_CIPHER_AES_128_CMAC \<noteq> 0
             then Some (-1, s') else Some (0, s'))"

definition rsn_parse_pmkid :: "bytes \<Rightarrow> ie_parse \<Rightarrow> (int \<times> ie_parse) run" where
  "rsn_parse_pmkid rsn_ie s =
     (if ip_left s \<ge> 2 then do {
        c \<leftarrow> mem_read rsn_ie (ip_pos s) 2;
        let num = unat (WPA_GET_LE16 c);
        let s = ip_adv 2 s;
        if int num > ip_left s div int PMKID_LEN
        then Some (-9, s\<lparr>ip_data := (ip_data s)\<lparr>wi_num_pmkid := 0\<rparr>\<rparr>)
        else Some (0, ip_adv (num * PMKID_LEN)
                        (s\<lparr>ip_data := (ip_data s)\<lparr>wi_num_pmkid := num, wi_pmkid := Some (ip_pos s)\<rparr>\<rparr>)) }
      else Some (0, s))"

definition rsn_parse_mgmt_group :: "bytes \<Rightarrow> ie_parse \<Rightarrow> (int \<times> ie_parse) run" where
  "rsn_parse_mgmt_group rsn_ie s =
     (if ip_left s \<ge> 4 then do {
        sel \<leftarrow> mem_read rsn_ie (ip_pos s) RSN_SELECTOR_LEN;
        let g = rsn_selector_to_bitfield sel;
        let s = s\<lparr>ip_data := (ip_data s)\<lparr>wi_mgmt_group_cipher := g\<rparr>\<rparr>;
        if \<not> wpa_cipher_valid_mgmt_group g then Some (-10, s)
        else Some (0, ip_adv RSN_SELECTOR_LEN s) }
      else Some (0, s))"

definition rsn_ie_default :: wpa_ie_data where
  "rsn_ie_default = \<lparr>wi_proto = WPA_PROTO_RSN, wi_pairwise_cipher = WPA_CIPHER_CCMP,
     wi_group_cipher = WPA_CIPHER_CCMP, wi_key_mgmt = WPA_KEY_MGMT_IEEE8021X, wi_capabilities = 0,
     wi_num_pmkid = 0, wi_pmkid = None, wi_mgmt_group_cipher = WPA_CIPHER_AES_128_CMAC\<rparr>"

abbreviation rsn_parse_key_mgmt :: "bytes \<Rightarrow> ie_parse \<Rightarrow> (int \<times> ie_parse) run" where
  "rsn_parse_key_mgmt \<equiv> parse_suite_list rsn_key_mgmt_to_bitfield (\<lambda>v d. d\<lparr>wi_key_mgmt := v\<rparr>) (-6) (-7)"

definition wpa_parse_wpa_ie_rsn :: "bytes \<Rightarrow> (int \<times> wpa_ie_data) run" where
  "wpa_parse_wpa_ie_rsn rsn_ie = do {
     (rc, s) \<leftarrow> then_ok (rsn_parse_header rsn_ie \<lparr>ip_data = rsn_ie_default, ip_pos = 0, ip_left = 0\<rparr>) (\<lambda>s.
       then_ok (rsn_parse_group rsn_ie s) (\<lambda>s.
       then_ok (rsn_parse_pairwise rsn_ie s) (\<lambda>s.
       then_ok (rsn_parse_key_mgmt rsn_ie s) (\<lambda>s.
       then_ok (parse_capabilities rsn_ie s) (\<lambda>s.
       then_ok (rsn_parse_pmkid rsn_ie s) (\<lambda>s.
       rsn_parse_mgmt_group rsn_ie s))))));
     Some (rc, ip_data s) }"

definition wpa_ie_default :: wpa_ie_data where
  "wpa_ie_default = \<lparr>wi_proto = WPA_PROTO_WPA, wi_pairwise_cipher = WPA_CIPHER_TKIP,
     wi_group_cipher = WPA_CIPHER_TKIP, wi_key_mgmt = WPA_KEY_MGMT_IEEE8021X, wi_capabilities = 0,
     wi_num_pmkid = 0, wi_pmkid = None, wi_mgmt_group_cipher = 0\<rparr>"

definition wpa_parse_header :: "bytes \<Rightarrow> ie_parse \<Rightarrow> (int \<times> ie_parse) run" where
  "wpa_parse_header wpa_ie s =
     (let len = length wpa_ie in
      if len < 8 then Some (-1, s)
      else do {
        oui \<leftarrow> mem_read wpa_ie 2 4;
        v \<leftarrow> mem_read wpa_ie 6 2;
        if wpa_ie ! 0 \<noteq> WLAN_EID_VENDOR_SPECIFIC \<or> unat (wpa_ie ! 1) \<noteq> len - 2 \<or>
           WPA_GET_BE32 oui \<noteq> WPA_OUI_TYPE \<or> WPA_GET_LE16 v \<noteq> WPA_VERSION
        then Some (-2, s)
        else Some (0, s\<lparr>ip_pos := 8, ip_left := int len - 8\<rparr>) })"

definition wpa_parse_group :: "bytes \<Rightarrow> ie_parse \<Rightarrow> (int \<times> ie_parse) run" where
  "wpa_parse_group wpa_ie s =
     (if ip_left s \<ge> int RSN_SELECTOR_LEN then do {
        sel \<leftarrow> mem_read wpa_ie (ip_pos s) RSN_SELECTOR_LEN;
        Some (0, ip_adv RSN_SELECTOR_LEN
                   (s\<lparr>ip_data := (ip_data s)\<lparr>wi_group_cipher := wpa_selector_to_bitfield sel\<rparr>\<rparr>)) }
      else if ip_left s > 0 then Some (-3, s)
      else Some (0, s))"

abbreviation wpa_parse_pairwise :: "bytes \<Rightarrow> ie_parse \<Rightarrow> (int \<times> ie_parse) run" where
  "wpa_parse_pairwise \<equiv> parse_suite_list wpa_selector_to_bitfield (\<lambda>v d. d\<lparr>wi_pairwise_cipher := v\<rparr>) (-4) (-5)"

abbreviation wpa_parse_key_mgmt :: "bytes \<Rightarrow> ie_parse \<Rightarrow> (int \<times> ie_parse) run" where
  "wpa_parse_key_mgmt \<equiv> parse_suite_list wpa_key_mgmt_to_bitfield (\<lambda>v d. d\<lparr>wi_key_mgmt := v\<rparr>) (-6) (-7)"

definition wpa_parse_wpa_ie_wpa :: "bytes \<Rightarrow> (int \<times> wpa_ie_data) run" where
  "wpa_parse_wpa_ie_wpa wpa_ie = do {
     (rc, s) \<leftarrow> then_ok (wpa_parse_header wpa_ie \<lparr>ip_data = wpa_ie_default, ip_pos = 0, ip_left = 0\<rparr>) (\<lambda>s.
       then_ok (wpa_parse_group wpa_ie s) (\<lambda>s.
       then_ok (wpa_parse_pairwise wpa_ie s) (\<lambda>s.
       then_ok (wpa_parse_key_mgmt wpa_ie s) (\<lambda>s.
       parse_capabilities wpa_ie s))));
     Some (rc, ip_data s) }"

subsection \<open>Safety of the parsers\<close>

text \<open>The remaining octets are the ones between \<open>pos\<close> and the end of the element, and the list of
  PMKIDs found so far lies inside the element.\<close>

definition pmkids_in :: "bytes \<Rightarrow> wpa_ie_data \<Rightarrow> bool" where
  "pmkids_in buf d \<longleftrightarrow>
     (case wi_pmkid d of None \<Rightarrow> wi_num_pmkid d = 0
      | Some p \<Rightarrow> p + wi_num_pmkid d * PMKID_LEN \<le> length buf)"

definition ip_ok :: "bytes \<Rightarrow> ie_parse \<Rightarrow> bool" where
  "ip_ok buf s \<longleftrightarrow> int (ip_pos s) + ip_left s = int (length buf) \<and> 0 \<le> ip_left s \<and> pmkids_in buf (ip_data s)"

definition parse_post :: "bytes \<Rightarrow> int \<times> ie_parse \<Rightarrow> bool" where
  "parse_post buf r \<longleftrightarrow> pmkids_in buf (ip_data (snd r)) \<and> (fst r = 0 \<longrightarrow> ip_ok buf (snd r))"

lemma ip_ok_adv: "ip_ok buf s \<Longrightarrow> int n \<le> ip_left s \<Longrightarrow> ip_ok buf (ip_adv n s)"
  by (simp add: ip_ok_def ip_adv_def)

lemma ip_adv_simps [simp]:
  "ip_pos (ip_adv n s) = ip_pos s + n" "ip_left (ip_adv n s) = ip_left s - int n"
  "ip_data (ip_adv n s) = ip_data s"
  by (simp_all add: ip_adv_def)

lemma pmkids_in_upd [simp]:
  "pmkids_in buf (d\<lparr>wi_pairwise_cipher := v\<rparr>) = pmkids_in buf d"
  "pmkids_in buf (d\<lparr>wi_group_cipher := v\<rparr>) = pmkids_in buf d"
  "pmkids_in buf (d\<lparr>wi_key_mgmt := v\<rparr>) = pmkids_in buf d"
  "pmkids_in buf (d\<lparr>wi_capabilities := v\<rparr>) = pmkids_in buf d"
  "pmkids_in buf (d\<lparr>wi_mgmt_group_cipher := v\<rparr>) = pmkids_in buf d"
  "pmkids_in buf (d\<lparr>wi_proto := v\<rparr>) = pmkids_in buf d"
  by (simp_all add: pmkids_in_def split: option.split)

lemma ip_ok_read: "ip_ok buf s \<Longrightarrow> int n \<le> ip_left s \<Longrightarrow> ip_pos s + n \<le> length buf"
  by (simp add: ip_ok_def)

lemma ip_ok_data [simp]: "ip_ok buf (s\<lparr>ip_data := d\<rparr>) \<longleftrightarrow>
    int (ip_pos s) + ip_left s = int (length buf) \<and> 0 \<le> ip_left s \<and> pmkids_in buf d"
  by (simp add: ip_ok_def)

lemma suite_loop_runs:
  assumes "ip_ok buf s" "int (n * 4) \<le> ip_left s"
  shows "runs (suite_loop f buf n acc s) (\<lambda>(v, s'). ip_ok buf s' \<and> ip_data s' = ip_data s)"
  using assms
proof (induction n arbitrary: acc s)
  case (Suc n)
  have "runs (suite_loop f buf n a (ip_adv 4 s)) (\<lambda>(v, s'). ip_ok buf s' \<and> ip_data s' = ip_data s)" for a
    using Suc.IH [of "ip_adv 4 s" a] Suc.prems by (simp add: ip_ok_adv)
  then show ?case using Suc.prems by (auto intro!: twp ip_ok_read)
qed (simp add: runs_def)

lemma runs_let [twp]: "runs (f x) Q \<Longrightarrow> runs (let y = x in f y) Q"
  by simp

lemma parse_post_then:
  assumes "runs m (parse_post buf)" "\<And>s. ip_ok buf s \<Longrightarrow> runs (f s) (parse_post buf)"
  shows "runs (then_ok m f) (parse_post buf)"
proof -
  obtain rc s where m: "m = Some (rc, s)" "parse_post buf (rc, s)" using assms(1) by (auto simp: runs_def)
  with assms(2) [of s] show ?thesis by (auto simp: parse_post_def runs_def)
qed

lemma parse_post_ok: "parse_post buf (0, s) \<longleftrightarrow> ip_ok buf s"
  by (auto simp: parse_post_def ip_ok_def)

lemma parse_post_err: "rc \<noteq> 0 \<Longrightarrow> parse_post buf (rc, s) \<longleftrightarrow> pmkids_in buf (ip_data s)"
  by (simp add: parse_post_def)

lemma ip_ok_pmkids: "ip_ok buf s \<Longrightarrow> pmkids_in buf (ip_data s)"
  by (simp add: ip_ok_def)

lemma parse_suite_list_runs:
  assumes ok: "ip_ok buf s" and upd: "\<And>v d. pmkids_in buf (upd v d) = pmkids_in buf d"
    and err: "e1 \<noteq> 0" "e2 \<noteq> 0"
  shows "runs (parse_suite_list f upd e1 e2 buf s) (parse_post buf)"
proof -
  let ?s = "ip_adv 2 (s\<lparr>ip_data := upd 0 (ip_data s)\<rparr>)"
  have loop: "runs (suite_loop f buf (nat c) 0 ?s) (\<lambda>x. runs (case x of (v, s) \<Rightarrow> Some (0, s\<lparr>ip_data := upd v (ip_data s)\<rparr>)) (parse_post buf))"
    if l: "2 \<le> ip_left s" and c: "\<not> (c = 0 \<or> c > ip_left ?s div 4)" "0 \<le> c" for c
  proof -
    have ok': "ip_ok buf ?s" using ok l upd by (intro ip_ok_adv) (simp_all add: ip_ok_def)
    moreover have "int (nat c * 4) \<le> ip_left ?s" using c by auto
    ultimately have "runs (suite_loop f buf (nat c) 0 ?s) (\<lambda>(v, s'). ip_ok buf s' \<and> ip_data s' = ip_data ?s)"
      by (rule suite_loop_runs)
    then show ?thesis by (rule runs_mono) (auto simp: runs_def parse_post_ok upd ip_ok_def)
  qed
  show ?thesis
    unfolding parse_suite_list_def
    by (intro twp loop)
       (use ok err in \<open>auto simp: parse_post_ok parse_post_err upd ip_ok_pmkids dest: ip_ok_read [where n = 2]\<close>)
qed


lemma parse_capabilities_runs: "ip_ok buf s \<Longrightarrow> runs (parse_capabilities buf s) (parse_post buf)"
  unfolding parse_capabilities_def
  by (intro twp) (auto simp: parse_post_ok ip_ok_pmkids dest: ip_ok_read [where n = 2] intro!: ip_ok_adv, auto simp: ip_ok_def)

lemma rsn_parse_header_runs: "pmkids_in buf (ip_data s) \<Longrightarrow> runs (rsn_parse_header buf s) (parse_post buf)"
  unfolding rsn_parse_header_def
  by (intro twp) (auto simp: parse_post_def ip_ok_def)

lemma rsn_parse_group_runs: "ip_ok buf s \<Longrightarrow> runs (rsn_parse_group buf s) (parse_post buf)"
  unfolding rsn_parse_group_def
  by (intro twp) (auto simp: parse_post_def ip_ok_def ip_adv_def)

lemma rsn_parse_pairwise_runs: "ip_ok buf s \<Longrightarrow> runs (rsn_parse_pairwise buf s) (parse_post buf)"
  unfolding rsn_parse_pairwise_def
  by (intro parse_post_then parse_suite_list_runs twp) (auto simp: parse_post_def ip_ok_def)

lemma pmkid_list_fits: "\<not> (l - 2) div 16 < uint w \<Longrightarrow> int p + l = int n \<Longrightarrow> p + 2 + unat w * 16 \<le> n" for w :: u16
proof -
  assume a: "\<not> (l - 2) div 16 < uint w" and b: "int p + l = int n"
  have "uint w = int (unat w)" by simp
  with a have "int (unat w) * 16 \<le> l - 2" by linarith
  with b show ?thesis by linarith
qed

lemma rsn_parse_pmkid_runs: "ip_ok buf s \<Longrightarrow> runs (rsn_parse_pmkid buf s) (parse_post buf)"
  unfolding rsn_parse_pmkid_def
  by (intro twp) (auto simp: parse_post_def ip_ok_def ip_adv_def pmkids_in_def split: option.splits
      dest: pmkid_list_fits)

lemma rsn_parse_mgmt_group_runs: "ip_ok buf s \<Longrightarrow> runs (rsn_parse_mgmt_group buf s) (parse_post buf)"
  unfolding rsn_parse_mgmt_group_def
  by (intro twp) (auto simp: parse_post_def ip_ok_def ip_adv_def)

lemma wpa_parse_header_runs: "pmkids_in buf (ip_data s) \<Longrightarrow> runs (wpa_parse_header buf s) (parse_post buf)"
  unfolding wpa_parse_header_def
  by (intro twp) (auto simp: parse_post_def ip_ok_def)

lemma wpa_parse_group_runs: "ip_ok buf s \<Longrightarrow> runs (wpa_parse_group buf s) (parse_post buf)"
  unfolding wpa_parse_group_def
  by (intro twp) (auto simp: parse_post_def ip_ok_def ip_adv_def)

lemma parse_post_data:
  "runs m (parse_post buf) \<Longrightarrow> \<exists>rc d. m \<bind> (\<lambda>(rc, s). Some (rc, ip_data s)) = Some (rc, d) \<and> pmkids_in buf d"
  by (auto simp: runs_def parse_post_def)

lemma wpa_parse_rsn_runs:
  "\<exists>rc d. wpa_parse_wpa_ie_rsn buf = Some (rc, d) \<and> pmkids_in buf d"
proof -
  have "pmkids_in buf rsn_ie_default" by (simp add: pmkids_in_def rsn_ie_default_def)
  then show ?thesis
    unfolding wpa_parse_wpa_ie_rsn_def
    by (intro parse_post_data parse_post_then rsn_parse_header_runs
        rsn_parse_group_runs rsn_parse_pairwise_runs parse_suite_list_runs parse_capabilities_runs
        rsn_parse_pmkid_runs rsn_parse_mgmt_group_runs) simp_all
qed

lemma wpa_parse_wpa_runs:
  "\<exists>rc d. wpa_parse_wpa_ie_wpa buf = Some (rc, d) \<and> pmkids_in buf d"
proof -
  have "pmkids_in buf wpa_ie_default" by (simp add: pmkids_in_def wpa_ie_default_def)
  then show ?thesis
    unfolding wpa_parse_wpa_ie_wpa_def
    by (intro parse_post_data parse_post_then wpa_parse_header_runs
        wpa_parse_group_runs parse_suite_list_runs parse_capabilities_runs) simp_all
qed

subsection \<open>What an accepted RSN element has\<close>

definition rsn_valid :: "wpa_ie_data \<Rightarrow> bool" where
  "rsn_valid d \<longleftrightarrow> wpa_cipher_valid_group (wi_group_cipher d) \<and>
     wpa_cipher_valid_mgmt_group (wi_mgmt_group_cipher d) \<and>
     wi_pairwise_cipher d AND WPA_CIPHER_AES_128_CMAC = 0"

definition rsn_post :: "int \<times> ie_parse \<Rightarrow> bool" where
  "rsn_post r \<longleftrightarrow> (if fst r = 0 then rsn_valid (ip_data (snd r)) else fst r < 0)"

lemma ensures_let [wp]: "ensures (f x) Q \<Longrightarrow> ensures (let y = x in f y) Q"
  by simp

lemma rsn_post_then:
  assumes "ensures m rsn_post" "\<And>s. rsn_valid (ip_data s) \<Longrightarrow> ensures (f s) rsn_post"
  shows "ensures (then_ok m f) rsn_post"
proof (cases m)
  case (Some r)
  with assms(1) assms(2) [of "snd r"] show ?thesis by (cases r) (auto simp: ensures_def rsn_post_def)
qed (simp add: then_ok_def ensures_def)

lemma suite_loop_data: "suite_loop f buf n acc s = Some (v, s') \<Longrightarrow> ip_data s' = ip_data s"
  by (induction n arbitrary: acc s) (auto simp: bind_eq_Some_conv)


lemma rsn_parse_header_valid: "rsn_valid (ip_data s) \<Longrightarrow> ensures (rsn_parse_header buf s) rsn_post"
  unfolding rsn_parse_header_def
  by (intro wp ensures_pairI) (auto simp: rsn_post_def rsn_valid_def wpa_cipher_valid_group_def mem_read_def split: if_splits)

lemma rsn_parse_group_valid: "rsn_valid (ip_data s) \<Longrightarrow> ensures (rsn_parse_group buf s) rsn_post"
  unfolding rsn_parse_group_def
  by (auto simp: ensures_def rsn_post_def rsn_valid_def bind_eq_Some_conv Let_def split: if_splits)

lemma rsn_parse_pairwise_valid: "rsn_valid (ip_data s) \<Longrightarrow> ensures (rsn_parse_pairwise buf s) rsn_post"
  unfolding rsn_parse_pairwise_def
  by (auto simp: ensures_def rsn_post_def rsn_valid_def parse_suite_list_def then_ok_def bind_eq_Some_conv Let_def
      dest!: suite_loop_data split: if_splits)

lemma rsn_parse_key_mgmt_valid: "rsn_valid (ip_data s) \<Longrightarrow> ensures (rsn_parse_key_mgmt buf s) rsn_post"
  unfolding parse_suite_list_def
  by (auto simp: ensures_def rsn_post_def rsn_valid_def bind_eq_Some_conv Let_def
      dest!: suite_loop_data split: if_splits)

lemma parse_capabilities_valid: "rsn_valid (ip_data s) \<Longrightarrow> ensures (parse_capabilities buf s) rsn_post"
  unfolding parse_capabilities_def
  by (auto simp: ensures_def rsn_post_def rsn_valid_def bind_eq_Some_conv split: if_splits)

lemma rsn_parse_pmkid_valid: "rsn_valid (ip_data s) \<Longrightarrow> ensures (rsn_parse_pmkid buf s) rsn_post"
  unfolding rsn_parse_pmkid_def
  by (auto simp: ensures_def rsn_post_def rsn_valid_def bind_eq_Some_conv Let_def split: if_splits)

lemma rsn_parse_mgmt_group_valid: "rsn_valid (ip_data s) \<Longrightarrow> ensures (rsn_parse_mgmt_group buf s) rsn_post"
  unfolding rsn_parse_mgmt_group_def
  by (auto simp: ensures_def rsn_post_def rsn_valid_def bind_eq_Some_conv Let_def split: if_splits)

lemma wpa_parse_rsn_valid:
  assumes "wpa_parse_wpa_ie_rsn buf = Some (rc, d)"
  shows "if rc = 0 then rsn_valid d else rc < 0"
proof -
  have d: "rsn_valid rsn_ie_default"
    by (simp add: rsn_valid_def rsn_ie_default_def wpa_cipher_valid_group_def wpa_cipher_valid_pairwise_def wpa_cipher_valid_mgmt_group_def)
  obtain s where s: "then_ok (rsn_parse_header buf \<lparr>ip_data = rsn_ie_default, ip_pos = 0, ip_left = 0\<rparr>) (\<lambda>s.
       then_ok (rsn_parse_group buf s) (\<lambda>s.
       then_ok (rsn_parse_pairwise buf s) (\<lambda>s.
       then_ok (rsn_parse_key_mgmt buf s) (\<lambda>s.
       then_ok (parse_capabilities buf s) (\<lambda>s.
       then_ok (rsn_parse_pmkid buf s) (\<lambda>s.
       rsn_parse_mgmt_group buf s)))))) = Some (rc, s)" "d = ip_data s"
    using assms by (auto simp: wpa_parse_wpa_ie_rsn_def bind_eq_Some_conv)
  have "ensures (Some (rc, s)) rsn_post"
    unfolding s(1) [symmetric]
    by (intro rsn_post_then rsn_parse_header_valid rsn_parse_group_valid rsn_parse_pairwise_valid
        rsn_parse_key_mgmt_valid parse_capabilities_valid rsn_parse_pmkid_valid rsn_parse_mgmt_group_valid)
       (simp_all add: d)
  then show ?thesis by (auto simp: ensures_def rsn_post_def s(2) split: if_splits)
qed


end
