(* ===== verification/RsnWrite.thy ===== *)
theory RsnWrite
  imports RsnIe
begin

text \<open>
  Writing the access point's own elements: cipher tables of \<^verbatim>\<open>src/common/wpa_common.c\<close>
  (\<^verbatim>\<open>wpa_cipher_to_suite\<close>, \<^verbatim>\<open>rsn_cipher_put_suites\<close>, \<^verbatim>\<open>wpa_cipher_put_suites\<close>,
  \<^verbatim>\<open>wpa_pick_*_cipher\<close>) and \<^verbatim>\<open>wpa_write_wpa_ie\<close>, \<^verbatim>\<open>wpa_write_rsn_ie\<close>, \<^verbatim>\<open>wpa_write_osen\<close>,
  \<^verbatim>\<open>wpa_auth_gen_wpa_ie\<close> of \<^verbatim>\<open>src/ap/wpa_auth_ie.c\<close> with \<^verbatim>\<open>wpa_write_mdie\<close> of
  \<^verbatim>\<open>src/ap/wpa_auth_ft.c\<close>.

  A writer appends to the octets written so far; \<open>put\<close> is \<open>None\<close> when the caller's buffer is too
  short, which the C code does not check everywhere.  The length of the element and the number of
  suites, which the code stores when they are known, are written in place; allocation of the copy
  that \<^verbatim>\<open>wpa_auth_gen_wpa_ie\<close> keeps is taken to succeed.  Suites that a
  sequence of \<^verbatim>\<open>if\<close> statements puts one by one are tables of bit and selector in the order of the
  statements.
\<close>

subsection \<open>Ciphers\<close>

definition wpa_cipher_to_suite :: "u32 \<Rightarrow> u32 \<Rightarrow> u32" where
  "wpa_cipher_to_suite proto cipher =
     (if cipher AND WPA_CIPHER_CCMP_256 \<noteq> 0 then RSN_CIPHER_SUITE_CCMP_256
      else if cipher AND WPA_CIPHER_GCMP_256 \<noteq> 0 then RSN_CIPHER_SUITE_GCMP_256
      else if cipher AND WPA_CIPHER_CCMP \<noteq> 0
      then (if proto = WPA_PROTO_RSN then RSN_CIPHER_SUITE_CCMP else WPA_CIPHER_SUITE_CCMP)
      else if cipher AND WPA_CIPHER_GCMP \<noteq> 0 then RSN_CIPHER_SUITE_GCMP
      else if cipher AND WPA_CIPHER_TKIP \<noteq> 0
      then (if proto = WPA_PROTO_RSN then RSN_CIPHER_SUITE_TKIP else WPA_CIPHER_SUITE_TKIP)
      else if cipher AND WPA_CIPHER_NONE \<noteq> 0
      then (if proto = WPA_PROTO_RSN then RSN_CIPHER_SUITE_NONE else WPA_CIPHER_SUITE_NONE)
      else if cipher AND WPA_CIPHER_GTK_NOT_USED \<noteq> 0 then RSN_CIPHER_SUITE_NO_GROUP_ADDRESSED
      else if cipher AND WPA_CIPHER_AES_128_CMAC \<noteq> 0 then RSN_CIPHER_SUITE_AES_128_CMAC
      else if cipher AND WPA_CIPHER_BIP_GMAC_128 \<noteq> 0 then RSN_CIPHER_SUITE_BIP_GMAC_128
      else if cipher AND WPA_CIPHER_BIP_GMAC_256 \<noteq> 0 then RSN_CIPHER_SUITE_BIP_GMAC_256
      else if cipher AND WPA_CIPHER_BIP_CMAC_256 \<noteq> 0 then RSN_CIPHER_SUITE_BIP_CMAC_256
      else 0)"

definition sel_list :: "(u32 \<times> u32) list \<Rightarrow> u32 \<Rightarrow> u32 list" where
  "sel_list tbl c = map snd (filter (\<lambda>(b, s). c AND b \<noteq> 0) tbl)"

definition put_selectors :: "u32 list \<Rightarrow> bytes" where
  "put_selectors sels = concat (map WPA_PUT_BE32 sels)"

definition rsn_cipher_suites :: "(u32 \<times> u32) list" where
  "rsn_cipher_suites =
     [(WPA_CIPHER_CCMP_256, RSN_CIPHER_SUITE_CCMP_256),
      (WPA_CIPHER_GCMP_256, RSN_CIPHER_SUITE_GCMP_256),
      (WPA_CIPHER_CCMP, RSN_CIPHER_SUITE_CCMP),
      (WPA_CIPHER_GCMP, RSN_CIPHER_SUITE_GCMP),
      (WPA_CIPHER_TKIP, RSN_CIPHER_SUITE_TKIP),
      (WPA_CIPHER_NONE, RSN_CIPHER_SUITE_NONE)]"

text \<open>The selectors that are written; their number is the result of the C function.\<close>

definition rsn_cipher_put_suites :: "u32 \<Rightarrow> u32 list" where
  "rsn_cipher_put_suites ciphers = sel_list rsn_cipher_suites ciphers"

definition wpa_cipher_suites :: "(u32 \<times> u32) list" where
  "wpa_cipher_suites =
     [(WPA_CIPHER_CCMP, WPA_CIPHER_SUITE_CCMP),
      (WPA_CIPHER_TKIP, WPA_CIPHER_SUITE_TKIP),
      (WPA_CIPHER_NONE, WPA_CIPHER_SUITE_NONE)]"

definition wpa_cipher_put_suites :: "u32 \<Rightarrow> u32 list" where
  "wpa_cipher_put_suites ciphers = sel_list wpa_cipher_suites ciphers"

text \<open>The result \<open>-1\<close> of the two choices is \<open>None\<close>.\<close>

definition wpa_pick_pairwise_cipher :: "u32 \<Rightarrow> bool \<Rightarrow> u32 option" where
  "wpa_pick_pairwise_cipher ciphers none_allowed =
     (if ciphers AND WPA_CIPHER_CCMP_256 \<noteq> 0 then Some WPA_CIPHER_CCMP_256
      else if ciphers AND WPA_CIPHER_GCMP_256 \<noteq> 0 then Some WPA_CIPHER_GCMP_256
      else if ciphers AND WPA_CIPHER_CCMP \<noteq> 0 then Some WPA_CIPHER_CCMP
      else if ciphers AND WPA_CIPHER_GCMP \<noteq> 0 then Some WPA_CIPHER_GCMP
      else if ciphers AND WPA_CIPHER_TKIP \<noteq> 0 then Some WPA_CIPHER_TKIP
      else if none_allowed \<and> ciphers AND WPA_CIPHER_NONE \<noteq> 0 then Some WPA_CIPHER_NONE
      else None)"

definition wpa_pick_group_cipher :: "u32 \<Rightarrow> u32 option" where
  "wpa_pick_group_cipher ciphers =
     (if ciphers AND WPA_CIPHER_CCMP_256 \<noteq> 0 then Some WPA_CIPHER_CCMP_256
      else if ciphers AND WPA_CIPHER_GCMP_256 \<noteq> 0 then Some WPA_CIPHER_GCMP_256
      else if ciphers AND WPA_CIPHER_CCMP \<noteq> 0 then Some WPA_CIPHER_CCMP
      else if ciphers AND WPA_CIPHER_GCMP \<noteq> 0 then Some WPA_CIPHER_GCMP
      else if ciphers AND WPA_CIPHER_GTK_NOT_USED \<noteq> 0 then Some WPA_CIPHER_GTK_NOT_USED
      else if ciphers AND WPA_CIPHER_TKIP \<noteq> 0 then Some WPA_CIPHER_TKIP
      else None)"

subsection \<open>The writers\<close>

record wpa_auth_config =
  ac_wpa :: u32
  ac_wpa_key_mgmt :: u32
  ac_wpa_pairwise :: u32
  ac_wpa_group :: u32
  ac_rsn_pairwise :: u32
  ac_rsn_preauth :: bool
  ac_wmm_enabled :: bool
  ac_okc :: bool
  ac_ieee80211w :: mfp_options
  ac_group_mgmt_cipher :: u32
  ac_sae_require_mfp :: bool
  ac_mobility_domain :: bytes
  ac_ft_over_ds :: bool

text \<open>Append at \<open>pos\<close>; \<open>len\<close> is the size of the caller's buffer.\<close>

definition put :: "nat \<Rightarrow> bytes \<Rightarrow> bytes \<Rightarrow> bytes run" where
  "put len out d = (if length out + length d \<le> len then Some (out @ d) else None)"

definition set_ie_len :: "bytes \<Rightarrow> bytes" where
  "set_ie_len out = out[1 := word_of_nat (length out - 2)]"

definition put_suite_list :: "nat \<Rightarrow> bytes \<Rightarrow> u32 list \<Rightarrow> bytes run" where
  "put_suite_list len out sels =
     put len out (WPA_PUT_LE16 (word_of_nat (length sels)) @ put_selectors sels)"

definition wpa_akm_suites :: "(u32 \<times> u32) list" where
  "wpa_akm_suites =
     [(WPA_KEY_MGMT_IEEE8021X, WPA_AUTH_KEY_MGMT_UNSPEC_802_1X),
      (WPA_KEY_MGMT_PSK, WPA_AUTH_KEY_MGMT_PSK_OVER_802_1X)]"

definition wpa_write_wpa_ie :: "wpa_auth_config \<Rightarrow> nat \<Rightarrow> (int + bytes) run" where
  "wpa_write_wpa_ie conf len = do {
     out \<leftarrow> put len [] ([WLAN_EID_VENDOR_SPECIFIC, 0] @ WPA_PUT_BE32 WPA_OUI_TYPE @ WPA_PUT_LE16 WPA_VERSION);
     let suite = wpa_cipher_to_suite WPA_PROTO_WPA (ac_wpa_group conf);
     if suite = 0 then Some (Inl (-1))
     else do {
       out \<leftarrow> put len out (WPA_PUT_BE32 suite);
       let cs = wpa_cipher_put_suites (ac_wpa_pairwise conf);
       if cs = [] then Some (Inl (-1))
       else do {
         out \<leftarrow> put_suite_list len out cs;
         let ks = sel_list wpa_akm_suites (ac_wpa_key_mgmt conf);
         if ks = [] then Some (Inl (-1))
         else do {
           out \<leftarrow> put_suite_list len out ks;
           Some (Inr (set_ie_len out)) } } } }"

definition rsn_akm_suites :: "(u32 \<times> u32) list" where
  "rsn_akm_suites =
     [(WPA_KEY_MGMT_IEEE8021X, RSN_AUTH_KEY_MGMT_UNSPEC_802_1X),
      (WPA_KEY_MGMT_PSK, RSN_AUTH_KEY_MGMT_PSK_OVER_802_1X),
      (WPA_KEY_MGMT_FT_IEEE8021X, RSN_AUTH_KEY_MGMT_FT_802_1X),
      (WPA_KEY_MGMT_FT_IEEE8021X_SHA384, RSN_AUTH_KEY_MGMT_FT_802_1X_SHA384),
      (WPA_KEY_MGMT_FT_PSK, RSN_AUTH_KEY_MGMT_FT_PSK),
      (WPA_KEY_MGMT_IEEE8021X_SHA256, RSN_AUTH_KEY_MGMT_802_1X_SHA256),
      (WPA_KEY_MGMT_PSK_SHA256, RSN_AUTH_KEY_MGMT_PSK_SHA256),
      (WPA_KEY_MGMT_SAE, RSN_AUTH_KEY_MGMT_SAE),
      (WPA_KEY_MGMT_FT_SAE, RSN_AUTH_KEY_MGMT_FT_SAE),
      (WPA_KEY_MGMT_IEEE8021X_SUITE_B, RSN_AUTH_KEY_MGMT_802_1X_SUITE_B),
      (WPA_KEY_MGMT_IEEE8021X_SUITE_B_192, RSN_AUTH_KEY_MGMT_802_1X_SUITE_B_192),
      (WPA_KEY_MGMT_FILS_SHA256, RSN_AUTH_KEY_MGMT_FILS_SHA256),
      (WPA_KEY_MGMT_FILS_SHA384, RSN_AUTH_KEY_MGMT_FILS_SHA384),
      (WPA_KEY_MGMT_FT_FILS_SHA256, RSN_AUTH_KEY_MGMT_FT_FILS_SHA256),
      (WPA_KEY_MGMT_FT_FILS_SHA384, RSN_AUTH_KEY_MGMT_FT_FILS_SHA384),
      (WPA_KEY_MGMT_OWE, RSN_AUTH_KEY_MGMT_OWE),
      (WPA_KEY_MGMT_DPP, RSN_AUTH_KEY_MGMT_DPP),
      (WPA_KEY_MGMT_OSEN, RSN_AUTH_KEY_MGMT_OSEN)]"

definition mfp_capab :: "wpa_auth_config \<Rightarrow> u16" where
  "mfp_capab conf =
     (if ac_ieee80211w conf \<noteq> NO_MGMT_FRAME_PROTECTION
      then WPA_CAPABILITY_MFPC OR
           (if ac_ieee80211w conf = MGMT_FRAME_PROTECTION_REQUIRED then WPA_CAPABILITY_MFPR else 0)
      else 0)"

definition rsn_capab :: "wpa_auth_config \<Rightarrow> u16" where
  "rsn_capab conf =
     (if ac_rsn_preauth conf then WPA_CAPABILITY_PREAUTH else 0) OR
     (if ac_wmm_enabled conf then push_bit 2 3 else 0) OR mfp_capab conf"

definition group_mgmt_suite :: "u32 \<Rightarrow> u32 option" where
  "group_mgmt_suite c =
     (if c = WPA_CIPHER_AES_128_CMAC then Some RSN_CIPHER_SUITE_AES_128_CMAC
      else if c = WPA_CIPHER_BIP_GMAC_128 then Some RSN_CIPHER_SUITE_BIP_GMAC_128
      else if c = WPA_CIPHER_BIP_GMAC_256 then Some RSN_CIPHER_SUITE_BIP_GMAC_256
      else if c = WPA_CIPHER_BIP_CMAC_256 then Some RSN_CIPHER_SUITE_BIP_CMAC_256
      else None)"

text \<open>The optional PMKID and the management group cipher at the end of the element.\<close>

definition rsn_put_pmkid :: "nat \<Rightarrow> bytes \<Rightarrow> bytes option \<Rightarrow> (int + bytes) run" where
  "rsn_put_pmkid len out pmkid =
     (case pmkid of None \<Rightarrow> Some (Inr out)
      | Some p \<Rightarrow>
          if 2 + int PMKID_LEN > int len - int (length out) then Some (Inl (-1))
          else do { out \<leftarrow> put len out (WPA_PUT_LE16 1 @ take PMKID_LEN p); Some (Inr out) })"

definition rsn_put_mgmt :: "wpa_auth_config \<Rightarrow> nat \<Rightarrow> bytes \<Rightarrow> bool \<Rightarrow> (int + bytes) run" where
  "rsn_put_mgmt conf len out have_pmkid =
     (if ac_ieee80211w conf \<noteq> NO_MGMT_FRAME_PROTECTION \<and>
         ac_group_mgmt_cipher conf \<noteq> WPA_CIPHER_AES_128_CMAC
      then if 2 + 4 > int len - int (length out) then Some (Inl (-1))
           else do {
             out \<leftarrow> (if \<not> have_pmkid then put len out (WPA_PUT_LE16 0) else Some out);
             case group_mgmt_suite (ac_group_mgmt_cipher conf) of
               None \<Rightarrow> Some (Inl (-1))
             | Some suite \<Rightarrow> do { out \<leftarrow> put len out (WPA_PUT_BE32 suite); Some (Inr out) } }
      else Some (Inr out))"

definition wpa_write_rsn_ie :: "wpa_auth_config \<Rightarrow> nat \<Rightarrow> bytes option \<Rightarrow> (int + bytes) run" where
  "wpa_write_rsn_ie conf len pmkid = do {
     out \<leftarrow> put len [] ([WLAN_EID_RSN, 0] @ WPA_PUT_LE16 RSN_VERSION);
     let suite = wpa_cipher_to_suite WPA_PROTO_RSN (ac_wpa_group conf);
     if suite = 0 then Some (Inl (-1))
     else do {
       out \<leftarrow> put len out (WPA_PUT_BE32 suite);
       let cs = rsn_cipher_put_suites (ac_rsn_pairwise conf);
       if cs = [] then Some (Inl (-1))
       else do {
         out \<leftarrow> put_suite_list len out cs;
         let ks = sel_list rsn_akm_suites (ac_wpa_key_mgmt conf);
         if ks = [] then Some (Inl (-1))
         else do {
           out \<leftarrow> put_suite_list len out ks;
           out \<leftarrow> put len out (WPA_PUT_LE16 (rsn_capab conf));
           r \<leftarrow> rsn_put_pmkid len out pmkid;
           case r of Inl rc \<Rightarrow> Some (Inl rc)
           | Inr out \<Rightarrow> do {
               r \<leftarrow> rsn_put_mgmt conf len out (pmkid \<noteq> None);
               case r of Inl rc \<Rightarrow> Some (Inl rc) | Inr out \<Rightarrow> Some (Inr (set_ie_len out)) } } } } }"

definition wpa_write_osen :: "wpa_auth_config \<Rightarrow> nat \<Rightarrow> bytes run" where
  "wpa_write_osen conf len = do {
     out \<leftarrow> put len [] ([WLAN_EID_VENDOR_SPECIFIC, 0] @ WPA_PUT_BE24 0x506f9a @ [18] @
       WPA_PUT_BE32 RSN_CIPHER_SUITE_NO_GROUP_ADDRESSED @
       WPA_PUT_LE16 1 @ WPA_PUT_BE32 RSN_CIPHER_SUITE_CCMP @
       WPA_PUT_LE16 1 @ WPA_PUT_BE32 RSN_AUTH_KEY_MGMT_OSEN @
       WPA_PUT_LE16 ((if ac_wmm_enabled conf then push_bit 2 3 else 0) OR mfp_capab conf));
     Some (set_ie_len out) }"

definition wpa_write_mdie :: "wpa_auth_config \<Rightarrow> nat \<Rightarrow> (int + bytes) run" where
  "wpa_write_mdie conf len =
     (if len < 2 + 3 then Some (Inl (-1))
      else do {
        out \<leftarrow> put len [] ([WLAN_EID_MOBILITY_DOMAIN, 3] @ take 2 (ac_mobility_domain conf) @
                           [if ac_ft_over_ds conf then 1 else 0]);
        Some (Inr out) })"

text \<open>One element after the other in the buffer of 128 octets.\<close>

definition append_ie :: "bool \<Rightarrow> (nat \<Rightarrow> (int + bytes) run) \<Rightarrow> nat \<Rightarrow> bytes \<Rightarrow> (int + bytes) run" where
  "append_ie b writer size_buf out =
     (if b then do {
        r \<leftarrow> writer (size_buf - length out);
        case r of Inl rc \<Rightarrow> Some (Inl rc) | Inr d \<Rightarrow> Some (Inr (out @ d)) }
      else Some (Inr out))"

definition wpa_auth_gen_wpa_ie :: "wpa_auth_config \<Rightarrow> (int + bytes) run" where
  "wpa_auth_gen_wpa_ie conf = do {
     out \<leftarrow> (if ac_wpa conf = WPA_PROTO_OSEN then wpa_write_osen conf 128 else Some []);
     r \<leftarrow> append_ie (ac_wpa conf AND WPA_PROTO_RSN \<noteq> 0) (\<lambda>n. wpa_write_rsn_ie conf n None) 128 out;
     case r of Inl rc \<Rightarrow> Some (Inl rc)
     | Inr out \<Rightarrow> do {
         r \<leftarrow> append_ie (wpa_key_mgmt_ft (ac_wpa_key_mgmt conf)) (wpa_write_mdie conf) 128 out;
         case r of Inl rc \<Rightarrow> Some (Inl rc)
         | Inr out \<Rightarrow> append_ie (ac_wpa conf AND WPA_PROTO_WPA \<noteq> 0) (wpa_write_wpa_ie conf) 128 out } }"

end
