(* ===== verification/RsnRoundtrip.thy ===== *)
theory RsnRoundtrip
  imports RsnWrite
begin

text \<open>
  The parsers read what the writers wrote.  Each step of a parser is taken at a position between
  the octets read and the octets left (\<open>pst\<close>); the tables of suites are one bit per entry, so the
  bits collected from the selectors are the configured bits that the table knows.
\<close>

subsection \<open>Steps of the parsers on well formed input\<close>

definition pst :: "wpa_ie_data \<Rightarrow> bytes \<Rightarrow> bytes \<Rightarrow> ie_parse" where
  "pst d pre rest = \<lparr>ip_data = d, ip_pos = length pre, ip_left = int (length rest)\<rparr>"

lemma pst_simps [simp]:
  "ip_data (pst d pre rest) = d" "ip_pos (pst d pre rest) = length pre" "ip_left (pst d pre rest) = int (length rest)"
  "(pst d pre rest)\<lparr>ip_data := d'\<rparr> = pst d' pre rest"
  "ip_adv (length x) (pst d pre (x @ rest)) = pst d (pre @ x) rest"
  by (simp_all add: pst_def ip_adv_def)

lemma ip_adv_pst: "length x = n \<Longrightarrow> ip_adv n (pst d pre (x @ rest)) = pst d (pre @ x) rest"
  using pst_simps(5) [of x d pre rest] by simp

lemma length_put_selectors [simp]: "length (put_selectors sels) = 4 * length sels"
  by (induction sels) (simp_all add: put_selectors_def)

lemma put_selectors_Cons: "put_selectors (x # xs) = WPA_PUT_BE32 x @ put_selectors xs"
  by (simp add: put_selectors_def)

lemma suite_loop_put:
  "suite_loop f (pre @ put_selectors sels @ rest) (length sels) acc (pst d pre (put_selectors sels @ rest))
   = Some (foldl (\<lambda>a x. a OR f (WPA_PUT_BE32 x)) acc sels, pst d (pre @ put_selectors sels) rest)"
proof (induction sels arbitrary: acc pre)
  case (Cons x xs)
  show ?case
    using Cons.IH [of "pre @ WPA_PUT_BE32 x" "acc OR f (WPA_PUT_BE32 x)"]
    by (simp add: put_selectors_Cons mem_read_at ip_adv_pst)
qed (simp add: put_selectors_def)

lemma parse_suite_list_put:
  assumes "sels \<noteq> []" "length sels < 65536" "buf = pre @ x @ rest"
    and x: "x = WPA_PUT_LE16 (word_of_nat (length sels)) @ put_selectors sels"
  shows "parse_suite_list f upd e1 e2 buf (pst d pre (x @ rest))
       = Some (0, pst (upd (foldl (\<lambda>a x. a OR f (WPA_PUT_BE32 x)) 0 sels) (upd 0 d)) (pre @ x) rest)"
proof -
  let ?n = "WPA_PUT_LE16 (word_of_nat (length sels))"
  have n: "uint (word_of_nat (length sels) :: u16) = int (length sels)"
    using assms(2) by (simp add: unsigned_of_nat take_bit_nat_eq_self)
  have rd: "mem_read buf (length pre) 2 = Some ?n"
    unfolding assms(3) x append_assoc by (rule mem_read_at) simp_all
  have adv: "ip_adv 2 (pst d' pre (?n @ put_selectors sels @ rest)) = pst d' (pre @ ?n) (put_selectors sels @ rest)" for d'
    by (rule ip_adv_pst) simp
  have loop: "suite_loop f buf (length sels) 0 (pst d' (pre @ ?n) (put_selectors sels @ rest))
      = Some (foldl (\<lambda>a x. a OR f (WPA_PUT_BE32 x)) 0 sels, pst d' (pre @ x) rest)" for d'
    using suite_loop_put [of f "pre @ ?n" sels rest 0 d'] by (simp add: assms(3) x)
  have "0 < length sels" using assms(1) by simp
  then show ?thesis
    using get_put_le16 [of "word_of_nat (length sels)" "[]"]
    by (simp add: parse_suite_list_def Let_def rd n adv loop x pos_imp_zdiv_neg_iff)
qed


lemma rsn_parse_group_put:
  assumes "buf = pre @ WPA_PUT_BE32 sel @ rest" "wpa_cipher_valid_group (rsn_selector_to_bitfield (WPA_PUT_BE32 sel))"
  shows "rsn_parse_group buf (pst d pre (WPA_PUT_BE32 sel @ rest))
       = Some (0, pst (d\<lparr>wi_group_cipher := rsn_selector_to_bitfield (WPA_PUT_BE32 sel)\<rparr>) (pre @ WPA_PUT_BE32 sel) rest)"
  using assms by (simp add: rsn_parse_group_def mem_read_at ip_adv_pst Let_def)

lemma parse_capabilities_put:
  assumes "buf = pre @ WPA_PUT_LE16 c @ rest"
  shows "parse_capabilities buf (pst d pre (WPA_PUT_LE16 c @ rest))
       = Some (0, pst (d\<lparr>wi_capabilities := ucast c\<rparr>) (pre @ WPA_PUT_LE16 c) rest)"
  using assms get_put_le16 [of c "[]"] by (simp add: parse_capabilities_def mem_read_at ip_adv_pst)

lemma rsn_parse_pmkid_none:
  "rsn_parse_pmkid buf (pst d pre []) = Some (0, pst d pre [])"
  by (simp add: rsn_parse_pmkid_def)

lemma rsn_parse_pmkid_put:
  assumes "buf = pre @ (WPA_PUT_LE16 (word_of_nat n) @ ps) @ rest" "length ps = n * 16" "n < 65536"
  shows "rsn_parse_pmkid buf (pst d pre ((WPA_PUT_LE16 (word_of_nat n) @ ps) @ rest))
       = Some (0, pst (d\<lparr>wi_num_pmkid := n, wi_pmkid := Some (length pre + 2)\<rparr>)
                     (pre @ WPA_PUT_LE16 (word_of_nat n) @ ps) rest)"
proof -
  let ?n = "WPA_PUT_LE16 (word_of_nat n)"
  have rd: "mem_read buf (length pre) 2 = Some ?n"
    unfolding assms(1) append_assoc by (rule mem_read_at) simp_all
  have adv: "ip_adv 2 (pst d pre (?n @ ps @ rest)) = pst d (pre @ ?n) (ps @ rest)"
    by (rule ip_adv_pst) simp
  have adv': "ip_adv (n * 16) (pst d' (pre @ ?n) (ps @ rest)) = pst d' (pre @ ?n @ ps) rest" for d'
    using ip_adv_pst [of ps "n * 16" d' "pre @ ?n" rest] assms(2) by simp
  have n: "unat (word_of_nat n :: u16) = n" using assms(3) by (simp add: unsigned_of_nat take_bit_nat_eq_self)
  have n': "uint (word_of_nat n :: u16) = int n" using assms(3) by (simp add: unsigned_of_nat take_bit_nat_eq_self)
  have "int n \<le> int (length (ps @ rest)) div 16" using assms(2) by simp
  then show ?thesis
    using get_put_le16 [of "word_of_nat n" "[]"]
    by (simp add: rsn_parse_pmkid_def Let_def rd adv adv' n n')
qed

lemma rsn_parse_mgmt_group_none:
  "rsn_parse_mgmt_group buf (pst d pre []) = Some (0, pst d pre [])"
  by (simp add: rsn_parse_mgmt_group_def)

lemma rsn_parse_mgmt_group_put:
  assumes "buf = pre @ WPA_PUT_BE32 sel" "wpa_cipher_valid_mgmt_group (rsn_selector_to_bitfield (WPA_PUT_BE32 sel))"
  shows "rsn_parse_mgmt_group buf (pst d pre (WPA_PUT_BE32 sel))
       = Some (0, pst (d\<lparr>wi_mgmt_group_cipher := rsn_selector_to_bitfield (WPA_PUT_BE32 sel)\<rparr>) (pre @ WPA_PUT_BE32 sel) [])"
  using assms mem_read_at [of pre "length pre" "WPA_PUT_BE32 sel" 4 "[]"] ip_adv_pst [of "WPA_PUT_BE32 sel" 4 _ pre "[]"]
  by (simp add: rsn_parse_mgmt_group_def Let_def)

subsection \<open>Tables of suites\<close>

definition table_bits :: "(u32 \<times> u32) list \<Rightarrow> u32" where
  "table_bits tbl = foldr (\<lambda>(b, s) a. b OR a) tbl 0"

definition table_ok :: "(bytes \<Rightarrow> u32) \<Rightarrow> (u32 \<times> u32) list \<Rightarrow> bool" where
  "table_ok f tbl \<longleftrightarrow> list_all (\<lambda>(b, s). one_bit b \<and> f (WPA_PUT_BE32 s) = b) tbl"

lemma collect_table:
  "table_ok f tbl \<Longrightarrow>
   foldl (\<lambda>a x. a OR f (WPA_PUT_BE32 x)) acc (sel_list tbl c) = acc OR (c AND table_bits tbl)"
proof (induction tbl arbitrary: acc)
  case (Cons e tbl)
  obtain b s where e: "e = (b, s)" by fastforce
  have b: "one_bit b" "f (WPA_PUT_BE32 s) = b" "table_ok f tbl"
    using Cons.prems by (simp_all add: table_ok_def e)
  have d: "c AND (b OR x) = (c AND b) OR (c AND x)" for x by (simp add: bit.conj_disj_distrib)
  show ?case
  proof (cases "c AND b = 0")
    case True
    then show ?thesis using Cons.IH [OF b(3), of acc] by (simp add: sel_list_def table_bits_def e d)
  next
    case False
    then have "c AND b = b" using one_bit_and [OF b(1), of c] by simp
    then show ?thesis using False b(2) Cons.IH [OF b(3), of "acc OR b"]
      by (simp add: sel_list_def table_bits_def e d or.assoc)
  qed
qed (simp add: sel_list_def table_bits_def)

lemma get_put_be32_only: "WPA_GET_BE32 (WPA_PUT_BE32 v) = v"
  using get_put_be32 [of v "[]"] by simp

lemma rsn_tables_ok:
  "table_ok rsn_selector_to_bitfield rsn_cipher_suites"
  "table_ok rsn_key_mgmt_to_bitfield rsn_akm_suites"
  "table_ok wpa_selector_to_bitfield wpa_cipher_suites"
  "table_ok wpa_key_mgmt_to_bitfield wpa_akm_suites"
  unfolding table_ok_def rsn_cipher_suites_def rsn_akm_suites_def wpa_cipher_suites_def wpa_akm_suites_def
    one_bit_def rsn_selector_to_bitfield_def rsn_key_mgmt_to_bitfield_def
    wpa_selector_to_bitfield_def wpa_key_mgmt_to_bitfield_def get_put_be32_only
  by (simp_all add: upt_rec push_bit_eq_mult)

lemma length_sel_list: "length (sel_list tbl c) \<le> length tbl"
  by (simp add: sel_list_def)


subsection \<open>The RSN element\<close>

lemma putE: "put len out d = Some r \<longleftrightarrow> length out + length d \<le> len \<and> r = out @ d"
  by (auto simp: put_def)

text \<open>The octets behind the capabilities.\<close>

definition rsn_tail :: "wpa_auth_config \<Rightarrow> bytes option \<Rightarrow> bytes" where
  "rsn_tail conf pmkid =
     (if ac_ieee80211w conf \<noteq> NO_MGMT_FRAME_PROTECTION \<and> ac_group_mgmt_cipher conf \<noteq> WPA_CIPHER_AES_128_CMAC
      then (case pmkid of None \<Rightarrow> WPA_PUT_LE16 0 | Some p \<Rightarrow> WPA_PUT_LE16 1 @ p) @
           WPA_PUT_BE32 (the (group_mgmt_suite (ac_group_mgmt_cipher conf)))
      else (case pmkid of None \<Rightarrow> [] | Some p \<Rightarrow> WPA_PUT_LE16 1 @ p))"

definition mgmt_valid :: "wpa_auth_config \<Rightarrow> bool" where
  "mgmt_valid conf \<longleftrightarrow> ac_ieee80211w conf = NO_MGMT_FRAME_PROTECTION \<or> wpa_cipher_valid_mgmt_group (ac_group_mgmt_cipher conf)"

lemma wpa_write_rsn_ieD:
  assumes "wpa_write_rsn_ie conf len pmkid = Some (Inr out)" "pred_option (\<lambda>p. length p = 16) pmkid"
  defines "cs \<equiv> rsn_cipher_put_suites (ac_rsn_pairwise conf)" and "ks \<equiv> sel_list rsn_akm_suites (ac_wpa_key_mgmt conf)"
  shows "cs \<noteq> []" "ks \<noteq> []" "mgmt_valid conf" "length out \<le> len"
    "out = set_ie_len ([48, 0, 1, 0] @ WPA_PUT_BE32 (wpa_cipher_to_suite WPA_PROTO_RSN (ac_wpa_group conf)) @
       (WPA_PUT_LE16 (word_of_nat (length cs)) @ put_selectors cs) @
       (WPA_PUT_LE16 (word_of_nat (length ks)) @ put_selectors ks) @
       WPA_PUT_LE16 (rsn_capab conf) @ rsn_tail conf pmkid)"
  using assms(1,2)
  by (auto simp: wpa_write_rsn_ie_def Let_def bind_eq_Some_conv putE put_suite_list_def rsn_put_pmkid_def
      rsn_put_mgmt_def rsn_tail_def mgmt_valid_def cs_def ks_def set_ie_len_def group_mgmt_suite_def
      wpa_cipher_valid_mgmt_group_def WPA_PUT_LE16_def
      split: if_splits option.splits sum.splits)


lemma be32_not_osen: "WPA_GET_BE32 (1 # 0 # x) \<noteq> OSEN_IE_VENDOR_TYPE"
proof
  assume "WPA_GET_BE32 (1 # 0 # x) = OSEN_IE_VENDOR_TYPE"
  then have "bit (WPA_GET_BE32 (1 # 0 # x)) 30 = bit (OSEN_IE_VENDOR_TYPE :: u32) 30" by simp
  then show False by (auto simp: WPA_GET_BE32_def bit_simps dest: bit_imp_le_length)
qed

lemma rsn_parse_header_put:
  assumes "buf = [48, word_of_nat (length buf - 2), 1, 0] @ rest" "length rest < 254"
  shows "rsn_parse_header buf \<lparr>ip_data = d, ip_pos = 0, ip_left = 0\<rparr>
       = Some (0, pst d [48, word_of_nat (length buf - 2), 1, 0] rest)"
proof -
  have len: "length buf = length rest + 4" by (subst assms(1)) simp
  have b: "buf = 48 # word_of_nat (length rest + 2) # 1 # 0 # rest"
    using assms(1) by (simp add: len)
  have l: "unat (word_of_nat (length rest + 2) :: u8) = length rest + 2"
    using assms(2) by (simp only: unsigned_of_nat) (simp add: take_bit_nat_eq_self)
  have v: "WPA_GET_LE16 [1, 0] = 1" by (simp add: WPA_GET_LE16_def)
  have l': "unat (2 + word_of_nat (length rest) :: u8) = length rest + 2" using l by (simp add: add.commute)
  show ?thesis
    using l' by (simp add: rsn_parse_header_def Let_def len b mem_read_def be32_not_osen v pst_def add.commute)
qed

definition ie_pmkids :: "bytes \<Rightarrow> wpa_ie_data \<Rightarrow> bytes list" where
  "ie_pmkids buf d =
     (case wi_pmkid d of None \<Rightarrow> []
      | Some p \<Rightarrow> map (\<lambda>i. take PMKID_LEN (drop (p + i * PMKID_LEN) buf)) [0..<wi_num_pmkid d])"

definition conf_mgmt_group :: "wpa_auth_config \<Rightarrow> u32" where
  "conf_mgmt_group conf = (if ac_ieee80211w conf = NO_MGMT_FRAME_PROTECTION then WPA_CIPHER_AES_128_CMAC
     else ac_group_mgmt_cipher conf)"

lemma group_mgmt_suite_inv:
  "wpa_cipher_valid_mgmt_group c \<Longrightarrow>
   rsn_selector_to_bitfield (WPA_PUT_BE32 (the (group_mgmt_suite c))) = c"
  by (auto simp: wpa_cipher_valid_mgmt_group_def group_mgmt_suite_def rsn_selector_to_bitfield_def get_put_be32_only)

lemma rsn_tail_parse:
  assumes "mgmt_valid conf" "pred_option (\<lambda>p. length p = 16) pmkid"
    and d: "wi_mgmt_group_cipher d = WPA_CIPHER_AES_128_CMAC" "wi_pmkid d = None" "wi_num_pmkid d = 0"
    and buf: "buf = pre @ rsn_tail conf pmkid"
  shows "\<exists>s k po. then_ok (rsn_parse_pmkid buf (pst d pre (rsn_tail conf pmkid))) (rsn_parse_mgmt_group buf) = Some (0, s) \<and>
     ip_data s = d\<lparr>wi_num_pmkid := k, wi_pmkid := po, wi_mgmt_group_cipher := conf_mgmt_group conf\<rparr> \<and>
     ie_pmkids buf (ip_data s) = (case pmkid of None \<Rightarrow> [] | Some p \<Rightarrow> [p])"
proof (cases "ac_ieee80211w conf \<noteq> NO_MGMT_FRAME_PROTECTION \<and> ac_group_mgmt_cipher conf \<noteq> WPA_CIPHER_AES_128_CMAC")
  case True
  let ?ps = "case pmkid of None \<Rightarrow> [] | Some p \<Rightarrow> p" and ?n = "(case pmkid of None \<Rightarrow> 0 | Some p \<Rightarrow> 1) :: nat"
  let ?g = "WPA_PUT_BE32 (the (group_mgmt_suite (ac_group_mgmt_cipher conf)))"
  let ?x = "WPA_PUT_LE16 (word_of_nat ?n) @ ?ps"
  have v: "wpa_cipher_valid_mgmt_group (ac_group_mgmt_cipher conf)" using True assms(1) by (simp add: mgmt_valid_def)
  have t: "rsn_tail conf pmkid = ?x @ ?g" using True by (simp add: rsn_tail_def split: option.split)
  have len: "length ?ps = ?n * 16" "?n < 65536" using assms(2) by (auto split: option.split)
  let ?d = "d\<lparr>wi_num_pmkid := ?n, wi_pmkid := Some (length pre + 2)\<rparr>"
  have 1: "rsn_parse_pmkid buf (pst d pre (?x @ ?g)) = Some (0, pst ?d (pre @ ?x) ?g)"
    using buf t len by (intro rsn_parse_pmkid_put) simp_all
  have 2: "rsn_parse_mgmt_group buf (pst ?d (pre @ ?x) ?g) =
      Some (0, pst (?d\<lparr>wi_mgmt_group_cipher := ac_group_mgmt_cipher conf\<rparr>) ((pre @ ?x) @ ?g) [])"
    using rsn_parse_mgmt_group_put [of buf "pre @ ?x" "the (group_mgmt_suite (ac_group_mgmt_cipher conf))" ?d] buf t v
    by (simp add: group_mgmt_suite_inv)
  have 3: "ie_pmkids buf (?d\<lparr>wi_mgmt_group_cipher := ac_group_mgmt_cipher conf\<rparr>) = (case pmkid of None \<Rightarrow> [] | Some p \<Rightarrow> [p])"
    using assms(2) by (auto simp: ie_pmkids_def buf t split: option.split)
  show ?thesis using 1 2 3 True unfolding t by (auto simp: conf_mgmt_group_def)
next
  case False
  then have c: "conf_mgmt_group conf = WPA_CIPHER_AES_128_CMAC" by (auto simp: conf_mgmt_group_def)
  show ?thesis
  proof (cases pmkid)
    case None
    then show ?thesis using False d
      by (auto simp: rsn_tail_def rsn_parse_pmkid_none rsn_parse_mgmt_group_none c ie_pmkids_def intro!: exI [of _ 0] exI [of _ None])
  next
    case (Some p)
    let ?x = "WPA_PUT_LE16 (word_of_nat 1) @ p"
    have t: "rsn_tail conf pmkid = ?x" using False Some by (auto simp: rsn_tail_def)
    have "rsn_parse_pmkid buf (pst d pre (?x @ [])) = Some (0, pst (d\<lparr>wi_num_pmkid := 1, wi_pmkid := Some (length pre + 2)\<rparr>) (pre @ ?x) [])"
      using buf t assms(2) Some by (intro rsn_parse_pmkid_put) simp_all
    moreover have "ie_pmkids buf (d\<lparr>wi_num_pmkid := 1, wi_pmkid := Some (length pre + 2)\<rparr>) = [p]"
      using assms(2) Some t by (simp add: ie_pmkids_def buf)
    ultimately show ?thesis using d(1) Some unfolding t
      by (auto simp: rsn_parse_mgmt_group_none c intro!: exI [of _ 1] exI [of _ "Some (length pre + 2)"])
  qed
qed


lemma group_suite_inv:
  "wpa_cipher_valid_group c \<Longrightarrow>
   rsn_selector_to_bitfield (WPA_PUT_BE32 (wpa_cipher_to_suite WPA_PROTO_RSN c)) = c"
  unfolding wpa_cipher_valid_group_def wpa_cipher_valid_pairwise_def
  by (elim disjE; simp add: wpa_cipher_to_suite_def; simp add: rsn_selector_to_bitfield_def get_put_be32_only)

lemma length_rsn_tail: "pred_option (\<lambda>p. length p = 16) pmkid \<Longrightarrow> length (rsn_tail conf pmkid) \<le> 22"
  by (auto simp: rsn_tail_def split: option.split)

lemma length_suites:
  "length (rsn_cipher_put_suites c) \<le> 6" "length (sel_list rsn_akm_suites k) \<le> 18"
  using length_sel_list [of rsn_cipher_suites c] length_sel_list [of rsn_akm_suites k]
  by (simp_all add: rsn_cipher_put_suites_def rsn_cipher_suites_def rsn_akm_suites_def)

text \<open>What the parser is expected to find in the element of a configuration.\<close>

definition rsn_ie_of :: "wpa_auth_config \<Rightarrow> nat \<Rightarrow> nat option \<Rightarrow> wpa_ie_data" where
  "rsn_ie_of conf k po = \<lparr>wi_proto = WPA_PROTO_RSN,
     wi_pairwise_cipher = ac_rsn_pairwise conf AND table_bits rsn_cipher_suites,
     wi_group_cipher = ac_wpa_group conf,
     wi_key_mgmt = ac_wpa_key_mgmt conf AND table_bits rsn_akm_suites,
     wi_capabilities = ucast (rsn_capab conf), wi_num_pmkid = k, wi_pmkid = po,
     wi_mgmt_group_cipher = conf_mgmt_group conf\<rparr>"

lemma pairwise_no_cmac: "(c AND table_bits rsn_cipher_suites) AND WPA_CIPHER_AES_128_CMAC = 0"
  by (simp add: table_bits_def rsn_cipher_suites_def and.assoc)

lemma rsn_body_parse:
  fixes conf :: wpa_auth_config and pmkid :: "bytes option"
  defines "cs \<equiv> rsn_cipher_put_suites (ac_rsn_pairwise conf)" and "ks \<equiv> sel_list rsn_akm_suites (ac_wpa_key_mgmt conf)"
  defines "g \<equiv> WPA_PUT_BE32 (wpa_cipher_to_suite WPA_PROTO_RSN (ac_wpa_group conf))"
    and "C \<equiv> WPA_PUT_LE16 (word_of_nat (length cs)) @ put_selectors cs"
    and "K \<equiv> WPA_PUT_LE16 (word_of_nat (length ks)) @ put_selectors ks"
    and "W \<equiv> WPA_PUT_LE16 (rsn_capab conf)" and "T \<equiv> rsn_tail conf pmkid"
  assumes ne: "cs \<noteq> []" "ks \<noteq> []" and mg: "mgmt_valid conf" and vg: "wpa_cipher_valid_group (ac_wpa_group conf)"
    and pl: "pred_option (\<lambda>p. length p = 16) pmkid"
    and buf: "buf = h @ g @ C @ K @ W @ T"
    and hdr: "rsn_parse_header buf \<lparr>ip_data = rsn_ie_default, ip_pos = 0, ip_left = 0\<rparr>
              = Some (0, pst rsn_ie_default h (g @ C @ K @ W @ T))"
  shows "\<exists>k po. wpa_parse_wpa_ie_rsn buf = Some (0, rsn_ie_of conf k po) \<and>
     ie_pmkids buf (rsn_ie_of conf k po) = (case pmkid of None \<Rightarrow> [] | Some p \<Rightarrow> [p])"
proof -
  let ?d0 = "rsn_ie_default\<lparr>wi_group_cipher := ac_wpa_group conf\<rparr>"
  let ?d1 = "?d0\<lparr>wi_pairwise_cipher := ac_rsn_pairwise conf AND table_bits rsn_cipher_suites\<rparr>"
  let ?d2 = "?d1\<lparr>wi_key_mgmt := ac_wpa_key_mgmt conf AND table_bits rsn_akm_suites\<rparr>"
  let ?d3 = "?d2\<lparr>wi_capabilities := ucast (rsn_capab conf)\<rparr>"
  have len: "length cs < 65536" "length ks < 65536"
    using length_suites(1) [of "ac_rsn_pairwise conf"] length_suites(2) [of "ac_wpa_key_mgmt conf"]
    by (simp_all add: cs_def ks_def)
  have 1: "rsn_parse_group buf (pst rsn_ie_default h (g @ C @ K @ W @ T)) = Some (0, pst ?d0 (h @ g) (C @ K @ W @ T))"
    using rsn_parse_group_put [OF buf [unfolded g_def], of rsn_ie_default] vg by (simp add: group_suite_inv g_def)
  have c: "foldl (\<lambda>a x. a OR rsn_selector_to_bitfield (WPA_PUT_BE32 x)) 0 cs = ac_rsn_pairwise conf AND table_bits rsn_cipher_suites"
    unfolding cs_def rsn_cipher_put_suites_def by (simp add: collect_table [OF rsn_tables_ok(1)])
  have b2: "buf = (h @ g) @ C @ K @ W @ T" using buf by simp
  have 2: "rsn_parse_pairwise buf (pst ?d0 (h @ g) (C @ K @ W @ T)) = Some (0, pst ?d1 ((h @ g) @ C) (K @ W @ T))"
    using parse_suite_list_put [OF ne(1) len(1) b2 C_def [THEN meta_eq_to_obj_eq], of rsn_selector_to_bitfield "\<lambda>v d. d\<lparr>wi_pairwise_cipher := v\<rparr>" "-4" "-5" ?d0]
    by (simp add: rsn_parse_pairwise_def c pairwise_no_cmac)
  have b3: "buf = ((h @ g) @ C) @ K @ W @ T" using buf by simp
  have k: "foldl (\<lambda>a x. a OR rsn_key_mgmt_to_bitfield (WPA_PUT_BE32 x)) 0 ks = ac_wpa_key_mgmt conf AND table_bits rsn_akm_suites"
    unfolding ks_def by (simp add: collect_table [OF rsn_tables_ok(2)])
  have 3: "rsn_parse_key_mgmt buf (pst ?d1 ((h @ g) @ C) (K @ W @ T)) = Some (0, pst ?d2 (((h @ g) @ C) @ K) (W @ T))"
    using parse_suite_list_put [OF ne(2) len(2) b3 K_def [THEN meta_eq_to_obj_eq], of rsn_key_mgmt_to_bitfield "\<lambda>v d. d\<lparr>wi_key_mgmt := v\<rparr>" "-6" "-7" ?d1]
    by (simp add: k)
  have b4: "buf = (((h @ g) @ C) @ K) @ WPA_PUT_LE16 (rsn_capab conf) @ T" using buf by (simp add: W_def)
  have 4: "parse_capabilities buf (pst ?d2 (((h @ g) @ C) @ K) (W @ T)) = Some (0, pst ?d3 ((((h @ g) @ C) @ K) @ W) T)"
    using parse_capabilities_put [OF b4, of ?d2] by (simp add: W_def)
  obtain s k po where 5: "then_ok (rsn_parse_pmkid buf (pst ?d3 ((((h @ g) @ C) @ K) @ W) T)) (rsn_parse_mgmt_group buf) = Some (0, s)"
      "ip_data s = ?d3\<lparr>wi_num_pmkid := k, wi_pmkid := po, wi_mgmt_group_cipher := conf_mgmt_group conf\<rparr>"
      "ie_pmkids buf (ip_data s) = (case pmkid of None \<Rightarrow> [] | Some p \<Rightarrow> [p])"
    using rsn_tail_parse [of conf pmkid ?d3 buf "(((h @ g) @ C) @ K) @ W"] mg pl buf
    unfolding T_def [symmetric] by (auto simp: rsn_ie_default_def)
  have r: "ip_data s = rsn_ie_of conf k po" unfolding 5(2) by (simp add: rsn_ie_of_def rsn_ie_default_def)
  have "wpa_parse_wpa_ie_rsn buf = Some (0, ip_data s)"
    unfolding wpa_parse_wpa_ie_rsn_def hdr then_ok_Some 1 2 3 4 5(1) by (simp add: 1 2 3 4 5(1))
  then show ?thesis using 5(3) r by auto
qed

text \<open>C13: The RSN element that the access point builds is read back: the parser accepts it and finds the
  configured group cipher, every configured pairwise cipher and key management suite that has a
  selector, the capabilities, the PMKID and the management group cipher.\<close>

theorem rsn_ie_roundtrip:
  assumes "wpa_write_rsn_ie conf len pmkid = Some (Inr out)" "wpa_cipher_valid_group (ac_wpa_group conf)"
    and "pred_option (\<lambda>p. length p = 16) pmkid"
  shows "\<exists>k po. wpa_parse_wpa_ie_rsn out = Some (0, rsn_ie_of conf k po) \<and>
     ie_pmkids out (rsn_ie_of conf k po) = (case pmkid of None \<Rightarrow> [] | Some p \<Rightarrow> [p])"
proof -
  note D = wpa_write_rsn_ieD [OF assms(1,3)]
  let ?rest = "WPA_PUT_BE32 (wpa_cipher_to_suite WPA_PROTO_RSN (ac_wpa_group conf)) @
    (WPA_PUT_LE16 (word_of_nat (length (rsn_cipher_put_suites (ac_rsn_pairwise conf)))) @
       put_selectors (rsn_cipher_put_suites (ac_rsn_pairwise conf))) @
    (WPA_PUT_LE16 (word_of_nat (length (sel_list rsn_akm_suites (ac_wpa_key_mgmt conf)))) @
       put_selectors (sel_list rsn_akm_suites (ac_wpa_key_mgmt conf))) @
    WPA_PUT_LE16 (rsn_capab conf) @ rsn_tail conf pmkid"
  have out: "out = [48, word_of_nat (length out - 2), 1, 0] @ ?rest"
    unfolding D(5) by (simp add: set_ie_len_def)
  have "length ?rest < 254"
    using length_suites(1) [of "ac_rsn_pairwise conf"] length_suites(2) [of "ac_wpa_key_mgmt conf"] length_rsn_tail [OF assms(3), of conf] by simp
  then have hdr: "rsn_parse_header out \<lparr>ip_data = rsn_ie_default, ip_pos = 0, ip_left = 0\<rparr>
      = Some (0, pst rsn_ie_default [48, word_of_nat (length out - 2), 1, 0] ?rest)"
    by (rule rsn_parse_header_put [OF out])
  show ?thesis
    by (rule rsn_body_parse [OF D(1-3) assms(2,3) out hdr])
qed


definition sae_conf :: wpa_auth_config where
  "sae_conf = \<lparr>ac_wpa = WPA_PROTO_RSN, ac_wpa_key_mgmt = WPA_KEY_MGMT_SAE OR WPA_KEY_MGMT_PSK,
     ac_wpa_pairwise = 0, ac_wpa_group = WPA_CIPHER_CCMP, ac_rsn_pairwise = WPA_CIPHER_CCMP,
     ac_rsn_preauth = False, ac_wmm_enabled = True, ac_okc = False,
     ac_ieee80211w = MGMT_FRAME_PROTECTION_REQUIRED, ac_group_mgmt_cipher = WPA_CIPHER_BIP_GMAC_128,
     ac_sae_require_mfp = True, ac_mobility_domain = [0, 0], ac_ft_over_ds = False\<rparr>"

lemma sae_conf_write:
  "wpa_write_rsn_ie sae_conf 128 (Some (replicate 16 7)) =
   Some (Inr ([48, 46, 1, 0, 0, 15, 172, 4, 1, 0, 0, 15, 172, 4, 2, 0, 0, 15, 172, 2, 0, 15, 172, 8,
     204, 0, 1, 0] @ replicate 16 7 @ [0, 15, 172, 11]))"
  by (simp add: wpa_write_rsn_ie_def sae_conf_def put_def wpa_cipher_to_suite_def rsn_cipher_put_suites_def
      rsn_cipher_suites_def sel_list_def put_suite_list_def put_selectors_def rsn_akm_suites_def
      rsn_capab_def mfp_capab_def rsn_put_pmkid_def rsn_put_mgmt_def group_mgmt_suite_def set_ie_len_def
      put_defs push_bit_eq_mult drop_bit_eq_div)

theorem rsn_ie_roundtrip_witness:
  "\<exists>k po out. wpa_write_rsn_ie sae_conf 128 (Some (replicate 16 7)) = Some (Inr out) \<and>
     wpa_parse_wpa_ie_rsn out = Some (0, rsn_ie_of sae_conf k po) \<and>
     ie_pmkids out (rsn_ie_of sae_conf k po) = [replicate 16 7]"
proof -
  have "wpa_cipher_valid_group (ac_wpa_group sae_conf)"
    by (simp add: sae_conf_def wpa_cipher_valid_group_def wpa_cipher_valid_pairwise_def)
  from rsn_ie_roundtrip [OF sae_conf_write this] show ?thesis
    unfolding sae_conf_write by auto
qed

subsection \<open>Room in the caller's buffer\<close>

lemma put_ok: "length out + length d \<le> len \<Longrightarrow> put len out d = Some (out @ d)"
  by (simp add: put_def)

lemma runs_put [twp]: "length out + length d \<le> len \<Longrightarrow> Q (out @ d) \<Longrightarrow> runs (put len out d) Q"
  by (simp add: runs_def put_def)

lemma wpa_write_rsn_ie_fits:
  assumes "110 \<le> len"
  shows "\<exists>r. wpa_write_rsn_ie conf len pmkid = Some r \<and> (case r of Inl rc \<Rightarrow> rc = -1 | Inr out \<Rightarrow> length out \<le> len)"
  using assms length_suites(1) [of "ac_rsn_pairwise conf"] length_suites(2) [of "ac_wpa_key_mgmt conf"]
  by (auto simp: wpa_write_rsn_ie_def Let_def put_suite_list_def put_def rsn_put_pmkid_def rsn_put_mgmt_def
      set_ie_len_def split: option.split sum.split)


lemma append_ie_fits:
  assumes "length out \<le> n"
    and "b \<Longrightarrow> \<exists>r. writer (n - length out) = Some r \<and> (case r of Inl rc \<Rightarrow> rc = -1 | Inr d \<Rightarrow> length d \<le> n - length out)"
  shows "\<exists>r. append_ie b writer n out = Some r \<and> (case r of Inl rc \<Rightarrow> rc = -1 | Inr d \<Rightarrow> length d \<le> n)"
proof (cases b)
  case True
  with assms(2) obtain r where "writer (n - length out) = Some r"
    "case r of Inl rc \<Rightarrow> rc = -1 | Inr d \<Rightarrow> length d \<le> n - length out" by blast
  with True assms(1) show ?thesis by (cases r) (auto simp: append_ie_def)
qed (use assms(1) in \<open>simp add: append_ie_def\<close>)

lemma wpa_write_mdie_fits:
  "\<exists>r. wpa_write_mdie conf len = Some r \<and> (case r of Inl rc \<Rightarrow> rc = -1 | Inr out \<Rightarrow> length out \<le> len)"
  by (auto simp: wpa_write_mdie_def put_def)

text \<open>A configuration with both WPA and RSN and every key management suite.\<close>

definition mixed_conf :: wpa_auth_config where
  "mixed_conf = sae_conf\<lparr>ac_wpa := WPA_PROTO_WPA OR WPA_PROTO_RSN, ac_wpa_key_mgmt := 0xFFFFFFFF,
     ac_wpa_pairwise := WPA_CIPHER_CCMP OR WPA_CIPHER_TKIP, ac_rsn_pairwise := WPA_CIPHER_CCMP OR WPA_CIPHER_TKIP,
     ac_ieee80211w := NO_MGMT_FRAME_PROTECTION\<rparr>"

lemma mixed_rsn: "\<exists>out. wpa_write_rsn_ie mixed_conf 128 None = Some (Inr out) \<and> length out = 94"
  by (simp add: mixed_conf_def wpa_write_rsn_ie_def sae_conf_def put_def wpa_cipher_to_suite_def rsn_cipher_put_suites_def
      rsn_cipher_suites_def sel_list_def put_suite_list_def put_selectors_def rsn_akm_suites_def
      rsn_capab_def mfp_capab_def rsn_put_pmkid_def rsn_put_mgmt_def set_ie_len_def)


lemma mixed_wpa: "wpa_write_wpa_ie mixed_conf 29 = None"
  by (simp add: mixed_conf_def wpa_write_wpa_ie_def sae_conf_def put_def wpa_cipher_to_suite_def wpa_cipher_put_suites_def
      wpa_cipher_suites_def sel_list_def put_suite_list_def put_selectors_def wpa_akm_suites_def)

lemma mixed_mdie: "\<exists>out. wpa_write_mdie mixed_conf n = Some (Inr out) \<and> length out = 5" if "5 \<le> n"
  using that by (simp add: wpa_write_mdie_def mixed_conf_def sae_conf_def put_def)

lemma gen_wpa_ie_overflow: "wpa_auth_gen_wpa_ie mixed_conf = None"
proof -
  obtain out where "wpa_write_rsn_ie mixed_conf 128 None = Some (Inr out)" "length out = 94"
    using mixed_rsn by blast
  moreover obtain md where "wpa_write_mdie mixed_conf 34 = Some (Inr md)" "length md = 5"
    using mixed_mdie [of 34] by auto
  moreover have "ac_wpa mixed_conf = 3" "wpa_key_mgmt_ft (ac_wpa_key_mgmt mixed_conf)"
    by (simp_all add: mixed_conf_def wpa_key_mgmt_ft_def)
  ultimately show ?thesis
    by (simp add: wpa_auth_gen_wpa_ie_def append_ie_def mixed_wpa)
qed

text \<open>C38: The elements of the access point fit into the 128 octets of \<^verbatim>\<open>wpa_auth_gen_wpa_ie\<close> for every
  configuration without WPA version 1; \<^verbatim>\<open>wpa_write_wpa_ie\<close> does not look at the space left, and
  with WPA version 1 there are configurations for which it writes behind the buffer.\<close>

theorem wpa_auth_gen_wpa_ie_bounds:
  "(ac_wpa conf AND WPA_PROTO_WPA = 0 \<longrightarrow>
      (\<exists>r. wpa_auth_gen_wpa_ie conf = Some r \<and> (case r of Inl rc \<Rightarrow> rc = -1 | Inr ies \<Rightarrow> length ies \<le> 128))) \<and>
   wpa_auth_gen_wpa_ie mixed_conf = None"
proof -
  have "\<exists>r. wpa_auth_gen_wpa_ie conf = Some r \<and> (case r of Inl rc \<Rightarrow> rc = -1 | Inr ies \<Rightarrow> length ies \<le> 128)"
    if w: "ac_wpa conf AND WPA_PROTO_WPA = 0"
  proof -
    have o: "\<exists>out. (if ac_wpa conf = WPA_PROTO_OSEN then wpa_write_osen conf 128 else Some []) = Some out \<and> length out \<le> 128 \<and>
        (ac_wpa conf AND WPA_PROTO_RSN \<noteq> 0 \<longrightarrow> out = [])"
      by (auto simp: wpa_write_osen_def put_def set_ie_len_def)
    then obtain out where out: "(if ac_wpa conf = WPA_PROTO_OSEN then wpa_write_osen conf 128 else Some []) = Some out" "length out \<le> 128"
        "ac_wpa conf AND WPA_PROTO_RSN \<noteq> 0 \<Longrightarrow> out = []" by blast
    have "\<exists>r. append_ie (ac_wpa conf AND WPA_PROTO_RSN \<noteq> 0) (\<lambda>n. wpa_write_rsn_ie conf n None) 128 out = Some r \<and>
        (case r of Inl rc \<Rightarrow> rc = -1 | Inr out \<Rightarrow> length out \<le> 128)"
    proof (rule append_ie_fits [OF out(2)])
      assume "ac_wpa conf AND WPA_PROTO_RSN \<noteq> 0"
      then have "110 \<le> 128 - length out" using out(3) by simp
      then show "\<exists>r. wpa_write_rsn_ie conf (128 - length out) None = Some r \<and>
          (case r of Inl rc \<Rightarrow> rc = -1 | Inr d \<Rightarrow> length d \<le> 128 - length out)"
        by (rule wpa_write_rsn_ie_fits)
    qed
    then obtain r where r: "append_ie (ac_wpa conf AND WPA_PROTO_RSN \<noteq> 0) (\<lambda>n. wpa_write_rsn_ie conf n None) 128 out = Some r"
        "case r of Inl rc \<Rightarrow> rc = -1 | Inr out \<Rightarrow> length out \<le> 128" by blast
    show ?thesis
    proof (cases r)
      case (Inr x)
      then have "length x \<le> 128" using r(2) by simp
      from append_ie_fits [OF this, of "wpa_key_mgmt_ft (ac_wpa_key_mgmt conf)" "wpa_write_mdie conf", OF wpa_write_mdie_fits]
      obtain q where "append_ie (wpa_key_mgmt_ft (ac_wpa_key_mgmt conf)) (wpa_write_mdie conf) 128 x = Some q"
        "case q of Inl rc \<Rightarrow> rc = -1 | Inr out \<Rightarrow> length out \<le> 128" by blast
      with r Inr w show ?thesis
        by (cases q) (auto simp: wpa_auth_gen_wpa_ie_def out(1) append_ie_def [of False])
    qed (use r w in \<open>auto simp: wpa_auth_gen_wpa_ie_def out(1)\<close>)
  qed
  then show ?thesis using gen_wpa_ie_overflow by blast
qed

theorem wpa_auth_gen_wpa_ie_bounds_witness:
  "ac_wpa sae_conf AND WPA_PROTO_WPA = 0 \<and>
   (\<exists>r. wpa_auth_gen_wpa_ie sae_conf = Some r \<and> (case r of Inl rc \<Rightarrow> rc = -1 | Inr ies \<Rightarrow> length ies \<le> 128))"
proof -
  have w: "ac_wpa sae_conf AND WPA_PROTO_WPA = 0" by (simp add: sae_conf_def)
  with wpa_auth_gen_wpa_ie_bounds [of sae_conf] show ?thesis by blast
qed

end
