(* ===== verification/WpaKeys.thy ===== *)
theory WpaKeys
  imports WpaDefs HmacSuite
begin

text \<open>
  The key hierarchy of \<^verbatim>\<open>src/common/wpa_common.c\<close>: lengths of the keys, \<^verbatim>\<open>wpa_pmk_to_ptk\<close>, the FILS
  derivations, the FT hierarchy (PMK-R0, PMK-R1, PTK) and the PMKID functions.  A result \<open>None\<close> of
  a derivation is the return value \<open>-1\<close>; where a derived key is written into an array of fixed
  size, the run is \<open>None\<close> if it does not fit.  The lengths that \<^verbatim>\<open>struct wpa_ptk\<close> keeps beside each
  array are the lengths of the octet strings.  \<open>hm512\<close> stands for HMAC-SHA-512 of the crypto
  library.
\<close>

subsection \<open>Lengths\<close>

definition wpa_kck_len :: "u32 \<Rightarrow> nat \<Rightarrow> nat" where
  "wpa_kck_len akmp pmk_len =
     (if akmp = WPA_KEY_MGMT_IEEE8021X_SUITE_B_192 \<or> akmp = WPA_KEY_MGMT_FT_IEEE8021X_SHA384 then 24
      else if akmp = WPA_KEY_MGMT_FILS_SHA256 \<or> akmp = WPA_KEY_MGMT_FT_FILS_SHA256 \<or>
        akmp = WPA_KEY_MGMT_FILS_SHA384 \<or> akmp = WPA_KEY_MGMT_FT_FILS_SHA384 then 0
      else if akmp = WPA_KEY_MGMT_DPP then pmk_len div 2
      else if akmp = WPA_KEY_MGMT_OWE then pmk_len div 2
      else 16)"

definition wpa_kck2_len :: "u32 \<Rightarrow> nat" where
  "wpa_kck2_len akmp =
     (if akmp = WPA_KEY_MGMT_FT_FILS_SHA256 then 16
      else if akmp = WPA_KEY_MGMT_FT_FILS_SHA384 then 24 else 0)"

definition wpa_kek_len :: "u32 \<Rightarrow> nat \<Rightarrow> nat" where
  "wpa_kek_len akmp pmk_len =
     (if akmp = WPA_KEY_MGMT_FILS_SHA384 \<or> akmp = WPA_KEY_MGMT_FT_FILS_SHA384 then 64
      else if akmp = WPA_KEY_MGMT_IEEE8021X_SUITE_B_192 \<or> akmp = WPA_KEY_MGMT_FILS_SHA256 \<or>
        akmp = WPA_KEY_MGMT_FT_FILS_SHA256 \<or> akmp = WPA_KEY_MGMT_FT_IEEE8021X_SHA384 then 32
      else if akmp = WPA_KEY_MGMT_DPP then (if pmk_len \<le> 32 then 16 else 32)
      else if akmp = WPA_KEY_MGMT_OWE then (if pmk_len \<le> 32 then 16 else 32)
      else 16)"

definition wpa_kek2_len :: "u32 \<Rightarrow> nat" where
  "wpa_kek2_len akmp =
     (if akmp = WPA_KEY_MGMT_FT_FILS_SHA256 then 16
      else if akmp = WPA_KEY_MGMT_FT_FILS_SHA384 then 32 else 0)"

definition wpa_mic_len :: "u32 \<Rightarrow> nat \<Rightarrow> nat" where
  "wpa_mic_len akmp pmk_len =
     (if akmp = WPA_KEY_MGMT_IEEE8021X_SUITE_B_192 \<or> akmp = WPA_KEY_MGMT_FT_IEEE8021X_SHA384 then 24
      else if akmp = WPA_KEY_MGMT_FILS_SHA256 \<or> akmp = WPA_KEY_MGMT_FILS_SHA384 \<or>
        akmp = WPA_KEY_MGMT_FT_FILS_SHA256 \<or> akmp = WPA_KEY_MGMT_FT_FILS_SHA384 then 0
      else if akmp = WPA_KEY_MGMT_DPP then pmk_len div 2
      else if akmp = WPA_KEY_MGMT_OWE then pmk_len div 2
      else 16)"

definition wpa_use_akm_defined :: "u32 \<Rightarrow> bool" where
  "wpa_use_akm_defined akmp \<longleftrightarrow>
     akmp = WPA_KEY_MGMT_OSEN \<or> akmp = WPA_KEY_MGMT_OWE \<or> akmp = WPA_KEY_MGMT_DPP \<or>
     akmp = WPA_KEY_MGMT_FT_IEEE8021X_SHA384 \<or> wpa_key_mgmt_sae akmp \<or> wpa_key_mgmt_suite_b akmp \<or>
     wpa_key_mgmt_fils akmp"

definition wpa_use_cmac :: "u32 \<Rightarrow> bool" where
  "wpa_use_cmac akmp \<longleftrightarrow>
     akmp = WPA_KEY_MGMT_OSEN \<or> akmp = WPA_KEY_MGMT_OWE \<or> akmp = WPA_KEY_MGMT_DPP \<or>
     wpa_key_mgmt_ft akmp \<or> wpa_key_mgmt_sha256 akmp \<or> wpa_key_mgmt_sae akmp \<or> wpa_key_mgmt_suite_b akmp"

definition wpa_use_aes_key_wrap :: "u32 \<Rightarrow> bool" where
  "wpa_use_aes_key_wrap akmp \<longleftrightarrow>
     akmp = WPA_KEY_MGMT_OSEN \<or> akmp = WPA_KEY_MGMT_OWE \<or> akmp = WPA_KEY_MGMT_DPP \<or>
     wpa_key_mgmt_ft akmp \<or> wpa_key_mgmt_sha256 akmp \<or> wpa_key_mgmt_sae akmp \<or> wpa_key_mgmt_suite_b akmp"

definition wpa_cipher_key_len :: "u32 \<Rightarrow> nat" where
  "wpa_cipher_key_len cipher =
     (if cipher = WPA_CIPHER_CCMP_256 \<or> cipher = WPA_CIPHER_GCMP_256 \<or> cipher = WPA_CIPHER_BIP_GMAC_256 \<or>
        cipher = WPA_CIPHER_BIP_CMAC_256 then 32
      else if cipher = WPA_CIPHER_CCMP \<or> cipher = WPA_CIPHER_GCMP \<or> cipher = WPA_CIPHER_AES_128_CMAC \<or>
        cipher = WPA_CIPHER_BIP_GMAC_128 then 16
      else if cipher = WPA_CIPHER_TKIP then 32
      else 0)"

definition wpa_cipher_rsc_len :: "u32 \<Rightarrow> nat" where
  "wpa_cipher_rsc_len cipher =
     (if cipher = WPA_CIPHER_CCMP_256 \<or> cipher = WPA_CIPHER_GCMP_256 \<or> cipher = WPA_CIPHER_CCMP \<or>
        cipher = WPA_CIPHER_GCMP \<or> cipher = WPA_CIPHER_TKIP then 6 else 0)"

subsection \<open>The pairwise transient key\<close>

record wpa_ptk =
  pk_kck :: bytes
  pk_kek :: bytes
  pk_tk :: bytes
  pk_kck2 :: bytes
  pk_kek2 :: bytes

text \<open>Writing \<open>n\<close> octets into an array of \<open>cap\<close> octets.\<close>

definition fits :: "nat \<Rightarrow> nat \<Rightarrow> unit run" where
  "fits n cap = (if n \<le> cap then Some () else None)"

definition ptk_prf ::
    "(bytes \<Rightarrow> bytes list \<Rightarrow> bytes option) \<Rightarrow> u32 \<Rightarrow> bytes \<Rightarrow> bytes \<Rightarrow> bytes \<Rightarrow> nat \<Rightarrow> bytes option" where
  "ptk_prf hm512 akmp pmk label data ptk_len =
     (if wpa_key_mgmt_sha384 akmp then sha384_prf pmk label data ptk_len
      else if wpa_key_mgmt_sha256 akmp \<or> akmp = WPA_KEY_MGMT_OWE then sha256_prf pmk label data ptk_len
      else if akmp = WPA_KEY_MGMT_DPP \<and> length pmk = 32 then sha256_prf pmk label data ptk_len
      else if akmp = WPA_KEY_MGMT_DPP \<and> length pmk = 48 then sha384_prf pmk label data ptk_len
      else if akmp = WPA_KEY_MGMT_DPP \<and> length pmk = 64 then sha512_prf hm512 pmk label data ptk_len
      else if akmp = WPA_KEY_MGMT_DPP then None
      else sha1_prf pmk label data ptk_len)"

definition ptk_data :: "bytes \<Rightarrow> bytes \<Rightarrow> bytes \<Rightarrow> bytes \<Rightarrow> bytes" where
  "ptk_data addr1 addr2 nonce1 nonce2 =
     (if os_memcmp addr1 addr2 < 0 then addr1 @ addr2 else addr2 @ addr1) @
     (if os_memcmp nonce1 nonce2 < 0 then nonce1 @ nonce2 else nonce2 @ nonce1)"

definition wpa_pmk_to_ptk ::
    "(bytes \<Rightarrow> bytes list \<Rightarrow> bytes option) \<Rightarrow> bytes \<Rightarrow> bytes \<Rightarrow> bytes \<Rightarrow> bytes \<Rightarrow> bytes \<Rightarrow> bytes \<Rightarrow> u32 \<Rightarrow> u32
     \<Rightarrow> wpa_ptk option run" where
  "wpa_pmk_to_ptk hm512 pmk label addr1 addr2 nonce1 nonce2 akmp cipher =
     (if length pmk = 0 then Some None
      else
        let data = ptk_data addr1 addr2 nonce1 nonce2;
            kck_len = wpa_kck_len akmp (length pmk);
            kek_len = wpa_kek_len akmp (length pmk);
            tk_len = wpa_cipher_key_len cipher
        in if tk_len = 0 then Some None
           else do {
             let ptk_len = kck_len + kek_len + tk_len;
             _ \<leftarrow> fits ptk_len (32 + 64 + 32);
             case ptk_prf hm512 akmp pmk label data ptk_len of
               None \<Rightarrow> Some None
             | Some tmp \<Rightarrow> do {
                 _ \<leftarrow> fits kck_len 32; _ \<leftarrow> fits kek_len 64; _ \<leftarrow> fits tk_len 32;
                 Some (Some \<lparr>pk_kck = take kck_len tmp,
                   pk_kek = take kek_len (drop kck_len tmp),
                   pk_tk = take tk_len (drop (kck_len + kek_len) tmp),
                   pk_kck2 = [], pk_kek2 = []\<rparr>) } })"

subsection \<open>FILS\<close>

definition fils_rmsk_to_pmk :: "u32 \<Rightarrow> bytes \<Rightarrow> bytes \<Rightarrow> bytes \<Rightarrow> bytes option \<Rightarrow> bytes option" where
  "fils_rmsk_to_pmk akmp rmsk snonce anonce dh_ss =
     (let elems = rmsk # (case dh_ss of None \<Rightarrow> [] | Some d \<Rightarrow> [d])
      in if wpa_key_mgmt_sha384 akmp then hmac_sha384_vector (snonce @ anonce) elems
         else if wpa_key_mgmt_sha256 akmp then hmac_sha256_vector (snonce @ anonce) elems
         else None)"

definition fils_pmkid_erp :: "u32 \<Rightarrow> bytes \<Rightarrow> bytes option" where
  "fils_pmkid_erp akmp reauth =
     (if wpa_key_mgmt_sha384 akmp then map_option (take PMKID_LEN) (sha384_vector [reauth])
      else if wpa_key_mgmt_sha256 akmp then map_option (take PMKID_LEN) (sha256_vector [reauth])
      else None)"

text \<open>The result is the key, the ICK and the FILS-FT key (empty unless \<open>want_ft\<close> and an FT suite).\<close>

definition fils_pmk_to_ptk ::
    "bytes \<Rightarrow> bytes \<Rightarrow> bytes \<Rightarrow> bytes \<Rightarrow> bytes \<Rightarrow> bytes option \<Rightarrow> u32 \<Rightarrow> u32 \<Rightarrow> bool
     \<Rightarrow> (wpa_ptk \<times> bytes \<times> bytes) option run" where
  "fils_pmk_to_ptk pmk spa aa snonce anonce dhss akmp cipher want_ft =
     (let data = spa @ aa @ snonce @ anonce @ (case dhss of None \<Rightarrow> [] | Some d \<Rightarrow> d);
          kek_len = wpa_kek_len akmp (length pmk);
          tk_len = wpa_cipher_key_len cipher
      in if \<not> wpa_key_mgmt_sha384 akmp \<and> \<not> wpa_key_mgmt_sha256 akmp then Some None
         else do {
           let ick_len = (if wpa_key_mgmt_sha384 akmp then 48 else 32);
           let fils_ft_len = (if want_ft then if akmp = WPA_KEY_MGMT_FT_FILS_SHA256 then 32
                               else if akmp = WPA_KEY_MGMT_FT_FILS_SHA384 then 48 else 0 else 0);
           let key_data_len = ick_len + kek_len + tk_len + fils_ft_len;
           _ \<leftarrow> fits key_data_len (48 + 64 + 32 + 48);
           case (if wpa_key_mgmt_sha384 akmp
                 then sha384_prf pmk (ascii ''FILS PTK Derivation'') data key_data_len
                 else sha256_prf pmk (ascii ''FILS PTK Derivation'') data key_data_len) of
             None \<Rightarrow> Some None
           | Some tmp \<Rightarrow> do {
               _ \<leftarrow> fits kek_len 64; _ \<leftarrow> fits tk_len 32;
               Some (Some (\<lparr>pk_kck = [], pk_kek = take kek_len (drop ick_len tmp),
                   pk_tk = take tk_len (drop (ick_len + kek_len) tmp), pk_kck2 = [], pk_kek2 = []\<rparr>,
                 take ick_len tmp,
                 take fils_ft_len (drop (ick_len + kek_len + tk_len) tmp))) } })"

definition fils_hmac :: "u32 \<Rightarrow> bytes \<Rightarrow> bytes list \<Rightarrow> bytes option" where
  "fils_hmac akmp ick elems =
     (if wpa_key_mgmt_sha384 akmp then hmac_sha384_vector ick elems
      else if wpa_key_mgmt_sha256 akmp then hmac_sha256_vector ick elems
      else None)"

text \<open>\<open>g_sta\<close> and \<open>g_ap\<close> are the Diffie-Hellman values of FILS with perfect forward secrecy; the code
  asks for both pointers and, twice, for the length of \<open>g_ap\<close>.\<close>

definition fils_key_auth_sk ::
    "bytes \<Rightarrow> bytes \<Rightarrow> bytes \<Rightarrow> bytes \<Rightarrow> bytes \<Rightarrow> bytes option \<Rightarrow> bytes option \<Rightarrow> u32 \<Rightarrow> (bytes \<times> bytes) option" where
  "fils_key_auth_sk ick snonce anonce sta_addr bssid g_sta g_ap akmp =
     (let g = (case (g_sta, g_ap) of (Some s, Some a) \<Rightarrow> if length a \<noteq> 0 then [s, a] else []
               | _ \<Rightarrow> [])
      in do {
        key_auth_sta \<leftarrow> fils_hmac akmp ick ([snonce, anonce, sta_addr, bssid] @ g);
        key_auth_ap \<leftarrow> fils_hmac akmp ick ([anonce, snonce, bssid, sta_addr] @ rev g);
        Some (key_auth_sta, key_auth_ap) })"

subsection \<open>The FT hierarchy\<close>

definition wpa_derive_pmk_r0 ::
    "bytes \<Rightarrow> bytes \<Rightarrow> bytes \<Rightarrow> bytes \<Rightarrow> bytes \<Rightarrow> bool \<Rightarrow> (bytes \<times> bytes) option" where
  "wpa_derive_pmk_r0 xxkey ssid mdid r0kh_id s0kh_id use_sha384 =
     (let q = (if use_sha384 then 48 else 32);
          buf = [word_of_nat (length ssid)] @ ssid @ mdid @ [word_of_nat (length r0kh_id)] @ r0kh_id @ s0kh_id
      in if length ssid > 32 \<or> length r0kh_id > 48 then None
         else if length xxkey \<noteq> q then None
         else do {
           r0_key_data \<leftarrow> (if use_sha384 then sha384_prf xxkey (ascii ''FT-R0'') buf (q + 16)
                            else sha256_prf xxkey (ascii ''FT-R0'') buf (q + 16));
           let salt = take 16 (drop q r0_key_data);
           hash \<leftarrow> (if use_sha384 then sha384_vector [ascii ''FT-R0N'', salt]
                     else sha256_vector [ascii ''FT-R0N'', salt]);
           Some (take q r0_key_data, take 16 hash) })"

definition wpa_derive_pmk_r1_name :: "bytes \<Rightarrow> bytes \<Rightarrow> bytes \<Rightarrow> bool \<Rightarrow> bytes option" where
  "wpa_derive_pmk_r1_name pmk_r0_name r1kh_id s1kh_id use_sha384 = do {
     let elems = [ascii ''FT-R1N'', pmk_r0_name, r1kh_id, s1kh_id];
     hash \<leftarrow> (if use_sha384 then sha384_vector elems else sha256_vector elems);
     Some (take 16 hash) }"

definition wpa_derive_pmk_r1 :: "bytes \<Rightarrow> bytes \<Rightarrow> bytes \<Rightarrow> bytes \<Rightarrow> (bytes \<times> bytes) option" where
  "wpa_derive_pmk_r1 pmk_r0 pmk_r0_name r1kh_id s1kh_id =
     (if length pmk_r0 \<noteq> 48 \<and> length pmk_r0 \<noteq> 32 then None
      else do {
        pmk_r1 \<leftarrow> (if length pmk_r0 = 48 then sha384_prf pmk_r0 (ascii ''FT-R1'') (r1kh_id @ s1kh_id) (length pmk_r0)
                    else sha256_prf pmk_r0 (ascii ''FT-R1'') (r1kh_id @ s1kh_id) (length pmk_r0));
        name \<leftarrow> wpa_derive_pmk_r1_name pmk_r0_name r1kh_id s1kh_id (length pmk_r0 = 48);
        Some (pmk_r1, name) })"

text \<open>In the last step the code assigns \<open>offset = kck2_len\<close> where it advanced the offset before.\<close>

definition wpa_pmk_r1_to_ptk ::
    "bytes \<Rightarrow> bytes \<Rightarrow> bytes \<Rightarrow> bytes \<Rightarrow> bytes \<Rightarrow> bytes \<Rightarrow> u32 \<Rightarrow> u32 \<Rightarrow> (wpa_ptk \<times> bytes) option run" where
  "wpa_pmk_r1_to_ptk pmk_r1 snonce anonce sta_addr bssid pmk_r1_name akmp cipher =
     (let buf = snonce @ anonce @ bssid @ sta_addr;
          kck_len = wpa_kck_len akmp 32; kck2_len = wpa_kck2_len akmp;
          kek_len = wpa_kek_len akmp 32; kek2_len = wpa_kek2_len akmp;
          tk_len = wpa_cipher_key_len cipher;
          ptk_len = kck_len + kek_len + tk_len + kck2_len + kek2_len;
          use_sha384 = wpa_key_mgmt_sha384 akmp
      in if length pmk_r1 \<noteq> (if use_sha384 then 48 else 32) then Some None
         else do {
           _ \<leftarrow> fits ptk_len (2 * 32 + 2 * 64 + 32);
           case (if use_sha384 then sha384_prf pmk_r1 (ascii ''FT-PTK'') buf ptk_len
                 else sha256_prf pmk_r1 (ascii ''FT-PTK'') buf ptk_len) of
             None \<Rightarrow> Some None
           | Some tmp \<Rightarrow>
               case sha256_vector [pmk_r1_name, ascii ''FT-PTKN'', snonce, anonce, bssid, sta_addr] of
                 None \<Rightarrow> Some None
               | Some hash \<Rightarrow> do {
                   _ \<leftarrow> fits kck_len 32; _ \<leftarrow> fits kek_len 64; _ \<leftarrow> fits tk_len 32;
                   _ \<leftarrow> fits kck2_len 32; _ \<leftarrow> fits kek2_len 64;
                   let offset = kck_len + kek_len + tk_len;
                   let offset' = kck2_len;
                   Some (Some (\<lparr>pk_kck = take kck_len tmp,
                       pk_kek = take kek_len (drop kck_len tmp),
                       pk_tk = take tk_len (drop (kck_len + kek_len) tmp),
                       pk_kck2 = take kck2_len (drop offset tmp),
                       pk_kek2 = take kek2_len (drop offset' tmp)\<rparr>, take 16 hash)) } })"

subsection \<open>PMKID\<close>

text \<open>\<^verbatim>\<open>rsn_pmkid\<close> does not look at the result of the HMAC function; \<open>None\<close> stands for the octets of the
  uninitialised local array.\<close>

definition rsn_pmkid :: "bytes \<Rightarrow> bytes \<Rightarrow> bytes \<Rightarrow> u32 \<Rightarrow> bytes option" where
  "rsn_pmkid pmk aa spa akmp =
     map_option (take PMKID_LEN)
       (if wpa_key_mgmt_sha384 akmp then hmac_sha384_vector pmk [ascii ''PMK Name'', aa, spa]
        else if wpa_key_mgmt_sha256 akmp then hmac_sha256_vector pmk [ascii ''PMK Name'', aa, spa]
        else hmac_sha1_vector pmk [ascii ''PMK Name'', aa, spa])"

definition rsn_pmkid_suite_b :: "bytes \<Rightarrow> bytes \<Rightarrow> bytes \<Rightarrow> bytes option" where
  "rsn_pmkid_suite_b kck aa spa = map_option (take PMKID_LEN) (hmac_sha256_vector kck [ascii ''PMK Name'', aa, spa])"

definition rsn_pmkid_suite_b_192 :: "bytes \<Rightarrow> bytes \<Rightarrow> bytes \<Rightarrow> bytes option" where
  "rsn_pmkid_suite_b_192 kck aa spa = map_option (take PMKID_LEN) (hmac_sha384_vector kck [ascii ''PMK Name'', aa, spa])"


subsection \<open>Both sides derive the same key\<close>

lemma fits_ok: "n \<le> cap \<Longrightarrow> fits n cap = Some ()"
  by (simp add: fits_def)

lemma memcmp_pair_sym:
  "length a = length b \<Longrightarrow>
   (if os_memcmp a b < 0 then a @ b else b @ a) = (if os_memcmp b a < 0 then b @ a else a @ b)"
  using os_memcmp_swap [of b a] os_memcmp_0 [of a b] by auto

lemma ptk_data_sym:
  "length a = length b \<Longrightarrow> length n = length m \<Longrightarrow> ptk_data a b n m = ptk_data b a m n"
  using memcmp_pair_sym [of a b] memcmp_pair_sym [of n m] by (simp add: ptk_data_def)

lemma key_lengths:
  "pmk_len \<le> 64 \<Longrightarrow> wpa_kck_len akmp pmk_len \<le> 32" "wpa_kek_len akmp pmk_len \<le> 64" "wpa_cipher_key_len cipher \<le> 32"
  "wpa_kck2_len akmp \<le> 32" "wpa_kek2_len akmp \<le> 64"
  by (auto simp: wpa_kck_len_def wpa_kek_len_def wpa_cipher_key_len_def wpa_kck2_len_def wpa_kek2_len_def)

lemma sha256_prf_eq:
  assumes "n \<le> m * 32"
  shows "sha256_prf key label data n = Some (take n (kdf_stream (hmac sha256 64 key) label data (n * 8) m))"
  using sha256_prf_bits_eq [of "n * 8" m key label data] assms by (simp add: sha256_prf_def mask_last_def)

lemma take_take_drop: "take a x @ take b (drop a x) @ take c (drop (a + b) x) = take (a + b + c) x"
  by (simp only: take_add append_assoc)

lemma ptk_prf_sae:
  "ptk_prf hm512 WPA_KEY_MGMT_SAE pmk label data n = sha256_prf pmk label data n"
  by (simp add: ptk_prf_def wpa_key_mgmt_sha384_def wpa_key_mgmt_sha256_def)

lemma wpa_pmk_to_ptk_sae:
  fixes cipher :: u32
  defines "k \<equiv> wpa_cipher_key_len cipher"
  assumes "pmk \<noteq> []" "k \<noteq> 0"
    and p: "sha256_prf pmk label (ptk_data aa spa anonce snonce) (32 + k) = Some t" "length t = 32 + k"
  shows "\<exists>ptk. wpa_pmk_to_ptk hm512 pmk label aa spa anonce snonce WPA_KEY_MGMT_SAE cipher = Some (Some ptk) \<and>
      length (pk_kck ptk) = 16 \<and> length (pk_kek ptk) = 16 \<and> length (pk_tk ptk) = k \<and>
      pk_kck ptk @ pk_kek ptk @ pk_tk ptk = t"
proof -
  have "wpa_pmk_to_ptk hm512 pmk label aa spa anonce snonce WPA_KEY_MGMT_SAE cipher =
     Some (Some \<lparr>pk_kck = take 16 t, pk_kek = take 16 (drop 16 t), pk_tk = take k (drop 32 t), pk_kck2 = [], pk_kek2 = []\<rparr>)"
    using assms(2,3) key_lengths(3) [of cipher] p(1) unfolding k_def
    by (simp add: wpa_pmk_to_ptk_def Let_def wpa_kck_len_def wpa_kek_len_def fits_ok ptk_prf_sae)
  moreover have "take 16 t @ take 16 (drop 16 t) @ take k (drop 32 t) = t"
    using take_take_drop [of 16 t 16 k] p(2) by simp
  ultimately show ?thesis using p(2) by simp
qed

text \<open>C14: The authenticator and the supplicant, which call \<^verbatim>\<open>wpa_pmk_to_ptk\<close> with the addresses and the
  nonces exchanged, compute the same result for every key management suite and cipher; no array
  overflows for a PMK of at most 64 octets; and for SAE the KCK, KEK and TK are, in this order, the
  octets of the KDF of IEEE Std 802.11 over the ordered addresses and nonces.\<close>

theorem wpa_pmk_to_ptk_agree:
  assumes "length aa = length spa" "length anonce = length snonce" "length pmk \<le> 64"
    and "pmk \<noteq> []" "wpa_cipher_key_len cipher \<noteq> 0"
  shows "wpa_pmk_to_ptk hm512 pmk label aa spa anonce snonce akmp cipher =
           wpa_pmk_to_ptk hm512 pmk label spa aa snonce anonce akmp cipher \<and>
         (\<exists>r. wpa_pmk_to_ptk hm512 pmk label aa spa anonce snonce akmp cipher = Some r) \<and>
         (\<exists>ptk. wpa_pmk_to_ptk hm512 pmk label aa spa anonce snonce WPA_KEY_MGMT_SAE cipher = Some (Some ptk) \<and>
            length (pk_kck ptk) = 16 \<and> length (pk_kek ptk) = 16 \<and> length (pk_tk ptk) = wpa_cipher_key_len cipher \<and>
            pk_kck ptk @ pk_kek ptk @ pk_tk ptk =
              take (32 + wpa_cipher_key_len cipher)
                (kdf_stream (hmac sha256 64 pmk) label (ptk_data aa spa anonce snonce)
                   ((32 + wpa_cipher_key_len cipher) * 8) 2))"
proof (intro conjI)
  show "wpa_pmk_to_ptk hm512 pmk label aa spa anonce snonce akmp cipher =
        wpa_pmk_to_ptk hm512 pmk label spa aa snonce anonce akmp cipher"
    by (simp add: wpa_pmk_to_ptk_def ptk_data_sym [OF assms(1,2)])
  show "\<exists>r. wpa_pmk_to_ptk hm512 pmk label aa spa anonce snonce akmp cipher = Some r"
    using assms(3) key_lengths(1) [of "length pmk" akmp] key_lengths(2) [of akmp "length pmk"] key_lengths(3) [of cipher]
    by (auto simp: wpa_pmk_to_ptk_def Let_def fits_ok split: option.split)
qed (use assms(4,5) key_lengths(3) [of cipher] in
    \<open>intro wpa_pmk_to_ptk_sae sha256_prf_eq; simp add: length_kdf_stream\<close>)

theorem wpa_pmk_to_ptk_agree_witness:
  "wpa_pmk_to_ptk (\<lambda>_ _. None) (replicate 32 1) [7] (replicate 6 1) (replicate 6 2) (replicate 32 3) (replicate 32 4) WPA_KEY_MGMT_SAE WPA_CIPHER_CCMP =
   wpa_pmk_to_ptk (\<lambda>_ _. None) (replicate 32 1) [7] (replicate 6 2) (replicate 6 1) (replicate 32 4) (replicate 32 3) WPA_KEY_MGMT_SAE WPA_CIPHER_CCMP"
  using wpa_pmk_to_ptk_agree [of "replicate 6 1" "replicate 6 2" "replicate 32 3" "replicate 32 4" "replicate 32 1"
      WPA_CIPHER_CCMP "\<lambda>_ _. None" "[7]" WPA_KEY_MGMT_SAE]
  by (simp add: wpa_cipher_key_len_def)

subsection \<open>FT and FILS\<close>

lemma length_take_kdf: "n \<le> m * 32 \<Longrightarrow> length (take n (kdf_stream (hmac sha256 64 key) label data bits m)) = n"
  by (simp add: length_kdf_stream)



lemma fils_hmac_few:
  "length elems \<le> 5 \<Longrightarrow> fils_hmac WPA_KEY_MGMT_FILS_SHA256 ick elems = Some (hmac sha256 64 ick (concat elems))"
  by (simp add: fils_hmac_def wpa_key_mgmt_sha384_def wpa_key_mgmt_sha256_def hmac_sha256_vector_eq)

lemma fils_hmac_many: "5 < length elems \<Longrightarrow> fils_hmac akmp ick elems = None"
  by (simp add: fils_hmac_def hmac_sha256_vector_def hmac_sha384_vector_def hmac_vector_def)


end
