(* ===== verification/Pmksa.thy ===== *)
theory Pmksa
  imports WpaKeys
begin

text \<open>
  The PMKSA cache of the authenticator, \<^verbatim>\<open>src/ap/pmksa_cache_auth.c\<close>.  An entry is a node of two
  singly linked lists: the list of all entries (\<^verbatim>\<open>next\<close>, ordered by expiration) and the list of its
  hash bucket (\<^verbatim>\<open>hnext\<close>).  The heap is modelled field by field: \<open>pc_ent\<close> maps the allocated
  addresses to the data of the entries, \<open>pc_next\<close> and \<open>pc_hnext\<close> are the two pointer fields.  A run
  that is \<open>None\<close> follows a pointer to memory that is not allocated, or does not end.

  The time is a parameter of the operations that read the clock; \<open>alloc\<close> is what the allocator
  returns for a new entry (\<open>None\<close> when memory is exhausted).  Calls of \<^verbatim>\<open>free_cb\<close> are recorded in
  \<open>pc_freed\<close>, the registered timeout is \<open>pc_timeout\<close>.
\<close>

subsection \<open>Data\<close>

record vlan_description =
  vd_notempty :: bool
  vd_untagged :: int
  vd_tagged :: "int list"

record rsn_pmksa_cache_entry =
  pe_pmkid :: bytes
  pe_pmk :: bytes
  pe_expiration :: int
  pe_akmp :: u32
  pe_spa :: bytes
  pe_identity :: "bytes option"
  pe_cui :: "bytes option"
  pe_radius_class :: "bytes list"
  pe_eap_type_authsrv :: u8
  pe_vlan_desc :: "vlan_description option"
  pe_opportunistic :: bool
  pe_acct_multi_session_id :: u64

text \<open>What the cache uses of \<^verbatim>\<open>struct eapol_state_machine\<close> and its station.\<close>

record eapol_info =
  ei_identity :: "bytes option"
  ei_radius_cui :: "bytes option"
  ei_radius_class :: "bytes list"
  ei_eap_type_authsrv :: u8
  ei_vlan_desc :: "vlan_description option"
  ei_acct_multi_session_id :: u64

record rsn_pmksa_cache =
  pc_ent :: "nat \<Rightarrow> rsn_pmksa_cache_entry option"
  pc_next :: "nat \<Rightarrow> nat option"
  pc_hnext :: "nat \<Rightarrow> nat option"
  pc_pmkid :: "nat \<Rightarrow> nat option"
  pc_pmksa :: "nat option"
  pc_count :: int
  pc_freed :: "rsn_pmksa_cache_entry list"
  pc_timeout :: "int option"

definition PMKID_HASH :: "bytes \<Rightarrow> nat" where
  "PMKID_HASH pmkid = unat (pmkid ! 0 AND 0x7f)"

subsection \<open>Following a list\<close>

definition field :: "rsn_pmksa_cache \<Rightarrow> (nat \<Rightarrow> 'a) \<Rightarrow> nat \<Rightarrow> 'a run" where
  "field c f p = (case pc_ent c p of None \<Rightarrow> None | Some _ \<Rightarrow> Some (f p))"

text \<open>The loops \<^verbatim>\<open>while (pos) { if (stop) break; prev = pos; pos = pos->nxt; }\<close>.\<close>

partial_function (option) scan ::
    "(nat \<Rightarrow> nat option run) \<Rightarrow> (nat \<Rightarrow> bool run) \<Rightarrow> nat option \<Rightarrow> nat option \<Rightarrow> (nat option \<times> nat option) run" where
  "scan nxt stop prev pos =
     (if pos = None then Some (prev, None)
      else do {
        b \<leftarrow> stop (the pos);
        if b then Some (prev, pos)
        else do { n \<leftarrow> nxt (the pos); scan nxt stop pos n } })"

subsection \<open>Operations\<close>

definition pmksa_cache_free_entry :: "rsn_pmksa_cache \<Rightarrow> nat \<Rightarrow> rsn_pmksa_cache run" where
  "pmksa_cache_free_entry c entry = do {
     e \<leftarrow> pc_ent c entry;
     let c = c\<lparr>pc_count := pc_count c - 1, pc_freed := pc_freed c @ [e]\<rparr>;
     let hash = PMKID_HASH (pe_pmkid e);
     (prev, pos) \<leftarrow> scan (field c (pc_hnext c)) (\<lambda>p. Some (p = entry)) None (pc_pmkid c hash);
     let c = (case pos of None \<Rightarrow> c
              | Some _ \<Rightarrow> (case prev of
                    Some q \<Rightarrow> c\<lparr>pc_hnext := (pc_hnext c)(q := pc_hnext c entry)\<rparr>
                  | None \<Rightarrow> c\<lparr>pc_pmkid := (pc_pmkid c)(hash := pc_hnext c entry)\<rparr>));
     (prev, pos) \<leftarrow> scan (field c (pc_next c)) (\<lambda>p. Some (p = entry)) None (pc_pmksa c);
     let c = (case pos of None \<Rightarrow> c
              | Some _ \<Rightarrow> (case prev of
                    Some q \<Rightarrow> c\<lparr>pc_next := (pc_next c)(q := pc_next c entry)\<rparr>
                  | None \<Rightarrow> c\<lparr>pc_pmksa := pc_next c entry\<rparr>));
     Some (c\<lparr>pc_ent := (pc_ent c)(entry := None)\<rparr>) }"

partial_function (option) pmksa_cache_auth_flush :: "rsn_pmksa_cache \<Rightarrow> rsn_pmksa_cache run" where
  "pmksa_cache_auth_flush c =
     (if pc_pmksa c = None then Some c
      else do { c' \<leftarrow> pmksa_cache_free_entry c (the (pc_pmksa c)); pmksa_cache_auth_flush c' })"

definition pmksa_cache_set_expiration :: "int \<Rightarrow> rsn_pmksa_cache \<Rightarrow> rsn_pmksa_cache run" where
  "pmksa_cache_set_expiration now c = do {
     let c = c\<lparr>pc_timeout := None\<rparr>;
     case pc_pmksa c of None \<Rightarrow> Some c
     | Some p \<Rightarrow> do {
         e \<leftarrow> pc_ent c p;
         let sec = pe_expiration e - now;
         let sec = (if sec < 0 then 0 else sec);
         Some (c\<lparr>pc_timeout := Some (sec + 1)\<rparr>) } }"

partial_function (option) pmksa_expire_loop :: "int \<Rightarrow> rsn_pmksa_cache \<Rightarrow> rsn_pmksa_cache run" where
  "pmksa_expire_loop now c =
     (if pc_pmksa c = None then Some c
      else do {
        e \<leftarrow> pc_ent c (the (pc_pmksa c));
        if pe_expiration e \<le> now
        then do { c' \<leftarrow> pmksa_cache_free_entry c (the (pc_pmksa c)); pmksa_expire_loop now c' }
        else Some c })"

definition pmksa_cache_expire :: "int \<Rightarrow> rsn_pmksa_cache \<Rightarrow> rsn_pmksa_cache run" where
  "pmksa_cache_expire now c = do { c \<leftarrow> pmksa_expire_loop now c; pmksa_cache_set_expiration now c }"

definition pmksa_cache_from_eapol_data ::
    "rsn_pmksa_cache_entry \<Rightarrow> eapol_info option \<Rightarrow> rsn_pmksa_cache_entry" where
  "pmksa_cache_from_eapol_data entry eapol =
     (case eapol of None \<Rightarrow> entry
      | Some eapol \<Rightarrow>
          entry\<lparr>pe_identity := (case ei_identity eapol of None \<Rightarrow> pe_identity entry | Some i \<Rightarrow> Some i),
                pe_cui := (case ei_radius_cui eapol of None \<Rightarrow> pe_cui entry | Some x \<Rightarrow> Some x),
                pe_radius_class := ei_radius_class eapol,
                pe_eap_type_authsrv := ei_eap_type_authsrv eapol,
                pe_vlan_desc := (case ei_vlan_desc eapol of None \<Rightarrow> None
                                 | Some v \<Rightarrow> if vd_notempty v then Some v else None),
                pe_acct_multi_session_id := ei_acct_multi_session_id eapol\<rparr>)"

definition pmksa_cache_to_eapol_data :: "rsn_pmksa_cache_entry option \<Rightarrow> eapol_info \<Rightarrow> eapol_info" where
  "pmksa_cache_to_eapol_data entry eapol =
     (case entry of None \<Rightarrow> eapol
      | Some entry \<Rightarrow>
          eapol\<lparr>ei_identity := (case pe_identity entry of None \<Rightarrow> ei_identity eapol | Some i \<Rightarrow> Some i),
                ei_radius_cui := (case pe_cui entry of None \<Rightarrow> ei_radius_cui eapol | Some x \<Rightarrow> Some x),
                ei_radius_class := pe_radius_class entry,
                ei_eap_type_authsrv := pe_eap_type_authsrv entry,
                ei_vlan_desc := pe_vlan_desc entry,
                ei_acct_multi_session_id := pe_acct_multi_session_id entry\<rparr>)"

text \<open>Insert behind the last entry that does not expire later.\<close>

definition pmksa_cache_link_entry :: "int \<Rightarrow> rsn_pmksa_cache \<Rightarrow> nat \<Rightarrow> rsn_pmksa_cache run" where
  "pmksa_cache_link_entry now c entry = do {
     e \<leftarrow> pc_ent c entry;
     (prev, pos) \<leftarrow> scan (field c (pc_next c))
        (\<lambda>p. do { x \<leftarrow> pc_ent c p; Some (pe_expiration x > pe_expiration e) }) None (pc_pmksa c);
     let c = (case prev of
               None \<Rightarrow> c\<lparr>pc_next := (pc_next c)(entry := pc_pmksa c), pc_pmksa := Some entry\<rparr>
             | Some q \<Rightarrow> c\<lparr>pc_next := (pc_next c)(entry := pc_next c q, q := Some entry)\<rparr>);
     let hash = PMKID_HASH (pe_pmkid e);
     let c = c\<lparr>pc_hnext := (pc_hnext c)(entry := pc_pmkid c hash),
               pc_pmkid := (pc_pmkid c)(hash := Some entry),
               pc_count := pc_count c + 1\<rparr>;
     if prev = None then pmksa_cache_set_expiration now c else Some c }"

definition pmksa_cache_auth_create_entry ::
    "int \<Rightarrow> bytes \<Rightarrow> bytes option \<Rightarrow> bytes option \<Rightarrow> bytes \<Rightarrow> bytes \<Rightarrow> int \<Rightarrow> eapol_info option \<Rightarrow> u32
     \<Rightarrow> rsn_pmksa_cache_entry option run" where
  "pmksa_cache_auth_create_entry now pmk pmkid kck aa spa session_timeout eapol akmp =
     (if length pmk > 64 then Some None
      else if wpa_key_mgmt_suite_b akmp \<and> kck = None then Some None
      else do {
        id \<leftarrow> (case pmkid of Some i \<Rightarrow> Some (take PMKID_LEN i)
               | None \<Rightarrow>
                   if akmp = WPA_KEY_MGMT_IEEE8021X_SUITE_B_192
                   then Some (case rsn_pmkid_suite_b_192 (the kck) aa spa of None \<Rightarrow> replicate 16 0 | Some i \<Rightarrow> i)
                   else if wpa_key_mgmt_suite_b akmp
                   then Some (case rsn_pmkid_suite_b (the kck) aa spa of None \<Rightarrow> replicate 16 0 | Some i \<Rightarrow> i)
                   else rsn_pmkid pmk aa spa akmp);
        let entry = \<lparr>pe_pmkid = id, pe_pmk = pmk,
              pe_expiration = now + (if session_timeout > 0 then session_timeout else 43200),
              pe_akmp = akmp, pe_spa = take 6 spa, pe_identity = None, pe_cui = None, pe_radius_class = [],
              pe_eap_type_authsrv = 0, pe_vlan_desc = None, pe_opportunistic = False,
              pe_acct_multi_session_id = 0\<rparr>;
        Some (Some (pmksa_cache_from_eapol_data entry eapol)) })"

definition pmksa_cache_auth_get :: "rsn_pmksa_cache \<Rightarrow> bytes option \<Rightarrow> bytes option \<Rightarrow> nat option run" where
  "pmksa_cache_auth_get c spa pmkid =
     (case pmkid of
        Some i \<Rightarrow> do {
          (prev, pos) \<leftarrow> scan (field c (pc_hnext c))
             (\<lambda>p. do { e \<leftarrow> pc_ent c p;
                Some ((case spa of None \<Rightarrow> True | Some a \<Rightarrow> os_memcmp (pe_spa e) a = 0) \<and> os_memcmp (pe_pmkid e) i = 0) })
             None (pc_pmkid c (PMKID_HASH i));
          Some pos }
      | None \<Rightarrow> do {
          (prev, pos) \<leftarrow> scan (field c (pc_next c))
             (\<lambda>p. do { e \<leftarrow> pc_ent c p;
                Some (case spa of None \<Rightarrow> True | Some a \<Rightarrow> os_memcmp (pe_spa e) a = 0) })
             None (pc_pmksa c);
          Some pos })"

definition pmksa_cache_get_okc :: "rsn_pmksa_cache \<Rightarrow> bytes \<Rightarrow> bytes \<Rightarrow> bytes \<Rightarrow> nat option run" where
  "pmksa_cache_get_okc c aa spa pmkid = do {
     (prev, pos) \<leftarrow> scan (field c (pc_next c))
        (\<lambda>p. do { e \<leftarrow> pc_ent c p;
           if os_memcmp (pe_spa e) spa \<noteq> 0 then Some False
           else do { i \<leftarrow> rsn_pmkid (pe_pmk e) aa spa (pe_akmp e); Some (os_memcmp i pmkid = 0) } })
        None (pc_pmksa c);
     Some pos }"

definition pmksa_cache_auth_add_entry :: "int \<Rightarrow> rsn_pmksa_cache \<Rightarrow> nat \<Rightarrow> rsn_pmksa_cache run" where
  "pmksa_cache_auth_add_entry now c entry = do {
     e \<leftarrow> pc_ent c entry;
     pos \<leftarrow> pmksa_cache_auth_get c (Some (pe_spa e)) None;
     c \<leftarrow> (case pos of None \<Rightarrow> Some c | Some p \<Rightarrow> pmksa_cache_free_entry c p);
     c \<leftarrow> (case pc_pmksa c of
             Some p \<Rightarrow> if pc_count c \<ge> 1024 then pmksa_cache_free_entry c p else Some c
           | None \<Rightarrow> Some c);
     pmksa_cache_link_entry now c entry }"

text \<open>The result is the new cache and the pointer to the entry.\<close>

definition pmksa_cache_auth_add ::
    "nat option \<Rightarrow> int \<Rightarrow> rsn_pmksa_cache \<Rightarrow> bytes \<Rightarrow> bytes option \<Rightarrow> bytes option \<Rightarrow> bytes \<Rightarrow> bytes \<Rightarrow> int
     \<Rightarrow> eapol_info option \<Rightarrow> u32 \<Rightarrow> (rsn_pmksa_cache \<times> nat option) run" where
  "pmksa_cache_auth_add alloc now c pmk pmkid kck aa spa session_timeout eapol akmp = do {
     entry \<leftarrow> pmksa_cache_auth_create_entry now pmk pmkid kck aa spa session_timeout eapol akmp;
     case (alloc, entry) of
       (Some a, Some e) \<Rightarrow> do {
         c \<leftarrow> pmksa_cache_auth_add_entry now (c\<lparr>pc_ent := (pc_ent c)(a := Some e)\<rparr>) a;
         Some (c, Some a) }
     | _ \<Rightarrow> Some (c, None) }"

definition pmksa_cache_add_okc ::
    "nat option \<Rightarrow> int \<Rightarrow> rsn_pmksa_cache \<Rightarrow> rsn_pmksa_cache_entry \<Rightarrow> bytes \<Rightarrow> (rsn_pmksa_cache \<times> nat option) run" where
  "pmksa_cache_add_okc alloc now c old_entry pmkid =
     (case alloc of None \<Rightarrow> Some (c, None)
      | Some a \<Rightarrow> do {
          let e = old_entry\<lparr>pe_pmkid := take PMKID_LEN pmkid, pe_opportunistic := True, pe_acct_multi_session_id := 0\<rparr>;
          c \<leftarrow> pmksa_cache_link_entry now (c\<lparr>pc_ent := (pc_ent c)(a := Some e)\<rparr>) a;
          Some (c, Some a) })"

partial_function (option) pmksa_deinit_loop :: "rsn_pmksa_cache \<Rightarrow> nat option \<Rightarrow> rsn_pmksa_cache run" where
  "pmksa_deinit_loop c entry =
     (if entry = None then Some c
      else do {
        n \<leftarrow> field c (pc_next c) (the entry);
        pmksa_deinit_loop (c\<lparr>pc_ent := (pc_ent c)(the entry := None)\<rparr>) n })"

definition pmksa_cache_auth_deinit :: "rsn_pmksa_cache \<Rightarrow> rsn_pmksa_cache run" where
  "pmksa_cache_auth_deinit c = do {
     c \<leftarrow> pmksa_deinit_loop c (pc_pmksa c);
     Some (c\<lparr>pc_timeout := None, pc_count := 0, pc_pmksa := None, pc_pmkid := (\<lambda>i. None)\<rparr>) }"

definition pmksa_cache_auth_init :: rsn_pmksa_cache where
  "pmksa_cache_auth_init = \<lparr>pc_ent = (\<lambda>p. None), pc_next = (\<lambda>p. None), pc_hnext = (\<lambda>p. None),
     pc_pmkid = (\<lambda>i. None), pc_pmksa = None, pc_count = 0, pc_freed = [], pc_timeout = None\<rparr>"

text \<open>The attributes of a RADIUS disconnect request.\<close>

record radius_das_attrs =
  da_sta_addr :: "bytes option"
  da_acct_session_id :: "bytes option"
  da_acct_multi_session_id :: "bytes option"
  da_cui :: "bytes option"
  da_user_name :: "bytes option"

definition hex16 :: "u64 \<Rightarrow> bytes" where
  "hex16 v = map (\<lambda>i. ascii ''0123456789ABCDEF'' ! unat (drop_bit (4 * (15 - i)) v AND 15)) [0..<16]"

text \<open>The number of attributes that match, \<open>0\<close> as soon as one does not.\<close>

definition das_attr_match :: "rsn_pmksa_cache_entry \<Rightarrow> radius_das_attrs \<Rightarrow> int" where
  "das_attr_match entry attr =
     (if (case da_sta_addr attr of None \<Rightarrow> False | Some a \<Rightarrow> os_memcmp a (pe_spa entry) \<noteq> 0) then 0
      else if (case da_acct_multi_session_id attr of None \<Rightarrow> False
               | Some i \<Rightarrow> length i \<noteq> 16 \<or> os_memcmp i (hex16 (pe_acct_multi_session_id entry)) \<noteq> 0) then 0
      else if (case da_cui attr of None \<Rightarrow> False
               | Some x \<Rightarrow> (case pe_cui entry of None \<Rightarrow> True | Some y \<Rightarrow> length x \<noteq> length y \<or> os_memcmp x y \<noteq> 0)) then 0
      else if (case da_user_name attr of None \<Rightarrow> False
               | Some x \<Rightarrow> (case pe_identity entry of None \<Rightarrow> True | Some y \<Rightarrow> length x \<noteq> length y \<or> os_memcmp x y \<noteq> 0)) then 0
      else of_bool (da_sta_addr attr \<noteq> None) + of_bool (da_acct_multi_session_id attr \<noteq> None) +
           of_bool (da_cui attr \<noteq> None) + of_bool (da_user_name attr \<noteq> None))"

partial_function (option) das_loop ::
    "radius_das_attrs \<Rightarrow> rsn_pmksa_cache \<Rightarrow> int \<Rightarrow> nat option \<Rightarrow> (rsn_pmksa_cache \<times> int) run" where
  "das_loop attr c found entry =
     (if entry = None then Some (c, found)
      else do {
        e \<leftarrow> pc_ent c (the entry);
        if das_attr_match e attr \<noteq> 0
        then do {
          c' \<leftarrow> pmksa_cache_free_entry c (the entry);
          das_loop attr c' (found + 1) (pc_next c (the entry)) }
        else das_loop attr c found (pc_next c (the entry)) })"

definition pmksa_cache_auth_radius_das_disconnect ::
    "rsn_pmksa_cache \<Rightarrow> radius_das_attrs \<Rightarrow> (rsn_pmksa_cache \<times> int) run" where
  "pmksa_cache_auth_radius_das_disconnect c attr =
     (if da_acct_session_id attr \<noteq> None then Some (c, -1)
      else do {
        (c, found) \<leftarrow> das_loop attr c 0 (pc_pmksa c);
        Some (c, if found \<noteq> 0 then 0 else -1) })"

text \<open>Callers in \<^verbatim>\<open>src/ap/wpa_auth.c\<close>.\<close>

definition wpa_auth_pmksa_remove :: "rsn_pmksa_cache \<Rightarrow> bytes \<Rightarrow> rsn_pmksa_cache run" where
  "wpa_auth_pmksa_remove c sta_addr = do {
     pmksa \<leftarrow> pmksa_cache_auth_get c (Some sta_addr) None;
     case pmksa of None \<Rightarrow> Some c | Some p \<Rightarrow> pmksa_cache_free_entry c p }"

definition wpa_auth_pmksa_add_sae ::
    "nat option \<Rightarrow> int \<Rightarrow> bool \<Rightarrow> bytes \<Rightarrow> rsn_pmksa_cache \<Rightarrow> bytes \<Rightarrow> bytes \<Rightarrow> bytes \<Rightarrow> (rsn_pmksa_cache \<times> int) run" where
  "wpa_auth_pmksa_add_sae alloc now disable_pmksa_caching aa c addr pmk pmkid =
     (if disable_pmksa_caching then Some (c, -1)
      else do {
        (c, e) \<leftarrow> pmksa_cache_auth_add alloc now c (take 32 pmk) (Some pmkid) None aa addr 0 None WPA_KEY_MGMT_SAE;
        Some (c, if e \<noteq> None then 0 else -1) })"

end
