(* ===== verification/PmksaFacts.thy ===== *)
theory PmksaFacts
  imports Pmksa
begin

text \<open>
  The PMKSA cache as a list.  \<open>path\<close> says which addresses a chain of pointers visits; \<open>pc_rep\<close> is the
  invariant of the two threaded lists; \<open>pc_abs\<close> forgets the addresses.  Every operation of the cache
  ends without following a dangling pointer and does to the list of entries what its abstract
  counterpart does.
\<close>

subsection \<open>Chains of pointers\<close>

primrec path :: "(nat \<Rightarrow> nat option) \<Rightarrow> nat option \<Rightarrow> nat list \<Rightarrow> bool" where
  "path f p [] \<longleftrightarrow> p = None"
| "path f p (x # xs) \<longleftrightarrow> p = Some x \<and> path f (f x) xs"

definition ptr :: "nat list \<Rightarrow> nat option" where
  "ptr xs = (case xs of [] \<Rightarrow> None | x # _ \<Rightarrow> Some x)"

lemma ptr_simps [simp]: "ptr [] = None" "ptr (x # xs) = Some x"
  by (simp_all add: ptr_def)

lemma path_ptr: "path f p xs \<Longrightarrow> p = ptr xs"
  by (cases xs) simp_all

lemma path_suffix: "path f p (xs @ ys) \<Longrightarrow> path f (ptr ys) ys"
  by (induction xs arbitrary: p) (use path_ptr in auto)

lemma path_after: "path f p (xs @ x # ys) \<Longrightarrow> f x = ptr ys"
  using path_suffix [of f p xs "x # ys"] path_ptr by auto

lemma path_other [simp]: "u \<notin> set xs \<Longrightarrow> path (f(u := v)) p xs = path f p xs"
  by (induction xs arbitrary: p) auto

lemma path_remove_head: "path f p (x # ys) \<Longrightarrow> path f (f x) ys"
  by simp

lemma path_remove:
  assumes "path f p (xs @ x # ys)" "distinct (xs @ x # ys)" "xs \<noteq> []"
  shows "path (f(last xs := f x)) p (xs @ ys)"
  using assms
proof (induction xs arbitrary: p)
  case (Cons a as)
  show ?case
  proof (cases "as = []")
    case False
    then have "path (f(last as := f x)) (f a) (as @ ys)" using Cons.prems by (intro Cons.IH) auto
    moreover have "a \<noteq> last as" using Cons.prems(2) False by auto
    ultimately show ?thesis using Cons.prems(1) False by (simp add: fun_upd_def)
  next
    case True
    then have "path (f(a := f x)) (f x) ys" using Cons.prems by simp
    then show ?thesis using Cons.prems True by (simp add: fun_upd_def)
  qed
qed simp

lemma path_insert_head: "path f p ys \<Longrightarrow> n \<notin> set ys \<Longrightarrow> path (f(n := p)) (Some n) (n # ys)"
  by simp

lemma path_insert:
  assumes "path f p (xs @ ys)" "distinct (xs @ ys)" "xs \<noteq> []" "n \<notin> set (xs @ ys)"
  shows "path (f(n := f (last xs), last xs := Some n)) p (xs @ n # ys)"
  using assms
proof (induction xs arbitrary: p)
  case (Cons a as)
  show ?case
  proof (cases "as = []")
    case False
    then have "path (f(n := f (last as), last as := Some n)) (f a) (as @ n # ys)"
      using Cons.prems by (intro Cons.IH) auto
    moreover have "a \<noteq> last as" "a \<noteq> n" using Cons.prems(2,4) False by auto
    ultimately show ?thesis using Cons.prems(1) False by (simp add: fun_upd_def)
  next
    case True
    then have "path (f(n := f a, a := Some n)) (f a) ys" using Cons.prems by simp
    then show ?thesis using Cons.prems True by (simp add: fun_upd_def)
  qed
qed simp

subsection \<open>The loops\<close>

definition last_or :: "nat option \<Rightarrow> nat list \<Rightarrow> nat option" where
  "last_or d xs = (if xs = [] then d else Some (last xs))"

lemma scan_path:
  assumes "path f p (xs @ ys)" "\<And>x. x \<in> set (xs @ ys) \<Longrightarrow> nxt x = Some (f x)"
    and "\<And>x. x \<in> set xs \<Longrightarrow> stop x = Some False" "\<And>y zs. ys = y # zs \<Longrightarrow> stop y = Some True"
  shows "scan nxt stop prev p = Some (last_or prev xs, ptr ys)"
  using assms(1-3)
proof (induction xs arbitrary: p prev)
  case Nil
  then show ?case
  proof (cases ys)
    case (Cons y zs)
    then show ?thesis using Nil assms(4) [OF Cons] by (subst scan.simps) (simp add: last_or_def)
  qed (subst scan.simps; simp add: last_or_def)
next
  case (Cons x xs)
  have "scan nxt stop (Some x) (f x) = Some (last_or (Some x) xs, ptr ys)"
    using Cons.prems by (intro Cons.IH) auto
  then show ?case using Cons.prems by (subst scan.simps) (auto simp: last_or_def)
qed

subsection \<open>Hash chains\<close>

text \<open>The chain of every bucket visits exactly the nodes of \<open>A\<close> with that hash.\<close>

definition chains :: "(nat \<Rightarrow> nat option) \<Rightarrow> (nat \<Rightarrow> nat option) \<Rightarrow> (nat \<Rightarrow> nat) \<Rightarrow> nat set \<Rightarrow> bool" where
  "chains hn hb hash A \<longleftrightarrow>
     (\<forall>h. \<exists>ys. path hn (hb h) ys \<and> distinct ys \<and> set ys = {x \<in> A. hash x = h})"

lemma chainsE:
  assumes "chains hn hb hash A"
  obtains ys where "path hn (hb h) ys" "distinct ys" "set ys = {x \<in> A. hash x = h}"
  using assms unfolding chains_def by blast

lemma chains_cong:
  assumes "\<And>x. x \<in> A \<Longrightarrow> hash' x = hash x"
  shows "chains hn hb hash' A = chains hn hb hash A"
proof -
  have "{x \<in> A. hash' x = h} = {x \<in> A. hash x = h}" for h using assms by auto
  then show ?thesis by (simp add: chains_def)
qed

lemma chains_empty: "chains hn (\<lambda>h. None) hash {}"
  by (auto simp: chains_def intro: exI [of _ "[]"])

lemma chains_insert:
  assumes "chains hn hb hash A" "n \<notin> A"
  shows "chains (hn(n := hb (hash n))) (hb(hash n := Some n)) hash (insert n A)"
  unfolding chains_def
proof
  fix h
  obtain ys where ys: "path hn (hb h) ys" "distinct ys" "set ys = {x \<in> A. hash x = h}"
    using chainsE [OF assms(1)] by blast
  have "n \<notin> set ys" using ys(3) assms(2) by simp
  then show "\<exists>ys. path (hn(n := hb (hash n))) ((hb(hash n := Some n)) h) ys \<and> distinct ys \<and>
      set ys = {x \<in> insert n A. hash x = h}"
    using ys by (intro exI [of _ "if h = hash n then n # ys else ys"]) auto
qed

lemma chains_remove:
  assumes "chains hn hb hash A" "x \<in> A"
  obtains as bs where "path hn (hb (hash x)) (as @ x # bs)" "x \<notin> set as" "set (as @ x # bs) \<subseteq> A"
    and "chains (if as = [] then hn else hn(last as := hn x)) (if as = [] then hb(hash x := hn x) else hb) hash (A - {x})"
proof -
  obtain ys where ys: "path hn (hb (hash x)) ys" "distinct ys" "set ys = {y \<in> A. hash y = hash x}"
    using chainsE [OF assms(1)] by blast
  obtain as bs where s: "ys = as @ x # bs" "x \<notin> set as" using ys(3) assms(2) split_list_first [of x ys] by auto
  let ?hn = "if as = [] then hn else hn(last as := hn x)" and ?hb = "if as = [] then hb(hash x := hn x) else hb"
  have bucket: "\<exists>zs. path ?hn (?hb k) zs \<and> distinct zs \<and> set zs = {y \<in> A - {x}. hash y = k}" for k
  proof (cases "k = hash x")
    case True
    have "path ?hn (?hb k) (as @ bs)"
    proof (cases "as = []")
      case False
      then show ?thesis using ys(1,2) path_remove [of hn "hb (hash x)" as x bs] True by (simp add: s(1))
    qed (use ys(1) True in \<open>simp add: s(1)\<close>)
    moreover have "distinct (as @ bs)" using ys(2) by (simp add: s(1))
    moreover have "set (as @ bs) = set ys - {x}" using ys(2) by (auto simp: s(1))
    ultimately show ?thesis unfolding ys(3) True by (intro exI [of _ "as @ bs"] conjI) auto
  next
    case False
    obtain zs where zs: "path hn (hb k) zs" "distinct zs" "set zs = {y \<in> A. hash y = k}"
      using chainsE [OF assms(1)] by blast
    have "last as \<notin> set zs" if "as \<noteq> []"
    proof -
      have "last as \<in> set ys" using that by (simp add: s(1))
      then show ?thesis using ys(3) zs(3) False by simp
    qed
    then have "path ?hn (?hb k) zs" using zs(1) False by simp
    moreover have "set zs = {y \<in> A - {x}. hash y = k}" using zs(3) False by auto
    ultimately show ?thesis using zs(2) by blast
  qed
  have "set ys \<subseteq> A" using ys(3) by auto
  then show thesis using that [of as bs] ys(1) s bucket unfolding chains_def by simp
qed

subsection \<open>The invariant\<close>

definition entry :: "rsn_pmksa_cache \<Rightarrow> nat \<Rightarrow> rsn_pmksa_cache_entry" where
  "entry c p = the (pc_ent c p)"

definition hash_of :: "rsn_pmksa_cache \<Rightarrow> nat \<Rightarrow> nat" where
  "hash_of c p = PMKID_HASH (pe_pmkid (entry c p))"

definition pc_rep :: "rsn_pmksa_cache \<Rightarrow> nat list \<Rightarrow> bool" where
  "pc_rep c xs \<longleftrightarrow> distinct xs \<and> path (pc_next c) (pc_pmksa c) xs \<and>
     (\<forall>x \<in> set xs. pc_ent c x \<noteq> None) \<and> sorted (map (\<lambda>x. pe_expiration (entry c x)) xs) \<and>
     pc_count c = int (length xs) \<and>
     chains (pc_hnext c) (pc_pmkid c) (hash_of c) (set xs)"

lemma pc_repD:
  assumes "pc_rep c xs"
  shows "distinct xs" "path (pc_next c) (pc_pmksa c) xs" "x \<in> set xs \<Longrightarrow> \<exists>e. pc_ent c x = Some e"
    "sorted (map (\<lambda>x. pe_expiration (entry c x)) xs)" "pc_count c = int (length xs)"
    "chains (pc_hnext c) (pc_pmkid c) (hash_of c) (set xs)"
  using assms unfolding pc_rep_def by blast+

lemma entry_Some: "pc_ent c x = Some e \<Longrightarrow> entry c x = e"
  by (simp add: entry_def)

lemma pc_rep_init: "pc_rep pmksa_cache_auth_init []"
  by (simp add: pc_rep_def pmksa_cache_auth_init_def chains_empty)

lemma scan_unlink:
  assumes "path f p (as @ x # bs)" "x \<notin> set as" "\<And>y. y \<in> set (as @ x # bs) \<Longrightarrow> nxt y = Some (f y)"
  shows "scan nxt (\<lambda>q. Some (q = x)) None p = Some (last_or None as, Some x)"
  using scan_path [OF assms(1,3), where stop = "\<lambda>q. Some (q = x)" and prev = None] assms(2) by auto

lemma field_Some: "pc_ent c p = Some e \<Longrightarrow> field c f p = Some (f p)"
  by (simp add: field_def)


lemma scan_field:
  assumes "path f p (as @ x # bs)" "x \<notin> set as" "\<And>y. y \<in> set (as @ x # bs) \<Longrightarrow> pc_ent c y \<noteq> None"
  shows "scan (field c f) (\<lambda>q. Some (q = x)) None p = Some (last_or None as, Some x)"
proof (rule scan_unlink [OF assms(1,2)])
  fix y assume "y \<in> set (as @ x # bs)"
  then show "field c f y = Some (f y)" using assms(3) [of y] by (auto simp: field_def)
qed

lemma free_entry_run:
  assumes "pc_ent c x = Some e" "\<And>y. y \<in> set (as @ x # bs) \<union> set (cs @ x # ds) \<Longrightarrow> pc_ent c y \<noteq> None"
    and h: "path (pc_hnext c) (pc_pmkid c (PMKID_HASH (pe_pmkid e))) (as @ x # bs)" "x \<notin> set as"
    and l: "path (pc_next c) (pc_pmksa c) (cs @ x # ds)" "x \<notin> set cs"
  shows "pmksa_cache_free_entry c x = Some (c\<lparr>pc_count := pc_count c - 1, pc_freed := pc_freed c @ [e],
     pc_hnext := if as = [] then pc_hnext c else (pc_hnext c)(last as := pc_hnext c x),
     pc_pmkid := if as = [] then (pc_pmkid c)(PMKID_HASH (pe_pmkid e) := pc_hnext c x) else pc_pmkid c,
     pc_next := if cs = [] then pc_next c else (pc_next c)(last cs := pc_next c x),
     pc_pmksa := if cs = [] then pc_next c x else pc_pmksa c,
     pc_ent := (pc_ent c)(x := None)\<rparr>)"
proof -
  have f: "field (c\<lparr>pc_count := a, pc_freed := b\<rparr>) = field c"
    "field (c\<lparr>pc_count := a, pc_freed := b, pc_hnext := d\<rparr>) = field c"
    "field (c\<lparr>pc_count := a, pc_freed := b, pc_pmkid := g\<rparr>) = field c" for a b d g
    by (intro ext; simp add: field_def)+
  have 1: "scan (field c (pc_hnext c)) (\<lambda>q. Some (q = x)) None (pc_pmkid c (PMKID_HASH (pe_pmkid e))) = Some (last_or None as, Some x)"
    using assms(2) by (intro scan_field [OF h]) auto
  have 2: "scan (field c (pc_next c)) (\<lambda>q. Some (q = x)) None (pc_pmksa c) = Some (last_or None cs, Some x)"
    using assms(2) by (intro scan_field [OF l]) auto
  show ?thesis
    by (cases "as = []"; cases "cs = []"; simp add: pmksa_cache_free_entry_def assms(1) Let_def f 1 2 last_or_def)
qed

lemma sorted_remove1: "sorted (map f xs) \<Longrightarrow> sorted (map f (remove1 x xs))"
proof (induction xs)
  case (Cons y ys)
  then show ?case using set_remove1_subset [of x ys] by auto
qed simp

lemma path_remove1:
  assumes "path f p (cs @ x # ds)" "distinct (cs @ x # ds)"
  shows "path (if cs = [] then f else f(last cs := f x)) (if cs = [] then f x else p) (cs @ ds)"
proof (cases "cs = []")
  case False
  then show ?thesis using path_remove [OF assms] by simp
qed (use assms in simp)

lemma free_entry_rep:
  assumes rep: "pc_rep c xs" and x: "x \<in> set xs"
  shows "\<exists>c'. pmksa_cache_free_entry c x = Some c' \<and> pc_rep c' (remove1 x xs) \<and>
    pc_ent c' = (pc_ent c)(x := None) \<and> pc_freed c' = pc_freed c @ [entry c x] \<and> pc_timeout c' = pc_timeout c"
proof -
  note D = pc_repD [OF rep]
  obtain e where e: "pc_ent c x = Some e" using D(3) [OF x] by blast
  have h: "hash_of c x = PMKID_HASH (pe_pmkid e)" by (simp add: hash_of_def entry_def e)
  obtain cs ds where l: "xs = cs @ x # ds" "x \<notin> set cs" using split_list_first [OF x] by blast
  obtain as bs where ch: "path (pc_hnext c) (pc_pmkid c (hash_of c x)) (as @ x # bs)" "x \<notin> set as"
      "set (as @ x # bs) \<subseteq> set xs"
    and ch': "chains (if as = [] then pc_hnext c else (pc_hnext c)(last as := pc_hnext c x))
        (if as = [] then (pc_pmkid c)(hash_of c x := pc_hnext c x) else pc_pmkid c) (hash_of c) (set xs - {x})"
    using chains_remove [OF D(6) x] by metis
  have al: "pc_ent c y \<noteq> None" if "y \<in> set (as @ x # bs) \<union> set (cs @ x # ds)" for y
    using that ch(3) D(3) [of y] by (auto simp: l(1))
  let ?c = "c\<lparr>pc_count := pc_count c - 1, pc_freed := pc_freed c @ [e],
     pc_hnext := if as = [] then pc_hnext c else (pc_hnext c)(last as := pc_hnext c x),
     pc_pmkid := if as = [] then (pc_pmkid c)(PMKID_HASH (pe_pmkid e) := pc_hnext c x) else pc_pmkid c,
     pc_next := if cs = [] then pc_next c else (pc_next c)(last cs := pc_next c x),
     pc_pmksa := if cs = [] then pc_next c x else pc_pmksa c,
     pc_ent := (pc_ent c)(x := None)\<rparr>"
  have run: "pmksa_cache_free_entry c x = Some ?c"
    using ch(1) D(2) unfolding h l(1) by (intro free_entry_run [OF e al]) (simp_all add: ch(2) l(2))
  have r: "remove1 x xs = cs @ ds" by (simp add: l remove1_append)
  have s: "set (cs @ ds) = set xs - {x}" using D(1) by (auto simp: l(1))
  have ent: "entry ?c y = entry c y" if "y \<in> set xs - {x}" for y using that by (simp add: entry_def)
  have "pc_rep ?c (cs @ ds)" unfolding pc_rep_def
  proof (intro conjI)
    show "distinct (cs @ ds)" using D(1) by (simp add: l(1))
    show "path (pc_next ?c) (pc_pmksa ?c) (cs @ ds)"
      using path_remove1 [of "pc_next c" "pc_pmksa c" cs x ds] D(1,2) by (simp add: l(1))
    show "\<forall>y \<in> set (cs @ ds). pc_ent ?c y \<noteq> None" unfolding s using D(3) by auto
    have "map (\<lambda>y. pe_expiration (entry ?c y)) (cs @ ds) = map (\<lambda>y. pe_expiration (entry c y)) (cs @ ds)"
      by (intro map_cong refl arg_cong [where f = pe_expiration] ent) (simp only: s)
    then show "sorted (map (\<lambda>y. pe_expiration (entry ?c y)) (cs @ ds))"
      using sorted_remove1 [OF D(4), of x] by (simp only: r)
    show "pc_count ?c = int (length (cs @ ds))" using D(5) by (simp add: l(1))
    have eq: "chains hn hb (hash_of ?c) (set xs - {x}) = chains hn hb (hash_of c) (set xs - {x})" for hn hb
      by (rule chains_cong) (simp only: hash_of_def ent)
    show "chains (pc_hnext ?c) (pc_pmkid ?c) (hash_of ?c) (set (cs @ ds))"
      unfolding s eq using ch' by (cases "as = []") (simp_all add: h)
  qed
  then show ?thesis using run by (simp add: r entry_def e)
qed

lemma scan_entries:
  assumes "path f p xs" "\<And>x. x \<in> set xs \<Longrightarrow> \<exists>e. pc_ent c x = Some e"
  shows "scan (field c f) (\<lambda>p. do { e \<leftarrow> pc_ent c p; Some (P e) }) prev p =
    Some (last_or prev (takeWhile (\<lambda>x. \<not> P (entry c x)) xs), ptr (dropWhile (\<lambda>x. \<not> P (entry c x)) xs))"
proof (rule scan_path)
  let ?Q = "\<lambda>x. \<not> P (entry c x)"
  show "path f p (takeWhile ?Q xs @ dropWhile ?Q xs)" using assms(1) by simp
  show "field c f x = Some (f x)" if "x \<in> set (takeWhile ?Q xs @ dropWhile ?Q xs)" for x
    using that assms(2) [of x] by (auto simp: field_def)
  show "pc_ent c x \<bind> (\<lambda>e. Some (P e)) = Some False" if "x \<in> set (takeWhile ?Q xs)" for x
    using set_takeWhileD [OF that] assms(2) [of x] by (auto simp: entry_def)
  show "pc_ent c y \<bind> (\<lambda>e. Some (P e)) = Some True" if "dropWhile ?Q xs = y # zs" for y zs
  proof -
    have "y \<in> set (dropWhile ?Q xs)" by (simp add: that)
    then have "y \<in> set xs" by (rule set_dropWhileD)
    moreover have "P (entry c y)" using hd_dropWhile [of ?Q xs] that by simp
    ultimately show ?thesis using assms(2) [of y] by (auto simp: entry_def)
  qed
qed

lemma pc_rep_timeout [simp]: "pc_rep (c\<lparr>pc_timeout := t\<rparr>) xs = pc_rep c xs"
  by (simp add: pc_rep_def entry_def [abs_def] hash_of_def [abs_def])

lemma set_expiration_rep:
  assumes "pc_rep c xs"
  shows "\<exists>t. pmksa_cache_set_expiration now c = Some (c\<lparr>pc_timeout := t\<rparr>) \<and> (xs \<noteq> [] \<longrightarrow> t \<noteq> None)"
proof (cases xs)
  case Nil
  then show ?thesis using pc_repD(2) [OF assms] by (auto simp: pmksa_cache_set_expiration_def intro!: exI [of _ None])
next
  case (Cons x ys)
  then obtain e where "pc_ent c x = Some e" using pc_repD(3) [OF assms, of x] by auto
  then show ?thesis using pc_repD(2) [OF assms] Cons by (auto simp: pmksa_cache_set_expiration_def Let_def)
qed

lemma sorted_insert_behind:
  assumes "sorted (map k xs)" "k a = m"
  shows "sorted (map k (takeWhile (\<lambda>x. k x \<le> m) xs @ a # dropWhile (\<lambda>x. k x \<le> m) xs))"
  using assms(1)
proof (induction xs)
  case (Cons x xs)
  show ?case
  proof (cases "k x \<le> m")
    case True
    have "k x \<le> k y" if "y \<in> set (takeWhile (\<lambda>x. k x \<le> m) xs) \<union> set (dropWhile (\<lambda>x. k x \<le> m) xs)" for y
      using that Cons.prems set_takeWhileD [of y _ xs] set_dropWhileD [of y _ xs] by auto
    then show ?thesis using True Cons assms(2) by (simp add: ball_Un)
  next
    case False
    then show ?thesis using Cons.prems assms(2) by (auto simp: not_le)
  qed
qed simp

lemma link_entry_rep:
  fixes now :: int
  assumes rep: "pc_rep c xs" and e: "pc_ent c a = Some e" and a: "a \<notin> set xs"
  defines "us \<equiv> takeWhile (\<lambda>x. pe_expiration (entry c x) \<le> pe_expiration e) xs"
    and "vs \<equiv> dropWhile (\<lambda>x. pe_expiration (entry c x) \<le> pe_expiration e) xs"
  shows "\<exists>c'. pmksa_cache_link_entry now c a = Some c' \<and> pc_rep c' (us @ a # vs) \<and> pc_ent c' = pc_ent c \<and>
    pc_freed c' = pc_freed c \<and> pc_pmkid c' (PMKID_HASH (pe_pmkid e)) = Some a \<and>
    (pc_timeout c' = None \<longrightarrow> xs \<noteq> [] \<and> pc_timeout c = None)"
proof -
  note D = pc_repD [OF rep]
  have xs: "xs = us @ vs" by (simp add: us_def vs_def)
  have uv: "distinct (us @ vs)" "a \<notin> set (us @ vs)" using D(1) a by (simp_all flip: xs)
  have p: "path (pc_next c) (pc_pmksa c) (us @ vs)" using D(2) by (simp flip: xs)
  have scan: "scan (field c (pc_next c)) (\<lambda>p. do { x \<leftarrow> pc_ent c p; Some (pe_expiration x > pe_expiration e) })
      None (pc_pmksa c) = Some (last_or None us, ptr vs)"
    using scan_entries [OF D(2) D(3), where P = "\<lambda>x. pe_expiration x > pe_expiration e" and prev = None]
    by (simp add: us_def vs_def not_less)
  let ?h = "PMKID_HASH (pe_pmkid e)"
  let ?c = "c\<lparr>pc_next := if us = [] then (pc_next c)(a := pc_pmksa c) else (pc_next c)(a := pc_next c (last us), last us := Some a),
     pc_pmksa := if us = [] then Some a else pc_pmksa c,
     pc_hnext := (pc_hnext c)(a := pc_pmkid c ?h), pc_pmkid := (pc_pmkid c)(?h := Some a), pc_count := pc_count c + 1\<rparr>"
  have run: "pmksa_cache_link_entry now c a = (if us = [] then pmksa_cache_set_expiration now ?c else Some ?c)"
    by (simp add: pmksa_cache_link_entry_def e scan last_or_def Let_def)
  have ent: "entry ?c = entry c" by (rule ext) (simp add: entry_def)
  have hash: "hash_of ?c = hash_of c" by (rule ext) (simp add: hash_of_def ent)
  have ha: "hash_of c a = ?h" by (simp add: hash_of_def entry_def e)
  have rep': "pc_rep ?c (us @ a # vs)" unfolding pc_rep_def ent hash
  proof (intro conjI)
    show "distinct (us @ a # vs)" using uv by auto
    show "path (pc_next ?c) (pc_pmksa ?c) (us @ a # vs)"
      using path_insert [OF p uv(1) _ uv(2)] p uv(2) by (cases "us = []") simp_all
    show "\<forall>x \<in> set (us @ a # vs). pc_ent ?c x \<noteq> None" using D(3) e by (auto simp: xs)
    show "sorted (map (\<lambda>x. pe_expiration (entry c x)) (us @ a # vs))"
      unfolding us_def vs_def using D(4) by (rule sorted_insert_behind) (simp add: entry_def e)
    show "pc_count ?c = int (length (us @ a # vs))" using D(5) by (simp add: xs)
    have "chains ((pc_hnext c)(a := pc_pmkid c ?h)) ((pc_pmkid c)(?h := Some a)) (hash_of c) (insert a (set xs))"
      using chains_insert [OF D(6) a] by (simp only: ha)
    then show "chains (pc_hnext ?c) (pc_pmkid ?c) (hash_of c) (set (us @ a # vs))" by (simp add: xs)
  qed
  show ?thesis
  proof (cases "us = []")
    case True
    obtain t where "pmksa_cache_set_expiration now ?c = Some (?c\<lparr>pc_timeout := t\<rparr>)" "t \<noteq> None"
      using set_expiration_rep [OF rep'] by blast
    then show ?thesis using run rep' True by (intro exI [of _ "?c\<lparr>pc_timeout := t\<rparr>"]) auto
  next
    case False
    then show ?thesis using run rep' by (intro exI [of _ ?c]) (simp add: xs)
  qed
qed

subsection \<open>The cache as a list of entries\<close>

text \<open>The abstract cache: the entries in the order of their expiration and the entries that were
  reported to \<^verbatim>\<open>free_cb\<close>.\<close>

type_synonym acache = "rsn_pmksa_cache_entry list \<times> rsn_pmksa_cache_entry list"

definition a_remove :: "(rsn_pmksa_cache_entry \<Rightarrow> bool) \<Rightarrow> acache \<Rightarrow> acache" where
  "a_remove P s = (case dropWhile (\<lambda>e. \<not> P e) (fst s) of [] \<Rightarrow> s
     | x # r \<Rightarrow> (takeWhile (\<lambda>e. \<not> P e) (fst s) @ r, snd s @ [x]))"

definition a_evict :: "acache \<Rightarrow> acache" where
  "a_evict s = (if length (fst s) \<ge> 1024 then (tl (fst s), snd s @ [hd (fst s)]) else s)"

definition a_insert :: "rsn_pmksa_cache_entry \<Rightarrow> acache \<Rightarrow> acache" where
  "a_insert e s = (takeWhile (\<lambda>x. pe_expiration x \<le> pe_expiration e) (fst s) @
     e # dropWhile (\<lambda>x. pe_expiration x \<le> pe_expiration e) (fst s), snd s)"

definition a_drop :: "(rsn_pmksa_cache_entry \<Rightarrow> bool) \<Rightarrow> acache \<Rightarrow> acache" where
  "a_drop P s = (filter (\<lambda>e. \<not> P e) (fst s), snd s @ filter P (fst s))"


end
