(* ===== verification/PmksaRefine.thy ===== *)
theory PmksaRefine
  imports PmksaFacts
begin

text \<open>
  Refinement of the PMKSA cache: each operation on the two threaded lists does to the list of entries
  what its abstract counterpart does.
\<close>

subsection \<open>The relation\<close>

text \<open>The two threaded lists hold the entries of the abstract list, every allocated entry other than
  those of \<open>A\<close> is in them, and a timeout is registered while the cache is not empty.\<close>

definition view :: "nat set \<Rightarrow> rsn_pmksa_cache \<Rightarrow> nat list \<Rightarrow> acache \<Rightarrow> bool" where
  "view A c xs s \<longleftrightarrow> pc_rep c xs \<and> dom (pc_ent c) = set xs \<union> A \<and> A \<inter> set xs = {} \<and>
     s = (map (entry c) xs, pc_freed c) \<and> (xs \<noteq> [] \<longrightarrow> pc_timeout c \<noteq> None)"

definition pc_abs :: "rsn_pmksa_cache \<Rightarrow> acache \<Rightarrow> bool" where
  "pc_abs c s \<longleftrightarrow> (\<exists>xs. view {} c xs s)"

lemma viewD:
  assumes "view A c xs s"
  shows "pc_rep c xs" "dom (pc_ent c) = set xs \<union> A" "A \<inter> set xs = {}" "fst s = map (entry c) xs" "snd s = pc_freed c"
    "xs \<noteq> [] \<Longrightarrow> pc_timeout c \<noteq> None"
  using assms by (auto simp: view_def)

lemma view_free:
  assumes v: "view A c xs s" and x: "x \<in> set xs"
  shows "\<exists>c'. pmksa_cache_free_entry c x = Some c' \<and> pc_ent c' = (pc_ent c)(x := None) \<and>
    view A c' (remove1 x xs) (map (entry c) (remove1 x xs), snd s @ [entry c x])"
proof -
  note D = viewD [OF v]
  obtain c' where c': "pmksa_cache_free_entry c x = Some c'" "pc_rep c' (remove1 x xs)"
      "pc_ent c' = (pc_ent c)(x := None)" "pc_freed c' = pc_freed c @ [entry c x]" "pc_timeout c' = pc_timeout c"
    using free_entry_rep [OF D(1) x] by blast
  have s: "set (remove1 x xs) = set xs - {x}" using pc_repD(1) [OF D(1)] by simp
  have "map (entry c') (remove1 x xs) = map (entry c) (remove1 x xs)" by (simp add: s entry_def c'(3))
  moreover have "x \<notin> A" using D(3) x by auto
  moreover have "pc_timeout c \<noteq> None" using D(6) x by (cases xs) auto
  ultimately show ?thesis using c' D(2,3,5) s by (auto simp: view_def)
qed

lemma remove1_first: "distinct (us @ x # vs) \<Longrightarrow> remove1 x (us @ x # vs) = us @ vs"
  by (simp add: remove1_append)

lemma view_remove:
  fixes P :: "rsn_pmksa_cache_entry \<Rightarrow> bool"
  assumes v: "view A c xs s"
  defines "pos \<equiv> ptr (dropWhile (\<lambda>x. \<not> P (entry c x)) xs)"
  shows "\<exists>c' xs'. (case pos of None \<Rightarrow> Some c | Some p \<Rightarrow> pmksa_cache_free_entry c p) = Some c' \<and>
    view A c' xs' (a_remove P s) \<and> (\<forall>a \<in> A. pc_ent c' a = pc_ent c a)"
proof (cases "dropWhile (\<lambda>x. \<not> P (entry c x)) xs")
  case Nil
  show ?thesis using v viewD(4) [OF v]
    by (intro exI [of _ c] exI [of _ xs]) (simp add: pos_def a_remove_def dropWhile_map o_def Nil)
next
  case (Cons p r)
  let ?us = "takeWhile (\<lambda>x. \<not> P (entry c x)) xs"
  note D = viewD [OF v]
  have xs: "xs = ?us @ p # r" using takeWhile_dropWhile_id [of "\<lambda>x. \<not> P (entry c x)" xs] Cons by simp
  have p: "p \<in> set xs" by (subst xs) simp
  have r: "remove1 p xs = ?us @ r" using remove1_first [of ?us p r] pc_repD(1) [OF D(1)] xs by simp
  have "a_remove P s = (map (entry c) (?us @ r), snd s @ [entry c p])"
    using D(4) Cons by (simp add: a_remove_def dropWhile_map takeWhile_map o_def)
  then show ?thesis using view_free [OF v p] D(3) p by (auto simp: pos_def Cons r)
qed

lemma view_evict:
  assumes v: "view A c xs s"
  shows "\<exists>c' xs'. (case pc_pmksa c of Some p \<Rightarrow> if pc_count c \<ge> 1024 then pmksa_cache_free_entry c p else Some c
      | None \<Rightarrow> Some c) = Some c' \<and> view A c' xs' (a_evict s) \<and> (\<forall>a \<in> A. pc_ent c' a = pc_ent c a)"
proof (cases "length xs \<ge> 1024")
  case True
  then obtain x ys where xs: "xs = x # ys" by (cases xs) auto
  note D = viewD [OF v] and R = pc_repD [OF viewD(1) [OF v]]
  have "a_evict s = (map (entry c) (remove1 x xs), snd s @ [entry c x])"
    using True D(4) xs by (simp add: a_evict_def)
  then show ?thesis using view_free [OF v, of x] D(3) R(2,5) True by (auto simp: xs)
next
  case False
  then show ?thesis using v viewD(4) [OF v] pc_repD(5) [OF viewD(1) [OF v]]
    by (intro exI [of _ c] exI [of _ xs]) (auto simp: a_evict_def split: option.split)
qed

lemma view_link:
  assumes v: "view {a} c xs s" and e: "pc_ent c a = Some e"
  shows "\<exists>c' xs'. pmksa_cache_link_entry now c a = Some c' \<and> view {} c' xs' (a_insert e s) \<and>
    pc_ent c' = pc_ent c \<and> pc_pmkid c' (PMKID_HASH (pe_pmkid e)) = Some a"
proof -
  note D = viewD [OF v]
  define us vs where uv: "us = takeWhile (\<lambda>x. pe_expiration (entry c x) \<le> pe_expiration e) xs"
    "vs = dropWhile (\<lambda>x. pe_expiration (entry c x) \<le> pe_expiration e) xs"
  have xs: "xs = us @ vs" by (simp add: uv)
  have a: "a \<notin> set xs" using D(3) by simp
  obtain c' where c': "pmksa_cache_link_entry now c a = Some c'" "pc_rep c' (us @ a # vs)" "pc_ent c' = pc_ent c"
      "pc_freed c' = pc_freed c" "pc_pmkid c' (PMKID_HASH (pe_pmkid e)) = Some a"
      "pc_timeout c' = None \<longrightarrow> xs \<noteq> [] \<and> pc_timeout c = None"
    using link_entry_rep [OF D(1) e a, of now, folded uv] by (elim exE conjE) (rule that)
  have ent: "entry c' = entry c" by (rule ext) (simp add: entry_def c'(3))
  have "a_insert e s = (map (entry c') (us @ a # vs), pc_freed c')"
    using D(4,5) e by (simp add: a_insert_def ent c'(4) takeWhile_map dropWhile_map o_def uv entry_Some)
  moreover have "dom (pc_ent c') = set (us @ a # vs)" unfolding c'(3) D(2) xs by auto
  moreover have "pc_timeout c' \<noteq> None" using c'(6) D(6) by blast
  ultimately have "view {} c' (us @ a # vs) (a_insert e s)" using c'(2) by (simp add: view_def)
  then show ?thesis using c'(1,3,5) by blast
qed

lemma add_entry_view:
  assumes v: "view {a} c xs s" and e: "pc_ent c a = Some e"
  shows "\<exists>c' xs'. pmksa_cache_auth_add_entry now c a = Some c' \<and>
    view {} c' xs' (a_insert e (a_evict (a_remove (\<lambda>x. os_memcmp (pe_spa x) (pe_spa e) = 0) s))) \<and>
    pc_ent c' a = Some e \<and> pc_pmkid c' (PMKID_HASH (pe_pmkid e)) = Some a"
proof -
  let ?P = "\<lambda>x. os_memcmp (pe_spa x) (pe_spa e) = 0"
  note R = pc_repD [OF viewD(1) [OF v]]
  have get: "pmksa_cache_auth_get c (Some (pe_spa e)) None = Some (ptr (dropWhile (\<lambda>x. \<not> ?P (entry c x)) xs))"
    using scan_entries [OF R(2,3), where P = ?P and prev = None] by (simp add: pmksa_cache_auth_get_def)
  obtain c1 x1 where 1: "(case ptr (dropWhile (\<lambda>x. \<not> ?P (entry c x)) xs) of None \<Rightarrow> Some c
      | Some p \<Rightarrow> pmksa_cache_free_entry c p) = Some c1" "view {a} c1 x1 (a_remove ?P s)" "pc_ent c1 a = Some e"
    using view_remove [OF v, of ?P] e by auto
  obtain c2 x2 where 2: "(case pc_pmksa c1 of Some p \<Rightarrow> if pc_count c1 \<ge> 1024 then pmksa_cache_free_entry c1 p else Some c1
      | None \<Rightarrow> Some c1) = Some c2" "view {a} c2 x2 (a_evict (a_remove ?P s))" "pc_ent c2 a = Some e"
    using view_evict [OF 1(2)] 1(3) by auto
  have "pmksa_cache_auth_add_entry now c a = pmksa_cache_link_entry now c2 a"
    by (simp add: pmksa_cache_auth_add_entry_def e get 1(1) 2(1))
  then show ?thesis using view_link [OF 2(2,3), of now] 2(3) by metis
qed

subsection \<open>Loops over the cache\<close>

lemma view_Cons:
  assumes "view A c (x # xs) s"
  shows "pc_pmksa c = Some x" "\<exists>e. pc_ent c x = Some e" "pc_next c x = ptr xs"
  using pc_repD(2,3) [OF viewD(1) [OF assms]] path_ptr by auto

lemma view_Nil: "view A c [] s \<Longrightarrow> pc_pmksa c = None \<and> s = ([], pc_freed c)"
  using pc_repD(2) [OF viewD(1), of A c "[]" s] by (simp add: view_def)

lemma view_free_head:
  assumes "view A c (x # xs) s"
  shows "\<exists>c'. pmksa_cache_free_entry c x = Some c' \<and> view A c' xs (map (entry c) xs, snd s @ [entry c x])"
  using view_free [OF assms, of x] by auto

lemma flush_view: "view A c xs s \<Longrightarrow> \<exists>c'. pmksa_cache_auth_flush c = Some c' \<and> view A c' [] ([], snd s @ fst s)"
proof (induction xs arbitrary: c s)
  case Nil
  then show ?case using view_Nil [OF Nil] by (subst pmksa_cache_auth_flush.simps) simp
next
  case (Cons x xs)
  obtain c1 where c1: "pmksa_cache_free_entry c x = Some c1" "view A c1 xs (map (entry c) xs, snd s @ [entry c x])"
    using view_free_head [OF Cons.prems] by blast
  from Cons.IH [OF c1(2)] show ?case
    using view_Cons(1) [OF Cons.prems] c1(1) viewD(4) [OF Cons.prems]
    by (subst pmksa_cache_auth_flush.simps) simp
qed

lemma expire_loop_view:
  "view A c xs s \<Longrightarrow> \<exists>c' xs'. pmksa_expire_loop now c = Some c' \<and>
     view A c' xs' (a_drop (\<lambda>e. pe_expiration e \<le> now) s)"
proof (induction xs arbitrary: c s)
  case Nil
  then show ?case using view_Nil [OF Nil]
    by (subst pmksa_expire_loop.simps) (auto simp: a_drop_def)
next
  case (Cons x xs)
  note D = viewD [OF Cons.prems] and V = view_Cons [OF Cons.prems]
  obtain e where e: "pc_ent c x = Some e" using V(2) by blast
  show ?case
  proof (cases "pe_expiration e \<le> now")
    case True
    obtain c1 where c1: "pmksa_cache_free_entry c x = Some c1" "view A c1 xs (map (entry c) xs, snd s @ [entry c x])"
      using view_free_head [OF Cons.prems] by blast
    from Cons.IH [OF c1(2)] show ?thesis using V(1) c1(1) True e D(4)
      by (subst pmksa_expire_loop.simps) (simp add: a_drop_def entry_Some)
  next
    case False
    have "\<not> pe_expiration (entry c y) \<le> now" if "y \<in> set (x # xs)" for y
      using pc_repD(4) [OF D(1)] that False by (auto simp: entry_Some [OF e])
    then have "a_drop (\<lambda>e. pe_expiration e \<le> now) s = s"
      using D(4) by (cases s) (auto simp: a_drop_def filter_id_conv filter_empty_conv)
    then show ?thesis using V(1) e False Cons.prems by (subst pmksa_expire_loop.simps) auto
  qed
qed

lemma expire_view:
  assumes "view A c xs s"
  shows "\<exists>c' xs'. pmksa_cache_expire now c = Some c' \<and> view A c' xs' (a_drop (\<lambda>e. pe_expiration e \<le> now) s)"
proof -
  obtain c1 x1 where 1: "pmksa_expire_loop now c = Some c1" "view A c1 x1 (a_drop (\<lambda>e. pe_expiration e \<le> now) s)"
    using expire_loop_view [OF assms] by blast
  obtain t where t: "pmksa_cache_set_expiration now c1 = Some (c1\<lparr>pc_timeout := t\<rparr>)" "x1 \<noteq> [] \<longrightarrow> t \<noteq> None"
    using set_expiration_rep [OF viewD(1) [OF 1(2)]] by blast
  have "view A (c1\<lparr>pc_timeout := t\<rparr>) x1 (a_drop (\<lambda>e. pe_expiration e \<le> now) s)"
    using 1(2) t(2) by (simp add: view_def entry_def [abs_def])
  then show ?thesis using 1(1) t(1) by (auto simp: pmksa_cache_expire_def)
qed

lemma das_loop_view:
  "view A c (us @ xs) s \<Longrightarrow> \<exists>c' xs'. das_loop attr c found (ptr xs) =
      Some (c', found + int (length (filter (\<lambda>x. das_attr_match (entry c x) attr \<noteq> 0) xs))) \<and>
    view A c' xs' (map (entry c) us @ filter (\<lambda>e. das_attr_match e attr = 0) (map (entry c) xs),
      snd s @ filter (\<lambda>e. das_attr_match e attr \<noteq> 0) (map (entry c) xs))"
proof (induction xs arbitrary: c s us found)
  case Nil
  then show ?case by (subst das_loop.simps) (auto simp: view_def)
next
  case (Cons x xs)
  note D = viewD [OF Cons.prems] and R = pc_repD [OF viewD(1) [OF Cons.prems]]
  obtain e where e: "pc_ent c x = Some e" using R(3) [of x] by auto
  have nx: "pc_next c x = ptr xs" by (rule path_after [OF R(2)])
  show ?case
  proof (cases "das_attr_match e attr = 0")
    case True
    have "view A c ((us @ [x]) @ xs) s" using Cons.prems by simp
    from Cons.IH [OF this, of found] show ?thesis using True e nx
      by (subst das_loop.simps) (simp add: entry_Some)
  next
    case False
    have r: "remove1 x (us @ x # xs) = us @ xs" by (rule remove1_first [OF R(1)])
    obtain c1 where c1: "pmksa_cache_free_entry c x = Some c1" "pc_ent c1 = (pc_ent c)(x := None)"
        "view A c1 (us @ xs) (map (entry c) (us @ xs), snd s @ [entry c x])"
      using view_free [OF Cons.prems, of x] unfolding r by auto
    have ent: "entry c1 y = entry c y" if "y \<in> set (us @ xs)" for y
      using that R(1) by (auto simp: entry_def c1(2))
    have m: "map (entry c1) us = map (entry c) us" "map (entry c1) xs = map (entry c) xs"
      using ent by auto
    have f: "filter (\<lambda>x. das_attr_match (entry c1 x) attr \<noteq> 0) xs = filter (\<lambda>x. das_attr_match (entry c x) attr \<noteq> 0) xs"
      by (rule filter_cong) (simp_all add: ent)
    from Cons.IH [OF c1(3), of "found + 1"] show ?thesis using False e nx c1(1) unfolding m f
      by (subst das_loop.simps) (simp add: entry_Some add_ac)
  qed
qed

lemma deinit_loop_path:
  "path f p xs \<Longrightarrow> pc_next c = f \<Longrightarrow> distinct xs \<Longrightarrow> set xs \<subseteq> dom (pc_ent c) \<Longrightarrow>
   pmksa_deinit_loop c p = Some (c\<lparr>pc_ent := pc_ent c |` (- set xs)\<rparr>)"
proof (induction xs arbitrary: c p)
  case Nil
  have "pc_ent c |` UNIV = pc_ent c" by (rule ext) (simp add: restrict_map_def)
  with Nil show ?case by (subst pmksa_deinit_loop.simps) simp
next
  case (Cons x xs)
  have "pmksa_deinit_loop (c\<lparr>pc_ent := (pc_ent c)(x := None)\<rparr>) (f x) =
      Some (c\<lparr>pc_ent := (pc_ent c)(x := None) |` (- set xs)\<rparr>)"
    using Cons.prems by (subst Cons.IH) auto
  moreover have "(pc_ent c)(x := None) |` (- set xs) = pc_ent c |` (- set (x # xs))"
    by (rule ext) (auto simp: restrict_map_def)
  ultimately show ?case using Cons.prems by (subst pmksa_deinit_loop.simps) (auto simp: field_def)
qed

lemma deinit_view:
  assumes "view {} c xs s"
  shows "\<exists>c'. pmksa_cache_auth_deinit c = Some c' \<and> view {} c' [] ([], snd s)"
proof -
  note D = viewD [OF assms] and R = pc_repD [OF viewD(1) [OF assms]]
  have "pc_ent c |` (- set xs) = (\<lambda>p. None)" using D(2) by (auto simp: restrict_map_def fun_eq_iff)
  then have "pmksa_deinit_loop c (pc_pmksa c) = Some (c\<lparr>pc_ent := (\<lambda>p. None)\<rparr>)"
    using deinit_loop_path [OF R(2) refl R(1)] D(2) by simp
  then show ?thesis by (simp add: pmksa_cache_auth_deinit_def view_def pc_rep_def chains_empty D(5))
qed

subsection \<open>Lookup\<close>

definition wf_entry :: "rsn_pmksa_cache_entry \<Rightarrow> bool" where
  "wf_entry e \<longleftrightarrow> length (pe_pmkid e) = PMKID_LEN \<and> length (pe_spa e) = 6"

lemma get_pmkid_view:
  assumes v: "view A c xs s" and wf: "\<forall>e \<in> set (fst s). wf_entry e" and l: "length spa = 6" "length pmkid = PMKID_LEN"
  shows "\<exists>r. pmksa_cache_auth_get c (Some spa) (Some pmkid) = Some r \<and>
    (case r of None \<Rightarrow> \<forall>e \<in> set (fst s). \<not> (pe_spa e = spa \<and> pe_pmkid e = pmkid)
     | Some p \<Rightarrow> \<exists>e \<in> set (fst s). pc_ent c p = Some e \<and> pe_spa e = spa \<and> pe_pmkid e = pmkid)"
proof -
  note D = viewD [OF v] and R = pc_repD [OF viewD(1) [OF v]]
  let ?P = "\<lambda>e. os_memcmp (pe_spa e) spa = 0 \<and> os_memcmp (pe_pmkid e) pmkid = 0"
  obtain ys where ys: "path (pc_hnext c) (pc_pmkid c (PMKID_HASH pmkid)) ys" "set ys = {x \<in> set xs. hash_of c x = PMKID_HASH pmkid}"
    using chainsE [OF R(6)] by blast
  have al: "\<exists>e. pc_ent c y = Some e" if "y \<in> set ys" for y using that ys(2) R(3) by blast
  have P: "?P (entry c x) \<longleftrightarrow> pe_spa (entry c x) = spa \<and> pe_pmkid (entry c x) = pmkid" if "x \<in> set xs" for x
    using that wf l D(4) by (simp add: wf_entry_def os_memcmp_0)
  have run: "pmksa_cache_auth_get c (Some spa) (Some pmkid) = Some (ptr (dropWhile (\<lambda>x. \<not> ?P (entry c x)) ys))"
    using scan_entries [OF ys(1) al, where P = ?P and prev = None] by (simp add: pmksa_cache_auth_get_def)
  show ?thesis
  proof (cases "dropWhile (\<lambda>x. \<not> ?P (entry c x)) ys")
    case Nil
    then have n: "\<forall>y \<in> set ys. \<not> ?P (entry c y)" by (simp only: dropWhile_eq_Nil_conv)
    have "\<not> (pe_spa (entry c x) = spa \<and> pe_pmkid (entry c x) = pmkid)" if "x \<in> set xs" for x
      using n P [OF that] ys(2) that by (auto simp: hash_of_def)
    then show ?thesis unfolding run Nil D(4) by auto
  next
    case (Cons p zs)
    have "p \<in> set (dropWhile (\<lambda>x. \<not> ?P (entry c x)) ys)" unfolding Cons by simp
    then have "p \<in> set ys" by (rule set_dropWhileD)
    moreover have "?P (entry c p)" using hd_dropWhile [of "\<lambda>x. \<not> ?P (entry c x)" ys] unfolding Cons by simp
    ultimately have "p \<in> set xs" "pe_spa (entry c p) = spa \<and> pe_pmkid (entry c p) = pmkid" "pc_ent c p = Some (entry c p)"
      using ys(2) P [of p] R(3) [of p] by (auto simp: entry_def)
    then show ?thesis unfolding run Cons D(4) by auto
  qed
qed

lemma get_head:
  assumes "pc_pmkid c (PMKID_HASH (pe_pmkid e)) = Some a" "pc_ent c a = Some e"
  shows "pmksa_cache_auth_get c (Some (pe_spa e)) (Some (pe_pmkid e)) = Some (Some a)"
  using assms by (simp add: pmksa_cache_auth_get_def) (subst scan.simps; simp)

lemma view_alloc:
  assumes "view {} c xs s" "pc_ent c a = None"
  shows "view {a} (c\<lparr>pc_ent := (pc_ent c)(a \<mapsto> e)\<rparr>) xs s"
proof -
  note D = viewD [OF assms(1)]
  let ?c = "c\<lparr>pc_ent := (pc_ent c)(a \<mapsto> e)\<rparr>"
  have a: "a \<notin> set xs" using D(2) assms(2) by auto
  then have ent: "entry ?c x = entry c x" if "x \<in> set xs" for x using that by (auto simp: entry_def)
  then have m: "map (entry ?c) xs = map (entry c) xs" "map (\<lambda>x. pe_expiration (entry ?c x)) xs = map (\<lambda>x. pe_expiration (entry c x)) xs"
    by simp_all
  have "chains hn hb (hash_of ?c) (set xs) = chains hn hb (hash_of c) (set xs)" for hn hb
    by (rule chains_cong) (simp only: hash_of_def ent)
  then have "pc_rep ?c xs" using D(1) unfolding pc_rep_def m by simp
  then show ?thesis using assms(1) a m unfolding view_def by auto
qed

subsection \<open>Runs of the cache\<close>

text \<open>The operations that change the cache.  \<open>Add\<close> and \<open>Add_okc\<close> carry the address the allocator
  returns for the new entry.\<close>

datatype pmksa_op =
    Add nat int rsn_pmksa_cache_entry
  | Add_okc nat int rsn_pmksa_cache_entry bytes
  | Remove bytes
  | Flush
  | Expire int
  | Das radius_das_attrs
  | Deinit

fun pmksa_step :: "pmksa_op \<Rightarrow> rsn_pmksa_cache \<Rightarrow> rsn_pmksa_cache run" where
  "pmksa_step (Add a now e) c = pmksa_cache_auth_add_entry now (c\<lparr>pc_ent := (pc_ent c)(a \<mapsto> e)\<rparr>) a"
| "pmksa_step (Add_okc a now e pmkid) c = do { (c, _) \<leftarrow> pmksa_cache_add_okc (Some a) now c e pmkid; Some c }"
| "pmksa_step (Remove spa) c = wpa_auth_pmksa_remove c spa"
| "pmksa_step Flush c = pmksa_cache_auth_flush c"
| "pmksa_step (Expire now) c = pmksa_cache_expire now c"
| "pmksa_step (Das attr) c = do { (c, _) \<leftarrow> pmksa_cache_auth_radius_das_disconnect c attr; Some c }"
| "pmksa_step Deinit c = pmksa_cache_auth_deinit c"

text \<open>The allocator hands out memory that is not in use, and addresses and PMKIDs have their size.\<close>

fun op_ok :: "pmksa_op \<Rightarrow> rsn_pmksa_cache \<Rightarrow> bool" where
  "op_ok (Add a now e) c \<longleftrightarrow> pc_ent c a = None \<and> wf_entry e"
| "op_ok (Add_okc a now e pmkid) c \<longleftrightarrow> pc_ent c a = None \<and> wf_entry e \<and> length pmkid = PMKID_LEN"
| "op_ok _ c \<longleftrightarrow> True"

text \<open>What the operations do to the list of entries.\<close>

fun a_step :: "pmksa_op \<Rightarrow> acache \<Rightarrow> acache" where
  "a_step (Add a now e) s = a_insert e (a_evict (a_remove (\<lambda>x. os_memcmp (pe_spa x) (pe_spa e) = 0) s))"
| "a_step (Add_okc a now e pmkid) s =
     a_insert (e\<lparr>pe_pmkid := pmkid, pe_opportunistic := True, pe_acct_multi_session_id := 0\<rparr>) s"
| "a_step (Remove spa) s = a_remove (\<lambda>x. os_memcmp (pe_spa x) spa = 0) s"
| "a_step Flush s = ([], snd s @ fst s)"
| "a_step (Expire now) s = a_drop (\<lambda>x. pe_expiration x \<le> now) s"
| "a_step (Das attr) s = (if da_acct_session_id attr \<noteq> None then s else a_drop (\<lambda>x. das_attr_match x attr \<noteq> 0) s)"
| "a_step Deinit s = ([], snd s)"

lemma das_view:
  assumes v: "view A c xs s"
  shows "\<exists>c' r xs'. pmksa_cache_auth_radius_das_disconnect c attr = Some (c', r) \<and> view A c' xs' (a_step (Das attr) s)"
proof (cases "da_acct_session_id attr = None")
  case True
  have p: "pc_pmksa c = ptr xs" using path_ptr [OF pc_repD(2) [OF viewD(1) [OF v]]] .
  have "view A c ([] @ xs) s" using v by simp
  from das_loop_view [OF this, of attr 0] show ?thesis
    using True viewD(4) [OF v] by (auto simp: pmksa_cache_auth_radius_das_disconnect_def p a_drop_def)
next
  case False
  then show ?thesis using v by (auto simp: pmksa_cache_auth_radius_das_disconnect_def)
qed

lemma remove_view:
  assumes v: "view {} c xs s"
  shows "\<exists>c' xs'. wpa_auth_pmksa_remove c spa = Some c' \<and> view {} c' xs' (a_step (Remove spa) s)"
proof -
  let ?P = "\<lambda>x. os_memcmp (pe_spa x) spa = 0"
  note R = pc_repD [OF viewD(1) [OF v]]
  have "pmksa_cache_auth_get c (Some spa) None = Some (ptr (dropWhile (\<lambda>x. \<not> ?P (entry c x)) xs))"
    using scan_entries [OF R(2,3), where P = ?P and prev = None] by (simp add: pmksa_cache_auth_get_def)
  then show ?thesis using view_remove [OF v, of ?P] by (auto simp: wpa_auth_pmksa_remove_def)
qed

lemma step_view:
  assumes v: "view {} c xs s" and ok: "op_ok op c"
  shows "\<exists>c' xs'. pmksa_step op c = Some c' \<and> view {} c' xs' (a_step op s)"
proof (cases op)
  case (Add a now e)
  then show ?thesis using add_entry_view [OF view_alloc [OF v], of a e e now] ok by auto
next
  case (Add_okc a now e pmkid)
  let ?e = "e\<lparr>pe_pmkid := pmkid, pe_opportunistic := True, pe_acct_multi_session_id := 0\<rparr>"
  have "\<exists>c' xs'. pmksa_cache_link_entry now (c\<lparr>pc_ent := (pc_ent c)(a \<mapsto> ?e)\<rparr>) a = Some c' \<and> view {} c' xs' (a_insert ?e s)"
    using view_link [OF view_alloc [OF v], of a ?e ?e now] ok Add_okc by auto
  then show ?thesis using ok Add_okc by (auto simp: pmksa_cache_add_okc_def Let_def)
next
  case (Das attr)
  then show ?thesis using das_view [OF v, of attr] by auto
qed (use remove_view [OF v] flush_view [OF v] expire_view [OF v] deinit_view [OF v] in auto)

inductive pmksa_run :: "rsn_pmksa_cache \<Rightarrow> pmksa_op list \<Rightarrow> rsn_pmksa_cache \<Rightarrow> bool" where
  start: "pmksa_run c [] c"
| step: "op_ok op c \<Longrightarrow> pmksa_step op c = Some c1 \<Longrightarrow> pmksa_run c1 ops c2 \<Longrightarrow> pmksa_run c (op # ops) c2"

lemma run_view: "pmksa_run c ops c' \<Longrightarrow> pc_abs c s \<Longrightarrow> pc_abs c' (fold a_step ops s)"
proof (induction arbitrary: s rule: pmksa_run.induct)
  case (step op c c1 ops c2)
  then obtain xs where "view {} c xs s" by (auto simp: pc_abs_def)
  then have "pc_abs c1 (a_step op s)" using step_view [OF _ step.hyps(1)] step.hyps(2) by (fastforce simp: pc_abs_def)
  then show ?case using step.IH by simp
qed simp

lemma init_view: "view {} pmksa_cache_auth_init [] ([], [])"
  using pc_rep_init by (simp add: view_def pmksa_cache_auth_init_def)

subsection \<open>One entry per station, at most 1024\<close>

definition a_inv :: "acache \<Rightarrow> bool" where
  "a_inv s \<longleftrightarrow> length (fst s) \<le> 1024 \<and> distinct (map pe_spa (fst s)) \<and> (\<forall>e \<in> set (fst s). wf_entry e)"

lemma a_inv_sub:
  assumes "a_inv s" "length L \<le> length (fst s)" "distinct (map pe_spa L)" "set L \<subseteq> set (fst s)"
  shows "a_inv (L, F)"
  using assms by (auto simp: a_inv_def)

lemma a_remove_cases:
  obtains "a_remove P s = s" "\<forall>e \<in> set (fst s). \<not> P e"
  | us x vs F where "fst s = us @ x # vs" "P x" "a_remove P s = (us @ vs, F)"
proof (cases "dropWhile (\<lambda>e. \<not> P e) (fst s)")
  case Nil
  then have "\<forall>e \<in> set (fst s). \<not> P e" by (simp only: dropWhile_eq_Nil_conv)
  moreover have "a_remove P s = s" unfolding a_remove_def Nil by simp
  ultimately show thesis using that(1) by blast
next
  case (Cons x vs)
  have "fst s = takeWhile (\<lambda>e. \<not> P e) (fst s) @ x # vs" unfolding Cons [symmetric] by simp
  moreover have "P x" using hd_dropWhile [of "\<lambda>e. \<not> P e" "fst s"] unfolding Cons by simp
  moreover have "a_remove P s = (takeWhile (\<lambda>e. \<not> P e) (fst s) @ vs, snd s @ [x])" unfolding a_remove_def Cons by simp
  ultimately show thesis using that(2) by blast
qed

lemma a_remove_inv: "a_inv s \<Longrightarrow> a_inv (a_remove P s)"
  by (rule a_remove_cases [of P s]) (auto intro: a_inv_sub [of s] simp: a_inv_def)

lemma a_drop_inv: "a_inv s \<Longrightarrow> a_inv (a_drop P s)"
  unfolding a_drop_def by (rule a_inv_sub) (auto simp: a_inv_def distinct_map_filter)

lemma a_remove_spa:
  assumes "a_inv s" "length spa = 6" "e \<in> set (fst (a_remove (\<lambda>x. os_memcmp (pe_spa x) spa = 0) s))"
  shows "pe_spa e \<noteq> spa"
proof (rule a_remove_cases [of "\<lambda>x. os_memcmp (pe_spa x) spa = 0" s])
  fix us x vs F
  assume c: "fst s = us @ x # vs" "os_memcmp (pe_spa x) spa = 0" "a_remove (\<lambda>x. os_memcmp (pe_spa x) spa = 0) s = (us @ vs, F)"
  then have "pe_spa x = spa" using assms(1,2) by (simp add: a_inv_def wf_entry_def os_memcmp_0)
  moreover have "pe_spa e \<in> pe_spa ` set (us @ vs)" using assms(3) c(3) by (intro imageI) simp
  then have "pe_spa e \<noteq> pe_spa x" using assms(1) c(1) by (auto simp: a_inv_def)
  ultimately show ?thesis by simp
qed (use assms in \<open>auto simp: a_inv_def wf_entry_def\<close>)

lemma a_evict_inv: "a_inv s \<Longrightarrow> a_inv (a_evict s)" "a_inv s \<Longrightarrow> length (fst (a_evict s)) < 1024"
  "set (fst (a_evict s)) \<subseteq> set (fst s)"
  by (cases "fst s"; auto simp: a_evict_def a_inv_def)+

lemma a_insert_inv:
  assumes "a_inv s" "length (fst s) < 1024" "wf_entry e" "\<forall>x \<in> set (fst s). pe_spa x \<noteq> pe_spa e"
  shows "a_inv (a_insert e s)"
proof -
  define us vs where uv: "us = takeWhile (\<lambda>x. pe_expiration x \<le> pe_expiration e) (fst s)"
    "vs = dropWhile (\<lambda>x. pe_expiration x \<le> pe_expiration e) (fst s)"
  have s: "fst s = us @ vs" by (simp add: uv)
  have i: "a_insert e s = (us @ e # vs, snd s)" by (simp add: uv a_insert_def)
  show ?thesis using assms unfolding a_inv_def i s by auto
qed

fun is_okc :: "pmksa_op \<Rightarrow> bool" where
  "is_okc (Add_okc a now e pmkid) = True"
| "is_okc _ = False"

lemma a_step_inv:
  assumes "a_inv s" "op_ok op c" "\<not> is_okc op"
  shows "a_inv (a_step op s)"
proof (cases op)
  case (Add a now e)
  let ?s = "a_remove (\<lambda>x. os_memcmp (pe_spa x) (pe_spa e) = 0) s"
  have "a_inv ?s" by (rule a_remove_inv [OF assms(1)])
  moreover have "pe_spa x \<noteq> pe_spa e" if "x \<in> set (fst ?s)" for x
    using a_remove_spa [OF assms(1) _ that] assms(2) Add by (simp add: wf_entry_def)
  ultimately have "a_inv (a_insert e (a_evict ?s))" using Add assms(2) a_evict_inv [of ?s] by (intro a_insert_inv) auto
  then show ?thesis by (simp add: Add)
qed (use assms in \<open>simp_all add: a_remove_inv a_drop_inv a_inv_def [of "([], F)" for F]\<close>)

lemma run_inv:
  "pmksa_run c ops c' \<Longrightarrow> \<forall>op \<in> set ops. \<not> is_okc op \<Longrightarrow> a_inv s \<Longrightarrow> a_inv (fold a_step ops s)"
proof (induction arbitrary: s rule: pmksa_run.induct)
  case (step op c c1 ops c2)
  then have "a_inv (a_step op s)" by (intro a_step_inv [OF _ step.hyps(1)]) simp_all
  then show ?case using step by simp
qed simp

subsection \<open>Properties\<close>

text \<open>C17: the PMKSA cache implements a list of entries.  Whatever operation runs on a cache whose two
  threaded lists and hash buckets represent a list, it ends, it follows no dangling pointer, and the
  cache then represents the list that the abstract operation gives: an addition replaces the entry of
  the station, evicts the entry that expires first when 1024 are stored and inserts by expiration;
  expiry, flush and disconnect remove exactly the entries they name and report each to the callback; no
  entry that was allocated is lost.\<close>

theorem pmksa_cache_refines:
  assumes "pc_abs c s" "op_ok op c"
  shows "\<exists>c'. pmksa_step op c = Some c' \<and> pc_abs c' (a_step op s)"
  using step_view [OF _ assms(2)] assms(1) unfolding pc_abs_def by blast

definition demo_entry :: rsn_pmksa_cache_entry where
  "demo_entry = \<lparr>pe_pmkid = replicate 16 7, pe_pmk = replicate 32 1, pe_expiration = 100, pe_akmp = WPA_KEY_MGMT_SAE,
     pe_spa = replicate 6 2, pe_identity = None, pe_cui = None, pe_radius_class = [], pe_eap_type_authsrv = 0,
     pe_vlan_desc = None, pe_opportunistic = False, pe_acct_multi_session_id = 0\<rparr>"

lemma demo_ok: "op_ok (Add 3 50 demo_entry) pmksa_cache_auth_init" "pc_abs pmksa_cache_auth_init ([], [])"
  using init_view by (auto simp: pc_abs_def pmksa_cache_auth_init_def wf_entry_def demo_entry_def)

theorem pmksa_cache_refines_witness:
  "\<exists>c'. pmksa_step (Add 3 50 demo_entry) pmksa_cache_auth_init = Some c' \<and> pc_abs c' ([demo_entry], [])"
  using pmksa_cache_refines [OF demo_ok(2,1)] by (simp add: a_remove_def a_evict_def a_insert_def)

text \<open>C18: in every run of the cache that starts empty and adds entries only by
  \<^verbatim>\<open>pmksa_cache_auth_add\<close>, at most 1024 entries are stored, the counter is the number of allocated
  entries, no station has two of them, and a timeout is registered whenever an entry is stored.\<close>

theorem pmksa_cache_bounded:
  assumes "pmksa_run pmksa_cache_auth_init ops c" "\<forall>op \<in> set ops. \<not> is_okc op"
  shows "pc_count c \<le> 1024 \<and> pc_count c = int (card (dom (pc_ent c))) \<and>
    inj_on (\<lambda>p. pe_spa (the (pc_ent c p))) (dom (pc_ent c)) \<and>
    (if dom (pc_ent c) = {} then True else pc_timeout c \<noteq> None)"
proof -
  let ?s = "fold a_step ops ([], [])"
  have "a_inv ([], [])" by (simp add: a_inv_def)
  then have i: "a_inv ?s" by (rule run_inv [OF assms])
  have "pc_abs pmksa_cache_auth_init ([], [])" using init_view by (auto simp: pc_abs_def)
  then obtain xs where v: "view {} c xs ?s" using run_view [OF assms(1)] by (auto simp: pc_abs_def)
  note D = viewD [OF v] and R = pc_repD [OF viewD(1) [OF v]]
  have "inj_on (\<lambda>p. pe_spa (entry c p)) (set xs)" using i D(4) R(1) by (simp add: a_inv_def distinct_map o_def)
  moreover have "length xs \<le> 1024" using i D(4) by (simp add: a_inv_def)
  moreover have "pc_timeout c \<noteq> None" if "set xs \<noteq> {}" using that D(6) by simp
  ultimately show ?thesis using D(2) R(1,5) by (simp add: distinct_card entry_def)
qed

theorem pmksa_cache_bounded_witness:
  "\<exists>c. pmksa_run pmksa_cache_auth_init [Add 3 50 demo_entry] c \<and> pc_count c \<le> 1024"
proof -
  obtain c where "pmksa_step (Add 3 50 demo_entry) pmksa_cache_auth_init = Some c"
    using step_view [OF init_view demo_ok(1)] by auto
  then have r: "pmksa_run pmksa_cache_auth_init [Add 3 50 demo_entry] c" by (rule pmksa_run.step [OF demo_ok(1) _ pmksa_run.start])
  then show ?thesis using pmksa_cache_bounded [OF r] by auto
qed

text \<open>C19: when SAE authentication stores a PMK for a station, a later association of that station that
  names the PMKID finds exactly this PMK, valid for 12 hours, whatever was in the cache before.\<close>

theorem pmksa_sae_add_get:
  assumes "pc_abs c s" "pc_ent c a = None" "length pmk = 32" "length pmkid = PMKID_LEN" "length addr = 6"
  shows "\<exists>c' e. wpa_auth_pmksa_add_sae (Some a) now False aa c addr pmk pmkid = Some (c', 0) \<and>
    pmksa_cache_auth_get c' (Some addr) (Some pmkid) = Some (Some a) \<and>
    pc_ent c' a = Some e \<and> pe_pmk e = pmk \<and> pe_akmp e = WPA_KEY_MGMT_SAE \<and> pe_expiration e = now + 43200 \<and>
    pc_abs c' (a_step (Add a now e) s)"
proof -
  obtain xs where v: "view {} c xs s" using assms(1) by (auto simp: pc_abs_def)
  let ?e = "\<lparr>pe_pmkid = pmkid, pe_pmk = pmk, pe_expiration = now + 43200, pe_akmp = WPA_KEY_MGMT_SAE, pe_spa = addr,
     pe_identity = None, pe_cui = None, pe_radius_class = [], pe_eap_type_authsrv = 0, pe_vlan_desc = None,
     pe_opportunistic = False, pe_acct_multi_session_id = 0\<rparr>"
  let ?c = "c\<lparr>pc_ent := (pc_ent c)(a \<mapsto> ?e)\<rparr>"
  have "pc_ent ?c a = Some ?e" by simp
  from add_entry_view [OF view_alloc [OF v assms(2)] this, of now]
  obtain c' xs' where c': "pmksa_cache_auth_add_entry now ?c a = Some c'" "view {} c' xs' (a_step (Add a now ?e) s)"
      "pc_ent c' a = Some ?e" "pc_pmkid c' (PMKID_HASH pmkid) = Some a"
    by (elim exE conjE) (auto intro: that)
  have "wpa_auth_pmksa_add_sae (Some a) now False aa c addr pmk pmkid = Some (c', 0)"
    using assms(3-5) c'(1)
    by (simp add: wpa_auth_pmksa_add_sae_def pmksa_cache_auth_add_def pmksa_cache_auth_create_entry_def
        pmksa_cache_from_eapol_data_def wpa_key_mgmt_suite_b_def)
  moreover have "pmksa_cache_auth_get c' (Some addr) (Some pmkid) = Some (Some a)"
    using get_head [of c' ?e a] c'(3,4) by simp
  ultimately show ?thesis using c'(2,3) by (intro exI [of _ c'] exI [of _ ?e]) (auto simp: pc_abs_def)
qed

theorem pmksa_sae_add_get_witness:
  "\<exists>c' e. wpa_auth_pmksa_add_sae (Some 3) 50 False (replicate 6 9) pmksa_cache_auth_init (replicate 6 2) (replicate 32 1)
      (replicate 16 7) = Some (c', 0) \<and>
    pmksa_cache_auth_get c' (Some (replicate 6 2)) (Some (replicate 16 7)) = Some (Some 3) \<and>
    pc_ent c' 3 = Some e \<and> pe_pmk e = replicate 32 1"
  using pmksa_sae_add_get [OF demo_ok(2), of 3 "replicate 32 1" "replicate 16 7" "replicate 6 2" 50 "replicate 6 9"]
  by (auto simp: pmksa_cache_auth_init_def)

text \<open>C20: the lookup by station and PMKID through the hash buckets is the search of the whole list: it
  ends, it returns an entry of that station with that PMKID, and it returns nothing only when the list
  has none.\<close>

theorem pmksa_get_correct:
  assumes "pc_abs c s" "\<forall>e \<in> set (fst s). wf_entry e" "length spa = 6" "length pmkid = PMKID_LEN"
  shows "\<exists>r. pmksa_cache_auth_get c (Some spa) (Some pmkid) = Some r \<and>
    (case r of None \<Rightarrow> \<forall>e \<in> set (fst s). \<not> (pe_spa e = spa \<and> pe_pmkid e = pmkid)
     | Some p \<Rightarrow> \<exists>e \<in> set (fst s). pc_ent c p = Some e \<and> pe_spa e = spa \<and> pe_pmkid e = pmkid)"
  using get_pmkid_view [OF _ assms(2-4)] assms(1) unfolding pc_abs_def by blast

theorem pmksa_get_correct_witness:
  "pmksa_cache_auth_get pmksa_cache_auth_init (Some (replicate 6 2)) (Some (replicate 16 7)) = Some None"
  using pmksa_get_correct [OF demo_ok(2), of "replicate 6 2" "replicate 16 7"] by (auto split: option.splits)

end
