(* ===== verification/AesFacts.thy ===== *)
theory AesFacts
  imports Aes
begin

text \<open>
  Decryption inverts encryption.  Words are taken apart into octets, the tables are shown to be the
  S-box followed by multiplication with the coefficients of MixColumns (one check per octet), and
  multiplication in the field is additive, so that the inverse MixColumns cancels MixColumns.
\<close>

subsection \<open>Words as four octets\<close>

definition w4 :: "u8 \<Rightarrow> u8 \<Rightarrow> u8 \<Rightarrow> u8 \<Rightarrow> u32" where
  "w4 a b c d = push_bit 24 (ucast a) XOR push_bit 16 (ucast b) XOR push_bit 8 (ucast c) XOR ucast d"

lemma bit_w4:
  "bit (w4 a b c d) n \<longleftrightarrow> (if n < 8 then bit d n else if n < 16 then bit c (n - 8) else if n < 24 then bit b (n - 16)
     else bit a (n - 24))"
  using bit_imp_le_length [of a "n - 24"] bit_imp_le_length [of b "n - 16"] bit_imp_le_length [of c "n - 8"]
    bit_imp_le_length [of d n]
  by (auto simp: w4_def bit_simps)

lemma w4_eqI: "(\<And>n. n < 32 \<Longrightarrow> bit w n = bit (w4 a b c d) n) \<Longrightarrow> w = w4 a b c d"
  by (rule bit_word_eqI) simp

lemma w4_bytes: "w = w4 (ucast (drop_bit 24 w)) (ucast (drop_bit 16 w)) (ucast (drop_bit 8 w)) (ucast w)"
  by (rule w4_eqI) (auto simp: bit_w4 bit_simps)

lemma w4_cases: obtains a b c d where "w = w4 a b c d"
  using w4_bytes by blast

lemma w4_xor: "w4 a b c d XOR w4 a' b' c' d' = w4 (a XOR a') (b XOR b') (c XOR c') (d XOR d')"
  by (rule w4_eqI) (auto simp: bit_w4 bit_simps)

lemma ucast_w4:
  "ucast (drop_bit 24 (w4 a b c d)) = a" "ucast (drop_bit 16 (w4 a b c d)) = b"
  "ucast (drop_bit 8 (w4 a b c d)) = c" "ucast (w4 a b c d) = d"
  by (rule bit_word_eqI; auto simp: bit_w4 bit_simps)+

lemma PUTU32_w4 [simp]: "PUTU32 (w4 a b c d) = [a, b, c, d]"
  by (simp add: PUTU32_def ucast_w4)

lemma GETU32_w4: "GETU32 (a # b # c # d # r) = w4 a b c d"
  by (simp add: GETU32_def w4_def)

lemma w4_octet: "w4 0 0 0 d = ucast d"
  by (simp add: w4_def)

lemma octet_w4:
  "drop_bit 24 (w4 a b c d) = w4 0 0 0 a" "drop_bit 24 (w4 a b c d) AND 0xff = w4 0 0 0 a"
  "drop_bit 16 (w4 a b c d) AND 0xff = w4 0 0 0 b" "drop_bit 8 (w4 a b c d) AND 0xff = w4 0 0 0 c"
  "w4 a b c d AND 0xff = w4 0 0 0 d"
  by (rule w4_eqI; auto simp: bit_w4 and_255 bit_simps dest: bit_imp_le_length)+

lemma unat_octet [simp]: "unat (w4 0 0 0 a) = unat a"
  by (simp add: w4_octet unsigned_ucast_eq take_bit_nat_eq_self unsigned_less [of a, THEN less_le_trans])

lemma rotr_w4 [simp]:
  "rotr (w4 a b c d) 8 = w4 d a b c" "rotr (w4 a b c d) 16 = w4 c d a b" "rotr (w4 a b c d) 24 = w4 b c d a"
  by (rule w4_eqI; auto simp: rotr_def bit_w4 bit_simps dest: bit_imp_le_length)+

lemma mask_octets:
  "(0xff000000 :: u32) = push_bit 24 (mask 8)" "(0x00ff0000 :: u32) = push_bit 16 (mask 8)"
  "(0x0000ff00 :: u32) = push_bit 8 (mask 8)"
  by (simp_all add: mask_eq_exp_minus_1 push_bit_eq_mult)

lemma mask_w4 [simp]:
  "push_bit 8 (w4 a b c d) AND 0xff000000 = w4 b 0 0 0" "w4 a b c d AND 0x00ff0000 = w4 0 b 0 0"
  "w4 a b c d AND 0x0000ff00 = w4 0 0 c 0" "drop_bit 8 (w4 a b c d) AND 0x000000ff = w4 0 0 0 c"
  unfolding mask_octets and_255 by (rule w4_eqI; auto simp: bit_w4 bit_simps)+

lemma push_w4: "push_bit 24 (w4 0 0 0 a) = w4 a 0 0 0" "push_bit 16 (w4 0 0 0 a) = w4 0 a 0 0" "push_bit 8 (w4 0 0 0 a) = w4 0 0 a 0"
  by (simp_all add: w4_def)

subsection \<open>Multiplication in the field\<close>

definition xt :: "u8 \<Rightarrow> u8" where
  "xt x = push_bit 1 x XOR (if bit x 7 then 0x1b else 0)"

lemma xt_xor: "xt (x XOR y) = xt x XOR xt y"
  by (auto simp: xt_def push_bit_xor bit_xor_iff xor.assoc xor.left_commute xor.commute)

definition m9 :: "u8 \<Rightarrow> u8" where "m9 x = xt (xt (xt x)) XOR x"
definition mB :: "u8 \<Rightarrow> u8" where "mB x = xt (xt (xt x)) XOR xt x XOR x"
definition mD :: "u8 \<Rightarrow> u8" where "mD x = xt (xt (xt x)) XOR xt (xt x) XOR x"
definition mE :: "u8 \<Rightarrow> u8" where "mE x = xt (xt (xt x)) XOR xt (xt x) XOR xt x"

lemmas mul_defs = m9_def mB_def mD_def mE_def

definition sbox :: "u8 \<Rightarrow> u8" where
  "sbox a = ucast (drop_bit 16 (Te0 ! unat a))"

definition sbox_inv :: "u8 \<Rightarrow> u8" where
  "sbox_inv a = Td4s ! unat a"

lemma all_octets: "list_all (\<lambda>i. P (word_of_nat i)) [0..<256] \<Longrightarrow> P a" for a :: u8
proof -
  assume l: "list_all (\<lambda>i. P (word_of_nat i)) [0..<256]"
  have "unat a < 256" using unsigned_less [of a] by simp
  then have "P (word_of_nat (unat a))" using l unfolding list_all_iff by (metis atLeast_upt lessThan_iff)
  then show "P a" by simp
qed

lemma length_tables: "length Te0 = 256" "length Td0 = 256" "length Td4s = 256"
  by (simp_all add: Te0_def Td0_def Td4s_def)

lemma Te0_shape: "list_all (\<lambda>t. let s = ucast (drop_bit 16 t) in t = w4 (xt s) s s (xt s XOR s)) Te0"
  by (simp add: Te0_def w4_def xt_def)

lemma Td0_shape: "list_all2 (\<lambda>t s. t = w4 (mE s) (m9 s) (mD s) (mB s)) Td0 Td4s"
  by (simp add: Td0_def Td4s_def w4_def mul_defs xt_def)

lemma octet_less: "unat a < 256" for a :: u8
  using unsigned_less [of a] by simp

lemma Te0_octet: "Te0 ! unat a = w4 (xt (sbox a)) (sbox a) (sbox a) (xt (sbox a) XOR sbox a)"
  using Te0_shape octet_less [of a] by (simp add: list_all_length length_tables sbox_def Let_def)

lemma Td0_octet: "Td0 ! unat a = w4 (mE (sbox_inv a)) (m9 (sbox_inv a)) (mD (sbox_inv a)) (mB (sbox_inv a))"
  using Td0_shape octet_less [of a] by (simp add: list_all2_conv_all_nth length_tables sbox_inv_def)

lemma sbox_inv_sbox [simp]: "sbox_inv (sbox a) = a"
  by (rule all_octets) code_simp

subsection \<open>The rounds\<close>

lemmas te_defs = TE0_def TE1_def TE2_def TE3_def TE41_def TE42_def TE43_def TE44_def TE4_def
lemmas td_defs = TD0_def TD1_def TD2_def TD3_def TD41_def TD42_def TD43_def TD44_def TD0i_def TD1i_def TD2i_def TD3i_def

lemma te_w4:
  "TE0 (w4 a b c d) = w4 (xt (sbox a)) (sbox a) (sbox a) (xt (sbox a) XOR sbox a)"
  "TE1 (w4 a b c d) = w4 (xt (sbox b) XOR sbox b) (xt (sbox b)) (sbox b) (sbox b)"
  "TE2 (w4 a b c d) = w4 (sbox c) (xt (sbox c) XOR sbox c) (xt (sbox c)) (sbox c)"
  "TE3 (w4 a b c d) = w4 (sbox d) (sbox d) (xt (sbox d) XOR sbox d) (xt (sbox d))"
  "TE41 (w4 a b c d) = w4 (sbox a) 0 0 0" "TE42 (w4 a b c d) = w4 0 (sbox b) 0 0"
  "TE43 (w4 a b c d) = w4 0 0 (sbox c) 0" "TE44 (w4 a b c d) = w4 0 0 0 (sbox d)"
  "TE4 (w4 0 0 0 d) = w4 0 0 0 (sbox d)"
  by (simp_all add: te_defs octet_w4 Te0_octet)

lemma td_w4:
  "TD0 (w4 a b c d) = w4 (mE (sbox_inv a)) (m9 (sbox_inv a)) (mD (sbox_inv a)) (mB (sbox_inv a))"
  "TD1 (w4 a b c d) = w4 (mB (sbox_inv b)) (mE (sbox_inv b)) (m9 (sbox_inv b)) (mD (sbox_inv b))"
  "TD2 (w4 a b c d) = w4 (mD (sbox_inv c)) (mB (sbox_inv c)) (mE (sbox_inv c)) (m9 (sbox_inv c))"
  "TD3 (w4 a b c d) = w4 (m9 (sbox_inv d)) (mD (sbox_inv d)) (mB (sbox_inv d)) (mE (sbox_inv d))"
  "TD41 (w4 a b c d) = w4 (sbox_inv a) 0 0 0" "TD42 (w4 a b c d) = w4 0 (sbox_inv b) 0 0"
  "TD43 (w4 a b c d) = w4 0 0 (sbox_inv c) 0" "TD44 (w4 a b c d) = w4 0 0 0 (sbox_inv d)"
  "TD0i (w4 0 0 0 d) = w4 (mE (sbox_inv d)) (m9 (sbox_inv d)) (mD (sbox_inv d)) (mB (sbox_inv d))"
  "TD1i (w4 0 0 0 d) = w4 (mB (sbox_inv d)) (mE (sbox_inv d)) (m9 (sbox_inv d)) (mD (sbox_inv d))"
  "TD2i (w4 0 0 0 d) = w4 (mD (sbox_inv d)) (mB (sbox_inv d)) (mE (sbox_inv d)) (m9 (sbox_inv d))"
  "TD3i (w4 0 0 0 d) = w4 (m9 (sbox_inv d)) (mD (sbox_inv d)) (mB (sbox_inv d)) (mE (sbox_inv d))"
  by (simp_all add: td_defs octet_w4 Td0_octet push_w4 w4_octet [symmetric] flip: sbox_inv_def)

definition mix :: "u32 \<Rightarrow> u32" where
  "mix w = (let a = ucast (drop_bit 24 w); b = ucast (drop_bit 16 w); c = ucast (drop_bit 8 w); d = ucast w
     in w4 (xt a XOR (xt b XOR b) XOR c XOR d) (a XOR xt b XOR (xt c XOR c) XOR d)
           (a XOR b XOR xt c XOR (xt d XOR d)) ((xt a XOR a) XOR b XOR c XOR xt d))"

lemma mix_w4: "mix (w4 a b c d) =
   w4 (xt a XOR (xt b XOR b) XOR c XOR d) (a XOR xt b XOR (xt c XOR c) XOR d)
      (a XOR b XOR xt c XOR (xt d XOR d)) ((xt a XOR a) XOR b XOR c XOR xt d)"
  by (simp add: mix_def ucast_w4)

lemma inv_mix_w4: "inv_mix_word (w4 a b c d) =
   w4 (mE a XOR mB b XOR mD c XOR m9 d) (m9 a XOR mE b XOR mB c XOR mD d)
      (mD a XOR m9 b XOR mE c XOR mB d) (mB a XOR mD b XOR m9 c XOR mE d)"
  by (simp add: inv_mix_word_def octet_w4 te_w4 td_w4 w4_xor)

lemma xor_cancel: "x XOR (x XOR y) = y" "x XOR x = 0" for x y :: "'a::len word"
  by (simp_all add: xor.assoc [symmetric])

lemmas xor_ac_simps = xor.assoc xor.commute xor.left_commute xor_cancel

lemma inv_mix_mix [simp]: "inv_mix_word (mix w) = w"
proof -
  obtain a b c d where "w = w4 a b c d" by (rule w4_cases)
  then show ?thesis
    by (simp add: mix_w4 inv_mix_w4 mul_defs xt_xor) (simp add: xor_ac_simps)
qed

lemma inv_mix_xor: "inv_mix_word (v XOR w) = inv_mix_word v XOR inv_mix_word w"
proof -
  obtain a b c d where v: "v = w4 a b c d" by (rule w4_cases)
  obtain a' b' c' d' where w: "w = w4 a' b' c' d'" by (rule w4_cases)
  show ?thesis unfolding v w by (simp add: w4_xor inv_mix_w4 mul_defs xt_xor) (simp add: xor_ac_simps)
qed

subsection \<open>The state\<close>

definition sub_shift :: "aes_state \<Rightarrow> aes_state" where
  "sub_shift t = (case t of (t0, t1, t2, t3) \<Rightarrow>
     (TE41 t0 XOR TE42 t1 XOR TE43 t2 XOR TE44 t3, TE41 t1 XOR TE42 t2 XOR TE43 t3 XOR TE44 t0,
      TE41 t2 XOR TE42 t3 XOR TE43 t0 XOR TE44 t1, TE41 t3 XOR TE42 t0 XOR TE43 t1 XOR TE44 t2))"

definition inv_sub_shift :: "aes_state \<Rightarrow> aes_state" where
  "inv_sub_shift t = (case t of (t0, t1, t2, t3) \<Rightarrow>
     (TD41 t0 XOR TD42 t3 XOR TD43 t2 XOR TD44 t1, TD41 t1 XOR TD42 t0 XOR TD43 t3 XOR TD44 t2,
      TD41 t2 XOR TD42 t1 XOR TD43 t0 XOR TD44 t3, TD41 t3 XOR TD42 t2 XOR TD43 t1 XOR TD44 t0))"

definition map4 :: "(u32 \<Rightarrow> u32) \<Rightarrow> aes_state \<Rightarrow> aes_state" where
  "map4 f s = (case s of (s0, s1, s2, s3) \<Rightarrow> (f s0, f s1, f s2, f s3))"

definition add_key :: "aes_state \<Rightarrow> aes_state \<Rightarrow> aes_state" where
  "add_key s k = (case (s, k) of ((s0, s1, s2, s3), (k0, k1, k2, k3)) \<Rightarrow>
     (s0 XOR k0, s1 XOR k1, s2 XOR k2, s3 XOR k3))"

definition rk4 :: "u32 list \<Rightarrow> nat \<Rightarrow> aes_state" where
  "rk4 rk i = (rk ! (4 * i), rk ! (4 * i + 1), rk ! (4 * i + 2), rk ! (4 * i + 3))"

definition put4 :: "aes_state \<Rightarrow> bytes" where
  "put4 s = (case s of (s0, s1, s2, s3) \<Rightarrow> PUTU32 s0 @ PUTU32 s1 @ PUTU32 s2 @ PUTU32 s3)"

definition get4 :: "bytes \<Rightarrow> aes_state" where
  "get4 b = (GETU32 b, GETU32 (drop 4 b), GETU32 (drop 8 b), GETU32 (drop 12 b))"

lemma add_key_cancel [simp]: "add_key (add_key s k) k = s"
  by (auto simp: add_key_def xor.assoc split: prod.splits)

lemma inv_sub_shift_sub_shift [simp]: "inv_sub_shift (sub_shift s) = s"
proof -
  obtain s0 s1 s2 s3 where s: "s = (s0, s1, s2, s3)" by (cases s) auto
  obtain a0 b0 c0 d0 where 0: "s0 = w4 a0 b0 c0 d0" by (rule w4_cases)
  obtain a1 b1 c1 d1 where 1: "s1 = w4 a1 b1 c1 d1" by (rule w4_cases)
  obtain a2 b2 c2 d2 where 2: "s2 = w4 a2 b2 c2 d2" by (rule w4_cases)
  obtain a3 b3 c3 d3 where 3: "s3 = w4 a3 b3 c3 d3" by (rule w4_cases)
  show ?thesis by (simp add: s 0 1 2 3 sub_shift_def inv_sub_shift_def te_w4 td_w4 w4_xor)
qed

lemma mix_te: "TE0 p XOR TE1 q XOR TE2 r XOR TE3 t = mix (TE41 p XOR TE42 q XOR TE43 r XOR TE44 t)"
proof -
  obtain a0 b0 c0 d0 where 0: "p = w4 a0 b0 c0 d0" by (rule w4_cases)
  obtain a1 b1 c1 d1 where 1: "q = w4 a1 b1 c1 d1" by (rule w4_cases)
  obtain a2 b2 c2 d2 where 2: "r = w4 a2 b2 c2 d2" by (rule w4_cases)
  obtain a3 b3 c3 d3 where 3: "t = w4 a3 b3 c3 d3" by (rule w4_cases)
  show ?thesis by (simp add: 0 1 2 3 te_w4 w4_xor mix_w4)
qed

lemma inv_mix_td: "TD0 p XOR TD1 q XOR TD2 r XOR TD3 t = inv_mix_word (TD41 p XOR TD42 q XOR TD43 r XOR TD44 t)"
proof -
  obtain a0 b0 c0 d0 where 0: "p = w4 a0 b0 c0 d0" by (rule w4_cases)
  obtain a1 b1 c1 d1 where 1: "q = w4 a1 b1 c1 d1" by (rule w4_cases)
  obtain a2 b2 c2 d2 where 2: "r = w4 a2 b2 c2 d2" by (rule w4_cases)
  obtain a3 b3 c3 d3 where 3: "t = w4 a3 b3 c3 d3" by (rule w4_cases)
  show ?thesis by (simp add: 0 1 2 3 td_w4 w4_xor inv_mix_w4)
qed

lemma enc_round_eq: "enc_round rk i s = add_key (map4 mix (sub_shift s)) (rk4 rk i)"
  unfolding enc_round_def sub_shift_def map4_def add_key_def rk4_def by (simp add: mix_te [symmetric] xor.assoc split: prod.splits)

lemma dec_round_eq: "dec_round rk i s = add_key (map4 inv_mix_word (inv_sub_shift s)) (rk4 rk i)"
  unfolding dec_round_def inv_sub_shift_def map4_def add_key_def rk4_def by (simp add: inv_mix_td [symmetric] xor.assoc split: prod.splits)

lemma inv_mix_add_key: "map4 inv_mix_word (add_key (map4 mix s) k) = add_key s (map4 inv_mix_word k)"
  by (auto simp: map4_def add_key_def inv_mix_xor split: prod.splits)

lemma get4_put4: "get4 (put4 s) = s"
proof -
  obtain s0 s1 s2 s3 where s: "s = (s0, s1, s2, s3)" by (cases s) auto
  have "GETU32 (PUTU32 w @ r) = w" for w r
  proof -
    obtain a b c d where "w = w4 a b c d" by (rule w4_cases)
    then show ?thesis by (simp add: GETU32_w4)
  qed
  from this [of _ "[]"] this show ?thesis by (simp add: s get4_def put4_def PUTU32_def)
qed

lemma put4_get4: "length b = 16 \<Longrightarrow> put4 (get4 b) = b"
proof -
  assume "length b = 16"
  then obtain b0 b1 b2 b3 b4 b5 b6 b7 b8 b9 b10 b11 b12 b13 b14 b15
    where "b = [b0, b1, b2, b3, b4, b5, b6, b7, b8, b9, b10, b11, b12, b13, b14, b15]"
    by (auto simp: length_Suc_conv numeral_eq_Suc)
  then show ?thesis by (simp add: get4_def put4_def GETU32_w4)
qed

lemma length_put4 [simp]: "length (put4 s) = 16"
  by (auto simp: put4_def PUTU32_def split: prod.splits)

text \<open>The rounds, with the list of the round keys.\<close>

definition enc_rounds :: "aes_state list \<Rightarrow> aes_state \<Rightarrow> aes_state" where
  "enc_rounds ks s = fold (\<lambda>k s. add_key (map4 mix (sub_shift s)) k) ks s"

definition dec_rounds :: "aes_state list \<Rightarrow> aes_state \<Rightarrow> aes_state" where
  "dec_rounds ks s = fold (\<lambda>k s. add_key (map4 inv_mix_word (inv_sub_shift s)) k) ks s"

lemma dec_enc_rounds:
  "dec_rounds (map (map4 inv_mix_word) (rev ks)) (sub_shift (enc_rounds ks s)) = sub_shift s"
proof (induction ks rule: rev_induct)
  case (snoc k ks)
  have "dec_rounds (map (map4 inv_mix_word) (rev (ks @ [k]))) (sub_shift (enc_rounds (ks @ [k]) s)) =
      dec_rounds (map (map4 inv_mix_word) (rev ks)) (sub_shift (enc_rounds ks s))"
    by (simp add: enc_rounds_def dec_rounds_def inv_mix_add_key)
  with snoc show ?case by simp
qed (simp add: enc_rounds_def dec_rounds_def)

lemma rk4_drop: "8 \<le> length rk \<Longrightarrow> rk4 (drop 8 rk) i = rk4 rk (i + 2)"
  by (simp add: rk4_def algebra_simps)

lemma round_loop_fold:
  assumes f: "\<And>rk i s. f rk i s = g (rk4 rk i) s"
  shows "1 \<le> r \<Longrightarrow> 8 * r \<le> length rk \<Longrightarrow>
    round_loop f r rk s = (fold g (map (rk4 rk) [1..<2 * r]) s, drop (8 * r) rk)"
proof (induction r arbitrary: rk s)
  case (Suc r)
  show ?case
  proof (cases "r = 0")
    case True
    then show ?thesis using Suc.prems by (subst round_loop.simps) (simp add: f numeral_2_eq_2)
  next
    case False
    let ?s = "g (rk4 (drop 8 rk) 0) (g (rk4 rk 1) s)"
    have "round_loop f r (drop 8 rk) ?s = (fold g (map (rk4 (drop 8 rk)) [1..<2 * r]) ?s, drop (8 * r) (drop 8 rk))"
      using False Suc.prems by (intro Suc.IH) auto
    moreover have "map (rk4 (drop 8 rk)) [1..<2 * r] = map (rk4 rk) [3..<2 * Suc r]"
    proof -
      have "[3..<2 * Suc r] = map (\<lambda>i. i + 2) [1..<2 * r]" by (rule nth_equalityI) (simp_all del: upt_Suc)
      then show ?thesis using Suc.prems by (simp add: rk4_drop)
    qed
    moreover have "[1..<2 * Suc r] = 1 # 2 # [3..<2 * Suc r]" 
      using False by (simp add: upt_conv_Cons numeral_2_eq_2 numeral_3_eq_3 del: upt_Suc)
    moreover have "rk4 (drop 8 rk) 0 = rk4 rk 2" "8 * Suc r = 8 + 8 * r" using Suc.prems rk4_drop [of rk 0]
      by (simp_all add: numeral_2_eq_2)
    ultimately show ?thesis using False
      by (subst round_loop.simps) (simp add: f Let_def add.commute del: upt_Suc mult_Suc_right)
  qed
qed simp

lemma rijndaelEncrypt_eq:
  assumes "even Nr" "2 \<le> Nr" "length rk = 4 * Nr + 4"
  shows "rijndaelEncrypt rk Nr pt =
    put4 (add_key (sub_shift (enc_rounds (map (rk4 rk) [1..<Nr]) (add_key (get4 pt) (rk4 rk 0)))) (rk4 rk Nr))"
proof -
  have l: "load_block pt rk = add_key (get4 pt) (rk4 rk 0)" by (simp add: load_block_def add_key_def get4_def rk4_def numeral_2_eq_2)
  have "round_loop enc_round (Nr div 2) rk s = (enc_rounds (map (rk4 rk) [1..<Nr]) s, drop (4 * Nr) rk)" for s
    using round_loop_fold [of enc_round "\<lambda>k s. add_key (map4 mix (sub_shift s)) k" "Nr div 2" rk s] assms
    by (auto simp: enc_round_eq enc_rounds_def)
  then show ?thesis unfolding rijndaelEncrypt_def l using assms(3)
    by (auto simp: put4_def add_key_def sub_shift_def rk4_def xor.assoc split: prod.splits)
qed

lemma rijndaelDecrypt_eq:
  assumes "even Nr" "2 \<le> Nr" "length rk = 4 * Nr + 4"
  shows "rijndaelDecrypt rk Nr ct =
    put4 (add_key (inv_sub_shift (dec_rounds (map (rk4 rk) [1..<Nr]) (add_key (get4 ct) (rk4 rk 0)))) (rk4 rk Nr))"
proof -
  have l: "load_block ct rk = add_key (get4 ct) (rk4 rk 0)" by (simp add: load_block_def add_key_def get4_def rk4_def numeral_2_eq_2)
  have "round_loop dec_round (Nr div 2) rk s = (dec_rounds (map (rk4 rk) [1..<Nr]) s, drop (4 * Nr) rk)" for s
    using round_loop_fold [of dec_round "\<lambda>k s. add_key (map4 inv_mix_word (inv_sub_shift s)) k" "Nr div 2" rk s] assms
    by (auto simp: dec_round_eq dec_rounds_def)
  then show ?thesis unfolding rijndaelDecrypt_def l using assms(3)
    by (auto simp: put4_def add_key_def inv_sub_shift_def rk4_def xor.assoc split: prod.splits)
qed

subsection \<open>The decryption key schedule\<close>

lemma group_eq: "d < 4 \<Longrightarrow> e < 4 \<Longrightarrow> 4 * k + d = 4 * i + e \<longleftrightarrow> k = i \<and> d = e" for k i d e :: nat
  by presburger

lemma swap4_nth:
  assumes "i \<noteq> j" "4 * i + 4 \<le> length rk" "4 * j + 4 \<le> length rk" "d < 4"
  shows "swap4 rk (4 * i) (4 * j) ! (4 * k + d) = rk ! (4 * (if k = i then j else if k = j then i else k) + d)"
proof -
  have "length (fold (\<lambda>d rk. rk[4 * i + d := rk ! (4 * j + d), 4 * j + d := rk ! (4 * i + d)]) [0..<m] rk) = length rk \<and>
      (\<forall>k. fold (\<lambda>d rk. rk[4 * i + d := rk ! (4 * j + d), 4 * j + d := rk ! (4 * i + d)]) [0..<m] rk ! (4 * k + d) =
      (if d < m then rk ! (4 * (if k = i then j else if k = j then i else k) + d) else rk ! (4 * k + d)))"
    if "m \<le> 4" "d < 4" for m d
    using that
  proof (induction m arbitrary: d)
    case (Suc m)
    have "length (fold (\<lambda>d rk. rk[4 * i + d := rk ! (4 * j + d), 4 * j + d := rk ! (4 * i + d)]) [0..<m] rk) = length rk"
      using Suc by simp
    then show ?case using Suc.IH [of d] Suc.IH [of m] Suc.prems assms(1-3) group_eq [of d m] group_eq [of m d]
      by (auto simp: nth_list_update less_Suc_eq)
  qed simp
  from this [of 4 d] show ?thesis using assms(4) by (simp add: swap4_def)
qed

lemma length_swap4 [simp]: "length (swap4 rk i j) = length rk"
  by (simp add: swap4_def upt_rec)

lemma invert_loop_nth:
  "length rk = 4 * n + 4 \<Longrightarrow> i + j = n \<Longrightarrow> d < 4 \<Longrightarrow> k \<le> n \<Longrightarrow>
   length (invert_loop rk (4 * i) (4 * j)) = length rk \<and>
   invert_loop rk (4 * i) (4 * j) ! (4 * k + d) = rk ! (4 * (if i \<le> k \<and> k \<le> j then n - k else k) + d)"
proof (induction "j - i" arbitrary: rk i j rule: less_induct)
  case less
  show ?case
  proof (cases "i < j")
    case True
    let ?rk = "swap4 rk (4 * i) (4 * j)"
    have e: "4 * i + 4 = 4 * (i + 1)" "4 * j - 4 = 4 * (j - 1)" by auto
    have IH: "length (invert_loop ?rk (4 * (i + 1)) (4 * (j - 1))) = length ?rk \<and>
        invert_loop ?rk (4 * (i + 1)) (4 * (j - 1)) ! (4 * k + d) =
        ?rk ! (4 * (if i + 1 \<le> k \<and> k \<le> j - 1 then n - k else k) + d)"
      using True less.prems by (intro less.hyps) auto
    have sw: "?rk ! (4 * m + d) = rk ! (4 * (if m = i then j else if m = j then i else m) + d)" for m
      using True less.prems by (intro swap4_nth) auto
    have "invert_loop rk (4 * i) (4 * j) = invert_loop ?rk (4 * (i + 1)) (4 * (j - 1))"
      using True unfolding e [symmetric] by (subst invert_loop.simps) simp
    then show ?thesis using IH True less.prems unfolding sw by (auto split: if_splits)
  next
    case False
    have "n - k = k" if "i \<le> k" "k \<le> j" using that False less.prems by auto
    then show ?thesis using False by (subst (1 2) invert_loop.simps) auto
  qed
qed

lemma inv_mix_group:
  assumes "4 * i + 4 \<le> length rk" "d < 4" "m \<le> 4"
  shows "length (fold (\<lambda>j rk. rk[4 * i + j := inv_mix_word (rk ! (4 * i + j))]) [0..<m] rk) = length rk \<and>
    fold (\<lambda>j rk. rk[4 * i + j := inv_mix_word (rk ! (4 * i + j))]) [0..<m] rk ! (4 * k + d) =
    (if k = i \<and> d < m then inv_mix_word (rk ! (4 * k + d)) else rk ! (4 * k + d))"
  using assms
proof (induction m arbitrary: k d)
  case (Suc m)
  show ?case using Suc.IH [of d k] Suc.IH [of m i] Suc.prems group_eq [of d m k i] group_eq [of m d i k]
    by (auto simp: nth_list_update less_Suc_eq)
qed simp

lemma inv_mix_groups:
  assumes "4 * n \<le> length rk" "d < 4"
  shows "length (fold (\<lambda>i rk. fold (\<lambda>j rk. rk[4 * i + j := inv_mix_word (rk ! (4 * i + j))]) [0..<4] rk) [1..<n] rk) = length rk \<and>
    fold (\<lambda>i rk. fold (\<lambda>j rk. rk[4 * i + j := inv_mix_word (rk ! (4 * i + j))]) [0..<4] rk) [1..<n] rk ! (4 * k + d) =
    (if 1 \<le> k \<and> k < n then inv_mix_word (rk ! (4 * k + d)) else rk ! (4 * k + d))"
  using assms
proof (induction n)
  case (Suc n)
  show ?case
  proof (cases "n = 0")
    case False
    let ?F = "fold (\<lambda>i rk. fold (\<lambda>j rk. rk[4 * i + j := inv_mix_word (rk ! (4 * i + j))]) [0..<4] rk) [1..<n] rk"
    have "length ?F = length rk" "?F ! (4 * k + d) = (if 1 \<le> k \<and> k < n then inv_mix_word (rk ! (4 * k + d)) else rk ! (4 * k + d))"
      using Suc by auto
    then show ?thesis using inv_mix_group [of n ?F d 4 k] Suc.prems False by (auto simp: less_Suc_eq)
  qed auto
qed simp

lemma dec_schedule:
  assumes "rijndaelKeySetupEnc key bits = Some (rk, Nr)" "length rk = 4 * Nr + 4"
  obtains dk where "rijndaelKeySetupDec key bits = Some (dk, Nr)" "length dk = 4 * Nr + 4"
    "\<And>k. k \<le> Nr \<Longrightarrow> rk4 dk k = (if 1 \<le> k \<and> k < Nr then map4 inv_mix_word (rk4 rk (Nr - k)) else rk4 rk (Nr - k))"
proof -
  let ?v = "invert_loop rk 0 (4 * Nr)"
  let ?d = "fold (\<lambda>i rk. fold (\<lambda>j rk. rk[4 * i + j := inv_mix_word (rk ! (4 * i + j))]) [0..<4] rk) [1..<Nr] ?v"
  have v: "length ?v = length rk \<and> ?v ! (4 * k + d) = rk ! (4 * (Nr - k) + d)" if "k \<le> Nr" "d < 4" for k d
    using invert_loop_nth [of rk Nr 0 Nr d k] assms(2) that by simp
  have lv: "length ?v = length rk" using v [of 0 0] by simp
  have d: "?d ! (4 * k + d) = (if 1 \<le> k \<and> k < Nr then inv_mix_word (rk ! (4 * (Nr - k) + d)) else rk ! (4 * (Nr - k) + d))"
    if "k \<le> Nr" "d < 4" for k d
    using inv_mix_groups [of Nr ?v d k] v [OF that] that assms(2) by auto
  have "length ?d = 4 * Nr + 4" using inv_mix_groups [of Nr ?v 0 0] lv assms(2) by simp
  moreover have "rk4 ?d k = (if 1 \<le> k \<and> k < Nr then map4 inv_mix_word (rk4 rk (Nr - k)) else rk4 rk (Nr - k))" if "k \<le> Nr" for k
    using d [OF that, of 0] d [OF that, of 1] d [OF that, of 2] d [OF that, of 3] by (simp add: rk4_def map4_def)
  moreover have "rijndaelKeySetupDec key bits = Some (?d, Nr)" using assms(1) by (simp add: rijndaelKeySetupDec_def Let_def)
  ultimately show thesis by (intro that) auto
qed

lemma length_setup: "length (fold setup128_step [0..<10] (key_words key 4)) = 44"
  "length (fold setup192_step [0..<8] (key_words key 6)) = 52" "length (fold setup256_step [0..<7] (key_words key 8)) = 60"
proof -
  have 1: "length (setup128_step i rk) = length rk + 4" "length (setup192_step i rk) = length rk + (if i = 7 then 4 else 6)"
    "length (setup256_step i rk) = length rk + (if i = 6 then 4 else 8)" for i rk
    by (simp_all add: setup128_step_def setup192_step_def setup256_step_def Let_def)
  show "length (fold setup128_step [0..<10] (key_words key 4)) = 44"
    "length (fold setup192_step [0..<8] (key_words key 6)) = 52" "length (fold setup256_step [0..<7] (key_words key 8)) = 60"
    by (simp_all add: upt_rec 1 key_words_def)
qed

lemma setup_enc:
  assumes "rijndaelKeySetupEnc key bits = Some (rk, Nr)"
  shows "length rk = 4 * Nr + 4" "even Nr" "2 \<le> Nr"
  using assms length_setup [of key] by (auto simp: rijndaelKeySetupEnc_def split: if_splits)

lemma rijndael_inverse:
  assumes enc: "rijndaelKeySetupEnc key bits = Some (rk, Nr)" and "length pt = 16"
  shows "\<exists>dk. rijndaelKeySetupDec key bits = Some (dk, Nr) \<and> rijndaelDecrypt dk Nr (rijndaelEncrypt rk Nr pt) = pt"
proof -
  note s = setup_enc [OF enc]
  obtain dk where dk: "rijndaelKeySetupDec key bits = Some (dk, Nr)" "length dk = 4 * Nr + 4"
    "\<And>k. k \<le> Nr \<Longrightarrow> rk4 dk k = (if 1 \<le> k \<and> k < Nr then map4 inv_mix_word (rk4 rk (Nr - k)) else rk4 rk (Nr - k))"
    using dec_schedule [OF enc s(1)] by metis
  let ?ks = "map (rk4 rk) [1..<Nr]"
  have "map (rk4 dk) [1..<Nr] = map (map4 inv_mix_word) (rev ?ks)"
    by (rule nth_equalityI) (auto simp: dk(3) rev_nth Suc_diff_Suc)
  moreover have "rk4 dk 0 = rk4 rk Nr" "rk4 dk Nr = rk4 rk 0" using dk(3) [of 0] dk(3) [of Nr] s(3) by auto
  ultimately have "rijndaelDecrypt dk Nr (rijndaelEncrypt rk Nr pt) = pt"
    by (simp add: rijndaelDecrypt_eq [OF s(2,3) dk(2)] rijndaelEncrypt_eq [OF s(2,3,1)] get4_put4 dec_enc_rounds
        put4_get4 assms(2))
  then show ?thesis using dk(1) by blast
qed

end
