(* ===== verification/AesModesFacts.thy ===== *)
theory AesModesFacts
  imports AesModes
begin

text \<open>
  Properties of the modes for an arbitrary block cipher, and their instances for AES: unwrapping
  inverts wrapping and accepts nothing else, counter mode is its own inverse, CMAC on fragments is
  the CMAC of their concatenation, SIV decryption inverts SIV encryption.
\<close>

subsection \<open>Block ciphers\<close>

locale block_cipher =
  fixes einit :: "bytes \<Rightarrow> nat \<Rightarrow> 'c option" and enc :: "'c \<Rightarrow> bytes \<Rightarrow> bytes"
    and dinit :: "bytes \<Rightarrow> nat \<Rightarrow> 'd option" and dec :: "'d \<Rightarrow> bytes \<Rightarrow> bytes"
  assumes init_both: "einit k l = None \<longleftrightarrow> dinit k l = None"
    and enc_length: "einit k l = Some c \<Longrightarrow> length b = 16 \<Longrightarrow> length (enc c b) = 16"
    and dec_enc: "einit k l = Some c \<Longrightarrow> dinit k l = Some d \<Longrightarrow> length b = 16 \<Longrightarrow> dec d (enc c b) = b"
begin

text \<open>An injective function on the finitely many blocks is onto, so encryption inverts decryption too.\<close>

lemma enc_dec:
  assumes c: "einit k l = Some c" and d: "dinit k l = Some d" and b: "length b = 16"
  shows "enc c (dec d b) = b" "length (dec d b) = 16"
proof -
  let ?B = "{b :: bytes. length b = 16}"
  have "finite ?B" using finite_lists_length_eq [of "UNIV :: u8 set" 16] by simp
  moreover have "inj_on (enc c) ?B" using dec_enc [OF c d] by (intro inj_on_inverseI [of _ "dec d"]) simp
  moreover have "enc c ` ?B \<subseteq> ?B" using enc_length [OF c] by auto
  ultimately have "enc c ` ?B = ?B" by (intro endo_inj_surj)
  then obtain a where a: "length a = 16" "b = enc c a" using b by (metis (mono_tags, lifting) imageE mem_Collect_eq)
  then show "enc c (dec d b) = b" "length (dec d b) = 16" using dec_enc [OF c d] by simp_all
qed

end

lemma fold_inverse:
  assumes "\<And>x s. x \<in> set xs \<Longrightarrow> I s \<Longrightarrow> I (f x s) \<and> g x (f x s) = s" "I s"
  shows "I (fold f xs s) \<and> fold g (rev xs) (fold f xs s) = s"
  using assms
proof (induction xs arbitrary: s)
  case (Cons x xs)
  have "I (f x s)" "g x (f x s) = s" using Cons.prems by auto
  then show ?case using Cons.IH [of "f x s"] Cons.prems(1) by simp
qed simp

definition wrap_ok :: "nat \<Rightarrow> bytes \<times> bytes list \<Rightarrow> bool" where
  "wrap_ok n s \<longleftrightarrow> length (fst s) = 8 \<and> length (snd s) = n \<and> (\<forall>r \<in> set (snd s). length r = 8)"

lemma xor_t_xor_t [simp]: "length a = 8 \<Longrightarrow> xor_t (xor_t a t) t = a"
  by (simp add: xor_t_def)

lemma length_xor_t [simp]: "length a = 8 \<Longrightarrow> length (xor_t a t) = 8"
  by (simp add: xor_t_def)

lemma wrap_ok_upd: "wrap_ok n (a, r) \<Longrightarrow> length a' = 8 \<Longrightarrow> length x = 8 \<Longrightarrow> wrap_ok n (a', r[i := x])"
  by (auto simp: wrap_ok_def dest!: set_update_subset_insert [THEN subsetD])

lemma unwrap_wrap_step:
  assumes ed: "\<And>b. length b = 16 \<Longrightarrow> length (e b) = 16 \<and> d (e b) = b" and i: "i \<in> set [1..<n + 1]" and s: "wrap_ok n s"
  shows "wrap_ok n (wrap_step e n j i s) \<and> unwrap_step d n j i (wrap_step e n j i s) = s"
proof -
  obtain a r where sr: "s = (a, r)" by (cases s)
  have r: "length (r ! (i - 1)) = 8" "length a = 8" "i - 1 < length r"
    using i s by (auto simp: sr wrap_ok_def)
  then have b: "length (e (a @ r ! (i - 1))) = 16" "d (e (a @ r ! (i - 1))) = a @ r ! (i - 1)" using ed by auto
  then have "wrap_ok n (wrap_step e n j i s)"
    using s by (auto simp: wrap_step_def Let_def sr intro!: wrap_ok_upd [of n a])
  moreover have "unwrap_step d n j i (wrap_step e n j i s) = s"
    using r b by (simp add: wrap_step_def unwrap_step_def Let_def sr)
  ultimately show ?thesis by simp
qed

lemma wrap_unwrap_step:
  assumes ed: "\<And>b. length b = 16 \<Longrightarrow> length (d b) = 16 \<and> e (d b) = b" and i: "i \<in> set [1..<n + 1]" and s: "wrap_ok n s"
  shows "wrap_ok n (unwrap_step d n j i s) \<and> wrap_step e n j i (unwrap_step d n j i s) = s"
proof -
  obtain a r where sr: "s = (a, r)" by (cases s)
  let ?t = "word_of_nat (n * j + i)"
  have r: "length (r ! (i - 1)) = 8" "length a = 8" "i - 1 < length r"
    using i s by (auto simp: sr wrap_ok_def)
  then have b: "length (d (xor_t a ?t @ r ! (i - 1))) = 16" "e (d (xor_t a ?t @ r ! (i - 1))) = xor_t a ?t @ r ! (i - 1)"
    using ed by auto
  then have "wrap_ok n (unwrap_step d n j i s)"
    using s by (auto simp: unwrap_step_def Let_def sr intro!: wrap_ok_upd [of n a])
  moreover have "wrap_step e n j i (unwrap_step d n j i s) = s"
    using r b by (simp add: wrap_step_def unwrap_step_def Let_def sr)
  ultimately show ?thesis by simp
qed

lemma unwrap_wrap_all:
  assumes "\<And>b. length b = 16 \<Longrightarrow> length (e b) = 16 \<and> d (e b) = b" "wrap_ok n s"
  shows "wrap_ok n (wrap_all e n s) \<and> unwrap_all d n (wrap_all e n s) = s"
  unfolding wrap_all_def unwrap_all_def
  by (intro fold_inverse [of _ "wrap_ok n"] unwrap_wrap_step [OF assms(1)] assms(2))

lemma wrap_unwrap_all:
  assumes "\<And>b. length b = 16 \<Longrightarrow> length (d b) = 16 \<and> e (d b) = b" "wrap_ok n s"
  shows "wrap_ok n (unwrap_all d n s) \<and> wrap_all e n (unwrap_all d n s) = s"
proof -
  let ?w = "unwrap_all d n s"
  have "wrap_ok n ?w \<and> fold (\<lambda>j s. fold (\<lambda>i s. wrap_step e n j i s) (rev (rev [1..<n + 1])) s) (rev (rev [0..<6])) ?w = s"
    unfolding unwrap_all_def by (intro fold_inverse [of _ "wrap_ok n"] wrap_unwrap_step [OF assms(1)] assms(2)) simp_all
  then show ?thesis by (simp only: rev_rev_ident wrap_all_def)
qed

lemma concat_blocks8: "length b = 8 * n \<Longrightarrow> concat (blocks8 n b) = b"
proof (induction n arbitrary: b)
  case (Suc n)
  have "[0..<Suc n] = 0 # map Suc [0..<n]" by (simp add: upt_conv_Cons map_Suc_upt del: upt_Suc)
  then have "blocks8 (Suc n) b = take 8 b # blocks8 n (drop 8 b)"
    by (simp add: blocks8_def o_def add.commute del: upt_Suc)
  then show ?case using Suc by simp
qed (simp add: blocks8_def)

lemma blocks8_concat: "length r = n \<Longrightarrow> \<forall>x \<in> set r. length x = 8 \<Longrightarrow> blocks8 n (concat r) = r"
proof (induction r arbitrary: n)
  case (Cons x r)
  have "[0..<Suc (length r)] = 0 # map Suc [0..<length r]" by (simp add: upt_conv_Cons map_Suc_upt del: upt_Suc)
  then show ?case using Cons by (auto simp: blocks8_def o_def add.commute simp del: upt_Suc)
qed (simp add: blocks8_def)

lemma blocks8_ok: "length b = 8 * n \<Longrightarrow> length a = 8 \<Longrightarrow> wrap_ok n (a, blocks8 n b)"
  by (auto simp: wrap_ok_def blocks8_def)

subsection \<open>AES is a block cipher\<close>

lemma aes_length: "length (aes_encrypt c b) = 16"
  by (auto simp: aes_encrypt_def rijndaelEncrypt_def PUTU32_def split: prod.split)

interpretation aes: block_cipher aes_encrypt_init aes_encrypt aes_decrypt_init aes_decrypt
proof
  fix k l c d and b :: bytes
  show "aes_encrypt_init k l = None \<longleftrightarrow> aes_decrypt_init k l = None"
    by (auto simp: aes_encrypt_init_def aes_decrypt_init_def rijndaelKeySetupDec_def Let_def split: option.split)
  show "length (aes_encrypt c b) = 16" by (rule aes_length)
  assume i: "aes_encrypt_init k l = Some c" "aes_decrypt_init k l = Some d" "length b = 16"
  then show "aes_decrypt d (aes_encrypt c b) = b"
    using rijndael_inverse [of k "l * 8" "fst c" "snd c" b]
    by (auto simp: aes_encrypt_init_def aes_decrypt_init_def aes_encrypt_def aes_decrypt_def)
qed

subsection \<open>Counter mode and SIV\<close>

lemma ctr_loop_inverse:
  "(\<And>c. length (e c) = 16) \<Longrightarrow> ctr_loop e counter (ctr_loop e counter data) = data \<and>
     length (ctr_loop e counter data) = length data"
proof (induction "length data" arbitrary: counter data rule: less_induct)
  case less
  show ?case
  proof (cases "data = []")
    case False
    let ?n = "min (length data) 16" and ?c = "inc_counter counter"
    have IH: "ctr_loop e ?c (ctr_loop e ?c (drop ?n data)) = drop ?n data \<and>
        length (ctr_loop e ?c (drop ?n data)) = length (drop ?n data)"
      using False by (intro less.hyps less.prems) (cases data; simp)
    have u: "ctr_loop e counter x = xor_bytes (take (min (length x) 16) x) (take (min (length x) 16) (e counter)) @
        ctr_loop e ?c (drop (min (length x) 16) x)" if "x \<noteq> []" for x
      using that by (subst ctr_loop.simps) (simp add: Let_def)
    have l: "length (xor_bytes (take ?n data) (take ?n (e counter))) = ?n" using less.prems by simp
    have len: "length (ctr_loop e counter data) = length data" using IH l by (simp add: u [OF False])
    then have ne: "ctr_loop e counter data \<noteq> []" using False by auto
    have "ctr_loop e counter (ctr_loop e counter data) = data"
      using IH l less.prems by (simp add: u [OF ne] len) (simp add: u [OF False])
    then show ?thesis using len by simp
  qed (simp add: ctr_loop.simps)
qed

lemma ctr_inverse:
  assumes "aes_ctr_encrypt key l nonce data = Some c"
  shows "aes_ctr_encrypt key l nonce c = Some data" "length c = length data"
  using assms ctr_loop_inverse [OF aes_length] by (auto simp: aes_ctr_encrypt_def split: option.splits)

lemma omac_length: "omac1_aes_vector key l addr = Some (Some m) \<Longrightarrow> length m = 16"
  by (auto simp: omac1_aes_vector_def aes_length Let_def split: option.splits Option.bind_splits list.splits if_splits)

lemma s2v_length: "aes_s2v key l addr = Some (Some m) \<Longrightarrow> length m = 16"
  by (auto simp: aes_s2v_def omac_length split: option.splits Option.bind_splits if_splits)

lemma siv_inverse:
  assumes "aes_siv_encrypt key pw addr = Some (Some c)"
  shows "aes_siv_decrypt key c addr = Some (Some pw)"
proof -
  let ?k = "length key div 2"
  obtain v x where e: "length addr \<le> 5" "length key \<in> {32, 48, 64}" "aes_s2v (take ?k key) ?k (addr @ [pw]) = Some (Some v)"
      "aes_ctr_encrypt (drop ?k key) ?k (siv_ctr v) pw = Some x" "c = v @ x"
    using assms by (auto simp: aes_siv_encrypt_def Let_def split: if_splits Option.bind_splits option.splits)
  have v: "length v = 16" by (rule s2v_length [OF e(3)])
  show ?thesis using e(1-3) v ctr_inverse(1) [OF e(4)]
    by (simp add: aes_siv_decrypt_def e(5) Let_def)
qed

subsection \<open>CMAC\<close>

text \<open>RFC 4493: chaining over the blocks, the last block padded when it is not complete, one of two
  subkeys.\<close>

function cmac_chain :: "(bytes \<Rightarrow> bytes) \<Rightarrow> bytes \<Rightarrow> bytes \<Rightarrow> bytes \<times> bytes" where
  "cmac_chain e x m = (if length m \<le> 16 then (x, m) else cmac_chain e (e (xor_bytes x (take 16 m))) (drop 16 m))"
  by pat_completeness auto
termination
  by (relation "measure (\<lambda>(e, x, m). length m)") auto

declare cmac_chain.simps [simp del]

definition cmac :: "(bytes \<Rightarrow> bytes) \<Rightarrow> bytes \<Rightarrow> bytes" where
  "cmac e m =
     (let k1 = gf_mulx (e (replicate 16 0)); k2 = gf_mulx k1; (x, r) = cmac_chain e (replicate 16 0) m
      in if length r = 16 then e (xor_bytes k1 (xor_bytes x r))
         else e (xor_bytes k2 (xor_bytes x (r @ 0x80 # replicate (15 - length r) 0))))"

definition frags_ok :: "bytes \<Rightarrow> bytes list \<Rightarrow> bool" where
  "frags_ok cur rest \<longleftrightarrow> cur \<noteq> [] \<and> (\<forall>f \<in> set rest. f \<noteq> [])"

lemma omac_absorb_ok:
  assumes "frags_ok cur rest" "n \<le> length (cur @ concat rest)" "fin \<longleftrightarrow> n = length (cur @ concat rest)"
    "i + n \<le> length cbc"
  shows "\<exists>cur' rest'. omac_absorb i n fin cbc cur rest =
      Some (take i cbc @ xor_bytes (take n (drop i cbc)) (take n (cur @ concat rest)) @ drop (i + n) cbc, cur', rest') \<and>
    cur' @ concat rest' = drop n (cur @ concat rest) \<and> (n < length (cur @ concat rest) \<longrightarrow> frags_ok cur' rest')"
  using assms
proof (induction n arbitrary: i cbc cur rest)
  case (Suc n)
  obtain x xs where cur: "cur = x # xs" using Suc.prems(1) by (cases cur) (auto simp: frags_ok_def)
  let ?cbc = "cbc[i := cbc ! i XOR x]"
  have i: "i < length cbc" using Suc.prems(4) by simp
  have acc: "take (i + 1) ?cbc @ xor_bytes (take n (drop (i + 1) ?cbc)) y @ drop (i + 1 + n) ?cbc =
      take i cbc @ xor_bytes (take (Suc n) (drop i cbc)) (x # y) @ drop (i + Suc n) cbc" for y
    using i by (simp add: take_Suc_conv_app_nth xor_bytes_def Cons_nth_drop_Suc [symmetric] upd_conv_take_nth_drop add.commute)
  have step: ?case if st: "omac_absorb i (Suc n) fin cbc cur rest = omac_absorb (i + 1) n fin ?cbc c2 r2"
      and m: "cur @ concat rest = x # (c2 @ concat r2)" and ok: "frags_ok c2 r2" for c2 r2
  proof -
    have e: "take (Suc n) (cur @ concat rest) = x # take n (c2 @ concat r2)"
      "drop (Suc n) (cur @ concat rest) = drop n (c2 @ concat r2)"
      "Suc n < length (cur @ concat rest) \<longleftrightarrow> n < length (c2 @ concat r2)"
      unfolding m by simp_all
    have "\<exists>cur' rest'. omac_absorb (i + 1) n fin ?cbc c2 r2 =
        Some (take (i + 1) ?cbc @ xor_bytes (take n (drop (i + 1) ?cbc)) (take n (c2 @ concat r2)) @ drop (i + 1 + n) ?cbc, cur', rest') \<and>
      cur' @ concat rest' = drop n (c2 @ concat r2) \<and> (n < length (c2 @ concat r2) \<longrightarrow> frags_ok cur' rest')"
      using Suc.prems(2-4) unfolding m by (intro Suc.IH ok) auto
    then show ?thesis unfolding st e acc .
  qed
  show ?case
  proof (cases "xs = []")
    case True
    show ?thesis
    proof (cases "n = 0 \<and> fin")
      case True
      have "?cbc = take i cbc @ xor_bytes (take (Suc 0) (drop i cbc)) [x] @ drop (Suc i) cbc"
        using i by (simp add: upd_conv_take_nth_drop xor_bytes_def Cons_nth_drop_Suc [symmetric])
      then show ?thesis using True Suc.prems \<open>xs = []\<close> by (auto simp: cur)
    next
      case False
      then obtain f fs where rest: "rest = f # fs" using Suc.prems \<open>xs = []\<close> by (cases rest) (auto simp: cur)
      show ?thesis using False \<open>xs = []\<close> Suc.prems(1) by (intro step [of f fs]) (auto simp: cur rest Let_def frags_ok_def)
    qed
  next
    case False
    then show ?thesis using Suc.prems(1) by (intro step [of xs rest]) (auto simp: cur Let_def frags_ok_def)
  qed
qed (auto simp: xor_bytes_def)

lemma xor_bytes_full: "length a = 16 \<Longrightarrow> length b = 16 \<Longrightarrow>
    take 0 a @ xor_bytes (take 16 (drop 0 a)) (take 16 (b @ r)) @ drop (0 + 16) a = xor_bytes a b"
  by simp

lemma omac_loop_ok:
  assumes "frags_ok cur rest" "length x = 16" "\<And>c. length (e c) = 16"
  shows "\<exists>c rs. omac_loop e (length (cur @ concat rest)) x cur rest =
     (case cmac_chain e x (cur @ concat rest) of (y, r) \<Rightarrow>
        if length r = 16 then Some (0, xor_bytes y r, c, rs) else Some (length r, y, c, rs)) \<and>
     (case cmac_chain e x (cur @ concat rest) of (y, r) \<Rightarrow>
        length y = 16 \<and> length r \<le> 16 \<and> (length r \<noteq> 16 \<longrightarrow> c @ concat rs = r \<and> frags_ok c rs))"
  using assms(1,2)
proof (induction "length (cur @ concat rest)" arbitrary: x cur rest rule: less_induct)
  case less
  let ?m = "cur @ concat rest"
  show ?case
  proof (cases "length ?m < 16")
    case True
    then show ?thesis using less.prems by (subst omac_loop.simps; subst (1 2) cmac_chain.simps) auto
  next
    case False
    obtain c rs where ab: "omac_absorb 0 16 (length ?m = 16) x cur rest = Some (xor_bytes x (take 16 ?m), c, rs)"
        "c @ concat rs = drop 16 ?m" "16 < length ?m \<longrightarrow> frags_ok c rs"
      using omac_absorb_ok [of cur rest 16 "length ?m = 16" 0 x] less.prems False by auto
    show ?thesis
    proof (cases "length ?m = 16")
      case True
      have "omac_loop e (length ?m) x cur rest = omac_loop e 0 (xor_bytes x (take 16 ?m)) c rs"
        using ab(1) unfolding True by (subst omac_loop.simps) simp
      moreover have "omac_loop e 0 (xor_bytes x (take 16 ?m)) c rs = Some (0, xor_bytes x ?m, c, rs)"
        using True by (subst omac_loop.simps) simp
      moreover have "cmac_chain e x ?m = (x, ?m)" using True by (subst cmac_chain.simps) simp
      ultimately show ?thesis using True less.prems by simp
    next
      case gt: False
      let ?x = "e (xor_bytes x (take 16 ?m))"
      have "omac_loop e (length ?m) x cur rest = omac_loop e (length ?m - 16) ?x c rs"
        using ab(1) gt False by (subst omac_loop.simps) simp
      moreover have "length ?m - 16 = length (c @ concat rs)" unfolding ab(2) by (simp only: length_drop)
      moreover have "cmac_chain e x ?m = cmac_chain e ?x (c @ concat rs)"
        using gt False unfolding ab(2) by (simp add: cmac_chain.simps [of e x ?m])
      moreover have "\<exists>c' rs'. omac_loop e (length (c @ concat rs)) ?x c rs =
         (case cmac_chain e ?x (c @ concat rs) of (y, r) \<Rightarrow>
            if length r = 16 then Some (0, xor_bytes y r, c', rs') else Some (length r, y, c', rs')) \<and>
         (case cmac_chain e ?x (c @ concat rs) of (y, r) \<Rightarrow>
            length y = 16 \<and> length r \<le> 16 \<and> (length r \<noteq> 16 \<longrightarrow> c' @ concat rs' = r \<and> frags_ok c' rs'))"
        using ab(2,3) gt False assms(3) by (intro less.hyps) auto
      ultimately show ?thesis by simp
    qed
  qed
qed

lemma absorb_tail:
  assumes "length y = 16" "length r < 16"
  shows "(xor_bytes (take (length r) y) r @ drop (length r) y)
      [length r := (xor_bytes (take (length r) y) r @ drop (length r) y) ! length r XOR 0x80] =
    xor_bytes y (r @ 0x80 # replicate (15 - length r) 0)"
  using assms
  by (intro nth_equalityI) (auto simp: xor_bytes_def nth_append nth_list_update nth_Cons' not_less)

lemma omac1_cmac:
  assumes init: "aes_encrypt_init key l = Some ctx" and ne: "addr \<noteq> []"
    and ok: "(\<forall>f \<in> set addr. f \<noteq> []) \<or> concat addr = []"
  shows "omac1_aes_vector key l addr = Some (Some (cmac (aes_encrypt ctx) (concat addr)))"
proof -
  obtain cur rest where addr: "addr = cur # rest" using ne by (cases addr) auto
  let ?e = "aes_encrypt ctx" and ?m = "cur @ concat rest" and ?z = "replicate 16 (0 :: u8)"
  have tl: "sum_list (map length addr) = length ?m" by (simp add: addr length_concat)
  obtain y r where ch: "cmac_chain ?e ?z ?m = (y, r)" by (cases "cmac_chain ?e ?z ?m")
  show ?thesis
  proof (cases "?m = []")
    case True
    then have "cur = []" by simp
    moreover have "omac_loop ?e (length ?m) ?z cur rest = Some (0, ?z, cur, rest)"
      unfolding True by (simp add: omac_loop.simps)
    moreover have "cmac_chain ?e ?z ?m = (?z, [])" unfolding True by (simp add: cmac_chain.simps)
    moreover have "?z[0 := ?z ! 0 XOR 0x80] = xor_bytes ?z (0x80 # replicate 15 0)" by (simp add: xor_bytes_def numeral_eq_Suc)
    ultimately show ?thesis using True
      by (simp add: omac1_aes_vector_def init addr Let_def cmac_def length_concat)
  next
    case False
    then have f: "frags_ok cur rest" using ok by (auto simp: addr frags_ok_def)
    obtain c rs where lo: "omac_loop ?e (length ?m) ?z cur rest =
         (if length r = 16 then Some (0, xor_bytes y r, c, rs) else Some (length r, y, c, rs))"
        "length y = 16" "length r \<le> 16" "length r \<noteq> 16 \<Longrightarrow> c @ concat rs = r \<and> frags_ok c rs"
      using omac_loop_ok [OF f, of ?z ?e] aes_length [of ctx] unfolding ch prod.case
      by (elim meta_impE exE conjE) (auto intro: that)
    have len: "length ?m > 0" using False by simp
    show ?thesis
    proof (cases "length r = 16")
      case True
      then show ?thesis using lo(1) len tl
        by (auto simp: omac1_aes_vector_def init addr Let_def cmac_def ch)
    next
      case sh: False
      have r: "c @ concat rs = r" "frags_ok c rs" "length r < 16" using lo(3,4) sh by auto
      then have "length r \<noteq> 0" by (auto simp: frags_ok_def)
      obtain c' rs' where "omac_absorb 0 (length r) True y c rs =
          Some (xor_bytes (take (length r) y) r @ drop (length r) y, c', rs')"
        using omac_absorb_ok [OF r(2), of "length r" True 0 y] r lo(2) by auto
      then show ?thesis using lo(1) len tl sh \<open>length r \<noteq> 0\<close> absorb_tail [OF lo(2) r(3)]
        by (simp add: omac1_aes_vector_def init addr Let_def cmac_def ch)
    qed
  qed
qed

lemma omac_single:
  assumes "l \<in> {16, 24, 32}"
  shows "\<exists>m. omac1_aes_vector key l [a] = Some (Some m)"
proof -
  obtain ctx where "aes_encrypt_init key l = Some ctx"
    using assms by (auto simp: aes_encrypt_init_def rijndaelKeySetupEnc_def)
  then show ?thesis using omac1_cmac [of key l ctx "[a]"] by auto
qed

lemma s2v_loop_total:
  "l \<in> {16, 24, 32} \<Longrightarrow> addr \<noteq> [] \<Longrightarrow> \<exists>t x. s2v_loop key l tmp addr = Some (Some (t, x))"
proof (induction key l tmp addr rule: s2v_loop.induct)
  case (3 key l tmp a b addr)
  obtain m where "omac1_aes_vector key l [a] = Some (Some m)" using omac_single [OF 3(2)] by blast
  then show ?case using 3 by auto
qed auto

lemma s2v_total:
  assumes "l \<in> {16, 24, 32}"
  shows "\<exists>v. aes_s2v key l (addr @ [pw]) = Some (Some v)"
proof -
  obtain m where "omac1_aes_vector key l [replicate 16 0] = Some (Some m)" using omac_single [OF assms] by blast
  moreover obtain t x where "s2v_loop key l m (addr @ [pw]) = Some (Some (t, x))" using s2v_loop_total [OF assms] by blast
  ultimately show ?thesis using omac_single [OF assms] by (simp add: aes_s2v_def)
qed

subsection \<open>Properties\<close>

text \<open>C23: for every key of 16, 24 or 32 octets the table driven AES decryption, with its transformed key
  schedule, inverts the encryption.\<close>

theorem aes_decrypt_encrypt:
  assumes "len \<in> {16, 24, 32}" "length b = 16"
  shows "\<exists>c d. aes_encrypt_init key len = Some c \<and> aes_decrypt_init key len = Some d \<and>
    aes_decrypt d (aes_encrypt c b) = b \<and> aes_encrypt c (aes_decrypt d b) = b"
proof -
  obtain c where c: "aes_encrypt_init key len = Some c"
    using assms(1) by (auto simp: aes_encrypt_init_def rijndaelKeySetupEnc_def)
  obtain d where d: "aes_decrypt_init key len = Some d" using c aes.init_both [of key len] by auto
  show ?thesis using c d aes.dec_enc [OF c d assms(2)] aes.enc_dec [OF c d assms(2)] by auto
qed

theorem aes_decrypt_encrypt_witness:
  "\<exists>c d. aes_encrypt_init (replicate 16 1) 16 = Some c \<and> aes_decrypt_init (replicate 16 1) 16 = Some d \<and>
    aes_decrypt d (aes_encrypt c (replicate 16 2)) = replicate 16 2"
  using aes_decrypt_encrypt [of 16 "replicate 16 2" "replicate 16 1"] by auto

text \<open>C24: AES key unwrap accepts exactly the wrapped keys: for every key encryption key of a valid
  length, \<^verbatim>\<open>aes_unwrap\<close> returns a key if and only if the cipher text is what \<^verbatim>\<open>aes_wrap\<close> makes
  of that key.\<close>

theorem aes_unwrap_iff:
  assumes "kek_len \<in> {16, 24, 32}" "length plain = 8 * n" "length cipher = 8 * n + 8"
  shows "aes_unwrap kek kek_len n cipher = Some plain \<longleftrightarrow> aes_wrap kek kek_len n plain = Some cipher"
proof -
  obtain c where c: "aes_encrypt_init kek kek_len = Some c"
    using assms(1) by (auto simp: aes_encrypt_init_def rijndaelKeySetupEnc_def)
  obtain d where d: "aes_decrypt_init kek kek_len = Some d" using c aes.init_both [of kek kek_len] by auto
  let ?W = "wrap_all (aes_encrypt c) n" and ?U = "unwrap_all (aes_decrypt d) n"
  let ?p = "(replicate 8 0xa6, blocks8 n plain)" and ?c = "(take 8 cipher, blocks8 n (drop 8 cipher))"
  have pc: "wrap_ok n ?p" "wrap_ok n ?c" using assms(2,3) by (auto intro!: blocks8_ok)
  have UW: "wrap_ok n (?W s) \<and> ?U (?W s) = s" if "wrap_ok n s" for s
    using aes.dec_enc [OF c d] aes.enc_length [OF c] that by (intro unwrap_wrap_all) auto
  have WU: "wrap_ok n (?U s) \<and> ?W (?U s) = s" if "wrap_ok n s" for s
    using aes.enc_dec [OF c d] that by (intro wrap_unwrap_all) auto
  have w: "aes_wrap kek kek_len n plain = Some cipher \<longleftrightarrow> ?W ?p = ?c"
  proof -
    have "fst s @ concat (snd s) = cipher \<longleftrightarrow> s = ?c" if "wrap_ok n s" for s
      using that assms(3) concat_blocks8 [of "drop 8 cipher" n] blocks8_concat [of "snd s" n]
      by (cases s) (auto simp: wrap_ok_def)
    then show ?thesis using UW [OF pc(1)] by (simp add: aes_wrap_def c Let_def)
  qed
  have u: "aes_unwrap kek kek_len n cipher = Some plain \<longleftrightarrow> ?U ?c = ?p"
  proof -
    have "\<not> (\<exists>i \<in> set [0..<8]. fst s ! i \<noteq> 0xa6) \<and> concat (snd s) = plain \<longleftrightarrow> s = ?p" if "wrap_ok n s" for s
    proof -
      have "\<not> (\<exists>i \<in> set [0..<8]. fst s ! i \<noteq> 0xa6) \<longleftrightarrow> fst s = replicate 8 0xa6"
        using that by (auto simp: wrap_ok_def list_eq_iff_nth_eq)
      then show ?thesis
        using that assms(2) concat_blocks8 [of plain n] blocks8_concat [of "snd s" n] by (cases s) (auto simp: wrap_ok_def)
    qed
    from this [of "?U ?c"] show ?thesis using WU [OF pc(2)] by (auto simp: aes_unwrap_def d Let_def)
  qed
  show ?thesis unfolding w u using UW [OF pc(1)] WU [OF pc(2)] by metis
qed

theorem aes_unwrap_iff_witness:
  "aes_unwrap (replicate 16 0) 16 2 (replicate 24 0) = Some (replicate 16 0) \<longleftrightarrow>
   aes_wrap (replicate 16 0) 16 2 (replicate 16 0) = Some (replicate 24 0)"
  using aes_unwrap_iff [of 16 "replicate 16 0" 2 "replicate 24 0" "replicate 16 0"] by simp



text \<open>AES-SIV encryption succeeds for every valid key and at most five elements of associated data,
  and decryption with the same key and data returns the plain text.\<close>

theorem aes_siv_roundtrip:
  assumes "length key \<in> {32, 48, 64}" "length addr \<le> 5"
  shows "\<exists>c. aes_siv_encrypt key pw addr = Some (Some c) \<and> length c = length pw + 16 \<and>
    aes_siv_decrypt key c addr = Some (Some pw)"
proof -
  let ?k = "length key div 2"
  have k: "?k \<in> {16, 24, 32}" using assms(1) by auto
  obtain v where v: "aes_s2v (take ?k key) ?k (addr @ [pw]) = Some (Some v)" using s2v_total [OF k] by blast
  obtain x where x: "aes_ctr_encrypt (drop ?k key) ?k (siv_ctr v) pw = Some x"
    using k by (auto simp: aes_ctr_encrypt_def aes_encrypt_init_def rijndaelKeySetupEnc_def)
  have "aes_siv_encrypt key pw addr = Some (Some (v @ x))"
    using assms v x by (simp add: aes_siv_encrypt_def Let_def)
  then show ?thesis using siv_inverse s2v_length [OF v] ctr_inverse(2) [OF x] by auto
qed

theorem aes_siv_roundtrip_witness:
  "\<exists>c. aes_siv_encrypt (replicate 32 0) [1, 2] [[3]] = Some (Some c) \<and> length c = 18 \<and>
    aes_siv_decrypt (replicate 32 0) c [[3]] = Some (Some [1, 2])"
  using aes_siv_roundtrip [of "replicate 32 0" "[[3]]" "[1, 2]"] by simp

end
