(* ===== verification/Md5.thy ===== *)
theory Md5
  imports Sha1 HmacSuite
begin

text \<open>
  MD5 from \<^verbatim>\<open>src/crypto/md5-internal.c\<close>, HMAC-MD5 from \<^verbatim>\<open>src/crypto/md5.c\<close> and the RC4 stream cipher
  from \<^verbatim>\<open>src/crypto/rc4.c\<close>, which protect the EAPOL-Key frames of the first WPA version.  The streaming
  code, with its two word bit counter and its context buffer that holds whatever an earlier message
  left, computes the hash of RFC 1321.  The machine is little endian, so \<^verbatim>\<open>byteReverse\<close> is empty.  A copy
  outside of a buffer is the result \<open>None\<close>.
\<close>

subsection \<open>The transform\<close>

definition F1 :: "u32 \<Rightarrow> u32 \<Rightarrow> u32 \<Rightarrow> u32" where
  "F1 x y z = z XOR (x AND (y XOR z))"

definition F2 :: "u32 \<Rightarrow> u32 \<Rightarrow> u32 \<Rightarrow> u32" where
  "F2 x y z = F1 z x y"

definition F3 :: "u32 \<Rightarrow> u32 \<Rightarrow> u32 \<Rightarrow> u32" where
  "F3 x y z = x XOR y XOR z"

definition F4 :: "u32 \<Rightarrow> u32 \<Rightarrow> u32 \<Rightarrow> u32" where
  "F4 x y z = y XOR (x OR NOT z)"

text \<open>The 64 calls of \<^verbatim>\<open>MD5STEP\<close>: the word of the block, the constant and the rotation.  The four
  variables, which the code renames from one call to the next, rotate in the tuple.\<close>

type_synonym md5_vars = "u32 \<times> u32 \<times> u32 \<times> u32"

definition md5_steps :: "(nat \<times> u32 \<times> nat) list" where
  "md5_steps =
     [(0, 0xD76AA478, 7), (1, 0xE8C7B756, 12), (2, 0x242070DB, 17), (3, 0xC1BDCEEE, 22),
      (4, 0xF57C0FAF, 7), (5, 0x4787C62A, 12), (6, 0xA8304613, 17), (7, 0xFD469501, 22),
      (8, 0x698098D8, 7), (9, 0x8B44F7AF, 12), (10, 0xFFFF5BB1, 17), (11, 0x895CD7BE, 22),
      (12, 0x6B901122, 7), (13, 0xFD987193, 12), (14, 0xA679438E, 17), (15, 0x49B40821, 22),
      (1, 0xF61E2562, 5), (6, 0xC040B340, 9), (11, 0x265E5A51, 14), (0, 0xE9B6C7AA, 20),
      (5, 0xD62F105D, 5), (10, 0x02441453, 9), (15, 0xD8A1E681, 14), (4, 0xE7D3FBC8, 20),
      (9, 0x21E1CDE6, 5), (14, 0xC33707D6, 9), (3, 0xF4D50D87, 14), (8, 0x455A14ED, 20),
      (13, 0xA9E3E905, 5), (2, 0xFCEFA3F8, 9), (7, 0x676F02D9, 14), (12, 0x8D2A4C8A, 20),
      (5, 0xFFFA3942, 4), (8, 0x8771F681, 11), (11, 0x6D9D6122, 16), (14, 0xFDE5380C, 23),
      (1, 0xA4BEEA44, 4), (4, 0x4BDECFA9, 11), (7, 0xF6BB4B60, 16), (10, 0xBEBFBC70, 23),
      (13, 0x289B7EC6, 4), (0, 0xEAA127FA, 11), (3, 0xD4EF3085, 16), (6, 0x04881D05, 23),
      (9, 0xD9D4D039, 4), (12, 0xE6DB99E5, 11), (15, 0x1FA27CF8, 16), (2, 0xC4AC5665, 23),
      (0, 0xF4292244, 6), (7, 0x432AFF97, 10), (14, 0xAB9423A7, 15), (5, 0xFC93A039, 21),
      (12, 0x655B59C3, 6), (3, 0x8F0CCC92, 10), (10, 0xFFEFF47D, 15), (1, 0x85845DD1, 21),
      (8, 0x6FA87E4F, 6), (15, 0xFE2CE6E0, 10), (6, 0xA3014314, 15), (13, 0x4E0811A1, 21),
      (4, 0xF7537E82, 6), (11, 0xBD3AF235, 10), (2, 0x2AD7D2BB, 15), (9, 0xEB86D391, 21)]"

definition MD5STEP :: "u32 list \<Rightarrow> nat \<Rightarrow> md5_vars \<Rightarrow> md5_vars" where
  "MD5STEP inw i = (\<lambda>(w, x, y, z).
     let (k, t, s) = md5_steps ! i;
         f = (if i < 16 then F1 else if i < 32 then F2 else if i < 48 then F3 else F4);
         w = w + (f x y z + (inw ! k + t));
         w = push_bit s w OR drop_bit (32 - s) w;
         w = w + x
     in (z, w, x, y))"

definition MD5Transform :: "u32 list \<Rightarrow> bytes \<Rightarrow> u32 list" where
  "MD5Transform buf inb =
     (let inw = map (\<lambda>i. WPA_GET_LE32 (drop (4 * i) inb)) [0..<16];
          (a, b, c, d) = fold (MD5STEP inw) [0..<64] (buf ! 0, buf ! 1, buf ! 2, buf ! 3)
      in [buf ! 0 + a, buf ! 1 + b, buf ! 2 + c, buf ! 3 + d])"

subsection \<open>Init, update, final\<close>

record MD5Context =
  md5_buf :: "u32 list"
  md5_bits0 :: u32
  md5_bits1 :: u32
  md5_in :: bytes

definition md5_H0 :: "u32 list" where
  "md5_H0 = [0x67452301, 0xEFCDAB89, 0x98BADCFE, 0x10325476]"

definition MD5Init :: "MD5Context \<Rightarrow> MD5Context" where
  "MD5Init ctx = ctx\<lparr>md5_buf := md5_H0, md5_bits0 := 0, md5_bits1 := 0\<rparr>"

text \<open>The loop over the whole blocks; the context buffer, the rest of the data and its length.\<close>

function md5_blocks :: "u32 list \<Rightarrow> bytes \<Rightarrow> bytes \<Rightarrow> nat \<Rightarrow> (u32 list \<times> bytes \<times> bytes \<times> nat) option" where
  "md5_blocks st inb buf len =
     (if len \<ge> 64
      then if length buf < 64 then None
           else md5_blocks (MD5Transform st (take 64 buf)) (take 64 buf) (drop 64 buf) (len - 64)
      else Some (st, inb, buf, len))"
  by pat_completeness auto
termination
  by (relation "measure (\<lambda>(st, inb, buf, len). len)") auto

declare md5_blocks.simps [simp del]

text \<open>\<open>buf\<close> holds at least \<open>len\<close> octets.\<close>

definition MD5Update :: "MD5Context \<Rightarrow> bytes \<Rightarrow> u32 \<Rightarrow> MD5Context option" where
  "MD5Update ctx buf len =
     (let t = md5_bits0 ctx;
          b0 = t + push_bit 3 len;
          b1 = md5_bits1 ctx + (if b0 < t then 1 else 0) + drop_bit 29 len;
          ctx = ctx\<lparr>md5_bits0 := b0, md5_bits1 := b1\<rparr>;
          t = unat (drop_bit 3 t AND 0x3f)
      in if t \<noteq> 0 \<and> unat len < 64 - t then do {
           inb \<leftarrow> mem_copy (md5_in ctx) t (take (unat len) buf);
           Some (ctx\<lparr>md5_in := inb\<rparr>) }
         else do {
           (st, inb, buf, len) \<leftarrow>
             (if t \<noteq> 0 then do {
                inb \<leftarrow> mem_copy (md5_in ctx) t (take (64 - t) buf);
                Some (MD5Transform (md5_buf ctx) inb, inb, drop (64 - t) buf, unat len - (64 - t)) }
              else Some (md5_buf ctx, md5_in ctx, buf, unat len));
           (st, inb, buf, len) \<leftarrow> md5_blocks st inb buf len;
           inb \<leftarrow> mem_copy inb 0 (take len buf);
           Some (ctx\<lparr>md5_buf := st, md5_in := inb\<rparr>) })"

definition MD5Final :: "MD5Context \<Rightarrow> bytes option" where
  "MD5Final ctx = do {
     let count = unat (drop_bit 3 (md5_bits0 ctx) AND 0x3F);
     inb \<leftarrow> mem_copy (md5_in ctx) count [0x80];
     let p = count + 1;
     let count = 64 - 1 - count;
     (st, inb) \<leftarrow>
       (if count < 8 then do {
          inb \<leftarrow> mem_copy inb p (replicate count 0);
          let st = MD5Transform (md5_buf ctx) inb;
          inb \<leftarrow> mem_copy inb 0 (replicate 56 0);
          Some (st, inb) }
        else do {
          inb \<leftarrow> mem_copy inb p (replicate (count - 8) 0);
          Some (md5_buf ctx, inb) });
     inb \<leftarrow> mem_copy inb 56 (WPA_PUT_LE32 (md5_bits0 ctx) @ WPA_PUT_LE32 (md5_bits1 ctx));
     Some (concat (map WPA_PUT_LE32 (MD5Transform st inb))) }"

fun md5_update_all :: "MD5Context \<Rightarrow> bytes list \<Rightarrow> MD5Context option" where
  "md5_update_all ctx [] = Some ctx"
| "md5_update_all ctx (d # ds) = do {
     ctx \<leftarrow> MD5Update ctx d (word_of_nat (length d));
     md5_update_all ctx ds }"

definition md5_vector_ctx :: "MD5Context \<Rightarrow> bytes list \<Rightarrow> bytes option" where
  "md5_vector_ctx ctx elems = do {
     ctx \<leftarrow> md5_update_all (MD5Init ctx) elems;
     MD5Final ctx }"

definition md5_vector :: "bytes list \<Rightarrow> bytes option" where
  "md5_vector elems =
     md5_vector_ctx \<lparr>md5_buf = [], md5_bits0 = 0, md5_bits1 = 0, md5_in = replicate 64 0\<rparr> elems"

definition hmac_md5_vector :: "bytes \<Rightarrow> bytes list \<Rightarrow> bytes option" where
  "hmac_md5_vector key elems = hmac_vector md5_vector 64 key elems"

definition hmac_md5 :: "bytes \<Rightarrow> bytes \<Rightarrow> bytes option" where
  "hmac_md5 key data = hmac_md5_vector key [data]"

subsection \<open>RC4\<close>

definition S_SWAP :: "nat \<Rightarrow> nat \<Rightarrow> bytes \<Rightarrow> bytes" where
  "S_SWAP a b S = S[a := S ! b, b := S ! a]"

text \<open>The key schedule; the position in the key is \<open>i mod keylen\<close>.\<close>

definition rc4_setup :: "bytes \<Rightarrow> bytes" where
  "rc4_setup key =
     fst (fold (\<lambda>i (S, j). let j = (j + unat (S ! i) + unat (key ! (i mod length key))) mod 256 in (S_SWAP i j S, j))
            [0..<256] (map word_of_nat [0..<256], 0))"

definition rc4_next :: "nat \<times> nat \<times> bytes \<Rightarrow> nat \<times> nat \<times> bytes" where
  "rc4_next = (\<lambda>(i, j, S). let i = (i + 1) mod 256; j = (j + unat (S ! i)) mod 256 in (i, j, S_SWAP i j S))"

fun rc4_data :: "nat \<times> nat \<times> bytes \<Rightarrow> bytes \<Rightarrow> bytes" where
  "rc4_data st [] = []"
| "rc4_data st (d # ds) =
     (let (i, j, S) = rc4_next st
      in (d XOR S ! ((unat (S ! i) + unat (S ! j)) mod 256)) # rc4_data (i, j, S) ds)"

text \<open>Without a key the schedule reads outside of it.\<close>

definition rc4_skip :: "bytes \<Rightarrow> nat \<Rightarrow> bytes \<Rightarrow> bytes run" where
  "rc4_skip key skip data =
     (if key = [] then None
      else Some (rc4_data ((rc4_next ^^ skip) (0, 0, rc4_setup key)) data))"

subsection \<open>Specification\<close>

text \<open>RFC 1321: the auxiliary functions, the order of the words and the rotations of the four rounds.\<close>

definition md5_F :: "nat \<Rightarrow> u32 \<Rightarrow> u32 \<Rightarrow> u32 \<Rightarrow> u32" where
  "md5_F i x y z =
     (if i < 16 then (x AND y) OR (NOT x AND z)
      else if i < 32 then (x AND z) OR (y AND NOT z)
      else if i < 48 then x XOR y XOR z
      else y XOR (x OR NOT z))"

definition md5_k :: "nat \<Rightarrow> nat" where
  "md5_k i = (if i < 16 then i else if i < 32 then (5 * i + 1) mod 16
              else if i < 48 then (3 * i + 5) mod 16 else (7 * i) mod 16)"

definition md5_s :: "nat \<Rightarrow> nat" where
  "md5_s i = [[7, 12, 17, 22], [5, 9, 14, 20], [4, 11, 16, 23], [6, 10, 15, 21]] ! (i div 16) ! (i mod 4)"

definition md5_op :: "bytes \<Rightarrow> nat \<Rightarrow> md5_vars \<Rightarrow> md5_vars" where
  "md5_op bs i = (\<lambda>(a, b, c, d).
     (d, b + word_rotl (md5_s i) (a + md5_F i b c d + WPA_GET_LE32 (drop (4 * md5_k i) bs) + fst (snd (md5_steps ! i))),
      b, c))"

definition md5_compress :: "u32 list \<Rightarrow> bytes \<Rightarrow> u32 list" where
  "md5_compress H bs =
     (let (a, b, c, d) = fold (md5_op bs) [0..<64] (H ! 0, H ! 1, H ! 2, H ! 3)
      in [H ! 0 + a, H ! 1 + b, H ! 2 + c, H ! 3 + d])"

text \<open>The padding: the bit count is two words, the low order word first.\<close>

definition md5_pad :: "bytes \<Rightarrow> bytes" where
  "md5_pad m = m @ [0x80] @ replicate ((119 - length m mod 64) mod 64) 0 @
     WPA_PUT_LE32 (word_of_nat (8 * length m)) @ WPA_PUT_LE32 (word_of_nat (8 * length m div 2 ^ 32))"

definition md5 :: "bytes \<Rightarrow> bytes" where
  "md5 m = concat (map WPA_PUT_LE32 (md_fold 64 md5_compress md5_H0 (md5_pad m)))"

subsection \<open>The transform is the one of the RFC\<close>

lemma md5_table: "i < 64 \<Longrightarrow> md5_steps ! i = (md5_k i, fst (snd (md5_steps ! i)), md5_s i) \<and> 0 < md5_s i \<and> md5_s i < 32 \<and> md5_k i < 16"
proof -
  assume i: "i < 64"
  have "list_all (\<lambda>i. fst (md5_steps ! i) = md5_k i \<and> snd (snd (md5_steps ! i)) = md5_s i \<and>
      0 < md5_s i \<and> md5_s i < 32 \<and> md5_k i < 16) [0..<64]"
    by (simp add: upt_rec md5_steps_def md5_k_def md5_s_def)
  with i show ?thesis by (auto simp: list_all_iff prod_eq_iff)
qed

lemma md5_F_code:
  "i < 16 \<Longrightarrow> F1 x y z = md5_F i x y z"
  "16 \<le> i \<Longrightarrow> i < 32 \<Longrightarrow> F2 x y z = md5_F i x y z"
  by (auto simp: md5_F_def F1_def F2_def bit_simps intro!: bit_word_eqI)

lemma MD5STEP_eq:
  assumes "i < 64"
  shows "MD5STEP (map (\<lambda>i. WPA_GET_LE32 (drop (4 * i) bs)) [0..<16]) i = md5_op bs i"
proof (rule ext)
  fix v :: md5_vars
  obtain a b c d where v: "v = (a, b, c, d)" by (cases v) auto
  note t = md5_table [OF assms]
  have f: "(if i < 16 then F1 else if i < 32 then F2 else if i < 48 then F3 else F4) b c d = md5_F i b c d"
    using md5_F_code [of i b c d] assms by (auto simp: F3_def F4_def) (simp_all add: md5_F_def)
  have rot: "push_bit (md5_s i) x OR drop_bit (32 - md5_s i) x = word_rotl (md5_s i) x" for x :: u32
    using rol_rotl [of "md5_s i" x] t by (simp add: rol_def fips_rotl_def)
  obtain T where "md5_steps ! i = (md5_k i, T, md5_s i)" "md5_k i < 16" using t by (metis prod.collapse fst_conv snd_conv)
  then show "MD5STEP (map (\<lambda>i. WPA_GET_LE32 (drop (4 * i) bs)) [0..<16]) i v = md5_op bs i v"
    unfolding v MD5STEP_def md5_op_def by (simp add: f rot Let_def case_prod_beta algebra_simps del: upt_rec_numeral)
qed

lemma MD5Transform_eq: "MD5Transform st bs = md5_compress st bs"
proof -
  have "fold (MD5STEP (map (\<lambda>i. WPA_GET_LE32 (drop (4 * i) bs)) [0..<16])) [0..<64] v = fold (md5_op bs) [0..<64] v" for v
    by (rule fold_cong) (auto simp: MD5STEP_eq)
  then show ?thesis unfolding MD5Transform_def md5_compress_def Let_def by (simp only:)
qed

subsection \<open>The streaming code computes the specification\<close>

definition md5_count :: "MD5Context \<Rightarrow> nat" where
  "md5_count ctx = unat (md5_bits1 ctx) * 2 ^ 32 + unat (md5_bits0 ctx)"

text \<open>The carry that MD5 finds by comparing with the old count is the one that SHA-1 finds by
  comparing with the addend.\<close>

lemma carry_sym: "a + b < a \<longleftrightarrow> a + b < b" for a b :: u32
proof -
  define x y where "x = unat a" and "y = unat b"
  have lt: "x < 2 ^ 32" "y < 2 ^ 32" using unsigned_less [of a] unsigned_less [of b] by (simp_all add: x_def y_def)
  have "unat (a + b) = (x + y) mod 2 ^ 32" by (simp add: x_def y_def unat_word_ariths)
  also have "\<dots> = (if x + y < 2 ^ 32 then x + y else x + y - 2 ^ 32)"
    using lt le_mod_geq [of "2 ^ 32" "x + y"] by auto
  finally show ?thesis unfolding word_less_nat_alt x_def [symmetric] y_def [symmetric]
    using lt by (auto split: if_splits)
qed

definition md5_repr :: "MD5Context \<Rightarrow> bytes \<Rightarrow> bool" where
  "md5_repr ctx m \<longleftrightarrow>
     (\<exists>f t. m = f @ t \<and> 64 dvd length f \<and> length t < 64 \<and>
        md5_buf ctx = md_fold 64 md5_compress md5_H0 f \<and>
        length (md5_in ctx) = 64 \<and> take (length t) (md5_in ctx) = t) \<and>
     md5_count ctx = (8 * length m) mod 2 ^ 64"

lemma md5_reprI:
  "m = f @ t \<Longrightarrow> 64 dvd length f \<Longrightarrow> length t < 64 \<Longrightarrow> md5_buf ctx = md_fold 64 md5_compress md5_H0 f \<Longrightarrow>
   length (md5_in ctx) = 64 \<Longrightarrow> take (length t) (md5_in ctx) = t \<Longrightarrow> md5_count ctx = (8 * length m) mod 2 ^ 64 \<Longrightarrow>
   md5_repr ctx m"
  unfolding md5_repr_def by blast

lemma md5_repr_init: "length (md5_in ctx) = 64 \<Longrightarrow> md5_repr (MD5Init ctx) []"
  by (simp add: md5_repr_def MD5Init_def md5_count_def md_fold_short)

lemma md5_fill:
  assumes "md5_count ctx = (8 * n) mod 2 ^ 64"
  shows "unat (drop_bit 3 (md5_bits0 ctx) AND 63) = n mod 64"
  using sha1_fill(1) [of "\<lparr>sc_state = [], sc_count0 = md5_bits0 ctx, sc_count1 = md5_bits1 ctx, sc_buffer = []\<rparr>" n] assms
  by (simp add: sha1_count_def md5_count_def)

lemma md5_blocks_eq:
  assumes "length buf = len"
  shows "\<exists>inb'. md5_blocks st inb buf len =
      Some (md_fold 64 md5_compress st buf, inb', drop (64 * (len div 64)) buf, len mod 64) \<and>
      (length inb = 64 \<longrightarrow> length inb' = 64)"
  using assms
proof (induction st inb buf len rule: md5_blocks.induct)
  case (1 st inb buf len)
  show ?case
  proof (cases "64 \<le> len")
    case True
    with 1 have "\<exists>inb'. md5_blocks (MD5Transform st (take 64 buf)) (take 64 buf) (drop 64 buf) (len - 64) =
      Some (md_fold 64 md5_compress (MD5Transform st (take 64 buf)) (drop 64 buf), inb',
        drop (64 * ((len - 64) div 64)) (drop 64 buf), (len - 64) mod 64) \<and> length inb' = 64"
      by fastforce
    moreover have "md_fold 64 md5_compress st buf = md_fold 64 md5_compress (MD5Transform st (take 64 buf)) (drop 64 buf)"
      using True 1(2) by (subst md_fold.simps) (simp add: MD5Transform_eq)
    moreover have "len div 64 = Suc ((len - 64) div 64)" "(len - 64) mod 64 = len mod 64"
      using True by (simp_all add: le_div_geq le_mod_geq)
    ultimately show ?thesis using True 1(2) by (subst md5_blocks.simps) (auto simp: add.commute)
  next
    case False
    then show ?thesis using 1(2) by (subst md5_blocks.simps) (simp add: md_fold_short)
  qed
qed

lemma MD5Update_repr:
  assumes r: "md5_repr ctx m" and len: "length data < 2 ^ 32"
  shows "\<exists>ctx'. MD5Update ctx data (word_of_nat (length data)) = Some ctx' \<and> md5_repr ctx' (m @ data)"
proof -
  from r obtain f t where m: "m = f @ t" "64 dvd length f" "length t < 64"
    "md5_buf ctx = md_fold 64 md5_compress md5_H0 f" "length (md5_in ctx) = 64"
    "take (length t) (md5_in ctx) = t" and cnt: "md5_count ctx = (8 * length m) mod 2 ^ 64"
    unfolding md5_repr_def by blast
  define n where "n = length data"
  define j where "j = length t"
  have ulen: "unat (word_of_nat n :: u32) = n" using len by (simp add: n_def unat_of_nat)
  have "length m mod 64 = j" using m by (auto simp: j_def elim!: dvdE)
  then have j: "unat (drop_bit 3 (md5_bits0 ctx) AND 63) = j" using md5_fill [OF cnt] by simp
  define c1 where "c1 = ctx\<lparr>md5_bits0 := md5_bits0 ctx + push_bit 3 (word_of_nat n),
      md5_bits1 := md5_bits1 ctx + (if md5_bits0 ctx + push_bit 3 (word_of_nat n) < md5_bits0 ctx then 1 else 0) +
        drop_bit 29 (word_of_nat n)\<rparr>"
  have c1: "md5_in c1 = md5_in ctx" "md5_buf c1 = md5_buf ctx" by (simp_all add: c1_def)
  have "md5_count c1 = (md5_count ctx + 8 * n) mod 2 ^ 64"
    using sha1_count_add [of "md5_bits1 ctx" "md5_bits0 ctx" "word_of_nat n"]
    by (simp add: md5_count_def c1_def ulen carry_sym [of "md5_bits0 ctx"] cong: if_cong)
  then have cnt1: "md5_count (c1\<lparr>md5_buf := st, md5_in := b\<rparr>) = (8 * length (m @ data)) mod 2 ^ 64"
    "md5_count (c1\<lparr>md5_in := b\<rparr>) = (8 * length (m @ data)) mod 2 ^ 64" for st b
    unfolding cnt by (simp_all add: md5_count_def n_def mod_simps algebra_simps)
  show ?thesis
  proof (cases "j \<noteq> 0 \<and> n < 64 - j")
    case True
    then have "j + length data \<le> 64" by (auto simp: n_def)
    then have "MD5Update ctx data (word_of_nat n) =
        Some (c1\<lparr>md5_in := take j (md5_in ctx) @ data @ drop (j + n) (md5_in ctx)\<rparr>)"
      unfolding MD5Update_def Let_def j ulen using True m(5) by (simp add: mem_copy_def c1_def n_def)
    moreover have "md5_repr (c1\<lparr>md5_in := take j (md5_in ctx) @ data @ drop (j + n) (md5_in ctx)\<rparr>) (m @ data)"
      using m True \<open>j + length data \<le> 64\<close>
      by (intro md5_reprI [of _ f "t @ data"] cnt1) (auto simp: j_def n_def c1_def)
    ultimately show ?thesis unfolding n_def by blast
  next
    case False
    define i where "i = (if j = 0 then 0 else 64 - j)"
    define g where "g = t @ take i data"
    define r where "r = drop i data"
    have i: "i \<le> n" using False by (auto simp: i_def)
    have g: "64 dvd length g" "m @ data = f @ g @ r" "length r = n - i"
      using i m(1,3) by (auto simp: g_def i_def j_def n_def r_def)
    define st where "st = md_fold 64 md5_compress (md5_buf ctx) g"
    have "\<exists>inb. length inb = 64 \<and>
      (if j \<noteq> 0 then do {
                inb \<leftarrow> mem_copy (md5_in ctx) j (take (64 - j) data);
                Some (MD5Transform (md5_buf ctx) inb, inb, drop (64 - j) data, n - (64 - j)) }
              else Some (md5_buf ctx, md5_in ctx, data, n)) = Some (st, inb, r, length r)"
    proof (cases "j = 0")
      case True
      then show ?thesis using m(5) g(3) by (simp add: st_def g_def i_def j_def r_def md_fold_short)
    next
      case j0: False
      have lg: "length g = 64" using i m(3) j0 by (simp add: g_def i_def j_def n_def)
      have "mem_copy (md5_in ctx) j (take (64 - j) data) = Some g"
        using i m(3,5,6) j0 by (simp add: mem_copy_def g_def i_def j_def n_def)
      moreover have "st = MD5Transform (md5_buf ctx) g"
        using md_fold_block [OF lg, of md5_compress "md5_buf ctx" "[]"]
        by (simp add: st_def MD5Transform_eq md_fold_short)
      ultimately show ?thesis using j0 lg g(3) by (simp add: i_def r_def)
    qed
    then obtain inb where inb: "length inb = 64"
      "(if j \<noteq> 0 then do {
                inb \<leftarrow> mem_copy (md5_in ctx) j (take (64 - j) data);
                Some (MD5Transform (md5_buf ctx) inb, inb, drop (64 - j) data, n - (64 - j)) }
              else Some (md5_buf ctx, md5_in ctx, data, n)) = Some (st, inb, r, length r)" by blast
    define k where "k = 64 * (length r div 64)"
    have k: "k \<le> length r" "length r mod 64 = length (drop k r)" "64 dvd length (take k r)"
      by (simp_all add: k_def minus_mult_div_eq_mod)
    obtain inb' where b: "md5_blocks st inb r (length r) =
        Some (md_fold 64 md5_compress st r, inb', drop k r, length (drop k r))" and b': "length inb' = 64"
      using md5_blocks_eq [of r "length r" st inb] inb(1) unfolding k(2) k_def by blast
    have lt: "length (drop k r) < 64" unfolding k(2) [symmetric] by simp
    have copy: "mem_copy inb' 0 (drop k r) = Some (drop k r @ drop (length (drop k r)) inb')"
      using lt b' by (simp add: mem_copy_def)
    have res: "MD5Update ctx data (word_of_nat n) = Some (c1\<lparr>md5_buf := md_fold 64 md5_compress st r,
        md5_in := drop k r @ drop (length (drop k r)) inb'\<rparr>)"
      unfolding MD5Update_def Let_def j ulen c1_def [symmetric] c1 if_not_P [OF False] inb(2)
      by (simp add: b copy del: length_drop)
    have "md_fold 64 md5_compress st r = md_fold 64 md5_compress md5_H0 (f @ g @ take k r)"
    proof -
      have "md_fold 64 md5_compress st r = md_fold 64 md5_compress st (take k r @ drop k r)" by simp
      also have "\<dots> = md_fold 64 md5_compress st (take k r)"
        unfolding md_fold_append [OF k(3)] using lt by (rule md_fold_short)
      also have "\<dots> = md_fold 64 md5_compress md5_H0 (f @ g @ take k r)"
        unfolding st_def m(4) md_fold_append [OF m(2)] md_fold_append [OF g(1)] ..
      finally show ?thesis .
    qed
    moreover have "64 dvd length (f @ g @ take k r)" using m(2) g(1) k(3) by simp
    moreover have "m @ data = (f @ g @ take k r) @ drop k r" using g(2) by simp
    ultimately have "md5_repr (c1\<lparr>md5_buf := md_fold 64 md5_compress st r,
        md5_in := drop k r @ drop (length (drop k r)) inb'\<rparr>) (m @ data)"
      using lt b' by (intro md5_reprI [of _ "f @ g @ take k r" "drop k r"] cnt1) (simp_all, linarith?)
    with res show ?thesis unfolding n_def by blast
  qed
qed

lemma md5_update_all_repr:
  assumes "md5_repr ctx m" and "\<forall>d \<in> set ds. length d < 2 ^ 32"
  shows "\<exists>ctx'. md5_update_all ctx ds = Some ctx' \<and> md5_repr ctx' (m @ concat ds)"
  using assms
proof (induction ds arbitrary: ctx m)
  case (Cons d ds)
  from MD5Update_repr [OF Cons.prems(1), of d] Cons.prems(2) obtain ctx1 where
    "MD5Update ctx d (word_of_nat (length d)) = Some ctx1" "md5_repr ctx1 (m @ d)" by auto
  with Cons.IH [of ctx1 "m @ d"] Cons.prems(2) show ?case by simp
qed simp

lemma mem_copy_Some: "off + length d \<le> length b \<Longrightarrow> mem_copy b off d = Some (take off b @ d @ drop (off + length d) b)"
  by (simp add: mem_copy_def)

lemma md5_count_words:
  assumes "md5_count ctx = (8 * n) mod 2 ^ 64"
  shows "md5_bits0 ctx = word_of_nat (8 * n)" and "md5_bits1 ctx = word_of_nat (8 * n div 2 ^ 32)"
proof -
  have lt: "unat (md5_bits0 ctx) < 2 ^ 32" using unsigned_less [of "md5_bits0 ctx"] by simp
  then have "unat (md5_bits0 ctx) = md5_count ctx mod 2 ^ 32" by (simp add: md5_count_def)
  also have "\<dots> = (8 * n) mod 2 ^ 32" unfolding assms by (simp add: mod_mod_cancel)
  also have "\<dots> = unat (word_of_nat (8 * n) :: u32)" by (simp only: unat_of_nat) simp
  finally show "md5_bits0 ctx = word_of_nat (8 * n)" by (simp only: word_unat_eq_iff)
  have "unat (md5_bits1 ctx) = md5_count ctx div 2 ^ 32" using lt by (simp add: md5_count_def)
  also have "\<dots> = (8 * n div 2 ^ 32) mod 2 ^ 32"
    unfolding assms using mod_mult2_eq [of "8 * n" "2 ^ 32" "2 ^ 32"] by simp
  also have "\<dots> = unat (word_of_nat (8 * n div 2 ^ 32) :: u32)" by (simp only: unat_of_nat) simp
  finally show "md5_bits1 ctx = word_of_nat (8 * n div 2 ^ 32)" by (simp only: word_unat_eq_iff)
qed

lemma length_md5_state: "length (md_fold 64 md5_compress md5_H0 m) = 4"
  by (rule md_fold_inv) (simp_all add: md5_H0_def md5_compress_def Let_def case_prod_beta)

lemma MD5Final_repr:
  assumes r: "md5_repr ctx m"
  shows "MD5Final ctx = Some (md5 m)"
proof -
  from r obtain f t where m: "m = f @ t" "64 dvd length f" "length t < 64"
    "md5_buf ctx = md_fold 64 md5_compress md5_H0 f" "length (md5_in ctx) = 64"
    "take (length t) (md5_in ctx) = t" and cnt: "md5_count ctx = (8 * length m) mod 2 ^ 64"
    unfolding md5_repr_def by blast
  define c where "c = length t"
  have mc: "length m mod 64 = c" using m by (auto simp: c_def elim!: dvdE)
  define L where "L = WPA_PUT_LE32 (word_of_nat (8 * length m)) @ WPA_PUT_LE32 (word_of_nat (8 * length m div 2 ^ 32))"
  have L: "WPA_PUT_LE32 (md5_bits0 ctx) @ WPA_PUT_LE32 (md5_bits1 ctx) = L" "length L = 8"
    unfolding L_def md5_count_words [OF cnt] by (simp_all add: len_simps)
  have cp: "mem_copy (md5_in ctx) c [0x80] = Some (t @ 0x80 # drop (c + 1) (md5_in ctx))"
    using m(3,5,6) by (simp add: mem_copy_Some c_def)
  show ?thesis
  proof (cases "63 - c < 8")
    case True
    define b where "b = t @ 0x80 # replicate (63 - c) 0"
    define e where "e = replicate 56 0 @ L"
    have lens: "length b = 64" "length e = 64" using m(3) L(2) by (simp_all add: b_def e_def c_def)
    have "mem_copy (t @ 0x80 # drop (c + 1) (md5_in ctx)) (c + 1) (replicate (63 - c) 0) = Some b"
      using m(3,5) by (simp add: mem_copy_Some b_def c_def)
    moreover have "mem_copy b 0 (replicate 56 0) = Some (replicate 56 0 @ drop 56 b)"
      using lens by (simp add: mem_copy_Some)
    moreover have "mem_copy (replicate 56 0 @ drop 56 b) 56 L = Some e"
      using lens L(2) by (simp add: mem_copy_Some e_def)
    ultimately have "MD5Final ctx = Some (concat (map WPA_PUT_LE32 (MD5Transform (MD5Transform (md5_buf ctx) b) e)))"
      unfolding MD5Final_def md5_fill [OF cnt] mc L(1) using cp True by (simp add: Let_def)
    moreover have "(119 - c) mod 64 = (63 - c) + 56" using True m(3) by (simp add: c_def)
    then have "md5_pad m = f @ b @ e"
      unfolding md5_pad_def mc L_def [symmetric] by (simp only: m(1) b_def e_def replicate_add) simp
    moreover have "md_fold 64 md5_compress md5_H0 (f @ b @ e) = md5_compress (md5_compress (md5_buf ctx) b) e"
    proof -
      have "64 dvd length (f @ b)" using m(2) lens by simp
      from md_fold_snoc_block [OF this lens(2), of md5_compress md5_H0] show ?thesis
        using md_fold_snoc_block [OF m(2) lens(1), of md5_compress md5_H0] m(4) by simp
    qed
    ultimately show ?thesis by (simp add: md5_def MD5Transform_eq)
  next
    case False
    define b where "b = t @ 0x80 # replicate (55 - c) 0 @ L"
    have pos: "56 - length t = Suc (55 - length t)" using False by (simp add: c_def)
    have lb: "length b = 64" using False L(2) by (simp add: b_def c_def)
    have "mem_copy (t @ 0x80 # drop (c + 1) (md5_in ctx)) (c + 1) (replicate (63 - c - 8) 0) =
        Some (t @ 0x80 # replicate (55 - c) 0 @ drop 56 (md5_in ctx))"
      using m(3,5) False pos by (simp add: mem_copy_Some c_def)
    moreover have "mem_copy (t @ 0x80 # replicate (55 - c) 0 @ drop 56 (md5_in ctx)) 56 L = Some b"
      using m(3,5) False L(2) pos by (simp add: mem_copy_Some b_def c_def)
    ultimately have "MD5Final ctx = Some (concat (map WPA_PUT_LE32 (MD5Transform (md5_buf ctx) b)))"
      unfolding MD5Final_def md5_fill [OF cnt] mc L(1) using cp False by (simp add: Let_def)
    moreover have "(119 - c) mod 64 = 55 - c"
      using False mod_add_self2 [of "55 - c" 64] by simp
    then have "md5_pad m = f @ b"
      unfolding md5_pad_def mc L_def [symmetric] by (simp add: m(1) b_def)
    moreover have "md_fold 64 md5_compress md5_H0 (f @ b) = md5_compress (md5_buf ctx) b"
      using md_fold_snoc_block [OF m(2) lb, of md5_compress md5_H0] m(4) by simp
    ultimately show ?thesis by (simp add: md5_def MD5Transform_eq)
  qed
qed

lemma length_md5 [simp, len_simps]: "length (md5 m) = 16"
  by (simp add: md5_def length_md5_state length_concat comp_def len_simps sum_list_triv)

text \<open>The length of a fragment is a 32 bit number in \<^verbatim>\<open>MD5Update\<close>.\<close>

definition md5_small :: "bytes \<Rightarrow> bool" where
  "md5_small d \<longleftrightarrow> length d < 2 ^ 32"

lemma md5_vector_ctx_eq:
  assumes "length (md5_in ctx) = 64" and "list_all md5_small elems"
  shows "md5_vector_ctx ctx elems = Some (md5 (concat elems))"
  using md5_update_all_repr [OF md5_repr_init [OF assms(1)], of elems] assms(2) MD5Final_repr
  by (auto simp: md5_vector_ctx_def list_all_iff md5_small_def)

lemma md5_vector_eq: "list_all md5_small elems \<Longrightarrow> md5_vector elems = Some (md5 (concat elems))"
  unfolding md5_vector_def by (rule md5_vector_ctx_eq) simp_all

lemma hmac_md5_vector_eq:
  assumes "length elems \<le> 5" "length key \<le> 64" "list_all md5_small elems"
  shows "hmac_md5_vector key elems = Some (hmac md5 64 key (concat elems))"
  using assms
  by (simp add: hmac_md5_vector_def hmac_vector_def hmac_def Let_def md5_vector_eq hmac_k_pad_def md5_small_def)

lemma hmac_md5_eq: "length key \<le> 64 \<Longrightarrow> md5_small data \<Longrightarrow> hmac_md5 key data = Some (hmac md5 64 key data)"
  by (simp add: hmac_md5_def hmac_md5_vector_eq)

text \<open>C40: whatever the uninitialised context holds and however the message is split into fragments, the
  MD5 code returns the RFC 1321 hash of the concatenation.\<close>

theorem md5_vector_correct:
  assumes "length (md5_in ctx) = 64" and "list_all md5_small elems"
  shows "md5_vector_ctx ctx elems = Some (md5 (concat elems)) \<and> length (md5 (concat elems)) = 16"
  using md5_vector_ctx_eq [OF assms] by simp

theorem md5_vector_correct_witness:
  "md5_vector_ctx \<lparr>md5_buf = [1], md5_bits0 = 5, md5_bits1 = 9, md5_in = replicate 64 3\<rparr>
     [[1, 2], [], [3]] = Some (md5 [1, 2, 3])"
  using md5_vector_correct [of
      "\<lparr>md5_buf = [1], md5_bits0 = 5, md5_bits1 = 9, md5_in = replicate 64 3\<rparr>" "[[1, 2], [], [3]]"]
  by (simp add: md5_small_def)

lemma length_rc4_data [simp, len_simps]: "length (rc4_data st data) = length data"
  by (induction data arbitrary: st) (simp_all add: Let_def case_prod_beta)

lemma rc4_data_cancel: "rc4_data st (rc4_data st data) = data"
proof (induction st data rule: rc4_data.induct)
  case (2 st d ds)
  obtain i j S where "rc4_next st = (i, j, S)" by (cases "rc4_next st") auto
  with 2 show ?case by (simp add: xor.assoc)
qed simp

lemma rc4_skip_cancel: "rc4_skip key skip data = Some enc \<Longrightarrow> rc4_skip key skip enc = Some data"
  by (auto simp: rc4_skip_def rc4_data_cancel split: if_splits)

end
