(* ===== verification/EapolKey.thy ===== *)
theory EapolKey
  imports Md5 AesModes RsnIe WpaKeys
begin

text \<open>
  EAPOL-Key frames: the layout of \<^verbatim>\<open>struct ieee802_1x_hdr\<close> and \<^verbatim>\<open>struct wpa_eapol_key\<close>, the key information
  bits of \<^verbatim>\<open>src/common/wpa_common.h\<close>, the message integrity code (\<^verbatim>\<open>wpa_eapol_key_mic\<close> of
  \<^verbatim>\<open>src/common/wpa_common.c\<close>, \<^verbatim>\<open>wpa_verify_key_mic\<close> of \<^verbatim>\<open>src/ap/wpa_auth.c\<close>), and the key data
  encapsulation of \<^verbatim>\<open>src/ap/wpa_auth_ie.c\<close>.  HMAC-SHA-512, which only the crypto library provides, is the
  parameter \<open>hm512\<close>.  A read or a write outside of the frame is the result \<open>None\<close> of a run.
\<close>

subsection \<open>Constants\<close>

abbreviation (input) WPA_KEY_INFO_TYPE_MASK :: u16 where "WPA_KEY_INFO_TYPE_MASK \<equiv> 0x7"
abbreviation (input) WPA_KEY_INFO_TYPE_AKM_DEFINED :: u16 where "WPA_KEY_INFO_TYPE_AKM_DEFINED \<equiv> 0"
abbreviation (input) WPA_KEY_INFO_TYPE_HMAC_MD5_RC4 :: u16 where "WPA_KEY_INFO_TYPE_HMAC_MD5_RC4 \<equiv> 1"
abbreviation (input) WPA_KEY_INFO_TYPE_HMAC_SHA1_AES :: u16 where "WPA_KEY_INFO_TYPE_HMAC_SHA1_AES \<equiv> 2"
abbreviation (input) WPA_KEY_INFO_TYPE_AES_128_CMAC :: u16 where "WPA_KEY_INFO_TYPE_AES_128_CMAC \<equiv> 3"
abbreviation (input) WPA_KEY_INFO_KEY_TYPE :: u16 where "WPA_KEY_INFO_KEY_TYPE \<equiv> 0x8"
abbreviation (input) WPA_KEY_INFO_KEY_INDEX_SHIFT :: nat where "WPA_KEY_INFO_KEY_INDEX_SHIFT \<equiv> 4"
abbreviation (input) WPA_KEY_INFO_INSTALL :: u16 where "WPA_KEY_INFO_INSTALL \<equiv> 0x40"
abbreviation (input) WPA_KEY_INFO_ACK :: u16 where "WPA_KEY_INFO_ACK \<equiv> 0x80"
abbreviation (input) WPA_KEY_INFO_MIC :: u16 where "WPA_KEY_INFO_MIC \<equiv> 0x100"
abbreviation (input) WPA_KEY_INFO_SECURE :: u16 where "WPA_KEY_INFO_SECURE \<equiv> 0x200"
abbreviation (input) WPA_KEY_INFO_ERROR :: u16 where "WPA_KEY_INFO_ERROR \<equiv> 0x400"
abbreviation (input) WPA_KEY_INFO_REQUEST :: u16 where "WPA_KEY_INFO_REQUEST \<equiv> 0x800"
abbreviation (input) WPA_KEY_INFO_ENCR_KEY_DATA :: u16 where "WPA_KEY_INFO_ENCR_KEY_DATA \<equiv> 0x1000"
abbreviation (input) WPA_KEY_INFO_SMK_MESSAGE :: u16 where "WPA_KEY_INFO_SMK_MESSAGE \<equiv> 0x2000"

abbreviation (input) EAPOL_KEY_TYPE_RSN :: u8 where "EAPOL_KEY_TYPE_RSN \<equiv> 2"
abbreviation (input) EAPOL_KEY_TYPE_WPA :: u8 where "EAPOL_KEY_TYPE_WPA \<equiv> 254"
abbreviation (input) IEEE802_1X_TYPE_EAPOL_KEY :: u8 where "IEEE802_1X_TYPE_EAPOL_KEY \<equiv> 3"

abbreviation (input) WPA_NONCE_LEN :: nat where "WPA_NONCE_LEN \<equiv> 32"
abbreviation (input) WPA_REPLAY_COUNTER_LEN :: nat where "WPA_REPLAY_COUNTER_LEN \<equiv> 8"
abbreviation (input) WPA_KEY_RSC_LEN :: nat where "WPA_KEY_RSC_LEN \<equiv> 8"

text \<open>\<^verbatim>\<open>sizeof(struct ieee802_1x_hdr)\<close>, \<^verbatim>\<open>sizeof(struct wpa_eapol_key)\<close>, and where the fields are in the frame.\<close>

abbreviation (input) sizeof_hdr :: nat where "sizeof_hdr \<equiv> 4"
abbreviation (input) sizeof_key :: nat where "sizeof_key \<equiv> 77"
abbreviation (input) mic_pos :: nat where "mic_pos \<equiv> 81"

definition ek_type :: "bytes \<Rightarrow> u8" where "ek_type data = data ! 4"
definition ek_key_info :: "bytes \<Rightarrow> u16" where "ek_key_info data = WPA_GET_BE16 (drop 5 data)"
definition ek_replay_counter :: "bytes \<Rightarrow> bytes" where "ek_replay_counter data = take WPA_REPLAY_COUNTER_LEN (drop 9 data)"
definition ek_key_nonce :: "bytes \<Rightarrow> bytes" where "ek_key_nonce data = take WPA_NONCE_LEN (drop 17 data)"

datatype wpa_alg = WPA_ALG_NONE | WPA_ALG_WEP | WPA_ALG_TKIP | WPA_ALG_CCMP | WPA_ALG_IGTK | WPA_ALG_PMK
  | WPA_ALG_GCMP | WPA_ALG_SMS4 | WPA_ALG_KRK | WPA_ALG_GCMP_256 | WPA_ALG_CCMP_256 | WPA_ALG_BIP_GMAC_128
  | WPA_ALG_BIP_GMAC_256 | WPA_ALG_BIP_CMAC_256

definition wpa_cipher_to_alg :: "u32 \<Rightarrow> wpa_alg" where
  "wpa_cipher_to_alg cipher =
     (if cipher = WPA_CIPHER_CCMP_256 then WPA_ALG_CCMP_256
      else if cipher = WPA_CIPHER_GCMP_256 then WPA_ALG_GCMP_256
      else if cipher = WPA_CIPHER_CCMP then WPA_ALG_CCMP
      else if cipher = WPA_CIPHER_GCMP then WPA_ALG_GCMP
      else if cipher = WPA_CIPHER_TKIP then WPA_ALG_TKIP
      else if cipher = WPA_CIPHER_AES_128_CMAC then WPA_ALG_IGTK
      else if cipher = WPA_CIPHER_BIP_GMAC_128 then WPA_ALG_BIP_GMAC_128
      else if cipher = WPA_CIPHER_BIP_GMAC_256 then WPA_ALG_BIP_GMAC_256
      else if cipher = WPA_CIPHER_BIP_CMAC_256 then WPA_ALG_BIP_CMAC_256
      else WPA_ALG_NONE)"

subsection \<open>The message integrity code\<close>

text \<open>The OWE and DPP cases: the hash follows from the length of the key.\<close>

definition mic_by_key_len :: "(bytes \<Rightarrow> bytes list \<Rightarrow> bytes option) \<Rightarrow> bytes \<Rightarrow> bytes \<Rightarrow> bytes option" where
  "mic_by_key_len hm512 key buf =
     map_option (take (length key))
       (if length key = 16 then hmac_sha256 key buf
        else if length key = 24 then hmac_sha384 key buf
        else if length key = 32 then hm512 key [buf]
        else None)"

text \<open>The result is what is written to \<^verbatim>\<open>mic\<close>; \<open>Some None\<close> is the return value -1.\<close>

definition wpa_eapol_key_mic ::
    "(bytes \<Rightarrow> bytes list \<Rightarrow> bytes option) \<Rightarrow> bytes \<Rightarrow> u32 \<Rightarrow> u16 \<Rightarrow> bytes \<Rightarrow> bytes option run" where
  "wpa_eapol_key_mic hm512 key akmp ver buf =
     (if length key = 0 then Some None
      else if ver = WPA_KEY_INFO_TYPE_HMAC_MD5_RC4 then Some (hmac_md5 key buf)
      else if ver = WPA_KEY_INFO_TYPE_HMAC_SHA1_AES then Some (map_option (take 16) (hmac_sha1 key buf))
      else if ver = WPA_KEY_INFO_TYPE_AES_128_CMAC then omac1_aes_128 key buf
      else if ver = WPA_KEY_INFO_TYPE_AKM_DEFINED then
        if akmp = WPA_KEY_MGMT_SAE \<or> akmp = WPA_KEY_MGMT_FT_SAE then omac1_aes_128 key buf
        else if akmp = WPA_KEY_MGMT_OSEN then omac1_aes_128 key buf
        else if akmp = WPA_KEY_MGMT_IEEE8021X_SUITE_B then Some (map_option (take 16) (hmac_sha256 key buf))
        else if akmp = WPA_KEY_MGMT_IEEE8021X_SUITE_B_192 then Some (map_option (take 24) (hmac_sha384 key buf))
        else if akmp = WPA_KEY_MGMT_OWE then Some (mic_by_key_len hm512 key buf)
        else if akmp = WPA_KEY_MGMT_DPP then Some (mic_by_key_len hm512 key buf)
        else if akmp = WPA_KEY_MGMT_FT_IEEE8021X_SHA384 then Some (map_option (take 24) (hmac_sha384 key buf))
        else Some None
      else Some None)"

definition mem_write :: "bytes \<Rightarrow> nat \<Rightarrow> bytes \<Rightarrow> bytes run" where
  "mem_write buf pos d = (if pos + length d \<le> length buf then Some (take pos buf @ d @ drop (pos + length d) buf) else None)"

text \<open>The frame is changed in place: the field is cleared, the expected value is written there and
  compared, and the received octets are put back.\<close>

definition wpa_verify_key_mic ::
    "(bytes \<Rightarrow> bytes list \<Rightarrow> bytes option) \<Rightarrow> u32 \<Rightarrow> nat \<Rightarrow> wpa_ptk \<Rightarrow> bytes \<Rightarrow> (int \<times> bytes) run" where
  "wpa_verify_key_mic hm512 akmp pmk_len PTK data =
     (if length data < sizeof_hdr + sizeof_key then Some (- 1, data)
      else do {
        let mic_len = wpa_mic_len akmp pmk_len;
        mic \<leftarrow> mem_read data mic_pos mic_len;
        data0 \<leftarrow> mem_write data mic_pos (replicate mic_len 0);
        m \<leftarrow> wpa_eapol_key_mic hm512 (pk_kck PTK) akmp (ek_key_info data AND WPA_KEY_INFO_TYPE_MASK) data0;
        case m of
          None \<Rightarrow> do {
            data' \<leftarrow> mem_write data0 mic_pos mic;
            Some (- 1, data') }
        | Some m \<Rightarrow> do {
            data1 \<leftarrow> mem_write data0 mic_pos m;
            data' \<leftarrow> mem_write data1 mic_pos mic;
            Some (if os_memcmp_const mic (drop mic_pos data1) mic_len \<noteq> 0 then - 1 else 0, data') } })"

subsection \<open>Key data\<close>

definition wpa_add_kde :: "u32 \<Rightarrow> bytes \<Rightarrow> bytes \<Rightarrow> bytes" where
  "wpa_add_kde kde data data2 =
     [WLAN_EID_VENDOR_SPECIFIC, word_of_nat (RSN_SELECTOR_LEN + length data + length data2)] @
     WPA_PUT_BE32 kde @ data @ data2"

text \<open>A pointer is an offset into the key data, with the length beside it.\<close>

record wpa_eapol_ie_parse =
  ie_wpa_ie :: "(nat \<times> nat) option"
  ie_rsn_ie :: "(nat \<times> nat) option"
  ie_pmkid :: "nat option"
  ie_gtk :: "(nat \<times> nat) option"
  ie_mac_addr :: "(nat \<times> nat) option"
  ie_igtk :: "(nat \<times> nat) option"
  ie_ip_addr_req :: "nat option"
  ie_ip_addr_alloc :: "nat option"
  ie_osen :: "(nat \<times> nat) option"

definition ie_parse0 :: wpa_eapol_ie_parse where
  "ie_parse0 = \<lparr>ie_wpa_ie = None, ie_rsn_ie = None, ie_pmkid = None, ie_gtk = None, ie_mac_addr = None,
     ie_igtk = None, ie_ip_addr_req = None, ie_ip_addr_alloc = None, ie_osen = None\<rparr>"

text \<open>The condition \<^verbatim>\<open>pos[1] >= n && RSN_SELECTOR_GET(pos + 2) == sel\<close>: the selector is read only if the
  length allows it.\<close>

definition kde_is :: "bytes \<Rightarrow> nat \<Rightarrow> nat \<Rightarrow> nat \<Rightarrow> u32 \<Rightarrow> bool run" where
  "kde_is buf pos l n sel =
     (if l < n then Some False
      else do { t \<leftarrow> mem_read buf (pos + 2) RSN_SELECTOR_LEN; Some (WPA_GET_BE32 t = sel) })"

definition wpa_parse_generic :: "bytes \<Rightarrow> nat \<Rightarrow> wpa_eapol_ie_parse \<Rightarrow> (int \<times> wpa_eapol_ie_parse) run" where
  "wpa_parse_generic buf pos ie = do {
     lb \<leftarrow> mem_read buf (pos + 1) 1;
     let l = unat (hd lb);
     if l = 0 then Some (1, ie)
     else do {
       t \<leftarrow> kde_is buf pos l 6 WPA_OUI_TYPE;
       wpa \<leftarrow> (if t then do { v \<leftarrow> mem_read buf (pos + 6) 2; Some (v = [1, 0]) } else Some False);
       if wpa then Some (0, ie\<lparr>ie_wpa_ie := Some (pos, l + 2)\<rparr>)
       else do {
         t \<leftarrow> kde_is buf pos l 4 OSEN_IE_VENDOR_TYPE;
         if t then Some (0, ie\<lparr>ie_osen := Some (pos, l + 2)\<rparr>)
         else do {
           t \<leftarrow> (if 1 + RSN_SELECTOR_LEN < length buf - pos
                 then kde_is buf pos l (RSN_SELECTOR_LEN + PMKID_LEN) RSN_KEY_DATA_PMKID else Some False);
           if t then Some (0, ie\<lparr>ie_pmkid := Some (pos + 2 + RSN_SELECTOR_LEN)\<rparr>)
           else do {
             t \<leftarrow> kde_is buf pos l (RSN_SELECTOR_LEN + 3) RSN_KEY_DATA_GROUPKEY;
             if t then Some (0, ie\<lparr>ie_gtk := Some (pos + 2 + RSN_SELECTOR_LEN, l - RSN_SELECTOR_LEN)\<rparr>)
             else do {
               t \<leftarrow> kde_is buf pos l (RSN_SELECTOR_LEN + 3) RSN_KEY_DATA_MAC_ADDR;
               if t then Some (0, ie\<lparr>ie_mac_addr := Some (pos + 2 + RSN_SELECTOR_LEN, l - RSN_SELECTOR_LEN)\<rparr>)
               else do {
                 t \<leftarrow> kde_is buf pos l (RSN_SELECTOR_LEN + 3) RSN_KEY_DATA_IGTK;
                 if t then Some (0, ie\<lparr>ie_igtk := Some (pos + 2 + RSN_SELECTOR_LEN, l - RSN_SELECTOR_LEN)\<rparr>)
                 else do {
                   t \<leftarrow> kde_is buf pos l (RSN_SELECTOR_LEN + 1) WFA_KEY_DATA_IP_ADDR_REQ;
                   if t then Some (0, ie\<lparr>ie_ip_addr_req := Some (pos + 2 + RSN_SELECTOR_LEN)\<rparr>)
                   else do {
                     t \<leftarrow> kde_is buf pos l (RSN_SELECTOR_LEN + 3 * 4) WFA_KEY_DATA_IP_ADDR_ALLOC;
                     if t then Some (0, ie\<lparr>ie_ip_addr_alloc := Some (pos + 2 + RSN_SELECTOR_LEN)\<rparr>)
                     else Some (0, ie) } } } } } } } } }"

text \<open>The loop of \<^verbatim>\<open>wpa_parse_kde_ies\<close> from the offset \<open>pos\<close>.\<close>

function kde_loop :: "bytes \<Rightarrow> nat \<Rightarrow> wpa_eapol_ie_parse \<Rightarrow> (int \<times> wpa_eapol_ie_parse) run" where
  "kde_loop buf pos ie =
     (if length buf - pos > 1 then
        let id = buf ! pos; l = unat (buf ! (pos + 1)) in
        if id = 0xdd \<and> (pos = length buf - 1 \<or> l = 0) then Some (0, ie)
        else if 2 + l > length buf - pos then Some (- 1, ie)
        else if id = WLAN_EID_RSN then kde_loop buf (pos + 2 + l) (ie\<lparr>ie_rsn_ie := Some (pos, l + 2)\<rparr>)
        else if id = WLAN_EID_VENDOR_SPECIFIC then do {
          (ret, ie) \<leftarrow> wpa_parse_generic buf pos ie;
          if ret < 0 then Some (ret, ie)
          else if ret > 0 then Some (0, ie)
          else kde_loop buf (pos + 2 + l) ie }
        else kde_loop buf (pos + 2 + l) ie
      else Some (0, ie))"
  by pat_completeness auto
termination
  by (relation "measure (\<lambda>(buf, pos, ie). length buf - pos)") auto

declare kde_loop.simps [simp del]

definition wpa_parse_kde_ies :: "bytes \<Rightarrow> (int \<times> wpa_eapol_ie_parse) run" where
  "wpa_parse_kde_ies buf = kde_loop buf 0 ie_parse0"

definition wpa_compare_rsn_ie :: "bool \<Rightarrow> bytes option \<Rightarrow> bytes option \<Rightarrow> int run" where
  "wpa_compare_rsn_ie ft_initial_assoc ie1 ie2 =
     (case (ie1, ie2) of
        (Some ie1, Some ie2) \<Rightarrow>
          if length ie1 = length ie2 \<and> os_memcmp ie1 ie2 = 0 then Some 0
          else if ft_initial_assoc then do {
            (rc1, d1) \<leftarrow> wpa_parse_wpa_ie_rsn ie1;
            (rc2, d2) \<leftarrow> (if rc1 < 0 then Some (- 1, d1) else wpa_parse_wpa_ie_rsn ie2);
            Some (if rc1 < 0 \<or> rc2 < 0 then - 1
                  else if wi_proto d1 = wi_proto d2 \<and> wi_pairwise_cipher d1 = wi_pairwise_cipher d2 \<and>
                    wi_group_cipher d1 = wi_group_cipher d2 \<and> wi_key_mgmt d1 = wi_key_mgmt d2 \<and>
                    wi_capabilities d1 = wi_capabilities d2 \<and> wi_mgmt_group_cipher d1 = wi_mgmt_group_cipher d2
                  then 0 else - 1) }
          else Some (- 1)
      | _ \<Rightarrow> Some (- 1))"

subsection \<open>The parser stays inside the key data\<close>

definition in_range :: "bytes \<Rightarrow> nat \<Rightarrow> (nat \<times> nat) option \<Rightarrow> bool" where
  "in_range buf n x = (case x of None \<Rightarrow> True | Some (p, l) \<Rightarrow> n \<le> l \<and> p + l \<le> length buf)"

text \<open>Every pointer that is set has the octets behind it that its user may read; the element that is
  reported as the RSN element has the identifier and the length of one.\<close>

definition ie_ok :: "bytes \<Rightarrow> wpa_eapol_ie_parse \<Rightarrow> bool" where
  "ie_ok buf ie \<longleftrightarrow>
     in_range buf 8 (ie_wpa_ie ie) \<and> in_range buf 2 (ie_rsn_ie ie) \<and> in_range buf 6 (ie_osen ie) \<and>
     in_range buf 3 (ie_gtk ie) \<and> in_range buf 3 (ie_mac_addr ie) \<and> in_range buf 3 (ie_igtk ie) \<and>
     in_range buf PMKID_LEN (map_option (\<lambda>p. (p, PMKID_LEN)) (ie_pmkid ie)) \<and>
     in_range buf 1 (map_option (\<lambda>p. (p, 1)) (ie_ip_addr_req ie)) \<and>
     in_range buf 12 (map_option (\<lambda>p. (p, 12)) (ie_ip_addr_alloc ie)) \<and>
     (case ie_rsn_ie ie of None \<Rightarrow> True
      | Some (p, l) \<Rightarrow> buf ! p = WLAN_EID_RSN \<and> l = unat (buf ! (p + 1)) + 2)"

lemma runs_kde_is:
  assumes "pos + 2 + l \<le> length buf" "4 \<le> n"
    and "\<And>t. (t \<Longrightarrow> n \<le> l) \<Longrightarrow> Q t"
  shows "runs (kde_is buf pos l n sel) Q"
  unfolding kde_is_def using assms by (intro twp) auto

lemma runs_parse_generic:
  assumes "pos + 2 + unat (buf ! (pos + 1)) \<le> length buf" "ie_ok buf ie"
  shows "runs (wpa_parse_generic buf pos ie) (\<lambda>(ret, ie'). (ret = 0 \<or> ret = 1) \<and> ie_ok buf ie')"
proof -
  define l where "l = unat (buf ! (pos + 1))"
  have l: "mem_read buf (pos + 1) 1 = Some [buf ! (pos + 1)]"
    using assms(1) by (simp add: mem_read_def take_Suc_conv_app_nth Cons_nth_drop_Suc [symmetric])
  have le: "pos + 2 + l \<le> length buf" using assms(1) by (simp add: l_def)
  note kd = runs_kde_is [OF le]
  show ?thesis
    unfolding wpa_parse_generic_def l bind.bind_lunit list.sel Let_def l_def [symmetric]
    using le assms(2)
    by (intro twp kd) (auto simp: ie_ok_def in_range_def)
qed

lemma runs_kde_loop:
  "ie_ok buf ie \<Longrightarrow> runs (kde_loop buf pos ie) (\<lambda>(rc, ie'). (rc = 0 \<or> rc = - 1) \<and> ie_ok buf ie')"
proof (induction buf pos ie rule: kde_loop.induct)
  case (1 buf pos ie)
  let ?Q = "\<lambda>(rc, ie'). (rc = 0 \<or> rc = - 1) \<and> ie_ok buf ie'"
  define l where "l = unat (buf ! (pos + 1))"
  show ?case
  proof (cases "length buf - pos > 1 \<and> \<not> (buf ! pos = 0xdd \<and> (pos = length buf - 1 \<or> l = 0)) \<and> \<not> 2 + l > length buf - pos")
    case True
    then have go: "length buf - pos > 1" "\<not> (buf ! pos = 0xdd \<and> (pos = length buf - 1 \<or> l = 0))"
      "\<not> 2 + l > length buf - pos" by auto
    consider (rsn) "buf ! pos = WLAN_EID_RSN" | (gen) "buf ! pos = WLAN_EID_VENDOR_SPECIFIC"
      | (other) "buf ! pos \<noteq> WLAN_EID_RSN" "buf ! pos \<noteq> WLAN_EID_VENDOR_SPECIFIC" by blast
    then show ?thesis
    proof cases
      case rsn
      have ok: "ie_ok buf (ie\<lparr>ie_rsn_ie := Some (pos, l + 2)\<rparr>)"
        using "1.prems" go rsn by (auto simp: ie_ok_def in_range_def l_def)
      from "1.IH"(1) [OF go(1) refl refl, folded l_def, OF go(2,3) rsn ok] show ?thesis
        using go rsn by (subst kde_loop.simps) (simp add: Let_def l_def)
    next
      case gen
      have "runs (wpa_parse_generic buf pos ie) (\<lambda>(ret, ie'). (ret = 0 \<or> ret = 1) \<and> ie_ok buf ie')"
        using go "1.prems" by (intro runs_parse_generic) (auto simp: l_def)
      then obtain ret ie' where g: "wpa_parse_generic buf pos ie = Some (ret, ie')" "ret = 0 \<or> ret = 1" "ie_ok buf ie'"
        by (auto simp: runs_def)
      have "runs (kde_loop buf (pos + 2 + l) ie') ?Q" if "ret = 0"
        using "1.IH"(2) [OF go(1) refl refl, folded l_def, OF go(2,3) _ gen g(1) refl] g(3) that gen by auto
      then show ?thesis using go gen g by (subst kde_loop.simps) (auto simp: Let_def l_def runs_def)
    next
      case other
      from "1.IH"(3) [OF go(1) refl refl, folded l_def, OF go(2,3) other "1.prems"] show ?thesis
        using go other by (subst kde_loop.simps) (simp add: Let_def l_def)
    qed
  next
    case False
    then have "kde_loop buf pos ie = Some (0, ie) \<or> kde_loop buf pos ie = Some (- 1, ie)"
      by (subst kde_loop.simps, subst (2) kde_loop.simps) (auto simp: Let_def l_def)
    then show ?thesis using "1.prems" by (auto simp: runs_def)
  qed
qed


end
