(* ===== verification/WpaAuth.thy ===== *)
theory WpaAuth
  imports EapolKey RsnWrite Pmksa TextCodec
begin

text \<open>
  The authenticator of IEEE 802.11 RSN and WPA, \<^verbatim>\<open>src/ap/wpa_auth.c\<close>: the 4-way handshake and the group key
  handshake of every station, the group key state machine, and the EAPOL-Key frames.

  The state is the \<^verbatim>\<open>struct wpa_authenticator\<close> with its first group (VLAN groups are not modelled), the
  \<^verbatim>\<open>struct wpa_state_machine\<close> of each station and the order of the station list.  A station is named by a
  number, its address; a station machine that was freed is \<open>None\<close>, and using it, like every access outside
  of an array, is the result \<open>None\<close> of a run.  The callbacks of \<^verbatim>\<open>struct wpa_auth_callbacks\<close>, the random
  number generator, the allocator and the clock are the parameter \<open>e\<close>; each answer may depend on the
  number of questions asked before (\<open>au_tick\<close>).  The log, newest event first, holds what the code does to
  the rest of the system: frames, keys set in the driver, port variables, disconnections, and the draws
  of nonces.  The callback \<^verbatim>\<open>disconnect\<close> comes back to the machine of the station as \<^verbatim>\<open>WPA_DEAUTH\<close>
  (\<^verbatim>\<open>ap_sta_disconnect\<close> of \<^verbatim>\<open>src/ap/sta_info.c\<close>).

  The functions call each other through \<^verbatim>\<open>wpa_sm_step\<close>; those below it take it as the parameter \<open>step\<close>, and
  \<open>wpa_sm_step\<close> closes the recursion with a bound on the depth of the calls and the rounds of its loop.

  The build is that of wpa\_supplicant as an access point: no \<^verbatim>\<open>CONFIG_IEEE80211R_AP\<close>, \<^verbatim>\<open>CONFIG_FILS\<close>,
  \<^verbatim>\<open>CONFIG_MESH\<close>, \<^verbatim>\<open>CONFIG_WNM_AP\<close>, \<^verbatim>\<open>CONFIG_P2P\<close> or \<^verbatim>\<open>CONFIG_TESTING_OPTIONS\<close>.
\<close>

subsection \<open>Data\<close>

datatype wpa_ptk_state = WPA_PTK_INITIALIZE | WPA_PTK_DISCONNECT | WPA_PTK_DISCONNECTED
  | WPA_PTK_AUTHENTICATION | WPA_PTK_AUTHENTICATION2 | WPA_PTK_INITPMK | WPA_PTK_INITPSK | WPA_PTK_PTKSTART
  | WPA_PTK_PTKCALCNEGOTIATING | WPA_PTK_PTKCALCNEGOTIATING2 | WPA_PTK_PTKINITNEGOTIATING | WPA_PTK_PTKINITDONE

datatype wpa_ptk_group_state = WPA_PTK_GROUP_IDLE | WPA_PTK_GROUP_REKEYNEGOTIATING
  | WPA_PTK_GROUP_REKEYESTABLISHED | WPA_PTK_GROUP_KEYERROR

datatype wpa_group_state = WPA_GROUP_GTK_INIT | WPA_GROUP_SETKEYS | WPA_GROUP_SETKEYSDONE | WPA_GROUP_FATAL_FAILURE

datatype wpa_version = WPA_VERSION_NO_WPA | WPA_VERSION_WPA | WPA_VERSION_WPA2

record wpa_key_replay_counter =
  rc_counter :: bytes
  rc_valid :: bool

text \<open>The arrays \<^verbatim>\<open>PMK\<close> (64 octets) and \<^verbatim>\<open>pmk_len\<close> are kept apart as in the code.  The last four fields are
  what the code keeps outside: the pending timeouts (\<open>sm_timeouts\<close> with their milliseconds) and the
  variables of the station's EAPOL machine.\<close>

record wpa_state_machine =
  sm_addr :: bytes
  sm_ptk_state :: wpa_ptk_state
  sm_ptk_group_state :: wpa_ptk_group_state
  sm_Init :: bool
  sm_DeauthenticationRequest :: bool
  sm_AuthenticationRequest :: bool
  sm_ReAuthenticationRequest :: bool
  sm_Disconnect :: bool
  sm_disconnect_reason :: u16
  sm_TimeoutCtr :: u32
  sm_GTimeoutCtr :: u32
  sm_TimeoutEvt :: bool
  sm_EAPOLKeyReceived :: bool
  sm_EAPOLKeyPairwise :: bool
  sm_EAPOLKeyRequest :: bool
  sm_MICVerified :: bool
  sm_GUpdateStationKeys :: bool
  sm_ANonce :: bytes
  sm_SNonce :: bytes
  sm_alt_SNonce :: bytes
  sm_alt_replay_counter :: bytes
  sm_PMK :: bytes
  sm_pmk_len :: nat
  sm_pmkid :: bytes
  sm_PTK :: wpa_ptk
  sm_PTK_valid :: bool
  sm_pairwise_set :: bool
  sm_tk_already_set :: bool
  sm_keycount :: int
  sm_Pair :: bool
  sm_key_replay :: "wpa_key_replay_counter list"
  sm_prev_key_replay :: "wpa_key_replay_counter list"
  sm_PInitAKeys :: bool
  sm_PTKRequest :: bool
  sm_has_GTK :: bool
  sm_PtkGroupInit :: bool
  sm_last_rx_eapol_key :: "bytes option"
  sm_changed :: bool
  sm_in_step_loop :: bool
  sm_pending_deinit :: bool
  sm_started :: bool
  sm_mgmt_frame_prot :: bool
  sm_rx_eapol_key_secure :: bool
  sm_update_snonce :: bool
  sm_alt_snonce_valid :: bool
  sm_is_wnmsleep :: bool
  sm_pmkid_set :: bool
  sm_req_replay_counter :: bytes
  sm_req_replay_counter_used :: bool
  sm_wpa_ie :: "bytes option"
  sm_wpa :: wpa_version
  sm_pairwise :: u32
  sm_wpa_key_mgmt :: u32
  sm_pmksa :: "rsn_pmksa_cache_entry option"
  sm_remote_mic_failures :: u32
  sm_pending_1_of_4_timeout :: bool
  sm_timeouts :: "nat list"
  sm_rekey_ptk_timer :: bool
  sm_keyRun :: bool
  sm_keyAvailable :: bool

record wpa_auth_conf = wpa_auth_config +
  ac_wpa_group_rekey :: bool
  ac_wpa_strict_rekey :: bool
  ac_wpa_gmk_rekey :: bool
  ac_wpa_ptk_rekey :: bool
  ac_wpa_group_update_count :: u32
  ac_wpa_pairwise_update_count :: u32
  ac_wpa_disable_eapol_key_retries :: bool
  ac_eapol_version :: u8
  ac_tx_status :: bool
  ac_disable_gtk :: bool

record wpa_group =
  wg_GInit :: bool
  wg_GKeyDoneStations :: int
  wg_GTKReKey :: bool
  wg_GTK_len :: nat
  wg_GN :: nat
  wg_GM :: nat
  wg_GTKAuthenticator :: bool
  wg_Counter :: bytes
  wg_state :: wpa_group_state
  wg_GMK :: bytes
  wg_GTK :: "bytes list"
  wg_GNonce :: bytes
  wg_changed :: bool
  wg_first_sta_seen :: bool
  wg_reject_4way_hs_for_entropy :: bool
  wg_IGTK :: "bytes list"
  wg_GN_igtk :: nat
  wg_GM_igtk :: nat

record wpa_authenticator =
  wa_addr :: bytes
  wa_conf :: wpa_auth_conf
  wa_group :: wpa_group
  wa_wpa_ie :: bytes
  wa_remote_mic_failures :: u32
  wa_countermeasures :: u32
  wa_4way_failures :: u32
  wa_rekey_gtk_timer :: bool
  wa_rekey_gmk_timer :: bool

datatype wpa_eapol_variable = WPA_EAPOL_portEnabled | WPA_EAPOL_portValid | WPA_EAPOL_authorized
  | WPA_EAPOL_portControl_Auto | WPA_EAPOL_keyRun | WPA_EAPOL_keyAvailable | WPA_EAPOL_keyDone
  | WPA_EAPOL_inc_EapolFramesTx

datatype wpa_event = WPA_AUTH | WPA_ASSOC | WPA_DISASSOC | WPA_DEAUTH | WPA_REAUTH | WPA_REAUTH_EAPOL
  | WPA_ASSOC_FT | WPA_ASSOC_FILS | WPA_DRV_STA_REMOVED

text \<open>What is logged: a frame for a station and whether it is to be encrypted; a key set in the driver (for
  a station, or the group) with the driver's answer; a port variable; a disconnection; the report of a
  wrong passphrase; a nonce drawn for a station; a station that is freed.\<close>

datatype au_event =
    EapolTx nat bytes bool
  | SetKey "nat option" wpa_alg nat bytes int
  | SetEapol nat wpa_eapol_variable int
  | StaDisconnect nat u16
  | PskFailure nat
  | ANonceDrawn nat bytes
  | StaFreed nat

record auth =
  au_wa :: wpa_authenticator
  au_sm :: "nat \<Rightarrow> wpa_state_machine option"
  au_list :: "nat list"
  au_tick :: nat
  au_log :: "au_event list"

text \<open>The environment.  The callback \<^verbatim>\<open>get_psk\<close>, which walks through the passphrases of a station, is the
  list of the keys it returns.\<close>

record wenv =
  we_hm512 :: "bytes \<Rightarrow> bytes list \<Rightarrow> bytes option"
  we_random :: "nat \<Rightarrow> nat \<Rightarrow> bytes option"
  we_set_key :: "nat \<Rightarrow> int"
  we_get_seqnum :: "nat \<Rightarrow> bytes option"
  we_malloc :: "nat \<Rightarrow> bool"
  we_ntp :: "nat \<Rightarrow> bytes"
  we_get_psk :: "nat \<Rightarrow> nat \<Rightarrow> bytes list"
  we_get_msk :: "nat \<Rightarrow> nat \<Rightarrow> bytes option"
  we_pool_ready :: "nat \<Rightarrow> bool"
  we_group_ptr :: bytes
  we_mic_failure :: "nat \<Rightarrow> int"

abbreviation au_group :: "auth \<Rightarrow> wpa_group" where "au_group s \<equiv> wa_group (au_wa s)"
abbreviation au_conf :: "auth \<Rightarrow> wpa_auth_conf" where "au_conf s \<equiv> wa_conf (au_wa s)"

type_synonym step = "nat \<Rightarrow> auth \<Rightarrow> (int \<times> auth) run"

definition ask :: "(nat \<Rightarrow> 'a) \<Rightarrow> auth \<Rightarrow> 'a \<times> auth" where
  "ask f s = (f (au_tick s), s\<lparr>au_tick := Suc (au_tick s)\<rparr>)"

definition log_ev :: "au_event \<Rightarrow> auth \<Rightarrow> auth" where
  "log_ev ev s = s\<lparr>au_log := ev # au_log s\<rparr>"

definition mod_sm :: "nat \<Rightarrow> (wpa_state_machine \<Rightarrow> wpa_state_machine) \<Rightarrow> auth \<Rightarrow> auth run" where
  "mod_sm i f s = (case au_sm s i of None \<Rightarrow> None | Some m \<Rightarrow> Some (s\<lparr>au_sm := (au_sm s)(i \<mapsto> f m)\<rparr>))"

definition mod_wa :: "(wpa_authenticator \<Rightarrow> wpa_authenticator) \<Rightarrow> auth \<Rightarrow> auth" where
  "mod_wa f s = s\<lparr>au_wa := f (au_wa s)\<rparr>"

definition mod_group :: "(wpa_group \<Rightarrow> wpa_group) \<Rightarrow> auth \<Rightarrow> auth" where
  "mod_group f s = mod_wa (\<lambda>a. a\<lparr>wa_group := f (wa_group a)\<rparr>) s"

definition require :: "bool \<Rightarrow> unit run" where
  "require b = (if b then Some () else None)"

subsection \<open>Callbacks\<close>

definition random_get_bytes :: "wenv \<Rightarrow> nat \<Rightarrow> auth \<Rightarrow> bytes option \<times> auth" where
  "random_get_bytes e n s = ask (\<lambda>t. we_random e t n) s"

definition wpa_auth_set_key ::
    "wenv \<Rightarrow> nat option \<Rightarrow> wpa_alg \<Rightarrow> nat \<Rightarrow> bytes \<Rightarrow> auth \<Rightarrow> int \<times> auth" where
  "wpa_auth_set_key e dst alg idx key s =
     (let (r, s) = ask (we_set_key e) s in (r, log_ev (SetKey dst alg idx key r) s))"

definition wpa_auth_set_eapol :: "nat \<Rightarrow> wpa_eapol_variable \<Rightarrow> int \<Rightarrow> auth \<Rightarrow> auth run" where
  "wpa_auth_set_eapol i var val s = do {
     s \<leftarrow> (if var = WPA_EAPOL_keyRun then mod_sm i (\<lambda>m. m\<lparr>sm_keyRun := (val \<noteq> 0)\<rparr>) s
           else if var = WPA_EAPOL_keyAvailable then mod_sm i (\<lambda>m. m\<lparr>sm_keyAvailable := (val \<noteq> 0)\<rparr>) s
           else Some s);
     Some (log_ev (SetEapol i var val) s) }"

text \<open>\<^verbatim>\<open>wpa_auth_get_eapol(...) > 0\<close>\<close>

definition wpa_auth_get_eapol :: "wpa_state_machine \<Rightarrow> wpa_eapol_variable \<Rightarrow> bool" where
  "wpa_auth_get_eapol m var =
     (case var of WPA_EAPOL_keyRun \<Rightarrow> sm_keyRun m | WPA_EAPOL_keyAvailable \<Rightarrow> sm_keyAvailable m | _ \<Rightarrow> False)"

subsection \<open>Keys of the group\<close>

definition wpa_group_init_gmk_and_counter :: "wenv \<Rightarrow> auth \<Rightarrow> int \<times> auth" where
  "wpa_group_init_gmk_and_counter e s =
     (case random_get_bytes e 32 s of
        (None, s) \<Rightarrow> (- 1, s)
      | (Some gmk, s) \<Rightarrow>
          let s = mod_group (\<lambda>g. g\<lparr>wg_GMK := gmk\<rparr>) s;
              (ntp, s) = ask (we_ntp e) s;
              buf = wa_addr (au_wa s) @ ntp @ we_group_ptr e
          in case random_get_bytes e 32 s of
               (None, s) \<Rightarrow> (- 1, s)
             | (Some rkey, s) \<Rightarrow>
                 (case sha1_prf rkey (ascii ''Init Counter'') buf WPA_NONCE_LEN of
                    None \<Rightarrow> (- 1, s)
                  | Some c \<Rightarrow> (0, mod_group (\<lambda>g. g\<lparr>wg_Counter := c\<rparr>) s)))"

definition wpa_gmk_to_gtk ::
    "wenv \<Rightarrow> bytes \<Rightarrow> bytes \<Rightarrow> bytes \<Rightarrow> nat \<Rightarrow> auth \<Rightarrow> int \<times> bytes option \<times> auth" where
  "wpa_gmk_to_gtk e gmk label gnonce gtk_len s =
     (let (ntp, s) = ask (we_ntp e) s;
          (r, s) = random_get_bytes e gtk_len s;
          rnd = (case r of None \<Rightarrow> replicate gtk_len 0 | Some b \<Rightarrow> b);
          data = wa_addr (au_wa s) @ gnonce @ ntp @ rnd @ replicate (32 - gtk_len) 0;
          gtk = sha384_prf gmk label data gtk_len
      in (if r = None \<or> gtk = None then - 1 else 0, gtk, s))"

text \<open>Deriving one key into the entry \<open>k\<close> of an array of keys; the two derivations of
  \<^verbatim>\<open>wpa_gtk_update\<close>.\<close>

definition derive_into ::
    "wenv \<Rightarrow> bytes \<Rightarrow> nat \<Rightarrow> nat \<Rightarrow> bytes list \<Rightarrow> auth \<Rightarrow> (int \<times> bytes list \<times> auth) run" where
  "derive_into e label len k keys s = do {
     let s = mod_group (\<lambda>g. g\<lparr>wg_GNonce := wg_Counter g, wg_Counter := inc_byte_array (wg_Counter g)\<rparr>) s;
     _ \<leftarrow> require (k < length keys \<and> len \<le> 32);
     let (r, gtk, s) = wpa_gmk_to_gtk e (wg_GMK (au_group s)) label (wg_GNonce (au_group s)) len s;
     new \<leftarrow> (case gtk of None \<Rightarrow> Some (keys ! k) | Some gtk \<Rightarrow> mem_write (keys ! k) 0 gtk);
     Some (r, keys[k := new], s) }"

definition wpa_gtk_update :: "wenv \<Rightarrow> auth \<Rightarrow> (int \<times> auth) run" where
  "wpa_gtk_update e s = do {
     _ \<leftarrow> require (0 < wg_GN (au_group s));
     (r, gtk, s) \<leftarrow> derive_into e (ascii ''Group key expansion'') (wg_GTK_len (au_group s))
                      (wg_GN (au_group s) - 1) (wg_GTK (au_group s)) s;
     let s = mod_group (\<lambda>g. g\<lparr>wg_GTK := gtk\<rparr>) s;
     if ac_ieee80211w (au_conf s) \<noteq> NO_MGMT_FRAME_PROTECTION then do {
       _ \<leftarrow> require (4 \<le> wg_GN_igtk (au_group s));
       (r', igtk, s) \<leftarrow> derive_into e (ascii ''IGTK key expansion'')
                        (wpa_cipher_key_len (ac_group_mgmt_cipher (au_conf s)))
                        (wg_GN_igtk (au_group s) - 4) (wg_IGTK (au_group s)) s;
       let s = mod_group (\<lambda>g. g\<lparr>wg_IGTK := igtk\<rparr>) s;
       Some (if r < 0 \<or> r' < 0 then - 1 else 0, s) }
     else Some (r, s) }"

text \<open>\<open>n\<close> octets of the entry \<open>k\<close> of an array of keys.\<close>

definition key_at :: "bytes list \<Rightarrow> nat \<Rightarrow> nat \<Rightarrow> bytes run" where
  "key_at keys k n = do { _ \<leftarrow> require (k < length keys); mem_read (keys ! k) 0 n }"

definition current_gtk :: "auth \<Rightarrow> bytes run" where
  "current_gtk s = do {
     _ \<leftarrow> require (0 < wg_GN (au_group s));
     key_at (wg_GTK (au_group s)) (wg_GN (au_group s) - 1) (wg_GTK_len (au_group s)) }"

definition current_igtk :: "auth \<Rightarrow> bytes run" where
  "current_igtk s = do {
     _ \<leftarrow> require (4 \<le> wg_GN_igtk (au_group s));
     key_at (wg_IGTK (au_group s)) (wg_GN_igtk (au_group s) - 4)
       (wpa_cipher_key_len (ac_group_mgmt_cipher (au_conf s))) }"

definition wpa_group_config_group_keys :: "wenv \<Rightarrow> auth \<Rightarrow> (int \<times> auth) run" where
  "wpa_group_config_group_keys e s = do {
     gtk \<leftarrow> current_gtk s;
     let (r, s) = wpa_auth_set_key e None (wpa_cipher_to_alg (ac_wpa_group (au_conf s))) (wg_GN (au_group s)) gtk s;
     let ret = (if r < 0 then - 1 else 0);
     if ac_ieee80211w (au_conf s) \<noteq> NO_MGMT_FRAME_PROTECTION \<and> ret = 0 then do {
       igtk \<leftarrow> current_igtk s;
       let (r, s) = wpa_auth_set_key e None (wpa_cipher_to_alg (ac_group_mgmt_cipher (au_conf s)))
                      (wg_GN_igtk (au_group s)) igtk s;
       Some (if r < 0 then - 1 else 0, s) }
     else Some (ret, s) }"

definition wpa_group_ensure_init :: "wenv \<Rightarrow> auth \<Rightarrow> auth run" where
  "wpa_group_ensure_init e s =
     (if wg_first_sta_seen (au_group s) then Some s
      else do {
        let (ready, s) = ask (we_pool_ready e) s;
        let s = (if \<not> ready then mod_group (\<lambda>g. g\<lparr>wg_reject_4way_hs_for_entropy := True\<rparr>) s
                 else mod_group (\<lambda>g. g\<lparr>wg_first_sta_seen := True, wg_reject_4way_hs_for_entropy := False\<rparr>) s);
        let (r, s) = wpa_group_init_gmk_and_counter e s;
        (r, s) \<leftarrow> (if r < 0 then Some (r, s) else wpa_gtk_update e s);
        (r, s) \<leftarrow> (if r < 0 then Some (r, s) else wpa_group_config_group_keys e s);
        Some (if r < 0
              then mod_group (\<lambda>g. g\<lparr>wg_first_sta_seen := False, wg_reject_4way_hs_for_entropy := True\<rparr>) s
              else s) })"

subsection \<open>Sending EAPOL-Key frames\<close>

definition eapol_version_of :: "wpa_state_machine \<Rightarrow> u16" where
  "eapol_version_of m =
     (if wpa_use_akm_defined (sm_wpa_key_mgmt m) then WPA_KEY_INFO_TYPE_AKM_DEFINED
      else if wpa_use_cmac (sm_wpa_key_mgmt m) then WPA_KEY_INFO_TYPE_AES_128_CMAC
      else if sm_pairwise m \<noteq> WPA_CIPHER_TKIP then WPA_KEY_INFO_TYPE_HMAC_SHA1_AES
      else WPA_KEY_INFO_TYPE_HMAC_MD5_RC4)"

text \<open>Whether the key data is encrypted with AES key wrap, and the padding that this needs.\<close>

definition uses_aes_wrap :: "wpa_state_machine \<Rightarrow> bool" where
  "uses_aes_wrap m \<longleftrightarrow> eapol_version_of m = WPA_KEY_INFO_TYPE_HMAC_SHA1_AES \<or>
     wpa_use_aes_key_wrap (sm_wpa_key_mgmt m) \<or> eapol_version_of m = WPA_KEY_INFO_TYPE_AES_128_CMAC"

definition wrap_pad :: "nat \<Rightarrow> nat" where
  "wrap_pad n = (if n mod 8 = 0 then 0 else 8 - n mod 8)"

definition key_data_len_of :: "wpa_state_machine \<Rightarrow> nat \<Rightarrow> bool \<Rightarrow> nat" where
  "key_data_len_of m kde_len encr =
     (if uses_aes_wrap m \<and> encr then kde_len + wrap_pad kde_len + 8 else kde_len)"

text \<open>The key information field.\<close>

definition key_info_of :: "wpa_state_machine \<Rightarrow> u16 \<Rightarrow> nat \<Rightarrow> bool \<Rightarrow> u16" where
  "key_info_of m key_info keyidx encr =
     (key_info OR eapol_version_of m)
       OR (if encr \<and> sm_wpa m = WPA_VERSION_WPA2 then WPA_KEY_INFO_ENCR_KEY_DATA else 0)
       OR (if sm_wpa m \<noteq> WPA_VERSION_WPA2 then push_bit WPA_KEY_INFO_KEY_INDEX_SHIFT (word_of_nat keyidx) else 0)"

text \<open>The key data as it goes into the frame, with the value of its length field: plain, wrapped with AES,
  or encrypted with RC4 under the initialization vector \<open>iv\<close>.  \<open>Some None\<close> is an early return.\<close>

definition eapol_key_data ::
    "wpa_state_machine \<Rightarrow> bytes option \<Rightarrow> nat \<Rightarrow> bool \<Rightarrow> bytes \<Rightarrow> (bytes \<times> u16) option run" where
  "eapol_key_data m kde kde_len encr iv =
     (let key_data_len = key_data_len_of m kde_len encr in
      case kde of
        None \<Rightarrow> Some (Some (replicate key_data_len 0, 0))
      | Some kde \<Rightarrow>
          if \<not> encr then Some (Some (kde, word_of_nat kde_len))
          else
            let buf = kde @ (if uses_aes_wrap m \<and> wrap_pad kde_len \<noteq> 0 then [0xdd] else []);
                buf = buf @ replicate (key_data_len - length buf) 0
            in if uses_aes_wrap m then
                 Some (map_option (\<lambda>c. (c, word_of_nat key_data_len))
                   (aes_wrap (pk_kek (sm_PTK m)) (length (pk_kek (sm_PTK m))) ((key_data_len - 8) div 8) buf))
               else if length (pk_kek (sm_PTK m)) = 16 then
                 map_option (\<lambda>c. Some (c, word_of_nat key_data_len)) (rc4_skip (iv @ pk_kek (sm_PTK m)) 256 buf)
               else Some None)"

text \<open>The frame with a clear MIC field.\<close>

definition eapol_key_frame ::
    "u8 \<Rightarrow> u8 \<Rightarrow> u16 \<Rightarrow> u16 \<Rightarrow> bytes \<Rightarrow> bytes \<Rightarrow> bytes \<Rightarrow> bytes \<Rightarrow> nat \<Rightarrow> u16 \<Rightarrow> bytes \<Rightarrow> bytes" where
  "eapol_key_frame version type key_info key_length replay nonce iv rsc mic_len data_len key_data =
     (let body = [type] @ WPA_PUT_BE16 key_info @ WPA_PUT_BE16 key_length @ replay @ nonce @ iv @ rsc @
                 replicate 8 0 @ replicate mic_len 0 @ WPA_PUT_BE16 data_len @ key_data
      in [version, IEEE802_1X_TYPE_EAPOL_KEY] @ WPA_PUT_BE16 (word_of_nat (length body)) @ body)"

definition shift_replay :: "wpa_key_replay_counter list \<Rightarrow> wpa_key_replay_counter list" where
  "shift_replay r = \<lparr>rc_counter = inc_byte_array (rc_counter (hd r)), rc_valid = True\<rparr> # butlast r"

text \<open>\<^verbatim>\<open>__wpa_send_eapol\<close> with \<^verbatim>\<open>force_version = 0\<close>.\<close>

definition wpa_send_eapol' ::
    "wenv \<Rightarrow> nat \<Rightarrow> u16 \<Rightarrow> bytes option \<Rightarrow> bytes option \<Rightarrow> bytes option \<Rightarrow> nat \<Rightarrow> nat \<Rightarrow> bool \<Rightarrow> auth \<Rightarrow> auth run" where
  "wpa_send_eapol' e i key_info key_rsc nonce kde kde_len keyidx encr s = do {
     m \<leftarrow> au_sm s i;
     let mic_len = wpa_mic_len (sm_wpa_key_mgmt m) (sm_pmk_len m);
     let (ok, s) = ask (we_malloc e) s;
     if \<not> ok then Some s
     else do {
       let ki = key_info_of m key_info keyidx encr;
       let pairwise = (key_info AND WPA_KEY_INFO_KEY_TYPE \<noteq> 0);
       let alg = (if pairwise then sm_pairwise m else ac_wpa_group (au_conf s));
       let klen = (if sm_wpa m = WPA_VERSION_WPA2 \<and> \<not> pairwise then 0 else word_of_nat (wpa_cipher_key_len alg));
       let type = (if sm_wpa m = WPA_VERSION_WPA2 then EAPOL_KEY_TYPE_RSN else EAPOL_KEY_TYPE_WPA);
       s \<leftarrow> mod_sm i (\<lambda>m. m\<lparr>sm_key_replay := shift_replay (sm_key_replay m)\<rparr>) s;
       let (ok, s) = (if kde \<noteq> None \<and> encr then ask (we_malloc e) s else (True, s));
       if \<not> ok then Some s
       else do {
         let rc4 = (kde \<noteq> None \<and> encr \<and> \<not> uses_aes_wrap m \<and> length (pk_kek (sm_PTK m)) = 16);
         let iv = (if rc4 then drop (WPA_NONCE_LEN - 16) (wg_Counter (au_group s)) else replicate 16 0);
         let s = (if rc4 then mod_group (\<lambda>g. g\<lparr>wg_Counter := inc_byte_array (wg_Counter g)\<rparr>) s else s);
         kd \<leftarrow> eapol_key_data m kde kde_len encr iv;
         case kd of None \<Rightarrow> Some s
         | Some (key_data, data_len) \<Rightarrow> do {
             let key_data = (if mic_len = 0 \<and> encr then key_data @ replicate 16 0 else key_data);
             let frame = eapol_key_frame (ac_eapol_version (au_conf s)) type ki klen
               (inc_byte_array (rc_counter (hd (sm_key_replay m))))
               (case nonce of None \<Rightarrow> replicate WPA_NONCE_LEN 0 | Some n \<Rightarrow> n) iv
               (case key_rsc of None \<Rightarrow> replicate WPA_KEY_RSC_LEN 0 | Some r \<Rightarrow> r) mic_len data_len key_data;
             mic \<leftarrow> (if ki AND WPA_KEY_INFO_MIC = 0 then Some (Some [])
                     else if \<not> sm_PTK_valid m \<or> mic_len = 0 then Some None
                     else wpa_eapol_key_mic (we_hm512 e) (pk_kck (sm_PTK m)) (sm_wpa_key_mgmt m) (eapol_version_of m) frame);
             case mic of None \<Rightarrow> Some s
             | Some mic \<Rightarrow> do {
                 frame \<leftarrow> mem_write frame mic_pos mic;
                 s \<leftarrow> wpa_auth_set_eapol i WPA_EAPOL_inc_EapolFramesTx 1 s;
                 Some (log_ev (EapolTx i frame (sm_pairwise_set m)) s) } } } } }"

abbreviation (input) eapol_key_timeout_first :: nat where "eapol_key_timeout_first \<equiv> 100"
abbreviation (input) eapol_key_timeout_subseq :: nat where "eapol_key_timeout_subseq \<equiv> 1000"
abbreviation (input) eapol_key_timeout_first_group :: nat where "eapol_key_timeout_first_group \<equiv> 500"
abbreviation (input) eapol_key_timeout_no_retrans :: nat where "eapol_key_timeout_no_retrans \<equiv> 4000"

definition wpa_send_eapol ::
    "wenv \<Rightarrow> nat \<Rightarrow> u16 \<Rightarrow> bytes option \<Rightarrow> bytes option \<Rightarrow> bytes option \<Rightarrow> nat \<Rightarrow> nat \<Rightarrow> bool \<Rightarrow> auth \<Rightarrow> auth run" where
  "wpa_send_eapol e i key_info key_rsc nonce kde kde_len keyidx encr s = do {
     s \<leftarrow> wpa_send_eapol' e i key_info key_rsc nonce kde kde_len keyidx encr s;
     m \<leftarrow> au_sm s i;
     let pairwise = (key_info AND WPA_KEY_INFO_KEY_TYPE \<noteq> 0);
     let ctr = (if pairwise then sm_TimeoutCtr m else sm_GTimeoutCtr m);
     let timeout_ms = (if ctr = 1 \<and> ac_tx_status (au_conf s)
                       then if pairwise then eapol_key_timeout_first else eapol_key_timeout_first_group
                       else eapol_key_timeout_subseq);
     let timeout_ms = (if ac_wpa_disable_eapol_key_retries (au_conf s) \<and>
                         (\<not> pairwise \<or> key_info AND WPA_KEY_INFO_MIC \<noteq> 0)
                       then eapol_key_timeout_no_retrans else timeout_ms);
     mod_sm i (\<lambda>m. m\<lparr>sm_pending_1_of_4_timeout :=
         (pairwise \<and> ctr = 1 \<and> key_info AND WPA_KEY_INFO_MIC = 0 \<or> sm_pending_1_of_4_timeout m),
       sm_timeouts := timeout_ms # sm_timeouts m\<rparr>) s }"

subsection \<open>Events of the station machine\<close>

definition ptk0 :: wpa_ptk where
  "ptk0 = \<lparr>pk_kck = [], pk_kek = [], pk_tk = [], pk_kck2 = [], pk_kek2 = []\<rparr>"

definition wpa_remove_ptk :: "wenv \<Rightarrow> nat \<Rightarrow> auth \<Rightarrow> auth run" where
  "wpa_remove_ptk e i s = do {
     s \<leftarrow> mod_sm i (\<lambda>m. m\<lparr>sm_PTK_valid := False, sm_PTK := ptk0\<rparr>) s;
     let (r, s) = wpa_auth_set_key e (Some i) WPA_ALG_NONE 0 [] s;
     mod_sm i (\<lambda>m. m\<lparr>sm_pairwise_set := False, sm_rekey_ptk_timer := False\<rparr>) s }"

text \<open>The first part of \<^verbatim>\<open>wpa_auth_sm_event\<close>, the \<^verbatim>\<open>switch\<close>.\<close>

definition sm_event_request :: "step \<Rightarrow> wpa_event \<Rightarrow> nat \<Rightarrow> auth \<Rightarrow> (int \<times> auth) run" where
  "sm_event_request step ev i s = do {
     m \<leftarrow> au_sm s i;
     if ev = WPA_DEAUTH \<or> ev = WPA_DISASSOC then do {
       s \<leftarrow> mod_sm i (\<lambda>m. m\<lparr>sm_DeauthenticationRequest := True\<rparr>) s;
       Some (0, s) }
     else if ev = WPA_REAUTH \<or> ev = WPA_REAUTH_EAPOL then
       if \<not> sm_started m then do {
         s \<leftarrow> mod_sm i (\<lambda>m. m\<lparr>sm_started := True, sm_Init := True\<rparr>) s;
         (r, s) \<leftarrow> step i s;
         if r = 1 then Some (1, s)
         else do {
           s \<leftarrow> mod_sm i (\<lambda>m. m\<lparr>sm_Init := False, sm_AuthenticationRequest := True\<rparr>) s;
           Some (0, s) } }
       else do {
         s \<leftarrow> (if sm_GUpdateStationKeys m then
                 mod_sm i (\<lambda>m. m\<lparr>sm_GUpdateStationKeys := False, sm_PtkGroupInit := True\<rparr>)
                   (mod_group (\<lambda>g. g\<lparr>wg_GKeyDoneStations := wg_GKeyDoneStations g - 1\<rparr>) s)
               else Some s);
         s \<leftarrow> mod_sm i (\<lambda>m. m\<lparr>sm_ReAuthenticationRequest := True\<rparr>) s;
         Some (0, s) }
     else Some (0, s) }"

definition wpa_auth_sm_event :: "wenv \<Rightarrow> step \<Rightarrow> wpa_event \<Rightarrow> nat \<Rightarrow> auth \<Rightarrow> (int \<times> auth) run" where
  "wpa_auth_sm_event e step ev i s =
     (if ev = WPA_DRV_STA_REMOVED then do {
        s \<leftarrow> mod_sm i (\<lambda>m. m\<lparr>sm_tk_already_set := False\<rparr>) s;
        Some (0, s) }
      else do {
        (r, s) \<leftarrow> sm_event_request step ev i s;
        if r = 1 then Some (1, s)
        else do {
          m \<leftarrow> au_sm s i;
          s \<leftarrow> (if sm_mgmt_frame_prot m \<and> ev = WPA_AUTH then Some s
                else do {
                  s \<leftarrow> mod_sm i (\<lambda>m. m\<lparr>sm_PTK_valid := False, sm_PTK := ptk0\<rparr>) s;
                  if ev \<noteq> WPA_REAUTH_EAPOL then wpa_remove_ptk e i s else Some s });
          m \<leftarrow> au_sm s i;
          if sm_in_step_loop m then do {
            s \<leftarrow> mod_sm i (\<lambda>m. m\<lparr>sm_changed := True\<rparr>) s;
            Some (0, s) }
          else step i s } })"

definition wpa_sta_disconnect :: "wenv \<Rightarrow> step \<Rightarrow> nat \<Rightarrow> u16 \<Rightarrow> auth \<Rightarrow> auth run" where
  "wpa_sta_disconnect e step i reason s = do {
     (r, s) \<leftarrow> wpa_auth_sm_event e step WPA_DEAUTH i (log_ev (StaDisconnect i reason) s);
     Some s }"

subsection \<open>States of the pairwise key machine\<close>

definition SM_ENTRY_PTK :: "wpa_ptk_state \<Rightarrow> nat \<Rightarrow> auth \<Rightarrow> auth run" where
  "SM_ENTRY_PTK st i s = mod_sm i (\<lambda>m. m\<lparr>sm_changed := True, sm_ptk_state := st\<rparr>) s"

text \<open>\<^verbatim>\<open>if (sm->GUpdateStationKeys) sm->group->GKeyDoneStations--; sm->GUpdateStationKeys = FALSE;\<close>\<close>

definition gkey_done :: "nat \<Rightarrow> auth \<Rightarrow> auth run" where
  "gkey_done i s = do {
     m \<leftarrow> au_sm s i;
     let s = (if sm_GUpdateStationKeys m
              then mod_group (\<lambda>g. g\<lparr>wg_GKeyDoneStations := wg_GKeyDoneStations g - 1\<rparr>) s else s);
     mod_sm i (\<lambda>m. m\<lparr>sm_GUpdateStationKeys := False\<rparr>) s }"

definition psk_like :: "wpa_state_machine \<Rightarrow> bool" where
  "psk_like m \<longleftrightarrow> wpa_key_mgmt_wpa_psk (sm_wpa_key_mgmt m) \<or> sm_wpa_key_mgmt m = WPA_KEY_MGMT_DPP \<or>
     sm_wpa_key_mgmt m = WPA_KEY_MGMT_OWE"

definition WPA_PTK_INITIALIZE_Enter :: "wenv \<Rightarrow> step \<Rightarrow> nat \<Rightarrow> auth \<Rightarrow> auth run" where
  "WPA_PTK_INITIALIZE_Enter e step i s = do {
     s \<leftarrow> SM_ENTRY_PTK WPA_PTK_INITIALIZE i s;
     s \<leftarrow> mod_sm i (\<lambda>m. if sm_Init m then m\<lparr>sm_changed := False\<rparr> else m) s;
     s \<leftarrow> mod_sm i (\<lambda>m. m\<lparr>sm_keycount := 0\<rparr>) s;
     s \<leftarrow> gkey_done i s;
     s \<leftarrow> mod_sm i (\<lambda>m. m\<lparr>sm_PInitAKeys := (if sm_wpa m = WPA_VERSION_WPA then False else sm_PInitAKeys m),
                            sm_Pair := True\<rparr>) s;
     s \<leftarrow> wpa_auth_set_eapol i WPA_EAPOL_portEnabled 0 s;
     s \<leftarrow> wpa_remove_ptk e i s;
     s \<leftarrow> wpa_auth_set_eapol i WPA_EAPOL_portValid 0 s;
     s \<leftarrow> mod_sm i (\<lambda>m. m\<lparr>sm_TimeoutCtr := 0\<rparr>) s;
     m \<leftarrow> au_sm s i;
     if psk_like m then wpa_auth_set_eapol i WPA_EAPOL_authorized 0 s else Some s }"

definition WPA_PTK_DISCONNECT_Enter :: "wenv \<Rightarrow> step \<Rightarrow> nat \<Rightarrow> auth \<Rightarrow> auth run" where
  "WPA_PTK_DISCONNECT_Enter e step i s = do {
     m \<leftarrow> au_sm s i;
     s \<leftarrow> SM_ENTRY_PTK WPA_PTK_DISCONNECT i s;
     s \<leftarrow> mod_sm i (\<lambda>m. m\<lparr>sm_Disconnect := False, sm_disconnect_reason := 0\<rparr>) s;
     wpa_sta_disconnect e step i
       (if sm_disconnect_reason m = 0 then 2 else sm_disconnect_reason m) s }"

definition WPA_PTK_DISCONNECTED_Enter :: "wenv \<Rightarrow> step \<Rightarrow> nat \<Rightarrow> auth \<Rightarrow> auth run" where
  "WPA_PTK_DISCONNECTED_Enter e step i s = do {
     s \<leftarrow> SM_ENTRY_PTK WPA_PTK_DISCONNECTED i s;
     mod_sm i (\<lambda>m. m\<lparr>sm_DeauthenticationRequest := False\<rparr>) s }"

definition WPA_PTK_AUTHENTICATION_Enter :: "wenv \<Rightarrow> step \<Rightarrow> nat \<Rightarrow> auth \<Rightarrow> auth run" where
  "WPA_PTK_AUTHENTICATION_Enter e step i s = do {
     s \<leftarrow> SM_ENTRY_PTK WPA_PTK_AUTHENTICATION i s;
     s \<leftarrow> mod_sm i (\<lambda>m. m\<lparr>sm_PTK := ptk0, sm_PTK_valid := False\<rparr>) s;
     s \<leftarrow> wpa_auth_set_eapol i WPA_EAPOL_portControl_Auto 1 s;
     s \<leftarrow> wpa_auth_set_eapol i WPA_EAPOL_portEnabled 1 s;
     mod_sm i (\<lambda>m. m\<lparr>sm_AuthenticationRequest := False\<rparr>) s }"

text \<open>A new nonce, or a request to disconnect.\<close>

definition draw_ANonce :: "wenv \<Rightarrow> nat \<Rightarrow> auth \<Rightarrow> (int \<times> auth) run" where
  "draw_ANonce e i s =
     (case random_get_bytes e WPA_NONCE_LEN s of
        (None, s) \<Rightarrow> do {
          s \<leftarrow> mod_sm i (\<lambda>m. m\<lparr>sm_Disconnect := True\<rparr>) s;
          Some (- 1, s) }
      | (Some n, s) \<Rightarrow> do {
          s \<leftarrow> mod_sm i (\<lambda>m. m\<lparr>sm_ANonce := n, sm_TimeoutCtr := 0\<rparr>) s;
          Some (0, log_ev (ANonceDrawn i n) s) })"

definition WPA_PTK_AUTHENTICATION2_Enter :: "wenv \<Rightarrow> step \<Rightarrow> nat \<Rightarrow> auth \<Rightarrow> auth run" where
  "WPA_PTK_AUTHENTICATION2_Enter e step i s = do {
     s \<leftarrow> SM_ENTRY_PTK WPA_PTK_AUTHENTICATION2 i s;
     s \<leftarrow> wpa_group_ensure_init e s;
     s \<leftarrow> mod_sm i (\<lambda>m. m\<lparr>sm_ReAuthenticationRequest := False\<rparr>) s;
     (r, s) \<leftarrow> draw_ANonce e i s;
     Some s }"

definition wpa_auth_sm_ptk_update :: "wenv \<Rightarrow> nat \<Rightarrow> auth \<Rightarrow> (int \<times> auth) run" where
  "wpa_auth_sm_ptk_update e i s = draw_ANonce e i s"

text \<open>Copying a key of \<open>n\<close> octets into \<^verbatim>\<open>sm->PMK\<close>.\<close>

definition set_PMK :: "nat \<Rightarrow> bytes \<Rightarrow> nat \<Rightarrow> auth \<Rightarrow> auth run" where
  "set_PMK i pmk n s = do {
     m \<leftarrow> au_sm s i;
     k \<leftarrow> mem_read pmk 0 n;
     p \<leftarrow> mem_write (sm_PMK m) 0 k;
     mod_sm i (\<lambda>m. m\<lparr>sm_PMK := p, sm_pmk_len := n\<rparr>) s }"

definition WPA_PTK_INITPMK_Enter :: "wenv \<Rightarrow> step \<Rightarrow> nat \<Rightarrow> auth \<Rightarrow> auth run" where
  "WPA_PTK_INITPMK_Enter e step i s = do {
     s \<leftarrow> SM_ENTRY_PTK WPA_PTK_INITPMK i s;
     m \<leftarrow> au_sm s i;
     (ok, s) \<leftarrow>
       (case sm_pmksa m of
          Some p \<Rightarrow> do { s \<leftarrow> set_PMK i (pe_pmk p) (length (pe_pmk p)) s; Some (True, s) }
        | None \<Rightarrow>
            if sm_wpa_key_mgmt m = WPA_KEY_MGMT_DPP then do {
              s \<leftarrow> mod_sm i (\<lambda>m. m\<lparr>sm_Disconnect := True, sm_disconnect_reason := 49\<rparr>) s;
              Some (False, s) }
            else
              case ask (\<lambda>t. we_get_msk e t i) s of
                (Some msk, s) \<Rightarrow>
                  let pmk_len = (if wpa_key_mgmt_sha384 (sm_wpa_key_mgmt m) then 48 else 32) in
                  if length msk < pmk_len then do {
                    s \<leftarrow> mod_sm i (\<lambda>m. m\<lparr>sm_Disconnect := True\<rparr>) s;
                    Some (False, s) }
                  else do { s \<leftarrow> set_PMK i msk pmk_len s; Some (True, s) }
              | (None, s) \<Rightarrow> do {
                  s \<leftarrow> mod_sm i (\<lambda>m. m\<lparr>sm_Disconnect := True\<rparr>) s;
                  Some (False, s) });
     if \<not> ok then Some s
     else do {
       s \<leftarrow> mod_sm i (\<lambda>m. m\<lparr>sm_req_replay_counter_used := False\<rparr>) s;
       wpa_auth_set_eapol i WPA_EAPOL_keyRun 0 s } }"

definition WPA_PTK_INITPSK_Enter :: "wenv \<Rightarrow> step \<Rightarrow> nat \<Rightarrow> auth \<Rightarrow> auth run" where
  "WPA_PTK_INITPSK_Enter e step i s = do {
     s \<leftarrow> SM_ENTRY_PTK WPA_PTK_INITPSK i s;
     let (psks, s) = ask (\<lambda>t. we_get_psk e t i) s;
     s \<leftarrow> (case psks of [] \<Rightarrow> Some s | psk # _ \<Rightarrow> set_PMK i psk (length psk) s);
     m \<leftarrow> au_sm s i;
     s \<leftarrow> (case sm_pmksa m of
             Some p \<Rightarrow> if wpa_key_mgmt_sae (sm_wpa_key_mgmt m) then set_PMK i (pe_pmk p) (length (pe_pmk p)) s
                       else Some s
           | None \<Rightarrow> Some s);
     mod_sm i (\<lambda>m. m\<lparr>sm_req_replay_counter_used := False\<rparr>) s }"

text \<open>The PMKID key data of message 1/4: the pointer and \<^verbatim>\<open>pmkid_len\<close>, which is not reset when there turns
  out to be no PMKID.\<close>

definition m1_pmkid :: "auth \<Rightarrow> wpa_state_machine \<Rightarrow> (bytes option \<times> nat) run" where
  "m1_pmkid s m =
     (let akm = sm_wpa_key_mgmt m in
      if sm_wpa m = WPA_VERSION_WPA2 \<and>
         (wpa_key_mgmt_wpa_ieee8021x akm \<or> akm = WPA_KEY_MGMT_OWE \<and> sm_pmksa m \<noteq> None \<or> wpa_key_mgmt_sae akm) \<and>
         akm \<noteq> WPA_KEY_MGMT_OSEN
      then do {
        pmkid \<leftarrow> (case sm_pmksa m of
                    Some p \<Rightarrow> Some (Some (pe_pmkid p))
                  | None \<Rightarrow>
                      if wpa_key_mgmt_suite_b akm then Some None
                      else if wpa_key_mgmt_sae akm then Some (if sm_pmkid_set m then Some (sm_pmkid m) else None)
                      else map_option Some (rsn_pmkid (take (sm_pmk_len m) (sm_PMK m)) (wa_addr (au_wa s)) (sm_addr m) akm));
        Some (map_option (\<lambda>p. wpa_add_kde RSN_KEY_DATA_PMKID p []) pmkid, 2 + RSN_SELECTOR_LEN + PMKID_LEN) }
      else Some (None, 0))"

definition WPA_PTK_PTKSTART_Enter :: "wenv \<Rightarrow> step \<Rightarrow> nat \<Rightarrow> auth \<Rightarrow> auth run" where
  "WPA_PTK_PTKSTART_Enter e step i s = do {
     s \<leftarrow> SM_ENTRY_PTK WPA_PTK_PTKSTART i s;
     s \<leftarrow> mod_sm i (\<lambda>m. m\<lparr>sm_PTKRequest := False, sm_TimeoutEvt := False, sm_alt_snonce_valid := False,
                            sm_TimeoutCtr := sm_TimeoutCtr m + 1\<rparr>) s;
     m \<leftarrow> au_sm s i;
     if sm_TimeoutCtr m > ac_wpa_pairwise_update_count (au_conf s) then Some s
     else do {
       (pmkid, pmkid_len) \<leftarrow> m1_pmkid s m;
       wpa_send_eapol e i (WPA_KEY_INFO_ACK OR WPA_KEY_INFO_KEY_TYPE) None (Some (sm_ANonce m)) pmkid pmkid_len 0 False s } }"

definition wpa_derive_ptk :: "wenv \<Rightarrow> auth \<Rightarrow> wpa_state_machine \<Rightarrow> bytes \<Rightarrow> bytes \<Rightarrow> wpa_ptk option run" where
  "wpa_derive_ptk e s m snonce pmk =
     wpa_pmk_to_ptk (we_hm512 e) pmk (ascii ''Pairwise key expansion'') (wa_addr (au_wa s)) (sm_addr m)
       (sm_ANonce m) snonce (sm_wpa_key_mgmt m) (sm_pairwise m)"

text \<open>The loop over the possible master keys, shared by \<^verbatim>\<open>PTKCALCNEGOTIATING\<close> and \<^verbatim>\<open>wpa_try_alt_snonce\<close>: the
  key that makes the MIC of the frame right and the pairwise key derived from it.  The frame is passed
  along since the check changes it in place.\<close>

fun try_pmks ::
    "wenv \<Rightarrow> auth \<Rightarrow> wpa_state_machine \<Rightarrow> bytes \<Rightarrow> bytes list \<Rightarrow> bytes \<Rightarrow> ((bytes \<times> wpa_ptk) option \<times> bytes) run" where
  "try_pmks e s m snonce [] data = Some (None, data)"
| "try_pmks e s m snonce (pmk # pmks) data = do {
     r \<leftarrow> wpa_derive_ptk e s m snonce pmk;
     case r of None \<Rightarrow> Some (None, data)
     | Some PTK \<Rightarrow> do {
         (rc, data) \<leftarrow> (if wpa_mic_len (sm_wpa_key_mgmt m) (sm_pmk_len m) = 0 then Some (- 1, data)
                        else wpa_verify_key_mic (we_hm512 e) (sm_wpa_key_mgmt m) (length pmk) PTK data);
         if rc = 0 then Some (Some (pmk, PTK), data)
         else if \<not> wpa_key_mgmt_wpa_psk (sm_wpa_key_mgmt m) \<or> wpa_key_mgmt_sae (sm_wpa_key_mgmt m)
         then Some (None, data)
         else try_pmks e s m snonce pmks data } }"

definition uses_psk :: "wpa_state_machine \<Rightarrow> bool" where
  "uses_psk m \<longleftrightarrow> wpa_key_mgmt_wpa_psk (sm_wpa_key_mgmt m) \<and> \<not> wpa_key_mgmt_sae (sm_wpa_key_mgmt m)"

definition candidate_pmks :: "wenv \<Rightarrow> nat \<Rightarrow> wpa_state_machine \<Rightarrow> auth \<Rightarrow> bytes list \<times> auth" where
  "candidate_pmks e i m s =
     (if uses_psk m then ask (\<lambda>t. we_get_psk e t i) s else ([take (sm_pmk_len m) (sm_PMK m)], s))"

text \<open>The element of message 2/4 that is compared with the one of the association.\<close>

definition m2_ie :: "bytes \<Rightarrow> wpa_eapol_ie_parse \<Rightarrow> bytes option run" where
  "m2_ie key_data kde =
     (case (if ie_rsn_ie kde \<noteq> None then ie_rsn_ie kde else if ie_osen kde \<noteq> None then ie_osen kde else ie_wpa_ie kde) of
        None \<Rightarrow> Some None
      | Some (p, l) \<Rightarrow> map_option Some (mem_read key_data p l))"

text \<open>The outcome of the checks that follow: nothing (the function returns), a disconnection, or success.\<close>

datatype m2_check = M2_ignore | M2_disconnect | M2_ok

definition check_m2 :: "wpa_state_machine \<Rightarrow> bytes \<Rightarrow> m2_check run" where
  "check_m2 m data = do {
     let mic_len = wpa_mic_len (sm_wpa_key_mgmt m) (sm_pmk_len m);
     l \<leftarrow> mem_read data (mic_pos + mic_len) 2;
     let key_data_length = unat (WPA_GET_BE16 l);
     if key_data_length > length data - sizeof_hdr - sizeof_key - mic_len - 2 then Some M2_ignore
     else do {
       key_data \<leftarrow> mem_read data (mic_pos + mic_len + 2) key_data_length;
       (rc, kde) \<leftarrow> wpa_parse_kde_ies key_data;
       if rc < 0 then Some M2_ignore
       else do {
         ie \<leftarrow> m2_ie key_data kde;
         let ft = (sm_wpa m = WPA_VERSION_WPA2 \<and> wpa_key_mgmt_ft (sm_wpa_key_mgmt m));
         rc \<leftarrow> wpa_compare_rsn_ie ft (sm_wpa_ie m) ie;
         Some (if sm_wpa_ie m = None \<or> rc \<noteq> 0 then M2_disconnect else M2_ok) } } }"

definition WPA_PTK_PTKCALCNEGOTIATING_Enter :: "wenv \<Rightarrow> step \<Rightarrow> nat \<Rightarrow> auth \<Rightarrow> auth run" where
  "WPA_PTK_PTKCALCNEGOTIATING_Enter e step i s = do {
     s \<leftarrow> SM_ENTRY_PTK WPA_PTK_PTKCALCNEGOTIATING i s;
     s \<leftarrow> mod_sm i (\<lambda>m. m\<lparr>sm_EAPOLKeyReceived := False, sm_update_snonce := False\<rparr>) s;
     m \<leftarrow> au_sm s i;
     data \<leftarrow> sm_last_rx_eapol_key m;
     let (pmks, s) = candidate_pmks e i m s;
     (res, data) \<leftarrow> try_pmks e s m (sm_SNonce m) pmks data;
     s \<leftarrow> mod_sm i (\<lambda>m. m\<lparr>sm_last_rx_eapol_key := Some data\<rparr>) s;
     case res of
       None \<Rightarrow> Some (if uses_psk m \<and> pmks \<noteq> [] then log_ev (PskFailure i) s else s)
     | Some (pmk, PTK) \<Rightarrow> do {
         c \<leftarrow> check_m2 m data;
         case c of
           M2_ignore \<Rightarrow> Some s
         | M2_disconnect \<Rightarrow> wpa_sta_disconnect e step i 2 s
         | M2_ok \<Rightarrow> do {
             s \<leftarrow> mod_sm i (\<lambda>m. m\<lparr>sm_pending_1_of_4_timeout := False, sm_timeouts := []\<rparr>) s;
             s \<leftarrow> (if wpa_key_mgmt_wpa_psk (sm_wpa_key_mgmt m)
                   then set_PMK i (if uses_psk m then pmk else sm_PMK m) 32 s else Some s);
             mod_sm i (\<lambda>m. m\<lparr>sm_MICVerified := True, sm_PTK := PTK, sm_PTK_valid := True\<rparr>) s } } }"

definition WPA_PTK_PTKCALCNEGOTIATING2_Enter :: "wenv \<Rightarrow> step \<Rightarrow> nat \<Rightarrow> auth \<Rightarrow> auth run" where
  "WPA_PTK_PTKCALCNEGOTIATING2_Enter e step i s = do {
     s \<leftarrow> SM_ENTRY_PTK WPA_PTK_PTKCALCNEGOTIATING2 i s;
     mod_sm i (\<lambda>m. m\<lparr>sm_TimeoutCtr := 0\<rparr>) s }"

text \<open>The elements of the access point that go into message 3/4; for a WPA station those of RSN are
  skipped.\<close>

definition m3_wpa_ie :: "auth \<Rightarrow> wpa_state_machine \<Rightarrow> bytes run" where
  "m3_wpa_ie s m =
     (let ie = wa_wpa_ie (au_wa s) in
      if sm_wpa m = WPA_VERSION_WPA \<and> ac_wpa (au_conf s) AND WPA_PROTO_RSN \<noteq> 0 then do {
        h \<leftarrow> mem_read ie 0 2;
        if length ie > unat (h ! 1) + 2 \<and> h ! 0 = WLAN_EID_RSN then do {
          let ie = drop (unat (h ! 1) + 2) ie;
          h \<leftarrow> mem_read ie 0 2;
          let ie = (if h ! 0 = WLAN_EID_MOBILITY_DOMAIN then drop (unat (h ! 1) + 2) ie else ie);
          h \<leftarrow> mem_read ie 0 2;
          mem_read ie 0 (unat (h ! 1) + 2) }
        else Some ie }
      else Some ie)"

definition ieee80211w_kde_add :: "wenv \<Rightarrow> nat \<Rightarrow> auth \<Rightarrow> (bytes \<times> auth) run" where
  "ieee80211w_kde_add e i s = do {
     m \<leftarrow> au_sm s i;
     if \<not> sm_mgmt_frame_prot m then Some ([], s)
     else do {
       let gsm = au_group s;
       let (rsc, s) = (if wg_state gsm \<noteq> WPA_GROUP_SETKEYSDONE then (None, s) else ask (we_get_seqnum e) s);
       let pn = (case rsc of None \<Rightarrow> replicate 6 0 | Some r \<Rightarrow> take 6 r);
       igtk \<leftarrow> current_igtk s;
       let (rnd, s) = (if ac_disable_gtk (au_conf s) \<or> sm_wpa_key_mgmt m = WPA_KEY_MGMT_OSEN
                       then random_get_bytes e (length igtk) s else (Some igtk, s));
       case rnd of
         None \<Rightarrow> Some ([], s)
       | Some igtk \<Rightarrow>
           Some (wpa_add_kde RSN_KEY_DATA_IGTK ([word_of_nat (wg_GN_igtk gsm), 0] @ pn @ igtk) [], s) } }"

text \<open>The group key that a station is given: a random one where the group key is not to be used.\<close>

definition gtk_for_sta :: "wenv \<Rightarrow> wpa_state_machine \<Rightarrow> auth \<Rightarrow> (bytes option \<times> auth) run" where
  "gtk_for_sta e m s = do {
     gtk \<leftarrow> current_gtk s;
     Some (if ac_disable_gtk (au_conf s) \<or> sm_wpa_key_mgmt m = WPA_KEY_MGMT_OSEN
           then random_get_bytes e (length gtk) s else (Some gtk, s)) }"

definition mic_bit :: "wpa_state_machine \<Rightarrow> u16" where
  "mic_bit m = (if wpa_mic_len (sm_wpa_key_mgmt m) (sm_pmk_len m) \<noteq> 0 then WPA_KEY_INFO_MIC else 0)"

definition WPA_PTK_PTKINITNEGOTIATING_Enter :: "wenv \<Rightarrow> step \<Rightarrow> nat \<Rightarrow> auth \<Rightarrow> auth run" where
  "WPA_PTK_PTKINITNEGOTIATING_Enter e step i s = do {
     s \<leftarrow> SM_ENTRY_PTK WPA_PTK_PTKINITNEGOTIATING i s;
     s \<leftarrow> mod_sm i (\<lambda>m. m\<lparr>sm_TimeoutEvt := False, sm_TimeoutCtr := sm_TimeoutCtr m + 1\<rparr>) s;
     m \<leftarrow> au_sm s i;
     if ac_wpa_disable_eapol_key_retries (au_conf s) \<and> sm_TimeoutCtr m > 1 then Some s
     else if sm_TimeoutCtr m > ac_wpa_pairwise_update_count (au_conf s) then Some s
     else do {
       let gsm = au_group s;
       let (rsc, s) = ask (we_get_seqnum e) s;
       let rsc = (case rsc of None \<Rightarrow> replicate WPA_KEY_RSC_LEN 0 | Some r \<Rightarrow> r);
       wpa_ie \<leftarrow> m3_wpa_ie s m;
       (ok, gtk, s) \<leftarrow> (if sm_wpa m = WPA_VERSION_WPA2
                         then do { (g, s) \<leftarrow> gtk_for_sta e m s; Some (g \<noteq> None, g, s) }
                         else Some (True, None, s));
       if \<not> ok then Some s
       else do {
         let (mem, s) = ask (we_malloc e) s;
         if \<not> mem then Some s
         else do {
           let rsn = (sm_wpa m = WPA_VERSION_WPA2);
           let secure = (rsn \<or> sm_rx_eapol_key_secure m);
           let keyidx = (if rsn then wg_GN gsm else 0);
           (igtk, s) \<leftarrow> ieee80211w_kde_add e i s;
           let kde = wpa_ie @
             (case gtk of None \<Rightarrow> [] | Some g \<Rightarrow> wpa_add_kde RSN_KEY_DATA_GROUPKEY [word_of_nat keyidx AND 3, 0] g) @ igtk;
           wpa_send_eapol e i
             ((if secure then WPA_KEY_INFO_SECURE else 0) OR mic_bit m OR
              WPA_KEY_INFO_ACK OR WPA_KEY_INFO_INSTALL OR WPA_KEY_INFO_KEY_TYPE)
             (if rsn then Some rsc else None) (Some (sm_ANonce m)) (Some kde) (length kde) keyidx rsn s } } } }"

definition WPA_PTK_PTKINITDONE_Enter :: "wenv \<Rightarrow> step \<Rightarrow> nat \<Rightarrow> auth \<Rightarrow> auth run" where
  "WPA_PTK_PTKINITDONE_Enter e step i s = do {
     s \<leftarrow> SM_ENTRY_PTK WPA_PTK_PTKINITDONE i s;
     s \<leftarrow> mod_sm i (\<lambda>m. m\<lparr>sm_EAPOLKeyReceived := False\<rparr>) s;
     m \<leftarrow> au_sm s i;
     (ok, s) \<leftarrow>
       (if sm_Pair m then do {
          tk \<leftarrow> mem_read (pk_tk (sm_PTK m) @ replicate (32 - length (pk_tk (sm_PTK m))) 0) 0 (wpa_cipher_key_len (sm_pairwise m));
          let (r, s) = wpa_auth_set_key e (Some i) (wpa_cipher_to_alg (sm_pairwise m)) 0 tk s;
          if r \<noteq> 0 then do {
            s \<leftarrow> wpa_sta_disconnect e step i 2 s;
            Some (False, s) }
          else do {
            s \<leftarrow> mod_sm i (\<lambda>m. m\<lparr>sm_pairwise_set := True,
                   sm_rekey_ptk_timer := (ac_wpa_ptk_rekey (au_conf s) \<or> sm_rekey_ptk_timer m)\<rparr>) s;
            s \<leftarrow> (if psk_like m then wpa_auth_set_eapol i WPA_EAPOL_authorized 1 s else Some s);
            Some (True, s) } }
        else Some (True, s));
     if \<not> ok then Some s
     else do {
       s \<leftarrow> wpa_auth_set_eapol i WPA_EAPOL_portValid 1 s;
       s \<leftarrow> wpa_auth_set_eapol i WPA_EAPOL_keyAvailable 0 s;
       s \<leftarrow> wpa_auth_set_eapol i WPA_EAPOL_keyDone 1 s;
       mod_sm i (\<lambda>m. if sm_wpa m = WPA_VERSION_WPA then m\<lparr>sm_PInitAKeys := True\<rparr>
                       else m\<lparr>sm_has_GTK := True\<rparr>) s } }"

definition count_failure :: "auth \<Rightarrow> auth" where
  "count_failure s = mod_wa (\<lambda>a. a\<lparr>wa_4way_failures := wa_4way_failures a + 1\<rparr>) s"

definition pairwise_key_received :: "wpa_state_machine \<Rightarrow> bool" where
  "pairwise_key_received m \<longleftrightarrow> sm_EAPOLKeyReceived m \<and> \<not> sm_EAPOLKeyRequest m \<and> sm_EAPOLKeyPairwise m"

text \<open>The \<^verbatim>\<open>switch\<close> of \<^verbatim>\<open>SM_STEP(WPA_PTK)\<close>.\<close>

definition WPA_PTK_switch :: "wenv \<Rightarrow> step \<Rightarrow> wpa_state_machine \<Rightarrow> nat \<Rightarrow> auth \<Rightarrow> auth run" where
  "WPA_PTK_switch e step m i s =
     (case sm_ptk_state m of
        WPA_PTK_INITIALIZE \<Rightarrow> Some s
      | WPA_PTK_DISCONNECT \<Rightarrow> WPA_PTK_DISCONNECTED_Enter e step i s
      | WPA_PTK_DISCONNECTED \<Rightarrow> WPA_PTK_INITIALIZE_Enter e step i s
      | WPA_PTK_AUTHENTICATION \<Rightarrow> WPA_PTK_AUTHENTICATION2_Enter e step i s
      | WPA_PTK_AUTHENTICATION2 \<Rightarrow>
          if wpa_key_mgmt_wpa_ieee8021x (sm_wpa_key_mgmt m) \<and> wpa_auth_get_eapol m WPA_EAPOL_keyRun
          then WPA_PTK_INITPMK_Enter e step i s
          else if wpa_key_mgmt_wpa_psk (sm_wpa_key_mgmt m) \<or> sm_wpa_key_mgmt m = WPA_KEY_MGMT_OWE
          then WPA_PTK_INITPSK_Enter e step i s
          else if sm_wpa_key_mgmt m = WPA_KEY_MGMT_DPP then WPA_PTK_INITPMK_Enter e step i s
          else Some s
      | WPA_PTK_INITPMK \<Rightarrow>
          if wpa_auth_get_eapol m WPA_EAPOL_keyAvailable then WPA_PTK_PTKSTART_Enter e step i s
          else if sm_wpa_key_mgmt m = WPA_KEY_MGMT_DPP \<and> sm_pmksa m \<noteq> None then WPA_PTK_PTKSTART_Enter e step i s
          else WPA_PTK_DISCONNECT_Enter e step i (count_failure s)
      | WPA_PTK_INITPSK \<Rightarrow>
          (let (psks, s) = ask (\<lambda>t. we_get_psk e t i) s in
           if psks \<noteq> [] then WPA_PTK_PTKSTART_Enter e step i s
           else if wpa_key_mgmt_sae (sm_wpa_key_mgmt m) \<and> sm_pmksa m \<noteq> None then WPA_PTK_PTKSTART_Enter e step i s
           else WPA_PTK_DISCONNECT_Enter e step i (count_failure s))
      | WPA_PTK_PTKSTART \<Rightarrow>
          if pairwise_key_received m then WPA_PTK_PTKCALCNEGOTIATING_Enter e step i s
          else if sm_TimeoutCtr m > ac_wpa_pairwise_update_count (au_conf s)
          then WPA_PTK_DISCONNECT_Enter e step i (count_failure s)
          else if sm_TimeoutEvt m then WPA_PTK_PTKSTART_Enter e step i s
          else Some s
      | WPA_PTK_PTKCALCNEGOTIATING \<Rightarrow>
          if sm_MICVerified m then WPA_PTK_PTKCALCNEGOTIATING2_Enter e step i s
          else if pairwise_key_received m then WPA_PTK_PTKCALCNEGOTIATING_Enter e step i s
          else if sm_TimeoutEvt m then WPA_PTK_PTKSTART_Enter e step i s
          else Some s
      | WPA_PTK_PTKCALCNEGOTIATING2 \<Rightarrow> WPA_PTK_PTKINITNEGOTIATING_Enter e step i s
      | WPA_PTK_PTKINITNEGOTIATING \<Rightarrow>
          if sm_update_snonce m then WPA_PTK_PTKCALCNEGOTIATING_Enter e step i s
          else if pairwise_key_received m \<and> sm_MICVerified m then WPA_PTK_PTKINITDONE_Enter e step i s
          else if sm_TimeoutCtr m > ac_wpa_pairwise_update_count (au_conf s) \<or>
            ac_wpa_disable_eapol_key_retries (au_conf s) \<and> sm_TimeoutCtr m > 1
          then WPA_PTK_DISCONNECT_Enter e step i (count_failure s)
          else if sm_TimeoutEvt m then WPA_PTK_PTKINITNEGOTIATING_Enter e step i s
          else Some s
      | WPA_PTK_PTKINITDONE \<Rightarrow> Some s)"

definition WPA_PTK_Step :: "wenv \<Rightarrow> step \<Rightarrow> nat \<Rightarrow> auth \<Rightarrow> auth run" where
  "WPA_PTK_Step e step i s = do {
     m \<leftarrow> au_sm s i;
     if sm_Init m then WPA_PTK_INITIALIZE_Enter e step i s
     else if sm_Disconnect m then WPA_PTK_DISCONNECT_Enter e step i s
     else if sm_DeauthenticationRequest m then WPA_PTK_DISCONNECTED_Enter e step i s
     else if sm_AuthenticationRequest m then WPA_PTK_AUTHENTICATION_Enter e step i s
     else if sm_ReAuthenticationRequest m then WPA_PTK_AUTHENTICATION2_Enter e step i s
     else if sm_PTKRequest m then do {
       (r, s) \<leftarrow> wpa_auth_sm_ptk_update e i s;
       if r < 0 then WPA_PTK_DISCONNECTED_Enter e step i s else WPA_PTK_PTKSTART_Enter e step i s }
     else WPA_PTK_switch e step m i s }"

subsection \<open>States of the group key handshake\<close>

definition SM_ENTRY_PTK_GROUP :: "wpa_ptk_group_state \<Rightarrow> nat \<Rightarrow> auth \<Rightarrow> auth run" where
  "SM_ENTRY_PTK_GROUP st i s = mod_sm i (\<lambda>m. m\<lparr>sm_changed := True, sm_ptk_group_state := st\<rparr>) s"

definition WPA_PTK_GROUP_IDLE_Enter :: "nat \<Rightarrow> auth \<Rightarrow> auth run" where
  "WPA_PTK_GROUP_IDLE_Enter i s = do {
     s \<leftarrow> SM_ENTRY_PTK_GROUP WPA_PTK_GROUP_IDLE i s;
     s \<leftarrow> mod_sm i (\<lambda>m. if sm_Init m then m\<lparr>sm_changed := False\<rparr> else m) s;
     mod_sm i (\<lambda>m. m\<lparr>sm_GTimeoutCtr := 0\<rparr>) s }"

definition WPA_PTK_GROUP_REKEYNEGOTIATING_Enter :: "wenv \<Rightarrow> nat \<Rightarrow> auth \<Rightarrow> auth run" where
  "WPA_PTK_GROUP_REKEYNEGOTIATING_Enter e i s = do {
     s \<leftarrow> SM_ENTRY_PTK_GROUP WPA_PTK_GROUP_REKEYNEGOTIATING i s;
     s \<leftarrow> mod_sm i (\<lambda>m. m\<lparr>sm_GTimeoutCtr := sm_GTimeoutCtr m + 1\<rparr>) s;
     m \<leftarrow> au_sm s i;
     if ac_wpa_disable_eapol_key_retries (au_conf s) \<and> sm_GTimeoutCtr m > 1 then Some s
     else if sm_GTimeoutCtr m > ac_wpa_group_update_count (au_conf s) then Some s
     else do {
       s \<leftarrow> mod_sm i (\<lambda>m. m\<lparr>sm_PInitAKeys := (if sm_wpa m = WPA_VERSION_WPA then False else sm_PInitAKeys m),
                              sm_TimeoutEvt := False\<rparr>) s;
       let gsm = au_group s;
       let (rsc, s) = (if wg_state gsm = WPA_GROUP_SETKEYSDONE then ask (we_get_seqnum e) s else (None, s));
       let rsc = (case rsc of None \<Rightarrow> replicate WPA_KEY_RSC_LEN 0 | Some r \<Rightarrow> r);
       (gtk, s) \<leftarrow> gtk_for_sta e m s;
       case gtk of
         None \<Rightarrow> Some s
       | Some gtk \<Rightarrow> do {
           (ok, kde, s) \<leftarrow>
             (if sm_wpa m = WPA_VERSION_WPA2 then do {
                let (mem, s) = ask (we_malloc e) s;
                if \<not> mem then Some (False, [], s)
                else do {
                  (igtk, s) \<leftarrow> ieee80211w_kde_add e i s;
                  Some (True, wpa_add_kde RSN_KEY_DATA_GROUPKEY [word_of_nat (wg_GN gsm) AND 3, 0] gtk @ igtk, s) } }
              else Some (True, gtk, s));
           if \<not> ok then Some s
           else wpa_send_eapol e i
                  (WPA_KEY_INFO_SECURE OR mic_bit m OR WPA_KEY_INFO_ACK OR (if \<not> sm_Pair m then WPA_KEY_INFO_INSTALL else 0))
                  (Some rsc) None (Some kde) (length kde) (wg_GN gsm) True s } } }"

definition WPA_PTK_GROUP_REKEYESTABLISHED_Enter :: "nat \<Rightarrow> auth \<Rightarrow> auth run" where
  "WPA_PTK_GROUP_REKEYESTABLISHED_Enter i s = do {
     s \<leftarrow> SM_ENTRY_PTK_GROUP WPA_PTK_GROUP_REKEYESTABLISHED i s;
     s \<leftarrow> mod_sm i (\<lambda>m. m\<lparr>sm_EAPOLKeyReceived := False\<rparr>) s;
     s \<leftarrow> gkey_done i s;
     mod_sm i (\<lambda>m. m\<lparr>sm_GTimeoutCtr := 0, sm_has_GTK := True\<rparr>) s }"

definition WPA_PTK_GROUP_KEYERROR_Enter :: "nat \<Rightarrow> auth \<Rightarrow> auth run" where
  "WPA_PTK_GROUP_KEYERROR_Enter i s = do {
     s \<leftarrow> SM_ENTRY_PTK_GROUP WPA_PTK_GROUP_KEYERROR i s;
     s \<leftarrow> gkey_done i s;
     mod_sm i (\<lambda>m. m\<lparr>sm_Disconnect := True\<rparr>) s }"

definition WPA_PTK_GROUP_Step :: "wenv \<Rightarrow> nat \<Rightarrow> auth \<Rightarrow> auth run" where
  "WPA_PTK_GROUP_Step e i s = do {
     m \<leftarrow> au_sm s i;
     if sm_Init m \<or> sm_PtkGroupInit m then do {
       s \<leftarrow> WPA_PTK_GROUP_IDLE_Enter i s;
       mod_sm i (\<lambda>m. m\<lparr>sm_PtkGroupInit := False\<rparr>) s }
     else
       case sm_ptk_group_state m of
         WPA_PTK_GROUP_IDLE \<Rightarrow>
           if sm_GUpdateStationKeys m \<or> sm_wpa m = WPA_VERSION_WPA \<and> sm_PInitAKeys m
           then WPA_PTK_GROUP_REKEYNEGOTIATING_Enter e i s else Some s
       | WPA_PTK_GROUP_REKEYNEGOTIATING \<Rightarrow>
           if sm_EAPOLKeyReceived m \<and> \<not> sm_EAPOLKeyRequest m \<and> \<not> sm_EAPOLKeyPairwise m \<and> sm_MICVerified m
           then WPA_PTK_GROUP_REKEYESTABLISHED_Enter i s
           else if sm_GTimeoutCtr m > ac_wpa_group_update_count (au_conf s) \<or>
             ac_wpa_disable_eapol_key_retries (au_conf s) \<and> sm_GTimeoutCtr m > 1
           then WPA_PTK_GROUP_KEYERROR_Enter i s
           else if sm_TimeoutEvt m then WPA_PTK_GROUP_REKEYNEGOTIATING_Enter e i s
           else Some s
       | WPA_PTK_GROUP_KEYERROR \<Rightarrow> WPA_PTK_GROUP_IDLE_Enter i s
       | WPA_PTK_GROUP_REKEYESTABLISHED \<Rightarrow> WPA_PTK_GROUP_IDLE_Enter i s }"

subsection \<open>The group key machine\<close>

definition zero_GTK :: "bytes list" where
  "zero_GTK = [replicate 32 0, replicate 32 0]"

definition wpa_group_gtk_init :: "wenv \<Rightarrow> auth \<Rightarrow> auth run" where
  "wpa_group_gtk_init e s = do {
     let s = mod_group (\<lambda>g. g\<lparr>wg_changed := False, wg_state := WPA_GROUP_GTK_INIT, wg_GTK := zero_GTK,
                              wg_GN := 1, wg_GM := 2, wg_GN_igtk := 4, wg_GM_igtk := 5\<rparr>) s;
     (r, s) \<leftarrow> wpa_gtk_update e s;
     Some s }"

definition wpa_group_update_sta :: "step \<Rightarrow> nat \<Rightarrow> auth \<Rightarrow> auth run" where
  "wpa_group_update_sta step i s = do {
     m \<leftarrow> au_sm s i;
     if sm_ptk_state m \<noteq> WPA_PTK_PTKINITDONE then mod_sm i (\<lambda>m. m\<lparr>sm_GUpdateStationKeys := False\<rparr>) s
     else if sm_is_wnmsleep m then Some s
     else do {
       let s = mod_group (\<lambda>g. g\<lparr>wg_GKeyDoneStations := wg_GKeyDoneStations g + 1\<rparr>) s;
       s \<leftarrow> mod_sm i (\<lambda>m. m\<lparr>sm_GUpdateStationKeys := True\<rparr>) s;
       (r, s) \<leftarrow> step i s;
       Some s } }"

text \<open>\<^verbatim>\<open>wpa_auth_for_each_sta\<close> with a callback that returns 0: stations without a machine are skipped.\<close>

fun for_each_sta :: "(nat \<Rightarrow> auth \<Rightarrow> auth run) \<Rightarrow> nat list \<Rightarrow> auth \<Rightarrow> auth run" where
  "for_each_sta cb [] s = Some s"
| "for_each_sta cb (i # is) s = do {
     s \<leftarrow> (if au_sm s i = None then Some s else cb i s);
     for_each_sta cb is s }"

definition swap_group_keys :: "wpa_group \<Rightarrow> wpa_group" where
  "swap_group_keys g = g\<lparr>wg_GM := wg_GN g, wg_GN := wg_GM g, wg_GM_igtk := wg_GN_igtk g, wg_GN_igtk := wg_GM_igtk g\<rparr>"

definition wpa_group_setkeys :: "wenv \<Rightarrow> step \<Rightarrow> auth \<Rightarrow> auth run" where
  "wpa_group_setkeys e step s = do {
     let s = mod_group (\<lambda>g. swap_group_keys (g\<lparr>wg_changed := True, wg_state := WPA_GROUP_SETKEYS, wg_GTKReKey := False\<rparr>)) s;
     (r, s) \<leftarrow> wpa_gtk_update e s;
     let s = mod_group (\<lambda>g. g\<lparr>wg_GKeyDoneStations := 0\<rparr>) s;
     for_each_sta (wpa_group_update_sta step) (au_list s) s }"

definition wpa_group_disconnect_cb :: "nat \<Rightarrow> auth \<Rightarrow> auth run" where
  "wpa_group_disconnect_cb i s = mod_sm i (\<lambda>m. m\<lparr>sm_Disconnect := True\<rparr>) s"

definition wpa_group_fatal_failure :: "auth \<Rightarrow> auth run" where
  "wpa_group_fatal_failure s = do {
     let s = mod_group (\<lambda>g. g\<lparr>wg_changed := True, wg_state := WPA_GROUP_FATAL_FAILURE\<rparr>) s;
     for_each_sta wpa_group_disconnect_cb (au_list s) s }"

definition wpa_group_setkeysdone :: "wenv \<Rightarrow> auth \<Rightarrow> auth run" where
  "wpa_group_setkeysdone e s = do {
     let s = mod_group (\<lambda>g. g\<lparr>wg_changed := True, wg_state := WPA_GROUP_SETKEYSDONE\<rparr>) s;
     (r, s) \<leftarrow> wpa_group_config_group_keys e s;
     if r < 0 then wpa_group_fatal_failure s else Some s }"

definition wpa_group_sm_step :: "wenv \<Rightarrow> step \<Rightarrow> auth \<Rightarrow> auth run" where
  "wpa_group_sm_step e step s =
     (let g = au_group s in
      if wg_GInit g then wpa_group_gtk_init e s
      else if wg_state g = WPA_GROUP_FATAL_FAILURE then Some s
      else if wg_state g = WPA_GROUP_GTK_INIT \<and> wg_GTKAuthenticator g then wpa_group_setkeysdone e s
      else if wg_state g = WPA_GROUP_SETKEYSDONE \<and> wg_GTKReKey g then wpa_group_setkeys e step s
      else if wg_state g = WPA_GROUP_SETKEYS then
        if wg_GKeyDoneStations g = 0 then wpa_group_setkeysdone e s
        else if wg_GTKReKey g then wpa_group_setkeys e step s
        else Some s
      else Some s)"

subsection \<open>The step loop\<close>

definition wpa_free_sta_sm :: "nat \<Rightarrow> auth \<Rightarrow> auth run" where
  "wpa_free_sta_sm i s = do {
     s \<leftarrow> gkey_done i s;
     Some (log_ev (StaFreed i) (s\<lparr>au_sm := (au_sm s)(i := None), au_list := filter (\<lambda>j. j \<noteq> i) (au_list s)\<rparr>)) }"

text \<open>One round of the loop; \<open>False\<close> ends it.\<close>

definition sm_round :: "wenv \<Rightarrow> step \<Rightarrow> nat \<Rightarrow> auth \<Rightarrow> (bool \<times> auth) run" where
  "sm_round e step i s = do {
     m \<leftarrow> au_sm s i;
     if sm_pending_deinit m then Some (False, s)
     else do {
       s \<leftarrow> mod_sm i (\<lambda>m. m\<lparr>sm_changed := False\<rparr>) s;
       let s = mod_group (\<lambda>g. g\<lparr>wg_changed := False\<rparr>) s;
       s \<leftarrow> WPA_PTK_Step e step i s;
       m \<leftarrow> au_sm s i;
       if sm_pending_deinit m then Some (False, s)
       else do {
         s \<leftarrow> WPA_PTK_GROUP_Step e i s;
         m \<leftarrow> au_sm s i;
         if sm_pending_deinit m then Some (False, s)
         else do {
           s \<leftarrow> wpa_group_sm_step e step s;
           m \<leftarrow> au_sm s i;
           Some (sm_changed m \<or> wg_changed (au_group s), s) } } } }"

fun sm_loop :: "wenv \<Rightarrow> step \<Rightarrow> nat \<Rightarrow> nat \<Rightarrow> auth \<Rightarrow> auth run" where
  "sm_loop e step 0 i s = None"
| "sm_loop e step (Suc k) i s = do {
     (again, s) \<leftarrow> sm_round e step i s;
     if again then sm_loop e step k i s else Some s }"

text \<open>\<open>n\<close> bounds the depth of nested calls and the rounds of each loop.\<close>

fun wpa_sm_step :: "wenv \<Rightarrow> nat \<Rightarrow> nat \<Rightarrow> auth \<Rightarrow> (int \<times> auth) run" where
  "wpa_sm_step e 0 i s = None"
| "wpa_sm_step e (Suc n) i s = do {
     m \<leftarrow> au_sm s i;
     if sm_in_step_loop m then Some (0, s)
     else do {
       s \<leftarrow> mod_sm i (\<lambda>m. m\<lparr>sm_in_step_loop := True\<rparr>) s;
       s \<leftarrow> sm_loop e (wpa_sm_step e n) (Suc n) i s;
       s \<leftarrow> mod_sm i (\<lambda>m. m\<lparr>sm_in_step_loop := False\<rparr>) s;
       m \<leftarrow> au_sm s i;
       if sm_pending_deinit m then do {
         s \<leftarrow> wpa_free_sta_sm i s;
         Some (1, s) }
       else Some (0, s) } }"

subsection \<open>Entry points\<close>

text \<open>The loop of \<^verbatim>\<open>wpa_rekey_gtk\<close> over the states of the group machine.\<close>

fun group_loop :: "wenv \<Rightarrow> nat \<Rightarrow> nat \<Rightarrow> auth \<Rightarrow> auth run" where
  "group_loop e n 0 s = None"
| "group_loop e n (Suc k) s = do {
     s \<leftarrow> wpa_group_sm_step e (wpa_sm_step e n) (mod_group (\<lambda>g. g\<lparr>wg_changed := False\<rparr>) s);
     if wg_changed (au_group s) then group_loop e n k s else Some s }"

definition wpa_rekey_gtk :: "wenv \<Rightarrow> nat \<Rightarrow> auth \<Rightarrow> auth run" where
  "wpa_rekey_gtk e n s = do {
     let s = mod_group (\<lambda>g. g\<lparr>wg_GTKReKey := True\<rparr>) s;
     s \<leftarrow> group_loop e n n s;
     Some (mod_wa (\<lambda>a. a\<lparr>wa_rekey_gtk_timer := ac_wpa_group_rekey (wa_conf a)\<rparr>) s) }"

definition wpa_rekey_gmk :: "wenv \<Rightarrow> auth \<Rightarrow> auth" where
  "wpa_rekey_gmk e s =
     (let (r, s) = random_get_bytes e 32 s;
          s = (case r of None \<Rightarrow> s | Some gmk \<Rightarrow> mod_group (\<lambda>g. g\<lparr>wg_GMK := gmk\<rparr>) s)
      in mod_wa (\<lambda>a. a\<lparr>wa_rekey_gmk_timer := ac_wpa_gmk_rekey (wa_conf a)\<rparr>) s)"

definition wpa_request_new_ptk :: "nat \<Rightarrow> auth \<Rightarrow> auth run" where
  "wpa_request_new_ptk i s = mod_sm i (\<lambda>m. m\<lparr>sm_PTKRequest := True, sm_PTK_valid := False\<rparr>) s"

definition wpa_rekey_ptk :: "wenv \<Rightarrow> nat \<Rightarrow> nat \<Rightarrow> auth \<Rightarrow> auth run" where
  "wpa_rekey_ptk e n i s = do {
     s \<leftarrow> wpa_request_new_ptk i s;
     (r, s) \<leftarrow> wpa_sm_step e n i s;
     Some s }"

definition wpa_send_eapol_timeout :: "wenv \<Rightarrow> nat \<Rightarrow> nat \<Rightarrow> auth \<Rightarrow> auth run" where
  "wpa_send_eapol_timeout e n i s = do {
     s \<leftarrow> mod_sm i (\<lambda>m. m\<lparr>sm_pending_1_of_4_timeout := False, sm_TimeoutEvt := True\<rparr>) s;
     (r, s) \<leftarrow> wpa_sm_step e n i s;
     Some s }"

definition wpa_sm_call_step :: "wenv \<Rightarrow> nat \<Rightarrow> nat \<Rightarrow> auth \<Rightarrow> auth run" where
  "wpa_sm_call_step e n i s = do {
     (r, s) \<leftarrow> wpa_sm_step e n i s;
     Some s }"

definition wpa_gtk_rekey :: "wenv \<Rightarrow> auth \<Rightarrow> auth run" where
  "wpa_gtk_rekey e s = do {
     (r, s) \<leftarrow> wpa_gtk_update e (mod_group swap_group_keys s);
     (r, s) \<leftarrow> wpa_group_config_group_keys e s;
     (r, s) \<leftarrow> wpa_gtk_update e (mod_group swap_group_keys s);
     (r, s) \<leftarrow> wpa_group_config_group_keys e s;
     Some s }"

definition wpa_auth_reconfig_group_keys :: "wenv \<Rightarrow> auth \<Rightarrow> auth run" where
  "wpa_auth_reconfig_group_keys e s = do {
     (r, s) \<leftarrow> wpa_group_config_group_keys e s;
     Some s }"

definition wpa_auth_eapol_key_tx_status :: "nat \<Rightarrow> bool \<Rightarrow> auth \<Rightarrow> auth run" where
  "wpa_auth_eapol_key_tx_status i ack s =
     mod_sm i (\<lambda>m. if sm_pending_1_of_4_timeout m \<and> ack then m\<lparr>sm_timeouts := [eapol_key_timeout_subseq]\<rparr> else m) s"

text \<open>A fresh machine, \<^verbatim>\<open>os_zalloc\<close>.\<close>

definition sm_zero :: wpa_state_machine where
  "sm_zero = \<lparr>sm_addr = replicate 6 0, sm_ptk_state = WPA_PTK_INITIALIZE, sm_ptk_group_state = WPA_PTK_GROUP_IDLE,
     sm_Init = False, sm_DeauthenticationRequest = False, sm_AuthenticationRequest = False,
     sm_ReAuthenticationRequest = False, sm_Disconnect = False, sm_disconnect_reason = 0, sm_TimeoutCtr = 0,
     sm_GTimeoutCtr = 0, sm_TimeoutEvt = False, sm_EAPOLKeyReceived = False, sm_EAPOLKeyPairwise = False,
     sm_EAPOLKeyRequest = False, sm_MICVerified = False, sm_GUpdateStationKeys = False,
     sm_ANonce = replicate 32 0, sm_SNonce = replicate 32 0, sm_alt_SNonce = replicate 32 0,
     sm_alt_replay_counter = replicate 8 0, sm_PMK = replicate 64 0, sm_pmk_len = 0, sm_pmkid = replicate 16 0,
     sm_PTK = ptk0, sm_PTK_valid = False, sm_pairwise_set = False, sm_tk_already_set = False, sm_keycount = 0,
     sm_Pair = False, sm_key_replay = replicate 4 \<lparr>rc_counter = replicate 8 0, rc_valid = False\<rparr>,
     sm_prev_key_replay = replicate 4 \<lparr>rc_counter = replicate 8 0, rc_valid = False\<rparr>, sm_PInitAKeys = False,
     sm_PTKRequest = False, sm_has_GTK = False, sm_PtkGroupInit = False, sm_last_rx_eapol_key = None,
     sm_changed = False, sm_in_step_loop = False, sm_pending_deinit = False, sm_started = False,
     sm_mgmt_frame_prot = False, sm_rx_eapol_key_secure = False, sm_update_snonce = False,
     sm_alt_snonce_valid = False, sm_is_wnmsleep = False, sm_pmkid_set = False,
     sm_req_replay_counter = replicate 8 0, sm_req_replay_counter_used = False, sm_wpa_ie = None,
     sm_wpa = WPA_VERSION_NO_WPA, sm_pairwise = 0, sm_wpa_key_mgmt = 0, sm_pmksa = None,
     sm_remote_mic_failures = 0, sm_pending_1_of_4_timeout = False, sm_timeouts = [],
     sm_rekey_ptk_timer = False, sm_keyRun = False, sm_keyAvailable = False\<rparr>"

text \<open>\<open>i\<close> is the new pointer.\<close>

definition wpa_auth_sta_init :: "nat \<Rightarrow> bytes \<Rightarrow> auth \<Rightarrow> auth" where
  "wpa_auth_sta_init i addr s =
     (if wg_state (au_group s) = WPA_GROUP_FATAL_FAILURE then s
      else s\<lparr>au_sm := (au_sm s)(i \<mapsto> sm_zero\<lparr>sm_addr := addr\<rparr>), au_list := i # au_list s\<rparr>)"

definition wpa_auth_sta_associated :: "wenv \<Rightarrow> nat \<Rightarrow> nat \<Rightarrow> auth \<Rightarrow> (int \<times> auth) run" where
  "wpa_auth_sta_associated e n i s =
     (if ac_wpa (au_conf s) = 0 then Some (- 1, s)
      else do {
        m \<leftarrow> au_sm s i;
        if sm_started m then do {
          s \<leftarrow> mod_sm i (\<lambda>m. m\<lparr>sm_key_replay := replicate 4 \<lparr>rc_counter = replicate 8 0, rc_valid = False\<rparr>,
                                 sm_ReAuthenticationRequest := True\<rparr>) s;
          wpa_sm_step e n i s }
        else do {
          s \<leftarrow> mod_sm i (\<lambda>m. m\<lparr>sm_started := True, sm_Init := True\<rparr>) s;
          (r, s) \<leftarrow> wpa_sm_step e n i s;
          if r = 1 then Some (1, s)
          else do {
            s \<leftarrow> mod_sm i (\<lambda>m. m\<lparr>sm_Init := False, sm_AuthenticationRequest := True\<rparr>) s;
            wpa_sm_step e n i s } } })"

definition wpa_auth_sta_no_wpa :: "nat \<Rightarrow> auth \<Rightarrow> auth run" where
  "wpa_auth_sta_no_wpa i s = mod_sm i (\<lambda>m. m\<lparr>sm_wpa_key_mgmt := 0\<rparr>) s"

definition wpa_auth_sta_deinit :: "nat \<Rightarrow> auth \<Rightarrow> auth run" where
  "wpa_auth_sta_deinit i s = do {
     m \<leftarrow> au_sm s i;
     let s = (if ac_wpa_strict_rekey (au_conf s) \<and> sm_has_GTK m then mod_wa (\<lambda>a. a\<lparr>wa_rekey_gtk_timer := True\<rparr>) s else s);
     s \<leftarrow> mod_sm i (\<lambda>m. m\<lparr>sm_timeouts := [], sm_pending_1_of_4_timeout := False, sm_rekey_ptk_timer := False\<rparr>) s;
     if sm_in_step_loop m then mod_sm i (\<lambda>m. m\<lparr>sm_pending_deinit := True\<rparr>) s
     else wpa_free_sta_sm i s }"

subsection \<open>Receiving EAPOL-Key frames\<close>

fun wpa_replay_counter_valid :: "wpa_key_replay_counter list \<Rightarrow> bytes \<Rightarrow> bool" where
  "wpa_replay_counter_valid [] replay_counter = False"
| "wpa_replay_counter_valid (c # cs) replay_counter =
     (if \<not> rc_valid c then False
      else if os_memcmp replay_counter (rc_counter c) = 0 then True
      else wpa_replay_counter_valid cs replay_counter)"

definition wpa_replay_counter_mark_invalid ::
    "bytes option \<Rightarrow> wpa_key_replay_counter list \<Rightarrow> wpa_key_replay_counter list" where
  "wpa_replay_counter_mark_invalid replay_counter ctr =
     map (\<lambda>c. if rc_valid c \<and> (case replay_counter of None \<Rightarrow> True | Some r \<Rightarrow> os_memcmp r (rc_counter c) = 0)
              then c\<lparr>rc_valid := False\<rparr> else c) ctr"

datatype rx_msg = PAIRWISE_2 | PAIRWISE_4 | GROUP_2 | REQUEST

definition rx_classify :: "u16 \<Rightarrow> nat \<Rightarrow> nat \<Rightarrow> rx_msg" where
  "rx_classify key_info key_data_length mic_len =
     (if key_info AND WPA_KEY_INFO_REQUEST \<noteq> 0 then REQUEST
      else if key_info AND WPA_KEY_INFO_KEY_TYPE = 0 then GROUP_2
      else if key_data_length = 0 \<or>
        mic_len = 0 \<and> key_info AND WPA_KEY_INFO_ENCR_KEY_DATA \<noteq> 0 \<and> key_data_length = 16 then PAIRWISE_4
      else PAIRWISE_2)"

text \<open>The key descriptor version fits the negotiated ciphers.\<close>

definition rx_version_ok :: "wpa_state_machine \<Rightarrow> u16 \<Rightarrow> bool" where
  "rx_version_ok m key_info =
     (let ver = key_info AND WPA_KEY_INFO_TYPE_MASK; akm = sm_wpa_key_mgmt m in
      if (sm_pairwise m = WPA_CIPHER_CCMP \<or> sm_pairwise m = WPA_CIPHER_GCMP) \<and>
         (wpa_use_cmac akm \<and> \<not> wpa_use_akm_defined akm \<and> ver \<noteq> WPA_KEY_INFO_TYPE_AES_128_CMAC \<or>
          \<not> wpa_use_cmac akm \<and> \<not> wpa_use_akm_defined akm \<and> ver \<noteq> WPA_KEY_INFO_TYPE_HMAC_SHA1_AES)
      then False
      else \<not> (wpa_use_akm_defined akm \<and> ver \<noteq> WPA_KEY_INFO_TYPE_AKM_DEFINED))"

text \<open>The checks of the header: the message, the key information and the length of the key data; \<open>None\<close>
  drops the frame.\<close>

definition rx_header :: "wpa_state_machine \<Rightarrow> bytes \<Rightarrow> (rx_msg \<times> u16 \<times> nat) option run" where
  "rx_header m data =
     (let mic_len = wpa_mic_len (sm_wpa_key_mgmt m) (sm_pmk_len m);
          keyhdrlen = sizeof_key + mic_len + 2
      in if length data < sizeof_hdr + keyhdrlen then Some None
         else do {
           l \<leftarrow> mem_read data (mic_pos + mic_len) 2;
           let key_info = ek_key_info data;
           let key_data_length = unat (WPA_GET_BE16 l);
           let msg = rx_classify key_info key_data_length mic_len;
           Some (if key_data_length > length data - sizeof_hdr - keyhdrlen then None
                 else if sm_wpa m = WPA_VERSION_WPA2 \<and> ek_type data \<noteq> EAPOL_KEY_TYPE_WPA \<and> ek_type data \<noteq> EAPOL_KEY_TYPE_RSN
                 then None
                 else if sm_wpa m \<noteq> WPA_VERSION_WPA2 \<and> ek_type data \<noteq> EAPOL_KEY_TYPE_WPA then None
                 else if key_info AND WPA_KEY_INFO_SMK_MESSAGE \<noteq> 0 then None
                 else if \<not> rx_version_ok m key_info then None
                 else Some (msg, key_info, key_data_length)) })"

text \<open>The check of the replay counter, with the two exceptions for a station that changed its nonce.\<close>

definition rx_replay :: "wpa_state_machine \<Rightarrow> rx_msg \<Rightarrow> u16 \<Rightarrow> bytes \<Rightarrow> wpa_state_machine option" where
  "rx_replay m msg key_info data =
     (let rc = ek_replay_counter data in
      if key_info AND WPA_KEY_INFO_REQUEST \<noteq> 0 then
        if sm_req_replay_counter_used m \<and> os_memcmp rc (sm_req_replay_counter m) \<le> 0 then None else Some m
      else if wpa_replay_counter_valid (sm_key_replay m) rc then Some m
      else if msg = PAIRWISE_2 \<and> wpa_replay_counter_valid (sm_prev_key_replay m) rc \<and>
        sm_ptk_state m = WPA_PTK_PTKINITNEGOTIATING \<and> os_memcmp (sm_SNonce m) (ek_key_nonce data) \<noteq> 0
      then Some (m\<lparr>sm_update_snonce := True, sm_alt_SNonce := sm_SNonce m, sm_alt_snonce_valid := True,
                   sm_alt_replay_counter := rc_counter (hd (sm_key_replay m))\<rparr>)
      else if msg = PAIRWISE_4 \<and> sm_alt_snonce_valid m \<and> sm_ptk_state m = WPA_PTK_PTKINITNEGOTIATING \<and>
        os_memcmp rc (sm_alt_replay_counter m) = 0
      then Some m
      else None)"

text \<open>The check of the state of the machine.\<close>

definition rx_state_ok :: "wpa_state_machine \<Rightarrow> rx_msg \<Rightarrow> bool" where
  "rx_state_ok m msg =
     (case msg of
        PAIRWISE_2 \<Rightarrow> sm_ptk_state m = WPA_PTK_PTKSTART \<or> sm_ptk_state m = WPA_PTK_PTKCALCNEGOTIATING \<or>
          sm_update_snonce m \<and> sm_ptk_state m = WPA_PTK_PTKINITNEGOTIATING
      | PAIRWISE_4 \<Rightarrow> sm_ptk_state m = WPA_PTK_PTKINITNEGOTIATING \<and> sm_PTK_valid m
      | GROUP_2 \<Rightarrow> sm_ptk_group_state m = WPA_PTK_GROUP_REKEYNEGOTIATING \<and> sm_PTK_valid m
      | REQUEST \<Rightarrow> True)"

definition wpa_try_alt_snonce :: "wenv \<Rightarrow> nat \<Rightarrow> bytes \<Rightarrow> auth \<Rightarrow> (int \<times> bytes \<times> auth) run" where
  "wpa_try_alt_snonce e i data s = do {
     m \<leftarrow> au_sm s i;
     let (pmks, s) = candidate_pmks e i m s;
     (res, data) \<leftarrow> try_pmks e s m (sm_alt_SNonce m) pmks data;
     case res of
       None \<Rightarrow> Some (- 1, data, s)
     | Some (pmk, PTK) \<Rightarrow> do {
         s \<leftarrow> mod_sm i (\<lambda>m. m\<lparr>sm_alt_snonce_valid := False, sm_SNonce := sm_alt_SNonce m, sm_PTK := PTK, sm_PTK_valid := True\<rparr>) s;
         Some (0, data, s) } }"

text \<open>The check of the MIC; \<open>False\<close> drops the frame.\<close>

definition rx_mic :: "wenv \<Rightarrow> nat \<Rightarrow> rx_msg \<Rightarrow> bytes \<Rightarrow> auth \<Rightarrow> (bool \<times> bytes \<times> auth) run" where
  "rx_mic e i msg data s = do {
     s \<leftarrow> mod_sm i (\<lambda>m. m\<lparr>sm_MICVerified := False\<rparr>) s;
     m \<leftarrow> au_sm s i;
     if sm_PTK_valid m \<and> \<not> sm_update_snonce m then do {
       (ok, data, s) \<leftarrow>
         (if wpa_mic_len (sm_wpa_key_mgmt m) (sm_pmk_len m) = 0 then Some (True, data, s)
          else do {
            (rc, data) \<leftarrow> wpa_verify_key_mic (we_hm512 e) (sm_wpa_key_mgmt m) (sm_pmk_len m) (sm_PTK m) data;
            if rc = 0 then Some (True, data, s)
            else if msg \<noteq> PAIRWISE_4 \<or> \<not> sm_alt_snonce_valid m then Some (False, data, s)
            else do {
              (rc, data, s) \<leftarrow> wpa_try_alt_snonce e i data s;
              Some (rc = 0, data, s) } });
       if \<not> ok then Some (False, data, s)
       else do {
         s \<leftarrow> mod_sm i (\<lambda>m. m\<lparr>sm_MICVerified := True, sm_timeouts := [], sm_pending_1_of_4_timeout := False\<rparr>) s;
         Some (True, data, s) } }
     else Some (True, data, s) }"

fun deinit_all :: "nat list \<Rightarrow> auth \<Rightarrow> auth run" where
  "deinit_all [] s = Some s"
| "deinit_all (i # is) s = do {
     s \<leftarrow> (if au_sm s i = None then Some s else wpa_auth_sta_deinit i s);
     deinit_all is s }"

text \<open>What \<^verbatim>\<open>ieee80211_tkip_countermeasures_start\<close> does to the authenticator.\<close>

definition tkip_countermeasures_start :: "wenv \<Rightarrow> auth \<Rightarrow> auth run" where
  "tkip_countermeasures_start e s = do {
     let s = mod_wa (\<lambda>a. a\<lparr>wa_countermeasures := wa_countermeasures a + 1\<rparr>) s;
     s \<leftarrow> wpa_gtk_rekey e s;
     deinit_all (au_list s) s }"

definition wpa_receive_error_report :: "wenv \<Rightarrow> nat \<Rightarrow> bool \<Rightarrow> auth \<Rightarrow> (int \<times> auth) run" where
  "wpa_receive_error_report e i grp s = do {
     m \<leftarrow> au_sm s i;
     (removed, s) \<leftarrow>
       (if grp \<and> ac_wpa_group (au_conf s) \<noteq> WPA_CIPHER_TKIP then Some (False, s)
        else if \<not> grp \<and> sm_pairwise m \<noteq> WPA_CIPHER_TKIP then Some (False, s)
        else do {
          let (r, s) = ask (we_mic_failure e) s;
          if r > 0 then do {
            s \<leftarrow> tkip_countermeasures_start e s;
            Some (True, s) }
          else do {
            s \<leftarrow> mod_sm i (\<lambda>m. m\<lparr>sm_remote_mic_failures := sm_remote_mic_failures m + 1\<rparr>) s;
            Some (False, mod_wa (\<lambda>a. a\<lparr>wa_remote_mic_failures := wa_remote_mic_failures a + 1\<rparr>) s) } });
     if removed then Some (1, s)
     else do {
       s \<leftarrow> wpa_request_new_ptk i s;
       Some (0, s) } }"

text \<open>A request; \<open>False\<close> ends the processing.\<close>

definition rx_request :: "wenv \<Rightarrow> nat \<Rightarrow> nat \<Rightarrow> u16 \<Rightarrow> nat \<Rightarrow> bytes \<Rightarrow> auth \<Rightarrow> (bool \<times> auth) run" where
  "rx_request e n i key_info key_data_length data s = do {
     m \<leftarrow> au_sm s i;
     if \<not> sm_MICVerified m then Some (False, s)
     else do {
       s \<leftarrow> mod_sm i (\<lambda>m. m\<lparr>sm_req_replay_counter_used := True, sm_req_replay_counter := ek_replay_counter data\<rparr>) s;
       if key_info AND WPA_KEY_INFO_ERROR \<noteq> 0 then do {
         (r, s) \<leftarrow> wpa_receive_error_report e i (key_info AND WPA_KEY_INFO_KEY_TYPE = 0) s;
         Some (r \<le> 0, s) }
       else if key_info AND WPA_KEY_INFO_KEY_TYPE \<noteq> 0 then do {
         s \<leftarrow> wpa_request_new_ptk i s;
         Some (True, s) }
       else do {
         mac \<leftarrow> (if key_data_length > 0 then do {
                    kd \<leftarrow> mem_read data (mic_pos + wpa_mic_len (sm_wpa_key_mgmt m) (sm_pmk_len m) + 2) key_data_length;
                    (rc, kde) \<leftarrow> wpa_parse_kde_ies kd;
                    Some (rc = 0 \<and> ie_mac_addr kde \<noteq> None) }
                  else Some False);
         if mac then Some (True, s)
         else do {
           s \<leftarrow> wpa_rekey_gtk e n s;
           Some (True, s) } } } }"

text \<open>Using up the replay counters.\<close>

definition rx_consume :: "rx_msg \<Rightarrow> bytes \<Rightarrow> wpa_state_machine \<Rightarrow> wpa_state_machine" where
  "rx_consume msg data m =
     (let kr = wpa_replay_counter_mark_invalid (Some (ek_replay_counter data)) (sm_key_replay m) in
      m\<lparr>sm_key_replay := wpa_replay_counter_mark_invalid None kr,
        sm_prev_key_replay :=
          (if msg = PAIRWISE_2 then kr else replicate 4 \<lparr>rc_counter = replicate 8 0, rc_valid = False\<rparr>)\<rparr>)"

definition rx_store :: "u16 \<Rightarrow> bytes \<Rightarrow> wpa_state_machine \<Rightarrow> wpa_state_machine" where
  "rx_store key_info data m =
     m\<lparr>sm_last_rx_eapol_key := Some data,
       sm_rx_eapol_key_secure := (key_info AND WPA_KEY_INFO_SECURE \<noteq> 0),
       sm_EAPOLKeyReceived := True,
       sm_EAPOLKeyPairwise := (key_info AND WPA_KEY_INFO_KEY_TYPE \<noteq> 0),
       sm_EAPOLKeyRequest := (key_info AND WPA_KEY_INFO_REQUEST \<noteq> 0),
       sm_SNonce := ek_key_nonce data\<rparr>"

text \<open>What follows the check of the MIC.\<close>

definition rx_finish :: "wenv \<Rightarrow> nat \<Rightarrow> nat \<Rightarrow> rx_msg \<Rightarrow> u16 \<Rightarrow> nat \<Rightarrow> bytes \<Rightarrow> auth \<Rightarrow> auth run" where
  "rx_finish e n i msg key_info key_data_length data s = do {
     (go, s) \<leftarrow> (if key_info AND WPA_KEY_INFO_REQUEST \<noteq> 0 then rx_request e n i key_info key_data_length data s
                 else do {
                   s \<leftarrow> mod_sm i (rx_consume msg data) s;
                   Some (True, s) });
     if \<not> go then Some s
     else do {
       let (ok, s) = ask (we_malloc e) s;
       if \<not> ok then mod_sm i (\<lambda>m. m\<lparr>sm_last_rx_eapol_key := None\<rparr>) s
       else do {
         s \<leftarrow> mod_sm i (rx_store key_info data) s;
         (r, s) \<leftarrow> wpa_sm_step e n i s;
         Some s } } }"

definition wpa_receive :: "wenv \<Rightarrow> nat \<Rightarrow> nat \<Rightarrow> bytes \<Rightarrow> auth \<Rightarrow> auth run" where
  "wpa_receive e n i data s =
     (if ac_wpa (au_conf s) = 0 then Some s
      else do {
        m \<leftarrow> au_sm s i;
        h \<leftarrow> rx_header m data;
        case h of
          None \<Rightarrow> Some s
        | Some (msg, key_info, key_data_length) \<Rightarrow>
            (case rx_replay m msg key_info data of
               None \<Rightarrow> Some s
             | Some m' \<Rightarrow> do {
                 s \<leftarrow> mod_sm i (\<lambda>_. m') s;
                 if \<not> rx_state_ok m' msg then Some s
                 else if msg = PAIRWISE_2 \<and> wg_reject_4way_hs_for_entropy (au_group s)
                 then wpa_sta_disconnect e (wpa_sm_step e n) i 2 s
                 else if key_info AND WPA_KEY_INFO_ACK \<noteq> 0 then Some s
                 else if \<not> wpa_key_mgmt_fils (sm_wpa_key_mgmt m') \<and> key_info AND WPA_KEY_INFO_MIC = 0 then Some s
                 else do {
                   (ok, data, s) \<leftarrow> rx_mic e i msg data s;
                   if \<not> ok then Some s
                   else rx_finish e n i msg key_info key_data_length data s } }) })"

subsection \<open>Starting the authenticator\<close>

definition wpa_init_keys :: "wenv \<Rightarrow> nat \<Rightarrow> auth \<Rightarrow> (int \<times> auth) run" where
  "wpa_init_keys e n s = do {
     s \<leftarrow> wpa_group_sm_step e (wpa_sm_step e n) s;
     s \<leftarrow> wpa_group_sm_step e (wpa_sm_step e n) (mod_group (\<lambda>g. g\<lparr>wg_GInit := False\<rparr>) s);
     Some (if wg_state (au_group s) = WPA_GROUP_FATAL_FAILURE then - 1 else 0, s) }"

definition group_zero :: wpa_group where
  "group_zero = \<lparr>wg_GInit = False, wg_GKeyDoneStations = 0, wg_GTKReKey = False, wg_GTK_len = 0, wg_GN = 0, wg_GM = 0,
     wg_GTKAuthenticator = False, wg_Counter = replicate 32 0, wg_state = WPA_GROUP_GTK_INIT, wg_GMK = replicate 32 0,
     wg_GTK = zero_GTK, wg_GNonce = replicate 32 0, wg_changed = False, wg_first_sta_seen = False,
     wg_reject_4way_hs_for_entropy = False, wg_IGTK = zero_GTK, wg_GN_igtk = 0, wg_GM_igtk = 0\<rparr>"

text \<open>\<^verbatim>\<open>wpa_group_init\<close> with a delayed start; \<open>None\<close> is the failure of the random number generator.\<close>

definition wpa_group_init :: "wenv \<Rightarrow> auth \<Rightarrow> auth option" where
  "wpa_group_init e s =
     (let s = mod_wa (\<lambda>a. a\<lparr>wa_group := group_zero\<lparr>wg_GTKAuthenticator := True,
                wg_GTK_len := wpa_cipher_key_len (ac_wpa_group (wa_conf a))\<rparr>\<rparr>) s;
          (ready, s) = ask (we_pool_ready e) s;
          (r, s) = wpa_group_init_gmk_and_counter e s
      in if r < 0 then None else Some (mod_group (\<lambda>g. g\<lparr>wg_GInit := True\<rparr>) s))"

definition wpa_init :: "wenv \<Rightarrow> bytes \<Rightarrow> wpa_auth_conf \<Rightarrow> auth option run" where
  "wpa_init e addr conf = do {
     r \<leftarrow> wpa_auth_gen_wpa_ie (wpa_auth_config.truncate conf);
     case r of
       Inl _ \<Rightarrow> Some None
     | Inr ie \<Rightarrow>
         let wa = \<lparr>wa_addr = addr, wa_conf = conf, wa_group = group_zero, wa_wpa_ie = ie, wa_remote_mic_failures = 0,
                   wa_countermeasures = 0, wa_4way_failures = 0, wa_rekey_gtk_timer = False, wa_rekey_gmk_timer = False\<rparr>
         in Some (case wpa_group_init e \<lparr>au_wa = wa, au_sm = (\<lambda>_. None), au_list = [], au_tick = 0, au_log = []\<rparr> of
              None \<Rightarrow> None
            | Some s \<Rightarrow>
                Some (mod_wa (\<lambda>a. a\<lparr>wa_rekey_gmk_timer := ac_wpa_gmk_rekey conf, wa_rekey_gtk_timer := ac_wpa_group_rekey conf\<rparr>) s)) }"

definition wpa_reconfig :: "wenv \<Rightarrow> nat \<Rightarrow> wpa_auth_conf \<Rightarrow> auth \<Rightarrow> (int \<times> auth) run" where
  "wpa_reconfig e n conf s = do {
     let s = mod_wa (\<lambda>a. a\<lparr>wa_conf := conf\<rparr>) s;
     r \<leftarrow> wpa_auth_gen_wpa_ie (wpa_auth_config.truncate conf);
     case r of
       Inl _ \<Rightarrow> Some (- 1, s)
     | Inr ie \<Rightarrow> do {
         let s = mod_wa (\<lambda>a. a\<lparr>wa_wpa_ie := ie\<rparr>) s;
         let s = mod_group (\<lambda>g. g\<lparr>wg_GTK_len := wpa_cipher_key_len (ac_wpa_group conf), wg_GInit := True\<rparr>) s;
         s \<leftarrow> wpa_group_sm_step e (wpa_sm_step e n) s;
         s \<leftarrow> wpa_group_sm_step e (wpa_sm_step e n) (mod_group (\<lambda>g. g\<lparr>wg_GInit := False\<rparr>) s);
         Some (0, s) } }"

end
