(* ===== verification/WpaAuthInv.thy ===== *)
theory WpaAuthInv
  imports WpaAuth AesModesFacts
begin

text \<open>
  What the keys of the stations depend on in the authenticator of \<^verbatim>\<open>src/ap/wpa_auth.c\<close>, and the invariant of
  its handlers: the fields of a station machine that decide when a pairwise key is set (\<open>core\<close>), the key
  events of the log, runs that touch neither (\<open>quiet\<close>), and the invariant itself.
\<close>

subsection \<open>Key events\<close>

text \<open>The newest nonce drawn for station \<open>i\<close> that no pairwise key has been set for since.\<close>

fun nonce_of :: "nat \<Rightarrow> au_event list \<Rightarrow> bytes option" where
  "nonce_of i [] = None"
| "nonce_of i (ANonceDrawn j n # l) = (if j = i then Some n else nonce_of i l)"
| "nonce_of i (SetKey (Some j) alg idx key r # l) = (if j = i \<and> alg \<noteq> WPA_ALG_NONE then None else nonce_of i l)"
| "nonce_of i (ev # l) = nonce_of i l"

text \<open>Every pairwise key of station \<open>i\<close> in the log was set after a nonce was drawn for it, after the
  key before it was set, and is related to that nonce by \<open>P\<close>.\<close>

fun keys_fresh :: "(bytes \<Rightarrow> wpa_alg \<Rightarrow> bytes \<Rightarrow> bool) \<Rightarrow> nat \<Rightarrow> au_event list \<Rightarrow> bool" where
  "keys_fresh P i [] = True"
| "keys_fresh P i (SetKey (Some j) alg idx key r # l) =
     (keys_fresh P i l \<and>
      (if j = i \<and> alg \<noteq> WPA_ALG_NONE then (case nonce_of i l of None \<Rightarrow> False | Some n \<Rightarrow> P n alg key) else True))"
| "keys_fresh P i (ev # l) = keys_fresh P i l"

text \<open>Events that concern no pairwise key and no nonce.\<close>

fun dull :: "au_event \<Rightarrow> bool" where
  "dull (SetKey (Some j) alg idx key r) = (alg = WPA_ALG_NONE)"
| "dull (ANonceDrawn j n) = False"
| "dull ev = True"

lemma nonce_of_dull [simp]: "dull ev \<Longrightarrow> nonce_of i (ev # l) = nonce_of i l"
  by (cases "(i, ev # l)" rule: nonce_of.cases) auto

lemma keys_fresh_dull [simp]: "dull ev \<Longrightarrow> keys_fresh P i (ev # l) = keys_fresh P i l"
  by (cases "(P, i, ev # l)" rule: keys_fresh.cases) auto

subsection \<open>The relevant part of a station machine\<close>

definition core where
  "core (m :: wpa_state_machine) = ((sm_addr m, sm_ptk_state m, sm_Init m, sm_DeauthenticationRequest m, sm_AuthenticationRequest m,
      sm_ReAuthenticationRequest m, sm_Disconnect m, sm_PTKRequest m, length (sm_PMK m)),
     (sm_EAPOLKeyReceived m, sm_EAPOLKeyPairwise m, sm_EAPOLKeyRequest m, sm_MICVerified m, sm_update_snonce m,
      sm_last_rx_eapol_key m),
     (sm_PTK m, sm_PTK_valid m, sm_ANonce m, sm_changed m, sm_in_step_loop m, sm_pending_deinit m))"

text \<open>The parameters: the environment, the addresses of the authenticator and of the stations, and the
  frames that the stations send.\<close>

record world =
  w_env :: wenv
  w_aa :: bytes
  w_spa :: "nat \<Rightarrow> bytes"
  w_rx :: "nat \<Rightarrow> bytes set"

text \<open>Equal but for the field of the MIC, which the check of the MIC overwrites and restores.\<close>

definition same_but_mic :: "bytes \<Rightarrow> bytes \<Rightarrow> bool" where
  "same_but_mic f d \<longleftrightarrow> length d = length f \<and> (\<forall>k < length f. k < mic_pos \<or> mic_pos + 32 \<le> k \<longrightarrow> d ! k = f ! k)"

text \<open>A pairwise key derived from the nonce \<open>n\<close> under which the MIC of a frame from the station is right.\<close>

definition ptk_from :: "world \<Rightarrow> nat \<Rightarrow> bytes \<Rightarrow> wpa_ptk \<Rightarrow> bool" where
  "ptk_from w i n ptk \<longleftrightarrow>
     (\<exists>pmk snonce akm cipher f d d'.
        wpa_pmk_to_ptk (we_hm512 (w_env w)) pmk (ascii ''Pairwise key expansion'') (w_aa w) (w_spa w i) n snonce akm cipher
          = Some (Some ptk) \<and>
        f \<in> w_rx w i \<and> same_but_mic f d \<and> wpa_mic_len akm (length pmk) \<noteq> 0 \<and>
        wpa_verify_key_mic (we_hm512 (w_env w)) akm (length pmk) ptk d = Some (0, d'))"

definition tk_from :: "world \<Rightarrow> nat \<Rightarrow> bytes \<Rightarrow> wpa_alg \<Rightarrow> bytes \<Rightarrow> bool" where
  "tk_from w i n alg key \<longleftrightarrow>
     (\<exists>ptk cipher. ptk_from w i n ptk \<and> alg = wpa_cipher_to_alg cipher \<and>
        mem_read (pk_tk ptk @ replicate (32 - length (pk_tk ptk)) 0) 0 (wpa_cipher_key_len cipher) = Some key)"

abbreviation fresh :: "world \<Rightarrow> nat \<Rightarrow> au_event list \<Rightarrow> bool" where
  "fresh w i \<equiv> keys_fresh (tk_from w i) i"

subsection \<open>The invariant of a station\<close>

text \<open>States in which no key can be set before a new nonce is drawn.\<close>

definition idle :: "wpa_state_machine \<Rightarrow> bool" where
  "idle m \<longleftrightarrow> sm_ptk_state m \<in> {WPA_PTK_INITIALIZE, WPA_PTK_DISCONNECT, WPA_PTK_DISCONNECTED, WPA_PTK_AUTHENTICATION,
     WPA_PTK_PTKINITDONE} \<or> sm_ptk_state m = WPA_PTK_AUTHENTICATION2 \<and> sm_Disconnect m"

definition leaving :: "wpa_state_machine \<Rightarrow> bool" where
  "leaving m \<longleftrightarrow> sm_Init m \<or> sm_Disconnect m \<or> sm_DeauthenticationRequest m"

text \<open>The step loop has no pairwise message left to use.\<close>

definition settled :: "wpa_state_machine \<Rightarrow> bool" where
  "settled m \<longleftrightarrow> sm_ptk_state m \<in> {WPA_PTK_PTKCALCNEGOTIATING, WPA_PTK_PTKCALCNEGOTIATING2, WPA_PTK_PTKINITNEGOTIATING} \<longrightarrow>
     \<not> pairwise_key_received m"

definition K :: "world \<Rightarrow> nat \<Rightarrow> wpa_state_machine \<Rightarrow> bytes option \<Rightarrow> bool" where
  "K w i m nc \<longleftrightarrow>
     sm_addr m = w_spa w i \<and> length (sm_PMK m) = 64 \<and> \<not> sm_pending_deinit m \<and>
     (\<forall>d. sm_last_rx_eapol_key m = Some d \<longrightarrow> (\<exists>f\<in>w_rx w i. same_but_mic f d)) \<and>
     (nc = Some (sm_ANonce m) \<or> idle m) \<and>
     (sm_PTK_valid m \<longrightarrow> ptk_from w i (sm_ANonce m) (sm_PTK m)) \<and>
     (sm_ptk_state m = WPA_PTK_AUTHENTICATION \<or> sm_ReAuthenticationRequest m \<or> sm_PTKRequest m \<longrightarrow> \<not> sm_PTK_valid m) \<and>
     (pairwise_key_received m \<and> sm_ptk_state m \<in> {WPA_PTK_PTKCALCNEGOTIATING2, WPA_PTK_PTKINITNEGOTIATING} \<longrightarrow>
        sm_PTK_valid m \<and> sm_MICVerified m \<or> sm_update_snonce m \<or> leaving m) \<and>
     (pairwise_key_received m \<and> sm_ptk_state m = WPA_PTK_PTKCALCNEGOTIATING \<and> sm_MICVerified m \<longrightarrow>
        sm_PTK_valid m \<or> leaving m)"

lemma core_eqs:
  assumes "core a = core b"
  shows "sm_ptk_state a = sm_ptk_state b" "sm_Init a = sm_Init b" "sm_DeauthenticationRequest a = sm_DeauthenticationRequest b"
    "sm_AuthenticationRequest a = sm_AuthenticationRequest b" "sm_ReAuthenticationRequest a = sm_ReAuthenticationRequest b"
    "sm_Disconnect a = sm_Disconnect b" "sm_PTKRequest a = sm_PTKRequest b" "length (sm_PMK a) = length (sm_PMK b)"
    "sm_addr a = sm_addr b"
    "sm_MICVerified a = sm_MICVerified b" "sm_update_snonce a = sm_update_snonce b"
    "sm_last_rx_eapol_key a = sm_last_rx_eapol_key b" "sm_PTK a = sm_PTK b" "sm_PTK_valid a = sm_PTK_valid b"
    "sm_ANonce a = sm_ANonce b" "sm_changed a = sm_changed b" "sm_in_step_loop a = sm_in_step_loop b"
    "sm_pending_deinit a = sm_pending_deinit b" "pairwise_key_received a = pairwise_key_received b"
  using assms by (simp_all add: core_def pairwise_key_received_def)

lemma K_core: assumes "core a = core b" shows "K w i a nc = K w i b nc"
  by (simp add: K_def idle_def leaving_def core_eqs [OF assms])

lemma settled_core: assumes "core a = core b" shows "settled a = settled b"
  by (simp add: settled_def core_eqs [OF assms])

subsection \<open>Runs that touch no key\<close>

text \<open>Every station but those of \<open>I\<close> is as before.\<close>

definition quiet :: "nat set \<Rightarrow> auth \<Rightarrow> auth \<Rightarrow> bool" where
  "quiet I s s' \<longleftrightarrow> wa_addr (au_wa s') = wa_addr (au_wa s) \<and>
     (\<forall>j. j \<notin> I \<longrightarrow> map_option core (au_sm s' j) = map_option core (au_sm s j) \<and>
        nonce_of j (au_log s') = nonce_of j (au_log s) \<and>
        (\<forall>P. keys_fresh P j (au_log s') = keys_fresh P j (au_log s)))"

lemma quiet_refl [simp]: "quiet I s s"
  by (simp add: quiet_def)

lemma quiet_trans: "quiet I s t \<Longrightarrow> quiet I t u \<Longrightarrow> quiet I s u"
  by (simp add: quiet_def)

lemma quiet_mono: "quiet I s t \<Longrightarrow> I \<subseteq> J \<Longrightarrow> quiet J s t"
  unfolding quiet_def by blast

lemma quiet_mod_wa [simp]:
  "(\<And>a. wa_addr (f a) = wa_addr a) \<Longrightarrow> quiet I s0 (mod_wa f s) = quiet I s0 s"
  by (simp add: quiet_def mod_wa_def)

lemma quiet_mod_group [simp]: "quiet I s0 (mod_group f s) = quiet I s0 s"
  by (simp add: mod_group_def)

lemma quiet_tick [simp]: "quiet I s0 (s\<lparr>au_tick := t\<rparr>) = quiet I s0 s"
  by (simp add: quiet_def)

lemma quiet_list [simp]: "quiet I s0 (s\<lparr>au_list := t\<rparr>) = quiet I s0 s"
  by (simp add: quiet_def)

lemma quiet_log [simp]: "dull ev \<Longrightarrow> quiet I s0 (log_ev ev s) = quiet I s0 s"
  by (simp add: quiet_def log_ev_def)

lemma quiet_if [simp]: "quiet I s0 (if b then s else t) = (if b then quiet I s0 s else quiet I s0 t)"
  by simp

lemma ensures_mod_sm:
  "(\<And>m. au_sm s i = Some m \<Longrightarrow> Q (s\<lparr>au_sm := (au_sm s)(i \<mapsto> f m)\<rparr>)) \<Longrightarrow> ensures (mod_sm i f s) Q"
  by (auto simp: mod_sm_def ensures_def split: option.splits)

lemma ensures_au_sm: "(\<And>m. au_sm s i = Some m \<Longrightarrow> Q m) \<Longrightarrow> ensures (au_sm s i) Q"
  by (simp add: ensures_def)

lemma quiet_mod_sm:
  assumes "quiet I s0 s" and "\<And>m. core (f m) = core m"
  shows "ensures (mod_sm i f s) (quiet I s0)"
  using assms by (intro ensures_mod_sm) (auto simp: quiet_def)

lemma ensures_conseq: "ensures m Q \<Longrightarrow> (\<And>x. Q x \<Longrightarrow> R x) \<Longrightarrow> ensures m R"
  by (auto simp: ensures_def)

lemma ensures_prod: "ensures (f (fst p) (snd p)) Q \<Longrightarrow> ensures (case p of (a, b) \<Rightarrow> f a b) Q"
  by (simp add: case_prod_beta)

text \<open>Rules for a run that stays quiet, by the type of the intermediate results.\<close>

lemma quiet_bind:
  "ensures m (quiet I s0) \<Longrightarrow> (\<And>x. quiet I s0 x \<Longrightarrow> ensures (f x) Q) \<Longrightarrow> ensures (m \<bind> f) Q"
  "ensures m2 (\<lambda>(r, x). quiet I s0 x) \<Longrightarrow> (\<And>r x. quiet I s0 x \<Longrightarrow> ensures (f2 (r, x)) Q) \<Longrightarrow> ensures (m2 \<bind> f2) Q"
  "ensures m3 (\<lambda>(r, q, x). quiet I s0 x) \<Longrightarrow> (\<And>r q x. quiet I s0 x \<Longrightarrow> ensures (f3 (r, q, x)) Q) \<Longrightarrow>
   ensures (m3 \<bind> f3) Q"
  by (auto simp: ensures_def split: Option.bind_splits)

lemma bind_any: "(\<And>x. m = Some x \<Longrightarrow> ensures (f x) Q) \<Longrightarrow> ensures (m \<bind> f) Q"
  by (auto simp: ensures_def split: Option.bind_splits)

lemmas pure_defs = ask_def random_get_bytes_def wpa_auth_set_key_def Let_def prod.case fst_conv snd_conv

named_theorems quiet_runs \<open>operations that touch no key\<close>

lemma quiet_set_eapol [quiet_runs]:
  "quiet I s0 s \<Longrightarrow> ensures (wpa_auth_set_eapol i var val s) (quiet I s0)"
  unfolding wpa_auth_set_eapol_def
  by (intro wp) (auto intro!: wp ensures_conseq [OF quiet_mod_sm] simp: core_def)

lemmas run_rules = bind_any ensures_if ensures_Some ensures_None ensures_case_option ensures_prod quiet_mod_sm

lemma quiet_send' [quiet_runs]: "quiet I s0 s \<Longrightarrow> ensures (wpa_send_eapol' e i a b c d f g h s) (quiet I s0)"
  unfolding wpa_send_eapol'_def pure_defs
  by (rule quiet_bind [of _ I s0] run_rules quiet_runs | (simp add: core_def; fail))+

lemma quiet_send [quiet_runs]: "quiet I s0 s \<Longrightarrow> ensures (wpa_send_eapol e i a b c d f g h s) (quiet I s0)"
  unfolding wpa_send_eapol_def pure_defs
  by (rule quiet_bind [of _ I s0] run_rules quiet_runs | (simp add: core_def; fail))+

lemma quiet_init_gmk [simp]: "quiet I s0 (snd (wpa_group_init_gmk_and_counter e s)) = quiet I s0 s"
  by (simp add: wpa_group_init_gmk_and_counter_def pure_defs split: option.splits)

lemma quiet_gmk_to_gtk [simp]: "quiet I s0 (snd (snd (wpa_gmk_to_gtk e g l n k s))) = quiet I s0 s"
  by (simp add: wpa_gmk_to_gtk_def pure_defs)

lemma quiet_derive [quiet_runs]: "quiet I s0 s \<Longrightarrow> ensures (derive_into e l n k ks s) (\<lambda>(r, q, x). quiet I s0 x)"
  unfolding derive_into_def pure_defs
  by (rule quiet_bind [of _ I s0] run_rules quiet_runs | (simp; fail))+

lemma quiet_gtk_update [quiet_runs]: "quiet I s0 s \<Longrightarrow> ensures (wpa_gtk_update e s) (\<lambda>(r, x). quiet I s0 x)"
  unfolding wpa_gtk_update_def pure_defs
  by (rule quiet_bind [of _ I s0] run_rules quiet_runs | (simp; fail))+

lemma quiet_config_group_keys [quiet_runs]:
  "quiet I s0 s \<Longrightarrow> ensures (wpa_group_config_group_keys e s) (\<lambda>(r, x). quiet I s0 x)"
  unfolding wpa_group_config_group_keys_def pure_defs
  by (rule quiet_bind [of _ I s0] run_rules quiet_runs | (simp; fail))+

lemma quiet_ensure_init [quiet_runs]: "quiet I s0 s \<Longrightarrow> ensures (wpa_group_ensure_init e s) (quiet I s0)"
  unfolding wpa_group_ensure_init_def pure_defs
  by (rule quiet_bind [of _ I s0] run_rules quiet_runs |
      (simp only: quiet_init_gmk prod.case fst_conv snd_conv quiet_if quiet_mod_group quiet_tick if_cancel simp_thms; fail))+

lemma length_mem_write: "mem_write b p d = Some b' \<Longrightarrow> length b' = length b"
  by (auto simp: mem_write_def split: if_splits)

lemma quiet_upd:
  "quiet I s0 s \<Longrightarrow> au_sm s i = Some m \<Longrightarrow> core m' = core m \<Longrightarrow> quiet I s0 (s\<lparr>au_sm := (au_sm s)(i \<mapsto> m')\<rparr>)"
  by (auto simp: quiet_def)

lemma quiet_set_PMK [quiet_runs]: "quiet I s0 s \<Longrightarrow> ensures (set_PMK i pmk n s) (quiet I s0)"
  unfolding set_PMK_def
  by (intro bind_any ensures_mod_sm) (auto intro!: quiet_upd simp: core_def length_mem_write)

lemma quiet_gtk_for_sta [quiet_runs]: "quiet I s0 s \<Longrightarrow> ensures (gtk_for_sta e m s) (\<lambda>(r, x). quiet I s0 x)"
  unfolding gtk_for_sta_def pure_defs
  by (rule quiet_bind [of _ I s0] run_rules quiet_runs | (simp; fail))+

lemma quiet_kde_add [quiet_runs]: "quiet I s0 s \<Longrightarrow> ensures (ieee80211w_kde_add e i s) (\<lambda>(r, x). quiet I s0 x)"
  unfolding ieee80211w_kde_add_def pure_defs
  by (rule quiet_bind [of _ I s0] run_rules quiet_runs | (simp; fail))+

lemma quiet_gkey_done [quiet_runs]: "quiet I s0 s \<Longrightarrow> ensures (gkey_done i s) (quiet I s0)"
  unfolding gkey_done_def pure_defs
  by (rule quiet_bind [of _ I s0] run_rules quiet_runs | (simp add: core_def; fail))+

lemma quiet_gtk_init [quiet_runs]: "quiet I s0 s \<Longrightarrow> ensures (wpa_group_gtk_init e s) (quiet I s0)"
  unfolding wpa_group_gtk_init_def pure_defs
  by (rule quiet_bind [of _ I s0] run_rules quiet_runs | (simp; fail))+

lemma quiet_rekey_gmk [simp]: "quiet I s0 (wpa_rekey_gmk e s) = quiet I s0 s"
  by (simp add: wpa_rekey_gmk_def pure_defs split: option.splits)

lemma quiet_candidate_pmks [simp]: "quiet I s0 (snd (candidate_pmks e i m s)) = quiet I s0 s"
  by (simp add: candidate_pmks_def pure_defs)

subsection \<open>One station at a time\<close>

text \<open>Station \<open>i\<close> is like \<open>m\<close>, its newest nonce is \<open>nc\<close>, its keys are fresh, and the other stations are
  as in \<open>s0\<close>.\<close>

definition at :: "world \<Rightarrow> nat \<Rightarrow> wpa_state_machine \<Rightarrow> bytes option \<Rightarrow> auth \<Rightarrow> auth \<Rightarrow> bool" where
  "at w i m nc s0 s \<longleftrightarrow> map_option core (au_sm s i) = Some (core m) \<and> nonce_of i (au_log s) = nc \<and>
     fresh w i (au_log s) \<and> wa_addr (au_wa s0) = w_aa w \<and> quiet {i} s0 s"

lemma at_quiet: "at w i m nc s0 s \<Longrightarrow> quiet {} s t \<Longrightarrow> at w i m nc s0 t"
  unfolding at_def quiet_def by simp

lemma at_in:
  "at w i m nc s0 s \<Longrightarrow> at w i m nc s0 (mod_group f s)"
  "at w i m nc s0 s \<Longrightarrow> at w i m nc s0 (s\<lparr>au_tick := t\<rparr>)"
  "at w i m nc s0 s \<Longrightarrow> at w i m nc s0 (count_failure s)"
  "at w i m nc s0 s \<Longrightarrow> dull ev \<Longrightarrow> at w i m nc s0 (log_ev ev s)"
  by (erule at_quiet, simp add: count_failure_def)+

lemma at_upd:
  assumes "at w i m nc s0 s" and "\<And>a b. core a = core b \<Longrightarrow> core (f a) = core (f b)"
  shows "ensures (mod_sm i f s) (at w i (f m) nc s0)"
proof (rule ensures_mod_sm)
  fix m' assume m': "au_sm s i = Some m'"
  with assms(1) have "core m' = core m" by (simp add: at_def)
  then have "core (f m') = core (f m)" by (rule assms(2))
  with assms(1) m' show "at w i (f m) nc s0 (s\<lparr>au_sm := (au_sm s)(i \<mapsto> f m')\<rparr>)" by (simp add: at_def quiet_def)
qed

text \<open>Rules that work forwards through the operations on the machine of station \<open>i\<close>; \<open>t\<close> is the state \<open>s\<close>
  but for the group, the clock and the log.\<close>

lemma at_mod:
  assumes "at w i m nc s0 s" and "quiet {} s t \<and> (\<forall>a b. core a = core b \<longrightarrow> core (f a) = core (f b))"
    and "\<And>x. at w i (f m) nc s0 x \<Longrightarrow> ensures (g x) Q"
  shows "ensures (mod_sm i f t \<bind> g) Q"
  using assms(3) by (intro ensures_bind ensures_conseq [OF at_upd [OF at_quiet [OF assms(1) conjunct1 [OF assms(2)]]
    conjunct2 [OF assms(2), rule_format]]])

lemma at_last:
  assumes "at w i m nc s0 s" and "quiet {} s t \<and> (\<forall>a b. core a = core b \<longrightarrow> core (f a) = core (f b))"
    and "\<And>x. at w i (f m) nc s0 x \<Longrightarrow> Q x"
  shows "ensures (mod_sm i f t) Q"
  using assms(3) by (intro ensures_conseq [OF at_upd [OF at_quiet [OF assms(1) conjunct1 [OF assms(2)]]
    conjunct2 [OF assms(2), rule_format]]])

lemma at_get:
  assumes "at w i m nc s0 s" and "quiet {} s t"
    and "\<And>m'. at w i m nc s0 t \<Longrightarrow> core m' = core m \<Longrightarrow> ensures (g m') Q"
  shows "ensures (au_sm t i \<bind> g) Q"
  using at_quiet [OF assms(1,2)] assms(3) by (intro ensures_bind ensures_au_sm) (auto simp: at_def)

lemma at_run:
  assumes "at w i m nc s0 s" and "ensures op (quiet {} s)" and "\<And>x. at w i m nc s0 x \<Longrightarrow> ensures (g x) Q"
  shows "ensures (op \<bind> g) Q"
  using assms by (intro ensures_bind) (erule ensures_conseq, blast intro: at_quiet)

lemma at_run2:
  assumes "at w i m nc s0 s" and "ensures op (\<lambda>(r, x). quiet {} s x)" and "\<And>r x. at w i m nc s0 x \<Longrightarrow> ensures (g (r, x)) Q"
  shows "ensures (op \<bind> g) Q"
  using assms by (intro ensures_bind) (erule ensures_conseq, auto intro: at_quiet)

lemma at_run_last:
  assumes "at w i m nc s0 s" and "ensures op (quiet {} s)" and "\<And>x. at w i m nc s0 x \<Longrightarrow> Q x"
  shows "ensures op Q"
  using assms by (elim ensures_conseq) (blast intro: at_quiet)

lemma at_keep:
  assumes "at w i m nc s0 s" and "quiet {} s t \<and> (\<forall>m. core (f m) = core m)" and "\<And>x. at w i m nc s0 x \<Longrightarrow> ensures (g x) Q"
  shows "ensures (mod_sm i f t \<bind> g) Q"
  using assms(3) by (intro at_run [OF assms(1) quiet_mod_sm [OF conjunct1 [OF assms(2)] conjunct2 [OF assms(2), rule_format]]])

lemma at_keep_last:
  assumes "at w i m nc s0 s" and "quiet {} s t \<and> (\<forall>m. core (f m) = core m)" and "\<And>x. at w i m nc s0 x \<Longrightarrow> Q x"
  shows "ensures (mod_sm i f t) Q"
  using assms(3) by (intro at_run_last [OF assms(1) quiet_mod_sm [OF conjunct1 [OF assms(2)] conjunct2 [OF assms(2), rule_format]]])

text \<open>What one step of the pairwise key machine in the step loop leaves.\<close>

definition hs_post :: "world \<Rightarrow> nat \<Rightarrow> auth \<Rightarrow> auth \<Rightarrow> bool" where
  "hs_post w i s0 s \<longleftrightarrow>
     (\<exists>m nc. at w i m nc s0 s \<and> K w i m nc \<and> sm_in_step_loop m \<and> (settled m \<or> sm_changed m \<and> \<not> sm_Init m))"

lemma hs_postI:
  "at w i m nc s0 s \<Longrightarrow> quiet {} s t \<and> K w i m nc \<and> sm_in_step_loop m \<and> (settled m \<or> sm_changed m \<and> \<not> sm_Init m) \<Longrightarrow>
   hs_post w i s0 t"
  unfolding hs_post_def by (blast intro: at_quiet)

lemmas K_defs = K_def idle_def leaving_def settled_def pairwise_key_received_def
lemma ensures_case_list:
  "(x = [] \<Longrightarrow> ensures m Q) \<Longrightarrow> (\<And>y ys. x = y # ys \<Longrightarrow> ensures (f y ys) Q) \<Longrightarrow>
   ensures (case x of [] \<Rightarrow> m | y # ys \<Rightarrow> f y ys) Q"
  by (cases x) simp_all

lemma ensures_any:
  "(\<And>x. Q x) \<Longrightarrow> ensures (m3_wpa_ie s m) Q"
  "(\<And>x. R x) \<Longrightarrow> ensures (m1_pmkid s m) R"
  "(\<And>x. S x) \<Longrightarrow> ensures (check_m2 m d) S"
  by (simp_all add: ensures_def)

lemmas at_steps = at_keep at_mod at_keep_last at_last at_get hs_postI
lemmas at_runs = at_run at_run2 at_run_last
lemmas at_flow = ensures_if ensures_Some ensures_case_option ensures_case_list ensures_prod ensures_any ensures_bind

lemma remove_ptk_at:
  "at w i m nc s0 s \<Longrightarrow> (\<And>x. at w i (m\<lparr>sm_PTK_valid := False, sm_PTK := ptk0\<rparr>) nc s0 x \<Longrightarrow> ensures (g x) Q) \<Longrightarrow>
   ensures (wpa_remove_ptk e i s \<bind> g) Q"
  unfolding wpa_remove_ptk_def pure_defs Option.bind_assoc
  by ((erule at_keep at_mod, (simp add: core_def; fail)) | blast)+

lemma INITIALIZE_post:
  "at w i m nc s0 s \<Longrightarrow> K w i m nc \<Longrightarrow> sm_in_step_loop m \<Longrightarrow> ensures (WPA_PTK_INITIALIZE_Enter e step i s) (hs_post w i s0)"
  unfolding WPA_PTK_INITIALIZE_Enter_def SM_ENTRY_PTK_def
  by ((erule at_steps, (simp add: core_def K_defs; fail)) | (erule at_runs, rule quiet_runs, (simp; fail)) | erule remove_ptk_at
      | rule at_flow)+

lemma DISCONNECTED_post:
  "at w i m nc s0 s \<Longrightarrow> K w i m nc \<Longrightarrow> sm_in_step_loop m \<Longrightarrow> ensures (WPA_PTK_DISCONNECTED_Enter e step i s) (hs_post w i s0)"
  unfolding WPA_PTK_DISCONNECTED_Enter_def SM_ENTRY_PTK_def
  by ((erule at_steps, (simp add: core_def K_defs; fail)) | (erule at_runs, rule quiet_runs, (simp; fail)) | rule at_flow)+

lemma sta_disconnect_at:
  "at w i m nc s0 s \<Longrightarrow> quiet {} s t \<and> sm_in_step_loop m \<Longrightarrow>
   (\<And>x. at w i (m\<lparr>sm_DeauthenticationRequest := True, sm_PTK_valid := False, sm_PTK := ptk0, sm_changed := True\<rparr>) nc s0 x \<Longrightarrow> Q x) \<Longrightarrow>
   ensures (wpa_sta_disconnect e step i reason t) Q"
  unfolding wpa_sta_disconnect_def wpa_auth_sm_event_def sm_event_request_def pure_defs Option.bind_assoc
    wpa_event.distinct if_False if_True simp_thms Option.bind_lunit
  apply (simp add: Option.bind_assoc)
  by ((erule at_get at_mod at_last, (simp add: core_def; fail)) | erule remove_ptk_at | rule at_flow | (simp add: core_def; fail))+

lemma DISCONNECT_post:
  "at w i m nc s0 s \<Longrightarrow> K w i m nc \<Longrightarrow> sm_in_step_loop m \<Longrightarrow> ensures (WPA_PTK_DISCONNECT_Enter e step i s) (hs_post w i s0)"
  unfolding WPA_PTK_DISCONNECT_Enter_def SM_ENTRY_PTK_def
  by ((erule at_steps sta_disconnect_at, (simp add: core_def K_defs; fail)) | rule at_flow)+

lemma AUTHENTICATION_post:
  "at w i m nc s0 s \<Longrightarrow> K w i m nc \<Longrightarrow> sm_in_step_loop m \<Longrightarrow> \<not> sm_Init m \<Longrightarrow>
   ensures (WPA_PTK_AUTHENTICATION_Enter e step i s) (hs_post w i s0)"
  unfolding WPA_PTK_AUTHENTICATION_Enter_def SM_ENTRY_PTK_def
  by ((erule at_steps, (simp add: core_def K_defs; fail)) | (erule at_runs, rule quiet_runs, (simp; fail)) | rule at_flow)+

lemma at_core: "core m = core m' \<Longrightarrow> at w i m = at w i m'"
  by (auto simp: at_def fun_eq_iff)

lemma draw_at:
  assumes a: "at w i m nc s0 s" and q: "quiet {} s t"
    and no: "\<And>x. at w i (m\<lparr>sm_Disconnect := True\<rparr>) nc s0 x \<Longrightarrow> Q (- 1, x)"
    and ok: "\<And>n x. at w i (m\<lparr>sm_ANonce := n\<rparr>) (Some n) s0 x \<Longrightarrow> Q (0, x)"
  shows "ensures (draw_ANonce e i t) Q"
proof -
  let ?t = "t\<lparr>au_tick := Suc (au_tick t)\<rparr>"
  have t: "at w i m nc s0 ?t" using at_quiet [OF a, of ?t] q by simp
  have l: "at w i (m\<lparr>sm_ANonce := n\<rparr>) (Some n) s0 (log_ev (ANonceDrawn i n) x)"
    if "at w i (m\<lparr>sm_ANonce := n, sm_TimeoutCtr := 0\<rparr>) nc s0 x" for x n
    using that at_core [of "m\<lparr>sm_ANonce := n, sm_TimeoutCtr := 0\<rparr>" "m\<lparr>sm_ANonce := n\<rparr>" w i]
    by (simp add: core_def) (simp add: at_def quiet_def log_ev_def)
  show ?thesis
  proof (cases "we_random e (au_tick t) 32")
    case None
    have "ensures (mod_sm i (\<lambda>m. m\<lparr>sm_Disconnect := True\<rparr>) ?t \<bind> (\<lambda>s. Some (- 1, s))) Q"
      by (rule at_mod [OF t]) (simp_all add: core_def ensures_Some no)
    with None show ?thesis by (simp add: draw_ANonce_def pure_defs)
  next
    case (Some n)
    have "ensures (mod_sm i (\<lambda>m. m\<lparr>sm_ANonce := n, sm_TimeoutCtr := 0\<rparr>) ?t \<bind> (\<lambda>s. Some (0, log_ev (ANonceDrawn i n) s))) Q"
      by (rule at_mod [OF t]) (simp add: core_def, rule ensures_Some, rule ok, rule l)
    with Some show ?thesis by (simp add: draw_ANonce_def pure_defs)
  qed
qed

lemma AUTHENTICATION2_post:
  "at w i m nc s0 s \<Longrightarrow> K w i m nc \<Longrightarrow> sm_in_step_loop m \<Longrightarrow> \<not> sm_Init m \<Longrightarrow> \<not> sm_PTK_valid m \<Longrightarrow>
   ensures (WPA_PTK_AUTHENTICATION2_Enter e step i s) (hs_post w i s0)"
  unfolding WPA_PTK_AUTHENTICATION2_Enter_def SM_ENTRY_PTK_def
  by ((erule at_steps draw_at, (simp add: core_def K_defs; fail)) | (erule at_runs, rule quiet_runs, (simp; fail)) | rule at_flow)+

lemma INITPMK_post:
  "at w i m nc s0 s \<Longrightarrow> K w i m nc \<Longrightarrow> sm_in_step_loop m \<Longrightarrow> \<not> sm_Init m \<Longrightarrow> nc = Some (sm_ANonce m) \<Longrightarrow>
   ensures (WPA_PTK_INITPMK_Enter e step i s) (hs_post w i s0)"
  unfolding WPA_PTK_INITPMK_Enter_def SM_ENTRY_PTK_def pure_defs
  by ((erule at_steps, (simp add: core_def K_defs; fail)) | (erule at_runs, rule quiet_runs, (simp; fail)) | rule at_flow)+

lemma INITPSK_post:
  "at w i m nc s0 s \<Longrightarrow> K w i m nc \<Longrightarrow> sm_in_step_loop m \<Longrightarrow> \<not> sm_Init m \<Longrightarrow> nc = Some (sm_ANonce m) \<Longrightarrow>
   ensures (WPA_PTK_INITPSK_Enter e step i s) (hs_post w i s0)"
  unfolding WPA_PTK_INITPSK_Enter_def SM_ENTRY_PTK_def pure_defs
  by ((erule at_steps, (simp add: core_def K_defs; fail)) | (erule at_runs, rule quiet_runs, (simp; fail)) | rule at_flow)+

lemma PTKSTART_post:
  "at w i m nc s0 s \<Longrightarrow> K w i m nc \<Longrightarrow> sm_in_step_loop m \<Longrightarrow> \<not> sm_Init m \<Longrightarrow> nc = Some (sm_ANonce m) \<Longrightarrow>
   ensures (WPA_PTK_PTKSTART_Enter e step i s) (hs_post w i s0)"
  unfolding WPA_PTK_PTKSTART_Enter_def SM_ENTRY_PTK_def pure_defs
  by ((erule at_steps, (simp add: core_def K_defs; fail)) | (erule at_runs, rule quiet_runs, (simp; fail)) | rule at_flow)+

lemma PTKCALCNEGOTIATING2_post:
  "at w i m nc s0 s \<Longrightarrow> K w i m nc \<Longrightarrow> sm_in_step_loop m \<Longrightarrow> \<not> sm_Init m \<Longrightarrow> nc = Some (sm_ANonce m) \<Longrightarrow>
   sm_ptk_state m = WPA_PTK_PTKCALCNEGOTIATING \<Longrightarrow> sm_MICVerified m \<Longrightarrow>
   ensures (WPA_PTK_PTKCALCNEGOTIATING2_Enter e step i s) (hs_post w i s0)"
  unfolding WPA_PTK_PTKCALCNEGOTIATING2_Enter_def SM_ENTRY_PTK_def
  by ((erule at_steps, (simp add: core_def; fail)) | (erule hs_postI, (auto simp: K_defs; fail)))+

lemma PTKINITNEGOTIATING_post:
  "at w i m nc s0 s \<Longrightarrow> K w i m nc \<Longrightarrow> sm_in_step_loop m \<Longrightarrow> \<not> sm_Init m \<Longrightarrow> nc = Some (sm_ANonce m) \<Longrightarrow>
   sm_ptk_state m = WPA_PTK_PTKCALCNEGOTIATING2 \<or> sm_ptk_state m = WPA_PTK_PTKINITNEGOTIATING \<Longrightarrow>
   ensures (WPA_PTK_PTKINITNEGOTIATING_Enter e step i s) (hs_post w i s0)"
  unfolding WPA_PTK_PTKINITNEGOTIATING_Enter_def SM_ENTRY_PTK_def pure_defs
  apply ((erule at_steps, (simp add: core_def; fail)) | (erule hs_postI, (auto simp: K_defs; fail))
      | (erule at_runs, rule quiet_runs, (simp; fail)) | rule at_flow)+
  done

lemma length_MD5Final: "ensures (MD5Final ctx) (\<lambda>m. length m = 16)"
proof -
  have len: "length (concat (map WPA_PUT_LE32 (MD5Transform st b))) = 16" for st b
    by (subst length_concat_const [where L = 4]) (simp_all add: MD5Transform_def Let_def case_prod_beta)
  show ?thesis
    unfolding MD5Final_def Let_def by (rule bind_any ensures_prod ensures_if ensures_Some len)+
qed

lemma length_md5_vector: "ensures (md5_vector es) (\<lambda>m. length m = 16)"
  unfolding md5_vector_def md5_vector_ctx_def by (rule bind_any length_MD5Final)+

lemma length_hmac_md5: "ensures (hmac_md5 key data) (\<lambda>m. length m = 16)"
  unfolding hmac_md5_def hmac_md5_vector_def hmac_vector_def
  by (rule ensures_if ensures_None bind_any length_md5_vector)+

lemma length_mic: "wpa_eapol_key_mic hm key akm ver buf = Some (Some m) \<Longrightarrow> length m \<le> 32"
  using length_hmac_md5 [of key buf]
  by (auto simp: wpa_eapol_key_mic_def mic_by_key_len_def omac1_aes_128_def omac1_aes_128_vector_def ensures_def
      dest!: omac_length split: if_splits)

lemma nth_mem_write:
  assumes "mem_write b p x = Some b'"
  shows "length b' = length b" and "p + length x \<le> length b"
    and "k < length b \<Longrightarrow> b' ! k = (if p \<le> k \<and> k < p + length x then x ! (k - p) else b ! k)"
  using assms by (auto simp: mem_write_def nth_append not_less split: if_splits)

lemma verify_same:
  assumes v: "wpa_verify_key_mic hm akm l ptk d = Some (rc, d')" and "same_but_mic f d"
  shows "same_but_mic f d'"
proof (cases "length d < sizeof_hdr + sizeof_key")
  case True with assms show ?thesis by (simp add: wpa_verify_key_mic_def)
next
  case False
  let ?n = "wpa_mic_len akm l"
  from v False obtain mic d0 m where
    mic: "mem_read d mic_pos ?n = Some mic" and d0: "mem_write d mic_pos (replicate ?n 0) = Some d0"
    and m: "wpa_eapol_key_mic hm (pk_kck ptk) akm (ek_key_info d AND WPA_KEY_INFO_TYPE_MASK) d0 = Some m"
    and rest: "(case m of None \<Rightarrow> mem_write d0 mic_pos mic
      | Some m \<Rightarrow> mem_write d0 mic_pos m \<bind> (\<lambda>d1. mem_write d1 mic_pos mic)) = Some d'"
    by (auto simp: wpa_verify_key_mic_def Let_def split: Option.bind_splits option.splits)
  from rest m obtain x d1 where d1: "mem_write d0 mic_pos x = Some d1" "length x \<le> 32" and d': "mem_write d1 mic_pos mic = Some d'"
  proof (cases m)
    case None
    with rest nth_mem_write(1,2) [OF d0] show ?thesis by (intro that [of "[]" d0]) (simp_all add: mem_write_def)
  next
    case (Some x)
    with rest m show ?thesis by (auto split: Option.bind_splits dest!: length_mic intro: that)
  qed
  have "mic ! (k - mic_pos) = d ! k \<and> length mic = ?n" if "mic_pos \<le> k" "k < mic_pos + ?n" for k
    using mic that by (auto simp: mem_read_def split: if_splits)
  then have "d' ! k = d ! k" if "k < length d" "k < mic_pos \<or> mic_pos + 32 \<le> k" for k
    using that d1(2) nth_mem_write [OF d0] nth_mem_write [OF d1(1)] nth_mem_write [OF d'] mic
    by (auto simp: mem_read_def split: if_splits)
  moreover have "length d' = length d"
    using nth_mem_write(1) [OF d0] nth_mem_write(1) [OF d1(1)] nth_mem_write(1) [OF d'] by simp
  ultimately show ?thesis using assms(2) by (simp add: same_but_mic_def)
qed

text \<open>The search for the key: what it finds was derived from the nonce of the machine and makes the MIC of
  the frame right.\<close>

lemma mic_len_psk: "wpa_key_mgmt_wpa_psk akm \<Longrightarrow> wpa_mic_len akm l = wpa_mic_len akm l'"
  by (auto simp: wpa_mic_len_def wpa_key_mgmt_wpa_psk_def)

lemma candidate_mic_len:
  assumes "pmk \<in> set (fst (candidate_pmks e i m s))" and "length (sm_PMK m) = 64"
    and "wpa_mic_len (sm_wpa_key_mgmt m) (sm_pmk_len m) \<noteq> 0"
  shows "wpa_mic_len (sm_wpa_key_mgmt m) (length pmk) \<noteq> 0"
proof (cases "uses_psk m")
  case True
  then show ?thesis using assms(3) mic_len_psk [of "sm_wpa_key_mgmt m" "length pmk" "sm_pmk_len m"] by (simp add: uses_psk_def)
next
  case False
  with assms(1,2) have "length pmk = min (sm_pmk_len m) 64" by (simp add: candidate_pmks_def)
  with assms(3) show ?thesis by (auto simp: wpa_mic_len_def split: if_splits)
qed

lemma try_pmks_from:
  assumes "try_pmks (w_env w) s m sn pmks d = Some (res, d')" and "wa_addr (au_wa s) = w_aa w" and "sm_addr m = w_spa w i"
    and "\<And>pmk. pmk \<in> set pmks \<Longrightarrow> wpa_mic_len (sm_wpa_key_mgmt m) (sm_pmk_len m) \<noteq> 0 \<Longrightarrow>
      wpa_mic_len (sm_wpa_key_mgmt m) (length pmk) \<noteq> 0"
    and "f \<in> w_rx w i" and "same_but_mic f d"
  shows "same_but_mic f d' \<and> (\<forall>pmk PTK. res = Some (pmk, PTK) \<longrightarrow> ptk_from w i (sm_ANonce m) PTK)"
  using assms
proof (induction pmks arbitrary: d)
  case Nil then show ?case by simp
next
  case (Cons pmk pmks)
  show ?case
  proof (cases "wpa_derive_ptk (w_env w) s m sn pmk")
    case None with Cons.prems(1) show ?thesis by simp
  next
    case (Some r)
    show ?thesis
    proof (cases r)
      case None with Some Cons.prems(1,6) show ?thesis by simp
    next
      fix PTK assume r: "r = Some PTK"
      let ?n = "wpa_mic_len (sm_wpa_key_mgmt m) (sm_pmk_len m)"
      from Some r Cons.prems(2,3) have der: "wpa_pmk_to_ptk (we_hm512 (w_env w)) pmk (ascii ''Pairwise key expansion'') (w_aa w)
          (w_spa w i) (sm_ANonce m) sn (sm_wpa_key_mgmt m) (sm_pairwise m) = Some (Some PTK)"
        by (simp add: wpa_derive_ptk_def)
      from Cons.prems(1) Some r obtain rc d1 where
        v: "(if ?n = 0 then Some (- 1, d) else wpa_verify_key_mic (we_hm512 (w_env w)) (sm_wpa_key_mgmt m) (length pmk) PTK d)
              = Some (rc, d1)"
        and k: "(if rc = 0 then Some (Some (pmk, PTK), d1)
           else if \<not> wpa_key_mgmt_wpa_psk (sm_wpa_key_mgmt m) \<or> wpa_key_mgmt_sae (sm_wpa_key_mgmt m) then Some (None, d1)
           else try_pmks (w_env w) s m sn pmks d1) = Some (res, d')"
        by (auto split: Option.bind_splits)
      from v Cons.prems(6) have d1: "same_but_mic f d1" by (auto split: if_splits dest: verify_same)
      show ?thesis
      proof (cases "rc = 0")
        case True
        with v have "?n \<noteq> 0" and "wpa_verify_key_mic (we_hm512 (w_env w)) (sm_wpa_key_mgmt m) (length pmk) PTK d = Some (0, d1)"
          by (auto split: if_splits)
        with der Cons.prems(4,5,6) have "ptk_from w i (sm_ANonce m) PTK"
          unfolding ptk_from_def by fastforce
        with True k d1 show ?thesis by auto
      next
        case False
        with k d1 Cons.IH [OF _ Cons.prems(2,3) _ Cons.prems(5) d1] Cons.prems(4) show ?thesis by (auto split: if_splits)
      qed
    qed
  qed
qed

lemma ensures_case_m2:
  "(c = M2_ignore \<Longrightarrow> ensures x Q) \<Longrightarrow> (c = M2_disconnect \<Longrightarrow> ensures y Q) \<Longrightarrow> (c = M2_ok \<Longrightarrow> ensures z Q) \<Longrightarrow>
   ensures (case c of M2_ignore \<Rightarrow> x | M2_disconnect \<Rightarrow> y | M2_ok \<Rightarrow> z) Q"
  by (cases c) simp_all

definition calc_tail where
  "calc_tail e step i m pmks res d t = mod_sm i (\<lambda>m. m\<lparr>sm_last_rx_eapol_key := Some d\<rparr>) t \<bind> (\<lambda>s. case res of
         None \<Rightarrow> Some (if uses_psk m \<and> pmks \<noteq> [] then log_ev (PskFailure i) s else s)
       | Some (pmk, PTK) \<Rightarrow> check_m2 m d \<bind> (\<lambda>c. case c of
             M2_ignore \<Rightarrow> Some s
           | M2_disconnect \<Rightarrow> wpa_sta_disconnect e step i 2 s
           | M2_ok \<Rightarrow> do {
               s \<leftarrow> mod_sm i (\<lambda>m. m\<lparr>sm_pending_1_of_4_timeout := False, sm_timeouts := []\<rparr>) s;
               s \<leftarrow> (if wpa_key_mgmt_wpa_psk (sm_wpa_key_mgmt m)
                     then set_PMK i (if uses_psk m then pmk else sm_PMK m) 32 s else Some s);
               mod_sm i (\<lambda>m. m\<lparr>sm_MICVerified := True, sm_PTK := PTK, sm_PTK_valid := True\<rparr>) s }))"

lemma calc_tail_post:
  assumes "at w i m nc s0 x" "quiet {} x t"
    and K: "K w i (m\<lparr>sm_last_rx_eapol_key := Some d\<rparr>) nc"
      "\<And>y. res = Some y \<Longrightarrow> K w i (m\<lparr>sm_last_rx_eapol_key := Some d, sm_MICVerified := True, sm_PTK := snd y, sm_PTK_valid := True\<rparr>) nc"
      "K w i (m\<lparr>sm_last_rx_eapol_key := Some d, sm_DeauthenticationRequest := True, sm_PTK_valid := False, sm_PTK := ptk0, sm_changed := True\<rparr>) nc"
    and m: "sm_in_step_loop m" "sm_changed m" "\<not> sm_Init m"
  shows "ensures (calc_tail e step i m' pmks res d t) (hs_post w i s0)"
  using assms(1,2) unfolding calc_tail_def
  apply -
  apply (erule at_mod, simp add: core_def)
  apply (rule ensures_case_option)
  apply (rule ensures_Some, erule hs_postI, simp add: K m)
  apply (rule ensures_prod, rule bind_any, rule ensures_case_m2)
  apply (rule ensures_Some, erule hs_postI, simp add: K m)
  apply (erule sta_disconnect_at, simp add: m)
  apply (erule hs_postI, simp add: K m)
  apply (erule at_keep, simp add: core_def)
  apply (rule ensures_bind, rule ensures_if)
  apply (erule at_run_last, rule quiet_runs, simp)
  apply (erule at_last, simp add: core_def)
  apply (erule hs_postI, simp add: K m)
  apply (rule ensures_Some)
  apply (erule at_last, simp add: core_def)
  apply (erule hs_postI, simp add: K m)
  done

lemma PTKCALCNEGOTIATING_post:
  assumes a: "at w i m nc s0 s" and K: "K w i m nc" and m: "sm_in_step_loop m" "\<not> sm_Init m" "nc = Some (sm_ANonce m)"
    "\<not> sm_ReAuthenticationRequest m" "\<not> sm_PTKRequest m"
  shows "ensures (WPA_PTK_PTKCALCNEGOTIATING_Enter (w_env w) step i s) (hs_post w i s0)"
proof -
  let ?m = "m\<lparr>sm_changed := True, sm_ptk_state := WPA_PTK_PTKCALCNEGOTIATING, sm_EAPOLKeyReceived := False, sm_update_snonce := False\<rparr>"
  have tail: "ensures (calc_tail (w_env w) step i m' pmks res d' t) (hs_post w i s0)"
    if at: "at w i ?m nc s0 x" and c: "core m' = core ?m" and d: "sm_last_rx_eapol_key m' = Some d"
      and cand: "pmks = fst (candidate_pmks (w_env w) i m' x)" "t = snd (candidate_pmks (w_env w) i m' x)"
      and tr: "try_pmks (w_env w) t m' (sm_SNonce m') pmks d = Some (res, d')" for x t d d' res m' pmks
  proof -
    note c' = core_eqs [OF c]
    have "sm_last_rx_eapol_key m = Some d" using d c'(12) by simp
    with K obtain f where f: "f \<in> w_rx w i" "same_but_mic f d" by (auto simp: K_def)
    have q: "quiet {} x t" by (simp add: cand)
    have addr: "wa_addr (au_wa t) = w_aa w" "sm_addr m' = w_spa w i" and len: "length (sm_PMK m') = 64"
      using at q K c' by (simp_all add: at_def quiet_def K_def)
    have r: "same_but_mic f d' \<and> (\<forall>pmk PTK. res = Some (pmk, PTK) \<longrightarrow> ptk_from w i (sm_ANonce m') PTK)"
      by (rule try_pmks_from [OF tr addr _ f]) (rule candidate_mic_len [OF _ len], unfold cand(1))
    then have r: "\<exists>f\<in>w_rx w i. same_but_mic f d'" "\<And>y. res = Some y \<Longrightarrow> ptk_from w i (sm_ANonce m) (snd y)"
      using f(1) c'(15) by auto
    show ?thesis
      by (rule calc_tail_post [OF at q]) (insert K m r, simp_all add: K_def idle_def leaving_def pairwise_key_received_def)
  qed
  show ?thesis
    unfolding WPA_PTK_PTKCALCNEGOTIATING_Enter_def SM_ENTRY_PTK_def Let_def
    using a
    apply -
    apply (erule at_mod, simp add: core_def)
    apply (erule at_mod, simp add: core_def)
    apply (erule at_get, simp)
    apply (rule bind_any, rule ensures_prod, rule bind_any, rule ensures_prod)
    apply (rule tail [unfolded calc_tail_def])
    apply (assumption | rule refl | simp)+
    done
qed

end
