(* ===== verification/WpaAuthStep.thy ===== *)
theory WpaAuthStep
  imports WpaAuthInv
begin

text \<open>
  The invariant of \<open>WpaAuthInv\<close> through one step of the two machines of a station (\<^verbatim>\<open>SM_STEP(WPA_PTK)\<close> and
  \<^verbatim>\<open>SM_STEP(WPA_PTK_GROUP)\<close> of \<^verbatim>\<open>src/ap/wpa_auth.c\<close>).
\<close>

subsection \<open>Setting the pairwise key\<close>

lemma set_key_at:
  assumes "at w i m (Some n) s0 s" and "tk_from w i n alg key" and "\<And>nc r x. at w i m nc s0 x \<Longrightarrow> ensures (g r x) Q"
  shows "ensures (case wpa_auth_set_key e (Some i) alg 0 key s of (r, s) \<Rightarrow> g r s) Q"
proof -
  let ?s = "log_ev (SetKey (Some i) alg 0 key (we_set_key e (au_tick s))) (s\<lparr>au_tick := Suc (au_tick s)\<rparr>)"
  have "\<exists>nc. at w i m nc s0 ?s"
    using assms(1,2) by (cases "alg = WPA_ALG_NONE") (auto simp: at_def quiet_def log_ev_def)
  with assms(3) show ?thesis by (auto simp: wpa_auth_set_key_def ask_def Let_def)
qed

lemma PTKINITDONE_post:
  assumes a: "at w i m nc s0 s" and K: "K w i m nc" and m: "sm_in_step_loop m" "\<not> sm_Init m" "nc = Some (sm_ANonce m)" "sm_PTK_valid m"
  shows "ensures (WPA_PTK_PTKINITDONE_Enter e step i s) (hs_post w i s0)"
proof -
  let ?m = "m\<lparr>sm_changed := True, sm_ptk_state := WPA_PTK_PTKINITDONE, sm_EAPOLKeyReceived := False\<rparr>"
  have tk: "tk_from w i (sm_ANonce m) (wpa_cipher_to_alg (sm_pairwise m')) tk"
    if "core m' = core ?m"
      "mem_read (pk_tk (sm_PTK m') @ replicate (32 - length (pk_tk (sm_PTK m'))) 0) 0 (wpa_cipher_key_len (sm_pairwise m')) = Some tk"
    for tk and m' :: wpa_state_machine
    unfolding tk_from_def using K m(4) that(2) core_eqs(13) [OF that(1)] by (auto simp: K_def)
  have a': "at w i m (Some (sm_ANonce m)) s0 s" using a m(3) by simp
  then show ?thesis
    unfolding WPA_PTK_PTKINITDONE_Enter_def SM_ENTRY_PTK_def Let_def
    apply -
    apply (erule at_mod, simp add: core_def)
    apply (erule at_mod, simp add: core_def)
    apply (erule at_get, simp)
    apply (rule ensures_bind, rule ensures_if, rule bind_any, erule set_key_at, erule (1) tk)
    apply ((erule at_keep at_keep_last sta_disconnect_at, (simp add: core_def m; fail))
      | (erule hs_postI, (insert K m, simp add: K_defs; fail)) | (simp; fail)
      | (erule at_runs, rule quiet_runs, (simp; fail)) | rule at_flow)+
    done
qed

subsection \<open>One step of the pairwise key machine\<close>

lemma nonce_at: "K w i m nc \<Longrightarrow> \<not> idle m \<Longrightarrow> nc = Some (sm_ANonce m)"
  by (simp add: K_def)

lemmas state_posts = INITIALIZE_post DISCONNECT_post DISCONNECTED_post AUTHENTICATION_post AUTHENTICATION2_post INITPMK_post
  INITPSK_post PTKSTART_post PTKCALCNEGOTIATING_post PTKCALCNEGOTIATING2_post PTKINITNEGOTIATING_post PTKINITDONE_post

definition calm :: "wpa_state_machine \<Rightarrow> bool" where
  "calm m \<longleftrightarrow> \<not> sm_Init m \<and> \<not> sm_Disconnect m \<and> \<not> sm_DeauthenticationRequest m \<and> \<not> sm_AuthenticationRequest m \<and>
     \<not> sm_ReAuthenticationRequest m \<and> \<not> sm_PTKRequest m"

lemma hs_post_stay:
  "at w i m nc s0 s \<Longrightarrow> K w i m nc \<Longrightarrow> sm_in_step_loop m \<Longrightarrow> settled m \<Longrightarrow> ensures (Some s) (hs_post w i s0)"
  by (rule ensures_Some, erule hs_postI) simp

lemma switch_post:
  assumes a: "at w i m nc s0 s" and K: "K w i m nc" and l: "sm_in_step_loop m" and c: "core m' = core m" and f: "calm m"
  shows "ensures (WPA_PTK_switch (w_env w) step m' i s) (hs_post w i s0)"
proof -
  note c' = core_eqs(1) [OF c] core_eqs(10) [OF c] core_eqs(11) [OF c] core_eqs(19) [OF c]
  have f': "\<not> sm_Init m" "\<not> sm_ReAuthenticationRequest m" "\<not> sm_PTKRequest m" "\<not> leaving m"
    using f by (simp_all add: calm_def leaving_def)
  have t: "at w i m nc s0 (s\<lparr>au_tick := x\<rparr>)" "at w i m nc s0 (count_failure s)"
    "at w i m nc s0 (count_failure (s\<lparr>au_tick := x\<rparr>))" for x
    using a by (auto intro: at_in)
  note runs = state_posts(1-4) [OF a K l] state_posts(5) [OF a K l] state_posts(2) [OF t(2) K l] state_posts(2) [OF t(3) K l] hs_post_stay [OF a K l] f'
  note runs' = state_posts(5-) [OF a K l] state_posts(8) [OF t(1) K l] runs
  note sw = WPA_PTK_switch_def c' wpa_ptk_state.case pure_defs
  have v: "sm_PTK_valid m = False" if "sm_ptk_state m = WPA_PTK_AUTHENTICATION" using that K by (simp add: K_def)
  have n: "nc = Some (sm_ANonce m)" if "\<not> idle m" using that K by (simp add: K_def)
  have p: "sm_PTK_valid m" if "sm_ptk_state m = WPA_PTK_PTKINITNEGOTIATING" "pairwise_key_received m \<and> sm_MICVerified m" "\<not> sm_update_snonce m"
    using that K f' by (simp add: K_def)
  show ?thesis
  proof (cases "sm_ptk_state m")
    case WPA_PTK_INITIALIZE then show ?thesis unfolding sw by simp (rule runs, simp add: settled_def)
  next
    case WPA_PTK_DISCONNECT then show ?thesis unfolding sw by simp (rule runs)
  next
    case WPA_PTK_DISCONNECTED then show ?thesis unfolding sw by simp (rule runs)
  next
    case WPA_PTK_AUTHENTICATION with v show ?thesis unfolding sw by simp (rule runs, simp_all add: f')
  next
    case WPA_PTK_AUTHENTICATION2
    with n f have n: "nc = Some (sm_ANonce m)" by (simp add: idle_def calm_def)
    from WPA_PTK_AUTHENTICATION2 show ?thesis unfolding sw
      by simp (intro conjI impI runs' n; simp add: settled_def)
  next
    case WPA_PTK_INITPMK
    with n have n: "nc = Some (sm_ANonce m)" by (simp add: idle_def)
    from WPA_PTK_INITPMK show ?thesis unfolding sw by simp (intro conjI impI runs' n)
  next
    case WPA_PTK_INITPSK
    with n have n: "nc = Some (sm_ANonce m)" by (simp add: idle_def)
    from WPA_PTK_INITPSK show ?thesis unfolding sw by simp (intro conjI impI runs' n)
  next
    case WPA_PTK_PTKSTART
    with n have n: "nc = Some (sm_ANonce m)" by (simp add: idle_def)
    from WPA_PTK_PTKSTART show ?thesis unfolding sw by simp (intro conjI impI runs' n; simp add: settled_def)
  next
    case WPA_PTK_PTKCALCNEGOTIATING
    with n have n: "nc = Some (sm_ANonce m)" by (simp add: idle_def)
    from WPA_PTK_PTKCALCNEGOTIATING show ?thesis unfolding sw
      by simp (intro conjI impI runs' n; simp add: settled_def)
  next
    case WPA_PTK_PTKCALCNEGOTIATING2
    with n have n: "nc = Some (sm_ANonce m)" by (simp add: idle_def)
    from WPA_PTK_PTKCALCNEGOTIATING2 show ?thesis unfolding sw by simp (intro runs' n disjI1; simp)
  next
    case WPA_PTK_PTKINITNEGOTIATING
    with n have n: "nc = Some (sm_ANonce m)" by (simp add: idle_def)
    from WPA_PTK_PTKINITNEGOTIATING p show ?thesis unfolding sw
      using K f' by simp (intro conjI impI runs' n disjI2; (simp add: settled_def K_def))
  next
    case WPA_PTK_PTKINITDONE then show ?thesis unfolding sw by simp (rule runs, simp add: settled_def)
  qed
qed

lemma K_disconnect: "K w i m nc \<Longrightarrow> K w i (m\<lparr>sm_Disconnect := True\<rparr>) nc"
  by (auto simp: K_defs)

lemma K_nonce: "K w i m nc \<Longrightarrow> \<not> sm_PTK_valid m \<Longrightarrow> K w i (m\<lparr>sm_ANonce := n\<rparr>) (Some n)"
  by (auto simp: K_defs)

lemma Step_post:
  assumes a: "at w i m nc s0 s" and K: "K w i m nc" and l: "sm_in_step_loop m"
  shows "ensures (WPA_PTK_Step (w_env w) step i s) (hs_post w i s0)"
proof -
  have "ensures (if sm_Init m' then WPA_PTK_INITIALIZE_Enter (w_env w) step i s
     else if sm_Disconnect m' then WPA_PTK_DISCONNECT_Enter (w_env w) step i s
     else if sm_DeauthenticationRequest m' then WPA_PTK_DISCONNECTED_Enter (w_env w) step i s
     else if sm_AuthenticationRequest m' then WPA_PTK_AUTHENTICATION_Enter (w_env w) step i s
     else if sm_ReAuthenticationRequest m' then WPA_PTK_AUTHENTICATION2_Enter (w_env w) step i s
     else if sm_PTKRequest m' then do {
       (r, s) \<leftarrow> wpa_auth_sm_ptk_update (w_env w) i s;
       if r < 0 then WPA_PTK_DISCONNECTED_Enter (w_env w) step i s else WPA_PTK_PTKSTART_Enter (w_env w) step i s }
     else WPA_PTK_switch (w_env w) step m' i s) (hs_post w i s0)" if c: "core m' = core m" for m'
  proof -
    note c' = core_eqs(2-7) [OF c]
    have req: "ensures (wpa_auth_sm_ptk_update (w_env w) i s \<bind> (\<lambda>(r, s).
        if r < 0 then WPA_PTK_DISCONNECTED_Enter (w_env w) step i s else WPA_PTK_PTKSTART_Enter (w_env w) step i s)) (hs_post w i s0)"
      if "\<not> sm_Init m" "sm_PTKRequest m"
      unfolding wpa_auth_sm_ptk_update_def
    proof (rule ensures_bind, rule draw_at [OF a quiet_refl])
      fix x assume "at w i (m\<lparr>sm_Disconnect := True\<rparr>) nc s0 x"
      then have "ensures (WPA_PTK_DISCONNECTED_Enter (w_env w) step i x) (hs_post w i s0)"
        by (rule DISCONNECTED_post) (simp_all add: K_disconnect K l)
      then show "ensures (case (- 1, x) of (r, s) \<Rightarrow> if r < (0 :: int) then WPA_PTK_DISCONNECTED_Enter (w_env w) step i s
          else WPA_PTK_PTKSTART_Enter (w_env w) step i s) (hs_post w i s0)" by simp
    next
      fix n x assume "at w i (m\<lparr>sm_ANonce := n\<rparr>) (Some n) s0 x"
      moreover have "\<not> sm_PTK_valid m" using K that by (simp add: K_def)
      ultimately have "ensures (WPA_PTK_PTKSTART_Enter (w_env w) step i x) (hs_post w i s0)"
        using K_nonce [OF K] l that by (intro PTKSTART_post [of w i "m\<lparr>sm_ANonce := n\<rparr>" "Some n"]) simp_all
      then show "ensures (case (0, x) of (r, s) \<Rightarrow> if r < (0 :: int) then WPA_PTK_DISCONNECTED_Enter (w_env w) step i s
          else WPA_PTK_PTKSTART_Enter (w_env w) step i s) (hs_post w i s0)" by simp
    qed
    have v: "\<not> sm_PTK_valid m" if "sm_ReAuthenticationRequest m" using that K by (simp add: K_def)
    show ?thesis
      unfolding c'
      by (intro ensures_if state_posts(1-3) [OF a K l] AUTHENTICATION_post [OF a K l] AUTHENTICATION2_post [OF a K l] req
          switch_post [OF a K l c] v) (simp_all add: calm_def)
  qed
  with a show ?thesis unfolding WPA_PTK_Step_def by (intro at_get [OF a quiet_refl])
qed

lemma ensures_case_group:
  "(x = WPA_PTK_GROUP_IDLE \<Longrightarrow> ensures a Q) \<Longrightarrow> (x = WPA_PTK_GROUP_REKEYNEGOTIATING \<Longrightarrow> ensures b Q) \<Longrightarrow>
   (x = WPA_PTK_GROUP_REKEYESTABLISHED \<Longrightarrow> ensures c Q) \<Longrightarrow> (x = WPA_PTK_GROUP_KEYERROR \<Longrightarrow> ensures d Q) \<Longrightarrow>
   ensures (case x of WPA_PTK_GROUP_IDLE \<Rightarrow> a | WPA_PTK_GROUP_REKEYNEGOTIATING \<Rightarrow> b | WPA_PTK_GROUP_REKEYESTABLISHED \<Rightarrow> c
     | WPA_PTK_GROUP_KEYERROR \<Rightarrow> d) Q"
  by (cases x) simp_all

lemma GROUP_IDLE_post:
  "at w i m nc s0 s \<Longrightarrow> K w i m nc \<Longrightarrow> sm_in_step_loop m \<Longrightarrow> settled m \<or> sm_changed m \<and> \<not> sm_Init m \<Longrightarrow>
   ensures (WPA_PTK_GROUP_IDLE_Enter i s) (hs_post w i s0)"
  unfolding WPA_PTK_GROUP_IDLE_Enter_def SM_ENTRY_PTK_GROUP_def
  by (cases "sm_Init m") ((erule at_mod at_keep_last, (simp add: core_def; fail)) | (erule hs_postI, (simp add: K_defs; fail)))+

lemma GROUP_REKEYNEGOTIATING_post:
  "at w i m nc s0 s \<Longrightarrow> K w i m nc \<Longrightarrow> sm_in_step_loop m \<Longrightarrow> \<not> sm_Init m \<Longrightarrow>
   ensures (WPA_PTK_GROUP_REKEYNEGOTIATING_Enter e i s) (hs_post w i s0)"
  unfolding WPA_PTK_GROUP_REKEYNEGOTIATING_Enter_def SM_ENTRY_PTK_GROUP_def pure_defs
  apply ((erule at_mod at_keep at_get, (simp add: core_def; fail)) | (erule hs_postI, (simp add: K_defs; fail))
      | (erule at_runs, rule quiet_runs, (simp; fail)) | rule at_flow)+
  done

lemma GROUP_REKEYESTABLISHED_post:
  "at w i m nc s0 s \<Longrightarrow> K w i m nc \<Longrightarrow> sm_in_step_loop m \<Longrightarrow> \<not> sm_Init m \<Longrightarrow>
   ensures (WPA_PTK_GROUP_REKEYESTABLISHED_Enter i s) (hs_post w i s0)"
  unfolding WPA_PTK_GROUP_REKEYESTABLISHED_Enter_def SM_ENTRY_PTK_GROUP_def
  by ((erule at_mod at_keep_last, (simp add: core_def; fail)) | (erule hs_postI, (simp add: K_defs; fail))
      | (erule at_runs, rule quiet_runs, (simp; fail)))+

lemma GROUP_KEYERROR_post:
  "at w i m nc s0 s \<Longrightarrow> K w i m nc \<Longrightarrow> sm_in_step_loop m \<Longrightarrow> \<not> sm_Init m \<Longrightarrow>
   ensures (WPA_PTK_GROUP_KEYERROR_Enter i s) (hs_post w i s0)"
  unfolding WPA_PTK_GROUP_KEYERROR_Enter_def SM_ENTRY_PTK_GROUP_def
  by ((erule at_mod at_last, (simp add: core_def; fail)) | (erule hs_postI, (auto simp: K_defs; fail))
      | (erule at_runs, rule quiet_runs, (simp; fail)))+

lemma hs_post_last:
  assumes "ensures op (hs_post w i s0)" and "\<And>m. core (f m) = core m"
  shows "ensures (op \<bind> mod_sm i f) (hs_post w i s0)"
proof (rule ensures_bind, rule ensures_conseq [OF assms(1)])
  fix x assume "hs_post w i s0 x"
  then obtain m nc where "at w i m nc s0 x" "K w i m nc" "sm_in_step_loop m" "settled m \<or> sm_changed m \<and> \<not> sm_Init m"
    by (auto simp: hs_post_def)
  then show "ensures (mod_sm i f x) (hs_post w i s0)"
    using assms(2) by (intro at_keep_last [of w i m nc]) (auto intro: hs_postI)
qed

lemma GROUP_Step_post:
  assumes a: "at w i m nc s0 s" and K: "K w i m nc" and l: "sm_in_step_loop m" and st: "settled m \<or> sm_changed m \<and> \<not> sm_Init m"
  shows "ensures (WPA_PTK_GROUP_Step e i s) (hs_post w i s0)"
  unfolding WPA_PTK_GROUP_Step_def
proof (rule at_get [OF a quiet_refl])
  fix m' assume "core m' = core m"
  note c' = core_eqs(2) [OF this]
  show "ensures (if sm_Init m' \<or> sm_PtkGroupInit m' then do {
       s \<leftarrow> WPA_PTK_GROUP_IDLE_Enter i s;
       mod_sm i (\<lambda>m. m\<lparr>sm_PtkGroupInit := False\<rparr>) s }
     else case sm_ptk_group_state m' of
         WPA_PTK_GROUP_IDLE \<Rightarrow>
           if sm_GUpdateStationKeys m' \<or> sm_wpa m' = WPA_VERSION_WPA \<and> sm_PInitAKeys m'
           then WPA_PTK_GROUP_REKEYNEGOTIATING_Enter e i s else Some s
       | WPA_PTK_GROUP_REKEYNEGOTIATING \<Rightarrow>
           if sm_EAPOLKeyReceived m' \<and> \<not> sm_EAPOLKeyRequest m' \<and> \<not> sm_EAPOLKeyPairwise m' \<and> sm_MICVerified m'
           then WPA_PTK_GROUP_REKEYESTABLISHED_Enter i s
           else if sm_GTimeoutCtr m' > ac_wpa_group_update_count (au_conf s) \<or>
             ac_wpa_disable_eapol_key_retries (au_conf s) \<and> sm_GTimeoutCtr m' > 1
           then WPA_PTK_GROUP_KEYERROR_Enter i s
           else if sm_TimeoutEvt m' then WPA_PTK_GROUP_REKEYNEGOTIATING_Enter e i s
           else Some s
       | WPA_PTK_GROUP_KEYERROR \<Rightarrow> WPA_PTK_GROUP_IDLE_Enter i s
       | WPA_PTK_GROUP_REKEYESTABLISHED \<Rightarrow> WPA_PTK_GROUP_IDLE_Enter i s) (hs_post w i s0)"
    using K l st
    by (intro ensures_if ensures_case_group hs_post_last GROUP_IDLE_post [OF a] GROUP_REKEYNEGOTIATING_post [OF a]
        GROUP_REKEYESTABLISHED_post [OF a] GROUP_KEYERROR_post [OF a] ensures_Some hs_postI [OF a]) (simp_all add: c' core_def)
qed

end
