(* ===== verification/WpaAuthLoop.thy ===== *)
theory WpaAuthLoop
  imports WpaAuthStep
begin

text \<open>
  The invariant of \<open>WpaAuthInv\<close> for all stations at once, through the group machine, the rounds of the step loop
  and the nested calls of \<^verbatim>\<open>wpa_sm_step\<close> (\<^verbatim>\<open>src/ap/wpa_auth.c\<close>).
\<close>

subsection \<open>The invariant of the authenticator\<close>

definition inloop :: "nat \<Rightarrow> auth \<Rightarrow> bool" where
  "inloop k s \<longleftrightarrow> (\<exists>m. au_sm s k = Some m \<and> sm_in_step_loop m)"

text \<open>\<open>X\<close> are the stations whose machine has still to make its steps.\<close>

definition GInv :: "world \<Rightarrow> nat set \<Rightarrow> auth \<Rightarrow> bool" where
  "GInv w X s \<longleftrightarrow> wa_addr (au_wa s) = w_aa w \<and>
     (\<forall>i. fresh w i (au_log s) \<and>
        (\<forall>m. au_sm s i = Some m \<longrightarrow> K w i m (nonce_of i (au_log s)) \<and> (sm_in_step_loop m \<or> settled m \<or> i \<in> X)))"

text \<open>What the steps of other stations may do to one in its step loop.\<close>

definition kept :: "nat \<Rightarrow> auth \<Rightarrow> auth \<Rightarrow> bool" where
  "kept k s s' \<longleftrightarrow> (\<exists>m m'. au_sm s k = Some m \<and> au_sm s' k = Some m' \<and>
     (core m' = core m \<or> core m' = core (m\<lparr>sm_Disconnect := True\<rparr>)))"

definition fine_but :: "nat set \<Rightarrow> world \<Rightarrow> nat set \<Rightarrow> auth \<Rightarrow> auth \<Rightarrow> bool" where
  "fine_but I w X s s' \<longleftrightarrow> GInv w X s' \<and> (\<forall>k. inloop k s' = inloop k s) \<and> (\<forall>k. k \<notin> I \<longrightarrow> inloop k s \<longrightarrow> kept k s s')"

abbreviation fine :: "world \<Rightarrow> nat set \<Rightarrow> auth \<Rightarrow> auth \<Rightarrow> bool" where "fine \<equiv> fine_but {}"

lemma kept_refl: "inloop k s \<Longrightarrow> kept k s s"
  by (auto simp: kept_def inloop_def)

lemma kept_trans: "kept k s t \<Longrightarrow> kept k t u \<Longrightarrow> kept k s u"
proof -
  assume "kept k s t" "kept k t u"
  then obtain a b c where o: "au_sm s k = Some a" "au_sm t k = Some b" "au_sm u k = Some c"
    "core b = core a \<or> core b = core (a\<lparr>sm_Disconnect := True\<rparr>)" "core c = core b \<or> core c = core (b\<lparr>sm_Disconnect := True\<rparr>)"
    by (auto simp: kept_def)
  have "core b = core a \<Longrightarrow> core (b\<lparr>sm_Disconnect := True\<rparr>) = core (a\<lparr>sm_Disconnect := True\<rparr>)"
    "core b = core (a\<lparr>sm_Disconnect := True\<rparr>) \<Longrightarrow> core (b\<lparr>sm_Disconnect := True\<rparr>) = core (a\<lparr>sm_Disconnect := True\<rparr>)"
    by (simp_all add: core_def)
  with o(4,5) have "core c = core a \<or> core c = core (a\<lparr>sm_Disconnect := True\<rparr>)" by metis
  with o(1,3) show ?thesis by (auto simp: kept_def)
qed

lemma fine_refl: "GInv w X s \<Longrightarrow> fine_but I w X s s"
  by (simp add: fine_but_def kept_refl)

lemma fine_trans: "fine_but I w X s t \<Longrightarrow> fine_but I w Y t u \<Longrightarrow> fine_but I w Y s u"
  unfolding fine_but_def by (blast intro: kept_trans)

lemma GInv_mono: "GInv w X s \<Longrightarrow> X \<subseteq> Y \<Longrightarrow> GInv w Y s"
  unfolding GInv_def by blast

lemma quiet_GInv:
  assumes "GInv w X s" and "quiet {} s t" shows "fine_but I w X s t"
proof -
  have c: "map_option core (au_sm t j) = map_option core (au_sm s j)" for j using assms(2) by (simp add: quiet_def)
  have same: "au_sm t j = Some b \<Longrightarrow> \<exists>a. au_sm s j = Some a \<and> core b = core a"
    "au_sm s j = Some a \<Longrightarrow> \<exists>b. au_sm t j = Some b \<and> core b = core a" for j a b
    using c [of j] by (cases "au_sm s j"; cases "au_sm t j"; simp)+
  have "K w j b (nonce_of j (au_log t)) \<and> (sm_in_step_loop b \<or> settled b \<or> j \<in> X)" if "au_sm t j = Some b" for j b
  proof -
    from same(1) [OF that] obtain a where a: "au_sm s j = Some a" "core b = core a" by blast
    then have "K w j a (nonce_of j (au_log s))" "sm_in_step_loop a \<or> settled a \<or> j \<in> X" using assms(1) by (auto simp: GInv_def)
    then show ?thesis
      using assms(2) K_core [OF a(2)] settled_core [OF a(2)] core_eqs(17) [OF a(2)] by (simp add: quiet_def)
  qed
  then have "GInv w X t"
    using assms by (simp add: GInv_def quiet_def)
  moreover have "inloop k t = inloop k s" for k
    unfolding inloop_def using same core_eqs(17) by metis
  moreover have "inloop k s \<Longrightarrow> kept k s t" for k
    unfolding inloop_def kept_def using same(2) by blast
  ultimately show ?thesis by (simp add: fine_but_def)
qed

lemma at_self: "GInv w X s \<Longrightarrow> au_sm s i = Some m \<Longrightarrow> at w i m (nonce_of i (au_log s)) s s \<and> K w i m (nonce_of i (au_log s))"
  by (auto simp: GInv_def at_def)

lemma at_GInv:
  assumes G: "GInv w X s0" and a: "at w i m nc s0 s" and K: "K w i m nc" and l: "sm_in_step_loop m \<or> settled m \<or> i \<in> Y"
    and XY: "X \<subseteq> insert i Y" and "sm_in_step_loop m = inloop i s0"
  shows "fine_but {i} w Y s0 s"
proof -
  obtain m' where m': "au_sm s i = Some m'" "core m' = core m" using a by (auto simp: at_def)
  have c: "j \<noteq> i \<Longrightarrow> map_option core (au_sm s j) = map_option core (au_sm s0 j)" for j using a by (simp add: at_def quiet_def)
  have same: "j \<noteq> i \<Longrightarrow> au_sm s j = Some b \<Longrightarrow> \<exists>a. au_sm s0 j = Some a \<and> core b = core a"
    "j \<noteq> i \<Longrightarrow> au_sm s0 j = Some a \<Longrightarrow> \<exists>b. au_sm s j = Some b \<and> core b = core a" for j a b
    using c [of j] by (cases "au_sm s j"; cases "au_sm s0 j"; simp)+
  have Ki: "K w i m' nc \<and> (sm_in_step_loop m' \<or> settled m' \<or> i \<in> Y)"
    using K l K_core [OF m'(2)] settled_core [OF m'(2)] core_eqs(17) [OF m'(2)] by simp
  have "K w j b (nonce_of j (au_log s)) \<and> (sm_in_step_loop b \<or> settled b \<or> j \<in> Y)" if "j \<noteq> i" "au_sm s j = Some b" for j b
  proof -
    from same(1) [OF that] obtain a' where a': "au_sm s0 j = Some a'" "core b = core a'" by blast
    then have "K w j a' (nonce_of j (au_log s0))" "sm_in_step_loop a' \<or> settled a' \<or> j \<in> X" using G by (auto simp: GInv_def)
    then show ?thesis
      using a XY that(1) K_core [OF a'(2)] settled_core [OF a'(2)] core_eqs(17) [OF a'(2)] by (auto simp: at_def quiet_def)
  qed
  then have "GInv w Y s"
    using a G m' Ki unfolding GInv_def at_def quiet_def by (metis option.inject singletonD)
  moreover have "inloop k s = inloop k s0" for k
  proof (cases "k = i")
    case True then show ?thesis using assms(6) m' core_eqs(17) [OF m'(2)] by (simp add: inloop_def)
  next
    case False then show ?thesis unfolding inloop_def using same core_eqs(17) by metis
  qed
  moreover have "k \<noteq> i \<Longrightarrow> inloop k s0 \<Longrightarrow> kept k s0 s" for k
    unfolding inloop_def kept_def using same(2) by blast
  ultimately show ?thesis by (simp add: fine_but_def)
qed

subsection \<open>The group machine and the step loop\<close>

definition stepok :: "world \<Rightarrow> step \<Rightarrow> bool" where
  "stepok w step \<longleftrightarrow> (\<forall>i s X. GInv w X s \<longrightarrow> ensures (step i s) (\<lambda>(r, s'). fine w (X - {i}) s s'))"

lemma fine_run:
  assumes "fine w X s0 s" and "ensures op (quiet {} s)" shows "ensures op (fine w X s0)"
  using assms(2) by (rule ensures_conseq) (metis assms(1) fine_but_def fine_trans quiet_GInv)

lemma fine_quiet: "fine w X s0 s \<Longrightarrow> quiet {} s t \<Longrightarrow> fine w X s0 t"
  by (metis fine_but_def fine_trans quiet_GInv)

lemma fine_run2:
  assumes "fine w X s0 s" and "ensures op (\<lambda>(r, x). quiet {} s x)" shows "ensures op (\<lambda>(r, x). fine w X s0 x)"
  using assms(2) by (rule ensures_conseq) (auto intro: fine_quiet [OF assms(1)])

lemma fine_step:
  assumes "stepok w step" and "fine w X s0 s" shows "ensures (step i s) (\<lambda>(r, x). fine w X s0 x)"
proof (rule ensures_conseq)
  have "GInv w X s" using assms(2) by (simp add: fine_but_def)
  then show "ensures (step i s) (\<lambda>(r, x). fine w (X - {i}) s x)" using assms(1) by (simp add: stepok_def)
  fix p :: "int \<times> auth" assume "case p of (r, x) \<Rightarrow> fine w (X - {i}) s x"
  then obtain r x where p: "p = (r, x)" and x: "fine w (X - {i}) s x" by (cases p) simp
  have "fine w X s x" using x GInv_mono [of w "X - {i}" x X] by (auto simp: fine_but_def)
  then show "case p of (r, x) \<Rightarrow> fine w X s0 x" using p fine_trans [OF assms(2)] by simp
qed

lemma fine_disconnect:
  assumes "fine w X s0 s" shows "ensures (wpa_group_disconnect_cb i s) (fine w X s0)"
  unfolding wpa_group_disconnect_cb_def
proof (rule ensures_mod_sm)
  fix m assume m: "au_sm s i = Some m"
  let ?t = "s\<lparr>au_sm := (au_sm s)(i \<mapsto> m\<lparr>sm_Disconnect := True\<rparr>)\<rparr>"
  have G: "GInv w X s" using assms by (simp add: fine_but_def)
  then have "K w i m (nonce_of i (au_log s))" "sm_in_step_loop m \<or> settled m \<or> i \<in> X" using m by (auto simp: GInv_def)
  then have "K w i (m\<lparr>sm_Disconnect := True\<rparr>) (nonce_of i (au_log s))"
    "sm_in_step_loop (m\<lparr>sm_Disconnect := True\<rparr>) \<or> settled (m\<lparr>sm_Disconnect := True\<rparr>) \<or> i \<in> X"
    by (auto simp: K_disconnect settled_def pairwise_key_received_def)
  with G have "GInv w X ?t" by (simp add: GInv_def)
  moreover have "inloop k ?t = inloop k s" for k using m by (simp add: inloop_def)
  moreover have "kept k s ?t" if "inloop k s" for k using m that by (auto simp: kept_def inloop_def)
  ultimately have "fine w X s ?t" by (simp add: fine_but_def)
  with assms show "fine w X s0 ?t" by (rule fine_trans)
qed

lemma fine_update_sta:
  assumes st: "stepok w step" and "fine w X s0 s"
  shows "ensures (wpa_group_update_sta step i s) (fine w X s0)"
proof -
  have m: "ensures (mod_sm i (\<lambda>m. m\<lparr>sm_GUpdateStationKeys := b\<rparr>) t) (fine w X s0)" if "quiet {} s t" for b t
    by (rule fine_run [OF assms(2)], rule quiet_mod_sm [OF that]) (simp add: core_def)
  have "ensures (mod_sm i (\<lambda>m. m\<lparr>sm_GUpdateStationKeys := True\<rparr>) (mod_group f s) \<bind> (\<lambda>s. step i s \<bind> (\<lambda>(r, s). Some s))) (fine w X s0)" for f
    by (rule ensures_bind, rule ensures_conseq [OF m], simp, rule ensures_bind, rule ensures_conseq [OF fine_step [OF st]], assumption)
       (auto intro: ensures_Some)
  then show ?thesis
    unfolding wpa_group_update_sta_def Let_def
    by (intro bind_any [of "au_sm s i"] ensures_if ensures_Some m quiet_refl assms(2))
qed

lemma fine_for_each:
  assumes cb: "\<And>i t. fine w X s0 t \<Longrightarrow> ensures (cb i t) (fine w X s0)"
  shows "fine w X s0 s \<Longrightarrow> ensures (for_each_sta cb is s) (fine w X s0)"
proof (induction "is" arbitrary: s)
  case Nil then show ?case by (simp add: ensures_Some)
next
  case (Cons i "is")
  have "ensures (if au_sm s i = None then Some s else cb i s) (fine w X s0)"
    using Cons.prems by (intro ensures_if ensures_Some cb)
  then show ?case by (simp add: ensures_bind ensures_conseq Cons.IH)
qed

lemma fine_setkeys:
  assumes "stepok w step" and "fine w X s0 s" shows "ensures (wpa_group_setkeys e step s) (fine w X s0)"
  unfolding wpa_group_setkeys_def Let_def
proof (rule ensures_bind, rule ensures_conseq [OF fine_run2 [OF assms(2)]])
  show "ensures (wpa_gtk_update e (mod_group (\<lambda>g. swap_group_keys (g\<lparr>wg_changed := True, wg_state := WPA_GROUP_SETKEYS, wg_GTKReKey := False\<rparr>)) s))
    (\<lambda>(r, x). quiet {} s x)" by (rule quiet_runs) simp
  fix p :: "int \<times> auth" assume "case p of (r, x) \<Rightarrow> fine w X s0 x"
  then have "fine w X s0 (mod_group (\<lambda>g. g\<lparr>wg_GKeyDoneStations := 0\<rparr>) (snd p))" by (cases p) (auto intro: fine_quiet)
  then show "ensures (case p of (r, s) \<Rightarrow> for_each_sta (wpa_group_update_sta step) (au_list (mod_group (\<lambda>g. g\<lparr>wg_GKeyDoneStations := 0\<rparr>) s))
      (mod_group (\<lambda>g. g\<lparr>wg_GKeyDoneStations := 0\<rparr>) s)) (fine w X s0)"
    by (cases p) (auto intro: fine_for_each fine_update_sta [OF assms(1)])
qed

lemma fine_setkeysdone:
  assumes "fine w X s0 s" shows "ensures (wpa_group_setkeysdone e s) (fine w X s0)"
  unfolding wpa_group_setkeysdone_def wpa_group_fatal_failure_def Let_def
proof (rule ensures_bind, rule ensures_conseq [OF fine_run2 [OF assms]])
  show "ensures (wpa_group_config_group_keys e (mod_group (\<lambda>g. g\<lparr>wg_changed := True, wg_state := WPA_GROUP_SETKEYSDONE\<rparr>) s))
    (\<lambda>(r, x). quiet {} s x)" by (rule quiet_runs) simp
  fix p :: "int \<times> auth" assume "case p of (r, x) \<Rightarrow> fine w X s0 x"
  then have "fine w X s0 (snd p)" "fine w X s0 (mod_group f (snd p))" for f by (cases p, auto intro: fine_quiet)+
  then show "ensures (case p of (r, s) \<Rightarrow> if r < 0 then for_each_sta wpa_group_disconnect_cb
        (au_list (mod_group (\<lambda>g. g\<lparr>wg_changed := True, wg_state := WPA_GROUP_FATAL_FAILURE\<rparr>) s))
        (mod_group (\<lambda>g. g\<lparr>wg_changed := True, wg_state := WPA_GROUP_FATAL_FAILURE\<rparr>) s) else Some s) (fine w X s0)"
    by (cases p) (auto intro: fine_for_each fine_disconnect ensures_Some)
qed

lemma fine_group_sm_step:
  assumes "stepok w step" and "fine w X s0 s" shows "ensures (wpa_group_sm_step e step s) (fine w X s0)"
  unfolding wpa_group_sm_step_def Let_def
  by (intro ensures_if ensures_Some fine_setkeys [OF assms] fine_setkeysdone [OF assms(2)] fine_run [OF assms(2)] quiet_runs quiet_refl assms(2))

definition settled_at :: "nat \<Rightarrow> auth \<Rightarrow> bool" where
  "settled_at i s \<longleftrightarrow> (\<forall>m. au_sm s i = Some m \<longrightarrow> settled m)"

text \<open>Between the parts of a round: the machine is not about to be freed.\<close>

lemma round_check:
  assumes p: "hs_post w i s0 x"
    and nx: "\<And>m nc. at w i m nc s0 x \<Longrightarrow> K w i m nc \<Longrightarrow> sm_in_step_loop m \<Longrightarrow> settled m \<or> sm_changed m \<and> \<not> sm_Init m \<Longrightarrow> ensures g Q"
  shows "ensures (au_sm x i \<bind> (\<lambda>m. if sm_pending_deinit m then f else g)) Q"
proof -
  from p obtain m nc where m: "at w i m nc s0 x" "K w i m nc" "sm_in_step_loop m" "settled m \<or> sm_changed m \<and> \<not> sm_Init m"
    by (auto simp: hs_post_def)
  from m(1) obtain m' where m': "au_sm x i = Some m'" "core m' = core m" by (auto simp: at_def)
  have "\<not> sm_pending_deinit m'" using m(2) core_eqs(18) [OF m'(2)] by (simp add: K_def)
  with m' nx [OF m] show ?thesis by simp
qed

lemma hs_post_start:
  assumes "at w i m nc s0 x" and "K w i m nc" and "sm_in_step_loop m" and "settled m \<or> sm_changed m \<and> \<not> sm_Init m"
  shows "hs_post w i s0 x"
  using assms by (auto simp: hs_post_def)

lemma group_round:
  assumes st: "stepok w step" and G: "GInv w X s" and l: "inloop i s" and a: "at w i m nc s x" and K: "K w i m nc"
    and m: "sm_in_step_loop m" "settled m \<or> sm_changed m \<and> \<not> sm_Init m"
  shows "ensures (wpa_group_sm_step e step x \<bind> (\<lambda>s. au_sm s i \<bind> (\<lambda>m. Some (sm_changed m \<or> wg_changed (au_group s), s))))
     (\<lambda>(again, s'). fine_but {i} w X s s' \<and> (\<not> again \<longrightarrow> settled_at i s'))"
proof -
  have f: "fine_but {i} w X s x"
    using l m by (intro at_GInv [OF G a K]) auto
  then have "fine w X x x" by (auto simp: fine_but_def intro: kept_refl)
  then have "ensures (wpa_group_sm_step e step x) (fine w X x)" by (rule fine_group_sm_step [OF st])
  moreover have "fine_but {i} w X s y \<and> (\<not> (sm_changed b \<or> c) \<longrightarrow> settled_at i y)" if y: "fine w X x y" and b: "au_sm y i = Some b" for y b c
  proof -
    have sy: "fine_but {i} w X s y" by (rule fine_trans [OF f]) (insert y, simp add: fine_but_def)
    from a obtain m' where m': "au_sm x i = Some m'" "core m' = core m" by (auto simp: at_def)
    have "kept i x y" using y l f by (auto simp: fine_but_def)
    then have "core b = core m' \<or> core b = core (m'\<lparr>sm_Disconnect := True\<rparr>)" using m'(1) b by (auto simp: kept_def)
    moreover have "settled (m'\<lparr>sm_Disconnect := True\<rparr>) = settled m'" "sm_changed (m'\<lparr>sm_Disconnect := True\<rparr>) = sm_changed m'"
      by (simp_all add: settled_def pairwise_key_received_def)
    ultimately have "sm_changed b = sm_changed m' \<and> settled b = settled m'"
      using core_eqs(16) [of b] settled_core [of b] by metis
    then have "\<not> sm_changed b \<longrightarrow> settled_at i y"
      using m(2) b core_eqs(16) [OF m'(2)] settled_core [OF m'(2)] by (auto simp: settled_at_def)
    with sy show ?thesis by blast
  qed
  ultimately show ?thesis
    by (intro ensures_bind) (erule ensures_conseq, rule ensures_bind, rule ensures_au_sm, rule ensures_Some, unfold prod.case, blast)
qed

lemma round_fine:
  assumes st: "stepok w step" and G: "GInv w X s" and l: "inloop i s"
  shows "ensures (sm_round (w_env w) step i s) (\<lambda>(again, s'). fine_but {i} w X s s' \<and> (\<not> again \<longrightarrow> settled_at i s'))"
proof -
  from l obtain m where m: "au_sm s i = Some m" "sm_in_step_loop m" by (auto simp: inloop_def)
  let ?nc = "nonce_of i (au_log s)" and ?m = "m\<lparr>sm_changed := False\<rparr>"
  have a: "at w i m ?nc s s" and K: "K w i m ?nc" using at_self [OF G m(1)] by simp_all
  have K': "K w i ?m ?nc" using K by (simp add: K_defs)
  have np: "\<not> sm_pending_deinit m" using K by (simp add: K_def)
  show ?thesis
    unfolding sm_round_def Let_def using m np
    apply simp
    apply (rule at_mod [OF a], simp add: core_def)
    apply (drule at_in(1))
    apply (rule ensures_bind, rule ensures_conseq, erule Step_post, rule K', simp)
    apply (erule round_check)
    apply (rule ensures_bind, rule ensures_conseq, erule (3) GROUP_Step_post)
    apply (erule round_check)
    apply (erule (3) group_round [OF st G l])
    done
qed

lemma loop_fine:
  assumes st: "stepok w step"
  shows "GInv w X s \<Longrightarrow> inloop i s \<Longrightarrow> ensures (sm_loop (w_env w) step k i s) (\<lambda>s'. fine_but {i} w X s s' \<and> settled_at i s')"
proof (induction k arbitrary: s)
  case 0 show ?case by (simp add: ensures_None)
next
  case (Suc k)
  have "ensures (if again then sm_loop (w_env w) step k i x else Some x) (\<lambda>s'. fine_but {i} w X s s' \<and> settled_at i s')"
    if x: "fine_but {i} w X s x" "\<not> again \<longrightarrow> settled_at i x" for again x
  proof (cases again)
    case True
    have "GInv w X x" "inloop i x" using x Suc.prems by (auto simp: fine_but_def)
    from ensures_conseq [OF Suc.IH [OF this]] True fine_trans [OF x(1)] show ?thesis by simp
  next
    case False with x show ?thesis by (simp add: ensures_Some)
  qed
  then show ?case
    by simp (rule ensures_bind, rule ensures_conseq [OF round_fine [OF st Suc.prems]], auto)
qed

lemma enter_loop:
  assumes G: "GInv w X s" and m: "au_sm s i = Some m"
  shows "GInv w X (s\<lparr>au_sm := (au_sm s)(i \<mapsto> m\<lparr>sm_in_step_loop := True\<rparr>)\<rparr>)"
proof -
  have "K w i (m\<lparr>sm_in_step_loop := True\<rparr>) (nonce_of i (au_log s))"
    using at_self [OF G m] by (simp add: K_defs)
  with G show ?thesis by (simp add: GInv_def)
qed

lemma leave_loop:
  assumes G: "GInv w X s" and m: "au_sm s i = Some m" and "settled_at i s"
  shows "GInv w (X - {i}) (s\<lparr>au_sm := (au_sm s)(i \<mapsto> m\<lparr>sm_in_step_loop := False\<rparr>)\<rparr>)"
proof -
  have "K w i (m\<lparr>sm_in_step_loop := False\<rparr>) (nonce_of i (au_log s))"
    using at_self [OF G m] by (simp add: K_defs)
  moreover have "settled (m\<lparr>sm_in_step_loop := False\<rparr>)"
    using assms(2,3) by (simp add: settled_at_def settled_def pairwise_key_received_def)
  ultimately show ?thesis using G by (simp add: GInv_def)
qed

lemma sm_step_ok: "stepok w (wpa_sm_step (w_env w) n)"
proof (induction n)
  case 0 show ?case by (simp add: stepok_def ensures_None)
next
  case (Suc n)
  show ?case unfolding stepok_def
  proof (intro allI impI)
    fix i s X assume G: "GInv w X s"
    show "ensures (wpa_sm_step (w_env w) (Suc n) i s) (\<lambda>(r, s'). fine w (X - {i}) s s')"
    proof (cases "au_sm s i")
      case None then show ?thesis by (simp add: ensures_None)
    next
      case (Some m)
      show ?thesis
      proof (cases "sm_in_step_loop m")
        case True
        with G Some have "GInv w (X - {i}) s" unfolding GInv_def by (metis Diff_iff option.inject singletonD)
        with True Some show ?thesis by (simp add: ensures_Some fine_refl)
      next
        case False
        let ?s = "s\<lparr>au_sm := (au_sm s)(i \<mapsto> m\<lparr>sm_in_step_loop := True\<rparr>)\<rparr>"
        have l: "inloop i ?s" by (simp add: inloop_def)
        have "ensures (mod_sm i (\<lambda>m. m\<lparr>sm_in_step_loop := False\<rparr>) x \<bind> (\<lambda>s. au_sm s i \<bind> (\<lambda>m.
             if sm_pending_deinit m then wpa_free_sta_sm i s \<bind> (\<lambda>s. Some (1, s)) else Some (0, s))))
             (\<lambda>(r, s'). fine w (X - {i}) s s')" if x: "fine_but {i} w X ?s x" "settled_at i x" for x
        proof (cases "au_sm x i")
          case None then show ?thesis by (simp add: mod_sm_def ensures_None)
        next
          case (Some b)
          let ?x = "x\<lparr>au_sm := (au_sm x)(i \<mapsto> b\<lparr>sm_in_step_loop := False\<rparr>)\<rparr>"
          have G': "GInv w X x" using x by (simp add: fine_but_def)
          have np: "\<not> sm_pending_deinit b" using at_self [OF G' Some] by (simp add: K_def)
          have "inloop k ?x = inloop k s" for k
            using x(1) False \<open>au_sm s i = Some m\<close> by (cases "k = i") (auto simp: fine_but_def inloop_def)
          moreover have "kept k s ?x" if "inloop k s" for k
          proof -
            have "k \<noteq> i" using that False \<open>au_sm s i = Some m\<close> by (auto simp: inloop_def)
            moreover from this have "kept k ?s x" using x(1) that by (auto simp: fine_but_def inloop_def)
            ultimately show ?thesis by (simp add: kept_def)
          qed
          ultimately have "fine w (X - {i}) s ?x"
            using leave_loop [OF G' Some x(2)] by (simp add: fine_but_def)
          with Some np show ?thesis by (simp add: mod_sm_def ensures_Some)
        qed
        then have "ensures (sm_loop (w_env w) (wpa_sm_step (w_env w) n) (Suc n) i ?s \<bind> (\<lambda>x. mod_sm i (\<lambda>m. m\<lparr>sm_in_step_loop := False\<rparr>) x \<bind>
             (\<lambda>s. au_sm s i \<bind> (\<lambda>m.
             if sm_pending_deinit m then wpa_free_sta_sm i s \<bind> (\<lambda>s. Some (1, s)) else Some (0, s)))))
             (\<lambda>(r, s'). fine w (X - {i}) s s')"
          by (intro ensures_bind) (rule ensures_conseq [OF loop_fine [OF Suc enter_loop [OF G Some] l]], blast)
        with Some False show ?thesis by (simp add: mod_sm_def del: sm_loop.simps)
      qed
    qed
  qed
qed

end
