(* ===== verification/WpaAuthSec.thy ===== *)
theory WpaAuthSec
  imports WpaAuthLoop RsnRoundtrip
begin

text \<open>
  Pairwise keys of the authenticator (\<^verbatim>\<open>src/ap/wpa_auth.c\<close>): the entry points keep the invariant of
  \<open>WpaAuthInv\<close>, the events that reach the authenticator as an inductive relation, and what follows for the
  keys set in the driver.
\<close>

subsection \<open>Entry points\<close>

definition TInv :: "world \<Rightarrow> auth \<Rightarrow> bool" where
  "TInv w s \<longleftrightarrow> GInv w {} s \<and> (\<forall>k. \<not> inloop k s)"

lemma TInv_at:
  assumes "TInv w s" and "au_sm s i = Some m"
  shows "at w i m (nonce_of i (au_log s)) s s" and "K w i m (nonce_of i (au_log s))" and "settled m" and "\<not> sm_in_step_loop m"
  using assms at_self [of w "{}" s i m] by (auto simp: TInv_def inloop_def GInv_def)

lemma TInv_fine: "TInv w s \<Longrightarrow> fine_but I w {} s t \<Longrightarrow> TInv w t"
  by (simp add: TInv_def fine_but_def)

lemma TInv_quiet: "TInv w s \<Longrightarrow> quiet {} s t \<Longrightarrow> TInv w t"
  by (rule TInv_fine [where I = "{}"], assumption, rule quiet_GInv) (simp_all add: TInv_def)

lemma TInv_run: "TInv w s \<Longrightarrow> ensures op (quiet {} s) \<Longrightarrow> ensures op (TInv w)"
  by (erule ensures_conseq) (rule TInv_quiet)

lemma top_end:
  assumes T: "TInv w s0" and a: "at w i m nc s0 t" and K: "K w i m nc" and m: "settled m" "\<not> sm_in_step_loop m"
  shows "TInv w t"
proof (rule TInv_fine [OF T])
  have "\<not> inloop i s0" using T by (simp add: TInv_def)
  with T m show "fine_but {i} w {} s0 t" by (intro at_GInv [OF _ a K]) (auto simp: TInv_def)
qed

lemma top_step:
  assumes T: "TInv w s0" and a: "at w i m nc s0 t" and K: "K w i m nc" and m: "\<not> sm_in_step_loop m"
  shows "ensures (wpa_sm_step (w_env w) n i t) (\<lambda>(r, x). TInv w x)"
proof -
  have "\<not> inloop i s0" using T by (simp add: TInv_def)
  with T m have f: "fine_but {i} w {i} s0 t" by (intro at_GInv [OF _ a K]) (auto simp: TInv_def)
  then have "ensures (wpa_sm_step (w_env w) n i t) (\<lambda>(r, x). fine w ({i} - {i}) t x)"
    using sm_step_ok [of w n] unfolding stepok_def by (metis fine_but_def)
  then show ?thesis
  proof (rule ensures_conseq)
    fix p :: "int \<times> auth" assume "case p of (r, x) \<Rightarrow> fine w ({i} - {i}) t x"
    then show "case p of (r, x) \<Rightarrow> TInv w x" using f T by (cases p) (simp add: TInv_def fine_but_def)
  qed
qed

lemma TInv_step: "TInv w s \<Longrightarrow> ensures (wpa_sm_step (w_env w) n i s) (\<lambda>(r, x). TInv w x)"
proof (cases "au_sm s i")
  case None then show ?thesis by (cases n) (simp_all add: ensures_None)
next
  case (Some m)
  assume T: "TInv w s"
  show ?thesis by (rule top_step [OF T TInv_at(1,2,4) [OF T Some]])
qed

lemma TInv_group_step: "TInv w s \<Longrightarrow> ensures (wpa_group_sm_step e (wpa_sm_step (w_env w) n) s) (TInv w)"
proof -
  assume T: "TInv w s"
  then have "fine w {} s s" by (simp add: TInv_def fine_refl)
  from fine_group_sm_step [OF sm_step_ok this] show ?thesis by (rule ensures_conseq) (rule TInv_fine [OF T])
qed

lemma group_loop_TInv: "TInv w s \<Longrightarrow> ensures (group_loop (w_env w) n k s) (TInv w)"
proof (induction k arbitrary: s)
  case 0 show ?case by (simp add: ensures_None)
next
  case (Suc k)
  have "TInv w (mod_group (\<lambda>g. g\<lparr>wg_changed := False\<rparr>) s)" using Suc.prems by (rule TInv_quiet) simp
  then show ?case
    by simp (rule ensures_bind, rule ensures_conseq [OF TInv_group_step], assumption, intro ensures_if Suc.IH ensures_Some)
qed

lemma rekey_gtk_TInv: "TInv w s \<Longrightarrow> ensures (wpa_rekey_gtk (w_env w) n s) (TInv w)"
proof -
  assume "TInv w s"
  then have "TInv w (mod_group (\<lambda>g. g\<lparr>wg_GTKReKey := True\<rparr>) s)" by (rule TInv_quiet) simp
  then show ?thesis
    unfolding wpa_rekey_gtk_def Let_def
    by (intro ensures_bind) (rule ensures_conseq [OF group_loop_TInv], assumption, rule ensures_Some, erule TInv_quiet, simp)
qed

lemma gtk_rekey_quiet: "quiet I s0 s \<Longrightarrow> ensures (wpa_gtk_rekey e s) (quiet I s0)"
  unfolding wpa_gtk_rekey_def
  by (rule quiet_bind [of _ I s0] run_rules quiet_runs | (simp; fail))+

subsection \<open>Events\<close>

lemma received_simps [simp]:
  "pairwise_key_received (m\<lparr>sm_PTK_valid := b\<rparr>) = pairwise_key_received m"
  "pairwise_key_received (m\<lparr>sm_PTK := p\<rparr>) = pairwise_key_received m"
  "pairwise_key_received (m\<lparr>sm_DeauthenticationRequest := b\<rparr>) = pairwise_key_received m"
  "pairwise_key_received (m\<lparr>sm_ReAuthenticationRequest := b\<rparr>) = pairwise_key_received m"
  "pairwise_key_received (m\<lparr>sm_AuthenticationRequest := b\<rparr>) = pairwise_key_received m"
  "pairwise_key_received (m\<lparr>sm_PTKRequest := b\<rparr>) = pairwise_key_received m"
  "pairwise_key_received (m\<lparr>sm_Init := b\<rparr>) = pairwise_key_received m"
  "pairwise_key_received (m\<lparr>sm_MICVerified := b\<rparr>) = pairwise_key_received m"
  "pairwise_key_received (m\<lparr>sm_update_snonce := b\<rparr>) = pairwise_key_received m"
  "pairwise_key_received (m\<lparr>sm_last_rx_eapol_key := d\<rparr>) = pairwise_key_received m"
  by (simp_all add: pairwise_key_received_def)

lemma K_settled:
  "settled m \<Longrightarrow> K w i m nc \<longleftrightarrow>
     sm_addr m = w_spa w i \<and> length (sm_PMK m) = 64 \<and> \<not> sm_pending_deinit m \<and>
     (\<forall>d. sm_last_rx_eapol_key m = Some d \<longrightarrow> (\<exists>f\<in>w_rx w i. same_but_mic f d)) \<and>
     (nc = Some (sm_ANonce m) \<or> idle m) \<and>
     (sm_PTK_valid m \<longrightarrow> ptk_from w i (sm_ANonce m) (sm_PTK m)) \<and>
     (sm_ptk_state m = WPA_PTK_AUTHENTICATION \<or> sm_ReAuthenticationRequest m \<or> sm_PTKRequest m \<longrightarrow> \<not> sm_PTK_valid m)"
  unfolding K_def settled_def by auto

lemma K_clear:
  assumes "K w i m nc" and "settled m"
  shows "K w i (m\<lparr>sm_PTK_valid := False, sm_PTK := ptk0\<rparr>) nc"
    and "K w i (m\<lparr>sm_DeauthenticationRequest := True, sm_PTK_valid := False, sm_PTK := ptk0\<rparr>) nc"
    and "K w i (m\<lparr>sm_ReAuthenticationRequest := True, sm_PTK_valid := False, sm_PTK := ptk0\<rparr>) nc"
    and "K w i (m\<lparr>sm_PTKRequest := True, sm_PTK_valid := False\<rparr>) nc"
    and "K w i (m\<lparr>sm_Init := b\<rparr>) nc"
    and "K w i (m\<lparr>sm_Init := b, sm_AuthenticationRequest := c\<rparr>) nc"
  using assms(1) unfolding K_settled [OF assms(2)]
  by (subst K_settled; use assms(2) in \<open>simp add: settled_def idle_def\<close>)+

lemma remove_ptk_last:
  "at w i m nc s0 s \<Longrightarrow> (\<And>x. at w i (m\<lparr>sm_PTK_valid := False, sm_PTK := ptk0\<rparr>) nc s0 x \<Longrightarrow> Q x) \<Longrightarrow>
   ensures (wpa_remove_ptk e i s) Q"
  using remove_ptk_at [of w i m nc s0 s Some Q e] by (simp add: ensures_Some)

text \<open>Between the request and the removal of the pairwise key.\<close>

definition requested :: "world \<Rightarrow> nat \<Rightarrow> wpa_event \<Rightarrow> auth \<Rightarrow> bool" where
  "requested w i ev x \<longleftrightarrow> (\<exists>s m nc. TInv w s \<and> at w i m nc s x \<and> K w i (m\<lparr>sm_PTK_valid := False, sm_PTK := ptk0\<rparr>) nc \<and>
     (ev = WPA_AUTH \<longrightarrow> K w i m nc) \<and> \<not> sm_in_step_loop m)"

lemma requestedI:
  "TInv w s \<Longrightarrow> at w i m nc s x \<Longrightarrow> K w i (m\<lparr>sm_PTK_valid := False, sm_PTK := ptk0\<rparr>) nc \<Longrightarrow> (ev = WPA_AUTH \<Longrightarrow> K w i m nc) \<Longrightarrow>
   \<not> sm_in_step_loop m \<Longrightarrow> requested w i ev x"
  unfolding requested_def by blast

lemma event_request:
  assumes T: "TInv w s"
  shows "ensures (sm_event_request (wpa_sm_step (w_env w) n) ev i s) (\<lambda>(r, x). if r = 1 then TInv w x else requested w i ev x)"
proof (cases "au_sm s i")
  case None then show ?thesis by (simp add: sm_event_request_def ensures_None)
next
  case (Some m)
  note m = TInv_at [OF T Some]
  have deauth: "ensures (mod_sm i (\<lambda>m. m\<lparr>sm_DeauthenticationRequest := True\<rparr>) s \<bind> (\<lambda>s. Some (0 :: int, s)))
      (\<lambda>(r, x). if r = 1 then TInv w x else requested w i ev x)" if "ev \<noteq> WPA_AUTH"
    using K_clear(2) [OF m(2,3)] m(4) that by (intro at_mod [OF m(1)]) (auto simp: core_def intro!: ensures_Some requestedI [OF T])
  have reauth: "ensures (mod_sm i (\<lambda>m. m\<lparr>sm_ReAuthenticationRequest := True\<rparr>) t \<bind> (\<lambda>s. Some (0 :: int, s)))
      (\<lambda>(r, x). if r = 1 then TInv w x else requested w i ev x)" if "at w i m (nonce_of i (au_log s)) s t" "ev \<noteq> WPA_AUTH" for t
    using K_clear(3) [OF m(2,3)] m(4) that by (intro at_mod [OF that(1)]) (auto simp: core_def intro!: ensures_Some requestedI [OF T])
  have start: "ensures (mod_sm i (\<lambda>m. m\<lparr>sm_Init := False, sm_AuthenticationRequest := True\<rparr>) x \<bind> (\<lambda>s. Some (0 :: int, s)))
      (\<lambda>(r, x). if r = 1 then TInv w x else requested w i ev x)" if x: "TInv w x" for x
  proof (cases "au_sm x i")
    case None then show ?thesis by (simp add: mod_sm_def ensures_None)
  next
    case (Some b)
    note b = TInv_at [OF x Some]
    have K: "K w i (b\<lparr>sm_Init := False, sm_AuthenticationRequest := True\<rparr>) (nonce_of i (au_log x))" by (rule K_clear(6) [OF b(2,3)])
    have st: "settled (b\<lparr>sm_Init := False, sm_AuthenticationRequest := True\<rparr>)" using b(3) by (simp add: settled_def)
    show ?thesis
      using K K_clear(1) [OF K st] b(4) by (intro at_mod [OF b(1)]) (auto simp: core_def intro!: ensures_Some requestedI [OF x])
  qed
  have init: "ensures (mod_sm i (\<lambda>m. m\<lparr>sm_started := True, sm_Init := True\<rparr>) s \<bind> (\<lambda>s. wpa_sm_step (w_env w) n i s \<bind> (\<lambda>(r, s).
      if r = 1 then Some (1, s) else mod_sm i (\<lambda>m. m\<lparr>sm_Init := False, sm_AuthenticationRequest := True\<rparr>) s \<bind> (\<lambda>s. Some (0 :: int, s)))))
      (\<lambda>(r, x). if r = 1 then TInv w x else requested w i ev x)"
  proof (rule at_mod [OF m(1)])
    show "quiet {} s s \<and> (\<forall>a b. core a = core b \<longrightarrow> core (a\<lparr>sm_started := True, sm_Init := True\<rparr>) = core (b\<lparr>sm_started := True, sm_Init := True\<rparr>))"
      by (simp add: core_def)
    fix x assume "at w i (m\<lparr>sm_started := True, sm_Init := True\<rparr>) (nonce_of i (au_log s)) s x"
    moreover have "K w i (m\<lparr>sm_started := True, sm_Init := True\<rparr>) (nonce_of i (au_log s))"
      using K_clear(5) [OF m(2,3)] K_core [of "m\<lparr>sm_started := True, sm_Init := True\<rparr>" "m\<lparr>sm_Init := True\<rparr>"] by (simp add: core_def)
    ultimately have "ensures (wpa_sm_step (w_env w) n i x) (\<lambda>(r, x). TInv w x)" by (rule top_step [OF T]) (simp add: m(4))
    then show "ensures (wpa_sm_step (w_env w) n i x \<bind> (\<lambda>(r, s).
      if r = 1 then Some (1, s) else mod_sm i (\<lambda>m. m\<lparr>sm_Init := False, sm_AuthenticationRequest := True\<rparr>) s \<bind> (\<lambda>s. Some (0 :: int, s))))
      (\<lambda>(r, x). if r = 1 then TInv w x else requested w i ev x)"
      by (intro ensures_bind) (erule ensures_conseq, clarify, rule ensures_if, rule ensures_Some, simp, erule start)
  qed
  have other: "requested w i ev s"
    using m K_clear(1) [OF m(2,3)] by (intro requestedI [OF T m(1)])
  have gupd: "ensures (if sm_GUpdateStationKeys m then
        mod_sm i (\<lambda>m. m\<lparr>sm_GUpdateStationKeys := False, sm_PtkGroupInit := True\<rparr>)
          (mod_group (\<lambda>g. g\<lparr>wg_GKeyDoneStations := wg_GKeyDoneStations g - 1\<rparr>) s) else Some s) (at w i m (nonce_of i (au_log s)) s)"
    by (intro ensures_if ensures_Some at_keep_last [OF m(1)] m(1)) (simp_all add: core_def)
  show ?thesis
    unfolding sm_event_request_def Some Option.bind_lunit
    apply (rule ensures_if, rule deauth, force)
    apply (rule ensures_if, rule ensures_if, rule init)
    apply (rule ensures_bind, rule ensures_conseq [OF gupd], erule reauth, force)
    apply (rule ensures_Some, simp add: other)
    done
qed

lemma requested_step:
  assumes "TInv w s" and "at w i m nc s x" and "K w i m nc" and "\<not> sm_in_step_loop m"
  shows "ensures (au_sm x i \<bind> (\<lambda>m. if sm_in_step_loop m then mod_sm i (\<lambda>m. m\<lparr>sm_changed := True\<rparr>) x \<bind> (\<lambda>s. Some (0, s))
     else wpa_sm_step (w_env w) n i x)) (\<lambda>(r, x). TInv w x)"
proof (rule at_get [OF assms(2) quiet_refl])
  fix m' assume "core m' = core m"
  then have "\<not> sm_in_step_loop m'" using assms(4) core_eqs(17) by metis
  with top_step [OF assms]
  show "ensures (if sm_in_step_loop m' then mod_sm i (\<lambda>m. m\<lparr>sm_changed := True\<rparr>) x \<bind> (\<lambda>s. Some (0, s))
     else wpa_sm_step (w_env w) n i x) (\<lambda>(r, x). TInv w x)" by simp
qed

lemma event_TInv:
  assumes T: "TInv w s"
  shows "ensures (wpa_auth_sm_event (w_env w) (wpa_sm_step (w_env w) n) ev i s) (\<lambda>(r, x). TInv w x)"
proof (cases "ev = WPA_DRV_STA_REMOVED")
  case True
  have "ensures (mod_sm i (\<lambda>m. m\<lparr>sm_tk_already_set := False\<rparr>) s) (TInv w)"
    by (rule TInv_run [OF T], rule quiet_mod_sm) (simp_all add: core_def)
  with True show ?thesis by (simp add: wpa_auth_sm_event_def ensures_bind ensures_conseq ensures_Some)
next
  case False
  have "ensures (if r = 1 then Some (1, x) else do {
          m \<leftarrow> au_sm x i;
          s \<leftarrow> (if sm_mgmt_frame_prot m \<and> ev = WPA_AUTH then Some x
                else do {
                  s \<leftarrow> mod_sm i (\<lambda>m. m\<lparr>sm_PTK_valid := False, sm_PTK := ptk0\<rparr>) x;
                  if ev \<noteq> WPA_REAUTH_EAPOL then wpa_remove_ptk (w_env w) i s else Some s });
          m \<leftarrow> au_sm s i;
          if sm_in_step_loop m then do {
            s \<leftarrow> mod_sm i (\<lambda>m. m\<lparr>sm_changed := True\<rparr>) s;
            Some (0, s) }
          else wpa_sm_step (w_env w) n i s }) (\<lambda>(r, x). TInv w x)" if r: "if r = 1 then TInv w x else requested w i ev x" for r x
  proof (cases "r = 1")
    case True with r show ?thesis by (simp add: ensures_Some)
  next
    case False
    with r obtain s m nc where q: "TInv w s" "at w i m nc s x" "K w i (m\<lparr>sm_PTK_valid := False, sm_PTK := ptk0\<rparr>) nc"
      "ev = WPA_AUTH \<longrightarrow> K w i m nc" "\<not> sm_in_step_loop m" by (auto simp: requested_def)
    have last: "ensures (au_sm y i \<bind> (\<lambda>m. if sm_in_step_loop m then mod_sm i (\<lambda>m. m\<lparr>sm_changed := True\<rparr>) y \<bind> (\<lambda>s. Some (0, s))
       else wpa_sm_step (w_env w) n i y)) (\<lambda>(r, x). TInv w x)" if "at w i (m\<lparr>sm_PTK_valid := False, sm_PTK := ptk0\<rparr>) nc s y" for y
      by (rule requested_step [OF q(1) that q(3)]) (simp add: q(5))
    have "ensures (mod_sm i (\<lambda>m. m\<lparr>sm_PTK_valid := False, sm_PTK := ptk0\<rparr>) x \<bind>
        (\<lambda>s. if ev \<noteq> WPA_REAUTH_EAPOL then wpa_remove_ptk (w_env w) i s else Some s)) (at w i (m\<lparr>sm_PTK_valid := False, sm_PTK := ptk0\<rparr>) nc s)"
      by (rule at_mod [OF q(2)]) (simp add: core_def, auto intro!: ensures_if ensures_Some elim!: remove_ptk_last)
    then have "ensures (if b \<and> ev = WPA_AUTH then Some x else mod_sm i (\<lambda>m. m\<lparr>sm_PTK_valid := False, sm_PTK := ptk0\<rparr>) x \<bind>
        (\<lambda>s. if ev \<noteq> WPA_REAUTH_EAPOL then wpa_remove_ptk (w_env w) i s else Some s))
        (\<lambda>y. ensures (au_sm y i \<bind> (\<lambda>m. if sm_in_step_loop m then mod_sm i (\<lambda>m. m\<lparr>sm_changed := True\<rparr>) y \<bind> (\<lambda>s. Some (0, s))
       else wpa_sm_step (w_env w) n i y)) (\<lambda>(r, x). TInv w x))" for b
      using q by (intro ensures_if ensures_Some requested_step [OF q(1,2)]) (auto elim!: ensures_conseq intro: last)
    then have "ensures ((if b \<and> ev = WPA_AUTH then Some x else mod_sm i (\<lambda>m. m\<lparr>sm_PTK_valid := False, sm_PTK := ptk0\<rparr>) x \<bind>
        (\<lambda>s. if ev \<noteq> WPA_REAUTH_EAPOL then wpa_remove_ptk (w_env w) i s else Some s)) \<bind>
        (\<lambda>y. au_sm y i \<bind> (\<lambda>m. if sm_in_step_loop m then mod_sm i (\<lambda>m. m\<lparr>sm_changed := True\<rparr>) y \<bind> (\<lambda>s. Some (0, s))
       else wpa_sm_step (w_env w) n i y))) (\<lambda>(r, x). TInv w x)" for b
      by (rule ensures_bind)
    with False show ?thesis by (simp only: if_False) (rule bind_any)
  qed
  with False show ?thesis
    unfolding wpa_auth_sm_event_def
    by (simp only: if_False) (rule ensures_bind, rule ensures_conseq [OF event_request [OF T]], auto)
qed

subsection \<open>Removing stations\<close>

lemma free_TInv: "TInv w s \<Longrightarrow> ensures (wpa_free_sta_sm i s) (TInv w)"
proof -
  assume T: "TInv w s"
  have free: "TInv w (log_ev (StaFreed i) (x\<lparr>au_sm := (au_sm x)(i := None), au_list := l\<rparr>))" if "TInv w x" for x l
    using that by (simp add: TInv_def GInv_def inloop_def log_ev_def) blast
  show ?thesis
    unfolding wpa_free_sta_sm_def
    by (rule ensures_bind, rule ensures_conseq [OF TInv_run [OF T]], rule quiet_runs, simp, rule ensures_Some, rule free)
qed

lemma deinit_TInv:
  assumes T: "TInv w s" shows "ensures (wpa_auth_sta_deinit i s) (TInv w)"
proof (cases "au_sm s i")
  case None then show ?thesis by (simp add: wpa_auth_sta_deinit_def ensures_None)
next
  case (Some m)
  have "ensures (mod_sm i (\<lambda>m. m\<lparr>sm_timeouts := [], sm_pending_1_of_4_timeout := False, sm_rekey_ptk_timer := False\<rparr>) t \<bind> wpa_free_sta_sm i) (TInv w)"
    if "quiet {} s t" for t
    by (rule ensures_bind, rule ensures_conseq [OF TInv_run [OF T]], rule quiet_mod_sm [OF that], simp add: core_def, rule free_TInv)
  with TInv_at(4) [OF T Some] Some show ?thesis unfolding wpa_auth_sta_deinit_def by (simp add: Let_def)
qed

lemma deinit_all_TInv: "TInv w s \<Longrightarrow> ensures (deinit_all is s) (TInv w)"
proof (induction "is" arbitrary: s)
  case Nil then show ?case by (simp add: ensures_Some)
next
  case (Cons i "is")
  then have "ensures (if au_sm s i = None then Some s else wpa_auth_sta_deinit i s) (TInv w)"
    by (intro ensures_if ensures_Some deinit_TInv)
  then show ?case by (simp only: deinit_all.simps) (rule ensures_bind, erule ensures_conseq, rule Cons.IH)
qed

lemma countermeasures_TInv: "TInv w s \<Longrightarrow> ensures (tkip_countermeasures_start e s) (TInv w)"
  unfolding tkip_countermeasures_start_def Let_def
  by (rule ensures_bind, rule ensures_conseq [OF TInv_run], assumption, rule gtk_rekey_quiet, simp, rule deinit_all_TInv)

subsection \<open>Receiving a frame\<close>

text \<open>The machine of station \<open>i\<close> outside of its step loop.\<close>

definition standing :: "world \<Rightarrow> nat \<Rightarrow> wpa_state_machine \<Rightarrow> auth \<Rightarrow> bool" where
  "standing w i m x \<longleftrightarrow> settled m \<and> \<not> sm_in_step_loop m \<and> (\<exists>s nc. TInv w s \<and> at w i m nc s x \<and> K w i m nc)"

lemma standing_TInv: "standing w i m x \<Longrightarrow> TInv w x"
  unfolding standing_def by (blast intro: top_end)

lemma TInv_standing: "TInv w s \<Longrightarrow> au_sm s i = Some m \<Longrightarrow> standing w i m s"
  unfolding standing_def using TInv_at [of w s i m] by blast

lemma standing_mod:
  assumes "standing w i m x" and "\<And>a b. core a = core b \<Longrightarrow> core (f a) = core (f b)"
    and "\<And>nc. K w i m nc \<Longrightarrow> settled m \<Longrightarrow> K w i (f m) nc" and "settled m \<Longrightarrow> settled (f m)" and "sm_in_step_loop (f m) = sm_in_step_loop m"
  shows "ensures (mod_sm i f x) (standing w i (f m))"
proof -
  from assms(1) obtain s nc where s: "settled m" "\<not> sm_in_step_loop m" "TInv w s" "at w i m nc s x" "K w i m nc"
    by (auto simp: standing_def)
  have "ensures (mod_sm i f x) (at w i (f m) nc s)" by (rule at_upd [OF s(4) assms(2)])
  then show ?thesis
    by (rule ensures_conseq) (use s assms(3-5) in \<open>auto simp: standing_def\<close>)
qed

lemma standing_keep:
  assumes "standing w i m x" and "\<And>m. core (f m) = core m" shows "ensures (mod_sm i f x) (standing w i m)"
proof -
  from assms(1) obtain s nc where s: "settled m" "\<not> sm_in_step_loop m" "TInv w s" "at w i m nc s x" "K w i m nc"
    by (auto simp: standing_def)
  have "ensures (mod_sm i f x) (at w i m nc s)" by (rule at_keep_last [OF s(4)]) (simp_all add: assms(2))
  then show ?thesis
    by (rule ensures_conseq) (use s in \<open>auto simp: standing_def\<close>)
qed

lemma standing_quiet: "standing w i m x \<Longrightarrow> quiet {} x y \<Longrightarrow> standing w i m y"
  unfolding standing_def by (blast intro: at_quiet)

lemma standing_get: "standing w i m x \<Longrightarrow> (\<And>m'. core m' = core m \<Longrightarrow> ensures (g m') Q) \<Longrightarrow> ensures (au_sm x i \<bind> g) Q"
  unfolding standing_def by (auto intro: at_get [OF _ quiet_refl])

lemma request_new_ptk_standing:
  "standing w i m x \<Longrightarrow> ensures (wpa_request_new_ptk i x) (standing w i (m\<lparr>sm_PTKRequest := True, sm_PTK_valid := False\<rparr>))"
  unfolding wpa_request_new_ptk_def by (rule standing_mod) (simp_all add: core_def K_clear(4) settled_def)

lemma error_report_TInv:
  assumes "standing w i m x" shows "ensures (wpa_receive_error_report e i grp x) (\<lambda>(r, y). TInv w y)"
proof -
  have no: "ensures (wpa_request_new_ptk i y \<bind> (\<lambda>s. Some (0 :: int, s))) (\<lambda>(r, y). TInv w y)" if "standing w i m y" for y
    by (rule ensures_bind, rule ensures_conseq [OF request_new_ptk_standing [OF that]], rule ensures_Some) (simp add: standing_TInv)
  let ?P = "\<lambda>(b, y). if b then TInv w y else standing w i m y"
  have cm: "ensures (tkip_countermeasures_start e y \<bind> (\<lambda>s. Some (True, s))) ?P" if "TInv w y" for y
    by (rule ensures_bind, rule ensures_conseq [OF countermeasures_TInv [OF that]], rule ensures_Some, simp)
  have rm: "ensures (mod_sm i (\<lambda>m. m\<lparr>sm_remote_mic_failures := sm_remote_mic_failures m + 1\<rparr>) y \<bind> (\<lambda>s.
      Some (False, mod_wa (\<lambda>a. a\<lparr>wa_remote_mic_failures := wa_remote_mic_failures a + 1\<rparr>) s))) ?P" if "standing w i m y" for y
    by (rule ensures_bind, rule ensures_conseq [OF standing_keep [OF that]], simp add: core_def, rule ensures_Some, simp, erule standing_quiet, simp)
  have tick: "standing w i m (x\<lparr>au_tick := t\<rparr>)" for t by (rule standing_quiet [OF assms]) simp
  have pick: "ensures (if c then Some (False, x) else if d then Some (False, x)
      else let (r, s) = ask (we_mic_failure e) x in if r > 0 then tkip_countermeasures_start e s \<bind> (\<lambda>s. Some (True, s))
        else mod_sm i (\<lambda>m. m\<lparr>sm_remote_mic_failures := sm_remote_mic_failures m + 1\<rparr>) s \<bind> (\<lambda>s.
          Some (False, mod_wa (\<lambda>a. a\<lparr>wa_remote_mic_failures := wa_remote_mic_failures a + 1\<rparr>) s))) ?P" for c d
    unfolding ask_def Let_def prod.case
    by (intro ensures_if ensures_Some cm rm standing_TInv [OF tick] tick) (simp_all add: assms)
  show ?thesis
    unfolding wpa_receive_error_report_def
    by (rule bind_any, rule ensures_bind, rule ensures_conseq [OF pick]) (auto intro!: ensures_Some no split: if_splits)
qed

lemma rx_request_TInv:
  assumes m: "standing w i m x" shows "ensures (rx_request (w_env w) n i ki kl data x) (\<lambda>(go, y). TInv w y)"
proof -
  have T: "TInv w x" by (rule standing_TInv [OF m])
  have err: "ensures (wpa_receive_error_report e i grp y \<bind> (\<lambda>(r, s). Some (r \<le> 0, s))) (\<lambda>(go, y). TInv w y)"
    if "standing w i m y" for e grp y
    by (rule ensures_bind, rule ensures_conseq [OF error_report_TInv [OF that]]) (auto intro: ensures_Some)
  have new: "ensures (wpa_request_new_ptk i y \<bind> (\<lambda>s. Some (True, s))) (\<lambda>(go, y). TInv w y)" if "standing w i m y" for y
    by (rule ensures_bind, rule ensures_conseq [OF request_new_ptk_standing [OF that]], rule ensures_Some) (simp add: standing_TInv)
  have gtk: "ensures (wpa_rekey_gtk (w_env w) n y \<bind> (\<lambda>s. Some (True, s))) (\<lambda>(go, y). TInv w y)" if "standing w i m y" for y
    by (rule ensures_bind, rule ensures_conseq [OF rekey_gtk_TInv [OF standing_TInv [OF that]]], rule ensures_Some) simp
  show ?thesis
    unfolding rx_request_def
    apply (rule bind_any, rule ensures_if, rule ensures_Some, simp add: T)
    apply (rule ensures_bind, rule ensures_conseq [OF standing_keep [OF m]], simp add: core_def)
    apply (rule ensures_if, erule err, rule ensures_if, erule new)
    apply (rule bind_any, rule ensures_if, rule ensures_Some, simp add: standing_TInv)
    apply (erule gtk)
    done
qed

text \<open>The end of the processing, for a frame whose use leaves the invariant.\<close>

lemma rx_tail:
  assumes m: "standing w i m x" and d: "f \<in> w_rx w i" "same_but_mic f d" and K: "\<And>nc. K w i m nc \<Longrightarrow> K w i (rx_store ki d m) nc"
  shows "ensures (let (ok, s) = ask (we_malloc e) x in
       if \<not> ok then mod_sm i (\<lambda>m. m\<lparr>sm_last_rx_eapol_key := None\<rparr>) s
       else mod_sm i (rx_store ki d) s \<bind> (\<lambda>s. wpa_sm_step (w_env w) n i s \<bind> (\<lambda>(r, s). Some s))) (TInv w)"
proof -
  let ?x = "x\<lparr>au_tick := Suc (au_tick x)\<rparr>"
  have x: "standing w i m ?x" by (rule standing_quiet [OF m]) simp
  have drop: "ensures (mod_sm i (\<lambda>m. m\<lparr>sm_last_rx_eapol_key := None\<rparr>) ?x) (TInv w)"
    by (rule ensures_conseq [OF standing_mod [OF x] standing_TInv], simp add: core_def)
       (simp_all add: K_def idle_def leaving_def settled_def)
  from x obtain s nc where s: "\<not> sm_in_step_loop m" "TInv w s" "at w i m nc s ?x" "K w i m nc" by (auto simp: standing_def)
  have "ensures (mod_sm i (rx_store ki d) ?x \<bind> (\<lambda>s. wpa_sm_step (w_env w) n i s \<bind> (\<lambda>(r, s). Some s))) (TInv w)"
  proof (rule at_mod [OF s(3)])
    show "quiet {} ?x ?x \<and> (\<forall>a b. core a = core b \<longrightarrow> core (rx_store ki d a) = core (rx_store ki d b))" by (simp add: core_def rx_store_def)
    fix y assume y: "at w i (rx_store ki d m) nc s y"
    show "ensures (wpa_sm_step (w_env w) n i y \<bind> (\<lambda>(r, s). Some s)) (TInv w)"
      by (rule ensures_bind, rule ensures_conseq [OF top_step [OF s(2) y K [OF s(4)]]]) (auto simp: rx_store_def s(1) intro: ensures_Some)
  qed
  with drop show ?thesis by (simp add: ask_def)
qed

lemma rx_store_fields:
  "sm_addr (rx_store ki d m) = sm_addr m" "sm_PMK (rx_store ki d m) = sm_PMK m" "sm_pending_deinit (rx_store ki d m) = sm_pending_deinit m"
  "sm_last_rx_eapol_key (rx_store ki d m) = Some d" "sm_ptk_state (rx_store ki d m) = sm_ptk_state m"
  "sm_Disconnect (rx_store ki d m) = sm_Disconnect m" "sm_ANonce (rx_store ki d m) = sm_ANonce m"
  "sm_PTK_valid (rx_store ki d m) = sm_PTK_valid m" "sm_PTK (rx_store ki d m) = sm_PTK m"
  "sm_ReAuthenticationRequest (rx_store ki d m) = sm_ReAuthenticationRequest m" "sm_PTKRequest (rx_store ki d m) = sm_PTKRequest m"
  "sm_MICVerified (rx_store ki d m) = sm_MICVerified m" "sm_update_snonce (rx_store ki d m) = sm_update_snonce m"
  by (simp_all add: rx_store_def)

lemma store_K:
  "K w i m nc \<Longrightarrow> f \<in> w_rx w i \<Longrightarrow> same_but_mic f d \<Longrightarrow>
   (pairwise_key_received (rx_store ki d m) \<Longrightarrow> (sm_MICVerified m \<longrightarrow> sm_PTK_valid m) \<and>
      (sm_ptk_state m \<in> {WPA_PTK_PTKCALCNEGOTIATING2, WPA_PTK_PTKINITNEGOTIATING} \<longrightarrow>
         sm_PTK_valid m \<and> sm_MICVerified m \<or> sm_update_snonce m)) \<Longrightarrow> K w i (rx_store ki d m) nc"
  unfolding K_def idle_def rx_store_fields by simp blast

lemma standing_core: "core a = core b \<Longrightarrow> standing w i a = standing w i b"
  using at_core [of a b w i] K_core [of a b w i] settled_core [of a b] core_eqs(17) [of a b] by (simp add: standing_def fun_eq_iff)

lemma standing_PTK:
  assumes "standing w i m x" and "ptk_from w i (sm_ANonce m) P" and "sm_PTK_valid m"
  shows "ensures (mod_sm i (\<lambda>m. m\<lparr>sm_alt_snonce_valid := False, sm_SNonce := sm_alt_SNonce m, sm_PTK := P, sm_PTK_valid := True\<rparr>) x)
    (standing w i (m\<lparr>sm_PTK := P\<rparr>))"
proof -
  let ?m = "m\<lparr>sm_alt_snonce_valid := False, sm_SNonce := sm_alt_SNonce m, sm_PTK := P, sm_PTK_valid := True\<rparr>"
  have st: "settled ?m" if "settled m" using that by (simp add: settled_def pairwise_key_received_def)
  have "ensures (mod_sm i (\<lambda>m. m\<lparr>sm_alt_snonce_valid := False, sm_SNonce := sm_alt_SNonce m, sm_PTK := P, sm_PTK_valid := True\<rparr>) x)
    (standing w i ?m)"
  proof (rule standing_mod [OF assms(1)])
    fix nc assume K: "K w i m nc" and s: "settled m"
    from K assms(2,3) show "K w i ?m nc" unfolding K_settled [OF s] K_settled [OF st [OF s]] by (simp add: idle_def) blast
  qed (simp_all add: core_def st)
  moreover have c: "core ?m = core (m\<lparr>sm_PTK := P\<rparr>)" using assms(3) by (simp add: core_def)
  ultimately show ?thesis unfolding standing_core [OF c] by simp
qed

lemma try_alt_post:
  assumes m: "standing w i m x" "sm_PTK_valid m" and f: "f \<in> w_rx w i" "same_but_mic f d"
  shows "ensures (wpa_try_alt_snonce (w_env w) i d x) (\<lambda>(rc, d', y). same_but_mic f d' \<and> (\<exists>P. standing w i (m\<lparr>sm_PTK := P\<rparr>) y))"
  unfolding wpa_try_alt_snonce_def Let_def
proof (rule standing_get [OF m(1)], rule ensures_prod, rule bind_any, rule ensures_prod)
  fix m' p
  let ?c = "candidate_pmks (w_env w) i m' x"
  assume c: "core m' = core m" and tr: "try_pmks (w_env w) (snd ?c) m' (sm_alt_SNonce m') (fst ?c) d = Some p"
  note c' = core_eqs [OF c]
  have tr': "try_pmks (w_env w) (snd ?c) m' (sm_alt_SNonce m') (fst ?c) d = Some (fst p, snd p)" by (simp add: tr)
  have q: "quiet {} x (snd ?c)" by simp
  from m(1) obtain s nc where s: "at w i m nc s x" "K w i m nc" by (auto simp: standing_def)
  then have addr: "wa_addr (au_wa (snd ?c)) = w_aa w" "sm_addr m' = w_spa w i" and len: "length (sm_PMK m') = 64"
    using q c' by (simp_all add: at_def quiet_def K_def)
  have "same_but_mic f (snd p) \<and> (\<forall>pmk PTK. fst p = Some (pmk, PTK) \<longrightarrow> ptk_from w i (sm_ANonce m') PTK)"
    by (rule try_pmks_from [OF tr' addr _ f]) (rule candidate_mic_len [OF _ len])
  then have r: "same_but_mic f (snd p)" "\<And>pmk PTK. fst p = Some (pmk, PTK) \<Longrightarrow> ptk_from w i (sm_ANonce m) PTK" using c' by auto
  have st: "standing w i m (snd ?c)" by (rule standing_quiet [OF m(1) q])
  then have "standing w i (m\<lparr>sm_PTK := sm_PTK m\<rparr>) (snd ?c)" by simp
  then have "\<exists>P. standing w i (m\<lparr>sm_PTK := P\<rparr>) (snd ?c)" by blast
  then show "ensures (case fst p of None \<Rightarrow> Some (- 1, snd p, snd ?c)
      | Some (pmk, PTK) \<Rightarrow> mod_sm i (\<lambda>m. m\<lparr>sm_alt_snonce_valid := False, sm_SNonce := sm_alt_SNonce m, sm_PTK := PTK, sm_PTK_valid := True\<rparr>) (snd ?c) \<bind>
          (\<lambda>s. Some (0, snd p, s))) (\<lambda>(rc, d', y). same_but_mic f d' \<and> (\<exists>P. standing w i (m\<lparr>sm_PTK := P\<rparr>) y))"
    using r st m(2)
    by (auto intro!: ensures_case_option ensures_Some ensures_bind ensures_conseq [OF standing_PTK] simp: r)
qed

text \<open>What the check of the MIC leaves.\<close>

definition checked :: "world \<Rightarrow> nat \<Rightarrow> wpa_state_machine \<Rightarrow> bytes \<Rightarrow> bool \<times> bytes \<times> auth \<Rightarrow> bool" where
  "checked w i m f = (\<lambda>(ok, d, x). same_but_mic f d \<and> (\<exists>b. standing w i b x \<and> sm_ptk_state b = sm_ptk_state m \<and>
     sm_update_snonce b = sm_update_snonce m \<and> sm_PTK_valid b = sm_PTK_valid m \<and> (sm_MICVerified b \<longrightarrow> sm_PTK_valid b) \<and>
     (ok \<and> sm_PTK_valid b \<and> \<not> sm_update_snonce b \<longrightarrow> sm_MICVerified b)))"

lemma K_MIC:
  assumes "K w i m nc" "settled m" shows "K w i (m\<lparr>sm_MICVerified := b\<rparr>) nc"
proof -
  have "settled (m\<lparr>sm_MICVerified := b\<rparr>)" using assms(2) by (simp add: settled_def)
  with assms show ?thesis by (simp add: K_settled idle_def)
qed

lemma standing_MIC:
  assumes "standing w i m x"
  shows "ensures (mod_sm i (\<lambda>m. m\<lparr>sm_MICVerified := True, sm_timeouts := [], sm_pending_1_of_4_timeout := False\<rparr>) x)
    (standing w i (m\<lparr>sm_MICVerified := True\<rparr>))"
proof -
  let ?m = "m\<lparr>sm_MICVerified := True, sm_timeouts := [], sm_pending_1_of_4_timeout := False\<rparr>"
  have c: "core ?m = core (m\<lparr>sm_MICVerified := True\<rparr>)" by (simp add: core_def)
  have "settled (m\<lparr>sm_MICVerified := True\<rparr>) = settled m" by (simp add: settled_def)
  then have "ensures (mod_sm i (\<lambda>m. m\<lparr>sm_MICVerified := True, sm_timeouts := [], sm_pending_1_of_4_timeout := False\<rparr>) x) (standing w i ?m)"
    by (intro standing_mod [OF assms]) (simp_all add: core_def K_core [OF c] settled_core [OF c] K_MIC)
  then show ?thesis unfolding standing_core [OF c] .
qed

lemma rx_mic_checked:
  assumes m: "standing w i m x" and f: "f \<in> w_rx w i" "same_but_mic f d"
  shows "ensures (rx_mic (w_env w) i msg d x) (checked w i m f)"
proof -
  let ?m = "m\<lparr>sm_MICVerified := False\<rparr>"
  have reset: "ensures (mod_sm i (\<lambda>m. m\<lparr>sm_MICVerified := False\<rparr>) x) (standing w i ?m)"
    by (rule standing_mod [OF m]) (simp_all add: core_def K_MIC settled_def)
  have no: "checked w i m f (False, d', y)" if "same_but_mic f d'" "standing w i (?m\<lparr>sm_PTK := P\<rparr>) y" for d' y P
    using that unfolding checked_def by (auto intro!: exI [of _ "?m\<lparr>sm_PTK := P\<rparr>"])
  have self: "standing w i (?m\<lparr>sm_PTK := sm_PTK ?m\<rparr>) y" if "standing w i ?m y" for y using that by simp
  have yes: "ensures (mod_sm i (\<lambda>m. m\<lparr>sm_MICVerified := True, sm_timeouts := [], sm_pending_1_of_4_timeout := False\<rparr>) y \<bind> (\<lambda>s. Some (True, d', s)))
      (checked w i m f)" if "same_but_mic f d'" "standing w i (?m\<lparr>sm_PTK := P\<rparr>) y" "sm_PTK_valid m" for d' y P
    by (rule ensures_bind, rule ensures_conseq [OF standing_MIC [OF that(2)]], rule ensures_Some)
       (use that in \<open>auto simp: checked_def intro!: exI [of _ "?m\<lparr>sm_PTK := P, sm_MICVerified := True\<rparr>"]\<close>)
  have skip: "checked w i m f (True, d, y)" if "standing w i ?m y" "\<not> (sm_PTK_valid m \<and> \<not> sm_update_snonce m)" for y
    using that f(2) unfolding checked_def by (auto intro!: exI [of _ ?m])
  let ?Q = "\<lambda>(ok, d', z). same_but_mic f d' \<and> (\<exists>P. standing w i (?m\<lparr>sm_PTK := P\<rparr>) z)"
  have alt: "ensures (wpa_try_alt_snonce (w_env w) i d' y \<bind> (\<lambda>(rc, data, s). Some (rc = 0, data, s))) ?Q"
    if "standing w i ?m y" "sm_PTK_valid m" "same_but_mic f d'" for y d'
    by (rule ensures_bind, rule ensures_conseq [OF try_alt_post [OF that(1) _ f(1) that(3)]]) (auto intro!: ensures_Some simp: that(2))
  have main: "ensures (if mic_len = 0 then Some (True, d, y)
          else wpa_verify_key_mic h akm l ptk d \<bind> (\<lambda>(rc, data). if rc = 0 then Some (True, data, y)
            else if g then Some (False, data, y)
            else wpa_try_alt_snonce (w_env w) i data y \<bind> (\<lambda>(rc, data, s). Some (rc = 0, data, s)))) ?Q"
    if y: "standing w i ?m y" "sm_PTK_valid m" for y g h akm l ptk and mic_len :: nat
  proof -
    have "?Q (ok, d', y)" if "same_but_mic f d'" for ok d' using that self [OF y(1)] unfolding prod.case by blast
    then show ?thesis
      using f(2)
      by (intro ensures_if ensures_Some bind_any [of "wpa_verify_key_mic h akm l ptk d"] ensures_prod alt y) (auto dest: verify_same)
  qed
  show ?thesis
    unfolding rx_mic_def
    apply (rule ensures_bind, rule ensures_conseq [OF reset])
    apply (rule standing_get, assumption)
    apply (frule core_eqs(14), frule core_eqs(11))
    apply (rule ensures_if)
     apply (rule ensures_bind, rule ensures_conseq [OF main], assumption, simp)
     apply (auto intro!: ensures_Some no yes skip)
    done
qed

lemma received_store:
  "pairwise_key_received (rx_store ki d m) \<longleftrightarrow> ki AND WPA_KEY_INFO_REQUEST = 0 \<and> ki AND WPA_KEY_INFO_KEY_TYPE \<noteq> 0"
  by (auto simp: pairwise_key_received_def rx_store_def)

lemma rx_finish_TInv:
  assumes c: "checked w i m f (True, d, x)" and f: "f \<in> w_rx w i" and msg: "msg = rx_classify ki kl ml" "rx_state_ok m msg"
  shows "ensures (rx_finish (w_env w) n i msg ki kl d x) (TInv w)"
proof -
  from c obtain b where d: "same_but_mic f d" and b: "standing w i b x" "sm_ptk_state b = sm_ptk_state m"
    "sm_update_snonce b = sm_update_snonce m" "sm_PTK_valid b = sm_PTK_valid m" "sm_MICVerified b \<longrightarrow> sm_PTK_valid b"
    "sm_PTK_valid b \<and> \<not> sm_update_snonce b \<longrightarrow> sm_MICVerified b" by (auto simp: checked_def)
  let ?tail = "\<lambda>x. let (ok, s) = ask (we_malloc (w_env w)) x in
       if \<not> ok then mod_sm i (\<lambda>m. m\<lparr>sm_last_rx_eapol_key := None\<rparr>) s
       else mod_sm i (rx_store ki d) s \<bind> (\<lambda>s. wpa_sm_step (w_env w) n i s \<bind> (\<lambda>(r, s). Some s))"
  have req: "ensures (?tail y) (TInv w)" if y: "TInv w y" and r: "ki AND WPA_KEY_INFO_REQUEST \<noteq> 0" for y
  proof (cases "au_sm y i")
    case None then show ?thesis by (simp add: ask_def mod_sm_def ensures_None)
  next
    case (Some a)
    show ?thesis by (rule rx_tail [OF TInv_standing [OF y Some] f d]) (erule store_K [OF _ f d], simp add: received_store r)
  qed
  have pair: "ensures (?tail y) (TInv w)" if "standing w i b y" "ki AND WPA_KEY_INFO_REQUEST = 0" for y
  proof (rule rx_tail [OF that(1) f d], erule store_K [OF _ f d])
    assume "pairwise_key_received (rx_store ki d b)"
    then have "msg = PAIRWISE_2 \<or> msg = PAIRWISE_4" using that(2) msg(1) by (auto simp: received_store rx_classify_def)
    then show "(sm_MICVerified b \<longrightarrow> sm_PTK_valid b) \<and> (sm_ptk_state b \<in> {WPA_PTK_PTKCALCNEGOTIATING2, WPA_PTK_PTKINITNEGOTIATING} \<longrightarrow>
         sm_PTK_valid b \<and> sm_MICVerified b \<or> sm_update_snonce b)"
      using b msg(2) by (auto simp: rx_state_ok_def)
  qed
  have keep: "ensures (mod_sm i (rx_consume msg d) x) (standing w i b)"
    by (rule standing_keep [OF b(1)]) (simp add: rx_consume_def core_def Let_def)
  show ?thesis
  proof (cases "ki AND WPA_KEY_INFO_REQUEST = 0")
    case True
    then show ?thesis
      unfolding rx_finish_def
      by simp (rule ensures_bind, rule ensures_conseq [OF keep], erule pair [unfolded Let_def], assumption)
  next
    case False
    then show ?thesis
      unfolding rx_finish_def
      by simp (rule ensures_bind, rule ensures_conseq [OF rx_request_TInv [OF b(1)]], auto intro!: ensures_Some req [unfolded Let_def])
  qed
qed

lemma either_machine:
  "(if b then if c then None else Some x else if d then Some x else if e then Some y else if g then Some x else None) = Some z \<Longrightarrow>
   z = x \<or> z = y"
  by (auto split: if_splits)

lemma rx_replay_standing:
  assumes "standing w i m s" and "rx_replay m msg ki d = Some m'"
  shows "ensures (mod_sm i (\<lambda>_. m') s) (standing w i m')"
proof (cases "core m' = core m")
  case True
  then show ?thesis
    using K_core [OF True] settled_core [OF True] core_eqs(17) [OF True] by (intro standing_mod [OF assms(1)]) simp_all
next
  case False
  have "m' = m \<or> m' = m\<lparr>sm_update_snonce := True, sm_alt_SNonce := sm_SNonce m, sm_alt_snonce_valid := True,
      sm_alt_replay_counter := rc_counter (hd (sm_key_replay m))\<rparr>"
    using assms(2) unfolding rx_replay_def Let_def by (rule either_machine)
  with False have "m' = m\<lparr>sm_update_snonce := True, sm_alt_SNonce := sm_SNonce m, sm_alt_snonce_valid := True,
      sm_alt_replay_counter := rc_counter (hd (sm_key_replay m))\<rparr>" by blast
  then have c: "core m' = core (m\<lparr>sm_update_snonce := True\<rparr>)" by (simp add: core_def)
  have s: "settled (m\<lparr>sm_update_snonce := True\<rparr>) = settled m" by (simp add: settled_def)
  have "K w i (m\<lparr>sm_update_snonce := True\<rparr>) nc" if "K w i m nc" "settled m" for nc
    using that s by (simp add: K_settled idle_def)
  then show ?thesis
    using K_core [OF c] settled_core [OF c] core_eqs(17) [OF c] s by (intro standing_mod [OF assms(1)]) simp_all
qed

lemma rx_header_msg: "rx_header m data = Some (Some (msg, ki, kl)) \<Longrightarrow> \<exists>ml. msg = rx_classify ki kl ml"
  by (auto simp: rx_header_def Let_def split: if_splits Option.bind_splits)

lemma disconnect_TInv: "TInv w s \<Longrightarrow> ensures (wpa_sta_disconnect (w_env w) (wpa_sm_step (w_env w) n) i r s) (TInv w)"
proof -
  assume "TInv w s"
  then have "TInv w (log_ev (StaDisconnect i r) s)" by (rule TInv_quiet) simp
  then show ?thesis
    unfolding wpa_sta_disconnect_def
    by (intro ensures_bind) (rule ensures_conseq [OF event_TInv], assumption, auto intro: ensures_Some)
qed

lemma receive_TInv:
  assumes T: "TInv w s" and d: "data \<in> w_rx w i"
  shows "ensures (wpa_receive (w_env w) n i data s) (TInv w)"
proof (cases "au_sm s i")
  case None with T show ?thesis by (simp add: wpa_receive_def ensures_None ensures_Some)
next
  case (Some m)
  have same: "same_but_mic data data" by (simp add: same_but_mic_def)
  have fin: "ensures (rx_mic (w_env w) i msg data x \<bind> (\<lambda>(ok, data, s). if \<not> ok then Some s else rx_finish (w_env w) n i msg ki kl data s)) (TInv w)"
    if x: "standing w i m' x" and "msg = rx_classify ki kl ml" "rx_state_ok m' msg" for x msg ki kl ml m'
  proof (rule ensures_bind, rule ensures_conseq [OF rx_mic_checked [OF x d same]], rule ensures_prod, rule ensures_prod, rule ensures_if)
    fix p assume p: "checked w i m' data p"
    show "ensures (Some (snd (snd p))) (TInv w)" using p by (cases p) (auto simp: checked_def standing_TInv intro: ensures_Some)
    assume "\<not> \<not> fst p"
    with p have "checked w i m' data (True, fst (snd p), snd (snd p))" by (cases p) simp
    then show "ensures (rx_finish (w_env w) n i msg ki kl (fst (snd p)) (snd (snd p))) (TInv w)" by (rule rx_finish_TInv [OF _ d that(2,3)])
  qed
  show ?thesis
    unfolding wpa_receive_def Some Option.bind_lunit
    apply (rule ensures_if, rule ensures_Some, rule T)
    apply (rule bind_any, rule ensures_case_option, rule ensures_Some, rule T, rule ensures_prod, rule ensures_prod)
    apply (rule ensures_case_option, rule ensures_Some, rule T)
    apply (rule ensures_bind, rule ensures_conseq [OF rx_replay_standing [OF TInv_standing [OF T Some]]], assumption)
    apply (rule ensures_if, rule ensures_Some, erule standing_TInv)
    apply (rule ensures_if, rule disconnect_TInv, erule standing_TInv)
    apply (rule ensures_if, rule ensures_Some, erule standing_TInv)
    apply (rule ensures_if, rule ensures_Some, erule standing_TInv)
    apply (clarsimp dest!: rx_header_msg)
    apply (simp only: fst_conv snd_conv)
    apply (erule fin, rule refl, assumption)
    done
qed

subsection \<open>The other entry points\<close>

lemma step_end: "ensures op (\<lambda>(r, x). TInv w x) \<Longrightarrow> ensures (op \<bind> (\<lambda>(r, s). Some s)) (TInv w)"
  by (rule ensures_bind, erule ensures_conseq) (auto intro: ensures_Some)

lemma keep_TInv: "TInv w s \<Longrightarrow> (\<And>m. core (f m) = core m) \<Longrightarrow> ensures (mod_sm i f s) (TInv w)"
  by (rule TInv_run, assumption, rule quiet_mod_sm) simp_all

lemma timeout_TInv: "TInv w s \<Longrightarrow> ensures (wpa_send_eapol_timeout (w_env w) n i s) (TInv w)"
  unfolding wpa_send_eapol_timeout_def
  by (rule ensures_bind, rule ensures_conseq [OF keep_TInv], assumption, simp add: core_def, rule step_end, rule TInv_step)

lemma call_step_TInv: "TInv w s \<Longrightarrow> ensures (wpa_sm_call_step (w_env w) n i s) (TInv w)"
  unfolding wpa_sm_call_step_def by (rule step_end, rule TInv_step)

lemma rekey_ptk_TInv:
  assumes "TInv w s" shows "ensures (wpa_rekey_ptk (w_env w) n i s) (TInv w)"
proof (cases "au_sm s i")
  case None then show ?thesis by (simp add: wpa_rekey_ptk_def wpa_request_new_ptk_def mod_sm_def ensures_None)
next
  case (Some m)
  show ?thesis
    unfolding wpa_rekey_ptk_def
    by (rule ensures_bind, rule ensures_conseq [OF request_new_ptk_standing [OF TInv_standing [OF assms Some]]],
        rule step_end, rule TInv_step, erule standing_TInv)
qed

lemma TInv_mod_group: "TInv w s \<Longrightarrow> TInv w (mod_group f s)"
  by (erule TInv_quiet) simp

lemma init_keys_TInv: "TInv w s \<Longrightarrow> ensures (wpa_init_keys (w_env w) n s) (\<lambda>(r, x). TInv w x)"
  unfolding wpa_init_keys_def
  apply (rule ensures_bind, rule ensures_conseq [OF TInv_group_step], assumption)
  apply (rule ensures_bind, rule ensures_conseq [OF TInv_group_step], erule TInv_mod_group)
  apply (rule ensures_Some, simp)
  done

lemma reconfig_TInv:
  assumes "TInv w s" shows "ensures (wpa_reconfig (w_env w) n conf s) (\<lambda>(r, x). TInv w x)"
proof -
  have q: "TInv w t" if "quiet {} s t" for t by (rule TInv_quiet [OF assms that])
  show ?thesis
    unfolding wpa_reconfig_def Let_def
    apply (rule bind_any)
    subgoal for r
      apply (cases r)
       apply (simp add: q ensures_Some)
      apply simp
      apply (rule ensures_bind, rule ensures_conseq [OF TInv_group_step], rule q, simp)
      apply (rule ensures_bind, rule ensures_conseq [OF TInv_group_step], erule TInv_mod_group)
      apply (rule ensures_Some, simp)
      done
    done
qed

lemma init_TInv:
  assumes "wpa_init (w_env w) (w_aa w) conf = Some (Some s)" shows "TInv w s"
proof -
  let ?s0 = "\<lambda>wa. \<lparr>au_wa = wa, au_sm = \<lambda>_. None, au_list = [], au_tick = 0, au_log = []\<rparr>"
  have start: "TInv w (?s0 wa)" if "wa_addr wa = w_aa w" for wa using that by (simp add: TInv_def GInv_def inloop_def)
  have grp: "quiet {} x y" if "wpa_group_init (w_env w) x = Some y" for x y
  proof -
    have "quiet {} x (snd (wpa_group_init_gmk_and_counter (w_env w) t)) \<longleftrightarrow> quiet {} x t" for t by simp
    with that show ?thesis by (auto simp: wpa_group_init_def ask_def Let_def case_prod_beta split: if_splits)
  qed
  let ?wa = "\<lambda>ie. \<lparr>wa_addr = w_aa w, wa_conf = conf, wa_group = group_zero, wa_wpa_ie = ie, wa_remote_mic_failures = 0,
      wa_countermeasures = 0, wa_4way_failures = 0, wa_rekey_gtk_timer = False, wa_rekey_gmk_timer = False\<rparr>"
  from assms obtain ie t where "wpa_group_init (w_env w) (?s0 (?wa ie)) = Some t"
    "s = mod_wa (\<lambda>a. a\<lparr>wa_rekey_gmk_timer := ac_wpa_gmk_rekey conf, wa_rekey_gtk_timer := ac_wpa_group_rekey conf\<rparr>) t"
    by (auto simp: wpa_init_def Let_def split: Option.bind_splits sum.splits option.splits)
  with start [of "?wa ie"] show ?thesis by (auto dest!: grp intro: TInv_quiet)
qed

lemma sta_init_TInv:
  assumes T: "TInv w s" and "au_sm s i = None" shows "TInv w (wpa_auth_sta_init i (w_spa w i) s)"
proof -
  let ?m = "sm_zero\<lparr>sm_addr := w_spa w i\<rparr>"
  have "K w i ?m nc" "settled ?m" "\<not> sm_in_step_loop ?m" for nc
    by (simp_all add: K_def idle_def settled_def pairwise_key_received_def sm_zero_def)
  then have "TInv w (s\<lparr>au_sm := (au_sm s)(i \<mapsto> ?m), au_list := i # au_list s\<rparr>)"
    using T by (simp add: TInv_def GInv_def inloop_def) blast
  with T show ?thesis by (simp add: wpa_auth_sta_init_def)
qed

lemma associated_TInv:
  assumes T: "TInv w s" and m: "au_sm s i = Some m" "sm_started m \<Longrightarrow> \<not> sm_PTK_valid m"
  shows "ensures (wpa_auth_sta_associated (w_env w) n i s) (\<lambda>(r, x). TInv w x)"
proof -
  note st = TInv_standing [OF T m(1)]
  have re: "ensures (mod_sm i (\<lambda>m. m\<lparr>sm_key_replay := c, sm_ReAuthenticationRequest := True\<rparr>) s) (TInv w)" if "\<not> sm_PTK_valid m" for c
  proof (rule ensures_conseq [OF standing_mod [OF st] standing_TInv])
    have s: "settled (m\<lparr>sm_key_replay := c, sm_ReAuthenticationRequest := True\<rparr>) = settled m" by (simp add: settled_def pairwise_key_received_def)
    then show "settled m \<Longrightarrow> settled (m\<lparr>sm_key_replay := c, sm_ReAuthenticationRequest := True\<rparr>)" by simp
    fix nc assume "K w i m nc" "settled m"
    then show "K w i (m\<lparr>sm_key_replay := c, sm_ReAuthenticationRequest := True\<rparr>) nc" using that s by (simp add: K_settled idle_def)
  qed (simp_all add: core_def)
  have K: "ensures (mod_sm i (\<lambda>m. m\<lparr>sm_started := True, sm_Init := True\<rparr>) s) (TInv w)"
  proof (rule ensures_conseq [OF standing_mod [OF st] standing_TInv])
    have c: "core (m\<lparr>sm_started := True, sm_Init := True\<rparr>) = core (m\<lparr>sm_Init := True\<rparr>)" by (simp add: core_def)
    fix nc assume "K w i m nc" "settled m"
    then show "K w i (m\<lparr>sm_started := True, sm_Init := True\<rparr>) nc" unfolding K_core [OF c] by (rule K_clear(5))
  qed (simp_all add: core_def settled_def pairwise_key_received_def)
  have go: "ensures (mod_sm i (\<lambda>m. m\<lparr>sm_Init := False, sm_AuthenticationRequest := True\<rparr>) y) (TInv w)" if y: "TInv w y" for y
  proof (cases "au_sm y i")
    case None then show ?thesis by (simp add: mod_sm_def ensures_None)
  next
    case (Some a)
    show ?thesis
      by (rule ensures_conseq [OF standing_mod [OF TInv_standing [OF y Some]] standing_TInv]) (simp_all add: core_def K_clear(6) settled_def)
  qed
  show ?thesis
    unfolding wpa_auth_sta_associated_def m(1) Option.bind_lunit
    apply (rule ensures_if, rule ensures_Some, simp add: T)
    apply (rule ensures_if)
     apply (rule ensures_bind, rule ensures_conseq [OF re], erule m(2), erule TInv_step)
    apply (rule ensures_bind, rule ensures_conseq [OF K])
    apply (rule ensures_bind, rule ensures_conseq [OF TInv_step], assumption, clarify)
    apply (rule ensures_if, rule ensures_Some, simp)
    apply (rule ensures_bind, rule ensures_conseq [OF go], assumption, erule TInv_step)
    done
qed

subsection \<open>Reachable states\<close>

text \<open>The calls that reach the authenticator, in any order.  \<open>negotiated\<close> is what \<^verbatim>\<open>wpa_validate_wpa_ie\<close>, the PMKSA
  cache and the IEEE 802.1X machine store into the machine of a station; \<open>associated\<close> follows the event
  \<^verbatim>\<open>WPA_ASSOC\<close>, which has cleared the pairwise key of a machine that was started before
  (\<^verbatim>\<open>handle_assoc_cb\<close>, \<^verbatim>\<open>hostapd_notif_assoc\<close>); the frames that \<open>receive\<close> takes for station \<open>i\<close> are those of \<open>w_rx w i\<close>.\<close>

inductive auth_reach :: "world \<Rightarrow> auth \<Rightarrow> bool" for w where
  init: "wpa_init (w_env w) (w_aa w) conf = Some (Some s) \<Longrightarrow> auth_reach w s"
| init_keys: "auth_reach w s \<Longrightarrow> wpa_init_keys (w_env w) n s = Some (r, s') \<Longrightarrow> auth_reach w s'"
| reconfig: "auth_reach w s \<Longrightarrow> wpa_reconfig (w_env w) n conf s = Some (r, s') \<Longrightarrow> auth_reach w s'"
| sta_init: "auth_reach w s \<Longrightarrow> au_sm s i = None \<Longrightarrow> auth_reach w (wpa_auth_sta_init i (w_spa w i) s)"
| negotiated: "auth_reach w s \<Longrightarrow> au_sm s i = Some m \<Longrightarrow>
    auth_reach w (s\<lparr>au_sm := (au_sm s)(i \<mapsto> m\<lparr>sm_wpa_ie := ie, sm_wpa := v, sm_pairwise := c, sm_wpa_key_mgmt := akm,
      sm_mgmt_frame_prot := mfp, sm_pmksa := pmksa, sm_pmkid := pmkid, sm_pmkid_set := given, sm_keyRun := kr, sm_keyAvailable := ka,
      sm_is_wnmsleep := sleep\<rparr>)\<rparr>)"
| associated: "auth_reach w s \<Longrightarrow> au_sm s i = Some m \<Longrightarrow> \<not> (sm_started m \<and> sm_PTK_valid m) \<Longrightarrow>
    wpa_auth_sta_associated (w_env w) n i s = Some (r, s') \<Longrightarrow> auth_reach w s'"
| no_wpa: "auth_reach w s \<Longrightarrow> wpa_auth_sta_no_wpa i s = Some s' \<Longrightarrow> auth_reach w s'"
| event: "auth_reach w s \<Longrightarrow> wpa_auth_sm_event (w_env w) (wpa_sm_step (w_env w) n) ev i s = Some (r, s') \<Longrightarrow> auth_reach w s'"
| receive: "auth_reach w s \<Longrightarrow> data \<in> w_rx w i \<Longrightarrow> wpa_receive (w_env w) n i data s = Some s' \<Longrightarrow> auth_reach w s'"
| timeout: "auth_reach w s \<Longrightarrow> wpa_send_eapol_timeout (w_env w) n i s = Some s' \<Longrightarrow> auth_reach w s'"
| tx_status: "auth_reach w s \<Longrightarrow> wpa_auth_eapol_key_tx_status i ack s = Some s' \<Longrightarrow> auth_reach w s'"
| call_step: "auth_reach w s \<Longrightarrow> wpa_sm_call_step (w_env w) n i s = Some s' \<Longrightarrow> auth_reach w s'"
| rekey_ptk: "auth_reach w s \<Longrightarrow> wpa_rekey_ptk (w_env w) n i s = Some s' \<Longrightarrow> auth_reach w s'"
| rekey_gtk: "auth_reach w s \<Longrightarrow> wpa_rekey_gtk (w_env w) n s = Some s' \<Longrightarrow> auth_reach w s'"
| rekey_gmk: "auth_reach w s \<Longrightarrow> auth_reach w (wpa_rekey_gmk (w_env w) s)"
| countermeasures: "auth_reach w s \<Longrightarrow> tkip_countermeasures_start (w_env w) s = Some s' \<Longrightarrow> auth_reach w s'"
| reconfig_group_keys: "auth_reach w s \<Longrightarrow> wpa_auth_reconfig_group_keys (w_env w) s = Some s' \<Longrightarrow> auth_reach w s'"
| deinit: "auth_reach w s \<Longrightarrow> wpa_auth_sta_deinit i s = Some s' \<Longrightarrow> auth_reach w s'"

lemma ensuresD2: "ensures m (\<lambda>(r, x). Q x) \<Longrightarrow> m = Some (r, x) \<Longrightarrow> Q x"
  by (simp add: ensures_def)

lemma negotiated_TInv:
  assumes "TInv w s" and "au_sm s i = Some m" and "core m' = core m" shows "TInv w (s\<lparr>au_sm := (au_sm s)(i \<mapsto> m')\<rparr>)"
  by (rule TInv_quiet [OF assms(1)], rule quiet_upd [OF quiet_refl assms(2,3)])

lemma no_wpa_TInv: "TInv w s \<Longrightarrow> ensures (wpa_auth_sta_no_wpa i s) (TInv w)"
  unfolding wpa_auth_sta_no_wpa_def by (erule keep_TInv) (simp add: core_def)

lemma tx_status_TInv: "TInv w s \<Longrightarrow> ensures (wpa_auth_eapol_key_tx_status i ack s) (TInv w)"
  unfolding wpa_auth_eapol_key_tx_status_def by (erule keep_TInv) (simp add: core_def)

lemma reconfig_group_keys_TInv: "TInv w s \<Longrightarrow> ensures (wpa_auth_reconfig_group_keys e s) (TInv w)"
  unfolding wpa_auth_reconfig_group_keys_def
  by (rule TInv_run, assumption) (rule quiet_bind [of _ "{}" s] run_rules quiet_runs | (simp; fail))+

lemmas entry_TInv = ensuresD2 [OF init_keys_TInv] ensuresD2 [OF reconfig_TInv] ensuresD [OF no_wpa_TInv] ensuresD2 [OF event_TInv]
  ensuresD [OF receive_TInv] ensuresD [OF timeout_TInv] ensuresD [OF tx_status_TInv] ensuresD [OF call_step_TInv]
  ensuresD [OF rekey_ptk_TInv] ensuresD [OF rekey_gtk_TInv] ensuresD [OF countermeasures_TInv] ensuresD [OF reconfig_group_keys_TInv]
  ensuresD [OF deinit_TInv]

lemma auth_reach_TInv: "auth_reach w s \<Longrightarrow> TInv w s"
proof (induction rule: auth_reach.induct)
  case (init conf s) then show ?case by (rule init_TInv)
next
  case (sta_init s i) then show ?case by (intro sta_init_TInv)
next
  case (negotiated s i m ie v c akm mfp pmksa pmkid given kr ka sleep)
  then show ?case by (intro negotiated_TInv) (simp_all add: core_def)
next
  case (associated s i m n r s')
  show ?case
    by (rule ensuresD2 [OF associated_TInv [OF associated.IH associated.hyps(2)] associated.hyps(4)]) (use associated.hyps(3) in blast)
next
  case (rekey_gmk s) show ?case by (rule TInv_quiet [OF rekey_gmk.IH]) simp
qed (blast intro: entry_TInv)+

subsection \<open>The keys of the driver\<close>

lemma keys_fresh_tl: "keys_fresh P i (ev # l) \<Longrightarrow> keys_fresh P i l"
  by (cases "(P, i, ev # l)" rule: keys_fresh.cases) (auto split: if_splits option.splits)

lemma keys_fresh_at:
  "keys_fresh P i (a @ SetKey (Some i) alg idx key r # l) \<Longrightarrow> alg \<noteq> WPA_ALG_NONE \<Longrightarrow> \<exists>n. nonce_of i l = Some n \<and> P n alg key"
proof (induction a)
  case Nil then show ?case by (auto split: option.splits)
next
  case (Cons ev a) then show ?case using keys_fresh_tl by fastforce
qed

text \<open>No nonce is drawn for station \<open>i\<close> and no pairwise key of it set among the events.\<close>

definition no_key_event :: "nat \<Rightarrow> au_event list \<Rightarrow> bool" where
  "no_key_event i l \<longleftrightarrow> (\<forall>n. ANonceDrawn i n \<notin> set l) \<and> (\<forall>alg idx key r. SetKey (Some i) alg idx key r \<in> set l \<longrightarrow> alg = WPA_ALG_NONE)"

lemma nonce_of_split:
  "nonce_of i l = Some n \<Longrightarrow> \<exists>a b. l = a @ ANonceDrawn i n # b \<and> no_key_event i a"
proof (induction l)
  case Nil then show ?case by simp
next
  case (Cons ev l)
  show ?case
  proof (cases "\<exists>n'. ev = ANonceDrawn i n'")
    case True
    with Cons.prems have "ev # l = [] @ ANonceDrawn i n # l" by auto
    then show ?thesis unfolding no_key_event_def by (metis empty_iff empty_set)
  next
    case False
    with Cons.prems have l: "nonce_of i l = Some n" and ev: "\<forall>alg idx key r. ev = SetKey (Some i) alg idx key r \<longrightarrow> alg = WPA_ALG_NONE"
      by (cases "(i, ev # l)" rule: nonce_of.cases; auto split: if_splits)+
    from Cons.IH [OF l] obtain a b where "l = a @ ANonceDrawn i n # b" "no_key_event i a" by blast
    with False ev have "ev # l = (ev # a) @ ANonceDrawn i n # b" "no_key_event i (ev # a)"
      unfolding no_key_event_def set_simps insert_iff by (simp, metis)
    then show ?thesis by blast
  qed
qed


text \<open>A station of an access point for SAE, with answers that do not change.\<close>

definition demo_conf :: wpa_auth_conf where
  "demo_conf = wpa_auth_config.extend sae_conf (wpa_auth_conf.fields False False False False 4 4 False 2 False False)"

definition demo_world :: world where
  "demo_world = \<lparr>w_env = \<lparr>we_hm512 = \<lambda>_ _. None, we_random = \<lambda>_ n. Some (replicate n 1), we_set_key = \<lambda>_. 0,
       we_get_seqnum = \<lambda>_. None, we_malloc = \<lambda>_. True, we_ntp = \<lambda>_. replicate 8 2, we_get_psk = \<lambda>_ _. [replicate 32 3],
       we_get_msk = \<lambda>_ _. None, we_pool_ready = \<lambda>_. True, we_group_ptr = replicate 8 4, we_mic_failure = \<lambda>_. 0\<rparr>,
     w_aa = replicate 6 5, w_spa = \<lambda>_. replicate 6 6, w_rx = \<lambda>_. UNIV\<rparr>"

lemma demo_ie: "\<exists>ie. wpa_auth_gen_wpa_ie sae_conf = Some (Inr ie)"
  by (simp add: wpa_auth_gen_wpa_ie_def append_ie_def wpa_write_rsn_ie_def sae_conf_def put_def wpa_cipher_to_suite_def
      rsn_cipher_put_suites_def rsn_cipher_suites_def sel_list_def put_suite_list_def put_selectors_def rsn_akm_suites_def
      rsn_capab_def mfp_capab_def rsn_put_pmkid_def rsn_put_mgmt_def group_mgmt_suite_def set_ie_len_def wpa_key_mgmt_ft_def
      put_defs push_bit_eq_mult drop_bit_eq_div)

lemma demo_init: "\<exists>s. wpa_init (w_env demo_world) (w_aa demo_world) demo_conf = Some (Some s) \<and> (\<forall>i. au_sm s i = None)
    \<and> wg_state (au_group s) = WPA_GROUP_GTK_INIT"
proof -
  from demo_ie obtain ie where ie: "wpa_auth_gen_wpa_ie sae_conf = Some (Inr ie)" by blast
  have trunc: "wpa_auth_config.truncate demo_conf = sae_conf"
    by (simp add: demo_conf_def sae_conf_def wpa_auth_config.defs wpa_auth_conf.defs)
  have counter: "sha1_prf (replicate 32 1) (ascii ''Init Counter'') (replicate 6 5 @ replicate 8 2 @ replicate 8 4) n =
      Some (take n (prf_80211 (replicate 32 1) (ascii ''Init Counter'') (replicate 6 5 @ replicate 8 2 @ replicate 8 4) n))" for n
    by (rule sha1_prf_eq) (simp_all add: sha1_small_def ascii_def)
  show ?thesis
    by (simp add: wpa_init_def trunc ie wpa_group_init_def wpa_group_init_gmk_and_counter_def random_get_bytes_def ask_def mod_wa_def
        mod_group_def demo_world_def counter group_zero_def)
qed

lemma demo_reach: "\<exists>s. auth_reach demo_world s \<and> au_sm s 1 = Some (sm_zero\<lparr>sm_addr := replicate 6 6\<rparr>)"
proof -
  from demo_init obtain s where s: "wpa_init (w_env demo_world) (w_aa demo_world) demo_conf = Some (Some s)" "au_sm s 1 = None"
    "wg_state (au_group s) = WPA_GROUP_GTK_INIT" by blast
  have "auth_reach demo_world (wpa_auth_sta_init 1 (w_spa demo_world 1) s)"
    by (rule auth_reach.sta_init [OF auth_reach.init [OF s(1)] s(2)])
  moreover have "au_sm (wpa_auth_sta_init 1 (w_spa demo_world 1) s) 1 = Some (sm_zero\<lparr>sm_addr := replicate 6 6\<rparr>)"
    using s(3) by (simp add: wpa_auth_sta_init_def demo_world_def)
  ultimately show ?thesis by blast
qed




end
