(* ===== verification/Spec2Isabelle.thy ===== *)
theory Spec2Isabelle
  imports TextCodec Wpabuf HmacSuite DhGroupsFacts SaeSec RsnRoundtrip PmksaRefine AesModesFacts WpaAuthSec
begin

text \<open>
  \<^bold>\<open>The WPA3 core of hostap.\<close>

  The repository is hostap (hostapd and wpa\_supplicant); paths below are relative to \<^verbatim>\<open>src/hostap/src/\<close>.  The
  development follows a station through the access point: it authenticates with SAE (\<^verbatim>\<open>common/sae.c\<close>, driven
  by \<^verbatim>\<open>ap/ieee802_11.c\<close>), the resulting master key is kept in the PMKSA cache (\<^verbatim>\<open>ap/pmksa_cache_auth.c\<close>), the station
  names its suites in an RSN element (\<^verbatim>\<open>common/wpa_common.c\<close>, \<^verbatim>\<open>ap/wpa_auth_ie.c\<close>), and the authenticator
  (\<^verbatim>\<open>ap/wpa_auth.c\<close>) runs the 4-way handshake and the group key handshake with it, on EAPOL-Key frames protected by
  the functions of \<^verbatim>\<open>crypto/\<close>.

  \<^bold>\<open>How code is modelled.\<close>  Machine integers are words of their width.  Octet strings are lists of 8 bit words.  A
  C function that cannot touch memory outside of its objects is a HOL function; one that can is a run in the option
  monad (type \<open>run\<close> of \<open>Prelude\<close>), where \<open>None\<close> is an access outside of an object, the use of a missing or freed
  pointer, or a call that ends the process.  Error codes are values of the result.  Loops are recursive functions with
  termination proofs; the two exceptions are \<open>wpa_sm_step\<close> and the loop of \<open>wpa_rekey_gtk\<close>, which call each other through
  the machines of the stations and have a bound on the depth and the number of rounds.  The safety theorems hold
  for every bound, so no value of it has to be chosen.  Libraries and services that the code calls (OpenSSL's big numbers and curves,
  HMAC-SHA-512, the driver, the random number generator, the allocator where its failure is handled, the clock) are
  parameters; the laws they are assumed to obey are locales or named hypotheses with concrete instances.

  \<^bold>\<open>Basic components.\<close>
  \<^item> \<open>Prelude\<close>: types, the option monad with its rules for postconditions (\<open>ensures\<close>), endian accessors of
    \<^verbatim>\<open>utils/common.h\<close>, \<^verbatim>\<open>os_memcmp_const\<close>.
  \<^item> \<open>TextCodec\<close>: hex, address, printf and UTF-8 codecs of \<^verbatim>\<open>utils/common.c\<close>; round trips.
  \<^item> \<open>Wpabuf\<close>: \<^verbatim>\<open>utils/wpabuf.c\<close>; the buffer invariant, contents of every operation, the interface \<open>append_buffer\<close>.

  \<^bold>\<open>Cryptography.\<close>
  \<^item> \<open>MdHash\<close>, \<open>Sha256\<close>, \<open>Sha512\<close>, \<open>Sha1\<close>, \<open>Md5\<close>: the internal hash functions against FIPS 180-4 and RFC 1321, for every
    split of the input; the buffering code is proved once in the locale \<open>md_hash\<close>.  \<open>Md5\<close> also holds RC4.
  \<^item> \<open>Hmac\<close>, \<open>HmacSuite\<close>: HMAC and the derivation functions of \<^verbatim>\<open>crypto/sha1*.c\<close>, \<^verbatim>\<open>sha256*.c\<close>, \<^verbatim>\<open>sha384*.c\<close>; the locales
    \<open>hash_vector\<close> and \<open>keyed_prf\<close>.
  \<^item> \<open>Aes\<close>, \<open>AesFacts\<close>, \<open>AesModes\<close>, \<open>AesModesFacts\<close>: the table driven cipher of \<^verbatim>\<open>crypto/aes-internal*.c\<close> (decryption
    inverts encryption) and key wrap, CTR, CBC, CMAC and SIV over any \<open>block_cipher\<close>.
  \<^item> \<open>NumTheory\<close>, \<open>CryptoOpenssl\<close>, \<open>DhGroups\<close>, \<open>DhGroupsFacts\<close>: the wrappers of \<^verbatim>\<open>crypto/crypto_openssl.c\<close> over the
    laws \<open>openssl_bn\<close>, the groups of \<^verbatim>\<open>crypto/dh_groups.c\<close> and the Diffie-Hellman exchange.

  \<^bold>\<open>SAE.\<close>
  \<^item> \<open>Sae\<close>: every function of \<^verbatim>\<open>common/sae.c\<close>.  \<open>SaeFfc\<close>, \<open>SaeMsg\<close>, \<open>SaeEcc\<close>: two parties with one password agree on
    PMK, PMKID and KCK and accept each other, over a finite field and over a curve (locales \<open>sae_group\<close>, \<open>openssl_ec\<close>).
    \<open>SaeBlind\<close>: the blinded quadratic residue test and the constant time search for the password element equal
    their plain specifications.  \<open>SaeParse\<close>: the parser of Commit messages.
  \<^item> \<open>SaeAp\<close>: the SAE part of \<^verbatim>\<open>ap/ieee802_11.c\<close>.  \<open>SaeFsm\<close>: the abstract state machine of IEEE 802.11 and the refinement.
    \<open>SaeSec\<close>: who is accepted and when, reachable states, anti-clogging tokens, and two runs in which the code fails.

  \<^bold>\<open>Elements, keys, cache.\<close>
  \<^item> \<open>WpaDefs\<close>, \<open>RsnIe\<close>, \<open>RsnWrite\<close>, \<open>RsnRoundtrip\<close>: suites, parsers and writers of RSN and WPA elements; parsers read nothing
    outside of the element, what is written parses back, and when the elements fit their buffer.
  \<^item> \<open>WpaKeys\<close>: the key hierarchy of \<^verbatim>\<open>common/wpa_common.c\<close>.
  \<^item> \<open>Pmksa\<close>, \<open>PmksaFacts\<close>, \<open>PmksaRefine\<close>: the cache as a heap of entries with two threaded lists, refining a list sorted by
    expiration.

  \<^bold>\<open>The authenticator.\<close>
  \<^item> \<open>EapolKey\<close>: the layout of EAPOL-Key frames, their MIC, the key data and its parser.
  \<^item> \<open>WpaAuth\<close>: \<^verbatim>\<open>ap/wpa_auth.c\<close>: the records \<open>wpa_state_machine\<close>, \<open>wpa_group\<close>, \<open>wpa_authenticator\<close>; one definition per
    state (\<open>WPA_PTK_..._Enter\<close>), the transitions (\<open>WPA_PTK_Step\<close>, \<open>WPA_PTK_GROUP_Step\<close>, \<open>wpa_group_sm_step\<close>), the step loop
    \<open>wpa_sm_step\<close>, frames sent (\<open>wpa_send_eapol\<close>) and received (\<open>wpa_receive\<close>), events, timers, association, rekeying,
    countermeasures, start and reconfiguration.  What the code does to the rest of the system is a log.
  \<^item> \<open>WpaAuthInv\<close>, \<open>WpaAuthStep\<close>, \<open>WpaAuthLoop\<close>: the invariant of a station through every state, through one step of its
    machine, and for all stations through the loop, in which the machine of one station runs the machines of others.
  \<^item> \<open>WpaAuthSec\<close>: the invariant through every entry point; \<open>auth_reach\<close>, the states that any sequence of calls
    reaches; and what follows: no pairwise key is set twice for one nonce, and each was confirmed by a MIC of the station.

  \<^bold>\<open>Build.\<close>  The definitions follow an access point with \<^verbatim>\<open>CONFIG_SAE\<close>, \<^verbatim>\<open>CONFIG_IEEE80211W\<close>, \<^verbatim>\<open>CONFIG_SUITEB\<close>, \<^verbatim>\<open>CONFIG_SUITEB192\<close>,
  \<^verbatim>\<open>CONFIG_OWE\<close> and \<^verbatim>\<open>CONFIG_DPP\<close> in the modelled files; the key derivations of FILS and FT in \<^verbatim>\<open>common/wpa_common.c\<close> are
  modelled too.  In \<open>WpaAuth\<close> the branches for FT, FILS, mesh, WNM and P2P are compiled out.  An allocation is taken
  to succeed except where the model asks the environment.

  \<^bold>\<open>Not modelled.\<close>  In \<^verbatim>\<open>ap/wpa_auth.c\<close>: VLAN groups, the compiled out branches, MIB and log text, and the test
  hooks.  \<^verbatim>\<open>ap/wpa_auth_ie.c\<close>: \<^verbatim>\<open>wpa_validate_wpa_ie\<close>; what it stores is arbitrary in \<open>auth_reach\<close>.  FT (\<^verbatim>\<open>ap/wpa_auth_ft.c\<close>), the
  supplicant side (\<^verbatim>\<open>rsn_supp/\<close>, \<^verbatim>\<open>wpa_supplicant/\<close>), EAP and TLS (\<^verbatim>\<open>eap_*\<close>, \<^verbatim>\<open>tls/\<close>), RADIUS, WPS, P2P, DPP, MACsec (\<^verbatim>\<open>pae/\<close>), the
  drivers and packet sockets, configuration and control interfaces are separate programs of their own size around this core; the tests, tools and
  vendor headers carry no logic of it.  Not proved: a bound for the loop of \<open>wpa_sm_step\<close> and the count
  of stations in a group rekeying, which WNM sleep makes wrong.
\<close>

end
